(* ===== verification/Prelude.thy ===== *)
theory Prelude
  imports
    Complex_Main
    "HOL-Library.AList"
    "HOL-Library.Char_ord"
    "HOL-Library.List_Lexorder"
    "HOL-Library.Monad_Syntax"
    "HOL-Library.Word"
begin

text \<open>
  Shared vocabulary of the development.

  \<^item> Go maps are association lists (\<open>gomap\<close>) read with \<open>mget\<close>, written with \<open>mput\<close> and
    \<open>mdel\<close>; Go leaves the iteration order of a map open, the model iterates in insertion
    order and no theorem depends on that order.
  \<^item> Go's \<open>float64\<close> is \<open>f64\<close>: a finite value, one of the infinities or NaN, with Go's
    comparisons (every comparison with NaN is false).
  \<^item> A debug assertion (\<open>internal/assert\<close>) is \<open>That\<close>: with assertions enabled a false
    condition is \<open>None\<close>, which stands for the panic; in the release build it is a no-op.
  \<^item> A transition system with a start state is handled once and for all in the locale
    \<open>inductive_invariant\<close>: an invariant that every step keeps holds in every reachable state.
\<close>

section \<open>Go maps\<close>

type_synonym ('k, 'v) gomap = "('k \<times> 'v) list"

abbreviation mget :: "('k, 'v) gomap \<Rightarrow> 'k \<Rightarrow> 'v option" where
  "mget \<equiv> map_of"

definition mput :: "'k \<Rightarrow> 'v \<Rightarrow> ('k, 'v) gomap \<Rightarrow> ('k, 'v) gomap" where
  "mput k v m = AList.update k v m"

definition mdel :: "'k \<Rightarrow> ('k, 'v) gomap \<Rightarrow> ('k, 'v) gomap" where
  "mdel k m = AList.delete k m"

definition mkeys :: "('k, 'v) gomap \<Rightarrow> 'k list" where
  "mkeys m = map fst m"

definition mwf :: "('k, 'v) gomap \<Rightarrow> bool" where
  "mwf m \<longleftrightarrow> distinct (mkeys m)"

named_theorems gomap_simps \<open>lookup and well-formedness of Go maps\<close>

section \<open>Floating point values, as far as comparisons go\<close>

datatype f64 = Fin rat | PosInf | NegInf | NaN

fun f64_less :: "f64 \<Rightarrow> f64 \<Rightarrow> bool" where
  "f64_less (Fin a) (Fin b) = (a < b)"
| "f64_less (Fin _) PosInf = True"
| "f64_less NegInf (Fin _) = True"
| "f64_less NegInf PosInf = True"
| "f64_less _ _ = False"

fun f64_eq :: "f64 \<Rightarrow> f64 \<Rightarrow> bool" where
  "f64_eq NaN _ = False"
| "f64_eq _ NaN = False"
| "f64_eq a b = (a = b)"

fun f64_IsNaN :: "f64 \<Rightarrow> bool" where
  "f64_IsNaN NaN = True"
| "f64_IsNaN _ = False"

fun f64_IsInf :: "f64 \<Rightarrow> bool" where
  "f64_IsInf PosInf = True"
| "f64_IsInf NegInf = True"
| "f64_IsInf _ = False"

section \<open>Debug assertions\<close>

definition That :: "bool \<Rightarrow> bool \<Rightarrow> unit option" where
  "That enabled cond = (if enabled \<and> \<not> cond then None else Some ())"

section \<open>Strings\<close>

fun joinSep :: "string \<Rightarrow> string list \<Rightarrow> string" where
  "joinSep sep [] = []"
| "joinSep sep [x] = x"
| "joinSep sep (x # y # ys) = x @ sep @ joinSep sep (y # ys)"

fun splitAt :: "char \<Rightarrow> string \<Rightarrow> string list" where
  "splitAt c [] = [[]]"
| "splitAt c (x # xs) =
     (if x = c then [] # splitAt c xs
      else case splitAt c xs of [] \<Rightarrow> [[x]] | y # ys \<Rightarrow> (x # y) # ys)"

text \<open>Decimal numerals, as \<open>%d\<close> prints them.\<close>

definition digit :: "nat \<Rightarrow> char" where
  "digit n = char_of (48 + n)"

fun show_nat :: "nat \<Rightarrow> string" where
  "show_nat n = (if n < 10 then [digit n] else show_nat (n div 10) @ [digit (n mod 10)])"

declare show_nat.simps [simp del]

definition show_int :: "int \<Rightarrow> string" where
  "show_int i = (if i < 0 then CHR ''-'' # show_nat (nat (- i)) else show_nat (nat i))"

section \<open>Transition systems\<close>

inductive reach :: "'s \<Rightarrow> ('s \<Rightarrow> 'l \<Rightarrow> 's \<Rightarrow> bool) \<Rightarrow> 's \<Rightarrow> bool" for s0 step where
  reach_init: "reach s0 step s0"
| reach_step: "reach s0 step s \<Longrightarrow> step s l t \<Longrightarrow> reach s0 step t"

section \<open>Lemmas on Go maps\<close>

lemma mget_mput [simp, gomap_simps]: "mget (mput k v m) = (map_of m)(k \<mapsto> v)"
  by (simp add: mput_def update_conv')

lemma mget_mdel [simp, gomap_simps]: "mget (mdel k m) = (map_of m)(k := None)"
  by (simp add: mdel_def delete_conv')

lemma set_mkeys [gomap_simps]: "set (mkeys m) = dom (map_of m)"
  by (simp add: mkeys_def dom_map_of_conv_image_fst)

lemma mkeys_Nil [simp]: "mkeys [] = []"
  by (simp add: mkeys_def)

lemma mwf_Nil [simp]: "mwf []"
  by (simp add: mwf_def)

lemma mwf_mput [simp, intro]: "mwf m \<Longrightarrow> mwf (mput k v m)"
  by (simp add: mwf_def mkeys_def mput_def distinct_update)

lemma mwf_mdel [simp, intro]: "mwf m \<Longrightarrow> mwf (mdel k m)"
  by (simp add: mwf_def mkeys_def mdel_def distinct_delete)

lemma mwf_filter [simp, intro]: "mwf m \<Longrightarrow> mwf (filter P m)"
  by (simp add: mwf_def mkeys_def distinct_map_filter)

lemma mkeys_mput_new: "mget m k = None \<Longrightarrow> mkeys (mput k v m) = mkeys m @ [k]"
  by (simp add: mkeys_def mput_def update_keys map_of_eq_None_iff image_iff)

lemma mput_new: "mget m k = None \<Longrightarrow> mput k v m = m @ [(k, v)]"
  unfolding mput_def by (induction m) (auto split: if_splits)

lemma mkeys_mdel: "mkeys (mdel k m) = removeAll k (mkeys m)"
  by (simp add: mkeys_def mdel_def delete_keys)

lemma mget_in_set: "mwf m \<Longrightarrow> (k, v) \<in> set m \<longleftrightarrow> mget m k = Some v"
  by (simp add: mwf_def mkeys_def)

lemma list_all_gomap:
  "mwf m \<Longrightarrow> list_all (\<lambda>(k, v). P k v) m \<longleftrightarrow> (\<forall>k v. mget m k = Some v \<longrightarrow> P k v)"
  by (force simp: list_all_iff mget_in_set [symmetric])

lemma mget_filter:
  "mwf m \<Longrightarrow> mget (filter P m) k =
     (case mget m k of None \<Rightarrow> None | Some v \<Rightarrow> if P (k, v) then Some v else None)"
  unfolding mwf_def mkeys_def
  by (induction m) (auto split: option.splits simp: map_of_eq_None_iff image_iff)

lemma length_eq_keys: "mwf m \<Longrightarrow> length m = card (dom (map_of m))"
  by (metis distinct_card length_map mkeys_def mwf_def set_mkeys)

section \<open>Lemmas on assertions and strings\<close>

lemma That_True [simp]: "That en True = Some ()"
  by (simp add: That_def)

lemma That_disabled [simp]: "That False c = Some ()"
  by (simp add: That_def)

lemma That_Some: "That en c = Some u \<longleftrightarrow> (en \<longrightarrow> c)"
  by (simp add: That_def)

lemma That_cond: "c \<Longrightarrow> That en c = Some ()"
  by (simp add: That_def)

lemma splitAt_not_Nil [simp]: "splitAt c s \<noteq> []"
  by (induction s) (auto split: list.splits)

lemma splitAt_no_sep: "x \<in> set (splitAt c s) \<Longrightarrow> c \<notin> set x"
  by (induction s arbitrary: x) (auto split: if_splits list.splits)

lemma splitAt_plain: "c \<notin> set s \<Longrightarrow> splitAt c s = [s]"
  by (induction s) auto

lemma splitAt_append: "c \<notin> set s \<Longrightarrow> splitAt c (s @ c # t) = s # splitAt c t"
  by (induction s) auto

lemma splitAt_joinSep:
  "xs \<noteq> [] \<Longrightarrow> list_all (\<lambda>x. c \<notin> set x) xs \<Longrightarrow> splitAt c (joinSep [c] xs) = xs"
  by (induction "[c]" xs rule: joinSep.induct) (auto simp: splitAt_plain splitAt_append)

lemma joinSep_splitAt: "joinSep [c] (splitAt c s) = s"
proof (induction s)
  case Nil
  show ?case by simp
next
  case (Cons x xs)
  obtain y ys where "splitAt c xs = y # ys"
    by (meson list.exhaust splitAt_not_Nil)
  with Cons show ?case
    by (cases ys) auto
qed

lemma digit_small: "n < 10 \<Longrightarrow> of_char (digit n) = 48 + n"
  by (simp add: digit_def of_char_of take_bit_eq_mod)

lemma digit_inj: "m < 10 \<Longrightarrow> n < 10 \<Longrightarrow> digit m = digit n \<Longrightarrow> m = n"
  by (metis add_left_cancel digit_small)

lemma digit_special: "n < 10 \<Longrightarrow> digit n \<noteq> CHR '':'' \<and> digit n \<noteq> CHR ''-''"
  using digit_small [of n] by auto

lemma show_nat_not_Nil [simp]: "show_nat n \<noteq> []"
  by (subst show_nat.simps) simp

lemma show_nat_special: "CHR '':'' \<notin> set (show_nat n) \<and> CHR ''-'' \<notin> set (show_nat n)"
proof (induction n rule: show_nat.induct)
  case (1 n)
  then show ?case
    using digit_special [of n] digit_special [of "n mod 10"] by (cases "n < 10") (auto simp: show_nat.simps [of n])
qed

lemma show_nat_inj: "show_nat m = show_nat n \<Longrightarrow> m = n"
proof (induction m arbitrary: n rule: show_nat.induct)
  case (1 m)
  show ?case
  proof (cases "m < 10"; cases "n < 10")
    assume "m < 10" "n < 10"
    with "1.prems" show ?thesis by (auto simp: show_nat.simps [of m] show_nat.simps [of n] intro: digit_inj)
  next
    assume a: "\<not> m < 10" "\<not> n < 10"
    with "1.prems" have "show_nat (m div 10) = show_nat (n div 10)" "digit (m mod 10) = digit (n mod 10)"
      by (simp_all add: show_nat.simps [of m] show_nat.simps [of n])
    with "1.IH" [OF a(1)] digit_inj [of "m mod 10" "n mod 10"]
    have "m div 10 = n div 10" "m mod 10 = n mod 10" by auto
    then show ?thesis by (metis div_mult_mod_eq)
  qed (use "1.prems" in \<open>auto simp: show_nat.simps [of m] show_nat.simps [of n] dest: sym\<close>)
qed

lemma show_int_no_colon: "CHR '':'' \<notin> set (show_int i)"
  using show_nat_special by (simp add: show_int_def)

lemma show_int_inj: "show_int i = show_int j \<Longrightarrow> i = j"
  using show_nat_inj [of "nat (- i)" "nat (- j)"] show_nat_inj [of "nat i" "nat j"]
    show_nat_special [of "nat i"] show_nat_special [of "nat j"]
  by (auto simp: show_int_def split: if_splits) (metis list.set_intros(1))+

lemma word_less_succ:
  fixes x :: "'a::len word"
  assumes "x \<noteq> - 1" shows "x < x + 1"
proof -
  have "unat x \<noteq> unat (- 1 :: 'a word)"
    using assms by (metis word_unat_eq_iff)
  then have "unat x \<noteq> 2 ^ LENGTH('a) - 1"
    by (simp add: unsigned_minus_1_eq_mask mask_eq_exp_minus_1)
  moreover have "unat x < 2 ^ LENGTH('a)"
    by (rule unsigned_less)
  ultimately have "unat x + 1 < 2 ^ LENGTH('a)"
    by linarith
  then have "x \<le> x + 1"
    by (simp add: no_plus_overflow_unat_size word_size)
  then show ?thesis
    by (simp add: order.strict_iff_order)
qed

section \<open>Inductive invariants\<close>

locale inductive_invariant =
  fixes s0 :: 's
    and step :: "'s \<Rightarrow> 'l \<Rightarrow> 's \<Rightarrow> bool"
    and inv :: "'s \<Rightarrow> bool"
  assumes inv_init: "inv s0"
    and inv_step: "inv s \<Longrightarrow> step s l t \<Longrightarrow> inv t"
begin

lemma reach_inv: "reach s0 step s \<Longrightarrow> inv s"
  by (induction rule: reach.induct) (auto intro: inv_init inv_step)

lemma reach_weaken: "reach s0 step s \<Longrightarrow> (\<And>t. inv t \<Longrightarrow> P t) \<Longrightarrow> P s"
  by (blast dest: reach_inv)

end

end
