(* ===== verification/Errors.thy ===== *)
theory Errors
  imports Prelude
begin

text \<open>
  Error values. A sentinel (\<open>errors.New\<close> at package level) is a constructor of the kind
  datatype of its package; \<open>OpError\<close> is the structured error every package builds with
  \<open>Wrap\<close> and \<open>New\<close>; \<open>Joined\<close> is what \<open>errors.Join\<close> returns; \<open>Foreign\<close> is an error of
  code outside the repository, with the sentinels it wraps. \<open>errors_Is\<close> is \<open>errors.Is\<close> on
  the tree that the \<open>Unwrap\<close> methods span. The locale \<open>op_errors\<close> states what a caller relies
  on (the category and the cause survive wrapping); it is interpreted for each package.
\<close>

section \<open>Sentinels\<close>

datatype dynamips_kind =
    ErrNotImplemented | ErrConfig | ErrUnsupported | ErrDuplicate | ErrRuntime | ErrCreate
  | ErrCleanup | ErrStorage | ErrNotFound | ErrLifecycle

fun dynamips_msg :: "dynamips_kind \<Rightarrow> string" where
  "dynamips_msg dynamips_kind.ErrNotImplemented = ''provider operation is not implemented''"
| "dynamips_msg dynamips_kind.ErrConfig = ''invalid router configuration''"
| "dynamips_msg dynamips_kind.ErrUnsupported = ''unsupported router configuration''"
| "dynamips_msg dynamips_kind.ErrDuplicate = ''router identity is already in use''"
| "dynamips_msg dynamips_kind.ErrRuntime = ''native runtime is required''"
| "dynamips_msg dynamips_kind.ErrCreate = ''create router''"
| "dynamips_msg dynamips_kind.ErrCleanup = ''clean up router''"
| "dynamips_msg dynamips_kind.ErrStorage = ''router state storage''"
| "dynamips_msg dynamips_kind.ErrNotFound = ''router not found''"
| "dynamips_msg dynamips_kind.ErrLifecycle = ''router lifecycle''"

datatype shitnet_kind =
    ErrConfig | ErrNotFound | ErrDuplicate | ErrState | ErrNetwork | ErrUnsupported

fun shitnet_msg :: "shitnet_kind \<Rightarrow> string" where
  "shitnet_msg shitnet_kind.ErrConfig = ''invalid endpoint configuration''"
| "shitnet_msg shitnet_kind.ErrNotFound = ''endpoint not found''"
| "shitnet_msg shitnet_kind.ErrDuplicate = ''endpoint already exists''"
| "shitnet_msg shitnet_kind.ErrState = ''endpoint is not running''"
| "shitnet_msg shitnet_kind.ErrNetwork = ''endpoint network failure''"
| "shitnet_msg shitnet_kind.ErrUnsupported = ''unsupported endpoint operation''"

datatype libvirt_kind =
    ErrConnect | ErrCreate | ErrInspect | ErrLifecycle | ErrDelete | ErrList | ErrXML | ErrMetadata
  | ErrEvents | ErrConsole | ErrConfig | ErrNilConfig | ErrEmptyName | ErrInvalidUUID | ErrInvalidCPU
  | ErrInvalidMemory | ErrFirmware | ErrBootDevice | ErrDisk | ErrDiskDevice | ErrDiskSource
  | ErrDiskFormat | ErrDiskBus | ErrDiskTarget | ErrInterface | ErrInterfaceBridge
  | ErrInterfaceModel | ErrInterfaceMAC | ErrNotManaged

fun libvirt_msg :: "libvirt_kind \<Rightarrow> string" where
  "libvirt_msg libvirt_kind.ErrConnect = ''failed to connect to libvirt''"
| "libvirt_msg libvirt_kind.ErrCreate = ''failed to create libvirt domain''"
| "libvirt_msg libvirt_kind.ErrInspect = ''failed to inspect libvirt domain''"
| "libvirt_msg libvirt_kind.ErrLifecycle = ''failed to change libvirt domain lifecycle''"
| "libvirt_msg libvirt_kind.ErrDelete = ''failed to delete libvirt domain''"
| "libvirt_msg libvirt_kind.ErrList = ''failed to list libvirt domains''"
| "libvirt_msg libvirt_kind.ErrXML = ''failed to build libvirt domain XML''"
| "libvirt_msg libvirt_kind.ErrMetadata = ''failed to access libvirt domain metadata''"
| "libvirt_msg libvirt_kind.ErrEvents = ''failed to monitor libvirt domain events''"
| "libvirt_msg libvirt_kind.ErrConsole = ''failed to open libvirt domain console''"
| "libvirt_msg libvirt_kind.ErrConfig = ''invalid libvirt domain configuration''"
| "libvirt_msg libvirt_kind.ErrNilConfig = ''nil domain configuration''"
| "libvirt_msg libvirt_kind.ErrEmptyName = ''domain name is empty''"
| "libvirt_msg libvirt_kind.ErrInvalidUUID = ''invalid domain UUID''"
| "libvirt_msg libvirt_kind.ErrInvalidCPU = ''invalid CPU count''"
| "libvirt_msg libvirt_kind.ErrInvalidMemory = ''invalid memory size''"
| "libvirt_msg libvirt_kind.ErrFirmware = ''unsupported firmware''"
| "libvirt_msg libvirt_kind.ErrBootDevice = ''unsupported boot device''"
| "libvirt_msg libvirt_kind.ErrDisk = ''invalid disk configuration''"
| "libvirt_msg libvirt_kind.ErrDiskDevice = ''unsupported disk device''"
| "libvirt_msg libvirt_kind.ErrDiskSource = ''disk source is empty''"
| "libvirt_msg libvirt_kind.ErrDiskFormat = ''unsupported disk format''"
| "libvirt_msg libvirt_kind.ErrDiskBus = ''unsupported disk bus''"
| "libvirt_msg libvirt_kind.ErrDiskTarget = ''invalid disk target''"
| "libvirt_msg libvirt_kind.ErrInterface = ''invalid network interface configuration''"
| "libvirt_msg libvirt_kind.ErrInterfaceBridge = ''interface bridge is empty''"
| "libvirt_msg libvirt_kind.ErrInterfaceModel = ''unsupported interface model''"
| "libvirt_msg libvirt_kind.ErrInterfaceMAC = ''invalid interface MAC address''"
| "libvirt_msg libvirt_kind.ErrNotManaged = ''libvirt domain is not managed by tethux''"

datatype bridge_kind =
    ErrPermissionDenied | ErrPidNotFound | ErrLinkExists | ErrLinkNotFound
  | ErrNamespaceFailed | ErrNamespaceSwitch | ErrFailedToCreate | ErrFailedToFindPeer
  | ErrFailedToSetMTU | ErrMTUOverflow | ErrSockOverflow | ErrPortAlrAttached
  | ErrPortNotFound | ErrFrameTooShort | ErrReadTimeout | ErrInvalidOptions
  | ErrUnsupportedMode | ErrUnknownScheme | ErrPortSetup

fun bridge_msg :: "bridge_kind \<Rightarrow> string" where
  "bridge_msg ErrPermissionDenied = ''insufficient privileges: must run as root''"
| "bridge_msg ErrPidNotFound = ''target process ID not found''"
| "bridge_msg ErrLinkExists = ''veth interface already exists''"
| "bridge_msg ErrLinkNotFound = ''network interface not found''"
| "bridge_msg ErrNamespaceFailed = ''could not access or switch network namespace''"
| "bridge_msg ErrNamespaceSwitch = ''failed to switch network namespace''"
| "bridge_msg ErrFailedToCreate = ''failed to create veth pair''"
| "bridge_msg ErrFailedToFindPeer = ''failed to find peer interface''"
| "bridge_msg ErrFailedToSetMTU = ''failed to set MTU''"
| "bridge_msg ErrMTUOverflow = ''MTU overflow''"
| "bridge_msg ErrSockOverflow = ''socket descriptor overflows uintptr capacity''"
| "bridge_msg ErrPortAlrAttached = ''port already attached''"
| "bridge_msg ErrPortNotFound = ''port not found''"
| "bridge_msg ErrFrameTooShort = ''frame too short''"
| "bridge_msg ErrReadTimeout = ''port read timeout''"
| "bridge_msg ErrInvalidOptions = ''invalid options''"
| "bridge_msg ErrUnsupportedMode = ''unsupported mode''"
| "bridge_msg ErrUnknownScheme = ''unknown port scheme''"
| "bridge_msg ErrPortSetup = ''failed to set up port''"

datatype storage_kind =
    ErrInvalidOptions | ErrInvalidRef | ErrProviderMismatch | ErrNotFound | ErrAlreadyExists
  | ErrConflict | ErrUnsupportedMode | ErrInvalidResourceType | ErrStat | ErrOpen | ErrPut
  | ErrDelete | ErrList | ErrPrepare | ErrCreate | ErrRelease | ErrCopy | ErrMove
  | ErrSourceEqualsDestination | ErrChecksum

fun storage_msg :: "storage_kind \<Rightarrow> string" where
  "storage_msg storage_kind.ErrInvalidOptions = ''invalid storage options''"
| "storage_msg ErrInvalidRef = ''invalid storage reference''"
| "storage_msg ErrProviderMismatch = ''storage provider mismatch''"
| "storage_msg storage_kind.ErrNotFound = ''storage object not found''"
| "storage_msg ErrAlreadyExists = ''storage object already exists''"
| "storage_msg ErrConflict = ''storage object generation conflict''"
| "storage_msg storage_kind.ErrUnsupportedMode = ''unsupported storage preparation mode''"
| "storage_msg ErrInvalidResourceType = ''invalid storage resource type''"
| "storage_msg ErrStat = ''failed to stat storage object''"
| "storage_msg ErrOpen = ''failed to open storage object''"
| "storage_msg ErrPut = ''failed to put storage object''"
| "storage_msg ErrDelete = ''failed to delete storage object''"
| "storage_msg ErrList = ''failed to list storage objects''"
| "storage_msg ErrPrepare = ''failed to prepare storage''"
| "storage_msg ErrCreate = ''failed to create storage object''"
| "storage_msg ErrRelease = ''failed to release storage''"
| "storage_msg ErrCopy = ''failed to copy storage''"
| "storage_msg ErrMove = ''failed to move storage''"
| "storage_msg ErrSourceEqualsDestination = ''source and destination are the same''"
| "storage_msg ErrChecksum = ''failed to calculate storage checksum''"

datatype topology_kind =
    ErrStart | ErrCleanup | ErrUnsupported | ErrDecode | ErrInvalidTopology | ErrInvalidNode
  | ErrInvalidPort | ErrInvalidLink | ErrInvalidView | ErrDuplicateID | ErrNotFound

fun topology_msg :: "topology_kind \<Rightarrow> string" where
  "topology_msg ErrStart = ''start topology''"
| "topology_msg ErrCleanup = ''clean up topology''"
| "topology_msg ErrUnsupported = ''unsupported topology resource''"
| "topology_msg ErrDecode = ''decode topology''"
| "topology_msg ErrInvalidTopology = ''invalid topology''"
| "topology_msg ErrInvalidNode = ''invalid topology node''"
| "topology_msg ErrInvalidPort = ''invalid topology port''"
| "topology_msg ErrInvalidLink = ''invalid topology link''"
| "topology_msg ErrInvalidView = ''invalid topology view''"
| "topology_msg ErrDuplicateID = ''duplicate topology id''"
| "topology_msg topology_kind.ErrNotFound = ''topology resource not found''"

datatype container_kind =
    ErrFailedToCreateClient | ErrOverrideSocketNotAccessible | ErrNoSocketFound | ErrNotASocket
  | ErrInvalidConfig | ErrFailedToStartContainer | ErrFailedToDeleteContainer
  | ErrFailedToInspectContainer | ErrFailedToCreateContainer | ErrFailedToPullImage
  | ErrFailedToCreateExec | ErrFailedToAttachExec | ErrFailedToStdCopy | ErrFailedToLogs
  | ErrFailedToStopContainer | ErrFailedToResumeContainer | ErrFailedToSuspendContainer
  | ErrFailedToReadState | ErrFailedToListContainers | ErrFailedToPrepareIO | ErrExecFailed

fun container_msg :: "container_kind \<Rightarrow> string" where
  "container_msg ErrFailedToCreateClient = ''failed to create client for socket''"
| "container_msg ErrOverrideSocketNotAccessible = ''override socket not accessible''"
| "container_msg ErrNoSocketFound = ''no accessible socket found''"
| "container_msg ErrNotASocket = ''not a socket''"
| "container_msg ErrInvalidConfig = ''invalid container configuration''"
| "container_msg ErrFailedToStartContainer = ''failed to start container''"
| "container_msg ErrFailedToDeleteContainer = ''failed to delete container''"
| "container_msg ErrFailedToInspectContainer = ''failed to inspect container''"
| "container_msg ErrFailedToCreateContainer = ''failed to create container''"
| "container_msg ErrFailedToPullImage = ''failed to pull image''"
| "container_msg ErrFailedToCreateExec = ''failed to create exec''"
| "container_msg ErrFailedToAttachExec = ''failed to attach exec''"
| "container_msg ErrFailedToStdCopy = ''failed to copy process output''"
| "container_msg ErrFailedToLogs = ''failed to read container logs''"
| "container_msg ErrFailedToStopContainer = ''failed to stop container''"
| "container_msg ErrFailedToResumeContainer = ''failed to resume container''"
| "container_msg ErrFailedToSuspendContainer = ''failed to suspend container''"
| "container_msg ErrFailedToReadState = ''failed to read container state''"
| "container_msg ErrFailedToListContainers = ''failed to list containers''"
| "container_msg ErrFailedToPrepareIO = ''failed to prepare container IO''"
| "container_msg ErrExecFailed = ''container exec failed''"

text \<open>Sentinels of the Go standard library and of the operating system that the code tests for.\<close>

datatype os_kind =
    ErrNotExist | ErrExist | ENOTDIR | EISDIR | ENOTEMPTY | EINVAL | ELOOP | EIO
  | IoEOF | ErrShortWrite | ErrNetClosed | NetTimeout | CtxCanceled | CtxDeadlineExceeded

datatype sentinel =
    BridgeKind bridge_kind | StorageKind storage_kind | TopologyKind topology_kind
  | ContainerKind container_kind | DynamipsKind dynamips_kind | ShitnetKind shitnet_kind
  | LibvirtKind libvirt_kind | OS os_kind

section \<open>Error values\<close>

datatype errpkg = PBridge | PStorage | PTopology | PContainer | PDynamips | PShitnet | PLibvirt

datatype gerror =
    Sentinel sentinel
  | OpError errpkg string "gerror option" string "gerror option"
  | Joined "gerror list"
  | Foreign string "sentinel list"

definition bridge_Wrap :: "string \<Rightarrow> bridge_kind \<Rightarrow> string \<Rightarrow> gerror option \<Rightarrow> gerror" where
  "bridge_Wrap operation kind target cause =
     OpError PBridge operation (Some (Sentinel (BridgeKind kind))) target cause"

definition bridge_New :: "string \<Rightarrow> bridge_kind \<Rightarrow> string \<Rightarrow> gerror" where
  "bridge_New operation kind target = bridge_Wrap operation kind target None"

definition storage_Wrap :: "string \<Rightarrow> storage_kind \<Rightarrow> string \<Rightarrow> gerror option \<Rightarrow> gerror" where
  "storage_Wrap provider kind target cause =
     OpError PStorage provider (Some (Sentinel (StorageKind kind))) target cause"

definition storage_New :: "string \<Rightarrow> storage_kind \<Rightarrow> string \<Rightarrow> gerror" where
  "storage_New provider kind target = storage_Wrap provider kind target None"

definition topology_Wrap :: "string \<Rightarrow> topology_kind \<Rightarrow> string \<Rightarrow> gerror option \<Rightarrow> gerror" where
  "topology_Wrap operation kind target cause =
     OpError PTopology operation (Some (Sentinel (TopologyKind kind))) target cause"

definition topology_New :: "string \<Rightarrow> topology_kind \<Rightarrow> string \<Rightarrow> gerror" where
  "topology_New operation kind target = topology_Wrap operation kind target None"

definition container_Wrap :: "string \<Rightarrow> container_kind \<Rightarrow> string \<Rightarrow> gerror option \<Rightarrow> gerror" where
  "container_Wrap provider kind target cause =
     OpError PContainer provider (Some (Sentinel (ContainerKind kind))) target cause"

definition container_New :: "string \<Rightarrow> container_kind \<Rightarrow> string \<Rightarrow> gerror" where
  "container_New provider kind target = container_Wrap provider kind target None"

definition dynamips_Wrap :: "string \<Rightarrow> dynamips_kind \<Rightarrow> string \<Rightarrow> gerror option \<Rightarrow> gerror" where
  "dynamips_Wrap operation kind target cause =
     OpError PDynamips operation (Some (Sentinel (DynamipsKind kind))) target cause"

definition dynamips_New :: "string \<Rightarrow> dynamips_kind \<Rightarrow> string \<Rightarrow> gerror" where
  "dynamips_New operation kind target = dynamips_Wrap operation kind target None"

definition shitnet_Wrap :: "string \<Rightarrow> shitnet_kind \<Rightarrow> string \<Rightarrow> gerror option \<Rightarrow> gerror" where
  "shitnet_Wrap operation kind target cause =
     OpError PShitnet operation (Some (Sentinel (ShitnetKind kind))) target cause"

definition shitnet_New :: "string \<Rightarrow> shitnet_kind \<Rightarrow> string \<Rightarrow> gerror" where
  "shitnet_New operation kind target = shitnet_Wrap operation kind target None"

text \<open>The category of a libvirt error may be several sentinels, joined.\<close>

definition libvirt_kinds :: "libvirt_kind list \<Rightarrow> gerror" where
  "libvirt_kinds ks =
     (case ks of [k] \<Rightarrow> Sentinel (LibvirtKind k) | _ \<Rightarrow> Joined (map (\<lambda>k. Sentinel (LibvirtKind k)) ks))"

definition libvirt_Wrap :: "libvirt_kind list \<Rightarrow> string \<Rightarrow> gerror option \<Rightarrow> gerror" where
  "libvirt_Wrap kinds target cause = OpError PLibvirt ''libvirt'' (Some (libvirt_kinds kinds)) target cause"

definition libvirt_New :: "libvirt_kind list \<Rightarrow> string \<Rightarrow> gerror" where
  "libvirt_New kinds target = libvirt_Wrap kinds target None"

definition errors_Join :: "gerror option list \<Rightarrow> gerror option" where
  "errors_Join es =
     (case List.map_filter id es of [] \<Rightarrow> None | x # xs \<Rightarrow> Some (Joined (x # xs)))"

section \<open>Unwrap, Is and Error\<close>

fun Unwrap :: "gerror \<Rightarrow> gerror list" where
  "Unwrap (OpError _ _ kind _ cause) =
     (case kind of None \<Rightarrow> [] | Some k \<Rightarrow> [k]) @ (case cause of None \<Rightarrow> [] | Some c \<Rightarrow> [c])"
| "Unwrap (Joined es) = es"
| "Unwrap (Sentinel _) = []"
| "Unwrap (Foreign _ ss) = map Sentinel ss"

fun errors_Is :: "gerror \<Rightarrow> sentinel \<Rightarrow> bool" where
  "errors_Is (Sentinel t) s = (t = s)"
| "errors_Is (OpError _ _ kind _ cause) s =
     ((case kind of None \<Rightarrow> False | Some k \<Rightarrow> errors_Is k s) \<or>
      (case cause of None \<Rightarrow> False | Some c \<Rightarrow> errors_Is c s))"
| "errors_Is (Joined es) s = list_ex (\<lambda>e. errors_Is e s) es"
| "errors_Is (Foreign _ ss) s = (s \<in> set ss)"

fun os_msg :: "os_kind \<Rightarrow> string" where
  "os_msg ErrNotExist = ''no such file or directory''"
| "os_msg ErrExist = ''file exists''"
| "os_msg ENOTDIR = ''not a directory''"
| "os_msg EISDIR = ''is a directory''"
| "os_msg ENOTEMPTY = ''directory not empty''"
| "os_msg EINVAL = ''invalid argument''"
| "os_msg ELOOP = ''too many levels of symbolic links''"
| "os_msg EIO = ''input/output error''"
| "os_msg IoEOF = ''EOF''"
| "os_msg ErrShortWrite = ''short write''"
| "os_msg ErrNetClosed = ''use of closed network connection''"
| "os_msg NetTimeout = ''i/o timeout''"
| "os_msg CtxCanceled = ''context canceled''"
| "os_msg CtxDeadlineExceeded = ''context deadline exceeded''"

fun sentinel_msg :: "sentinel \<Rightarrow> string" where
  "sentinel_msg (BridgeKind k) = bridge_msg k"
| "sentinel_msg (StorageKind k) = storage_msg k"
| "sentinel_msg (TopologyKind k) = topology_msg k"
| "sentinel_msg (ContainerKind k) = container_msg k"
| "sentinel_msg (DynamipsKind k) = dynamips_msg k"
| "sentinel_msg (ShitnetKind k) = shitnet_msg k"
| "sentinel_msg (LibvirtKind k) = libvirt_msg k"
| "sentinel_msg (OS k) = os_msg k"

definition container_parts :: "string \<Rightarrow> string option \<Rightarrow> string \<Rightarrow> string option \<Rightarrow> string list" where
  "container_parts provider kind target cause =
     (if provider \<noteq> '''' then [provider] else []) @
     (case kind of None \<Rightarrow> [] | Some k \<Rightarrow> [k]) @
     (if target \<noteq> '''' then [target] else []) @
     (case cause of None \<Rightarrow> [] | Some c \<Rightarrow> [c])"

definition op_parts :: "string \<Rightarrow> string option \<Rightarrow> string \<Rightarrow> string option \<Rightarrow> string list" where
  "op_parts operation kind target cause =
     filter (\<lambda>v. v \<noteq> '''')
       [operation, case kind of None \<Rightarrow> '''' | Some k \<Rightarrow> k,
        target, case cause of None \<Rightarrow> '''' | Some c \<Rightarrow> c]"

definition dynamips_parts :: "string \<Rightarrow> string option \<Rightarrow> string \<Rightarrow> string option \<Rightarrow> string list" where
  "dynamips_parts operation kind target cause =
     [operation, case kind of None \<Rightarrow> '''' | Some k \<Rightarrow> k] @
     (if target \<noteq> '''' then [target] else []) @ (case cause of None \<Rightarrow> [] | Some c \<Rightarrow> [c])"

definition shitnet_parts :: "string \<Rightarrow> string option \<Rightarrow> string \<Rightarrow> string option \<Rightarrow> string list" where
  "shitnet_parts operation kind target cause =
     [operation, case kind of None \<Rightarrow> '''' | Some k \<Rightarrow> k, target] @ (case cause of None \<Rightarrow> [] | Some c \<Rightarrow> [c])"

definition parts_of :: "errpkg \<Rightarrow> string \<Rightarrow> string option \<Rightarrow> string \<Rightarrow> string option \<Rightarrow> string list" where
  "parts_of p =
     (case p of PContainer \<Rightarrow> container_parts | PDynamips \<Rightarrow> dynamips_parts | PShitnet \<Rightarrow> shitnet_parts | _ \<Rightarrow> op_parts)"

fun error_string :: "gerror \<Rightarrow> string" where
  "error_string (Sentinel s) = sentinel_msg s"
| "error_string (OpError p operation kind target cause) =
     joinSep '': ''
       (parts_of p operation
          (map_option error_string kind) target (map_option error_string cause))"
| "error_string (Joined es) = joinSep [CHR 0x0A] (map error_string es)"
| "error_string (Foreign m _) = m"

section \<open>What wrapping keeps\<close>

lemma errors_Is_Unwrap: "errors_Is e s \<longleftrightarrow> e = Sentinel s \<or> list_ex (\<lambda>u. errors_Is u s) (Unwrap e)"
  by (cases e) (auto split: option.splits simp: list_ex_iff)

lemma errors_Join_None: "errors_Join es = None \<longleftrightarrow> (\<forall>e \<in> set es. e = None)"
proof -
  have "List.map_filter id es = [] \<longleftrightarrow> (\<forall>e \<in> set es. e = None)"
    by (induction es) (auto simp: List.map_filter_def)
  then show ?thesis
    by (auto simp: errors_Join_def split: list.splits)
qed

lemma set_map_filter_id: "x \<in> set (List.map_filter id es) \<longleftrightarrow> Some x \<in> set es"
  by (induction es) (auto simp: List.map_filter_def)

lemma errors_Join_Is:
  assumes "errors_Join es = Some e"
  shows "errors_Is e s \<longleftrightarrow> (\<exists>x. Some x \<in> set es \<and> errors_Is x s)"
proof -
  from assms have "e = Joined (List.map_filter id es)"
    by (auto simp: errors_Join_def split: list.splits)
  then show ?thesis
    by (auto simp: list_ex_iff set_map_filter_id)
qed

locale op_errors =
  fixes wrap :: "string \<Rightarrow> 'k \<Rightarrow> string \<Rightarrow> gerror option \<Rightarrow> gerror"
    and inj :: "'k \<Rightarrow> sentinel"
  assumes Unwrap_wrap:
      "Unwrap (wrap operation kind target cause) =
         Sentinel (inj kind) # (case cause of None \<Rightarrow> [] | Some c \<Rightarrow> [c])"
    and wrap_not_sentinel: "wrap operation kind target cause \<noteq> Sentinel s"
begin

lemma Is_kind: "errors_Is (wrap operation kind target cause) (inj kind)"
  by (subst errors_Is_Unwrap) (simp add: Unwrap_wrap)

lemma Is_wrap:
  "errors_Is (wrap operation kind target cause) s \<longleftrightarrow>
     s = inj kind \<or> (\<exists>c. cause = Some c \<and> errors_Is c s)"
  by (subst errors_Is_Unwrap) (auto simp: Unwrap_wrap wrap_not_sentinel split: option.splits)

end

interpretation bridge_errs: op_errors bridge_Wrap BridgeKind
  by unfold_locales (auto simp: bridge_Wrap_def)

interpretation storage_errs: op_errors storage_Wrap StorageKind
  by unfold_locales (auto simp: storage_Wrap_def)

interpretation topology_errs: op_errors topology_Wrap TopologyKind
  by unfold_locales (auto simp: topology_Wrap_def)

interpretation container_errs: op_errors container_Wrap ContainerKind
  by unfold_locales (auto simp: container_Wrap_def)

interpretation dynamips_errs: op_errors dynamips_Wrap DynamipsKind
  by unfold_locales (auto simp: dynamips_Wrap_def)

interpretation shitnet_errs: op_errors shitnet_Wrap ShitnetKind
  by unfold_locales (auto simp: shitnet_Wrap_def)

lemma libvirt_Is_wrap:
  "errors_Is (libvirt_Wrap ks t c) s \<longleftrightarrow> (\<exists>k \<in> set ks. s = LibvirtKind k) \<or> (\<exists>e. c = Some e \<and> errors_Is e s)"
  by (auto simp: libvirt_Wrap_def libvirt_kinds_def list_ex_iff split: list.splits option.splits)

lemmas Is_wraps [simp] =
  bridge_errs.Is_wrap storage_errs.Is_wrap topology_errs.Is_wrap container_errs.Is_wrap
  dynamips_errs.Is_wrap shitnet_errs.Is_wrap libvirt_Is_wrap

lemma Is_news [simp]:
  "errors_Is (bridge_New a bk t) s \<longleftrightarrow> s = BridgeKind bk"
  "errors_Is (storage_New a sk t) s \<longleftrightarrow> s = StorageKind sk"
  "errors_Is (topology_New a tk t) s \<longleftrightarrow> s = TopologyKind tk"
  "errors_Is (container_New a ck t) s \<longleftrightarrow> s = ContainerKind ck"
  "errors_Is (dynamips_New a dk t) s \<longleftrightarrow> s = DynamipsKind dk"
  "errors_Is (shitnet_New a nk t) s \<longleftrightarrow> s = ShitnetKind nk"
  "errors_Is (libvirt_New ks t) s \<longleftrightarrow> (\<exists>k \<in> set ks. s = LibvirtKind k)"
  by (simp_all add: bridge_New_def storage_New_def topology_New_def container_New_def
      dynamips_New_def shitnet_New_def libvirt_New_def)

end
