(* ===== verification/Bridge_Frame.thy ===== *)
theory Bridge_Frame
  imports Errors
begin

text \<open>
  Ethernet frames and hardware addresses (\<open>bridge/engine.go\<close>): frames are byte lists, the
  printed form of a hardware address is the key of the forwarding database, so its
  injectivity is what makes the database a map from addresses.
\<close>

unbundle bit_operations_syntax

section \<open>Definitions\<close>

type_synonym byte = "8 word"
type_synonym frame = "byte list"

definition ethernetHeaderLen :: nat where
  "ethernetHeaderLen = 14"

text \<open>\<open>net.HardwareAddr.String\<close>: two lower-case hexadecimal digits per byte, colons between.\<close>

definition hex_digit :: "nat \<Rightarrow> char" where
  "hex_digit n = (if n < 10 then char_of (48 + n) else char_of (87 + n))"

definition hex_byte :: "byte \<Rightarrow> string" where
  "hex_byte b = [hex_digit (unat b div 16), hex_digit (unat b mod 16)]"

definition mac_String :: "byte list \<Rightarrow> string" where
  "mac_String mac = joinSep '':'' (map hex_byte mac)"

definition isBroadcastMAC :: "byte list \<Rightarrow> bool" where
  "isBroadcastMAC mac \<longleftrightarrow>
     length mac = 6 \<and> mac = [0xff, 0xff, 0xff, 0xff, 0xff, 0xff]"

definition isMulticastMAC :: "byte list \<Rightarrow> bool" where
  "isMulticastMAC mac \<longleftrightarrow> (case mac of [] \<Rightarrow> False | b # _ \<Rightarrow> b AND 0x01 = 0x01)"

definition htons :: "16 word \<Rightarrow> 16 word" where
  "htons i = (push_bit 8 i AND 0xff00) OR drop_bit 8 i"

definition cloneFrame :: "frame \<Rightarrow> frame" where
  "cloneFrame fr = fr"

definition dst_of :: "frame \<Rightarrow> byte list" where
  "dst_of fr = take 6 fr"

definition src_of :: "frame \<Rightarrow> byte list" where
  "src_of fr = take 6 (drop 6 fr)"

section \<open>Lemmas\<close>

lemma hex_digit_inj: "m < 16 \<Longrightarrow> n < 16 \<Longrightarrow> hex_digit m = hex_digit n \<Longrightarrow> m = n"
  unfolding hex_digit_def
  by (auto split: if_splits dest!: arg_cong [where f = "of_char :: char \<Rightarrow> nat"])

lemma hex_digit_not_colon: "n < 16 \<Longrightarrow> hex_digit n \<noteq> CHR '':''"
  unfolding hex_digit_def
  by (auto split: if_splits dest!: arg_cong [where f = "of_char :: char \<Rightarrow> nat"])

lemma unat_byte_less: "unat (b :: byte) < 256"
  using unsigned_less [of b, where ?'a = nat] by simp

lemma hex_byte_inj: "hex_byte a = hex_byte b \<Longrightarrow> a = b"
proof -
  assume eq: "hex_byte a = hex_byte b"
  have bounds: "unat a div 16 < 16" "unat b div 16 < 16"
    using unat_byte_less [of a] unat_byte_less [of b] by auto
  from eq bounds have "unat a div 16 = unat b div 16" "unat a mod 16 = unat b mod 16"
    by (auto simp: hex_byte_def intro: hex_digit_inj)
  then have "unat a = unat b"
    by (metis div_mult_mod_eq)
  then show "a = b" by (rule unsigned_word_eqI)
qed

lemma hex_byte_no_colon: "CHR '':'' \<notin> set (hex_byte b)"
  using unat_byte_less [of b]
  by (auto simp: hex_byte_def dest: sym [THEN hex_digit_not_colon [THEN notE, rotated]])

lemma mac_String_split: "m \<noteq> [] \<Longrightarrow> splitAt (CHR '':'') (mac_String m) = map hex_byte m"
  unfolding mac_String_def by (rule splitAt_joinSep) (auto simp: list_all_iff hex_byte_no_colon)

lemma mac_String_Nil [simp]: "mac_String [] = []"
  by (simp add: mac_String_def)

lemma mac_String_eq_Nil [simp]: "mac_String m = [] \<longleftrightarrow> m = []"
proof
  assume eq: "mac_String m = []"
  show "m = []"
  proof (rule ccontr)
    assume ne: "m \<noteq> []"
    with mac_String_split [OF ne] eq have "map hex_byte m = [[]]" by simp
    then show False by (cases m) (auto simp: hex_byte_def)
  qed
qed simp

lemma mac_String_inj: "mac_String a = mac_String b \<Longrightarrow> a = b"
proof (cases "a = [] \<or> b = []")
  case True
  assume "mac_String a = mac_String b"
  with True show "a = b" by (metis mac_String_eq_Nil)
next
  case False
  assume "mac_String a = mac_String b"
  with False have "map hex_byte a = map hex_byte b"
    by (metis mac_String_split)
  then show "a = b"
    by (rule map_injective) (auto intro: injI hex_byte_inj)
qed

lemma broadcast_is_multicast: "isBroadcastMAC m \<Longrightarrow> isMulticastMAC m"
  by (auto simp: isBroadcastMAC_def isMulticastMAC_def)

lemma addr_lengths [simp]:
  "ethernetHeaderLen \<le> length fr \<Longrightarrow> length (dst_of fr) = 6"
  "ethernetHeaderLen \<le> length fr \<Longrightarrow> length (src_of fr) = 6"
  by (auto simp: dst_of_def src_of_def ethernetHeaderLen_def)

lemma cloneFrame_id [simp]: "cloneFrame fr = fr"
  by (simp add: cloneFrame_def)

lemma bit_high_byte: "bit (0xff00 :: 16 word) n \<longleftrightarrow> 8 \<le> n \<and> n < 16"
proof -
  have "(0xff00 :: 16 word) = push_bit 8 (mask 8)"
    by (simp add: mask_eq_exp_minus_1)
  then show ?thesis
    by (simp only: bit_push_bit_iff bit_mask_iff) auto
qed

lemma bit_low_byte: "bit (0xff :: 16 word) n \<longleftrightarrow> n < 8"
proof -
  have "(0xff :: 16 word) = mask 8"
    by (simp add: mask_eq_exp_minus_1)
  then show ?thesis
    by (simp only: bit_mask_iff) auto
qed

lemma htons_bit:
  "bit (htons i) n \<longleftrightarrow> n < 16 \<and> (if n < 8 then bit i (n + 8) else bit i (n - 8))"
  unfolding htons_def bit_or_iff bit_and_iff bit_push_bit_iff bit_drop_bit_eq bit_high_byte o_apply
  by (auto simp: add.commute dest: bit_imp_le_length)

end
