(* ===== verification/Bridge_Switch.thy ===== *)
theory Bridge_Switch
  imports Bridge_Frame
begin

text \<open>
  The learning switch of \<open>bridge/engine.go\<close>. Every method is one definition. The first
  argument \<open>en\<close> is \<open>assert.Enabled\<close>: with it the debug assertions are checked and a failed
  one is \<open>None\<close> (the panic); without it they are no-ops, as in the release build. What a
  method does to its environment (events handed to handlers, frames handed to capture sinks
  and to ports, ports closed, readers started, contexts cancelled) is the list of
  observations it returns, in order. How a port answers a write or a close is the argument
  \<open>wr\<close> or \<open>cl\<close>; time stamps are left out, nothing reads them. The fields \<open>nextCtx\<close>,
  \<open>cancelled\<close> and \<open>readers\<close> name what the Go runtime keeps for the switch: the contexts made
  so far, the cancelled ones, and the reader goroutines of the wait group with their context.

  A method is one step, also \<open>processFrame\<close>, although the code takes the lock of the switch piecewise
  there: once to look the source port up, once to learn, once to choose the targets. So the model has
  the frames that are processed wholly before or wholly after another method; a port removed between
  the look-up and \<open>learn\<close> leaves the same dangling entry as a frame that arrives after the removal, which
  the model does have.
\<close>

section \<open>Data\<close>

record port =
  port_ID :: string
  port_MTU :: int

datatype FrameDirection = FrameIngress | FrameEgress

record CapturedFrame =
  cf_PortID :: string
  cf_Direction :: FrameDirection
  cf_Frame :: frame

datatype EventType =
    EventPortAttached | EventPortRemoved | EventPortClosed | EventFrameIngress
  | EventFrameEgress | EventFrameDropped | EventFDBLearned | EventSwitchStart | EventSwitchStop

record Event =
  ev_Type :: EventType
  ev_PortID :: string
  ev_TargetPort :: string
  ev_Frame :: frame
  ev_MAC :: "byte list"
  ev_Err :: "gerror option"

definition event0 :: "EventType \<Rightarrow> Event" where
  "event0 t = \<lparr>ev_Type = t, ev_PortID = [], ev_TargetPort = [], ev_Frame = [], ev_MAC = [],
     ev_Err = None\<rparr>"

definition port_event :: "EventType \<Rightarrow> string \<Rightarrow> Event" where
  "port_event t id' = (event0 t)\<lparr>ev_PortID := id'\<rparr>"

datatype obs =
    Handled nat Event
  | Captured nat CapturedFrame
  | Wrote string frame
  | ClosedPort string
  | CancelledCtx nat

record SwitchOptions =
  DisableUnknownUnicastFlood :: bool

record Switch =
  ports :: "(string, port) gomap"
  fdb :: "(string, string) gomap"
  captures :: "nat list"
  handlers :: "(64 word, nat) gomap"
  order :: "string list"
  ctx :: "nat option"
  cancel :: "nat option"
  started :: bool
  nextHook :: "64 word"
  opts :: SwitchOptions
  nextCtx :: nat
  cancelled :: "nat list"
  readers :: "(string \<times> nat) list"

definition NewSwitch :: "SwitchOptions \<Rightarrow> Switch" where
  "NewSwitch o' = \<lparr>ports = [], fdb = [], captures = [], handlers = [], order = [],
     ctx = None, cancel = None, started = False, nextHook = 0, opts = o',
     nextCtx = 0, cancelled = [], readers = []\<rparr>"

section \<open>The assertions on the state and on events\<close>

definition valid :: "Switch \<Rightarrow> bool" where
  "valid s \<longleftrightarrow>
     (if started s then ctx s \<noteq> None \<and> cancel s \<noteq> None else ctx s = None \<and> cancel s = None) \<and>
     list_all (\<lambda>i. i \<noteq> [] \<and> (case mget (ports s) i of None \<Rightarrow> False | Some p \<Rightarrow> port_ID p = i))
       (order s) \<and>
     distinct (order s) \<and>
     length (order s) = length (ports s) \<and>
     list_all (\<lambda>(i, p). i \<noteq> [] \<and> port_ID p = i \<and> i \<in> set (order s) \<and> port_MTU p > 0) (ports s) \<and>
     list_all (\<lambda>(mac, pid). mac \<noteq> [] \<and> pid \<noteq> [] \<and> mget (ports s) pid \<noteq> None) (fdb s)"

definition assertValidLocked :: "bool \<Rightarrow> Switch \<Rightarrow> unit option" where
  "assertValidLocked en s = That en (valid s)"

definition event_ok :: "Event \<Rightarrow> bool" where
  "event_ok e \<longleftrightarrow>
     (case ev_Type e of
        EventFrameEgress \<Rightarrow>
          ev_PortID e \<noteq> [] \<and> ev_TargetPort e \<noteq> [] \<and> ev_PortID e \<noteq> ev_TargetPort e
      | EventSwitchStart \<Rightarrow> True
      | EventSwitchStop \<Rightarrow> True
      | _ \<Rightarrow> ev_PortID e \<noteq> []) \<and>
     (ev_Type e = EventFDBLearned \<longrightarrow> length (ev_MAC e) = 6) \<and>
     (ev_Type e = EventFrameDropped \<longrightarrow> ev_Err e \<noteq> None)"

definition cloneEvent :: "Event \<Rightarrow> Event" where
  "cloneEvent e = e\<lparr>ev_Frame := cloneFrame (ev_Frame e)\<rparr>"

definition emit :: "bool \<Rightarrow> Switch \<Rightarrow> Event \<Rightarrow> obs list option" where
  "emit en s e = do {
     That en (event_ok e);
     Some (map (\<lambda>(i, h). Handled h (cloneEvent e)) (handlers s))
   }"

definition capture :: "bool \<Rightarrow> Switch \<Rightarrow> CapturedFrame \<Rightarrow> obs list option" where
  "capture en s f = do {
     That en (cf_PortID f \<noteq> []);
     Some (map (\<lambda>k. Captured k (f\<lparr>cf_Frame := cloneFrame (cf_Frame f)\<rparr>)) (captures s))
   }"

section \<open>Registration\<close>

definition OnEvent :: "bool \<Rightarrow> nat \<Rightarrow> Switch \<Rightarrow> (64 word \<times> Switch) option" where
  "OnEvent en handler s = do {
     assertValidLocked en s;
     let i = nextHook s;
     let s = s\<lparr>nextHook := nextHook s + 1\<rparr>;
     That en (i < nextHook s);
     Some (i, s\<lparr>handlers := mput i handler (handlers s)\<rparr>)
   }"

definition unregister :: "bool \<Rightarrow> 64 word \<Rightarrow> Switch \<Rightarrow> Switch option" where
  "unregister en i s = do {
     let s = s\<lparr>handlers := mdel i (handlers s)\<rparr>;
     assertValidLocked en s;
     Some s
   }"

definition AddCaptureSink :: "bool \<Rightarrow> nat \<Rightarrow> Switch \<Rightarrow> Switch option" where
  "AddCaptureSink en sink s = do {
     assertValidLocked en s;
     let s = s\<lparr>captures := captures s @ [sink]\<rparr>;
     assertValidLocked en s;
     Some s
   }"

section \<open>Port lifecycle\<close>

definition startReaderLocked :: "bool \<Rightarrow> port \<Rightarrow> Switch \<Rightarrow> Switch option" where
  "startReaderLocked en p s = do {
     That en (started s);
     That en (ctx s \<noteq> None);
     That en (cancel s \<noteq> None);
     That en (port_ID p \<noteq> []);
     That en (port_MTU p > 0);
     That en (mget (ports s) (port_ID p) = Some p);
     c \<leftarrow> ctx s;
     Some (s\<lparr>readers := readers s @ [(port_ID p, c)]\<rparr>)
   }"

definition AttachPort :: "bool \<Rightarrow> port \<Rightarrow> Switch \<Rightarrow> (gerror option \<times> Switch \<times> obs list) option" where
  "AttachPort en p s = do {
     That en (port_ID p \<noteq> []);
     That en (port_MTU p > 0);
     assertValidLocked en s;
     let i = port_ID p;
     if mget (ports s) i \<noteq> None then
       Some (Some (Sentinel (BridgeKind ErrPortAlrAttached)), s, [])
     else do {
       let s = s\<lparr>ports := mput i p (ports s), order := order s @ [i]\<rparr>;
       assertValidLocked en s;
       s \<leftarrow> (if started s then do {
               That en (ctx s \<noteq> None);
               That en (cancel s \<noteq> None);
               startReaderLocked en p s
             } else Some s);
       assertValidLocked en s;
       es \<leftarrow> emit en s (port_event EventPortAttached i);
       Some (None, s, es)
     }
   }"

definition removePortOrder :: "bool \<Rightarrow> string list \<Rightarrow> string \<Rightarrow> string list option" where
  "removePortOrder en ids target = do {
     That en (target \<noteq> []);
     That en (list_all (\<lambda>i. i \<noteq> []) ids);
     let result = filter (\<lambda>i. i \<noteq> target) ids;
     That en (target \<notin> set result);
     Some result
   }"

definition deleteFDBEntriesForPort :: "bool \<Rightarrow> (string, string) gomap \<Rightarrow> string \<Rightarrow> (string, string) gomap option" where
  "deleteFDBEntriesForPort en m portID = do {
     That en (portID \<noteq> []);
     That en (list_all (\<lambda>(mac, current). mac \<noteq> [] \<and> current \<noteq> []) m);
     let m = filter (\<lambda>(mac, current). current \<noteq> portID) m;
     That en (list_all (\<lambda>(mac, current). current \<noteq> portID) m);
     Some m
   }"

definition RemovePort ::
  "bool \<Rightarrow> (string \<Rightarrow> gerror option) \<Rightarrow> string \<Rightarrow> Switch \<Rightarrow> (gerror option \<times> Switch \<times> obs list) option" where
  "RemovePort en cl i s = do {
     That en (i \<noteq> []);
     assertValidLocked en s;
     case mget (ports s) i of
       None \<Rightarrow> Some (Some (Sentinel (BridgeKind ErrPortNotFound)), s, [])
     | Some p \<Rightarrow> do {
         That en (port_ID p = i);
         m \<leftarrow> deleteFDBEntriesForPort en (fdb s) i;
         ids \<leftarrow> removePortOrder en (order s) i;
         let s = s\<lparr>ports := mdel i (ports s), fdb := m, order := ids\<rparr>;
         assertValidLocked en s;
         es \<leftarrow> emit en s (port_event EventPortRemoved i);
         case cl i of
           Some e \<Rightarrow> Some (Some e, s, es @ [ClosedPort i])
         | None \<Rightarrow> do {
             es' \<leftarrow> emit en s (port_event EventPortClosed i);
             Some (None, s, es @ [ClosedPort i] @ es')
           }
       }
   }"

definition sortedPortIDsLocked :: "bool \<Rightarrow> Switch \<Rightarrow> string list option" where
  "sortedPortIDsLocked en s = do {
     That en (list_all (\<lambda>i. i \<noteq> [] \<and> mget (ports s) i \<noteq> None) (order s));
     let ids = sort (order s);
     That en (sorted ids);
     That en (distinct ids);
     Some ids
   }"

fun startReaders :: "bool \<Rightarrow> string list \<Rightarrow> Switch \<Rightarrow> Switch option" where
  "startReaders en [] s = Some s"
| "startReaders en (i # ids) s = do {
     That en (mget (ports s) i \<noteq> None);
     p \<leftarrow> mget (ports s) i;
     s \<leftarrow> startReaderLocked en p s;
     startReaders en ids s
   }"

definition Start :: "bool \<Rightarrow> Switch \<Rightarrow> (Switch \<times> obs list) option" where
  "Start en s = do {
     assertValidLocked en s;
     if started s then do {
       That en (ctx s \<noteq> None);
       That en (cancel s \<noteq> None);
       Some (s, [])
     } else do {
       That en (ctx s = None);
       That en (cancel s = None);
       let c = nextCtx s;
       let s = s\<lparr>ctx := Some c, cancel := Some c, nextCtx := c + 1, started := True\<rparr>;
       assertValidLocked en s;
       ids \<leftarrow> sortedPortIDsLocked en s;
       s \<leftarrow> startReaders en ids s;
       assertValidLocked en s;
       es \<leftarrow> emit en s (event0 EventSwitchStart);
       Some (s, es)
     }
   }"

text \<open>
  \<open>wg.Wait\<close> returns once the readers have left their loops: a reader leaves when its context
  is done (\<open>reader_iter\<close> below), so those with a cancelled context are gone afterwards. That a reader
  blocked in \<open>ReadFrame\<close> comes back when its port is closed is a property of the port and taken for
  granted here: the wait itself never blocks in the model.
\<close>

definition wg_Wait :: "Switch \<Rightarrow> Switch" where
  "wg_Wait s = s\<lparr>readers := filter (\<lambda>(i, c). c \<notin> set (cancelled s)) (readers s)\<rparr>"

fun lookupPorts :: "bool \<Rightarrow> string list \<Rightarrow> Switch \<Rightarrow> port list option" where
  "lookupPorts en [] s = Some []"
| "lookupPorts en (i # ids) s = do {
     That en (mget (ports s) i \<noteq> None);
     p \<leftarrow> mget (ports s) i;
     ps \<leftarrow> lookupPorts en ids s;
     Some (p # ps)
   }"

definition Stop :: "bool \<Rightarrow> Switch \<Rightarrow> (Switch \<times> obs list) option" where
  "Stop en s = do {
     assertValidLocked en s;
     if \<not> started s then do {
       That en (ctx s = None);
       That en (cancel s = None);
       Some (s, [])
     } else do {
       That en (ctx s \<noteq> None);
       That en (cancel s \<noteq> None);
       c \<leftarrow> cancel s;
       ids \<leftarrow> sortedPortIDsLocked en s;
       ps \<leftarrow> lookupPorts en ids s;
       let s = s\<lparr>started := False, cancel := None, ctx := None\<rparr>;
       assertValidLocked en s;
       let s = s\<lparr>cancelled := c # cancelled s\<rparr>;
       es \<leftarrow> emit en s (event0 EventSwitchStop);
       Some (wg_Wait s, CancelledCtx c # map (\<lambda>p. ClosedPort (port_ID p)) ps @ es)
     }
   }"

section \<open>Forwarding\<close>

fun collectExcept :: "bool \<Rightarrow> Switch \<Rightarrow> string \<Rightarrow> string list \<Rightarrow> port list option" where
  "collectExcept en s srcID [] = Some []"
| "collectExcept en s srcID (i # ids) = do {
     That en (i \<noteq> []);
     That en (mget (ports s) i \<noteq> None);
     if i = srcID then collectExcept en s srcID ids
     else do {
       p \<leftarrow> mget (ports s) i;
       That en (port_ID p = i);
       ps \<leftarrow> collectExcept en s srcID ids;
       Some (p # ps)
     }
   }"

definition allPortsExceptLocked :: "bool \<Rightarrow> Switch \<Rightarrow> string \<Rightarrow> port list option" where
  "allPortsExceptLocked en s srcID = do {
     That en (srcID \<noteq> []);
     ps \<leftarrow> collectExcept en s srcID (sort (order s));
     That en (list_all (\<lambda>p. port_ID p \<noteq> srcID) ps);
     Some ps
   }"

definition unknownUnicast :: "bool \<Rightarrow> Switch \<Rightarrow> string \<Rightarrow> port list option" where
  "unknownUnicast en s srcID =
     (if DisableUnknownUnicastFlood (opts s) then Some [] else allPortsExceptLocked en s srcID)"

definition egressPorts :: "bool \<Rightarrow> Switch \<Rightarrow> string \<Rightarrow> byte list \<Rightarrow> port list option" where
  "egressPorts en s srcID dstMAC = do {
     That en (srcID \<noteq> []);
     That en (length dstMAC = 6);
     if isBroadcastMAC dstMAC \<or> isMulticastMAC dstMAC then do {
       ps \<leftarrow> allPortsExceptLocked en s srcID;
       That en (list_all (\<lambda>p. port_ID p \<noteq> srcID) ps);
       Some ps
     }
     else case mget (fdb s) (mac_String dstMAC) of
       None \<Rightarrow> unknownUnicast en s srcID
     | Some portID \<Rightarrow> do {
         That en (mget (ports s) portID \<noteq> None);
         case mget (ports s) portID of
           None \<Rightarrow> unknownUnicast en s srcID
         | Some p \<Rightarrow> if portID \<noteq> srcID then Some [p] else unknownUnicast en s srcID
       }
   }"

definition learn :: "bool \<Rightarrow> Switch \<Rightarrow> byte list \<Rightarrow> string \<Rightarrow> (Switch \<times> obs list) option" where
  "learn en s mac portID = do {
     That en (portID \<noteq> []);
     if mac = [] \<or> isBroadcastMAC mac then Some (s, [])
     else do {
       That en (length mac = 6);
       assertValidLocked en s;
       That en (mget (ports s) portID \<noteq> None);
       let key = mac_String mac;
       That en (key \<noteq> []);
       if mget (fdb s) key = Some portID then Some (s, [])
       else do {
         let s = s\<lparr>fdb := mput key portID (fdb s)\<rparr>;
         That en (mget (fdb s) key = Some portID);
         assertValidLocked en s;
         es \<leftarrow> emit en s ((port_event EventFDBLearned portID)\<lparr>ev_MAC := mac\<rparr>);
         Some (s, es)
       }
     }
   }"

definition frame_event :: "EventType \<Rightarrow> string \<Rightarrow> string \<Rightarrow> frame \<Rightarrow> gerror option \<Rightarrow> Event" where
  "frame_event t srcID target fr err =
     (event0 t)\<lparr>ev_PortID := srcID, ev_TargetPort := target, ev_Frame := fr, ev_Err := err\<rparr>"

fun forwardAll ::
  "bool \<Rightarrow> (string \<Rightarrow> frame \<Rightarrow> gerror option) \<Rightarrow> Switch \<Rightarrow> string \<Rightarrow> frame \<Rightarrow> port list \<Rightarrow> obs list option" where
  "forwardAll en wr s srcID fr [] = Some []"
| "forwardAll en wr s srcID fr (target # targets) = do {
     That en (port_ID target \<noteq> []);
     That en (port_ID target \<noteq> srcID);
     let targetFrame = cloneFrame fr;
     That en (length targetFrame = length fr);
     case wr (port_ID target) targetFrame of
       Some err \<Rightarrow> do {
         es \<leftarrow> emit en s (frame_event EventFrameDropped srcID (port_ID target) targetFrame (Some err));
         rest \<leftarrow> forwardAll en wr s srcID fr targets;
         Some (Wrote (port_ID target) targetFrame # es @ rest)
       }
     | None \<Rightarrow> do {
         let copied = cloneFrame targetFrame;
         cs \<leftarrow> capture en s \<lparr>cf_PortID = port_ID target, cf_Direction = FrameEgress, cf_Frame = copied\<rparr>;
         es \<leftarrow> emit en s (frame_event EventFrameEgress srcID (port_ID target) copied None);
         rest \<leftarrow> forwardAll en wr s srcID fr targets;
         Some (Wrote (port_ID target) targetFrame # cs @ es @ rest)
       }
   }"

definition processFrame ::
  "bool \<Rightarrow> (string \<Rightarrow> frame \<Rightarrow> gerror option) \<Rightarrow> Switch \<Rightarrow> string \<Rightarrow> frame \<Rightarrow> (Switch \<times> obs list) option" where
  "processFrame en wr s srcID fr = do {
     That en (srcID \<noteq> []);
     That en (mget (ports s) srcID \<noteq> None);
     let frameCopy = cloneFrame fr;
     cs \<leftarrow> capture en s \<lparr>cf_PortID = srcID, cf_Direction = FrameIngress, cf_Frame = frameCopy\<rparr>;
     es \<leftarrow> emit en s (frame_event EventFrameIngress srcID [] frameCopy None);
     if length fr < ethernetHeaderLen then do {
       ds \<leftarrow> emit en s (frame_event EventFrameDropped srcID [] frameCopy
                          (Some (Sentinel (BridgeKind ErrFrameTooShort))));
       Some (s, cs @ es @ ds)
     }
     else do {
       (s, ls) \<leftarrow> learn en s (src_of fr) srcID;
       targets \<leftarrow> egressPorts en s srcID (dst_of fr);
       ws \<leftarrow> forwardAll en wr s srcID fr targets;
       Some (s, cs @ es @ ls @ ws)
     }
   }"

section \<open>The reader goroutine\<close>

text \<open>Of the errors that the model distinguishes, two are a \<open>net.Error\<close> whose \<open>Timeout\<close> is true: the
  expired deadline of a socket and \<open>context.DeadlineExceeded\<close>.\<close>

definition isReadTimeout :: "gerror \<Rightarrow> bool" where
  "isReadTimeout err \<longleftrightarrow>
     errors_Is err (BridgeKind ErrReadTimeout) \<or> errors_Is err (OS NetTimeout) \<or> errors_Is err (OS CtxDeadlineExceeded)"

datatype reader_next = ReaderExit | ReaderContinue

text \<open>
  One pass of the loop of \<open>startReaderLocked\<close>: \<open>done1\<close> and \<open>done2\<close> are the answers of the two
  polls of \<open>ctx.Done()\<close>, \<open>r\<close> is what \<open>ReadFrame\<close> returned.
\<close>

definition reader_iter ::
  "bool \<Rightarrow> (string \<Rightarrow> frame \<Rightarrow> gerror option) \<Rightarrow> bool \<Rightarrow> gerror + frame \<Rightarrow> bool \<Rightarrow> string \<Rightarrow> Switch
    \<Rightarrow> (reader_next \<times> Switch \<times> obs list) option" where
  "reader_iter en wr done1 r done2 pid s =
     (if done1 then Some (ReaderExit, s, [])
      else case r of
        Inl err \<Rightarrow>
          if done2 then Some (ReaderExit, s, [])
          else if isReadTimeout err then Some (ReaderContinue, s, [])
          else do {
            es \<leftarrow> emit en s (frame_event EventFrameDropped pid [] [] (Some err));
            Some (ReaderContinue, s, es)
          }
      | Inr fr \<Rightarrow> do {
          (s, os) \<leftarrow> processFrame en wr s pid fr;
          Some (ReaderContinue, s, os)
        })"

end
