(* ===== verification/Bridge_Switch_Facts.thy ===== *)
theory Bridge_Switch_Facts
  imports Bridge_Switch
begin

text \<open>
  The switch is correct: the invariant behind the debug assertions and that every method keeps
  it, that in a reachable state no assertion fails and the debug and release builds agree,
  and what forwarding does with a frame.
\<close>

section \<open>The invariant\<close>

definition run_ok :: "Switch \<Rightarrow> bool" where
  "run_ok s \<longleftrightarrow>
     (started s \<longleftrightarrow> ctx s \<noteq> None) \<and> cancel s = ctx s \<and>
     (\<forall>c. ctx s = Some c \<longrightarrow> c < nextCtx s \<and> c \<notin> set (cancelled s)) \<and>
     (\<forall>c \<in> set (cancelled s). c < nextCtx s) \<and>
     (\<forall>(i, c) \<in> set (readers s). c \<in> set (cancelled s) \<or> ctx s = Some c)"

definition ports_ok :: "Switch \<Rightarrow> bool" where
  "ports_ok s \<longleftrightarrow>
     distinct (order s) \<and> set (order s) = dom (map_of (ports s)) \<and>
     (\<forall>i p. mget (ports s) i = Some p \<longrightarrow> i \<noteq> [] \<and> port_ID p = i \<and> 0 < port_MTU p)"

definition fdb_ok :: "Switch \<Rightarrow> bool" where
  "fdb_ok s \<longleftrightarrow>
     (\<forall>mac pid. mget (fdb s) mac = Some pid \<longrightarrow> mac \<noteq> [] \<and> mget (ports s) pid \<noteq> None)"

definition switch_inv :: "Switch \<Rightarrow> bool" where
  "switch_inv s \<longleftrightarrow>
     mwf (ports s) \<and> mwf (fdb s) \<and> mwf (handlers s) \<and> run_ok s \<and> ports_ok s \<and> fdb_ok s"

definition port_ok :: "port \<Rightarrow> bool" where
  "port_ok p \<longleftrightarrow> port_ID p \<noteq> [] \<and> 0 < port_MTU p"

section \<open>Steps\<close>

text \<open>
  One call of a method, or one frame delivered by the reader of an attached port. The callers'
  obligations that the assertions state (a port has an identifier and a positive MTU, the
  argument of \<open>RemovePort\<close> is not empty) are the guards.
\<close>

datatype switch_op =
    OpAttach port
  | OpRemove string "gerror option"
  | OpStart
  | OpStop
  | OpOnEvent nat
  | OpUnregister "64 word"
  | OpAddCaptureSink nat
  | OpFrame string frame

inductive switch_step :: "bool \<Rightarrow> Switch \<Rightarrow> switch_op \<Rightarrow> Switch \<Rightarrow> bool" for en where
  step_attach: "port_ok p \<Longrightarrow> AttachPort en p s = Some (e, t, os) \<Longrightarrow>
     switch_step en s (OpAttach p) t"
| step_remove: "i \<noteq> [] \<Longrightarrow> RemovePort en (\<lambda>_. ce) i s = Some (e, t, os) \<Longrightarrow>
     switch_step en s (OpRemove i ce) t"
| step_start: "Start en s = Some (t, os) \<Longrightarrow> switch_step en s OpStart t"
| step_stop: "Stop en s = Some (t, os) \<Longrightarrow> switch_step en s OpStop t"
| step_on_event: "OnEvent en h s = Some (i, t) \<Longrightarrow> switch_step en s (OpOnEvent h) t"
| step_unregister: "unregister en i s = Some t \<Longrightarrow> switch_step en s (OpUnregister i) t"
| step_add_sink: "AddCaptureSink en k s = Some t \<Longrightarrow> switch_step en s (OpAddCaptureSink k) t"
| step_frame: "mget (ports s) i \<noteq> None \<Longrightarrow> processFrame en wr s i fr = Some (t, os) \<Longrightarrow>
     switch_step en s (OpFrame i fr) t"

section \<open>Events and captures\<close>

definition deliver :: "Switch \<Rightarrow> Event \<Rightarrow> obs list" where
  "deliver s e = map (\<lambda>(i, h). Handled h e) (handlers s)"

definition record_frame :: "Switch \<Rightarrow> CapturedFrame \<Rightarrow> obs list" where
  "record_frame s f = map (\<lambda>k. Captured k f) (captures s)"

lemma cloneEvent_id [simp]: "cloneEvent e = e"
  by (simp add: cloneEvent_def)

lemma emit_ok: "event_ok e \<Longrightarrow> emit en s e = Some (deliver s e)"
  by (simp add: emit_def deliver_def That_cond)

lemma emit_release: "emit False s e = Some (deliver s e)"
  by (simp add: emit_def deliver_def)

lemma capture_ok: "cf_PortID f \<noteq> [] \<Longrightarrow> capture en s f = Some (record_frame s f)"
  by (simp add: capture_def record_frame_def)

lemma capture_release: "capture False s f = Some (record_frame s f)"
  by (simp add: capture_def record_frame_def)

lemma event_ok_simps [simp]:
  "event_ok (event0 EventSwitchStart)"
  "event_ok (event0 EventSwitchStop)"
  "event_ok (port_event EventPortAttached i) \<longleftrightarrow> i \<noteq> []"
  "event_ok (port_event EventPortRemoved i) \<longleftrightarrow> i \<noteq> []"
  "event_ok (port_event EventPortClosed i) \<longleftrightarrow> i \<noteq> []"
  "event_ok ((port_event EventFDBLearned i)\<lparr>ev_MAC := m\<rparr>) \<longleftrightarrow> i \<noteq> [] \<and> length m = 6"
  "event_ok (frame_event EventFrameIngress i t fr er) \<longleftrightarrow> i \<noteq> []"
  "event_ok (frame_event EventFrameDropped i t fr er) \<longleftrightarrow> i \<noteq> [] \<and> er \<noteq> None"
  "event_ok (frame_event EventFrameEgress i t fr er) \<longleftrightarrow> i \<noteq> [] \<and> t \<noteq> [] \<and> i \<noteq> t"
  by (auto simp: event_ok_def event0_def port_event_def frame_event_def)

section \<open>The assertion on the state is the invariant\<close>

lemma order_ports_length:
  assumes "mwf (ports s)" "distinct (order s)" "set (order s) \<subseteq> dom (map_of (ports s))"
  shows "length (order s) = length (ports s) \<longleftrightarrow> set (order s) = dom (map_of (ports s))"
proof -
  have "length (order s) = card (set (order s))"
    using assms(2) by (simp add: distinct_card)
  moreover have "length (ports s) = card (dom (map_of (ports s)))"
    using assms(1) by (rule length_eq_keys)
  ultimately show ?thesis
    using card_subset_eq [OF finite_dom_map_of assms(3)] by auto
qed

lemma valid_iff:
  assumes "mwf (ports s)" "mwf (fdb s)" "run_ok s"
  shows "valid s \<longleftrightarrow> ports_ok s \<and> fdb_ok s"
proof -
  have ord: "list_all (\<lambda>i. i \<noteq> [] \<and> (case mget (ports s) i of None \<Rightarrow> False | Some p \<Rightarrow> port_ID p = i))
      (order s) \<longleftrightarrow>
    (\<forall>i \<in> set (order s). i \<noteq> [] \<and> (\<exists>p. mget (ports s) i = Some p \<and> port_ID p = i))"
    by (auto simp: list_all_iff split: option.splits)
  have ps: "list_all (\<lambda>(i, p). i \<noteq> [] \<and> port_ID p = i \<and> i \<in> set (order s) \<and> port_MTU p > 0) (ports s)
    \<longleftrightarrow> (\<forall>i p. mget (ports s) i = Some p \<longrightarrow>
           i \<noteq> [] \<and> port_ID p = i \<and> i \<in> set (order s) \<and> 0 < port_MTU p)"
    by (rule list_all_gomap [OF assms(1)])
  have fd: "list_all (\<lambda>(mac, pid). mac \<noteq> [] \<and> pid \<noteq> [] \<and> mget (ports s) pid \<noteq> None) (fdb s)
    \<longleftrightarrow> (\<forall>mac pid. mget (fdb s) mac = Some pid \<longrightarrow>
           mac \<noteq> [] \<and> pid \<noteq> [] \<and> mget (ports s) pid \<noteq> None)"
    by (rule list_all_gomap [OF assms(2)])
  have run: "(if started s then ctx s \<noteq> None \<and> cancel s \<noteq> None
      else ctx s = None \<and> cancel s = None)"
    using assms(3) by (auto simp: run_ok_def)
  show ?thesis
  proof
    assume v: "valid s"
    then have "distinct (order s)" "set (order s) \<subseteq> dom (map_of (ports s))"
        "length (order s) = length (ports s)"
      unfolding valid_def ord by blast+
    with order_ports_length [OF assms(1)] v show "ports_ok s \<and> fdb_ok s"
      unfolding valid_def ps fd ports_ok_def fdb_ok_def by simp
  next
    assume ok: "ports_ok s \<and> fdb_ok s"
    then have "length (order s) = length (ports s)"
      using order_ports_length [OF assms(1)] by (simp add: ports_ok_def)
    with ok run show "valid s"
      unfolding valid_def ord ps fd ports_ok_def fdb_ok_def by (auto simp: dom_def) blast
  qed
qed

lemma switch_inv_valid: "switch_inv s \<Longrightarrow> valid s"
  by (simp add: switch_inv_def valid_iff)

lemma assertValid_inv [simp]: "switch_inv s \<Longrightarrow> assertValidLocked en s = Some ()"
  by (simp add: assertValidLocked_def switch_inv_valid)

section \<open>Registration and port lifecycle, evaluated\<close>

definition attached :: "port \<Rightarrow> Switch \<Rightarrow> Switch" where
  "attached p s = s\<lparr>ports := mput (port_ID p) p (ports s), order := order s @ [port_ID p],
     readers := readers s @ (case ctx s of None \<Rightarrow> [] | Some c \<Rightarrow> [(port_ID p, c)])\<rparr>"

definition removed :: "string \<Rightarrow> Switch \<Rightarrow> Switch" where
  "removed i s = s\<lparr>ports := mdel i (ports s),
     fdb := filter (\<lambda>(mac, current). current \<noteq> i) (fdb s),
     order := filter (\<lambda>j. j \<noteq> i) (order s)\<rparr>"

definition running :: "Switch \<Rightarrow> Switch" where
  "running s = s\<lparr>ctx := Some (nextCtx s), cancel := Some (nextCtx s), nextCtx := nextCtx s + 1,
     started := True, readers := readers s @ map (\<lambda>i. (i, nextCtx s)) (sort (order s))\<rparr>"

definition halted :: "Switch \<Rightarrow> nat \<Rightarrow> Switch" where
  "halted s c = s\<lparr>started := False, cancel := None, ctx := None,
     cancelled := c # cancelled s, readers := []\<rparr>"

lemma switch_inv_attached_plain:
  assumes "switch_inv s" "port_ok p" "mget (ports s) (port_ID p) = None"
  shows "switch_inv (s\<lparr>ports := mput (port_ID p) p (ports s), order := order s @ [port_ID p]\<rparr>)"
  using assms
  by (auto simp: switch_inv_def run_ok_def ports_ok_def fdb_ok_def port_ok_def dom_def)

lemma switch_inv_readers:
  assumes "switch_inv s" "\<forall>(i, c) \<in> set rs. c \<in> set (cancelled s) \<or> ctx s = Some c"
  shows "switch_inv (s\<lparr>readers := rs\<rparr>)"
  using assms by (auto simp: switch_inv_def run_ok_def ports_ok_def fdb_ok_def)

lemma switch_inv_attached:
  assumes "switch_inv s" "port_ok p" "mget (ports s) (port_ID p) = None"
  shows "switch_inv (attached p s)"
proof -
  have "\<forall>(i, c) \<in> set (readers s @ (case ctx s of None \<Rightarrow> [] | Some c \<Rightarrow> [(port_ID p, c)])).
      c \<in> set (cancelled s) \<or> ctx s = Some c"
    using assms(1) by (auto simp: switch_inv_def run_ok_def split: option.splits)
  with switch_inv_readers [OF switch_inv_attached_plain [OF assms]] show ?thesis
    by (simp add: attached_def)
qed

lemma AttachPort_new:
  assumes inv: "switch_inv s" and p: "port_ok p" and fresh: "mget (ports s) (port_ID p) = None"
  shows "AttachPort en p s =
    Some (None, attached p s, deliver s (port_event EventPortAttached (port_ID p)))"
proof -
  note plain = switch_inv_attached_plain [OF assms]
  have del: "deliver (attached p s) e = deliver s e" for e
    by (simp add: deliver_def attached_def)
  show ?thesis
  proof (cases "ctx s")
    case None
    with inv have "\<not> started s" by (auto simp: switch_inv_def run_ok_def)
    with assms plain None del show ?thesis
      by (simp add: AttachPort_def port_ok_def attached_def emit_ok Let_def)
  next
    case (Some c)
    with inv have "started s" "cancel s = Some c" by (auto simp: switch_inv_def run_ok_def)
    with assms plain Some del switch_inv_attached [OF assms] show ?thesis
      by (simp add: AttachPort_def startReaderLocked_def port_ok_def attached_def emit_ok Let_def)
  qed
qed

lemma AttachPort_dup:
  assumes "switch_inv s" "port_ok p" "mget (ports s) (port_ID p) \<noteq> None"
  shows "AttachPort en p s = Some (Some (Sentinel (BridgeKind ErrPortAlrAttached)), s, [])"
  using assms by (simp add: AttachPort_def port_ok_def Let_def)

lemma switch_inv_removed:
  assumes "switch_inv s" shows "switch_inv (removed i s)"
proof -
  have "fdb_ok (removed i s)"
    using assms by (auto simp: switch_inv_def fdb_ok_def removed_def mget_filter
        split: option.splits if_splits)
  moreover have "ports_ok (removed i s)"
    using assms by (auto simp: switch_inv_def ports_ok_def removed_def)
  ultimately show ?thesis
    using assms by (auto simp: switch_inv_def run_ok_def removed_def)
qed

lemma fdb_no_empty:
  assumes "switch_inv s"
  shows "list_all (\<lambda>(mac, current). mac \<noteq> [] \<and> current \<noteq> []) (fdb s)"
proof -
  have "mwf (fdb s)" using assms by (simp add: switch_inv_def)
  then show ?thesis
    using assms by (auto simp: list_all_gomap switch_inv_def fdb_ok_def ports_ok_def) blast+
qed

lemma order_no_empty: "switch_inv s \<Longrightarrow> i \<in> set (order s) \<Longrightarrow> i \<noteq> []"
  by (auto simp: switch_inv_def ports_ok_def)

lemma RemovePort_absent:
  assumes "switch_inv s" "i \<noteq> []" "mget (ports s) i = None"
  shows "RemovePort en cl i s = Some (Some (Sentinel (BridgeKind ErrPortNotFound)), s, [])"
  using assms by (simp add: RemovePort_def)

lemma RemovePort_present:
  assumes inv: "switch_inv s" and i: "i \<noteq> []" and p: "mget (ports s) i = Some p"
  shows "RemovePort en cl i s = Some (cl i, removed i s,
    deliver s (port_event EventPortRemoved i) @ [ClosedPort i] @
    (case cl i of None \<Rightarrow> deliver s (port_event EventPortClosed i) | Some _ \<Rightarrow> []))"
proof -
  have del: "deliver (removed i s) e = deliver s e" for e
    by (simp add: deliver_def removed_def)
  have pid: "port_ID p = i"
    using inv p by (auto simp: switch_inv_def ports_ok_def)
  have fd: "deleteFDBEntriesForPort en (fdb s) i =
      Some (filter (\<lambda>(mac, current). current \<noteq> i) (fdb s))"
    using i fdb_no_empty [OF inv]
    by (auto simp: deleteFDBEntriesForPort_def That_cond list_all_iff)
  have ro: "removePortOrder en (order s) i = Some (filter (\<lambda>j. j \<noteq> i) (order s))"
    using i order_no_empty [OF inv] by (auto simp: removePortOrder_def That_cond list_all_iff)
  from fd ro pid p i inv switch_inv_removed [OF inv] show ?thesis
    by (simp add: RemovePort_def removed_def [symmetric] emit_ok del split: option.split)
qed

lemma startReaders_run:
  assumes "switch_inv s" "ctx s = Some c" "set ids \<subseteq> set (order s)"
  shows "startReaders en ids s = Some (s\<lparr>readers := readers s @ map (\<lambda>i. (i, c)) ids\<rparr>)"
  using assms
proof (induction ids arbitrary: s)
  case Nil
  then show ?case by simp
next
  case (Cons i ids)
  let ?s = "s\<lparr>readers := readers s @ [(i, c)]\<rparr>"
  from Cons.prems obtain p where p: "mget (ports s) i = Some p" "port_ID p = i" "i \<noteq> []" "0 < port_MTU p"
    by (auto simp: switch_inv_def ports_ok_def)
  have run: "started s" "cancel s = Some c"
    using Cons.prems by (auto simp: switch_inv_def run_ok_def)
  have "switch_inv ?s"
    using Cons.prems by (intro switch_inv_readers) (auto simp: switch_inv_def run_ok_def)
  from Cons.IH [OF this] Cons.prems
  have "startReaders en ids ?s = Some (?s\<lparr>readers := readers ?s @ map (\<lambda>i. (i, c)) ids\<rparr>)"
    by simp
  with p run Cons.prems show ?case
    by (simp add: startReaderLocked_def)
qed

lemma sortedPortIDs_run:
  assumes "switch_inv s" shows "sortedPortIDsLocked en s = Some (sort (order s))"
proof -
  have "list_all (\<lambda>i. i \<noteq> [] \<and> mget (ports s) i \<noteq> None) (order s)" "distinct (order s)"
    using assms by (auto simp: list_all_iff switch_inv_def ports_ok_def)
  then show ?thesis
    by (simp add: sortedPortIDsLocked_def)
qed

lemma switch_inv_started:
  assumes "switch_inv s" "ctx s = None"
  shows "switch_inv (s\<lparr>ctx := Some (nextCtx s), cancel := Some (nextCtx s),
      nextCtx := nextCtx s + 1, started := True\<rparr>)"
  using assms by (fastforce simp: switch_inv_def run_ok_def ports_ok_def fdb_ok_def)

lemma Start_stopped:
  assumes inv: "switch_inv s" and st: "\<not> started s"
  shows "Start en s = Some (running s, deliver s (event0 EventSwitchStart))"
    and "switch_inv (running s)"
proof -
  let ?s = "s\<lparr>ctx := Some (nextCtx s), cancel := Some (nextCtx s),
      nextCtx := nextCtx s + 1, started := True\<rparr>"
  have none: "ctx s = None" "cancel s = None"
    using inv st by (auto simp: switch_inv_def run_ok_def)
  have inv': "switch_inv ?s"
    using inv none by (intro switch_inv_started)
  have eq: "running s = ?s\<lparr>readers := readers ?s @ map (\<lambda>i. (i, nextCtx s)) (sort (order ?s))\<rparr>"
    by (simp add: running_def)
  show run: "switch_inv (running s)"
    unfolding eq using inv' by (intro switch_inv_readers) (auto simp: switch_inv_def run_ok_def)
  have "startReaders en (sort (order ?s)) ?s = Some (running s)"
    unfolding eq by (rule startReaders_run [OF inv']) auto
  then show "Start en s = Some (running s, deliver s (event0 EventSwitchStart))"
    using inv st none inv' run sortedPortIDs_run [OF inv', of en]
    by (simp add: Start_def emit_ok) (simp add: deliver_def running_def)
qed

lemma Start_running: "switch_inv s \<Longrightarrow> started s \<Longrightarrow> Start en s = Some (s, [])"
  by (auto simp: Start_def switch_inv_def [of s] run_ok_def That_cond)

lemma lookupPorts_run:
  assumes "switch_inv s" "set ids \<subseteq> set (order s)"
  shows "\<exists>ps. lookupPorts en ids s = Some ps \<and> map port_ID ps = ids"
  using assms(2)
proof (induction ids)
  case Nil
  then show ?case by simp
next
  case (Cons i ids)
  then obtain p ps where "mget (ports s) i = Some p" "port_ID p = i"
      "lookupPorts en ids s = Some ps" "map port_ID ps = ids"
    using assms(1) by (auto simp: switch_inv_def ports_ok_def)
  then show ?case by simp
qed

lemma Stop_running:
  assumes inv: "switch_inv s" and c: "ctx s = Some c"
  shows "Stop en s = Some (halted s c,
      CancelledCtx c # map ClosedPort (sort (order s)) @ deliver s (event0 EventSwitchStop))"
    and "switch_inv (halted s c)"
proof -
  have st: "started s" "cancel s = Some c"
    using inv c by (auto simp: switch_inv_def run_ok_def)
  obtain ps where ps: "lookupPorts en (sort (order s)) s = Some ps" "map port_ID ps = sort (order s)"
    using lookupPorts_run [OF inv, of "sort (order s)" en] by auto
  have closed: "map (\<lambda>p. ClosedPort (port_ID p)) ps = map ClosedPort (sort (order s))"
    using arg_cong [OF ps(2), of "map ClosedPort"] by (simp add: comp_def)
  have stopped: "valid (s\<lparr>started := False, cancel := None, ctx := None\<rparr>)"
    using switch_inv_valid [OF inv] by (auto simp: valid_def)
  have wait: "wg_Wait (s\<lparr>started := False, cancel := None, ctx := None, cancelled := c # cancelled s\<rparr>)
      = halted s c"
  proof -
    have "filter (\<lambda>(i, c'). c' \<notin> set (c # cancelled s)) (readers s) = []"
      using inv c by (auto simp: switch_inv_def run_ok_def filter_empty_conv)
    then show ?thesis
      by (simp add: wg_Wait_def halted_def)
  qed
  show "Stop en s = Some (halted s c,
      CancelledCtx c # map ClosedPort (sort (order s)) @ deliver s (event0 EventSwitchStop))"
    using inv st c ps(1) closed stopped wait sortedPortIDs_run [OF inv, of en]
    by (simp add: Stop_def assertValidLocked_def [of _ "s\<lparr>started := _, cancel := _, ctx := _\<rparr>"]
        emit_ok) (simp add: deliver_def)
  show "switch_inv (halted s c)"
    using inv c by (auto simp: switch_inv_def run_ok_def ports_ok_def fdb_ok_def halted_def)
qed

lemma Stop_stopped: "switch_inv s \<Longrightarrow> \<not> started s \<Longrightarrow> Stop en s = Some (s, [])"
  by (auto simp: Stop_def switch_inv_def [of s] run_ok_def That_cond)

section \<open>Forwarding, evaluated\<close>

text \<open>
  What the switch does with a frame, without assertions and without the string keys of the
  database: the identifiers of the ports a frame goes to, the observations of handing it to
  one port, and the state after learning.
\<close>

definition others :: "Switch \<Rightarrow> string \<Rightarrow> string list" where
  "others s srcID = filter (\<lambda>i. i \<noteq> srcID) (sort (order s))"

definition unknown_ids :: "Switch \<Rightarrow> string \<Rightarrow> string list" where
  "unknown_ids s srcID = (if DisableUnknownUnicastFlood (opts s) then [] else others s srcID)"

definition fdb_lookup :: "Switch \<Rightarrow> byte list \<rightharpoonup> string" where
  "fdb_lookup s m = mget (fdb s) (mac_String m)"

definition egress_ids :: "Switch \<Rightarrow> string \<Rightarrow> byte list \<Rightarrow> string list" where
  "egress_ids s srcID dst =
     (if isMulticastMAC dst then others s srcID
      else case fdb_lookup s dst of
        None \<Rightarrow> unknown_ids s srcID
      | Some q \<Rightarrow> if q = srcID then unknown_ids s srcID else [q])"

definition learned :: "Switch \<Rightarrow> byte list \<Rightarrow> string \<Rightarrow> Switch" where
  "learned s mac portID =
     (if isBroadcastMAC mac then s else s\<lparr>fdb := mput (mac_String mac) portID (fdb s)\<rparr>)"

definition hand_over ::
  "(string \<Rightarrow> frame \<Rightarrow> gerror option) \<Rightarrow> Switch \<Rightarrow> string \<Rightarrow> frame \<Rightarrow> string \<Rightarrow> obs list" where
  "hand_over wr s srcID fr t = Wrote t fr #
     (case wr t fr of
        Some err \<Rightarrow> deliver s (frame_event EventFrameDropped srcID t fr (Some err))
      | None \<Rightarrow>
          record_frame s \<lparr>cf_PortID = t, cf_Direction = FrameEgress, cf_Frame = fr\<rparr> @
          deliver s (frame_event EventFrameEgress srcID t fr None))"

definition learn_obs :: "Switch \<Rightarrow> byte list \<Rightarrow> string \<Rightarrow> obs list" where
  "learn_obs s mac portID =
     (if isBroadcastMAC mac \<or> fdb_lookup s mac = Some portID then []
      else deliver s ((port_event EventFDBLearned portID)\<lparr>ev_MAC := mac\<rparr>))"

definition ingress_obs :: "Switch \<Rightarrow> string \<Rightarrow> frame \<Rightarrow> obs list" where
  "ingress_obs s srcID fr =
     record_frame s \<lparr>cf_PortID = srcID, cf_Direction = FrameIngress, cf_Frame = fr\<rparr> @
     deliver s (frame_event EventFrameIngress srcID [] fr None)"

definition forwarded :: "obs list \<Rightarrow> (string \<times> frame) list" where
  "forwarded os = List.map_filter (\<lambda>x. case x of Wrote t fr \<Rightarrow> Some (t, fr) | _ \<Rightarrow> None) os"

lemma fdb_lookup_in_ports: "switch_inv s \<Longrightarrow> fdb_lookup s m = Some q \<Longrightarrow> mget (ports s) q \<noteq> None"
  by (auto simp: fdb_lookup_def switch_inv_def fdb_ok_def)

lemma collectExcept_run:
  assumes "switch_inv s" "set ids \<subseteq> set (order s)"
  shows "\<exists>ps. collectExcept en s srcID ids = Some ps \<and> map port_ID ps = filter (\<lambda>i. i \<noteq> srcID) ids"
  using assms(2)
proof (induction ids)
  case Nil
  then show ?case by simp
next
  case (Cons i ids)
  then obtain p ps where "mget (ports s) i = Some p" "port_ID p = i" "i \<noteq> []"
      "collectExcept en s srcID ids = Some ps" "map port_ID ps = filter (\<lambda>i. i \<noteq> srcID) ids"
    using assms(1) by (auto simp: switch_inv_def ports_ok_def)
  then show ?case by simp
qed

lemma allPortsExcept_run:
  assumes "switch_inv s" "srcID \<noteq> []"
  shows "\<exists>ps. allPortsExceptLocked en s srcID = Some ps \<and> map port_ID ps = others s srcID \<and>
    list_all (\<lambda>p. port_ID p \<noteq> srcID) ps"
proof -
  obtain ps where ps: "collectExcept en s srcID (sort (order s)) = Some ps"
      "map port_ID ps = others s srcID"
    using collectExcept_run [OF assms(1), of "sort (order s)" en srcID] by (auto simp: others_def)
  have "port_ID ` set ps = set (others s srcID)"
    using ps(2) by (metis list.set_map)
  then have "list_all (\<lambda>p. port_ID p \<noteq> srcID) ps"
    by (auto simp: list_all_iff others_def)
  with ps assms(2) show ?thesis
    by (simp add: allPortsExceptLocked_def)
qed

lemma egressPorts_run:
  assumes inv: "switch_inv s" and src: "srcID \<noteq> []" and len: "length dst = 6"
  shows "\<exists>ps. egressPorts en s srcID dst = Some ps \<and> map port_ID ps = egress_ids s srcID dst"
proof -
  obtain ps where ps: "allPortsExceptLocked en s srcID = Some ps" "map port_ID ps = others s srcID"
      "list_all (\<lambda>p. port_ID p \<noteq> srcID) ps"
    using allPortsExcept_run [OF inv src] by blast
  show ?thesis
  proof (cases "isMulticastMAC dst")
    case True
    with ps src len show ?thesis
      by (simp add: egressPorts_def egress_ids_def)
  next
    case False
    then have nb: "\<not> isBroadcastMAC dst"
      using broadcast_is_multicast by blast
    show ?thesis
    proof (cases "fdb_lookup s dst")
      case None
      with False nb ps src len show ?thesis
        by (auto simp: egressPorts_def egress_ids_def fdb_lookup_def unknownUnicast_def unknown_ids_def)
    next
      case (Some q)
      moreover obtain p where "mget (ports s) q = Some p" "port_ID p = q"
        using fdb_lookup_in_ports [OF inv Some] inv by (auto simp: switch_inv_def ports_ok_def)
      ultimately show ?thesis
        using False nb ps src len
        by (auto simp: egressPorts_def egress_ids_def fdb_lookup_def unknownUnicast_def unknown_ids_def)
    qed
  qed
qed

lemma egress_ids_attached:
  assumes "switch_inv s" "t \<in> set (egress_ids s srcID dst)"
  shows "mget (ports s) t \<noteq> None" "t \<noteq> srcID" "t \<noteq> []"
proof -
  show t: "mget (ports s) t \<noteq> None" "t \<noteq> srcID"
    using assms fdb_lookup_in_ports [OF assms(1)]
    by (auto simp: egress_ids_def others_def unknown_ids_def switch_inv_def ports_ok_def
        split: if_splits option.splits)
  from t(1) show "t \<noteq> []"
    using assms(1) by (auto simp: switch_inv_def ports_ok_def)
qed

lemma distinct_egress_ids: "switch_inv s \<Longrightarrow> distinct (egress_ids s srcID dst)"
  by (auto simp: egress_ids_def others_def unknown_ids_def switch_inv_def ports_ok_def
      split: option.splits)

lemma forwardAll_run:
  assumes "srcID \<noteq> []" "\<forall>t \<in> set (map port_ID ps). t \<noteq> [] \<and> t \<noteq> srcID"
  shows "forwardAll en wr s srcID fr ps = Some (concat (map (hand_over wr s srcID fr) (map port_ID ps)))"
  using assms(2)
  by (induction ps) (use assms(1) in \<open>auto simp: hand_over_def emit_ok capture_ok split: option.split\<close>)

lemma switch_inv_learned:
  assumes "switch_inv s" "mget (ports s) portID \<noteq> None" "mac \<noteq> []"
  shows "switch_inv (learned s mac portID)"
  using assms
  by (auto simp: learned_def switch_inv_def run_ok_def ports_ok_def fdb_ok_def)

lemma learn_run:
  assumes inv: "switch_inv s" and p: "mget (ports s) portID \<noteq> None" and len: "length mac = 6"
  shows "learn en s mac portID = Some (learned s mac portID, learn_obs s mac portID)"
proof -
  have ne: "portID \<noteq> []" "mac \<noteq> []"
    using inv p len by (auto simp: switch_inv_def ports_ok_def)
  have same: "fdb_lookup s mac = Some portID \<Longrightarrow> mput (mac_String mac) portID (fdb s) = fdb s"
    by (simp add: fdb_lookup_def mput_def update_triv)
  have del: "deliver (learned s mac portID) e = deliver s e" for e
    by (simp add: deliver_def learned_def)
  show ?thesis
    using switch_inv_learned [OF inv p ne(2)] del ne p len inv same
    by (auto simp: learn_def learn_obs_def learned_def fdb_lookup_def emit_ok Let_def)
qed

lemma processFrame_run:
  assumes inv: "switch_inv s" and p: "mget (ports s) srcID \<noteq> None" and len: "ethernetHeaderLen \<le> length fr"
  shows "processFrame en wr s srcID fr =
    Some (learned s (src_of fr) srcID,
      ingress_obs s srcID fr @ learn_obs s (src_of fr) srcID @
      concat (map (hand_over wr (learned s (src_of fr) srcID) srcID fr)
        (egress_ids (learned s (src_of fr) srcID) srcID (dst_of fr))))"
proof -
  let ?t = "learned s (src_of fr) srcID"
  have src: "srcID \<noteq> []"
    using inv p by (auto simp: switch_inv_def ports_ok_def)
  have inv': "switch_inv ?t"
  proof (rule switch_inv_learned [OF inv p])
    show "src_of fr \<noteq> []" using addr_lengths(2) [OF len] by auto
  qed
  obtain ps where ps: "egressPorts en ?t srcID (dst_of fr) = Some ps"
      "map port_ID ps = egress_ids ?t srcID (dst_of fr)"
    using egressPorts_run [OF inv' src addr_lengths(1) [OF len]] by blast
  have "\<forall>t \<in> set (map port_ID ps). t \<noteq> [] \<and> t \<noteq> srcID"
    unfolding ps(2) using egress_ids_attached [OF inv'] by blast
  from forwardAll_run [OF src this] learn_run [OF inv p addr_lengths(2) [OF len]] ps src p len
  show ?thesis
    by (simp add: processFrame_def emit_ok capture_ok ingress_obs_def)
qed

lemma processFrame_short:
  assumes inv: "switch_inv s" and p: "mget (ports s) srcID \<noteq> None" and len: "length fr < ethernetHeaderLen"
  shows "processFrame en wr s srcID fr =
    Some (s, ingress_obs s srcID fr @
      deliver s (frame_event EventFrameDropped srcID [] fr (Some (Sentinel (BridgeKind ErrFrameTooShort)))))"
proof -
  have "srcID \<noteq> []"
    using inv p by (auto simp: switch_inv_def ports_ok_def)
  with p len show ?thesis
    by (simp add: processFrame_def emit_ok capture_ok ingress_obs_def)
qed

section \<open>Frames on the wire\<close>

lemma forwarded_append [simp]: "forwarded (xs @ ys) = forwarded xs @ forwarded ys"
  by (simp add: forwarded_def List.map_filter_def)

lemma forwarded_deliver [simp]: "forwarded (deliver s e) = []"
  by (simp add: forwarded_def deliver_def List.map_filter_def filter_empty_conv split: prod.splits)

lemma forwarded_record [simp]: "forwarded (record_frame s f) = []"
  by (simp add: forwarded_def record_frame_def List.map_filter_def filter_empty_conv)

lemma forwarded_Nil [simp]: "forwarded [] = []"
  by (simp add: forwarded_def List.map_filter_def)

lemma forwarded_Wrote [simp]: "forwarded (Wrote t fr # os) = (t, fr) # forwarded os"
  by (simp add: forwarded_def List.map_filter_def)

lemma forwarded_hand_over:
  "forwarded (concat (map (hand_over wr s srcID fr) ts)) = map (\<lambda>t. (t, fr)) ts"
  by (induction ts) (auto simp: hand_over_def split: option.split)

lemma forwarded_processFrame:
  assumes "switch_inv s" "mget (ports s) srcID \<noteq> None" "processFrame en wr s srcID fr = Some (t, os)"
  shows "forwarded os =
    (if length fr < ethernetHeaderLen then []
     else map (\<lambda>i. (i, fr)) (egress_ids (learned s (src_of fr) srcID) srcID (dst_of fr)))"
  using assms
  by (cases "length fr < ethernetHeaderLen")
     (auto simp: processFrame_short processFrame_run ingress_obs_def learn_obs_def forwarded_hand_over)

lemma learned_simps [simp]:
  "ports (learned s mac i) = ports s" "order (learned s mac i) = order s"
  "handlers (learned s mac i) = handlers s" "opts (learned s mac i) = opts s"
  by (simp_all add: learned_def)

lemma fdb_lookup_learned:
  "fdb_lookup (learned s mac portID) =
     (if isBroadcastMAC mac then fdb_lookup s else (fdb_lookup s)(mac \<mapsto> portID))"
  by (auto simp: fdb_lookup_def learned_def fun_eq_iff dest: mac_String_inj)

end
