(* ===== verification/Bridge_Properties.thy ===== *)
theory Bridge_Properties
  imports Bridge_Switch_Facts
begin

text \<open>
  The properties of the switch: reachable states satisfy the invariant, the debug build never
  panics in them, forwarding refines an abstract learning switch, and the two ways in which
  \<open>RemovePort\<close> and a running reader get out of step.
\<close>

section \<open>An abstract learning switch\<close>

record LearningSwitch =
  members :: "string set"
  table :: "byte list \<rightharpoonup> string"
  flood_unknown :: bool

definition abs_switch :: "Switch \<Rightarrow> LearningSwitch" where
  "abs_switch s = \<lparr>members = dom (map_of (ports s)), table = fdb_lookup s,
     flood_unknown = (\<not> DisableUnknownUnicastFlood (opts s))\<rparr>"

definition spec_learn :: "string \<Rightarrow> frame \<Rightarrow> LearningSwitch \<Rightarrow> LearningSwitch" where
  "spec_learn srcID fr a =
     (if length fr < 14 \<or> isBroadcastMAC (src_of fr) then a
      else a\<lparr>table := (table a)(src_of fr \<mapsto> srcID)\<rparr>)"

definition spec_targets :: "string \<Rightarrow> frame \<Rightarrow> LearningSwitch \<Rightarrow> string set" where
  "spec_targets srcID fr a =
     (if length fr < 14 then {}
      else if isMulticastMAC (dst_of fr) then members a - {srcID}
      else case table a (dst_of fr) of
        Some q \<Rightarrow> if q \<noteq> srcID then {q}
                  else if flood_unknown a then members a - {srcID} else {}
      | None \<Rightarrow> if flood_unknown a then members a - {srcID} else {})"

section \<open>Every step keeps the invariant\<close>

lemma switch_inv_New: "switch_inv (NewSwitch o')"
  by (auto simp: NewSwitch_def switch_inv_def run_ok_def ports_ok_def fdb_ok_def)

lemma switch_inv_handlers:
  "switch_inv s \<Longrightarrow> mwf hs \<Longrightarrow> switch_inv (s\<lparr>nextHook := n, handlers := hs\<rparr>)"
  by (auto simp: switch_inv_def run_ok_def ports_ok_def fdb_ok_def)

lemma switch_inv_handlers': "switch_inv s \<Longrightarrow> mwf hs \<Longrightarrow> switch_inv (s\<lparr>handlers := hs\<rparr>)"
  by (auto simp: switch_inv_def run_ok_def ports_ok_def fdb_ok_def)

lemma switch_inv_captures: "switch_inv s \<Longrightarrow> switch_inv (s\<lparr>captures := ks\<rparr>)"
  by (auto simp: switch_inv_def run_ok_def ports_ok_def fdb_ok_def)

lemma switch_inv_mwf_handlers: "switch_inv s \<Longrightarrow> mwf (handlers s)"
  by (simp add: switch_inv_def)

lemmas switch_inv_keeps =
  switch_inv_attached switch_inv_removed switch_inv_handlers switch_inv_handlers'
  switch_inv_captures switch_inv_learned Start_stopped(2) Stop_running(2)

lemma AttachPort_inv:
  assumes "switch_inv s" "port_ok p" "AttachPort en p s = Some (e, t, os)" shows "switch_inv t"
  using assms by (cases "mget (ports s) (port_ID p)")
    (auto simp: AttachPort_new AttachPort_dup intro: switch_inv_attached)

lemma RemovePort_inv:
  assumes "switch_inv s" "i \<noteq> []" "RemovePort en cl i s = Some (e, t, os)" shows "switch_inv t"
  using assms by (cases "mget (ports s) i")
    (auto simp: RemovePort_absent RemovePort_present intro: switch_inv_removed)

lemma Start_inv:
  assumes "switch_inv s" "Start en s = Some (t, os)" shows "switch_inv t"
  using assms by (cases "started s") (auto simp: Start_running Start_stopped)

lemma ctx_of_started: "switch_inv s \<Longrightarrow> started s \<Longrightarrow> \<exists>c. ctx s = Some c"
  by (auto simp: switch_inv_def run_ok_def)

lemma Stop_inv:
  assumes "switch_inv s" "Stop en s = Some (t, os)" shows "switch_inv t"
proof (cases "started s")
  case True
  with assms(1) obtain c where "ctx s = Some c" using ctx_of_started by blast
  with assms Stop_running [OF assms(1)] show ?thesis by auto
next
  case False
  with assms show ?thesis by (simp add: Stop_stopped)
qed

lemma OnEvent_inv:
  assumes "switch_inv s" "OnEvent en h s = Some (i, t)" shows "switch_inv t"
  using assms switch_inv_handlers [OF assms(1) mwf_mput [OF switch_inv_mwf_handlers [OF assms(1)]]]
  by (auto simp: OnEvent_def Let_def That_def bind_eq_Some_conv split: if_splits)

lemma processFrame_inv:
  assumes "switch_inv s" "mget (ports s) i \<noteq> None" "processFrame en wr s i fr = Some (t, os)"
  shows "switch_inv t"
proof (cases "length fr < ethernetHeaderLen")
  case True
  with assms show ?thesis by (simp add: processFrame_short)
next
  case False
  then have "src_of fr \<noteq> []" using addr_lengths(2) [of fr] by force
  with False assms show ?thesis
    by (auto simp: processFrame_run intro: switch_inv_learned)
qed

lemma switch_step_inv:
  assumes "switch_inv s" "switch_step en s l t" shows "switch_inv t"
  using assms(2)
proof (cases rule: switch_step.cases)
  case (step_unregister i)
  with assms(1) switch_inv_handlers' [OF assms(1) mwf_mdel [OF switch_inv_mwf_handlers [OF assms(1)]]]
  show ?thesis by (auto simp: unregister_def Let_def)
next
  case (step_add_sink k)
  with assms(1) switch_inv_captures [OF assms(1)] show ?thesis
    by (auto simp: AddCaptureSink_def Let_def)
next
  case (step_attach p e os)
  then show ?thesis using AttachPort_inv [OF assms(1)] by blast
next
  case (step_remove i ce e os)
  then show ?thesis using RemovePort_inv [OF assms(1)] by blast
next
  case (step_start os)
  then show ?thesis using Start_inv [OF assms(1)] by blast
next
  case (step_stop os)
  then show ?thesis using Stop_inv [OF assms(1)] by blast
next
  case (step_on_event h i)
  then show ?thesis using OnEvent_inv [OF assms(1)] by blast
next
  case (step_frame i wr fr os)
  then show ?thesis using processFrame_inv [OF assms(1)] by blast
qed

interpretation sw: inductive_invariant "NewSwitch o'" "switch_step en" switch_inv for o' en
  by unfold_locales (auto intro: switch_inv_New switch_step_inv)

section \<open>Refinement of the abstract switch\<close>

lemma abs_learned:
  "\<not> length fr < ethernetHeaderLen \<Longrightarrow>
     abs_switch (learned s (src_of fr) srcID) = spec_learn srcID fr (abs_switch s)"
  by (simp add: abs_switch_def spec_learn_def fdb_lookup_learned ethernetHeaderLen_def)

lemma set_egress_ids:
  "switch_inv s \<Longrightarrow> \<not> length fr < ethernetHeaderLen \<Longrightarrow>
     set (egress_ids s srcID (dst_of fr)) = spec_targets srcID fr (abs_switch s)"
  by (auto simp: egress_ids_def spec_targets_def abs_switch_def others_def unknown_ids_def
      switch_inv_def ports_ok_def ethernetHeaderLen_def split: option.splits if_splits)

lemma processFrame_defined:
  assumes "switch_inv s" "mget (ports s) i \<noteq> None"
  shows "\<exists>t os. \<forall>en. processFrame en wr s i fr = Some (t, os)"
  using assms processFrame_run [OF assms] processFrame_short [OF assms]
  by (cases "length fr < ethernetHeaderLen") (force simp: not_less)+

section \<open>Reader and removal\<close>

lemma collectExcept_cong:
  "ports s = ports t \<Longrightarrow> collectExcept en s srcID ids = collectExcept en t srcID ids"
  by (induction ids) auto

lemma egressPorts_release:
  assumes "switch_inv s" "srcID \<noteq> []" "ports t = ports s" "order t = order s"
  shows "\<exists>ps. egressPorts False t srcID dst = Some ps"
proof -
  obtain ps where "collectExcept False t srcID (sort (order t)) = Some ps"
    using collectExcept_run [OF assms(1), of "sort (order s)" False srcID]
      collectExcept_cong [OF assms(3), of False srcID] assms(4) by auto
  then show ?thesis
    by (auto simp: egressPorts_def allPortsExceptLocked_def unknownUnicast_def
        split: option.splits)
qed

lemma forwardAll_release: "\<exists>os. forwardAll False wr s srcID fr ps = Some os"
  by (induction ps) (auto simp: emit_release capture_release Let_def split: option.split)

lemma late_learn:
  assumes "switch_inv s" "i \<noteq> []" "mget (ports s) i = None" "length mac = 6" "\<not> isBroadcastMAC mac"
  shows "\<exists>os. learn False s mac i = Some (s\<lparr>fdb := mput (mac_String mac) i (fdb s)\<rparr>, os)"
proof -
  have "mget (fdb s) (mac_String mac) \<noteq> Some i"
    using assms unfolding switch_inv_def fdb_ok_def by blast
  with assms show ?thesis
    by (auto simp: learn_def assertValidLocked_def emit_release Let_def)
qed

lemma valid_fdb_ports: "valid s \<Longrightarrow> (mac, pid) \<in> set (fdb s) \<Longrightarrow> mget (ports s) pid \<noteq> None"
  by (fastforce simp: valid_def list_all_iff)

section \<open>Example state for the witnesses\<close>

definition ex_opts :: SwitchOptions where
  "ex_opts = \<lparr>DisableUnknownUnicastFlood = False\<rparr>"

definition ex_port :: "string \<Rightarrow> port" where
  "ex_port i = \<lparr>port_ID = i, port_MTU = 1500\<rparr>"

definition ex_switch :: Switch where
  "ex_switch = running (attached (ex_port ''c'') (attached (ex_port ''b'')
     (attached (ex_port ''a'') (NewSwitch ex_opts))))"

definition ex_frame :: "byte \<Rightarrow> byte \<Rightarrow> frame" where
  "ex_frame d s = [2, 0, 0, 0, 0, d, 2, 0, 0, 0, 0, s, 8, 0]"

lemma port_ok_ex: "i \<noteq> [] \<Longrightarrow> port_ok (ex_port i)"
  by (simp add: port_ok_def ex_port_def)

lemma reach_attached:
  assumes "reach (NewSwitch o') (switch_step en) s" "port_ok p" "mget (ports s) (port_ID p) = None"
  shows "reach (NewSwitch o') (switch_step en) (attached p s)"
  using reach_step [OF assms(1) step_attach]
    AttachPort_new [OF sw.reach_inv [OF assms(1)] assms(2,3)] assms(2) by blast

lemma ex_switch_reach: "reach (NewSwitch ex_opts) (switch_step en) ex_switch"
proof -
  let ?a = "attached (ex_port ''a'') (NewSwitch ex_opts)"
  let ?b = "attached (ex_port ''b'') ?a"
  let ?c = "attached (ex_port ''c'') ?b"
  have "reach (NewSwitch ex_opts) (switch_step en) ?a"
    by (rule reach_attached [OF reach_init port_ok_ex]) (simp_all add: NewSwitch_def)
  then have "reach (NewSwitch ex_opts) (switch_step en) ?b"
    by (rule reach_attached [OF _ port_ok_ex]) (simp_all add: NewSwitch_def attached_def ex_port_def)
  then have r: "reach (NewSwitch ex_opts) (switch_step en) ?c"
    by (rule reach_attached [OF _ port_ok_ex]) (simp_all add: NewSwitch_def attached_def ex_port_def)
  have "\<not> started ?c" by (simp add: NewSwitch_def attached_def)
  with sw.reach_inv [OF r] have "Start en ?c = Some (running ?c, deliver ?c (event0 EventSwitchStart))"
    by (rule Start_stopped)
  then show ?thesis
    unfolding ex_switch_def by (rule reach_step [OF r step_start])
qed

lemma ex_switch_inv: "switch_inv ex_switch"
  by (rule sw.reach_inv [OF ex_switch_reach [of False]])

lemma ex_switch_ports:
  "mget (ports ex_switch) ''a'' = Some (ex_port ''a'')"
  "mget (ports ex_switch) ''b'' = Some (ex_port ''b'')"
  "mget (ports ex_switch) ''c'' = Some (ex_port ''c'')"
  by (simp_all add: ex_switch_def running_def attached_def NewSwitch_def ex_port_def)

definition ex_switch_h :: Switch where
  "ex_switch_h = ex_switch\<lparr>handlers := [(0, 7)]\<rparr>"

lemma ex_switch_h_inv: "switch_inv ex_switch_h"
  unfolding ex_switch_h_def by (rule switch_inv_handlers' [OF ex_switch_inv]) (simp add: mwf_def mkeys_def)

lemma ex_switch_order: "sort (order ex_switch) = [''a'', ''b'', ''c'']"
  by (simp add: ex_switch_def running_def attached_def NewSwitch_def ex_port_def)

lemma order_ex_switch_h: "sort (order ex_switch_h) = [''a'', ''b'', ''c'']"
  using ex_switch_order by (simp add: ex_switch_h_def)

section \<open>Events of one frame\<close>

lemma Handled_deliver:
  "Handled h e \<in> set (deliver s e') \<longleftrightarrow> e = e' \<and> h \<in> snd ` set (handlers s)"
  by (force simp: deliver_def)

lemma Handled_record [simp]: "Handled h e \<notin> set (record_frame s f)"
  by (auto simp: record_frame_def)

lemma frame_event_inject [simp]:
  "frame_event a i t fr er = frame_event b j u gr es \<longleftrightarrow>
     a = b \<and> i = j \<and> t = u \<and> fr = gr \<and> er = es"
  by (auto simp: frame_event_def event0_def)

lemma learned_event_not_frame [simp]:
  "frame_event EventFrameDropped i t fr er \<noteq> (port_event EventFDBLearned j)\<lparr>ev_MAC := m\<rparr>"
  "frame_event EventFrameEgress i t fr er \<noteq> (port_event EventFDBLearned j)\<lparr>ev_MAC := m\<rparr>"
  by (auto simp: frame_event_def port_event_def event0_def)

lemma Handled_hand_over:
  "Handled h (frame_event EventFrameDropped srcID t fr (Some e)) \<in> set (hand_over wr s srcID fr u) \<longleftrightarrow>
     h \<in> snd ` set (handlers s) \<and> t = u \<and> wr t fr = Some e"
  "Handled h (frame_event EventFrameEgress srcID t fr None) \<in> set (hand_over wr s srcID fr u) \<longleftrightarrow>
     h \<in> snd ` set (handlers s) \<and> t = u \<and> wr t fr = None"
  by (auto simp: hand_over_def Handled_deliver split: option.splits)

section \<open>Properties\<close>

text \<open>
  C1: in every state the switch can reach by its methods and by frames from attached ports,
  starting from \<open>NewSwitch\<close>, the check \<open>assertValidLocked\<close> succeeds: port order and port map
  agree, every forwarding entry points at an attached port, and a running switch has a context.
  The wait group only holds readers of the current or of a cancelled context.
\<close>

theorem switch_reachable_valid:
  assumes "reach (NewSwitch o') (switch_step en) s"
  shows "valid s \<and> (\<forall>(i, c) \<in> set (readers s). c \<in> set (cancelled s) \<or> ctx s = Some c)"
proof -
  from assms have "switch_inv s" by (rule sw.reach_inv)
  then show ?thesis
    using switch_inv_valid by (auto simp: switch_inv_def run_ok_def)
qed

theorem switch_reachable_valid_witness:
  "reach (NewSwitch ex_opts) (switch_step True) ex_switch \<and> valid ex_switch"
  using ex_switch_reach switch_reachable_valid [OF ex_switch_reach [of True]] by blast

text \<open>
  C2: in a reachable state the debug build returns what the release build returns, that is, no
  debug assertion fails, for calls with well-formed arguments: attaching a port that satisfies
  \<open>port_ok\<close>, removing a port by a non-empty identifier, starting, stopping, registering a handler
  while the hook counter is not at its 64-bit maximum, unregistering, adding a sink, and processing
  a frame of a port that is attached. The last condition is needed: a frame of a port that was removed
  while its reader was at work does fail an assertion, as shown below.
\<close>

theorem switch_debug_release_agree:
  assumes "reach (NewSwitch o') (switch_step False) s" "port_ok p" "i \<noteq> []"
    and "mget (ports s) j \<noteq> None" "nextHook s \<noteq> - 1"
  shows "(\<exists>r. AttachPort True p s = Some r \<and> AttachPort False p s = Some r) \<and>
    (\<exists>r. RemovePort True cl i s = Some r \<and> RemovePort False cl i s = Some r) \<and>
    (\<exists>r. Start True s = Some r \<and> Start False s = Some r) \<and>
    (\<exists>r. Stop True s = Some r \<and> Stop False s = Some r) \<and>
    (\<exists>r. OnEvent True h s = Some r \<and> OnEvent False h s = Some r) \<and>
    (\<exists>r. unregister True u s = Some r \<and> unregister False u s = Some r) \<and>
    (\<exists>r. AddCaptureSink True k s = Some r \<and> AddCaptureSink False k s = Some r) \<and>
    (\<exists>r. processFrame True wr s j fr = Some r \<and> processFrame False wr s j fr = Some r)"
proof (intro conjI)
  have inv: "switch_inv s" using assms(1) by (rule sw.reach_inv)
  show "\<exists>r. AttachPort True p s = Some r \<and> AttachPort False p s = Some r"
    using AttachPort_new [OF inv assms(2)] AttachPort_dup [OF inv assms(2)]
    by (cases "mget (ports s) (port_ID p)") auto
  show "\<exists>r. RemovePort True cl i s = Some r \<and> RemovePort False cl i s = Some r"
    using RemovePort_absent [OF inv assms(3)] RemovePort_present [OF inv assms(3)]
    by (cases "mget (ports s) i") auto
  show "\<exists>r. Start True s = Some r \<and> Start False s = Some r"
    using Start_running [OF inv] Start_stopped [OF inv] by (cases "started s") auto
  show "\<exists>r. Stop True s = Some r \<and> Stop False s = Some r"
    using Stop_stopped [OF inv] Stop_running [OF inv] ctx_of_started [OF inv]
    by (cases "started s") auto
  have "nextHook s < nextHook s + 1"
    using assms(5) by (rule word_less_succ)
  with inv show "\<exists>r. OnEvent True h s = Some r \<and> OnEvent False h s = Some r"
    by (simp add: OnEvent_def Let_def)
  show "\<exists>r. unregister True u s = Some r \<and> unregister False u s = Some r"
    using switch_inv_handlers' [OF inv mwf_mdel [OF switch_inv_mwf_handlers [OF inv]]]
    by (simp add: unregister_def Let_def)
  show "\<exists>r. AddCaptureSink True k s = Some r \<and> AddCaptureSink False k s = Some r"
    using inv switch_inv_captures [OF inv] by (simp add: AddCaptureSink_def Let_def)
  show "\<exists>r. processFrame True wr s j fr = Some r \<and> processFrame False wr s j fr = Some r"
    using processFrame_defined [OF inv assms(4)] by blast
qed

theorem switch_debug_release_agree_witness:
  "\<exists>r. processFrame True (\<lambda>_ _. None) ex_switch ''a'' (ex_frame 2 1) = Some r \<and>
       processFrame False (\<lambda>_ _. None) ex_switch ''a'' (ex_frame 2 1) = Some r"
proof -
  have h: "mget (ports ex_switch) ''a'' \<noteq> None" "nextHook ex_switch \<noteq> - 1" "''x'' \<noteq> ([] :: string)"
    by (simp_all add: ex_switch_ports) (simp add: ex_switch_def running_def attached_def NewSwitch_def)
  show ?thesis
    using switch_debug_release_agree [OF ex_switch_reach port_ok_ex [OF h(3)] h(3) h(1,2),
        of "\<lambda>_. None" 0 0 0 "\<lambda>_ _. None" "ex_frame 2 1"] by blast
qed

text \<open>
  C3: processing a frame refines the abstract learning switch, whose table is keyed by the
  hardware address itself: the table afterwards is the abstract one, and the frame goes,
  unmodified and once each, to exactly the abstract targets. It never goes back to the port it
  came from, and what the other ports answer to a write makes no difference.
\<close>

theorem processFrame_refines:
  assumes "switch_inv s" "mget (ports s) srcID \<noteq> None"
    and "processFrame en wr s srcID fr = Some (t, os)"
  shows "abs_switch t = spec_learn srcID fr (abs_switch s) \<and>
    set (forwarded os) = (\<lambda>i. (i, fr)) ` spec_targets srcID fr (abs_switch t) \<and>
    distinct (forwarded os) \<and> srcID \<notin> fst ` set (forwarded os)"
proof (cases "length fr < ethernetHeaderLen")
  case True
  then have "t = s" using assms by (simp add: processFrame_short)
  with True forwarded_processFrame [OF assms] show ?thesis
    by (simp add: spec_learn_def spec_targets_def ethernetHeaderLen_def)
next
  case False
  let ?t = "learned s (src_of fr) srcID"
  have t: "t = ?t" using False assms by (simp add: processFrame_run)
  have inv: "switch_inv ?t" using processFrame_inv [OF assms] t by simp
  have f: "forwarded os = map (\<lambda>i. (i, fr)) (egress_ids ?t srcID (dst_of fr))"
    using forwarded_processFrame [OF assms] False by simp
  have "distinct (forwarded os)"
    unfolding f using distinct_egress_ids [OF inv] by (auto simp: distinct_map intro: inj_onI)
  moreover have "srcID \<notin> fst ` set (forwarded os)"
    unfolding f using egress_ids_attached(2) [OF inv, of srcID srcID "dst_of fr"] by auto
  ultimately show ?thesis
    using abs_learned [OF False, of s srcID] set_egress_ids [OF inv False, of srcID] f t by simp
qed

theorem processFrame_refines_witness:
  "\<exists>t os. processFrame True (\<lambda>_ _. None) ex_switch ''a'' (ex_frame 2 1) = Some (t, os) \<and>
    abs_switch t = spec_learn ''a'' (ex_frame 2 1) (abs_switch ex_switch) \<and>
    ''a'' \<notin> fst ` set (forwarded os)"
proof -
  have p: "mget (ports ex_switch) ''a'' \<noteq> None" by (simp add: ex_switch_ports)
  obtain t os where r: "processFrame True (\<lambda>_ _. None) ex_switch ''a'' (ex_frame 2 1) = Some (t, os)"
    using processFrame_defined [OF ex_switch_inv p] by blast
  from processFrame_refines [OF ex_switch_inv p r] r show ?thesis by blast
qed

text \<open>
  The switch learns. After a frame from port \<open>p\<close> with a unicast source address, a frame that
  arrives at another port and is addressed to that source goes to \<open>p\<close> and nowhere else.
\<close>

theorem learned_unicast_reaches_owner:
  assumes "switch_inv s" "mget (ports s) p \<noteq> None" "mget (ports s) q \<noteq> None" "p \<noteq> q"
    and "14 \<le> length fr1" "14 \<le> length fr2" "\<not> isMulticastMAC (src_of fr1)"
    and "processFrame en wr s p fr1 = Some (s1, os1)"
    and "dst_of fr2 = src_of fr1" "src_of fr2 \<noteq> src_of fr1"
    and "processFrame en wr' s1 q fr2 = Some (s2, os2)"
  shows "forwarded os2 = [(p, fr2)]"
proof -
  have s1: "s1 = learned s (src_of fr1) p"
    using assms by (simp add: processFrame_run ethernetHeaderLen_def)
  have inv1: "switch_inv s1"
    by (rule processFrame_inv [OF assms(1,2,8)])
  have "fdb_lookup (learned s1 (src_of fr2) q) (src_of fr1) = Some p"
    using assms(7,10) broadcast_is_multicast by (auto simp: s1 fdb_lookup_learned)
  then have "egress_ids (learned s1 (src_of fr2) q) q (dst_of fr2) = [p]"
    using assms(4,7,9) by (simp add: egress_ids_def)
  moreover have "mget (ports s1) q \<noteq> None"
    using assms(3) by (simp add: s1 learned_def)
  ultimately show ?thesis
    using forwarded_processFrame [OF inv1 _ assms(11)] assms(6) by (simp add: ethernetHeaderLen_def)
qed

theorem learned_unicast_reaches_owner_witness:
  "\<exists>s1 os1 s2 os2. processFrame True (\<lambda>_ _. None) ex_switch ''b'' (ex_frame 1 2) = Some (s1, os1) \<and>
     processFrame True (\<lambda>_ _. None) s1 ''a'' (ex_frame 2 1) = Some (s2, os2) \<and>
     forwarded os2 = [(''b'', ex_frame 2 1)]"
proof -
  have p: "mget (ports ex_switch) ''a'' \<noteq> None" "mget (ports ex_switch) ''b'' \<noteq> None"
    by (simp_all add: ex_switch_ports)
  obtain s1 os1 where r1: "processFrame True (\<lambda>_ _. None) ex_switch ''b'' (ex_frame 1 2) = Some (s1, os1)"
    using processFrame_defined [OF ex_switch_inv p(2)] by blast
  have s1: "s1 = learned ex_switch (src_of (ex_frame 1 2)) ''b''"
    using processFrame_run [OF ex_switch_inv p(2), of "ex_frame 1 2"] r1
    by (simp add: ethernetHeaderLen_def ex_frame_def)
  have "mget (ports s1) ''a'' \<noteq> None"
    by (simp add: s1 learned_def ex_switch_ports)
  then obtain s2 os2 where r2: "processFrame True (\<lambda>_ _. None) s1 ''a'' (ex_frame 2 1) = Some (s2, os2)"
    using processFrame_defined [OF processFrame_inv [OF ex_switch_inv p(2) r1]] by blast
  have "forwarded os2 = [(''b'', ex_frame 2 1)]"
    by (rule learned_unicast_reaches_owner [OF ex_switch_inv p(2,1) _ _ _ _ r1 _ _ r2])
       (simp_all add: ex_frame_def src_of_def dst_of_def isMulticastMAC_def)
  with r1 r2 show ?thesis by blast
qed

text \<open>
  A broadcast or multicast frame is flooded to every other attached port exactly once, in
  the order of the identifiers, byte for byte; no database entry can redirect it.
\<close>

theorem multicast_floods:
  assumes "switch_inv s" "mget (ports s) srcID \<noteq> None" "14 \<le> length fr"
    and "isBroadcastMAC (dst_of fr) \<or> isMulticastMAC (dst_of fr)"
    and "processFrame en wr s srcID fr = Some (t, os)"
  shows "forwarded os = map (\<lambda>i. (i, fr)) (filter (\<lambda>i. i \<noteq> srcID) (sort (order s))) \<and>
    set (order s) = dom (map_of (ports s))"
proof -
  have "isMulticastMAC (dst_of fr)"
    using assms(4) broadcast_is_multicast by blast
  moreover have "order (learned s (src_of fr) srcID) = order s"
    by (simp add: learned_def)
  ultimately show ?thesis
    using forwarded_processFrame [OF assms(1,2,5)] assms(1,3)
    by (simp add: ethernetHeaderLen_def egress_ids_def others_def switch_inv_def ports_ok_def)
qed

theorem multicast_floods_witness:
  "\<exists>t os. processFrame True (\<lambda>_ _. None) ex_switch ''b'' (replicate 14 0xff) = Some (t, os) \<and>
     forwarded os = [(''a'', replicate 14 0xff), (''c'', replicate 14 0xff)]"
proof -
  have p: "mget (ports ex_switch) ''b'' \<noteq> None" by (simp add: ex_switch_ports)
  obtain t os where r: "processFrame True (\<lambda>_ _. None) ex_switch ''b'' (replicate 14 0xff) = Some (t, os)"
    using processFrame_defined [OF ex_switch_inv p] by blast
  have b: "isBroadcastMAC (dst_of (replicate 14 0xff)) \<or> isMulticastMAC (dst_of (replicate 14 0xff))"
    by (simp add: isBroadcastMAC_def dst_of_def numeral_eq_Suc)
  have l: "14 \<le> length (replicate 14 (0xff :: byte))" by simp
  from multicast_floods [OF ex_switch_inv p l b r] r show ?thesis
    by (simp add: ex_switch_order)
qed

text \<open>
  A port that fails to take a frame is reported, once per handler, with the port's own error,
  and a port that takes it is reported as an egress; the failure of one port does not keep the
  frame from the others.
\<close>

theorem write_failures_are_isolated:
  assumes "switch_inv s" "mget (ports s) srcID \<noteq> None" "14 \<le> length fr"
    and "processFrame en wr s srcID fr = Some (t, os)"
    and "processFrame en (\<lambda>_ _. None) s srcID fr = Some (t', os')"
    and "h \<in> snd ` set (handlers s)" "dest \<noteq> []"
  shows "forwarded os = forwarded os' \<and>
    (Handled h (frame_event EventFrameDropped srcID dest fr (Some e)) \<in> set os \<longleftrightarrow>
       (dest, fr) \<in> set (forwarded os) \<and> wr dest fr = Some e) \<and>
    (Handled h (frame_event EventFrameEgress srcID dest fr None) \<in> set os \<longleftrightarrow>
       (dest, fr) \<in> set (forwarded os) \<and> wr dest fr = None)"
proof -
  have len: "ethernetHeaderLen \<le> length fr" using assms(3) by (simp add: ethernetHeaderLen_def)
  have f: "forwarded os = forwarded os'"
    using forwarded_processFrame [OF assms(1,2,4)] forwarded_processFrame [OF assms(1,2,5)] by simp
  have os: "os = ingress_obs s srcID fr @ learn_obs s (src_of fr) srcID @
      concat (map (hand_over wr (learned s (src_of fr) srcID) srcID fr)
        (egress_ids (learned s (src_of fr) srcID) srcID (dst_of fr)))"
    using processFrame_run [OF assms(1,2) len, of en wr] assms(4) by simp
  have fs: "(dest, fr) \<in> set (forwarded os) \<longleftrightarrow>
      dest \<in> set (egress_ids (learned s (src_of fr) srcID) srcID (dst_of fr))"
    using forwarded_processFrame [OF assms(1,2,4)] len by auto
  show ?thesis
    using f fs assms(6,7)
    by (auto simp: os ingress_obs_def learn_obs_def Handled_deliver Handled_hand_over)
qed

theorem write_failures_are_isolated_witness:
  "\<exists>t os. processFrame True (\<lambda>i _. if i = ''b'' then Some (Sentinel (OS EIO)) else None) ex_switch_h ''a''
       (replicate 14 0xff) = Some (t, os) \<and>
     (''c'', replicate 14 0xff) \<in> set (forwarded os) \<and>
     Handled 7 (frame_event EventFrameDropped ''a'' ''b'' (replicate 14 0xff) (Some (Sentinel (OS EIO)))) \<in> set os"
proof -
  let ?fr = "replicate 14 0xff :: frame"
  let ?wr = "\<lambda>i _. if i = ''b'' then Some (Sentinel (OS EIO)) else None"
  have p: "mget (ports ex_switch_h) ''a'' \<noteq> None" by (simp add: ex_switch_h_def ex_switch_ports)
  obtain t os where r: "processFrame True ?wr ex_switch_h ''a'' ?fr = Some (t, os)"
    using processFrame_defined [OF ex_switch_h_inv p] by blast
  obtain t' os' where r': "processFrame True (\<lambda>_ _. None) ex_switch_h ''a'' ?fr = Some (t', os')"
    using processFrame_defined [OF ex_switch_h_inv p] by blast
  have h: "7 \<in> snd ` set (handlers ex_switch_h)" by (simp add: ex_switch_h_def)
  have bc: "isMulticastMAC (dst_of ?fr)"
    by (simp add: isMulticastMAC_def dst_of_def numeral_eq_Suc)
  have f: "(''b'', ?fr) \<in> set (forwarded os)" "(''c'', ?fr) \<in> set (forwarded os)"
    using forwarded_processFrame [OF ex_switch_h_inv p r] bc ex_switch_order
    by (simp_all add: ethernetHeaderLen_def egress_ids_def others_def order_ex_switch_h)
  have l: "14 \<le> length ?fr" by simp
  from write_failures_are_isolated [OF ex_switch_h_inv p l r r' h, of "''b''" "Sentinel (OS EIO)"] f r
  show ?thesis by auto
qed

text \<open>
  Removing a port detaches it, closes it, forgets every address learned on it and no other
  address, and from then on no frame of an attached port is written to it.
\<close>

theorem RemovePort_forgets:
  assumes "switch_inv s" "i \<noteq> []" "mget (ports s) i \<noteq> None"
    and "RemovePort en cl i s = Some (e, t, os)"
  shows "mget (ports t) i = None \<and> e = cl i \<and> ClosedPort i \<in> set os \<and>
    (\<forall>mac. fdb_lookup t mac = (if fdb_lookup s mac = Some i then None else fdb_lookup s mac)) \<and>
    (\<forall>j wr fr u ws. mget (ports t) j \<noteq> None \<longrightarrow> processFrame en wr t j fr = Some (u, ws) \<longrightarrow>
       i \<notin> fst ` set (forwarded ws))"
proof -
  obtain p where p: "mget (ports s) i = Some p" using assms(3) by blast
  have t: "t = removed i s" "e = cl i" "ClosedPort i \<in> set os"
    using RemovePort_present [OF assms(1,2) p, of en cl] assms(4) by auto
  have wf: "mwf (fdb s)" using assms(1) by (simp add: switch_inv_def)
  have look: "fdb_lookup t mac = (if fdb_lookup s mac = Some i then None else fdb_lookup s mac)" for mac
    by (auto simp: t removed_def fdb_lookup_def mget_filter [OF wf] split: option.splits)
  have gone: "mget (ports t) i = None" by (simp add: t removed_def)
  have inv: "switch_inv t" using t switch_inv_removed [OF assms(1)] by simp
  have "i \<notin> fst ` set (forwarded ws)"
    if j: "mget (ports t) j \<noteq> None" and r: "processFrame en wr t j fr = Some (u, ws)" for j wr fr u ws
  proof (cases "length fr < ethernetHeaderLen")
    case True
    with forwarded_processFrame [OF inv j r] show ?thesis by simp
  next
    case False
    have "switch_inv (learned t (src_of fr) j)"
      using processFrame_inv [OF inv j r] processFrame_run [OF inv j, of fr en wr] r False by simp
    moreover have "mget (ports (learned t (src_of fr) j)) i = None"
      using gone by (simp add: learned_def)
    ultimately have "i \<notin> set (egress_ids (learned t (src_of fr) j) j (dst_of fr))"
      using egress_ids_attached(1) by blast
    with forwarded_processFrame [OF inv j r] False show ?thesis by auto
  qed
  with gone t look show ?thesis by blast
qed

theorem RemovePort_forgets_witness:
  "\<exists>t os. RemovePort True (\<lambda>_. None) ''b'' ex_switch = Some (None, t, os) \<and>
     mget (ports t) ''b'' = None \<and> ClosedPort ''b'' \<in> set os"
proof -
  have h: "''b'' \<noteq> ([] :: string)" "mget (ports ex_switch) ''b'' \<noteq> None"
    by (simp_all add: ex_switch_ports)
  obtain t os where r: "RemovePort True (\<lambda>_. None) ''b'' ex_switch = Some (None, t, os)"
    using RemovePort_present [OF ex_switch_inv h(1) ex_switch_ports(2)] by auto
  from RemovePort_forgets [OF ex_switch_inv h r] r show ?thesis by blast
qed

text \<open>
  Stopping a running switch cancels the context, closes every attached port exactly once,
  waits until no reader is left and keeps ports and forwarding database; stopping again does
  nothing, and starting again gives every attached port one reader on a fresh context.
\<close>

theorem Stop_drains_readers:
  assumes "switch_inv s" "started s" "Stop en s = Some (t, os)"
  shows "readers t = [] \<and> \<not> started t \<and> ports t = ports s \<and> fdb t = fdb s \<and>
    (\<exists>c es. ctx s = Some c \<and> os = CancelledCtx c # map ClosedPort (sort (order s)) @ es) \<and>
    set (order s) = dom (map_of (ports s)) \<and> distinct (order s) \<and>
    Stop en t = Some (t, []) \<and>
    (\<exists>u es. Start en t = Some (u, es) \<and> readers u = map (\<lambda>i. (i, nextCtx t)) (sort (order s)) \<and>
       nextCtx t \<notin> set (cancelled u))"
proof -
  obtain c where c: "ctx s = Some c" using ctx_of_started assms(1,2) by blast
  have t: "t = halted s c"
      "os = CancelledCtx c # map ClosedPort (sort (order s)) @ deliver s (event0 EventSwitchStop)"
    using Stop_running(1) [OF assms(1) c, of en] assms(3) by auto
  have inv: "switch_inv t" using Stop_running(2) [OF assms(1) c] t by simp
  have st: "\<not> started t" by (simp add: t halted_def)
  have "nextCtx t \<notin> set (cancelled t)"
    using inv by (auto simp: switch_inv_def run_ok_def)
  with Start_stopped(1) [OF inv st, of en] Stop_stopped [OF inv st, of en] t c assms(1)
  show ?thesis
    by (simp add: halted_def running_def switch_inv_def ports_ok_def)
qed

theorem Stop_drains_readers_witness:
  "started ex_switch \<and> (\<exists>t os. Stop True ex_switch = Some (t, os) \<and> readers t = [] \<and> \<not> started t)"
proof -
  have st: "started ex_switch" by (simp add: ex_switch_def running_def)
  obtain c where "ctx ex_switch = Some c" using ctx_of_started [OF ex_switch_inv st] by blast
  then obtain t os where r: "Stop True ex_switch = Some (t, os)"
    using Stop_running(1) [OF ex_switch_inv] by blast
  from Stop_drains_readers [OF ex_switch_inv st r] r st show ?thesis by blast
qed

text \<open>
  C4: removing a port from a running switch does not end its reader. The reader's context stays
  alive, and each pass over the closed port reports a dropped frame for a port that is no longer
  attached and goes on.
\<close>

theorem RemovePort_leaves_reader_running:
  assumes "switch_inv s" "i \<noteq> []" "mget (ports s) i \<noteq> None" "(i, c) \<in> set (readers s)" "ctx s = Some c"
    and "RemovePort en cl i s = Some (e, t, os)" "\<not> isReadTimeout err"
  shows "(i, c) \<in> set (readers t) \<and> c \<notin> set (cancelled t) \<and> mget (ports t) i = None \<and>
    reader_iter en' wr False (Inl err) False i t =
      Some (ReaderContinue, t, map (\<lambda>(k, h). Handled h (frame_event EventFrameDropped i [] [] (Some err)))
        (handlers t))"
proof -
  obtain p where p: "mget (ports s) i = Some p" using assms(3) by blast
  have t: "t = removed i s"
    using RemovePort_present [OF assms(1,2) p, of en cl] assms(6) by auto
  have "c \<notin> set (cancelled s)"
    using assms(1,5) by (auto simp: switch_inv_def run_ok_def)
  with t assms(2,4,7) show ?thesis
    by (simp add: removed_def reader_iter_def emit_ok deliver_def)
qed

theorem RemovePort_leaves_reader_running_witness:
  "\<exists>t os. RemovePort True (\<lambda>_. None) ''b'' ex_switch = Some (None, t, os) \<and>
     (''b'', 0) \<in> set (readers t) \<and> mget (ports t) ''b'' = None"
proof -
  have h: "''b'' \<noteq> ([] :: string)" "mget (ports ex_switch) ''b'' \<noteq> None"
    by (simp_all add: ex_switch_ports)
  have rd: "(''b'', 0) \<in> set (readers ex_switch)" "ctx ex_switch = Some 0"
    by (simp_all add: ex_switch_def running_def attached_def NewSwitch_def ex_port_def)
  have nt: "\<not> isReadTimeout (Sentinel (OS ErrNetClosed))"
    by (simp add: isReadTimeout_def)
  obtain t os where r: "RemovePort True (\<lambda>_. None) ''b'' ex_switch = Some (None, t, os)"
    using RemovePort_present [OF ex_switch_inv h(1) ex_switch_ports(2)] by auto
  from RemovePort_leaves_reader_running [OF ex_switch_inv h rd r nt] r show ?thesis by blast
qed

text \<open>
  C5: a frame that a reader hands over after its port was removed (the reader had read it
  before) breaks the switch: the debug build panics, and the release build enters the removed
  port into the forwarding database, so that \<open>assertValidLocked\<close> no longer holds.
\<close>

theorem late_frame_breaks_switch:
  assumes "switch_inv s" "i \<noteq> []" "mget (ports s) i \<noteq> None" "RemovePort False cl i s = Some (e, t, os)"
    and "14 \<le> length fr" "\<not> isBroadcastMAC (src_of fr)"
  shows "processFrame True wr t i fr = None \<and>
    (\<exists>u ws. processFrame False wr t i fr = Some (u, ws) \<and> \<not> valid u \<and>
       fdb_lookup u (src_of fr) = Some i \<and> mget (ports u) i = None)"
proof -
  obtain p where p: "mget (ports s) i = Some p" using assms(3) by blast
  have t: "t = removed i s"
    using RemovePort_present [OF assms(1,2) p, of False cl] assms(4) by auto
  have inv: "switch_inv t" using t switch_inv_removed [OF assms(1)] by simp
  have gone: "mget (ports t) i = None" by (simp add: t removed_def)
  have len: "ethernetHeaderLen \<le> length fr" using assms(5) by (simp add: ethernetHeaderLen_def)
  let ?u = "t\<lparr>fdb := mput (mac_String (src_of fr)) i (fdb t)\<rparr>"
  obtain ls where l: "learn False t (src_of fr) i = Some (?u, ls)"
    using late_learn [OF inv assms(2) gone addr_lengths(2) [OF len] assms(6)] by blast
  obtain ps where eg: "egressPorts False ?u i (dst_of fr) = Some ps"
    using egressPorts_release [OF inv assms(2), of ?u] by auto
  obtain ws where fw: "forwardAll False wr ?u i fr ps = Some ws"
    using forwardAll_release by blast
  have "\<exists>ws. processFrame False wr t i fr = Some (?u, ws)"
    using l eg fw len by (simp add: processFrame_def emit_release capture_release)
  moreover have "\<not> valid ?u"
  proof
    assume v: "valid ?u"
    have "mwf (fdb ?u)" using inv by (simp add: switch_inv_def)
    then have "(mac_String (src_of fr), i) \<in> set (fdb ?u)" by (simp add: mget_in_set)
    with valid_fdb_ports [OF v this] gone show False by simp
  qed
  moreover have "processFrame True wr t i fr = None"
    using gone assms(2) by (simp add: processFrame_def That_def)
  ultimately show ?thesis
    using gone by (auto simp: fdb_lookup_def)
qed

theorem late_frame_breaks_switch_witness:
  "\<exists>t os. RemovePort False (\<lambda>_. None) ''b'' ex_switch = Some (None, t, os) \<and>
     processFrame True (\<lambda>_ _. None) t ''b'' (ex_frame 1 2) = None"
proof -
  have h: "''b'' \<noteq> ([] :: string)" "mget (ports ex_switch) ''b'' \<noteq> None"
    by (simp_all add: ex_switch_ports)
  have f: "14 \<le> length (ex_frame 1 2)" "\<not> isBroadcastMAC (src_of (ex_frame 1 2))"
    by (simp_all add: ex_frame_def src_of_def isBroadcastMAC_def)
  obtain t os where r: "RemovePort False (\<lambda>_. None) ''b'' ex_switch = Some (None, t, os)"
    using RemovePort_present [OF ex_switch_inv h(1) ex_switch_ports(2)] by auto
  from late_frame_breaks_switch [OF ex_switch_inv h r f] r show ?thesis by blast
qed

text \<open>
  The byte swap for the packet-socket protocol number exchanges the two bytes and is its own
  inverse, for every 16-bit value.
\<close>

theorem htons_swaps_bytes:
  "htons (htons i) = i \<and> drop_bit 8 (htons i) = i AND 0xff \<and> htons i AND 0xff = drop_bit 8 i"
proof (intro conjI)
  show "htons (htons i) = i"
    by (rule bit_word_eqI) (auto simp: htons_bit)
  show "drop_bit 8 (htons i) = i AND 0xff"
    by (rule bit_word_eqI)
       (simp only: htons_bit bit_drop_bit_eq bit_and_iff bit_low_byte o_apply, auto)
  show "htons i AND 0xff = drop_bit 8 i"
    by (rule bit_word_eqI)
       (simp only: htons_bit bit_drop_bit_eq bit_and_iff bit_low_byte o_apply,
        auto simp: add.commute dest: bit_imp_le_length)
qed

end
