(* ===== verification/Bridge_Middleware.thy ===== *)
theory Bridge_Middleware
  imports Bridge_Switch
begin

text \<open>
  Port middleware and the transport registry (\<open>bridge/middleware.go\<close>, \<open>bridge/transport.go\<close>).
  A port is a transport (\<open>BasePort\<close>) under any number of wrappers. What the environment
  contributes is explicit: \<open>rnd n\<close> is the \<open>n\<close>-th answer of the random source, \<open>bw\<close> what the
  transport answers to a write, \<open>incoming\<close> what its reads return in order (a read past the end
  blocks), \<open>slept\<close> adds up the time spent in \<open>time.Sleep\<close>. As in the switch, \<open>en\<close> tells whether
  debug assertions are compiled in.
\<close>

section \<open>Ports and their environment\<close>

record wire =
  incoming :: "(gerror + frame) list"
  outgoing :: "frame list"
  slept :: int
  draws :: nat
  closes :: nat

text \<open>A hook is what a \<open>Latency\<close> closure does: sleep for some time, then return an error or none.\<close>

type_synonym hook = "int \<times> gerror option"

datatype mport =
    BasePort string int
  | middlewarePort mport "hook option" "hook option"
  | packetLossPort mport f64

type_synonym PortMiddleware = "mport \<Rightarrow> mport"

text \<open>
  \<open>ID\<close>, \<open>MTU\<close> and \<open>assertValid\<close> call each other down the chain of wrappers; with debug
  assertions any of them can panic.
\<close>

function (sequential)
  assertValid :: "bool \<Rightarrow> mport \<Rightarrow> unit option" and
  ID :: "bool \<Rightarrow> mport \<Rightarrow> string option" and
  MTU :: "bool \<Rightarrow> mport \<Rightarrow> int option"
where
  "assertValid en (BasePort i m) = Some ()"
| "assertValid en (middlewarePort b r w) =
     (if \<not> en then Some ()
      else do {
        i \<leftarrow> ID en b;
        That en (i \<noteq> []);
        m \<leftarrow> MTU en b;
        That en (m > 0)
      })"
| "assertValid en (packetLossPort b p) =
     (if \<not> en then Some ()
      else That en ((f64_less (Fin 0) p \<or> f64_eq p (Fin 0)) \<and> (f64_less p (Fin 1) \<or> f64_eq p (Fin 1))))"
| "ID en (BasePort i m) = Some i"
| "ID en (middlewarePort b r w) = do { assertValid en (middlewarePort b r w); ID en b }"
| "ID en (packetLossPort b p) = do { assertValid en (packetLossPort b p); ID en b }"
| "MTU en (BasePort i m) = Some m"
| "MTU en (middlewarePort b r w) = do { assertValid en (middlewarePort b r w); MTU en b }"
| "MTU en (packetLossPort b p) = do { assertValid en (packetLossPort b p); MTU en b }"
  by pat_completeness auto
termination
  by (relation "measure (case_sum (\<lambda>(_, p). 2 * size p)
        (case_sum (\<lambda>(_, p). 2 * size p + 1) (\<lambda>(_, p). 2 * size p + 1)))") auto

section \<open>Operations\<close>

definition runHook :: "hook option \<Rightarrow> wire \<Rightarrow> gerror option \<times> wire" where
  "runHook h w = (case h of None \<Rightarrow> (None, w) | Some (d, e) \<Rightarrow> (e, w\<lparr>slept := slept w + d\<rparr>))"

definition drop_frame :: "bool \<Rightarrow> (nat \<Rightarrow> f64) \<Rightarrow> f64 \<Rightarrow> wire \<Rightarrow> (bool \<times> wire) option" where
  "drop_frame en rnd probability w =
     (if f64_eq probability (Fin 1) then Some (True, w)
      else do {
        let v = rnd (draws w);
        That en ((f64_less (Fin 0) v \<or> f64_eq v (Fin 0)) \<and> f64_less v (Fin 1));
        Some (f64_less v probability, w\<lparr>draws := draws w + 1\<rparr>)
      })"

fun WriteFrame ::
  "bool \<Rightarrow> (nat \<Rightarrow> f64) \<Rightarrow> (frame \<Rightarrow> gerror option) \<Rightarrow> mport \<Rightarrow> frame \<Rightarrow> wire \<Rightarrow> (gerror option \<times> wire) option" where
  "WriteFrame en rnd bw (BasePort i m) fr w = Some (bw fr, w\<lparr>outgoing := outgoing w @ [fr]\<rparr>)"
| "WriteFrame en rnd bw (middlewarePort b rh wh) fr w = do {
     assertValid en (middlewarePort b rh wh);
     case runHook wh w of
       (Some e, w) \<Rightarrow> Some (Some e, w)
     | (None, w) \<Rightarrow> WriteFrame en rnd bw b fr w
   }"
| "WriteFrame en rnd bw (packetLossPort b p) fr w = do {
     assertValid en (packetLossPort b p);
     (d, w) \<leftarrow> drop_frame en rnd p w;
     if d then Some (None, w) else WriteFrame en rnd bw b fr w
   }"

datatype reading = ReadPanic | ReadBlocks | ReadDone "gerror + frame" wire

text \<open>
  The loop of \<open>packetLossPort.ReadFrame\<close> reads until a frame survives or a read fails. Every
  pass consumes a read of the transport, so as many passes as there are reads (and one more,
  which blocks) are enough: \<open>lossLoop_fuel\<close> below.
\<close>

fun lossLoop ::
  "nat \<Rightarrow> bool \<Rightarrow> (nat \<Rightarrow> f64) \<Rightarrow> f64 \<Rightarrow> (wire \<Rightarrow> reading) \<Rightarrow> wire \<Rightarrow> reading" where
  "lossLoop 0 en rnd p rd w = ReadBlocks"
| "lossLoop (Suc n) en rnd p rd w =
     (case rd w of
        ReadPanic \<Rightarrow> ReadPanic
      | ReadBlocks \<Rightarrow> ReadBlocks
      | ReadDone (Inl e) w \<Rightarrow> ReadDone (Inl e) w
      | ReadDone (Inr fr) w \<Rightarrow>
          (case drop_frame en rnd p w of
             None \<Rightarrow> ReadPanic
           | Some (d, w) \<Rightarrow> if d then lossLoop n en rnd p rd w else ReadDone (Inr fr) w))"

fun ReadFrame :: "bool \<Rightarrow> (nat \<Rightarrow> f64) \<Rightarrow> mport \<Rightarrow> wire \<Rightarrow> reading" where
  "ReadFrame en rnd (BasePort i m) w =
     (case incoming w of [] \<Rightarrow> ReadBlocks | r # rs \<Rightarrow> ReadDone r (w\<lparr>incoming := rs\<rparr>))"
| "ReadFrame en rnd (middlewarePort b rh wh) w =
     (if assertValid en (middlewarePort b rh wh) = None then ReadPanic
      else case runHook rh w of
        (Some e, w) \<Rightarrow> ReadDone (Inl e) w
      | (None, w) \<Rightarrow> ReadFrame en rnd b w)"
| "ReadFrame en rnd (packetLossPort b p) w =
     (if assertValid en (packetLossPort b p) = None then ReadPanic
      else lossLoop (Suc (length (incoming w))) en rnd p (ReadFrame en rnd b) w)"

fun Close :: "bool \<Rightarrow> gerror option \<Rightarrow> mport \<Rightarrow> wire \<Rightarrow> (gerror option \<times> wire) option" where
  "Close en bc (BasePort i m) w = Some (bc, w\<lparr>closes := closes w + 1\<rparr>)"
| "Close en bc (middlewarePort b rh wh) w = do {
     assertValid en (middlewarePort b rh wh);
     Close en bc b w
   }"
| "Close en bc (packetLossPort b p) w = do {
     assertValid en (packetLossPort b p);
     Close en bc b w
   }"

section \<open>Building wrapped ports\<close>

definition checkWrapped :: "bool \<Rightarrow> string \<Rightarrow> int \<Rightarrow> mport \<Rightarrow> unit option" where
  "checkWrapped en i m p =
     (if \<not> en then Some ()
      else do {
        i' \<leftarrow> ID en p;
        That en (i' = i);
        m' \<leftarrow> MTU en p;
        That en (m' = m)
      })"

text \<open>The loop of \<open>WrapPort\<close> runs from the last middleware to the first.\<close>

fun applyMiddleware :: "bool \<Rightarrow> string \<Rightarrow> int \<Rightarrow> PortMiddleware option list \<Rightarrow> mport \<Rightarrow> mport option" where
  "applyMiddleware en i m [] p = Some p"
| "applyMiddleware en i m (mw # mws) p = do {
     p \<leftarrow> applyMiddleware en i m mws p;
     case mw of
       None \<Rightarrow> Some p
     | Some f \<Rightarrow> do { checkWrapped en i m (f p); Some (f p) }
   }"

definition WrapPort :: "bool \<Rightarrow> mport \<Rightarrow> PortMiddleware option list \<Rightarrow> mport option" where
  "WrapPort en p mws = do {
     (i, m) \<leftarrow> (if en then do {
                  i \<leftarrow> ID en p;
                  m \<leftarrow> MTU en p;
                  That en (i \<noteq> []);
                  That en (m > 0);
                  Some (i, m)
                } else Some ([], 0));
     applyMiddleware en i m mws p
   }"

definition Latency :: "int \<Rightarrow> PortMiddleware" where
  "Latency delay =
     (if delay \<le> 0 then (\<lambda>p. p)
      else (\<lambda>p. middlewarePort p (Some (delay, None)) (Some (delay, None))))"

definition WithLatency :: "bool \<Rightarrow> mport \<Rightarrow> int \<Rightarrow> mport option" where
  "WithLatency en p delay = WrapPort en p [Some (Latency delay)]"

definition NewPacketLossMiddleware :: "f64 \<Rightarrow> gerror + PortMiddleware" where
  "NewPacketLossMiddleware probability =
     (if f64_less probability (Fin 0) \<or> f64_less (Fin 1) probability then
        Inl (bridge_New ''packet loss'' bridge_kind.ErrInvalidOptions
               ''probability must be between 0 and 1'')
      else Inr (\<lambda>p. if f64_eq probability (Fin 0) then p else packetLossPort p probability))"

definition WithPacketLoss :: "bool \<Rightarrow> mport \<Rightarrow> f64 \<Rightarrow> (gerror + mport) option" where
  "WithPacketLoss en p probability =
     (case NewPacketLossMiddleware probability of
        Inl e \<Rightarrow> Some (Inl e)
      | Inr mw \<Rightarrow> map_option Inr (WrapPort en p [Some mw]))"

section \<open>The transport registry\<close>

type_synonym 'f PortRegistry = "(string, 'f) gomap"

definition RegisterPortFactory :: "string \<Rightarrow> 'f \<Rightarrow> 'f PortRegistry \<Rightarrow> 'f PortRegistry" where
  "RegisterPortFactory name f r = mput name f r"

definition Registry_Get :: "'f PortRegistry \<Rightarrow> string \<Rightarrow> 'f option" where
  "Registry_Get r name = mget r name"

definition init_registry :: "(string \<Rightarrow> 'f) \<Rightarrow> 'f PortRegistry" where
  "init_registry builtin =
     RegisterPortFactory ''udp'' (builtin ''udp'')
       (RegisterPortFactory ''tap'' (builtin ''tap'')
         (RegisterPortFactory ''pcap'' (builtin ''pcap'')
           (RegisterPortFactory ''raw'' (builtin ''raw'') [])))"

definition NewPort :: "('o \<Rightarrow> gerror + 'p) PortRegistry \<Rightarrow> string \<Rightarrow> 'o \<Rightarrow> gerror + 'p" where
  "NewPort r scheme options =
     (case Registry_Get r scheme of
        None \<Rightarrow> Inl (bridge_New ''create port'' ErrUnknownScheme scheme)
      | Some factory \<Rightarrow> factory options)"

section \<open>Wrapping keeps identity\<close>

primrec base_id :: "mport \<Rightarrow> string" where
  "base_id (BasePort i m) = i"
| "base_id (middlewarePort b r w) = base_id b"
| "base_id (packetLossPort b p) = base_id b"

primrec base_mtu :: "mport \<Rightarrow> int" where
  "base_mtu (BasePort i m) = m"
| "base_mtu (middlewarePort b r w) = base_mtu b"
| "base_mtu (packetLossPort b p) = base_mtu b"

definition probability_ok :: "f64 \<Rightarrow> bool" where
  "probability_ok p \<longleftrightarrow> (\<exists>q. p = Fin q \<and> 0 \<le> q \<and> q \<le> 1)"

primrec port_ok :: "mport \<Rightarrow> bool" where
  "port_ok (BasePort i m) \<longleftrightarrow> i \<noteq> [] \<and> 0 < m"
| "port_ok (middlewarePort b r w) \<longleftrightarrow> port_ok b"
| "port_ok (packetLossPort b p) \<longleftrightarrow> probability_ok p \<and> port_ok b"

lemma probability_ok_iff:
  "probability_ok p \<longleftrightarrow>
     (f64_less (Fin 0) p \<or> f64_eq p (Fin 0)) \<and> (f64_less p (Fin 1) \<or> f64_eq p (Fin 1))"
  by (cases p) (auto simp: probability_ok_def)

lemma port_ok_base: "port_ok p \<Longrightarrow> base_id p \<noteq> [] \<and> 0 < base_mtu p"
  by (induction p) auto

lemma port_ok_reads [simp]:
  "port_ok p \<Longrightarrow> assertValid en p = Some () \<and> ID en p = Some (base_id p) \<and> MTU en p = Some (base_mtu p)"
  by (induction p) (auto simp: probability_ok_iff [symmetric] dest: port_ok_base)

lemma release_reads [simp]:
  "assertValid False p = Some ()" "ID False p = Some (base_id p)" "MTU False p = Some (base_mtu p)"
  by (induction p) auto

text \<open>
  What \<open>WrapPort\<close> asserts of a middleware, as a contract: it keeps the identifier, the MTU and
  the assertions of the port.
\<close>

locale port_middleware =
  fixes mw :: PortMiddleware
  assumes id_mw: "base_id (mw p) = base_id p"
    and mtu_mw: "base_mtu (mw p) = base_mtu p"
    and ok_mw: "port_ok p \<Longrightarrow> port_ok (mw p)"
begin

lemma check_mw: "port_ok p \<Longrightarrow> checkWrapped en (base_id p) (base_mtu p) (mw p) = Some ()"
  by (simp add: checkWrapped_def ok_mw id_mw mtu_mw)

lemma WrapPort_single: "port_ok p \<Longrightarrow> WrapPort en p [Some mw] = Some (mw p)"
  using port_ok_base [of p]
  by (cases en) (simp_all add: WrapPort_def checkWrapped_def ok_mw id_mw mtu_mw)

end

interpretation latency: port_middleware "Latency d" for d
  by unfold_locales (simp_all add: Latency_def)

text \<open>The loss middleware keeps the contract for every probability in \<open>[0, 1]\<close>.\<close>

interpretation loss: port_middleware
  "\<lambda>p. if f64_eq (Fin (max 0 (min 1 q))) (Fin 0) then p else packetLossPort p (Fin (max 0 (min 1 q)))"
  for q
  by unfold_locales (auto simp: probability_ok_def)

lemma loss_middleware:
  assumes "probability_ok p" "NewPacketLossMiddleware p = Inr mw"
  shows "port_middleware mw"
proof -
  from assms(1) obtain q where q: "p = Fin q" "max 0 (min 1 q) = q"
    by (auto simp: probability_ok_def max_def min_def)
  from assms(2) have "mw = (\<lambda>p. if f64_eq (Fin q) (Fin 0) then p else packetLossPort p (Fin q))"
    by (auto simp: q NewPacketLossMiddleware_def split: if_splits)
  with loss.port_middleware_axioms [of q] show ?thesis
    unfolding q(2) by simp
qed

definition outermost_first :: "PortMiddleware option list \<Rightarrow> mport \<Rightarrow> mport" where
  "outermost_first mws p = foldr (\<lambda>mw q. case mw of None \<Rightarrow> q | Some f \<Rightarrow> f q) mws p"

lemma applyMiddleware_keeps:
  assumes "\<forall>f. Some f \<in> set mws \<longrightarrow> port_middleware f" "port_ok p"
  shows "applyMiddleware en (base_id p) (base_mtu p) mws p = Some (outermost_first mws p) \<and>
    base_id (outermost_first mws p) = base_id p \<and> base_mtu (outermost_first mws p) = base_mtu p \<and>
    port_ok (outermost_first mws p)"
  using assms(1)
proof (induction mws)
  case Nil
  with assms(2) show ?case by (simp add: outermost_first_def)
next
  case (Cons mw mws)
  note rest = Cons.IH [OF allI] Cons.prems
  show ?case
  proof (cases mw)
    case None
    with rest show ?thesis by (simp add: outermost_first_def)
  next
    case (Some f)
    with Cons.prems have f: "port_middleware f" by simp
    from rest have ok: "port_ok (outermost_first mws p)" by simp
    from port_middleware.check_mw [OF f ok, of en] Some rest show ?thesis
      using port_middleware.id_mw [OF f] port_middleware.mtu_mw [OF f] port_middleware.ok_mw [OF f ok]
      by (simp add: outermost_first_def)
  qed
qed

lemma applyMiddleware_release:
  "applyMiddleware False i m mws p = Some (outermost_first mws p)"
  by (induction mws) (auto simp: outermost_first_def checkWrapped_def split: option.splits)

section \<open>The read loop ends\<close>

definition reads_consume :: "(wire \<Rightarrow> reading) \<Rightarrow> bool" where
  "reads_consume rd \<longleftrightarrow>
     (\<forall>w fr w'. rd w = ReadDone (Inr fr) w' \<longrightarrow> length (incoming w') < length (incoming w))"

lemma drop_frame_incoming: "drop_frame en rnd p w = Some (d, w') \<Longrightarrow> incoming w' = incoming w"
  by (auto simp: drop_frame_def Let_def That_def bind_eq_Some_conv split: if_splits)

lemma lossLoop_fuel:
  assumes "reads_consume rd" "length (incoming w) < n" "length (incoming w) < m"
  shows "lossLoop n en rnd p rd w = lossLoop m en rnd p rd w"
  using assms(2,3)
proof (induction n arbitrary: m w)
  case 0
  then show ?case by simp
next
  case (Suc n)
  then obtain k where m: "m = Suc k" by (cases m) auto
  show ?case
  proof (cases "\<exists>fr w'. rd w = ReadDone (Inr fr) w'")
    case False
    then show ?thesis
      unfolding m by (auto split: reading.split sum.split)
  next
    case True
    then obtain fr w' where r: "rd w = ReadDone (Inr fr) w'" by blast
    then have "length (incoming w') < length (incoming w)"
      using assms(1) by (auto simp: reads_consume_def)
    then have "length (incoming w') < n" "length (incoming w') < k"
      using Suc.prems m by auto
    then have "lossLoop n en rnd p rd w2 = lossLoop k en rnd p rd w2"
      if "drop_frame en rnd p w' = Some (d, w2)" for d w2
      using Suc.IH [of w2 k] drop_frame_incoming [OF that] by simp
    then show ?thesis
      unfolding m using r by (simp split: option.split)
  qed
qed

lemma lossLoop_consumes:
  assumes "reads_consume rd" "lossLoop n en rnd p rd w = ReadDone (Inr fr) w'"
  shows "length (incoming w') < length (incoming w)"
  using assms(2)
proof (induction n arbitrary: w)
  case 0
  then show ?case by simp
next
  case (Suc n)
  then obtain gr w1 where r: "rd w = ReadDone (Inr gr) w1"
    by (auto split: reading.splits sum.splits)
  with assms(1) have less: "length (incoming w1) < length (incoming w)"
    by (auto simp: reads_consume_def)
  from Suc.prems r obtain d w2 where d: "drop_frame en rnd p w1 = Some (d, w2)"
    by (auto split: option.splits)
  show ?case
  proof (cases d)
    case True
    with Suc.prems r d have "lossLoop n en rnd p rd w2 = ReadDone (Inr fr) w'" by simp
    from Suc.IH [OF this] less drop_frame_incoming [OF d] show ?thesis by simp
  next
    case False
    with Suc.prems r d less drop_frame_incoming [OF d] show ?thesis by simp
  qed
qed

lemma ReadFrame_consumes: "reads_consume (ReadFrame en rnd p)"
proof (induction p)
  case (BasePort i m)
  show ?case by (auto simp: reads_consume_def split: list.splits)
next
  case (middlewarePort b rh wh)
  then show ?case
    by (auto simp: reads_consume_def runHook_def split: option.splits if_splits) fastforce+
next
  case (packetLossPort b p)
  note consumes = lossLoop_consumes [OF packetLossPort.IH]
  show ?case
    unfolding reads_consume_def
    by (auto simp del: lossLoop.simps assertValid.simps split: if_splits dest: consumes)
qed

lemma ReadFrame_loss_fuel:
  assumes "length (incoming w) < n" "assertValid en (packetLossPort b p) \<noteq> None"
  shows "ReadFrame en rnd (packetLossPort b p) w = lossLoop n en rnd p (ReadFrame en rnd b) w"
  using assms lossLoop_fuel [OF ReadFrame_consumes, of w "Suc (length (incoming w))" n]
  by (simp del: lossLoop.simps assertValid.simps)

section \<open>The draws\<close>

text \<open>What the random source of the standard library promises: values in \<open>[0, 1)\<close>.\<close>

definition uniform_source :: "(nat \<Rightarrow> f64) \<Rightarrow> bool" where
  "uniform_source rnd \<longleftrightarrow> (\<forall>n. case rnd n of Fin q \<Rightarrow> 0 \<le> q \<and> q < 1 | _ \<Rightarrow> False)"

lemma drop_frame_draw:
  assumes "uniform_source rnd" "\<not> f64_eq p (Fin 1)"
  shows "drop_frame en rnd p w = Some (f64_less (rnd (draws w)) p, w\<lparr>draws := draws w + 1\<rparr>)"
proof -
  from assms(1) have "case rnd (draws w) of Fin q \<Rightarrow> 0 \<le> q \<and> q < 1 | _ \<Rightarrow> False"
    unfolding uniform_source_def ..
  then obtain q where "rnd (draws w) = Fin q" "0 \<le> q" "q < 1"
    by (auto split: f64.splits)
  with assms(2) show ?thesis
    by (auto simp: drop_frame_def Let_def That_def)
qed

lemma drop_frame_certain: "f64_eq p (Fin 1) \<Longrightarrow> drop_frame en rnd p w = Some (True, w)"
  by (simp add: drop_frame_def)

section \<open>Properties\<close>

fun writeAll ::
  "bool \<Rightarrow> (nat \<Rightarrow> f64) \<Rightarrow> (frame \<Rightarrow> gerror option) \<Rightarrow> mport \<Rightarrow> frame list \<Rightarrow> wire \<Rightarrow> wire option" where
  "writeAll en rnd bw p [] w = Some w"
| "writeAll en rnd bw p (fr # frs) w = do {
     (_, w) \<leftarrow> WriteFrame en rnd bw p fr w;
     writeAll en rnd bw p frs w
   }"

fun kept :: "(nat \<Rightarrow> f64) \<Rightarrow> f64 \<Rightarrow> nat \<Rightarrow> frame list \<Rightarrow> frame list" where
  "kept rnd p n [] = []"
| "kept rnd p n (fr # frs) =
     (if f64_less (rnd n) p then kept rnd p (n + 1) frs else fr # kept rnd p (n + 1) frs)"

lemma writeAll_kept:
  assumes "uniform_source rnd" "probability_ok p" "\<not> f64_eq p (Fin 1)"
  shows "writeAll en rnd bw (packetLossPort (BasePort i m) p) frs w =
    Some (w\<lparr>outgoing := outgoing w @ kept rnd p (draws w) frs, draws := draws w + length frs\<rparr>)"
proof -
  from assms(2) have ok: "assertValid en (packetLossPort (BasePort i m) p) = Some ()"
    by (simp add: probability_ok_iff [symmetric])
  show ?thesis
    by (induction frs arbitrary: w)
       (simp_all del: assertValid.simps add: ok drop_frame_draw [OF assms(1,3)])
qed

lemma writeAll_certain:
  "writeAll en rnd bw (packetLossPort b (Fin 1)) frs w = Some w"
  by (induction frs arbitrary: w) (simp_all add: drop_frame_certain That_def)

lemma lossLoop_skips:
  assumes "uniform_source rnd" "\<not> f64_eq p (Fin 1)" "incoming w = map Inr lost @ r # rest"
    and "\<And>k. k < length lost \<Longrightarrow> f64_less (rnd (draws w + k)) p"
    and "\<not> isl r \<Longrightarrow> \<not> f64_less (rnd (draws w + length lost)) p"
    and "length (incoming w) < n"
  shows "lossLoop n en rnd p (ReadFrame en rnd (BasePort i m)) w =
    ReadDone r (w\<lparr>incoming := rest,
                  draws := draws w + length lost + (if isl r then 0 else 1)\<rparr>)"
  using assms(3-6)
proof (induction lost arbitrary: w n)
  case Nil
  then obtain k where "n = Suc k" by (cases n) auto
  with Nil show ?case
    by (cases r) (auto simp: drop_frame_draw [OF assms(1,2)])
next
  case (Cons fr' lost)
  then obtain k where n: "n = Suc k" by (cases n) auto
  let ?w = "w\<lparr>incoming := map Inr lost @ r # rest, draws := draws w + 1\<rparr>"
  have less: "f64_less (rnd (draws w)) p" using Cons.prems(2) [of 0] by simp
  have "f64_less (rnd (draws ?w + j)) p" if "j < length lost" for j
    using Cons.prems(2) [of "Suc j"] that by simp
  then have "lossLoop k en rnd p (ReadFrame en rnd (BasePort i m)) ?w =
      ReadDone r (?w\<lparr>incoming := rest, draws := draws ?w + length lost + (if isl r then 0 else 1)\<rparr>)"
    using Cons.prems n by (intro Cons.IH) auto
  moreover have "lossLoop (Suc k) en rnd p rd w = lossLoop k en rnd p rd ?w"
    if "rd w = ReadDone (Inr fr') (w\<lparr>incoming := map Inr lost @ r # rest\<rparr>)" for rd
    using that less by (simp add: drop_frame_draw [OF assms(1,2)])
  then have "lossLoop n en rnd p (ReadFrame en rnd (BasePort i m)) w =
      lossLoop k en rnd p (ReadFrame en rnd (BasePort i m)) ?w"
    using Cons.prems(1) n by simp
  ultimately show ?case by (simp del: ReadFrame.simps)
qed

section \<open>Properties\<close>

text \<open>Applying middlewares that keep the identifier, the MTU and the assertions of a port
  never panics, debug or release; the wrappers are nested in declaration order with the first one
  outermost (nil middlewares are skipped), and the wrapped port answers with the identifier and
  MTU of the transport.\<close>

theorem WrapPort_nests_in_order:
  assumes "port_ok p" and "\<And>f. Some f \<in> set mws \<Longrightarrow> port_middleware f"
  shows "\<exists>q. WrapPort en p mws = Some q
    \<and> q = foldr (\<lambda>mw q. case mw of None \<Rightarrow> q | Some f \<Rightarrow> f q) mws p
    \<and> assertValid en q = Some () \<and> ID en q = ID en p \<and> MTU en q = MTU en p"
proof -
  from applyMiddleware_keeps [OF allI assms(1)] assms(2)
  have keep: "applyMiddleware en (base_id p) (base_mtu p) mws p = Some (outermost_first mws p)"
    "base_id (outermost_first mws p) = base_id p" "base_mtu (outermost_first mws p) = base_mtu p"
    "port_ok (outermost_first mws p)" for en
    by auto
  have "WrapPort en p mws = Some (outermost_first mws p)"
    using keep(1) port_ok_base [OF assms(1)] assms(1)
    by (cases en) (auto simp: WrapPort_def applyMiddleware_release)
  with keep(2-4) assms(1) show ?thesis
    by (simp add: outermost_first_def)
qed

theorem WrapPort_nests_in_order_witness:
  "\<exists>q. WrapPort True (BasePort ''eth0'' 1500) [Some (Latency 5), None, Some (Latency 7)] = Some q
    \<and> ID True q = Some ''eth0''
    \<and> q = middlewarePort (middlewarePort (BasePort ''eth0'' 1500) (Some (7, None)) (Some (7, None)))
            (Some (5, None)) (Some (5, None))"
proof -
  have "port_middleware f" if "Some f \<in> set [Some (Latency 5), None, Some (Latency 7)]" for f
    using that latency.port_middleware_axioms by auto
  from WrapPort_nests_in_order [of "BasePort ''eth0'' 1500" "[Some (Latency 5), None, Some (Latency 7)]" True, OF _ this]
  show ?thesis by (simp add: Latency_def)
qed

text \<open>A latency wrapper delays every read and every write by its delay and changes nothing
  else: the same frame reaches the transport, the same result comes back.\<close>

theorem Latency_only_delays:
  assumes "port_ok p" and "0 < delay"
  shows "\<exists>q. WithLatency en p delay = Some q
    \<and> (\<forall>fr w. WriteFrame en rnd bw q fr w = WriteFrame en rnd bw p fr (w\<lparr>slept := slept w + delay\<rparr>))
    \<and> (\<forall>w. ReadFrame en rnd q w = ReadFrame en rnd p (w\<lparr>slept := slept w + delay\<rparr>))
    \<and> (\<forall>w. Close en bc q w = Close en bc p w)"
proof -
  let ?q = "middlewarePort p (Some (delay, None)) (Some (delay, None))"
  have "WithLatency en p delay = Some ?q"
    using assms latency.WrapPort_single [of p en delay] by (simp add: WithLatency_def Latency_def)
  moreover have "assertValid en ?q = Some ()"
    using assms(1) port_ok_reads [of ?q en] by simp
  ultimately show ?thesis
    by (simp del: assertValid.simps add: runHook_def)
qed

theorem Latency_only_delays_witness:
  "\<exists>q. WithLatency True (BasePort ''eth0'' 1500) 20 = Some q
    \<and> WriteFrame True (\<lambda>_. Fin 0) (\<lambda>_. None) q [1, 2]
         \<lparr>incoming = [], outgoing = [], slept = 0, draws = 0, closes = 0\<rparr>
      = Some (None, \<lparr>incoming = [], outgoing = [[1, 2]], slept = 20, draws = 0, closes = 0\<rparr>)"
  using Latency_only_delays
    [of "BasePort ''eth0'' 1500" 20 True "\<lambda>_. Fin 0" "\<lambda>_. None" None]
  by auto

text \<open>Writing a sequence of frames through a lossy port always succeeds and puts on the
  transport exactly the frames whose draw is not below the loss probability, unmodified and in
  order; with probability 1 nothing reaches the transport and nothing is drawn, with
  probability 0 the middleware is the identity.\<close>

theorem loss_writes_survivors:
  assumes "uniform_source rnd" and "0 \<le> q" and "q < 1" and "i \<noteq> []" and "0 < m"
  shows "\<exists>port. WithPacketLoss en (BasePort i m) (Fin q) = Some (Inr port)
    \<and> writeAll en rnd (\<lambda>_. None) port frs w =
        Some (if q = 0 then w\<lparr>outgoing := outgoing w @ frs\<rparr>
              else w\<lparr>outgoing := outgoing w @ kept rnd (Fin q) (draws w) frs,
                     draws := draws w + length frs\<rparr>)
    \<and> (\<exists>sink. WithPacketLoss en (BasePort i m) (Fin 1) = Some (Inr sink)
          \<and> writeAll en rnd (\<lambda>_. None) sink frs w = Some w)"
proof -
  let ?mw = "\<lambda>p b. if f64_eq p (Fin 0) then b else packetLossPort b p"
  have wrap: "WithPacketLoss en (BasePort i m) (Fin x) = Some (Inr (?mw (Fin x) (BasePort i m)))"
    if "0 \<le> x" "x \<le> 1" for x
  proof -
    have new: "NewPacketLossMiddleware (Fin x) = Inr (?mw (Fin x))"
      using that by (auto simp: NewPacketLossMiddleware_def)
    have "port_middleware (?mw (Fin x))"
      using that by (intro loss_middleware [OF _ new]) (auto simp: probability_ok_def)
    from port_middleware.WrapPort_single [OF this, of "BasePort i m" en] assms(4,5)
    show ?thesis by (simp add: WithPacketLoss_def new)
  qed
  have plain: "writeAll en rnd (\<lambda>_. None) (BasePort i m) frs w =
      Some (w\<lparr>outgoing := outgoing w @ frs\<rparr>)"
    by (induction frs arbitrary: w) simp_all
  have lossy: "writeAll en rnd (\<lambda>_. None) (packetLossPort (BasePort i m) (Fin q)) frs w =
      Some (w\<lparr>outgoing := outgoing w @ kept rnd (Fin q) (draws w) frs, draws := draws w + length frs\<rparr>)"
    using assms by (intro writeAll_kept) (auto simp: probability_ok_def)
  show ?thesis
    using wrap [of q] wrap [of 1] assms(2,3) plain lossy writeAll_certain by simp
qed

definition draws_demo :: "nat \<Rightarrow> f64" where
  "draws_demo n = (if n mod 2 = 0 then Fin (1/4) else Fin (3/4))"

theorem loss_writes_survivors_witness:
  "\<exists>port. WithPacketLoss True (BasePort ''eth0'' 1500) (Fin (1/2)) = Some (Inr port)
    \<and> writeAll True draws_demo (\<lambda>_. None) port [[1], [2], [3], [4]]
         \<lparr>incoming = [], outgoing = [], slept = 0, draws = 0, closes = 0\<rparr>
      = Some \<lparr>incoming = [], outgoing = [[2], [4]], slept = 0, draws = 4, closes = 0\<rparr>"
proof -
  have kept: "kept draws_demo (Fin (1/2)) 0 [[1], [2], [3], [4]] = [[2], [4]]"
    by (simp add: draws_demo_def)
  have "uniform_source draws_demo"
    by (auto simp: uniform_source_def draws_demo_def)
  from loss_writes_survivors
    [OF this, of "1/2" "''eth0''" 1500 True "[[1], [2], [3], [4]]"
      "\<lparr>incoming = [], outgoing = [], slept = 0, draws = 0, closes = 0\<rparr>"]
  show ?thesis
    by (auto simp del: writeAll.simps kept.simps simp: kept eval_nat_numeral)
qed

text \<open>A read of a lossy port returns the first frame that survives its draw, or the first
  error, whichever the transport delivers first: the frames before it are lost, the reads after
  it stay in the transport, an error costs no draw.\<close>

theorem loss_read_returns_survivor:
  assumes "uniform_source rnd" and "0 < q" and "q < 1"
    and "incoming w = map Inr lost @ r # rest"
    and "\<And>k. k < length lost \<Longrightarrow> f64_less (rnd (draws w + k)) (Fin q)"
    and "\<not> isl r \<Longrightarrow> \<not> f64_less (rnd (draws w + length lost)) (Fin q)"
  shows "ReadFrame en rnd (packetLossPort (BasePort i m) (Fin q)) w =
    ReadDone r (w\<lparr>incoming := rest, draws := draws w + length lost + (if isl r then 0 else 1)\<rparr>)"
proof -
  have valid: "assertValid en (packetLossPort (BasePort i m) (Fin q)) \<noteq> None"
    using assms(2,3) by (simp add: That_def)
  show ?thesis
    unfolding ReadFrame_loss_fuel [OF lessI valid]
    using assms(2-6) by (intro lossLoop_skips [OF assms(1)]) auto
qed

theorem loss_read_returns_survivor_witness:
  "ReadFrame True draws_demo (packetLossPort (BasePort ''eth0'' 1500) (Fin (1/2)))
     \<lparr>incoming = [Inr [1], Inr [2], Inr [3]], outgoing = [], slept = 0, draws = 0, closes = 0\<rparr>
   = ReadDone (Inr [2]) \<lparr>incoming = [Inr [3]], outgoing = [], slept = 0, draws = 2, closes = 0\<rparr>"
  using loss_read_returns_survivor
    [of draws_demo "1/2" "\<lparr>incoming = [Inr [1], Inr [2], Inr [3]], outgoing = [], slept = 0, draws = 0, closes = 0\<rparr>"
      "[[1]]" "Inr [2]" "[Inr [3]]" True "''eth0''" 1500]
  by (simp add: uniform_source_def draws_demo_def)

text \<open>A probability outside \<open>[0, 1]\<close> is rejected with \<open>ErrInvalidOptions\<close>, except NaN,
  which no comparison excludes: the middleware is built, the release build then never drops a
  frame, and with debug assertions wrapping a port with it panics.\<close>

theorem loss_probability_check:
  "((\<exists>e. NewPacketLossMiddleware p = Inl e \<and> errors_Is e (BridgeKind bridge_kind.ErrInvalidOptions))
      \<longleftrightarrow> p \<noteq> NaN \<and> \<not> probability_ok p) \<and>
   WithPacketLoss False (BasePort i m) NaN = Some (Inr (packetLossPort (BasePort i m) NaN)) \<and>
   WriteFrame False rnd bw (packetLossPort (BasePort i m) NaN) fr w =
      Some (bw fr, w\<lparr>outgoing := outgoing w @ [fr], draws := draws w + 1\<rparr>) \<and>
   WithPacketLoss True (BasePort i m) NaN = None"
proof (intro conjI)
  show "(\<exists>e. NewPacketLossMiddleware p = Inl e \<and> errors_Is e (BridgeKind bridge_kind.ErrInvalidOptions))
      \<longleftrightarrow> p \<noteq> NaN \<and> \<not> probability_ok p"
    by (cases p) (auto simp: NewPacketLossMiddleware_def probability_ok_def)
  have "f64_less v NaN = False" for v by (cases v) auto
  then show "WriteFrame False rnd bw (packetLossPort (BasePort i m) NaN) fr w =
      Some (bw fr, w\<lparr>outgoing := outgoing w @ [fr], draws := draws w + 1\<rparr>)"
    by (simp add: drop_frame_def Let_def)
  show "WithPacketLoss False (BasePort i m) NaN = Some (Inr (packetLossPort (BasePort i m) NaN))"
    "WithPacketLoss True (BasePort i m) NaN = None"
    by (auto simp: WithPacketLoss_def NewPacketLossMiddleware_def WrapPort_def checkWrapped_def That_def)
qed

end
