(* ===== verification/Storage_Types.thy ===== *)
theory Storage_Types
  imports Errors
begin

text \<open>
  The data of the storage contract (\<open>storage/ref.go\<close>, \<open>manager.go\<close>, \<open>provider.go\<close>,
  \<open>metadata.go\<close>, \<open>sync.go\<close>, \<open>events.go\<close>, \<open>operation.go\<close>). The code declares its
  enumerations as string types and compares with the declared constants, so any string can
  arrive where a caller supplies the value: these stay strings here, with the constants named.
  Enumerations that only the code itself assigns (operation states, event types, object types)
  are datatypes. Time stamps are integers (nanoseconds).
\<close>

section \<open>References\<close>

type_synonym ProviderName = string
type_synonym Key = string

record Ref =
  ref_Provider :: ProviderName
  ref_Key :: Key

definition Ref_Validate :: "Ref \<Rightarrow> gerror option" where
  "Ref_Validate r =
     (if ref_Provider r = '''' then Some (storage_New ''storage'' ErrInvalidRef ''provider is empty'')
      else if ref_Key r = '''' then Some (storage_New ''storage'' ErrInvalidRef ''key is empty'')
      else None)"

definition Ref_String :: "Ref \<Rightarrow> string" where
  "Ref_String r = ref_Provider r @ '':'' @ ref_Key r"

section \<open>Runtime preparation\<close>

type_synonym AccessMode = string
type_synonym PrepareMode = string
type_synonym Ownership = string
type_synonym ResourceType = string
type_synonym PreparedID = string
type_synonym LocationKind = string

abbreviation AccessReadOnly :: AccessMode where "AccessReadOnly \<equiv> ''read-only''"
abbreviation AccessReadWrite :: AccessMode where "AccessReadWrite \<equiv> ''read-write''"
abbreviation PrepareDirect :: PrepareMode where "PrepareDirect \<equiv> ''direct''"
abbreviation PrepareCopy :: PrepareMode where "PrepareCopy \<equiv> ''copy''"
abbreviation PrepareOverlay :: PrepareMode where "PrepareOverlay \<equiv> ''overlay''"
abbreviation OwnershipExternal :: Ownership where "OwnershipExternal \<equiv> ''external''"
abbreviation ResourceTypeFile :: ResourceType where "ResourceTypeFile \<equiv> ''file''"
abbreviation ResourceTypeDirectory :: ResourceType where "ResourceTypeDirectory \<equiv> ''directory''"
abbreviation LocationPath :: LocationKind where "LocationPath \<equiv> ''path''"
abbreviation LocationURI :: LocationKind where "LocationURI \<equiv> ''uri''"

type_synonym Generation = string

record RuntimeLocation =
  loc_Kind :: LocationKind
  loc_Value :: string

record PrepareRequest =
  req_Ref :: Ref
  req_NodeID :: string
  req_AccessMode :: AccessMode
  req_Mode :: PrepareMode
  req_ResourceType :: ResourceType
  req_Create :: bool

record Prepared =
  pr_ID :: PreparedID
  pr_Ref :: Ref
  pr_BaseGeneration :: Generation
  pr_NodeID :: string
  pr_AccessMode :: AccessMode
  pr_Mode :: PrepareMode
  pr_ResourceType :: ResourceType
  pr_Ownership :: Ownership
  pr_Location :: RuntimeLocation

section \<open>Objects and options of a provider\<close>

datatype ObjectType = ObjectUnknown | ObjectFile | ObjectDir

type_synonym ArtifactKind = string
abbreviation ArtifactGeneric :: ArtifactKind where "ArtifactGeneric \<equiv> ''generic''"

type_synonym Metadata = "(string, string) gomap"

record ObjectInfo =
  oi_Ref :: Ref
  oi_Type :: ObjectType
  oi_Size :: nat
  oi_ModTime :: int
  oi_Generation :: Generation
  oi_ContentType :: string
  oi_Metadata :: Metadata
  oi_Kind :: ArtifactKind

record PutOptions =
  put_Mode :: nat
  put_ContentType :: string
  put_Metadata :: Metadata
  put_Kind :: ArtifactKind
  put_ExpectedGeneration :: Generation
  put_IfNotExists :: bool

record ListOptions = list_Recursive :: bool
record CopyOptions = copy_Overwrite :: bool
record MoveOptions = move_Overwrite :: bool

record Capabilities =
  AtomicReplace :: bool
  AtomicMove :: bool
  ConditionalWrite :: bool

record ProviderInfo =
  pi_Name :: ProviderName
  pi_Capabilities :: Capabilities

section \<open>Committing\<close>

type_synonym DurabilityPolicy = string
abbreviation DurabilityDefault :: DurabilityPolicy where "DurabilityDefault \<equiv> ''default''"
abbreviation DurabilityNone :: DurabilityPolicy where "DurabilityNone \<equiv> ''none''"
abbreviation DurabilityData :: DurabilityPolicy where "DurabilityData \<equiv> ''data''"
abbreviation DurabilityFull :: DurabilityPolicy where "DurabilityFull \<equiv> ''full''"

record CommitOptions =
  com_Durability :: DurabilityPolicy
  com_ExpectedGeneration :: Generation

record CommitResult = com_Object :: ObjectInfo

section \<open>Operations and events\<close>

datatype OperationType =
  OperationPrepare | OperationCommit | OperationRelease | OperationCopy | OperationMove | OperationDelete

datatype OperationState =
  OperationPending | OperationRunning | OperationCompleted | OperationFailed | OperationCanceled

record Operation =
  st_ID :: string
  st_Type :: OperationType
  st_State :: OperationState
  st_Source :: "Ref option"
  st_Target :: "Ref option"
  st_PreparedID :: PreparedID
  st_Error :: string

datatype StorageEventType =
    EventOperationStarted | EventOperationProgress | EventOperationCompleted
  | EventOperationFailed | EventOperationCanceled
  | EventPrepared | EventDirty | EventCommitted | EventReleased

record StorageEvent =
  sev_Type :: StorageEventType
  sev_OperationID :: string
  sev_PreparedID :: PreparedID
  sev_NodeID :: string
  sev_Ref :: "Ref option"
  sev_Generation :: Generation
  sev_Error :: string

section \<open>Facts\<close>

lemma Ref_Validate_None: "Ref_Validate r = None \<longleftrightarrow> ref_Provider r \<noteq> '''' \<and> ref_Key r \<noteq> ''''"
  by (simp add: Ref_Validate_def)

lemma Ref_Validate_Is: "Ref_Validate r = Some e \<Longrightarrow> errors_Is e (StorageKind ErrInvalidRef)"
  by (auto simp: Ref_Validate_def split: if_splits)

text \<open>A printed reference reads back as long as the provider name has no colon.\<close>

lemma Ref_String_split:
  assumes "CHR '':'' \<notin> set (ref_Provider r)"
  shows "takeWhile (\<lambda>c. c \<noteq> CHR '':'') (Ref_String r) = ref_Provider r \<and>
    drop (Suc (length (ref_Provider r))) (Ref_String r) = ref_Key r"
  using assms by (auto simp: Ref_String_def takeWhile_tail)

lemma Ref_String_inj:
  assumes "CHR '':'' \<notin> set (ref_Provider r)" "CHR '':'' \<notin> set (ref_Provider s)"
    and "Ref_String r = Ref_String s"
  shows "r = s"
  using Ref_String_split [OF assms(1)] Ref_String_split [OF assms(2)] assms(3)
  by (metis Ref.equality unit.exhaust)

end
