(* ===== verification/Storage_Operation.thy ===== *)
theory Storage_Operation
  imports Storage_Types
begin

text \<open>
  Asynchronous operations of the local provider (\<open>storage/local/operation.go\<close>). The state of
  an \<open>operation\<close> is a record with the fields of the Go struct; the channel of a subscriber and
  the goroutine that \<open>Events\<close> starts for it form a \<open>pump\<close>: the subscriber buffer, the event the
  goroutine holds between its two selects, and the channel handed to the caller (everything sent
  on it, with the number of events the caller has received). Operations that a goroutine cannot
  finish (a send on a full or closed channel, a second close) have the value \<open>None\<close>. The step
  relation \<open>op_step\<close> interleaves the methods of the handle, the worker's calls, the pump
  goroutines and the cancellation of any context involved. Time stamps are left out; subscription
  numbers are 64-bit words and the relation excludes the wrap-around after \<open>2 ^ 64\<close>
  subscriptions.
\<close>

section \<open>State\<close>

definition subscriberCap :: nat where
  "subscriberCap = 16"

record pump =
  p_sub :: "StorageEvent list"
  p_sub_closed :: bool
  p_held :: "StorageEvent option"
  p_out :: "StorageEvent list"
  p_received :: nat
  p_out_closed :: bool

record operation =
  op_id :: string
  op_ctx_done :: bool
  op_done :: bool
  op_status :: Operation
  op_prepared :: "Prepared option"
  op_commit :: "CommitResult option"
  op_resultErr :: "gerror option"
  op_finished :: bool
  op_nextSubID :: "64 word"
  op_subscribers :: "64 word list"
  op_pumps :: "(64 word, pump) gomap"

definition newOperation :: "string \<Rightarrow> bool \<Rightarrow> OperationType \<Rightarrow> Ref option \<Rightarrow> Ref option \<Rightarrow> operation" where
  "newOperation uuid ctx_done opType source target =
     \<lparr>op_id = uuid, op_ctx_done = ctx_done, op_done = False,
      op_status = \<lparr>st_ID = uuid, st_Type = opType, st_State = OperationPending,
                   st_Source = source, st_Target = target, st_PreparedID = '''', st_Error = ''''\<rparr>,
      op_prepared = None, op_commit = None, op_resultErr = None, op_finished = False,
      op_nextSubID = 0, op_subscribers = [], op_pumps = []\<rparr>"

definition blank_event :: "StorageEventType \<Rightarrow> StorageEvent" where
  "blank_event t =
     \<lparr>sev_Type = t, sev_OperationID = '''', sev_PreparedID = '''', sev_NodeID = '''',
      sev_Ref = None, sev_Generation = '''', sev_Error = ''''\<rparr>"

section \<open>Setters used by the worker\<close>

definition setPreparedID :: "PreparedID \<Rightarrow> operation \<Rightarrow> operation" where
  "setPreparedID i h = h\<lparr>op_status := (op_status h)\<lparr>st_PreparedID := i\<rparr>\<rparr>"

definition setPrepared :: "Prepared option \<Rightarrow> gerror option \<Rightarrow> operation \<Rightarrow> operation" where
  "setPrepared prepared err h =
     (let h = h\<lparr>op_prepared := prepared, op_resultErr := err\<rparr> in
      case prepared of
        None \<Rightarrow> h
      | Some p \<Rightarrow> h\<lparr>op_status := (op_status h)\<lparr>st_PreparedID := pr_ID p\<rparr>\<rparr>)"

definition setCommitResult :: "CommitResult option \<Rightarrow> gerror option \<Rightarrow> operation \<Rightarrow> operation" where
  "setCommitResult result err h = h\<lparr>op_commit := result, op_resultErr := err\<rparr>"

section \<open>Reading the handle\<close>

definition op_Status :: "gerror option \<Rightarrow> operation \<Rightarrow> gerror + Operation" where
  "op_Status ctxErr h = (case ctxErr of Some e \<Rightarrow> Inl e | None \<Rightarrow> Inr (op_status h))"

text \<open>
  \<open>Wait\<close> selects between the operation and the caller's context; when both are ready the
  choice is \<open>pick\<close>. \<open>None\<close> means that the caller is still blocked.
\<close>

definition op_Wait :: "bool \<Rightarrow> gerror option \<Rightarrow> operation \<Rightarrow> (gerror + Operation) option" where
  "op_Wait pick ctxErr h =
     (if op_done h \<and> (pick \<or> ctxErr = None) then Some (op_Status None h)
      else case ctxErr of Some e \<Rightarrow> Some (Inl e) | None \<Rightarrow> None)"

definition op_Prepared :: "bool \<Rightarrow> gerror option \<Rightarrow> operation \<Rightarrow> (gerror + Prepared option) option" where
  "op_Prepared pick ctxErr h =
     (case op_Wait pick ctxErr h of
        None \<Rightarrow> None
      | Some (Inl e) \<Rightarrow> Some (Inl e)
      | Some (Inr _) \<Rightarrow>
          (case op_resultErr h of Some e \<Rightarrow> Some (Inl e) | None \<Rightarrow> Some (Inr (op_prepared h))))"

definition op_Result :: "bool \<Rightarrow> gerror option \<Rightarrow> operation \<Rightarrow> (gerror + CommitResult option) option" where
  "op_Result pick ctxErr h =
     (case op_Wait pick ctxErr h of
        None \<Rightarrow> None
      | Some (Inl e) \<Rightarrow> Some (Inl e)
      | Some (Inr _) \<Rightarrow>
          (case op_resultErr h of Some e \<Rightarrow> Some (Inl e) | None \<Rightarrow> Some (Inr (op_commit h))))"

definition op_Cancel :: "gerror option \<Rightarrow> operation \<Rightarrow> gerror option \<times> operation" where
  "op_Cancel ctxErr h =
     (case ctxErr of Some e \<Rightarrow> (Some e, h) | None \<Rightarrow> (None, h\<lparr>op_ctx_done := True\<rparr>))"

section \<open>Subscribing\<close>

definition op_Events :: "operation \<Rightarrow> 64 word \<times> operation" where
  "op_Events h =
     (let subID = op_nextSubID h;
          h = h\<lparr>op_nextSubID := subID + 1\<rparr>;
          pump = \<lparr>p_sub = [], p_sub_closed = op_finished h, p_held = None,
                  p_out = [], p_received = 0, p_out_closed = False\<rparr>;
          h = h\<lparr>op_pumps := mput subID pump (op_pumps h)\<rparr>
      in (subID, if op_finished h then h else h\<lparr>op_subscribers := op_subscribers h @ [subID]\<rparr>))"

text \<open>
  The goroutine of a subscription. \<open>pump_take\<close> is the first select on the subscriber channel
  (a closed and drained channel ends the goroutine), \<open>pump_deliver\<close> the second select,
  \<open>pump_quit\<close> is either select noticing the end of the caller's context, and \<open>pump_receive\<close> is
  the caller receiving from the returned channel.
\<close>

definition pump_exit :: "64 word \<Rightarrow> pump \<Rightarrow> operation \<Rightarrow> operation" where
  "pump_exit i p h =
     h\<lparr>op_subscribers := removeAll i (op_subscribers h),
       op_pumps := mput i (p\<lparr>p_held := None, p_out_closed := True\<rparr>) (op_pumps h)\<rparr>"

definition pump_take :: "64 word \<Rightarrow> operation \<Rightarrow> operation option" where
  "pump_take i h =
     (case mget (op_pumps h) i of
        None \<Rightarrow> None
      | Some p \<Rightarrow>
          if p_out_closed p \<or> p_held p \<noteq> None then None
          else case p_sub p of
            e # es \<Rightarrow> Some (h\<lparr>op_pumps := mput i (p\<lparr>p_sub := es, p_held := Some e\<rparr>) (op_pumps h)\<rparr>)
          | [] \<Rightarrow> if p_sub_closed p then Some (pump_exit i p h) else None)"

definition pump_deliver :: "64 word \<Rightarrow> operation \<Rightarrow> operation option" where
  "pump_deliver i h =
     (case mget (op_pumps h) i of
        None \<Rightarrow> None
      | Some p \<Rightarrow>
          (case p_held p of
             None \<Rightarrow> None
           | Some e \<Rightarrow>
               if p_out_closed p \<or> length (p_out p) - p_received p \<ge> subscriberCap then None
               else Some (h\<lparr>op_pumps :=
                      mput i (p\<lparr>p_held := None, p_out := p_out p @ [e]\<rparr>) (op_pumps h)\<rparr>)))"

definition pump_quit :: "64 word \<Rightarrow> operation \<Rightarrow> operation option" where
  "pump_quit i h =
     (case mget (op_pumps h) i of
        None \<Rightarrow> None
      | Some p \<Rightarrow> if p_out_closed p then None else Some (pump_exit i p h))"

definition pump_receive :: "64 word \<Rightarrow> operation \<Rightarrow> operation option" where
  "pump_receive i h =
     (case mget (op_pumps h) i of
        None \<Rightarrow> None
      | Some p \<Rightarrow>
          if p_received p < length (p_out p)
          then Some (h\<lparr>op_pumps := mput i (p\<lparr>p_received := p_received p + 1\<rparr>) (op_pumps h)\<rparr>)
          else None)"

section \<open>Starting and finishing\<close>

definition send_event :: "StorageEvent \<Rightarrow> pump \<Rightarrow> pump option" where
  "send_event e p =
     (if p_sub_closed p \<or> length (p_sub p) \<ge> subscriberCap then None
      else Some (p\<lparr>p_sub := p_sub p @ [e]\<rparr>))"

fun broadcastAll :: "StorageEvent \<Rightarrow> 64 word list \<Rightarrow> (64 word, pump) gomap \<Rightarrow> (64 word, pump) gomap option" where
  "broadcastAll e [] ps = Some ps"
| "broadcastAll e (i # js) ps = do {
     p \<leftarrow> mget ps i;
     p \<leftarrow> send_event e p;
     broadcastAll e js (mput i p ps)
   }"

definition broadcastLocked :: "StorageEvent \<Rightarrow> operation \<Rightarrow> operation option" where
  "broadcastLocked e h = do {
     ps \<leftarrow> broadcastAll e (op_subscribers h) (op_pumps h);
     Some (h\<lparr>op_pumps := ps\<rparr>)
   }"

definition op_start :: "operation \<Rightarrow> operation option" where
  "op_start h =
     (if op_finished h \<or> st_State (op_status h) \<noteq> OperationPending then Some h
      else broadcastLocked ((blank_event EventOperationStarted)\<lparr>sev_OperationID := op_id h\<rparr>)
             (h\<lparr>op_status := (op_status h)\<lparr>st_State := OperationRunning\<rparr>\<rparr>))"

definition close_chan :: "bool \<Rightarrow> bool option" where
  "close_chan c = (if c then None else Some True)"

fun closeSubscribers :: "64 word list \<Rightarrow> (64 word, pump) gomap \<Rightarrow> (64 word, pump) gomap option" where
  "closeSubscribers [] ps = Some ps"
| "closeSubscribers (i # js) ps = do {
     p \<leftarrow> mget ps i;
     c \<leftarrow> close_chan (p_sub_closed p);
     closeSubscribers js (mput i (p\<lparr>p_sub_closed := c\<rparr>) ps)
   }"

definition final_state :: "gerror option \<Rightarrow> OperationState" where
  "final_state err =
     (case err of
        None \<Rightarrow> OperationCompleted
      | Some e \<Rightarrow> if errors_Is e (OS CtxCanceled) then OperationCanceled else OperationFailed)"

definition final_error :: "gerror option \<Rightarrow> string \<Rightarrow> string" where
  "final_error err old = (case err of None \<Rightarrow> old | Some e \<Rightarrow> error_string e)"

fun final_event :: "OperationState \<Rightarrow> StorageEventType" where
  "final_event OperationCanceled = EventOperationCanceled"
| "final_event OperationFailed = EventOperationFailed"
| "final_event _ = EventOperationCompleted"

definition op_finish :: "gerror option \<Rightarrow> operation \<Rightarrow> operation option" where
  "op_finish err h =
     (if op_finished h then Some h
      else do {
        let st = op_status h;
        let st = st\<lparr>st_State := final_state err, st_Error := final_error err (st_Error st)\<rparr>;
        let h = h\<lparr>op_finished := True, op_ctx_done := True, op_status := st\<rparr>;
        h \<leftarrow> broadcastLocked
               ((blank_event (final_event (st_State st)))
                  \<lparr>sev_OperationID := op_id h, sev_Error := st_Error st\<rparr>) h;
        d \<leftarrow> close_chan (op_done h);
        ps \<leftarrow> closeSubscribers (op_subscribers h) (op_pumps h);
        Some (h\<lparr>op_done := d, op_pumps := ps, op_subscribers := []\<rparr>)
      })"

section \<open>Steps\<close>

datatype op_label =
    StartL | FinishL "gerror option" | PreparedIDL PreparedID
  | PreparedL "Prepared option" "gerror option" | CommitL "CommitResult option" "gerror option"
  | CancelL | ParentCancelL | EventsL
  | TakeL "64 word" | DeliverL "64 word" | QuitL "64 word" | ReceiveL "64 word"

inductive op_step :: "operation \<Rightarrow> op_label \<Rightarrow> operation \<Rightarrow> bool" where
  step_start: "op_start h = Some h' \<Longrightarrow> op_step h StartL h'"
| step_finish: "op_finish err h = Some h' \<Longrightarrow> op_step h (FinishL err) h'"
| step_preparedID: "op_step h (PreparedIDL i) (setPreparedID i h)"
| step_prepared: "op_step h (PreparedL p err) (setPrepared p err h)"
| step_commit: "op_step h (CommitL r err) (setCommitResult r err h)"
| step_cancel: "op_Cancel None h = (None, h') \<Longrightarrow> op_step h CancelL h'"
| step_parent: "op_step h ParentCancelL (h\<lparr>op_ctx_done := True\<rparr>)"
| step_events: "op_nextSubID h \<noteq> - 1 \<Longrightarrow> op_Events h = (i, h') \<Longrightarrow> op_step h EventsL h'"
| step_take: "pump_take i h = Some h' \<Longrightarrow> op_step h (TakeL i) h'"
| step_deliver: "pump_deliver i h = Some h' \<Longrightarrow> op_step h (DeliverL i) h'"
| step_quit: "pump_quit i h = Some h' \<Longrightarrow> op_step h (QuitL i) h'"
| step_receive: "pump_receive i h = Some h' \<Longrightarrow> op_step h (ReceiveL i) h'"

end
