(* ===== verification/Storage_Operation_Facts.thy ===== *)
theory Storage_Operation_Facts
  imports Storage_Operation
begin

text \<open>
  The invariant of an asynchronous operation, that every step keeps it, and the properties of
  the handle that rest on it.
\<close>

section \<open>What broadcasting and closing do\<close>

lemma broadcastAll_spec:
  assumes "distinct js"
    and "\<And>i. i \<in> set js \<Longrightarrow> \<exists>p. mget ps i = Some p \<and> \<not> p_sub_closed p \<and> length (p_sub p) < subscriberCap"
  shows "\<exists>qs. broadcastAll e js ps = Some qs \<and>
    mget qs = (\<lambda>i. if i \<in> set js then map_option (\<lambda>p. p\<lparr>p_sub := p_sub p @ [e]\<rparr>) (mget ps i) else mget ps i)"
  using assms
proof (induction js arbitrary: ps)
  case Nil
  then show ?case by auto
next
  case (Cons i js)
  from Cons.prems(2) [of i] obtain p where p: "mget ps i = Some p"
    "\<not> p_sub_closed p" "length (p_sub p) < subscriberCap" by auto
  let ?ps = "mput i (p\<lparr>p_sub := p_sub p @ [e]\<rparr>) ps"
  have "\<exists>q. mget ?ps j = Some q \<and> \<not> p_sub_closed q \<and> length (p_sub q) < subscriberCap"
    if "j \<in> set js" for j
    using that Cons.prems by auto
  with Cons.IH [of ?ps] Cons.prems(1) obtain qs where qs: "broadcastAll e js ?ps = Some qs"
    "mget qs = (\<lambda>j. if j \<in> set js then map_option (\<lambda>p. p\<lparr>p_sub := p_sub p @ [e]\<rparr>) (mget ?ps j) else mget ?ps j)"
    by auto
  have "mget qs = (\<lambda>j. if j \<in> set (i # js) then map_option (\<lambda>p. p\<lparr>p_sub := p_sub p @ [e]\<rparr>) (mget ps j) else mget ps j)"
    unfolding qs(2) using Cons.prems(1) p(1) by (auto simp: fun_eq_iff)
  with qs(1) p show ?case by (simp add: send_event_def)
qed

lemma closeSubscribers_spec:
  assumes "distinct js"
    and "\<And>i. i \<in> set js \<Longrightarrow> \<exists>p. mget ps i = Some p \<and> \<not> p_sub_closed p"
  shows "\<exists>qs. closeSubscribers js ps = Some qs \<and>
    mget qs = (\<lambda>i. if i \<in> set js then map_option (\<lambda>p. p\<lparr>p_sub_closed := True\<rparr>) (mget ps i) else mget ps i)"
  using assms
proof (induction js arbitrary: ps)
  case Nil
  then show ?case by auto
next
  case (Cons i js)
  from Cons.prems(2) [of i] obtain p where p: "mget ps i = Some p" "\<not> p_sub_closed p" by auto
  let ?ps = "mput i (p\<lparr>p_sub_closed := True\<rparr>) ps"
  have "\<exists>q. mget ?ps j = Some q \<and> \<not> p_sub_closed q" if "j \<in> set js" for j
    using that Cons.prems by auto
  with Cons.IH [of ?ps] Cons.prems(1) obtain qs where qs: "closeSubscribers js ?ps = Some qs"
    "mget qs = (\<lambda>j. if j \<in> set js then map_option (\<lambda>p. p\<lparr>p_sub_closed := True\<rparr>) (mget ?ps j) else mget ?ps j)"
    by auto
  have "mget qs = (\<lambda>j. if j \<in> set (i # js) then map_option (\<lambda>p. p\<lparr>p_sub_closed := True\<rparr>) (mget ps j) else mget ps j)"
    unfolding qs(2) using Cons.prems(1) p(1) by (auto simp: fun_eq_iff)
  with qs(1) p show ?case by (simp add: close_chan_def)
qed

section \<open>The invariant\<close>

definition started_ev :: "operation \<Rightarrow> StorageEvent" where
  "started_ev h = (blank_event EventOperationStarted)\<lparr>sev_OperationID := op_id h\<rparr>"

definition terminal_ev :: "operation \<Rightarrow> StorageEvent" where
  "terminal_ev h =
     (blank_event (final_event (st_State (op_status h))))
       \<lparr>sev_OperationID := op_id h, sev_Error := st_Error (op_status h)\<rparr>"

definition held_list :: "pump \<Rightarrow> StorageEvent list" where
  "held_list p = (case p_held p of None \<Rightarrow> [] | Some e \<Rightarrow> [e])"

text \<open>Everything that was sent to a subscriber and not dropped by a quitting goroutine.\<close>

definition stream :: "pump \<Rightarrow> StorageEvent list" where
  "stream p = p_out p @ held_list p @ p_sub p"

fun terminal :: "OperationState \<Rightarrow> bool" where
  "terminal OperationPending = False"
| "terminal OperationRunning = False"
| "terminal _ = True"

definition streams :: "operation \<Rightarrow> StorageEvent list set" where
  "streams h =
     (if op_finished h
      then {[], [started_ev h], [terminal_ev h], [started_ev h, terminal_ev h]}
      else if st_State (op_status h) = OperationPending then {[]} else {[], [started_ev h]})"

definition pump_ok :: "operation \<Rightarrow> 64 word \<Rightarrow> pump \<Rightarrow> bool" where
  "pump_ok h i p \<longleftrightarrow>
     i < op_nextSubID h \<and> p_received p \<le> length (p_out p) \<and>
     (if p_out_closed p then \<exists>rest. p_out p @ rest \<in> streams h else stream p \<in> streams h) \<and>
     (p_out_closed p \<longrightarrow> i \<notin> set (op_subscribers h)) \<and>
     (\<not> p_out_closed p \<longrightarrow> (p_sub_closed p \<longleftrightarrow> op_finished h)) \<and>
     (\<not> p_out_closed p \<longrightarrow> \<not> op_finished h \<longrightarrow> i \<in> set (op_subscribers h))"

definition op_inv :: "operation \<Rightarrow> bool" where
  "op_inv h \<longleftrightarrow>
     distinct (op_subscribers h) \<and>
     (terminal (st_State (op_status h)) \<longleftrightarrow> op_finished h) \<and>
     (op_done h \<longleftrightarrow> op_finished h) \<and>
     (op_finished h \<longrightarrow> op_subscribers h = [] \<and> op_ctx_done h) \<and>
     (\<forall>i \<in> set (op_subscribers h). mget (op_pumps h) i \<noteq> None) \<and>
     (\<forall>i p. mget (op_pumps h) i = Some p \<longrightarrow> pump_ok h i p)"

lemma op_invD:
  assumes "op_inv h"
  shows "distinct (op_subscribers h)" "terminal (st_State (op_status h)) \<longleftrightarrow> op_finished h"
    "op_done h \<longleftrightarrow> op_finished h" "op_finished h \<Longrightarrow> op_subscribers h = []" "op_finished h \<Longrightarrow> op_ctx_done h"
    "i \<in> set (op_subscribers h) \<Longrightarrow> mget (op_pumps h) i \<noteq> None"
    "mget (op_pumps h) i = Some p \<Longrightarrow> pump_ok h i p"
  using assms by (auto simp: op_inv_def)

lemma streams_short: "xs \<in> streams h \<Longrightarrow> length xs \<le> 2"
  by (auto simp: streams_def split: if_splits)

lemma streams_unfinished: "\<not> op_finished h \<Longrightarrow> xs \<in> streams h \<Longrightarrow> length xs \<le> 1"
  by (auto simp: streams_def split: if_splits)

lemma streams_cong:
  "op_id h' = op_id h \<Longrightarrow> st_State (op_status h') = st_State (op_status h) \<Longrightarrow>
   st_Error (op_status h') = st_Error (op_status h) \<Longrightarrow> op_finished h' = op_finished h \<Longrightarrow>
   streams h' = streams h"
  by (simp add: streams_def started_ev_def terminal_ev_def)

lemma streams_upd [simp]:
  "streams (h\<lparr>op_subscribers := a\<rparr>) = streams h" "streams (h\<lparr>op_pumps := b\<rparr>) = streams h"
  "streams (h\<lparr>op_nextSubID := c\<rparr>) = streams h"
  by (rule streams_cong; simp)+

text \<open>Steps that touch neither the status, the subscriber list nor the pumps.\<close>

lemma op_inv_cong:
  assumes "op_inv h" "op_id h' = op_id h" "st_State (op_status h') = st_State (op_status h)"
    "st_Error (op_status h') = st_Error (op_status h)" "op_finished h' = op_finished h"
    "op_done h' = op_done h" "op_ctx_done h \<longrightarrow> op_ctx_done h'"
    "op_subscribers h' = op_subscribers h" "op_pumps h' = op_pumps h" "op_nextSubID h' = op_nextSubID h"
  shows "op_inv h'"
  using assms streams_cong [of h' h] by (auto simp: op_inv_def pump_ok_def)

text \<open>Steps of one pump.\<close>

lemma op_inv_pump:
  assumes "op_inv h" "mget (op_pumps h) i = Some p"
    and "p_received q \<le> length (p_out q)" "stream q = stream p"
    and "p_out_closed q = p_out_closed p" "p_sub_closed q = p_sub_closed p"
    and "p_out_closed p \<Longrightarrow> p_out q = p_out p"
  shows "op_inv (h\<lparr>op_pumps := mput i q (op_pumps h)\<rparr>)"
  using assms by (auto simp: op_inv_def pump_ok_def split: if_splits)

lemma op_inv_exit:
  assumes "op_inv h" "mget (op_pumps h) i = Some p" "\<not> p_out_closed p"
  shows "op_inv (pump_exit i p h)"
proof -
  have "p_out p @ held_list p @ p_sub p \<in> streams h"
    using assms by (auto simp: op_inv_def pump_ok_def stream_def split: if_splits)
  with assms show ?thesis
    by (auto simp: op_inv_def pump_ok_def pump_exit_def distinct_removeAll split: if_splits)
qed

section \<open>Every step keeps the invariant\<close>

lemma op_inv_new: "op_inv (newOperation uuid c t src tgt)"
  by (simp add: newOperation_def op_inv_def)

lemma op_inv_start:
  assumes "op_inv h"
  shows "\<exists>h'. op_start h = Some h' \<and> op_inv h'"
proof (cases "op_finished h \<or> st_State (op_status h) \<noteq> OperationPending")
  case True
  with assms show ?thesis by (simp add: op_start_def)
next
  case False
  let ?e = "started_ev h"
  have open_pump: "\<exists>p. mget (op_pumps h) i = Some p \<and> \<not> p_sub_closed p \<and> p_sub p = [] \<and> pump_ok h i p"
    if "i \<in> set (op_subscribers h)" for i
  proof -
    from op_invD(6) [OF assms that] obtain p where p: "mget (op_pumps h) i = Some p" by blast
    with op_invD(7) [OF assms p] that False show ?thesis
      by (auto simp: pump_ok_def stream_def streams_def split: if_splits)
  qed
  have "\<exists>p. mget (op_pumps h) i = Some p \<and> \<not> p_sub_closed p \<and> length (p_sub p) < subscriberCap"
    if "i \<in> set (op_subscribers h)" for i
    using open_pump [OF that] by (auto simp: subscriberCap_def)
  then obtain qs where qs: "broadcastAll ?e (op_subscribers h) (op_pumps h) = Some qs"
    "mget qs = (\<lambda>i. if i \<in> set (op_subscribers h)
       then map_option (\<lambda>p. p\<lparr>p_sub := p_sub p @ [?e]\<rparr>) (mget (op_pumps h) i) else mget (op_pumps h) i)"
    using broadcastAll_spec [OF op_invD(1) [OF assms], of "op_pumps h" ?e] by auto
  let ?h = "h\<lparr>op_status := (op_status h)\<lparr>st_State := OperationRunning\<rparr>, op_pumps := qs\<rparr>"
  have start: "op_start h = Some ?h"
    using False qs(1) by (simp add: op_start_def broadcastLocked_def started_ev_def)
  have st: "streams ?h = {[], [?e]}" "streams h = {[]}"
    using False by (simp_all add: streams_def started_ev_def)
  have "pump_ok ?h i p" if "mget qs i = Some p" for i p
  proof (cases "i \<in> set (op_subscribers h)")
    case True
    from open_pump [OF True] obtain q where q: "mget (op_pumps h) i = Some q" "pump_ok h i q"
      "p_sub q = []" by blast
    with that True have p: "p = q\<lparr>p_sub := [?e]\<rparr>" unfolding qs(2) by simp
    from q(2) True st(2) have "stream q = []" "\<not> p_out_closed q" "i < op_nextSubID h"
      "p_sub_closed q \<longleftrightarrow> op_finished h" "p_received q \<le> length (p_out q)"
      by (auto simp: pump_ok_def split: if_splits)
    then show ?thesis
      using True st(1) False by (simp add: p pump_ok_def stream_def held_list_def split: option.splits)
  next
    case out: False
    with that qs(2) have "mget (op_pumps h) i = Some p" by simp
    from op_invD(7) [OF assms this] out False have "p_out_closed p" "p_out p = []" "i < op_nextSubID h"
      "p_received p \<le> length (p_out p)"
      by (auto simp: pump_ok_def st(2) split: if_splits)
    then show ?thesis
      using out st(1) by (auto simp: pump_ok_def)
  qed
  with assms False start qs(2) show ?thesis
    by (auto simp: op_inv_def)
qed

text \<open>What \<open>finish\<close> does on a live operation.\<close>

lemma op_finish_live:
  assumes "op_inv h" "\<not> op_finished h"
  shows "\<exists>h'. op_finish err h = Some h' \<and> op_finished h' \<and> op_done h' \<and> op_ctx_done h' \<and>
    op_subscribers h' = [] \<and> op_id h' = op_id h \<and> op_nextSubID h' = op_nextSubID h \<and>
    st_State (op_status h') = final_state err \<and>
    st_Error (op_status h') = final_error err (st_Error (op_status h)) \<and>
    mget (op_pumps h') = (\<lambda>i. if i \<in> set (op_subscribers h)
       then map_option (\<lambda>p. p\<lparr>p_sub := p_sub p @ [terminal_ev h'], p_sub_closed := True\<rparr>) (mget (op_pumps h) i)
       else mget (op_pumps h) i)"
proof -
  let ?st = "(op_status h)\<lparr>st_State := final_state err, st_Error := final_error err (st_Error (op_status h))\<rparr>"
  let ?h = "h\<lparr>op_finished := True, op_ctx_done := True, op_status := ?st\<rparr>"
  let ?e = "terminal_ev ?h"
  have open_pump: "\<exists>p. mget (op_pumps h) i = Some p \<and> \<not> p_sub_closed p \<and> length (p_sub p) < subscriberCap"
    if "i \<in> set (op_subscribers h)" for i
  proof -
    from op_invD(6) [OF assms(1) that] obtain p where p: "mget (op_pumps h) i = Some p" by blast
    with op_invD(7) [OF assms(1) p] that assms(2) have "stream p \<in> streams h" "\<not> p_sub_closed p"
      by (auto simp: pump_ok_def split: if_splits)
    with streams_unfinished [OF assms(2) this(1)] p show ?thesis
      by (simp add: stream_def subscriberCap_def)
  qed
  then obtain qs where qs: "broadcastAll ?e (op_subscribers h) (op_pumps h) = Some qs"
    "mget qs = (\<lambda>i. if i \<in> set (op_subscribers h)
       then map_option (\<lambda>p. p\<lparr>p_sub := p_sub p @ [?e]\<rparr>) (mget (op_pumps h) i) else mget (op_pumps h) i)"
    using broadcastAll_spec [OF op_invD(1) [OF assms(1)], of "op_pumps h" ?e] by auto
  have "\<exists>p. mget qs i = Some p \<and> \<not> p_sub_closed p" if "i \<in> set (op_subscribers h)" for i
    using open_pump [OF that] that by (auto simp: qs(2))
  then obtain rs where rs: "closeSubscribers (op_subscribers h) qs = Some rs"
    "mget rs = (\<lambda>i. if i \<in> set (op_subscribers h)
       then map_option (\<lambda>p. p\<lparr>p_sub_closed := True\<rparr>) (mget qs i) else mget qs i)"
    using closeSubscribers_spec [OF op_invD(1) [OF assms(1)], of qs] by auto
  let ?h' = "?h\<lparr>op_pumps := rs, op_done := True, op_subscribers := []\<rparr>"
  have fin: "op_finish err h = Some ?h'"
    using assms(2) op_invD(3) [OF assms(1)] qs(1) rs(1)
    by (simp add: op_finish_def broadcastLocked_def terminal_ev_def close_chan_def Let_def)
  have ev: "terminal_ev ?h' = ?e" by (simp add: terminal_ev_def)
  show ?thesis
    by (rule exI [of _ ?h']) (simp add: fin ev rs(2) qs(2) fun_eq_iff option.map_comp comp_def)
qed

lemma final_state_terminal [simp]: "terminal (final_state err)"
  by (simp add: final_state_def split: option.split)

lemma op_inv_finish:
  assumes "op_inv h"
  shows "\<exists>h'. op_finish err h = Some h' \<and> op_inv h'"
proof (cases "op_finished h")
  case True
  with assms show ?thesis by (simp add: op_finish_def)
next
  case False
  from op_finish_live [OF assms False, of err] obtain h' where
    fin: "op_finish err h = Some h'" and
    h': "op_finished h'" "op_done h'" "op_ctx_done h'" "op_subscribers h' = []" "op_id h' = op_id h"
      "op_nextSubID h' = op_nextSubID h" "st_State (op_status h') = final_state err" and
    ps: "mget (op_pumps h') = (\<lambda>i. if i \<in> set (op_subscribers h)
       then map_option (\<lambda>p. p\<lparr>p_sub := p_sub p @ [terminal_ev h'], p_sub_closed := True\<rparr>) (mget (op_pumps h) i)
       else mget (op_pumps h) i)"
    by blast
  have sub: "xs \<in> streams h \<Longrightarrow> xs \<in> streams h' \<and> xs @ [terminal_ev h'] \<in> streams h'" for xs
    using False h' by (auto simp: streams_def started_ev_def split: if_splits)
  have "pump_ok h' i p" if p: "mget (op_pumps h') i = Some p" for i p
  proof (cases "i \<in> set (op_subscribers h)")
    case True
    with p ps obtain q where q: "mget (op_pumps h) i = Some q"
      "p = q\<lparr>p_sub := p_sub q @ [terminal_ev h'], p_sub_closed := True\<rparr>" by auto
    from op_invD(7) [OF assms q(1)] True sub [of "stream q"] h' show ?thesis
      by (auto simp: pump_ok_def stream_def held_list_def q(2) split: if_splits)
  next
    case out: False
    with p ps have "mget (op_pumps h) i = Some p" by simp
    from op_invD(7) [OF assms this] out False sub h' show ?thesis
      by (auto simp: pump_ok_def split: if_splits)
  qed
  with fin h' show ?thesis by (auto simp: op_inv_def)
qed

lemma op_inv_events:
  assumes "op_inv h" "op_nextSubID h \<noteq> - 1" "op_Events h = (i, h')"
  shows "op_inv h'"
proof -
  let ?n = "op_nextSubID h"
  let ?p = "\<lparr>p_sub = [], p_sub_closed = op_finished h, p_held = None,
              p_out = [], p_received = 0, p_out_closed = False\<rparr>"
  have less: "j < ?n + 1" if "j < ?n" for j
    using that word_less_succ [OF assms(2)] by (rule less_trans)
  have new: "?n \<notin> set (op_subscribers h)" "mget (op_pumps h) ?n = None"
    using op_invD(6,7) [OF assms(1), of ?n] by (cases "mget (op_pumps h) ?n"; auto simp: pump_ok_def)+
  have h': "h' = (if op_finished h then h\<lparr>op_nextSubID := ?n + 1, op_pumps := mput ?n ?p (op_pumps h)\<rparr>
      else h\<lparr>op_nextSubID := ?n + 1, op_pumps := mput ?n ?p (op_pumps h),
             op_subscribers := op_subscribers h @ [?n]\<rparr>)"
    using assms(3) by (auto simp: op_Events_def Let_def)
  have st: "streams h' = streams h" by (rule streams_cong) (simp_all add: h')
  have "pump_ok h' j q" if "mget (op_pumps h') j = Some q" for j q
  proof (cases "j = ?n")
    case True
    with that word_less_succ [OF assms(2)] show ?thesis
      by (auto simp: h' pump_ok_def stream_def held_list_def streams_def)
  next
    case False
    with that have "mget (op_pumps h) j = Some q" by (simp add: h' split: if_splits)
    from op_invD(7) [OF assms(1) this] False less [of j] show ?thesis
      unfolding pump_ok_def st by (simp add: h')
  qed
  with assms(1) new show ?thesis
    by (auto simp: op_inv_def h')
qed

lemma op_step_inv:
  assumes "op_inv h" "op_step h l h'"
  shows "op_inv h'"
  using assms(2)
proof (cases rule: op_step.cases)
  case step_start
  with op_inv_start [OF assms(1)] show ?thesis by simp
next
  case (step_finish err)
  with op_inv_finish [OF assms(1), of err] show ?thesis by simp
next
  case (step_preparedID i)
  with assms(1) show ?thesis
    by (auto simp: setPreparedID_def intro: op_inv_cong)
next
  case (step_prepared p err)
  with assms(1) show ?thesis
    by (auto simp: setPrepared_def Let_def intro: op_inv_cong split: option.split)
next
  case (step_commit r err)
  with assms(1) show ?thesis
    by (auto simp: setCommitResult_def intro: op_inv_cong)
next
  case step_cancel
  then have "h' = h\<lparr>op_ctx_done := True\<rparr>" by (simp add: op_Cancel_def)
  with assms(1) show ?thesis by (auto intro: op_inv_cong)
next
  case step_parent
  with assms(1) show ?thesis by (auto intro: op_inv_cong)
next
  case (step_events i)
  with assms(1) show ?thesis by (blast intro: op_inv_events)
next
  case (step_take i)
  then obtain p where p: "mget (op_pumps h) i = Some p" "\<not> p_out_closed p" "p_held p = None"
    by (auto simp: pump_take_def split: option.splits if_splits)
  have rec: "p_received p \<le> length (p_out p)"
    using op_invD(7) [OF assms(1) p(1)] by (simp add: pump_ok_def)
  show ?thesis
  proof (cases "p_sub p")
    case Nil
    with step_take p have "h' = pump_exit i p h"
      by (auto simp: pump_take_def split: if_splits)
    with op_inv_exit [OF assms(1) p(1,2)] show ?thesis by simp
  next
    case (Cons e es)
    with step_take p have "h' = h\<lparr>op_pumps := mput i (p\<lparr>p_sub := es, p_held := Some e\<rparr>) (op_pumps h)\<rparr>"
      by (simp add: pump_take_def)
    with op_inv_pump [OF assms(1) p(1)] rec p Cons show ?thesis
      by (simp add: stream_def held_list_def)
  qed
next
  case (step_deliver i)
  then obtain p e where p: "mget (op_pumps h) i = Some p" "\<not> p_out_closed p" "p_held p = Some e"
    "h' = h\<lparr>op_pumps := mput i (p\<lparr>p_held := None, p_out := p_out p @ [e]\<rparr>) (op_pumps h)\<rparr>"
    by (auto simp: pump_deliver_def split: option.splits if_splits)
  have "p_received p \<le> length (p_out p)"
    using op_invD(7) [OF assms(1) p(1)] by (simp add: pump_ok_def)
  with op_inv_pump [OF assms(1) p(1)] p show ?thesis
    by (simp add: stream_def held_list_def)
next
  case (step_quit i)
  then obtain p where "mget (op_pumps h) i = Some p" "\<not> p_out_closed p" "h' = pump_exit i p h"
    by (auto simp: pump_quit_def split: option.splits if_splits)
  with op_inv_exit [OF assms(1)] show ?thesis by simp
next
  case (step_receive i)
  then obtain p where p: "mget (op_pumps h) i = Some p" "p_received p < length (p_out p)"
    "h' = h\<lparr>op_pumps := mput i (p\<lparr>p_received := p_received p + 1\<rparr>) (op_pumps h)\<rparr>"
    by (auto simp: pump_receive_def split: option.splits if_splits)
  with op_inv_pump [OF assms(1) p(1)] show ?thesis
    by (simp add: stream_def held_list_def)
qed

interpretation op_sys: inductive_invariant "newOperation uuid c t src tgt" op_step op_inv
  for uuid c t src tgt
  by unfold_locales (auto intro: op_inv_new op_step_inv)

section \<open>After the end\<close>

text \<open>Once finished, the outcome does not change any more.\<close>

definition outcome_is :: "OperationState \<Rightarrow> string \<Rightarrow> operation \<Rightarrow> bool" where
  "outcome_is st err h \<longleftrightarrow>
     op_inv h \<and> op_finished h \<and> st_State (op_status h) = st \<and> st_Error (op_status h) = err"

lemma finished_step:
  assumes "op_finished h" "op_step h l h'"
  shows "op_finished h' \<and> st_State (op_status h') = st_State (op_status h) \<and>
    st_Error (op_status h') = st_Error (op_status h)"
  using assms(2,1)
  by (cases rule: op_step.cases)
     (auto simp: op_start_def op_finish_def setPreparedID_def setPrepared_def setCommitResult_def
        op_Cancel_def op_Events_def pump_take_def pump_deliver_def pump_quit_def pump_receive_def
        pump_exit_def Let_def split: option.splits list.splits if_splits)

lemma outcome_final:
  assumes "outcome_is st err h" "reach h op_step h'"
  shows "outcome_is st err h'"
  using assms(2,1)
proof (induction rule: reach.induct)
  case reach_init
  then show ?case by simp
next
  case (reach_step h1 l h2)
  with finished_step [of h1 l h2] op_step_inv [of h1 l h2] show ?case
    by (auto simp: outcome_is_def)
qed

lemma reach_trans: "reach s step t \<Longrightarrow> reach t step u \<Longrightarrow> reach s step u"
  by (rotate_tac 1, induction rule: reach.induct) (auto intro: reach.intros)

lemma reach_one: "step s l t \<Longrightarrow> reach s step t"
  by (blast intro: reach.intros)

text \<open>The goroutine of a subscription drains its channel and closes the caller's channel.\<close>

lemma pump_drains:
  assumes "op_inv h" "op_finished h" "mget (op_pumps h) i = Some p" "\<not> p_out_closed p"
  shows "\<exists>h'. reach h op_step h' \<and>
    (\<exists>q. mget (op_pumps h') i = Some q \<and> p_out q = stream p \<and> p_out_closed q)"
  using assms
proof (induction "2 * length (p_sub p) + length (held_list p)" arbitrary: h p rule: less_induct)
  case less
  note ok = op_invD(7) [OF less.prems(1,3)]
  have closed: "p_sub_closed p" using ok less.prems by (simp add: pump_ok_def)
  have "stream p \<in> streams h" using ok less.prems by (simp add: pump_ok_def)
  from streams_short [OF this] have room: "length (p_out p) < subscriberCap"
    by (simp add: stream_def subscriberCap_def)
  show ?case
  proof (cases "p_held p")
    case (Some e)
    let ?q = "p\<lparr>p_held := None, p_out := p_out p @ [e]\<rparr>"
    let ?h = "h\<lparr>op_pumps := mput i ?q (op_pumps h)\<rparr>"
    have step: "op_step h (DeliverL i) ?h"
      using less.prems Some room by (intro step_deliver) (simp add: pump_deliver_def)
    have "stream ?q = stream p" using Some by (simp add: stream_def held_list_def)
    moreover from less.hyps [of ?q ?h] op_step_inv [OF less.prems(1) step] less.prems Some
    obtain h' where "reach ?h op_step h'"
      "\<exists>q. mget (op_pumps h') i = Some q \<and> p_out q = stream ?q \<and> p_out_closed q"
      by (auto simp: held_list_def)
    ultimately show ?thesis
      using reach_trans [OF reach_one [of op_step, OF step]] by auto
  next
    case None
    show ?thesis
    proof (cases "p_sub p")
      case Nil
      have "pump_take i h = Some (pump_exit i p h)"
        using less.prems None Nil closed by (simp add: pump_take_def)
      from reach_one [of op_step, OF step_take [OF this]]
      have "reach h op_step (pump_exit i p h)" .
      then show ?thesis
        using None Nil by (intro exI [of _ "pump_exit i p h"]) (simp add: pump_exit_def stream_def held_list_def)
    next
      case (Cons e es)
      let ?q = "p\<lparr>p_sub := es, p_held := Some e\<rparr>"
      let ?h = "h\<lparr>op_pumps := mput i ?q (op_pumps h)\<rparr>"
      have step: "op_step h (TakeL i) ?h"
        using less.prems None Cons by (intro step_take) (simp add: pump_take_def)
      have "stream ?q = stream p" using None Cons by (simp add: stream_def held_list_def)
      moreover from less.hyps [of ?q ?h] op_step_inv [OF less.prems(1) step] less.prems None Cons
      obtain h' where "reach ?h op_step h'"
        "\<exists>q. mget (op_pumps h') i = Some q \<and> p_out q = stream ?q \<and> p_out_closed q"
        by (auto simp: held_list_def)
      ultimately show ?thesis
        using reach_trans [OF reach_one [of op_step, OF step]] by auto
    qed
  qed
qed

section \<open>Properties\<close>

text \<open>C6: whatever the interleaving of the worker, the callers, the subscriber goroutines and
  cancellations, \<open>start\<close> and \<open>finish\<close> never block on a subscriber nor close a channel twice; the
  operation is done exactly when its state is terminal, it then has no registered subscriber, and
  no subscriber buffer ever holds more than two of its 16 events.\<close>

theorem operation_never_blocks:
  assumes "reach (newOperation uuid c t src tgt) op_step h"
  shows "op_start h \<noteq> None \<and> op_finish err h \<noteq> None \<and>
    (terminal (st_State (op_status h)) \<longleftrightarrow> op_done h) \<and>
    (op_done h \<longrightarrow> op_subscribers h = [] \<and> op_ctx_done h) \<and>
    (mget (op_pumps h) i = Some p \<and> \<not> p_out_closed p \<longrightarrow> length (p_sub p) \<le> 2)"
proof (intro conjI)
  note inv = op_sys.reach_inv [OF assms]
  show "op_start h \<noteq> None" "op_finish err h \<noteq> None"
    using op_inv_start [OF inv] op_inv_finish [OF inv, of err] by auto
  show "terminal (st_State (op_status h)) = op_done h"
    "op_done h \<longrightarrow> op_subscribers h = [] \<and> op_ctx_done h"
    using op_invD [OF inv] by auto
  show "mget (op_pumps h) i = Some p \<and> \<not> p_out_closed p \<longrightarrow> length (p_sub p) \<le> 2"
  proof
    assume p: "mget (op_pumps h) i = Some p \<and> \<not> p_out_closed p"
    then have "stream p \<in> streams h"
      using op_invD(7) [OF inv, of i p] by (simp add: pump_ok_def)
    from streams_short [OF this] show "length (p_sub p) \<le> 2"
      by (simp add: stream_def)
  qed
qed

definition demo_op :: operation where
  "demo_op = newOperation ''op-1'' False OperationCopy None None"

lemma demo_subscribed: "reach demo_op op_step (snd (op_Events demo_op))"
proof -
  have "op_nextSubID demo_op \<noteq> - 1" by (simp add: demo_op_def newOperation_def)
  from step_events [OF this prod.collapse [symmetric]] show ?thesis by (rule reach_one)
qed

theorem operation_never_blocks_witness:
  "op_finish None (snd (op_Events demo_op)) \<noteq> None"
  using operation_never_blocks [OF demo_subscribed [unfolded demo_op_def], of None]
  by (simp add: demo_op_def)

text \<open>C7: finishing a running operation decides its outcome once and for all: completed without
  an error, canceled when the error wraps \<open>context.Canceled\<close>, failed otherwise, with the error's
  text. Nothing that happens later changes it; \<open>Wait\<close> blocks before and returns the terminal
  status afterwards.\<close>

theorem finish_is_final:
  assumes "reach (newOperation uuid c t src tgt) op_step h" and "\<not> op_done h"
  shows "op_Wait pick None h = None \<and> (\<exists>h'. op_finish err h = Some h' \<and>
      (\<forall>k. reach h' op_step k \<longrightarrow>
         (\<exists>st. op_Wait pick None k = Some (Inr st) \<and> st_State st = final_state err \<and>
           st_Error st = (case err of None \<Rightarrow> st_Error (op_status h) | Some e \<Rightarrow> error_string e)) \<and>
         op_finish err' k = Some k))"
proof (rule conjI)
  note inv = op_sys.reach_inv [OF assms(1)]
  show "op_Wait pick None h = None"
    using assms(2) by (simp add: op_Wait_def)
  from assms(2) op_invD(3) [OF inv] have "\<not> op_finished h" by simp
  from op_finish_live [OF inv this, of err] op_inv_finish [OF inv, of err]
  obtain h' where h': "op_finish err h = Some h'"
    "outcome_is (final_state err) (final_error err (st_Error (op_status h))) h'"
    by (auto simp: outcome_is_def)
  have "(\<exists>st. op_Wait pick None k = Some (Inr st) \<and> st_State st = final_state err \<and>
        st_Error st = (case err of None \<Rightarrow> st_Error (op_status h) | Some e \<Rightarrow> error_string e)) \<and>
      op_finish err' k = Some k" if "reach h' op_step k" for k
    using outcome_final [OF h'(2) that] op_invD(3) [of k]
    by (auto simp: outcome_is_def op_Wait_def op_Status_def op_finish_def final_error_def split: option.split)
  with h'(1) show "\<exists>h'. op_finish err h = Some h' \<and>
      (\<forall>k. reach h' op_step k \<longrightarrow>
         (\<exists>st. op_Wait pick None k = Some (Inr st) \<and> st_State st = final_state err \<and>
           st_Error st = (case err of None \<Rightarrow> st_Error (op_status h) | Some e \<Rightarrow> error_string e)) \<and>
         op_finish err' k = Some k)"
    by blast
qed

theorem finish_is_final_witness:
  "\<exists>h'. op_finish (Some (Sentinel (OS CtxCanceled))) demo_op = Some h' \<and>
     (\<exists>st. op_Wait False None h' = Some (Inr st) \<and> st_State st = OperationCanceled \<and>
        st_Error st = ''context canceled'')"
proof -
  have "\<not> op_done demo_op" by (simp add: demo_op_def newOperation_def)
  from finish_is_final [OF reach_init [of demo_op op_step, unfolded demo_op_def],
      folded demo_op_def, OF this, of False "Some (Sentinel (OS CtxCanceled))" None]
  show ?thesis
    by (auto simp: final_state_def intro: reach_init)
qed

text \<open>C8: a subscriber that is registered when the operation finishes gets at most a start event
  and then exactly one terminal event that carries the outcome; its goroutine can always run on
  until all of that is in the returned channel and the channel is closed.\<close>

theorem subscriber_gets_outcome:
  assumes "reach (newOperation uuid c t src tgt) op_step h"
    and "i \<in> set (op_subscribers h)" and "op_finish err h = Some h'"
  shows "\<exists>k q pre. reach h' op_step k \<and> mget (op_pumps k) i = Some q \<and> p_out_closed q \<and>
    p_out q = pre @ [terminal_ev h'] \<and> (pre = [] \<or> pre = [started_ev h])"
proof -
  note inv = op_sys.reach_inv [OF assms(1)]
  have live: "\<not> op_finished h" using op_invD(4) [OF inv] assms(2) by auto
  obtain p where p: "mget (op_pumps h) i = Some p" using op_invD(6) [OF inv assms(2)] by blast
  with op_invD(7) [OF inv p] assms(2) have open_p: "\<not> p_out_closed p" and str: "stream p \<in> streams h"
    by (auto simp: pump_ok_def split: if_splits)
  let ?q = "p\<lparr>p_sub := p_sub p @ [terminal_ev h'], p_sub_closed := True\<rparr>"
  have q: "mget (op_pumps h') i = Some ?q" "op_finished h'"
    using op_finish_live [OF inv live, of err] assms(2,3) p by auto
  have "op_inv h'" using op_inv_finish [OF inv, of err] assms(3) by simp
  from pump_drains [OF this q(2,1)] open_p obtain k r where
    "reach h' op_step k" "mget (op_pumps k) i = Some r" "p_out r = stream ?q" "p_out_closed r"
    by auto
  moreover have "stream ?q = stream p @ [terminal_ev h']"
    by (simp add: stream_def held_list_def)
  moreover have "stream p = [] \<or> stream p = [started_ev h]"
    using str live by (auto simp: streams_def split: if_splits)
  ultimately show ?thesis
    by (intro exI [of _ k] exI [of _ r] exI [of _ "stream p"]) simp
qed

theorem subscriber_gets_outcome_witness:
  "\<exists>h' k q pre. op_finish None (snd (op_Events demo_op)) = Some h' \<and> reach h' op_step k \<and>
     mget (op_pumps k) 0 = Some q \<and> p_out_closed q \<and> p_out q = pre @ [terminal_ev h']"
proof -
  let ?h = "snd (op_Events demo_op)"
  note r = demo_subscribed
  have "0 \<in> set (op_subscribers ?h)"
    by (simp add: demo_op_def newOperation_def op_Events_def)
  moreover obtain h' where "op_finish None ?h = Some h'"
    using op_inv_finish [OF op_sys.reach_inv [OF r [unfolded demo_op_def], folded demo_op_def]] by blast
  ultimately show ?thesis
    using subscriber_gets_outcome [OF r [unfolded demo_op_def], folded demo_op_def] by blast
qed

end
