(* ===== verification/Storage_FS.thy ===== *)
theory Storage_FS
  imports Storage_Types "HOL-Library.Sublist"
begin

text \<open>
  The operating system below the local storage provider: the calls of Go's \<open>os\<close> package that
  \<open>storage/local/local.go\<close> makes, over the tree beneath the provider's root. A path is the list
  of its components below the root. The environment is explicit in the state: every call (and
  every look at the context) advances \<open>ticks\<close>; \<open>fault n\<close> may make call \<open>n\<close> fail with any error
  (for a write, after a number of bytes), \<open>ctx_err n\<close> is what the context answers, \<open>clock\<close>,
  \<open>dir_meta\<close>, \<open>tmp_name\<close>, \<open>uuid\<close> and \<open>mime\<close> supply time stamps, what the system reports for objects that
  are not regular files, names of temporary files, identifiers and the content type of a file name extension.

  A symbolic link below the root can lead anywhere, so its target is not part of the state. A
  call that follows one is recorded in \<open>outside\<close>; the provider is supposed never to make such a
  call. \<open>RemoveAll\<close> is atomic here when the environment lets it fail; permission bits are those
  asked for (no umask), and permission checks are failures of the environment.
\<close>

section \<open>State\<close>

type_synonym path = "string list"
type_synonym content = "8 word list"

datatype node = Dir nat | File nat content int | Symlink | Special

type_synonym fsys = "(path, node) gomap"

record subscription =
  sub_queue :: "StorageEvent list"
  sub_held :: "StorageEvent option"
  sub_out :: "StorageEvent list"
  sub_received :: nat

record world =
  files :: fsys
  outside :: "path list"
  ticks :: nat
  fault :: "nat \<Rightarrow> (nat \<times> gerror) option"
  ctx_err :: "nat \<Rightarrow> gerror option"
  clock :: "nat \<Rightarrow> int"
  dir_meta :: "nat \<Rightarrow> nat \<times> int"
  tmp_name :: "nat \<Rightarrow> string"
  uuid :: "nat \<Rightarrow> string"
  mime :: "string \<Rightarrow> string"
  dirty :: "(PreparedID, bool) gomap"
  nextSubID :: "64 word"
  subs :: "(64 word, subscription) gomap"

section \<open>Computations that read and change the state\<close>

datatype 'a outcome = Ok 'a | Err gerror | Diverges

type_synonym 'a io = "world \<Rightarrow> 'a outcome \<times> world"

definition ret :: "'a \<Rightarrow> 'a io" where
  "ret x w = (Ok x, w)"

definition throw :: "gerror \<Rightarrow> 'a io" where
  "throw e w = (Err e, w)"

definition bnd :: "'a io \<Rightarrow> ('a \<Rightarrow> 'b io) \<Rightarrow> 'b io" where
  "bnd m f w = (case m w of
      (Ok x, w) \<Rightarrow> f x w
    | (Err e, w) \<Rightarrow> (Err e, w)
    | (Diverges, w) \<Rightarrow> (Diverges, w))"

definition attempt :: "'a io \<Rightarrow> (gerror + 'a) io" where
  "attempt m w = (case m w of
      (Ok x, w) \<Rightarrow> (Ok (Inr x), w)
    | (Err e, w) \<Rightarrow> (Ok (Inl e), w)
    | (Diverges, w) \<Rightarrow> (Diverges, w))"

definition wrapErr :: "(gerror \<Rightarrow> gerror) \<Rightarrow> 'a io \<Rightarrow> 'a io" where
  "wrapErr f m w = (case m w of
      (Ok x, w) \<Rightarrow> (Ok x, w)
    | (Err e, w) \<Rightarrow> (Err (f e), w)
    | (Diverges, w) \<Rightarrow> (Diverges, w))"

definition gets :: "(world \<Rightarrow> 'a) \<Rightarrow> 'a io" where
  "gets f w = (Ok (f w), w)"

definition modify :: "(world \<Rightarrow> world) \<Rightarrow> unit io" where
  "modify f w = (Ok (), f w)"

definition check :: "gerror option \<Rightarrow> unit io" where
  "check e = (case e of None \<Rightarrow> ret () | Some e \<Rightarrow> throw e)"

text \<open>The error of a cleanup step, joined to the error that caused it.\<close>

definition failed :: "(gerror + 'a) \<Rightarrow> gerror option" where
  "failed r = (case r of Inl e \<Rightarrow> Some e | Inr _ \<Rightarrow> None)"

definition the_join :: "gerror option list \<Rightarrow> gerror" where
  "the_join es = (case errors_Join es of Some e \<Rightarrow> e | None \<Rightarrow> Joined [])"

definition sys :: "'a io \<Rightarrow> 'a io" where
  "sys m w =
     (let n = ticks w; w = w\<lparr>ticks := n + 1\<rparr>
      in case fault w n of Some (_, e) \<Rightarrow> (Err e, w) | None \<Rightarrow> m w)"

definition ctx_Err :: "unit io" where
  "ctx_Err w =
     (let n = ticks w; w = w\<lparr>ticks := n + 1\<rparr>
      in case ctx_err w n of Some e \<Rightarrow> (Err e, w) | None \<Rightarrow> (Ok (), w))"

abbreviation os_err :: "os_kind \<Rightarrow> gerror" where
  "os_err k \<equiv> Sentinel (OS k)"

section \<open>Looking at the tree\<close>

datatype walked = Found node | Missing | NotDir | Through

fun walk :: "fsys \<Rightarrow> path \<Rightarrow> path \<Rightarrow> walked" where
  "walk fs cur [] = (case mget fs cur of Some n \<Rightarrow> Found n | None \<Rightarrow> Missing)"
| "walk fs cur (c # cs) =
     (case mget fs cur of
        None \<Rightarrow> Missing
      | Some (Dir _) \<Rightarrow> walk fs (cur @ [c]) cs
      | Some Symlink \<Rightarrow> Through
      | Some _ \<Rightarrow> NotDir)"

definition followed :: "path \<Rightarrow> 'a io" where
  "followed p w = (Err (Foreign ''outside the root'' []), w\<lparr>outside := outside w @ [p]\<rparr>)"

text \<open>What a call does when the path does not lead to an object of the tree.\<close>

definition at_node :: "path \<Rightarrow> (node \<Rightarrow> 'a io) \<Rightarrow> 'a io" where
  "at_node p f w =
     (case walk (files w) [] p of
        Found n \<Rightarrow> f n w
      | Missing \<Rightarrow> throw (os_err ErrNotExist) w
      | NotDir \<Rightarrow> throw (os_err ENOTDIR) w
      | Through \<Rightarrow> followed p w)"

datatype FileKind = KRegular | KDir | KSymlink | KOther

record FileInfo =
  fi_kind :: FileKind
  fi_perm :: nat
  fi_size :: nat
  fi_mtime :: int

fun node_info :: "nat \<times> int \<Rightarrow> node \<Rightarrow> FileInfo" where
  "node_info (s, t) (File pm c mt) = \<lparr>fi_kind = KRegular, fi_perm = pm, fi_size = length c, fi_mtime = mt\<rparr>"
| "node_info (s, t) (Dir pm) = \<lparr>fi_kind = KDir, fi_perm = pm, fi_size = s, fi_mtime = t\<rparr>"
| "node_info (s, t) Symlink = \<lparr>fi_kind = KSymlink, fi_perm = 511, fi_size = s, fi_mtime = t\<rparr>"
| "node_info (s, t) Special = \<lparr>fi_kind = KOther, fi_perm = 0, fi_size = s, fi_mtime = t\<rparr>"

definition info_of :: "node \<Rightarrow> FileInfo io" where
  "info_of n = gets (\<lambda>w. node_info (dir_meta w (ticks w)) n)"

definition os_Lstat :: "path \<Rightarrow> FileInfo io" where
  "os_Lstat p = sys (at_node p info_of)"

definition os_Stat :: "path \<Rightarrow> FileInfo io" where
  "os_Stat p = sys (at_node p (\<lambda>n. if n = Symlink then followed p else info_of n))"

definition children :: "fsys \<Rightarrow> path \<Rightarrow> string list" where
  "children fs p = sort (map last (filter (\<lambda>q. q \<noteq> [] \<and> butlast q = p) (mkeys fs)))"

definition os_ReadDir :: "path \<Rightarrow> string list io" where
  "os_ReadDir p = sys (at_node p (\<lambda>n. case n of
      Dir _ \<Rightarrow> gets (\<lambda>w. children (files w) p)
    | Symlink \<Rightarrow> followed p
    | _ \<Rightarrow> throw (os_err ENOTDIR)))"

section \<open>Changing the tree\<close>

definition set_node :: "path \<Rightarrow> node \<Rightarrow> unit io" where
  "set_node p n = modify (\<lambda>w. w\<lparr>files := mput p n (files w)\<rparr>)"

definition now :: "world \<Rightarrow> int" where
  "now w = clock w (ticks w)"

text \<open>A new object can only be made in an existing directory.\<close>

definition create_node :: "path \<Rightarrow> node \<Rightarrow> unit io" where
  "create_node p n =
     at_node (butlast p) (\<lambda>d. case d of
        Dir _ \<Rightarrow> set_node p n
      | Symlink \<Rightarrow> followed p
      | _ \<Rightarrow> throw (os_err ENOTDIR))"

text \<open>\<open>os.MkdirAll\<close> makes the missing directories from the top down.\<close>

fun mkdirs :: "nat \<Rightarrow> path \<Rightarrow> path \<Rightarrow> unit io" where
  "mkdirs perm cur [] = ret ()"
| "mkdirs perm cur (c # cs) =
     (let p = cur @ [c] in
      bnd (sys (\<lambda>w. case walk (files w) [] p of
             Found (Dir _) \<Rightarrow> ret () w
           | Found Symlink \<Rightarrow> followed p w
           | Found _ \<Rightarrow> throw (os_err ENOTDIR) w
           | Missing \<Rightarrow> create_node p (Dir perm) w
           | NotDir \<Rightarrow> throw (os_err ENOTDIR) w
           | Through \<Rightarrow> followed p w))
        (\<lambda>_. mkdirs perm p cs))"

definition os_MkdirAll :: "path \<Rightarrow> nat \<Rightarrow> unit io" where
  "os_MkdirAll p perm = mkdirs perm [] p"

datatype handle = At path | Away path

datatype open_mode = O_RDONLY | O_WRONLY | O_CREATE_EXCL nat | O_CREATE_TRUNC nat

definition away :: "path \<Rightarrow> handle io" where
  "away p w = (Ok (Away p), w\<lparr>outside := outside w @ [p]\<rparr>)"

definition new_file :: "path \<Rightarrow> nat \<Rightarrow> handle io" where
  "new_file p perm w =
     bnd (create_node p (File perm [] (now w))) (\<lambda>_. ret (At p)) w"

definition open_existing :: "path \<Rightarrow> open_mode \<Rightarrow> node \<Rightarrow> handle io" where
  "open_existing p m n =
     (case m of
        O_CREATE_EXCL _ \<Rightarrow> throw (os_err ErrExist)
      | O_RDONLY \<Rightarrow> if n = Symlink then away p else ret (At p)
      | O_WRONLY \<Rightarrow>
          (case n of Dir _ \<Rightarrow> throw (os_err EISDIR) | Symlink \<Rightarrow> away p | _ \<Rightarrow> ret (At p))
      | O_CREATE_TRUNC _ \<Rightarrow>
          (case n of
             Dir _ \<Rightarrow> throw (os_err EISDIR)
           | Symlink \<Rightarrow> away p
           | File pm _ _ \<Rightarrow> (\<lambda>w. bnd (set_node p (File pm [] (now w))) (\<lambda>_. ret (At p)) w)
           | Special \<Rightarrow> ret (At p)))"

definition os_OpenFile :: "path \<Rightarrow> open_mode \<Rightarrow> handle io" where
  "os_OpenFile p m = sys (\<lambda>w.
     case walk (files w) [] p of
       Found n \<Rightarrow> open_existing p m n w
     | Missing \<Rightarrow>
         (case m of
            O_CREATE_EXCL perm \<Rightarrow> new_file p perm w
          | O_CREATE_TRUNC perm \<Rightarrow> new_file p perm w
          | _ \<Rightarrow> throw (os_err ErrNotExist) w)
     | NotDir \<Rightarrow> throw (os_err ENOTDIR) w
     | Through \<Rightarrow> followed p w)"

definition os_Open :: "path \<Rightarrow> handle io" where
  "os_Open p = os_OpenFile p O_RDONLY"

text \<open>\<open>os.CreateTemp\<close> draws names until one is free and gives up after ten thousand attempts; \<open>tmp_name\<close> is
  the last name it draws.\<close>

definition os_CreateTemp :: "path \<Rightarrow> path io" where
  "os_CreateTemp dir = sys (\<lambda>w.
     let p = dir @ [''.tethux-'' @ tmp_name w (ticks w)] in
     if mget (files w) p \<noteq> None then throw (os_err ErrExist) w
     else bnd (create_node p (File 384 [] (now w))) (\<lambda>_. ret p) w)"

fun chmod_node :: "nat \<Rightarrow> node \<Rightarrow> node" where
  "chmod_node perm (Dir _) = Dir perm"
| "chmod_node perm (File _ c t) = File perm c t"
| "chmod_node perm n = n"

definition os_Chmod :: "path \<Rightarrow> nat \<Rightarrow> unit io" where
  "os_Chmod p perm = sys (at_node p (\<lambda>n.
     if n = Symlink then bnd (away p) (\<lambda>_. ret ()) else set_node p (chmod_node perm n)))"

definition file_Chmod :: "path \<Rightarrow> nat \<Rightarrow> unit io" where
  "file_Chmod p perm = sys (at_node p (\<lambda>n. set_node p (chmod_node perm n)))"

definition file_Sync :: "unit io" where
  "file_Sync = sys (ret ())"

definition file_Close :: "unit io" where
  "file_Close = sys (ret ())"

definition append_bytes :: "handle \<Rightarrow> content \<Rightarrow> world \<Rightarrow> world" where
  "append_bytes h bs w =
     (case h of
        Away _ \<Rightarrow> w
      | At p \<Rightarrow> (case mget (files w) p of
            Some (File pm c t) \<Rightarrow> w\<lparr>files := mput p (File pm (c @ bs) (now w)) (files w)\<rparr>
          | _ \<Rightarrow> w))"

text \<open>\<open>Write\<close> reports how many bytes it has written and an error if these are not all.\<close>

definition file_Write :: "handle \<Rightarrow> content \<Rightarrow> (nat \<times> gerror option) io" where
  "file_Write h bs w =
     (let n = ticks w; w = w\<lparr>ticks := n + 1\<rparr>
      in case fault w n of
           Some (k, e) \<Rightarrow>
             (let k = min k (length bs) in (Ok (k, Some e), append_bytes h (take k bs) w))
         | None \<Rightarrow> (Ok (length bs, None), append_bytes h bs w))"

definition os_Remove :: "path \<Rightarrow> unit io" where
  "os_Remove p = sys (at_node p (\<lambda>n w.
     case n of
       Dir _ \<Rightarrow>
         if children (files w) p \<noteq> [] \<or> p = [] then throw (os_err ENOTEMPTY) w
         else modify (\<lambda>w. w\<lparr>files := mdel p (files w)\<rparr>) w
     | _ \<Rightarrow> modify (\<lambda>w. w\<lparr>files := mdel p (files w)\<rparr>) w))"

definition os_RemoveAll :: "path \<Rightarrow> unit io" where
  "os_RemoveAll p = sys (\<lambda>w.
     case walk (files w) [] p of
       Through \<Rightarrow> followed p w
     | NotDir \<Rightarrow> throw (os_err ENOTDIR) w
     | _ \<Rightarrow> if p = [] then throw (os_err EINVAL) w
            else modify (\<lambda>w. w\<lparr>files := filter (\<lambda>(q, _). \<not> prefix p q) (files w)\<rparr>) w)"

definition moved :: "path \<Rightarrow> path \<Rightarrow> path \<Rightarrow> path" where
  "moved old new q = (if prefix old q then new @ drop (length old) q else q)"

definition relocate :: "path \<Rightarrow> path \<Rightarrow> fsys \<Rightarrow> fsys" where
  "relocate old new fs = map (\<lambda>(q, n). (moved old new q, n)) (mdel new fs)"

fun is_dir :: "node \<Rightarrow> bool" where
  "is_dir (Dir _) = True"
| "is_dir _ = False"

text \<open>Which replacements \<open>rename\<close> refuses.\<close>

definition rename_refused :: "fsys \<Rightarrow> path \<Rightarrow> path \<Rightarrow> node \<Rightarrow> node option \<Rightarrow> gerror option" where
  "rename_refused fs old new src dst =
     (case dst of
        None \<Rightarrow> None
      | Some d \<Rightarrow>
          if is_dir d \<and> \<not> is_dir src then Some (os_err ErrExist)
          else if \<not> is_dir d \<and> is_dir src then Some (os_err ENOTDIR)
          else if is_dir d \<and> children fs new \<noteq> [] then Some (os_err ENOTEMPTY)
          else None)"

definition os_Rename :: "path \<Rightarrow> path \<Rightarrow> unit io" where
  "os_Rename old new = sys (at_node old (\<lambda>src.
     at_node (butlast new) (\<lambda>parent w.
       case parent of
         Symlink \<Rightarrow> followed new w
       | Dir _ \<Rightarrow>
           if old = new then ret () w
           else if prefix old new \<or> old = [] \<or> new = [] then throw (os_err EINVAL) w
           else case rename_refused (files w) old new src (mget (files w) new) of
             Some e \<Rightarrow> throw e w
           | None \<Rightarrow> modify (\<lambda>w. w\<lparr>files := relocate old new (files w)\<rparr>) w
       | _ \<Rightarrow> throw (os_err ENOTDIR) w)))"

section \<open>Readers\<close>

text \<open>
  A reader is what a \<open>Read\<close> into the 128 KiB buffer of \<open>copyContext\<close> finds: either the answers of a
  caller's reader, in order (then the end of the input), or an open file at an offset, read as
  it is at that moment.
\<close>

datatype reader = Script "(content \<times> gerror option) list" | Reading handle nat

definition copyBuf :: nat where
  "copyBuf = 128 * 1024"

definition reader_Read :: "reader \<Rightarrow> ((content \<times> gerror option) \<times> reader) io" where
  "reader_Read r =
     (case r of
        Script [] \<Rightarrow> ret (([], Some (os_err IoEOF)), r)
      | Script (x # xs) \<Rightarrow> ret (x, Script xs)
      | Reading h off \<Rightarrow>
          (\<lambda>w. let n = ticks w; w = w\<lparr>ticks := n + 1\<rparr>
               in case fault w n of
                 Some (_, e) \<Rightarrow> (Ok (([], Some e), r), w)
               | None \<Rightarrow>
                   (case h of
                      Away _ \<Rightarrow> (Ok (([], Some (os_err IoEOF)), r), w)
                    | At p \<Rightarrow>
                        (case mget (files w) p of
                           Some (File _ c _) \<Rightarrow>
                             (let bs = take copyBuf (drop off c)
                              in if bs = [] then (Ok (([], Some (os_err IoEOF)), r), w)
                                 else (Ok ((bs, None), Reading h (off + length bs)), w))
                         | _ \<Rightarrow> (Ok (([], Some (os_err EISDIR)), r), w)))))"

end
