(* ===== verification/Storage_Local.thy ===== *)
theory Storage_Local
  imports Storage_FS Storage_Operation
begin

text \<open>
  The local storage provider (\<open>storage/local/local.go\<close>): one definition per method, in the order
  of the file, over the file system of \<open>Storage_FS\<close>. A path is the list of its components below
  the provider's root; \<open>fullPath\<close> is the string the code handles. The dirty table and the event
  subscribers, which the code guards with the provider's mutex, are fields of the state.
\<close>

section \<open>Paths\<close>

text \<open>\<open>filepath.Clean\<close> on the components of a relative path (\<open>st\<close> is the result so far, reversed).\<close>

fun cleanLoop :: "string list \<Rightarrow> string list \<Rightarrow> string list" where
  "cleanLoop st [] = rev st"
| "cleanLoop st (c # cs) =
     (if c = '''' \<or> c = ''.'' then cleanLoop st cs
      else if c = ''..'' then
        (case st of
           [] \<Rightarrow> cleanLoop [''..''] cs
         | t # ts \<Rightarrow> if t = ''..'' then cleanLoop (''..'' # st) cs else cleanLoop ts cs)
      else cleanLoop (c # st) cs)"

definition filepath_Clean :: "string \<Rightarrow> string list" where
  "filepath_Clean key = cleanLoop [] (splitAt CHR ''/'' key)"

definition filepath_IsAbs :: "string \<Rightarrow> bool" where
  "filepath_IsAbs key \<longleftrightarrow> (case key of [] \<Rightarrow> False | c # _ \<Rightarrow> c = CHR ''/'')"

fun cleanAbs :: "string list \<Rightarrow> string list \<Rightarrow> string list" where
  "cleanAbs st [] = rev st"
| "cleanAbs st (c # cs) =
     (if c = '''' \<or> c = ''.'' then cleanAbs st cs
      else if c = ''..'' then cleanAbs (case st of [] \<Rightarrow> [] | _ # ts \<Rightarrow> ts) cs
      else cleanAbs (c # st) cs)"

definition abs_string :: "string list \<Rightarrow> string" where
  "abs_string cs = CHR ''/'' # joinSep ''/'' cs"

definition filepath_Abs :: "gerror + string \<Rightarrow> string \<Rightarrow> gerror + string" where
  "filepath_Abs wd rootDir =
     (if filepath_IsAbs rootDir then Inr (abs_string (cleanAbs [] (splitAt CHR ''/'' rootDir)))
      else case wd of
        Inl e \<Rightarrow> Inl e
      | Inr d \<Rightarrow> Inr (abs_string (cleanAbs [] (splitAt CHR ''/'' d @ splitAt CHR ''/'' rootDir))))"

text \<open>\<open>filepath.Clean\<close> on a whole path, absolute or not.\<close>

definition path_Clean :: "string \<Rightarrow> string" where
  "path_Clean p =
     (if filepath_IsAbs p then abs_string (cleanAbs [] (splitAt CHR ''/'' p))
      else case filepath_Clean p of [] \<Rightarrow> ''.'' | cs \<Rightarrow> joinSep ''/'' cs)"

text \<open>\<open>filepath.Rel\<close> on two lists of components of absolute paths.\<close>

fun filepath_Rel :: "string list \<Rightarrow> string list \<Rightarrow> string list" where
  "filepath_Rel (b # bs) (t # ts) =
     (if b = t then filepath_Rel bs ts else replicate (length (b # bs)) ''..'' @ t # ts)"
| "filepath_Rel bs ts = replicate (length bs) ''..'' @ ts"

text \<open>\<open>filepath.Ext\<close>: from the last dot of the last component on.\<close>

definition filepath_Ext :: "string \<Rightarrow> string" where
  "filepath_Ext name =
     (if CHR ''.'' \<in> set name
      then CHR ''.'' # rev (takeWhile (\<lambda>c. c \<noteq> CHR ''.'') (rev name)) else '''')"

section \<open>Construction\<close>

definition DefaultName :: ProviderName where
  "DefaultName = ''local''"

record Provider =
  prov_name :: ProviderName
  prov_root :: string

type_synonym Option = "Provider \<Rightarrow> Provider"

definition WithName :: "ProviderName \<Rightarrow> Option" where
  "WithName name p = p\<lparr>prov_name := name\<rparr>"

text \<open>\<open>os.MkdirAll\<close> on the root itself; that its parents cannot be made is a failure of the environment.
  The tree is the one beneath the directory to which the root's path leads, over links if there are
  any; a link as the root itself is one that leads nowhere, on which \<open>Mkdir\<close> fails.\<close>

definition makeRoot :: "unit io" where
  "makeRoot = sys (\<lambda>w. case mget (files w) [] of
      None \<Rightarrow> set_node [] (Dir 488) w
    | Some (Dir _) \<Rightarrow> ret () w
    | Some Symlink \<Rightarrow> throw (os_err ErrExist) w
    | Some _ \<Rightarrow> throw (os_err ENOTDIR) w)"

definition New :: "gerror + string \<Rightarrow> string \<Rightarrow> Option list \<Rightarrow> Provider io" where
  "New wd rootDir opts =
     (if rootDir = '''' then throw (storage_New DefaultName storage_kind.ErrInvalidOptions ''root is empty'')
      else case filepath_Abs wd rootDir of
        Inl e \<Rightarrow> throw (storage_Wrap DefaultName storage_kind.ErrInvalidOptions ''root'' (Some e))
      | Inr absDir \<Rightarrow>
          bnd (wrapErr (\<lambda>e. storage_Wrap DefaultName ErrCreate absDir (Some e)) makeRoot) (\<lambda>_.
          let p = fold (\<lambda>opt p. opt p) opts \<lparr>prov_name = DefaultName, prov_root = absDir\<rparr> in
          if prov_name p = '''' then
            throw (storage_New DefaultName storage_kind.ErrInvalidOptions ''provider name is empty'')
          else ret p))"

definition Info :: "Provider \<Rightarrow> ProviderInfo" where
  "Info p = \<lparr>pi_Name = prov_name p,
             pi_Capabilities = \<lparr>AtomicReplace = True, AtomicMove = True, ConditionalWrite = False\<rparr>\<rparr>"

definition fullPath :: "Provider \<Rightarrow> path \<Rightarrow> string" where
  "fullPath p cs =
     (if cs = [] then prov_root p
      else if prov_root p = ''/'' then CHR ''/'' # joinSep ''/'' cs
      else prov_root p @ ''/'' @ joinSep ''/'' cs)"

section \<open>From references to paths\<close>

definition nameErr :: "Provider \<Rightarrow> storage_kind \<Rightarrow> string \<Rightarrow> gerror" where
  "nameErr p k target = storage_New (prov_name p) k target"

definition wrapAs :: "Provider \<Rightarrow> storage_kind \<Rightarrow> string \<Rightarrow> gerror \<Rightarrow> gerror" where
  "wrapAs p k target e = storage_Wrap (prov_name p) k target (Some e)"

definition notFoundOr :: "Provider \<Rightarrow> storage_kind \<Rightarrow> string \<Rightarrow> gerror \<Rightarrow> gerror" where
  "notFoundOr p k target e =
     (if errors_Is e (OS ErrNotExist) then wrapAs p storage_kind.ErrNotFound target e else wrapAs p k target e)"

fun checkComponents :: "Provider \<Rightarrow> Key \<Rightarrow> path \<Rightarrow> path \<Rightarrow> unit io" where
  "checkComponents p key current [] = ret ()"
| "checkComponents p key current (c # cs) =
     bnd (attempt (os_Lstat (current @ [c]))) (\<lambda>r.
       case r of
         Inl e \<Rightarrow>
           if errors_Is e (OS ErrNotExist) then ret ()
           else throw (wrapAs p ErrStat (fullPath p (current @ [c])) e)
       | Inr info \<Rightarrow>
           if fi_kind info = KSymlink then throw (nameErr p ErrInvalidRef key)
           else checkComponents p key (current @ [c]) cs)"

definition escapes :: "string list \<Rightarrow> bool" where
  "escapes cs \<longleftrightarrow> (case cs of [] \<Rightarrow> False | c # _ \<Rightarrow> c = ''..'')"

definition root_comps :: "Provider \<Rightarrow> string list" where
  "root_comps p = cleanAbs [] (splitAt CHR ''/'' (prov_root p))"

definition pathFor :: "Provider \<Rightarrow> Ref \<Rightarrow> path io" where
  "pathFor p ref =
     bnd (check (Ref_Validate ref)) (\<lambda>_.
     if ref_Provider ref \<noteq> prov_name p then throw (nameErr p ErrProviderMismatch (ref_Provider ref))
     else if filepath_IsAbs (ref_Key ref) then throw (nameErr p ErrInvalidRef (ref_Key ref))
     else
       let clean = filepath_Clean (ref_Key ref) in
       if clean = [] then throw (nameErr p ErrInvalidRef (ref_Key ref))
       else if escapes clean then throw (nameErr p ErrInvalidRef (ref_Key ref))
       else
         let full = root_comps p @ clean; rel = filepath_Rel (root_comps p) full in
         if escapes rel then throw (nameErr p ErrInvalidRef (ref_Key ref))
         else bnd (checkComponents p (ref_Key ref) [] clean) (\<lambda>_. ret clean))"

section \<open>Reading\<close>

definition objectType :: "FileInfo \<Rightarrow> ObjectType" where
  "objectType info =
     (case fi_kind info of KRegular \<Rightarrow> ObjectFile | KDir \<Rightarrow> ObjectDir | _ \<Rightarrow> ObjectUnknown)"

definition generationOf :: "FileInfo \<Rightarrow> Generation" where
  "generationOf info =
     (if fi_kind info = KRegular then show_int (fi_mtime info) @ '':'' @ show_nat (fi_size info) else '''')"

definition Stat :: "Provider \<Rightarrow> Ref \<Rightarrow> ObjectInfo io" where
  "Stat p ref =
     bnd ctx_Err (\<lambda>_.
     bnd (pathFor p ref) (\<lambda>path.
     bnd (wrapErr (notFoundOr p ErrStat (Ref_String ref)) (os_Stat path)) (\<lambda>info.
     gets (\<lambda>w. \<lparr>oi_Ref = ref, oi_Type = objectType info, oi_Size = fi_size info,
                oi_ModTime = fi_mtime info, oi_Generation = generationOf info,
                oi_ContentType = mime w (filepath_Ext (last path)),
                oi_Metadata = [], oi_Kind = ArtifactGeneric\<rparr>))))"

definition Open :: "Provider \<Rightarrow> Ref \<Rightarrow> handle io" where
  "Open p ref =
     bnd ctx_Err (\<lambda>_.
     bnd (pathFor p ref) (\<lambda>path.
     wrapErr (wrapAs p ErrOpen (Ref_String ref)) (os_Open path)))"

section \<open>Copying bytes\<close>

text \<open>
  Every pass of \<open>copyContext\<close> takes one answer of a scripted reader or at least one byte of a
  file; \<open>readerFuel\<close> passes are enough (\<open>copyLoop_fuel\<close>).
\<close>

definition writeChunk :: "handle \<Rightarrow> content \<Rightarrow> nat \<Rightarrow> nat io" where
  "writeChunk dst bs written =
     (if bs = [] then ret written
      else bnd (file_Write dst bs) (\<lambda>(wn, writeErr).
        case writeErr of
          Some e \<Rightarrow> throw e
        | None \<Rightarrow> if wn \<noteq> length bs then throw (os_err ErrShortWrite) else ret (written + wn)))"

fun copyLoop :: "nat \<Rightarrow> handle \<Rightarrow> reader \<Rightarrow> nat \<Rightarrow> nat io" where
  "copyLoop 0 dst r written = (\<lambda>w. (Diverges, w))"
| "copyLoop (Suc n) dst r written =
     bnd ctx_Err (\<lambda>_.
     bnd (reader_Read r) (\<lambda>((bs, readErr), r).
     bnd (writeChunk dst bs written) (\<lambda>written.
     case readErr of
       Some e \<Rightarrow> if errors_Is e (OS IoEOF) then ret written else throw e
     | None \<Rightarrow> copyLoop n dst r written)))"

definition readerFuel :: "reader \<Rightarrow> world \<Rightarrow> nat" where
  "readerFuel r w =
     (case r of
        Script xs \<Rightarrow> Suc (length xs)
      | Reading (Away _) _ \<Rightarrow> 1
      | Reading (At p) off \<Rightarrow>
          (case mget (files w) p of Some (File _ c _) \<Rightarrow> Suc (length c - off) | _ \<Rightarrow> 1))"

definition copyContext :: "handle \<Rightarrow> reader \<Rightarrow> nat io" where
  "copyContext dst r w = copyLoop (readerFuel r w) dst r 0 w"

section \<open>Put\<close>

definition put_refused :: "PutOptions \<Rightarrow> string option" where
  "put_refused opts =
     (if put_ExpectedGeneration opts \<noteq> '''' \<or> put_IfNotExists opts then
        Some ''conditional writes are not supported''
      else if put_ContentType opts \<noteq> '''' \<or> put_Metadata opts \<noteq> [] \<or> put_Kind opts \<noteq> '''' then
        Some ''object metadata is not supported''
      else None)"

definition cleanup :: "path \<Rightarrow> gerror option io" where
  "cleanup tmp =
     bnd (attempt file_Close) (\<lambda>c.
     bnd (attempt (os_Remove tmp)) (\<lambda>r.
     ret (errors_Join [failed c, failed r])))"

definition removeTmp :: "path \<Rightarrow> gerror option io" where
  "removeTmp tmp = bnd (attempt (os_Remove tmp)) (\<lambda>r. ret (failed r))"

text \<open>Run a step; if it fails, clean up and report both errors.\<close>

definition orCleanup :: "(gerror \<Rightarrow> gerror) \<Rightarrow> gerror option io \<Rightarrow> 'a io \<Rightarrow> 'a io" where
  "orCleanup wrap clean m =
     bnd (attempt m) (\<lambda>r.
     case r of
       Inr x \<Rightarrow> ret x
     | Inl e \<Rightarrow> bnd clean (\<lambda>c. throw (wrap (the_join [Some e, c]))))"

definition putMode :: "PutOptions \<Rightarrow> nat" where
  "putMode opts = (if put_Mode opts = 0 then 420 else put_Mode opts)"

definition Put :: "Provider \<Rightarrow> Ref \<Rightarrow> reader option \<Rightarrow> PutOptions \<Rightarrow> unit io" where
  "Put p ref r opts =
     (let fail = wrapAs p ErrPut (Ref_String ref); create = wrapAs p ErrCreate (Ref_String ref) in
     bnd ctx_Err (\<lambda>_.
     case r of
       None \<Rightarrow> throw (nameErr p storage_kind.ErrInvalidOptions ''input reader is nil'')
     | Some r \<Rightarrow>
     bnd (check (map_option (nameErr p storage_kind.ErrInvalidOptions) (put_refused opts))) (\<lambda>_.
     bnd (pathFor p ref) (\<lambda>path.
     bnd (wrapErr create (os_MkdirAll (butlast path) 488)) (\<lambda>_.
     bnd (wrapErr create (os_CreateTemp (butlast path))) (\<lambda>tmp.
     bnd (orCleanup fail (cleanup tmp) (file_Chmod tmp (putMode opts))) (\<lambda>_.
     bnd (orCleanup fail (cleanup tmp) (copyContext (At tmp) r)) (\<lambda>_.
     bnd (orCleanup fail (cleanup tmp) file_Sync) (\<lambda>_.
     bnd (orCleanup fail (removeTmp tmp) file_Close) (\<lambda>_.
     orCleanup fail (removeTmp tmp) (os_Rename tmp path)))))))))))"

section \<open>Delete and List\<close>

definition Delete :: "Provider \<Rightarrow> Ref \<Rightarrow> unit io" where
  "Delete p ref =
     bnd ctx_Err (\<lambda>_.
     bnd (pathFor p ref) (\<lambda>path.
     bnd (attempt (os_Remove path)) (\<lambda>r.
     case r of
       Inr _ \<Rightarrow> ret ()
     | Inl e \<Rightarrow>
         if errors_Is e (OS ErrNotExist) then ret ()
         else throw (wrapAs p ErrDelete (Ref_String ref) e))))"

definition objectInfoFromFileInfo :: "ProviderName \<Rightarrow> Key \<Rightarrow> FileInfo \<Rightarrow> ObjectInfo" where
  "objectInfoFromFileInfo provider key info =
     \<lparr>oi_Ref = \<lparr>ref_Provider = provider, ref_Key = key\<rparr>, oi_Type = objectType info,
      oi_Size = fi_size info, oi_ModTime = fi_mtime info, oi_Generation = generationOf info,
      oi_ContentType = '''', oi_Metadata = [], oi_Kind = ''''\<rparr>"

primrec concatIO :: "('a \<Rightarrow> 'b list io) \<Rightarrow> 'a list \<Rightarrow> 'b list io" where
  "concatIO f [] = ret []"
| "concatIO f (x # xs) = bnd (f x) (\<lambda>ys. bnd (concatIO f xs) (\<lambda>zs. ret (ys @ zs)))"

definition listDirect :: "Provider \<Rightarrow> Ref \<Rightarrow> path \<Rightarrow> ObjectInfo list io" where
  "listDirect p pre path =
     bnd (wrapErr (wrapAs p ErrList (Ref_String pre)) (os_ReadDir path)) (\<lambda>entries.
     concatIO (\<lambda>name.
       bnd ctx_Err (\<lambda>_.
       bnd (wrapErr (wrapAs p ErrList name) (os_Lstat (path @ [name]))) (\<lambda>info.
       ret [objectInfoFromFileInfo (prov_name p)
              (joinSep ''/'' (filepath_Clean (ref_Key pre) @ [name])) info])))
       entries)"

text \<open>
  The part of \<open>filepath.WalkDir\<close> below a directory: children in lexical order, each visited
  before its own children. The nesting depth is bounded by the number of objects.
\<close>

primrec walkDir :: "nat \<Rightarrow> Provider \<Rightarrow> path \<Rightarrow> ObjectInfo list io" where
  "walkDir 0 p dir = (\<lambda>w. (Diverges, w))"
| "walkDir (Suc n) p dir =
     bnd (os_ReadDir dir) (\<lambda>entries.
     bnd (gets (\<lambda>w. filter (\<lambda>name. case mget (files w) (dir @ [name]) of
                         Some (Dir _) \<Rightarrow> True | _ \<Rightarrow> False) entries)) (\<lambda>dirs.
     concatIO (\<lambda>name.
       bnd ctx_Err (\<lambda>_.
       bnd (os_Lstat (dir @ [name])) (\<lambda>info.
       let oi = objectInfoFromFileInfo (prov_name p) (joinSep ''/'' (dir @ [name])) info in
       if name \<in> set dirs then bnd (walkDir n p (dir @ [name])) (\<lambda>rest. ret (oi # rest))
       else ret [oi])))
       entries))"

definition listRecursive :: "Provider \<Rightarrow> Ref \<Rightarrow> path \<Rightarrow> ObjectInfo list io" where
  "listRecursive p pre base =
     wrapErr (wrapAs p ErrList (Ref_String pre))
       (bnd (os_Lstat base) (\<lambda>info.
        bnd ctx_Err (\<lambda>_.
        if fi_kind info = KDir
        then (\<lambda>w. walkDir (Suc (length (files w))) p base w)
        else ret [])))"

definition List_objects :: "Provider \<Rightarrow> Ref \<Rightarrow> ListOptions \<Rightarrow> ObjectInfo list io" where
  "List_objects p pre opts =
     bnd ctx_Err (\<lambda>_.
     bnd (pathFor p pre) (\<lambda>path.
     if list_Recursive opts then listRecursive p pre path else listDirect p pre path))"

section \<open>Events\<close>

definition subscriptionCap :: nat where
  "subscriptionCap = 16"

definition prov_emit :: "StorageEvent \<Rightarrow> unit io" where
  "prov_emit e = modify (\<lambda>w. w\<lparr>subs :=
     map (\<lambda>(i, s). (i, if length (sub_queue s) < subscriptionCap
                        then s\<lparr>sub_queue := sub_queue s @ [e]\<rparr> else s)) (subs w)\<rparr>)"

definition prov_Events :: "(64 word) io" where
  "prov_Events =
     bnd ctx_Err (\<lambda>_ w.
       let i = nextSubID w;
           s = \<lparr>sub_queue = [], sub_held = None, sub_out = [], sub_received = 0\<rparr>
       in (Ok i, w\<lparr>nextSubID := i + 1, subs := mput i s (subs w)\<rparr>))"

text \<open>
  The goroutine of a subscription: it takes an event from the provider's channel, sends it on the
  caller's channel when there is room, and leaves when the caller's context ends.
\<close>

definition sub_take :: "64 word \<Rightarrow> world \<Rightarrow> world option" where
  "sub_take i w =
     (case mget (subs w) i of
        None \<Rightarrow> None
      | Some s \<Rightarrow>
          (case (sub_held s, sub_queue s) of
             (None, e # es) \<Rightarrow> Some (w\<lparr>subs := mput i (s\<lparr>sub_queue := es, sub_held := Some e\<rparr>) (subs w)\<rparr>)
           | _ \<Rightarrow> None))"

definition sub_deliver :: "64 word \<Rightarrow> world \<Rightarrow> world option" where
  "sub_deliver i w =
     (case mget (subs w) i of
        None \<Rightarrow> None
      | Some s \<Rightarrow>
          (case sub_held s of
             None \<Rightarrow> None
           | Some e \<Rightarrow>
               if length (sub_out s) - sub_received s < subscriptionCap
               then Some (w\<lparr>subs := mput i (s\<lparr>sub_held := None, sub_out := sub_out s @ [e]\<rparr>) (subs w)\<rparr>)
               else None))"

definition sub_quit :: "64 word \<Rightarrow> world \<Rightarrow> world" where
  "sub_quit i w = w\<lparr>subs := mdel i (subs w)\<rparr>"

section \<open>Preparing\<close>

definition validateResourceType :: "ResourceType \<Rightarrow> FileInfo \<Rightarrow> gerror option" where
  "validateResourceType rt info =
     (if rt = '''' then None
      else if rt = ResourceTypeFile then
        (if fi_kind info \<noteq> KRegular
         then Some (storage_New DefaultName ErrInvalidResourceType ''expected regular file'') else None)
      else if rt = ResourceTypeDirectory then
        (if fi_kind info \<noteq> KDir
         then Some (storage_New DefaultName ErrInvalidResourceType ''expected directory'') else None)
      else Some (storage_New DefaultName ErrInvalidResourceType rt))"

definition createResource :: "Provider \<Rightarrow> PrepareRequest \<Rightarrow> path \<Rightarrow> unit io" where
  "createResource p req path =
     (let create = wrapAs p ErrCreate (Ref_String (req_Ref req)) in
      if req_ResourceType req = ResourceTypeDirectory then wrapErr create (os_MkdirAll path 488)
      else if req_ResourceType req = ResourceTypeFile then
        bnd (wrapErr create (os_MkdirAll (butlast path) 488)) (\<lambda>_.
        bnd (wrapErr create (os_OpenFile path (O_CREATE_EXCL 384))) (\<lambda>_.
        wrapErr create file_Close))
      else throw (nameErr p ErrInvalidResourceType (Ref_String (req_Ref req))))"

definition statOrCreate :: "Provider \<Rightarrow> PrepareRequest \<Rightarrow> path \<Rightarrow> FileInfo io" where
  "statOrCreate p req path =
     (let target = Ref_String (req_Ref req) in
      bnd (attempt (os_Stat path)) (\<lambda>r.
      case r of
        Inr info \<Rightarrow> ret info
      | Inl e \<Rightarrow>
          if \<not> errors_Is e (OS ErrNotExist) then throw (wrapAs p ErrStat target e)
          else if \<not> req_Create req then throw (wrapAs p storage_kind.ErrNotFound target e)
          else
            bnd (createResource p req path) (\<lambda>_.
            wrapErr (wrapAs p ErrStat target) (os_Stat path))))"

definition inferResourceType :: "Provider \<Rightarrow> PrepareRequest \<Rightarrow> FileInfo \<Rightarrow> ResourceType io" where
  "inferResourceType p req info =
     (if req_ResourceType req \<noteq> '''' then ret (req_ResourceType req)
      else case fi_kind info of
        KRegular \<Rightarrow> ret ResourceTypeFile
      | KDir \<Rightarrow> ret ResourceTypeDirectory
      | _ \<Rightarrow> throw (nameErr p ErrInvalidResourceType (Ref_String (req_Ref req))))"

definition newUUID :: "string io" where
  "newUUID w = (Ok (uuid w (ticks w)), w\<lparr>ticks := ticks w + 1\<rparr>)"

definition prepared_event :: "StorageEventType \<Rightarrow> Prepared \<Rightarrow> Generation \<Rightarrow> StorageEvent" where
  "prepared_event t pr gen =
     (blank_event t)\<lparr>sev_PreparedID := pr_ID pr, sev_NodeID := pr_NodeID pr,
                     sev_Ref := Some (pr_Ref pr), sev_Generation := gen\<rparr>"

definition Prepare :: "Provider \<Rightarrow> PrepareRequest \<Rightarrow> Prepared io" where
  "Prepare p req =
     bnd ctx_Err (\<lambda>_.
     let mode = (if req_Mode req = '''' then PrepareDirect else req_Mode req) in
     if mode \<noteq> PrepareDirect then throw (nameErr p storage_kind.ErrUnsupportedMode mode)
     else
       bnd (pathFor p (req_Ref req)) (\<lambda>path.
       bnd (statOrCreate p req path) (\<lambda>info.
       bnd (check (map_option (wrapAs p ErrInvalidResourceType (Ref_String (req_Ref req)))
                    (validateResourceType (req_ResourceType req) info))) (\<lambda>_.
       bnd (inferResourceType p req info) (\<lambda>rt.
       bnd (Stat p (req_Ref req)) (\<lambda>oi.
       bnd newUUID (\<lambda>i.
       let pr = \<lparr>pr_ID = i, pr_Ref = req_Ref req, pr_BaseGeneration = oi_Generation oi,
                 pr_NodeID = req_NodeID req, pr_AccessMode = req_AccessMode req, pr_Mode = mode,
                 pr_ResourceType = rt, pr_Ownership = OwnershipExternal,
                 pr_Location = \<lparr>loc_Kind = LocationPath, loc_Value = fullPath p path\<rparr>\<rparr> in
       bnd (prov_emit (prepared_event EventPrepared pr (pr_BaseGeneration pr))) (\<lambda>_.
       ret pr))))))))"

definition checkOwner :: "Provider \<Rightarrow> Prepared option \<Rightarrow> Prepared io" where
  "checkOwner p pr =
     (case pr of
        None \<Rightarrow> throw (nameErr p storage_kind.ErrInvalidOptions ''prepared storage is nil'')
      | Some pr \<Rightarrow>
          if ref_Provider (pr_Ref pr) \<noteq> prov_name p
          then throw (nameErr p ErrProviderMismatch (ref_Provider (pr_Ref pr))) else ret pr)"

definition MarkDirty :: "Provider \<Rightarrow> Prepared option \<Rightarrow> unit io" where
  "MarkDirty p prepared =
     bnd ctx_Err (\<lambda>_.
     bnd (checkOwner p prepared) (\<lambda>pr.
     if pr_AccessMode pr = AccessReadOnly then
       throw (nameErr p storage_kind.ErrInvalidOptions ''read-only prepared storage cannot be marked dirty'')
     else
       bnd (gets (\<lambda>w. mget (dirty w) (pr_ID pr) = Some True)) (\<lambda>alreadyDirty.
       bnd (modify (\<lambda>w. w\<lparr>dirty := mput (pr_ID pr) True (dirty w)\<rparr>)) (\<lambda>_.
       if alreadyDirty then ret () else prov_emit (prepared_event EventDirty pr '''')))))"

section \<open>Copying objects\<close>

definition closeBoth :: "gerror + nat \<Rightarrow> unit io" where
  "closeBoth cp =
     bnd (attempt file_Close) (\<lambda>dc.
     bnd (attempt file_Close) (\<lambda>sc.
     if failed cp \<noteq> None then throw (the_join [failed cp, failed dc, failed sc])
     else if failed dc \<noteq> None then throw (the_join [failed dc, failed sc])
     else check (failed sc)))"

definition copyOpened :: "path \<Rightarrow> nat \<Rightarrow> bool \<Rightarrow> handle \<Rightarrow> unit io" where
  "copyOpened dst perm overwrite srcFile =
     bnd (attempt (os_OpenFile dst (if overwrite then O_CREATE_TRUNC perm else O_CREATE_EXCL perm))) (\<lambda>r.
     case r of
       Inl openErr \<Rightarrow>
         bnd (attempt file_Close) (\<lambda>c.
         throw (case failed c of None \<Rightarrow> openErr | Some _ \<Rightarrow> the_join [Some openErr, failed c]))
     | Inr dstFile \<Rightarrow>
         bnd (attempt (copyContext dstFile (Reading srcFile 0))) (\<lambda>cp.
         bnd (closeBoth cp) (\<lambda>_.
         os_Chmod dst perm)))"

definition copyFile :: "path \<Rightarrow> path \<Rightarrow> bool \<Rightarrow> FileInfo \<Rightarrow> unit io" where
  "copyFile src dst overwrite info =
     bnd (os_MkdirAll (butlast dst) 488) (\<lambda>_.
     bnd (os_Open src) (copyOpened dst (fi_perm info) overwrite))"

primrec eachIO :: "('a \<Rightarrow> unit io) \<Rightarrow> 'a list \<Rightarrow> unit io" where
  "eachIO f [] = ret ()"
| "eachIO f (x # xs) = bnd (f x) (\<lambda>_. eachIO f xs)"

definition dstDirectory :: "Provider \<Rightarrow> path \<Rightarrow> bool \<Rightarrow> nat \<Rightarrow> unit io" where
  "dstDirectory p dst overwrite perm =
     bnd (attempt (os_Lstat dst)) (\<lambda>r.
     case r of
       Inr info \<Rightarrow>
         if fi_kind info \<noteq> KDir then throw (nameErr p ErrCopy (fullPath p dst))
         else if \<not> overwrite then throw (nameErr p ErrAlreadyExists (fullPath p dst))
         else ret ()
     | Inl e \<Rightarrow> if errors_Is e (OS ErrNotExist) then os_MkdirAll dst perm else throw e)"

text \<open>
  \<open>copyPath\<close> recurses into directories. The fuel is the nesting depth it may still descend;
  \<open>Copy\<close> supplies one more than there are objects, which is enough unless the destination lies
  inside the source (\<open>Copy_terminates\<close>, \<open>Copy_into_itself_diverges\<close>).
\<close>

primrec copyPath :: "nat \<Rightarrow> Provider \<Rightarrow> path \<Rightarrow> path \<Rightarrow> bool \<Rightarrow> unit io" where
  "copyPath 0 p src dst overwrite = (\<lambda>w. (Diverges, w))"
| "copyPath (Suc n) p src dst overwrite =
     bnd ctx_Err (\<lambda>_.
     bnd (os_Lstat src) (\<lambda>info.
     if fi_kind info = KSymlink then throw (nameErr p ErrCopy (fullPath p src))
     else if fi_kind info = KDir then
       bnd (dstDirectory p dst overwrite (fi_perm info)) (\<lambda>_.
       bnd (os_Chmod dst (fi_perm info)) (\<lambda>_.
       bnd (os_ReadDir src) (\<lambda>entries.
       eachIO (\<lambda>name. bnd ctx_Err (\<lambda>_. copyPath n p (src @ [name]) (dst @ [name]) overwrite)) entries)))
     else if fi_kind info \<noteq> KRegular then throw (nameErr p ErrCopy (fullPath p src))
     else copyFile src dst overwrite info))"

definition arrow :: "Ref \<Rightarrow> Ref \<Rightarrow> string" where
  "arrow src dst = Ref_String src @ '' -> '' @ Ref_String dst"

text \<open>The checks that \<open>Copy\<close> and \<open>Move\<close> make before they touch anything.\<close>

definition transferChecks ::
  "Provider \<Rightarrow> storage_kind \<Rightarrow> Ref \<Rightarrow> Ref \<Rightarrow> (path \<times> path \<times> FileInfo \<times> FileInfo option) io" where
  "transferChecks p kind src dst =
     bnd ctx_Err (\<lambda>_.
     if src = dst then throw (nameErr p ErrSourceEqualsDestination (Ref_String src))
     else
       bnd (pathFor p src) (\<lambda>srcPath.
       bnd (pathFor p dst) (\<lambda>dstPath.
       bnd (wrapErr (notFoundOr p kind (Ref_String src)) (os_Lstat srcPath)) (\<lambda>srcInfo.
       if fi_kind srcInfo = KSymlink then throw (nameErr p kind (arrow src dst))
       else
         bnd (attempt (os_Lstat dstPath)) (\<lambda>r.
         case r of
           Inr dstInfo \<Rightarrow> ret (srcPath, dstPath, srcInfo, Some dstInfo)
         | Inl e \<Rightarrow>
             if errors_Is e (OS ErrNotExist) then ret (srcPath, dstPath, srcInfo, None)
             else throw (wrapAs p kind (Ref_String dst) e))))))"

definition Copy :: "Provider \<Rightarrow> Ref \<Rightarrow> Ref \<Rightarrow> CopyOptions \<Rightarrow> unit io" where
  "Copy p src dst opts =
     bnd (transferChecks p ErrCopy src dst) (\<lambda>(srcPath, dstPath, srcInfo, dstInfo).
     bnd (check (case dstInfo of
            None \<Rightarrow> None
          | Some di \<Rightarrow>
              if \<not> copy_Overwrite opts then Some (nameErr p ErrAlreadyExists (Ref_String dst))
              else if (fi_kind srcInfo = KDir) \<noteq> (fi_kind di = KDir)
                then Some (nameErr p ErrCopy (arrow src dst))
              else if fi_kind srcInfo \<noteq> KDir \<and> (fi_kind srcInfo \<noteq> KRegular \<or> fi_kind di \<noteq> KRegular)
                then Some (nameErr p ErrCopy (arrow src dst))
              else None)) (\<lambda>_.
     wrapErr (wrapAs p ErrCopy (arrow src dst))
       (\<lambda>w. copyPath (Suc (length (files w))) p srcPath dstPath (copy_Overwrite opts) w)))"

section \<open>Moving objects\<close>

definition Move :: "Provider \<Rightarrow> Ref \<Rightarrow> Ref \<Rightarrow> MoveOptions \<Rightarrow> unit io" where
  "Move p src dst opts =
     bnd (transferChecks p ErrMove src dst) (\<lambda>(srcPath, dstPath, srcInfo, dstInfo).
     bnd (case dstInfo of
            None \<Rightarrow> ret ()
          | Some di \<Rightarrow>
              if \<not> move_Overwrite opts then throw (nameErr p ErrAlreadyExists (Ref_String dst))
              else if (fi_kind srcInfo = KDir) \<noteq> (fi_kind di = KDir)
                then throw (nameErr p ErrMove (arrow src dst))
              else wrapErr (wrapAs p ErrMove (Ref_String dst))
                     (if fi_kind di = KDir then os_RemoveAll dstPath else os_Remove dstPath)) (\<lambda>_.
     bnd (wrapErr (wrapAs p ErrMove (Ref_String dst)) (os_MkdirAll (butlast dstPath) 488)) (\<lambda>_.
     wrapErr (wrapAs p ErrMove (arrow src dst)) (os_Rename srcPath dstPath))))"

section \<open>Release and Commit\<close>

definition Release :: "Provider \<Rightarrow> Prepared option \<Rightarrow> unit io" where
  "Release p prepared =
     bnd ctx_Err (\<lambda>_.
     bnd (checkOwner p prepared) (\<lambda>pr.
     bnd (modify (\<lambda>w. w\<lparr>dirty := mdel (pr_ID pr) (dirty w)\<rparr>)) (\<lambda>_.
     prov_emit (prepared_event EventReleased pr ''''))))"

definition syncHandle :: "unit io" where
  "syncHandle =
     bnd (attempt file_Sync) (\<lambda>r.
     case r of
       Inr _ \<Rightarrow> file_Close
     | Inl e \<Rightarrow> bnd (attempt file_Close) (\<lambda>c. throw (the_join [Some e, failed c])))"

definition syncFile :: "path \<Rightarrow> unit io" where
  "syncFile path = bnd (os_OpenFile path O_WRONLY) (\<lambda>_. syncHandle)"

definition syncDirectory :: "path \<Rightarrow> unit io" where
  "syncDirectory path = bnd (os_Open path) (\<lambda>_. syncHandle)"

definition commitSync :: "Provider \<Rightarrow> Ref \<Rightarrow> path \<Rightarrow> FileInfo \<Rightarrow> DurabilityPolicy \<Rightarrow> unit io" where
  "commitSync p ref path info durability =
     (let put = wrapErr (wrapAs p ErrPut (Ref_String ref)) in
      if durability = '''' \<or> durability = DurabilityDefault \<or> durability = DurabilityNone then ret ()
      else if durability = DurabilityData then
        (if fi_kind info = KRegular then put (syncFile path) else ret ())
      else if durability = DurabilityFull then
        bnd (if fi_kind info = KRegular then put (syncFile path) else ret ()) (\<lambda>_.
        put (syncDirectory (butlast path)))
      else throw (nameErr p storage_kind.ErrInvalidOptions durability))"

definition Commit :: "Provider \<Rightarrow> Prepared option \<Rightarrow> CommitOptions \<Rightarrow> CommitResult io" where
  "Commit p prepared opts =
     bnd ctx_Err (\<lambda>_.
     bnd (checkOwner p prepared) (\<lambda>pr.
     let ref = pr_Ref pr in
     bnd (pathFor p ref) (\<lambda>path.
     bnd (wrapErr (notFoundOr p ErrStat (Ref_String ref)) (os_Lstat path)) (\<lambda>info.
     if fi_kind info = KSymlink then throw (nameErr p ErrInvalidRef (Ref_String ref))
     else
       bnd (if com_ExpectedGeneration opts = '''' then ret ()
            else bnd (Stat p ref) (\<lambda>current.
              if oi_Generation current \<noteq> com_ExpectedGeneration opts
              then throw (nameErr p ErrConflict (Ref_String ref)) else ret ())) (\<lambda>_.
       bnd (commitSync p ref path info (com_Durability opts)) (\<lambda>_.
       bnd (Stat p ref) (\<lambda>oi.
       bnd (modify (\<lambda>w. w\<lparr>dirty := mdel (pr_ID pr) (dirty w)\<rparr>)) (\<lambda>_.
       bnd (prov_emit (prepared_event EventCommitted pr (oi_Generation oi))) (\<lambda>_.
       ret \<lparr>com_Object = oi\<rparr>)))))))))"

section \<open>Asynchronous variants\<close>

text \<open>
  Each variant makes an operation and starts a goroutine. The worker runs the synchronous method
  with the operation's context (the answers \<open>ctx_err\<close> of the state) between \<open>start\<close> and \<open>finish\<close>;
  its value is \<open>None\<close> if it blocks on a subscriber.
\<close>

definition newOp :: "OperationType \<Rightarrow> Ref option \<Rightarrow> Ref option \<Rightarrow> operation io" where
  "newOp t src tgt = bnd ctx_Err (\<lambda>_. bnd newUUID (\<lambda>i. ret (newOperation i False t src tgt)))"

fun outcome_err :: "'a outcome \<Rightarrow> gerror option" where
  "outcome_err (Err e) = Some e"
| "outcome_err _ = None"

fun outcome_val :: "'a outcome \<Rightarrow> 'a option" where
  "outcome_val (Ok x) = Some x"
| "outcome_val _ = None"

definition asyncWorker ::
  "'a io \<Rightarrow> ('a outcome \<Rightarrow> operation \<Rightarrow> operation) \<Rightarrow> operation \<Rightarrow> world \<Rightarrow> (operation \<times> world) option" where
  "asyncWorker work record h w = do {
     h \<leftarrow> op_start h;
     case work w of
       (Diverges, _) \<Rightarrow> None
     | (r, w) \<Rightarrow> do {
         h \<leftarrow> op_finish (outcome_err r) (record r h);
         Some (h, w)
       }
   }"

definition PrepareAsync :: "PrepareRequest \<Rightarrow> operation io" where
  "PrepareAsync req = newOp OperationPrepare (Some (req_Ref req)) None"

definition PrepareAsync_worker :: "Provider \<Rightarrow> PrepareRequest \<Rightarrow> operation \<Rightarrow> world \<Rightarrow> (operation \<times> world) option" where
  "PrepareAsync_worker p req =
     asyncWorker (Prepare p req) (\<lambda>r h.
       let h = (case outcome_val r of Some pr \<Rightarrow> setPreparedID (pr_ID pr) h | None \<Rightarrow> h)
       in setPrepared (outcome_val r) (outcome_err r) h)"

definition CopyAsync :: "Ref \<Rightarrow> Ref \<Rightarrow> operation io" where
  "CopyAsync src dst = newOp OperationCopy (Some src) (Some dst)"

definition CopyAsync_worker ::
  "Provider \<Rightarrow> Ref \<Rightarrow> Ref \<Rightarrow> CopyOptions \<Rightarrow> operation \<Rightarrow> world \<Rightarrow> (operation \<times> world) option" where
  "CopyAsync_worker p src dst opts = asyncWorker (Copy p src dst opts) (\<lambda>_ h. h)"

definition MoveAsync :: "Ref \<Rightarrow> Ref \<Rightarrow> operation io" where
  "MoveAsync src dst = newOp OperationMove (Some src) (Some dst)"

definition MoveAsync_worker ::
  "Provider \<Rightarrow> Ref \<Rightarrow> Ref \<Rightarrow> MoveOptions \<Rightarrow> operation \<Rightarrow> world \<Rightarrow> (operation \<times> world) option" where
  "MoveAsync_worker p src dst opts = asyncWorker (Move p src dst opts) (\<lambda>_ h. h)"

definition DeleteAsync :: "Ref \<Rightarrow> operation io" where
  "DeleteAsync ref = newOp OperationDelete (Some ref) None"

definition DeleteAsync_worker :: "Provider \<Rightarrow> Ref \<Rightarrow> operation \<Rightarrow> world \<Rightarrow> (operation \<times> world) option" where
  "DeleteAsync_worker p ref = asyncWorker (Delete p ref) (\<lambda>_ h. h)"

definition needPrepared :: "Provider \<Rightarrow> Prepared option \<Rightarrow> OperationType \<Rightarrow> operation io" where
  "needPrepared p prepared t =
     bnd ctx_Err (\<lambda>_.
     case prepared of
       None \<Rightarrow> throw (nameErr p storage_kind.ErrInvalidOptions ''prepared storage is nil'')
     | Some pr \<Rightarrow>
         bnd newUUID (\<lambda>i. ret (setPreparedID (pr_ID pr) (newOperation i False t (Some (pr_Ref pr)) None))))"

definition ReleaseAsync :: "Provider \<Rightarrow> Prepared option \<Rightarrow> operation io" where
  "ReleaseAsync p prepared = needPrepared p prepared OperationRelease"

definition ReleaseAsync_worker :: "Provider \<Rightarrow> Prepared option \<Rightarrow> operation \<Rightarrow> world \<Rightarrow> (operation \<times> world) option" where
  "ReleaseAsync_worker p prepared = asyncWorker (Release p prepared) (\<lambda>_ h. h)"

definition CommitAsync :: "Provider \<Rightarrow> Prepared option \<Rightarrow> operation io" where
  "CommitAsync p prepared = needPrepared p prepared OperationCommit"

definition CommitAsync_worker ::
  "Provider \<Rightarrow> Prepared option \<Rightarrow> CommitOptions \<Rightarrow> operation \<Rightarrow> world \<Rightarrow> (operation \<times> world) option" where
  "CommitAsync_worker p prepared opts =
     asyncWorker (Commit p prepared opts) (\<lambda>r h. setCommitResult (outcome_val r) (outcome_err r) h)"

end
