(* ===== verification/Storage_FS_Facts.thy ===== *)
theory Storage_FS_Facts
  imports Storage_FS
begin

text \<open>
  Reasoning about computations over the file system. \<open>fs_wf\<close> is the invariant of the tree (every
  object lies in a directory). A triple \<open>ftriple c P m Q E\<close> says: started in an environment that
  does not lie about missing objects (and, if \<open>c\<close>, that lets no call fail) on files with \<open>P\<close>,
  the computation leaves files with \<open>Q\<close> when it returns and \<open>E\<close> when it fails, follows no
  symbolic link and leaves the environment as it is.
\<close>

section \<open>The tree\<close>

definition fs_wf :: "fsys \<Rightarrow> bool" where
  "fs_wf fs \<longleftrightarrow> mwf fs \<and> (\<exists>pm. mget fs [] = Some (Dir pm)) \<and>
     (\<forall>q x. mget fs (q @ [x]) \<noteq> None \<longrightarrow> (\<exists>pm. mget fs q = Some (Dir pm)))"

definition no_link :: "fsys \<Rightarrow> path \<Rightarrow> bool" where
  "no_link fs p \<longleftrightarrow> (\<forall>q. prefix q p \<longrightarrow> mget fs q \<noteq> Some Symlink)"

definition same_except :: "path set \<Rightarrow> fsys \<Rightarrow> fsys \<Rightarrow> bool" where
  "same_except S fs fs' \<longleftrightarrow> (\<forall>q. q \<notin> S \<longrightarrow> mget fs' q = mget fs q)"

lemma fs_wfD:
  "fs_wf fs \<Longrightarrow> mwf fs" "fs_wf fs \<Longrightarrow> \<exists>pm. mget fs [] = Some (Dir pm)"
  "fs_wf fs \<Longrightarrow> mget fs (q @ [x]) = Some n \<Longrightarrow> \<exists>pm. mget fs q = Some (Dir pm)"
  by (auto simp: fs_wf_def)

lemma wf_ancestor:
  "fs_wf fs \<Longrightarrow> mget fs (q @ r) = Some n \<Longrightarrow> r \<noteq> [] \<Longrightarrow> \<exists>pm. mget fs q = Some (Dir pm)"
proof (induction r arbitrary: n rule: rev_induct)
  case Nil
  then show ?case by simp
next
  case (snoc x r)
  from fs_wfD(3) [OF snoc.prems(1), of "q @ r" x n] snoc.prems(2)
  obtain pm where pm: "mget fs (q @ r) = Some (Dir pm)" by auto
  show ?case
    by (cases "r = []") (use pm snoc.IH [OF snoc.prems(1) pm] in auto)
qed

lemma wf_strict_prefix:
  "fs_wf fs \<Longrightarrow> mget fs p = Some n \<Longrightarrow> strict_prefix q p \<Longrightarrow> \<exists>pm. mget fs q = Some (Dir pm)"
  by (elim strict_prefixE') (auto intro: wf_ancestor)

lemma walk_Found: "walk fs cur rest = Found n \<Longrightarrow> mget fs (cur @ rest) = Some n"
  by (induction fs cur rest rule: walk.induct) (auto split: option.splits node.splits)

lemma walk_existing:
  assumes "fs_wf fs" "mget fs (cur @ rest) = Some n"
  shows "walk fs cur rest = Found n"
  using assms(2)
proof (induction rest arbitrary: cur)
  case Nil
  then show ?case by simp
next
  case (Cons c cs)
  from wf_ancestor [OF assms(1) Cons.prems] obtain pm where "mget fs cur = Some (Dir pm)" by auto
  with Cons.IH [of "cur @ [c]"] Cons.prems show ?case by simp
qed

lemma walk_Found_iff: "fs_wf fs \<Longrightarrow> walk fs [] p = Found n \<longleftrightarrow> mget fs p = Some n"
  using walk_Found [of fs "[]" p n] walk_existing [of fs "[]" p n] by auto

lemma walk_Through: "walk fs cur rest = Through \<Longrightarrow> \<exists>r. strict_prefix r rest \<and> mget fs (cur @ r) = Some Symlink"
proof (induction rest arbitrary: cur)
  case Nil
  then show ?case by (simp split: option.splits)
next
  case (Cons c cs)
  show ?case
  proof (cases "mget fs cur = Some Symlink")
    case True
    then show ?thesis by (intro exI [of _ "[]"]) simp
  next
    case False
    with Cons.prems have "walk fs (cur @ [c]) cs = Through"
      by (auto split: option.splits node.splits)
    from Cons.IH [OF this] obtain r where "strict_prefix r cs" "mget fs (cur @ [c] @ r) = Some Symlink"
      by auto
    then show ?thesis by (intro exI [of _ "c # r"]) simp
  qed
qed

lemma no_link_walk: "no_link fs p \<Longrightarrow> walk fs [] p \<noteq> Through"
  using walk_Through [of fs "[]" p] by (auto simp: no_link_def strict_prefix_def)

lemma no_link_prefix: "no_link fs p \<Longrightarrow> prefix q p \<Longrightarrow> no_link fs q"
  by (meson no_link_def prefix_order.trans)

lemma no_link_butlast: "no_link fs p \<Longrightarrow> no_link fs (butlast p)"
  by (erule no_link_prefix) (rule prefixeq_butlast)

lemma walk_append:
  "walk fs cur (xs @ y # ys) =
     (case walk fs cur xs of
        Found (Dir _) \<Rightarrow> walk fs (cur @ xs) (y # ys)
      | Found Symlink \<Rightarrow> Through
      | Found n \<Rightarrow> NotDir
      | r \<Rightarrow> r)"
  by (induction xs arbitrary: cur) (auto split: option.split node.split walked.split)

lemma walk_child:
  assumes "fs_wf fs" "mget fs p = Some (Dir pm)"
  shows "walk fs [] (p @ [x]) = (case mget fs (p @ [x]) of Some n \<Rightarrow> Found n | None \<Rightarrow> Missing)"
  using assms walk_existing [of fs "[]" p] by (simp add: walk_append)

section \<open>Well-formedness of changed trees\<close>

lemma fs_wf_mput:
  assumes "fs_wf fs" "p \<noteq> []" "\<exists>pm. mget fs (butlast p) = Some (Dir pm)"
    and "is_dir n \<or> (\<forall>x. mget fs (p @ [x]) = None)"
  shows "fs_wf (mput p n fs)"
proof -
  have parent: "\<exists>pm. mget (mput p n fs) q = Some (Dir pm)" if "mget (mput p n fs) (q @ [x]) \<noteq> None" for q x
  proof (cases "q @ [x] = p")
    case True
    with assms(3) have "\<exists>pm. mget fs q = Some (Dir pm)" "q \<noteq> p" by auto
    then show ?thesis by simp
  next
    case False
    with that have ex: "mget fs (q @ [x]) \<noteq> None" by simp
    with assms(1) have d: "\<exists>pm. mget fs q = Some (Dir pm)" by (auto simp: fs_wf_def)
    show ?thesis
    proof (cases "q = p")
      case True
      with ex assms(4) have "is_dir n" by auto
      with True show ?thesis by (cases n) auto
    qed (use d in simp)
  qed
  from assms(1,2) parent show ?thesis
    by (auto simp: fs_wf_def)
qed

lemma wf_no_child:
  "fs_wf fs \<Longrightarrow> \<nexists>pm. mget fs p = Some (Dir pm) \<Longrightarrow> mget fs (p @ [x]) = None"
  using fs_wfD(3) [of fs p x] by (cases "mget fs (p @ [x])") auto

lemma fs_wf_new:
  assumes "fs_wf fs" "p \<noteq> []" "\<exists>pm. mget fs (butlast p) = Some (Dir pm)" "mget fs p = None"
  shows "fs_wf (mput p n fs)"
  using assms wf_no_child [OF assms(1), of p] by (intro fs_wf_mput) auto

lemma fs_wf_mput_same:
  assumes "fs_wf fs" "mget fs p = Some m" "is_dir n = is_dir m"
  shows "fs_wf (mput p n fs)"
proof (cases "p = []")
  case True
  with assms fs_wfD(2) [OF assms(1)] have "is_dir n" by (cases n) auto
  with True assms(1) show ?thesis by (cases n) (auto simp: fs_wf_def)
next
  case False
  have "\<exists>pm. mget fs (butlast p) = Some (Dir pm)"
    using fs_wfD(3) [OF assms(1), of "butlast p" "last p" m] assms(2) False by simp
  moreover have "is_dir n \<or> (\<forall>x. mget fs (p @ [x]) = None)"
  proof (cases "is_dir m")
    case no: False
    have "mget fs (p @ [x]) = None" for x
      using fs_wfD(3) [OF assms(1), of p x] assms(2) no by fastforce
    then show ?thesis by simp
  qed (use assms(3) in simp)
  ultimately show ?thesis
    using assms(1) False by (intro fs_wf_mput)
qed

lemma set_children: "set (children fs p) = {x. mget fs (p @ [x]) \<noteq> None}"
proof -
  have "set (children fs p) = last ` {q \<in> dom (mget fs). q \<noteq> [] \<and> butlast q = p}"
    by (simp add: children_def set_mkeys [symmetric])
  also have "\<dots> = {x. p @ [x] \<in> dom (mget fs)}"
  proof (intro equalityI subsetI)
    fix x assume "x \<in> last ` {q \<in> dom (mget fs). q \<noteq> [] \<and> butlast q = p}"
    then obtain q where "q \<in> dom (mget fs)" "q \<noteq> []" "butlast q = p" "x = last q" by auto
    then show "x \<in> {x. p @ [x] \<in> dom (mget fs)}" by auto
  next
    fix x assume "x \<in> {x. p @ [x] \<in> dom (mget fs)}"
    then show "x \<in> last ` {q \<in> dom (mget fs). q \<noteq> [] \<and> butlast q = p}"
      by (intro image_eqI [of _ _ "p @ [x]"]) auto
  qed
  finally show ?thesis by (auto simp: dom_def)
qed

lemma children_Nil: "children fs p = [] \<longleftrightarrow> (\<forall>x. mget fs (p @ [x]) = None)"
  using set_children [of fs p] by auto

lemma distinct_children: "mwf fs \<Longrightarrow> distinct (children fs p)"
  unfolding children_def distinct_sort mwf_def distinct_map
  by (auto intro!: inj_onI) (metis append_butlast_last_id)

lemma fs_wf_mdel:
  assumes "fs_wf fs" "p \<noteq> []" "\<forall>x. mget fs (p @ [x]) = None"
  shows "fs_wf (mdel p fs)"
  using assms by (auto simp: fs_wf_def split: if_splits) blast

lemma mget_filter_prefix:
  "mwf fs \<Longrightarrow> mget (filter (\<lambda>(q, _). \<not> prefix p q) fs) q = (if prefix p q then None else mget fs q)"
  by (simp add: mget_filter split: option.split)

lemma fs_wf_RemoveAll:
  assumes "fs_wf fs" "p \<noteq> []"
  shows "fs_wf (filter (\<lambda>(q, _). \<not> prefix p q) fs)"
  using assms
  by (auto simp: fs_wf_def mget_filter_prefix split: if_splits)

section \<open>Renaming\<close>

lemma moved_inj:
  assumes "\<not> prefix new q1" "\<not> prefix new q2" "moved old new q1 = moved old new q2"
  shows "q1 = q2"
  using assms by (auto simp: moved_def prefix_def split: if_splits)

lemma relocate_lookup:
  assumes "mwf fs" "\<forall>r. r \<noteq> [] \<longrightarrow> mget fs (new @ r) = None" "\<not> prefix old new" "\<not> prefix new old"
  shows "mwf (relocate old new fs)"
    and "mget (relocate old new fs) q =
      (if prefix new q then mget fs (old @ drop (length new) q)
       else if prefix old q then None else mget fs q)"
proof -
  let ?g = "mdel new fs"
  have keys: "mget ?g k = Some v \<Longrightarrow> \<not> prefix new k" for k v
    using assms(2) by (auto simp: prefix_def split: if_splits)
  have "inj_on (moved old new) (set (mkeys ?g))"
  proof (rule inj_onI)
    fix q1 q2 assume "q1 \<in> set (mkeys ?g)" "q2 \<in> set (mkeys ?g)" "moved old new q1 = moved old new q2"
    moreover from this(1,2) have "\<not> prefix new q1" "\<not> prefix new q2"
      using keys by (auto simp: set_mkeys simp del: mget_mdel)
    ultimately show "q1 = q2" by (blast intro: moved_inj)
  qed
  moreover have "distinct (mkeys ?g)"
    using assms(1) mwf_mdel [of fs new] by (simp add: mwf_def)
  ultimately show wf: "mwf (relocate old new fs)"
    by (simp add: mwf_def relocate_def mkeys_def comp_def case_prod_beta distinct_map inj_on_def)
  have iff: "mget (relocate old new fs) q = Some v \<longleftrightarrow> (\<exists>k. mget ?g k = Some v \<and> moved old new k = q)" for v
    unfolding mget_in_set [OF wf, symmetric] mget_in_set [OF mwf_mdel [OF assms(1)], symmetric]
    by (auto simp: relocate_def)
  have val: "(\<exists>k. mget ?g k = Some v \<and> moved old new k = q) \<longleftrightarrow>
      (if prefix new q then mget fs (old @ drop (length new) q)
       else if prefix old q then None else mget fs q) = Some v" for v
  proof (cases "prefix new q")
    case True
    then obtain r where q: "q = new @ r" by (auto simp: prefix_def)
    have "(\<exists>k. mget ?g k = Some v \<and> moved old new k = q) \<longleftrightarrow> mget fs (old @ r) = Some v"
    proof
      assume "\<exists>k. mget ?g k = Some v \<and> moved old new k = q"
      then obtain k where k: "mget ?g k = Some v" "moved old new k = q" by blast
      with keys [OF k(1)] q have "prefix old k" by (auto simp: moved_def split: if_splits)
      with k q show "mget fs (old @ r) = Some v"
        by (auto simp: moved_def prefix_def split: if_splits)
    next
      assume "mget fs (old @ r) = Some v"
      moreover have "old @ r \<noteq> new" using assms(3) by auto
      ultimately show "\<exists>k. mget ?g k = Some v \<and> moved old new k = q"
        by (intro exI [of _ "old @ r"]) (simp add: moved_def q)
    qed
    with True q show ?thesis by simp
  next
    case False
    have "(\<exists>k. mget ?g k = Some v \<and> moved old new k = q) \<longleftrightarrow> \<not> prefix old q \<and> mget fs q = Some v"
    proof
      assume "\<exists>k. mget ?g k = Some v \<and> moved old new k = q"
      then obtain k where k: "mget ?g k = Some v" "moved old new k = q" by blast
      with False show "\<not> prefix old q \<and> mget fs q = Some v"
        by (auto simp: moved_def split: if_splits)
    next
      assume "\<not> prefix old q \<and> mget fs q = Some v"
      with False show "\<exists>k. mget ?g k = Some v \<and> moved old new k = q"
        by (intro exI [of _ q]) (auto simp: moved_def)
    qed
    with False show ?thesis by simp
  qed
  show "mget (relocate old new fs) q =
      (if prefix new q then mget fs (old @ drop (length new) q)
       else if prefix old q then None else mget fs q)"
    using iff val by (metis option.exhaust)
qed

lemma wf_nothing_below:
  assumes "fs_wf fs" "\<forall>x. mget fs (p @ [x]) = None" "r \<noteq> []"
  shows "mget fs (p @ r) = None"
proof (cases r)
  case (Cons x xs)
  show ?thesis
  proof (rule ccontr)
    assume "mget fs (p @ r) \<noteq> None"
    then obtain n where n: "mget fs ((p @ [x]) @ xs) = Some n" using Cons by auto
    have "mget fs (p @ [x]) \<noteq> None"
      by (cases "xs = []") (use n wf_ancestor [OF assms(1) n] in auto)
    with assms(2) show False by simp
  qed
qed (use assms(3) in simp)

lemma fs_wf_relocate:
  assumes "fs_wf fs" "\<forall>x. mget fs (new @ [x]) = None" "\<not> prefix old new" "\<not> prefix new old"
    and "mget fs old = Some n" "old \<noteq> []" "new \<noteq> []" "mget fs (butlast new) = Some (Dir pm)"
  shows "fs_wf (relocate old new fs)"
proof -
  have below: "\<forall>r. r \<noteq> [] \<longrightarrow> mget fs (new @ r) = None"
    using wf_nothing_below [OF assms(1,2)] by blast
  note look = relocate_lookup [OF fs_wfD(1) [OF assms(1)] below assms(3,4)]
  have parent: "\<exists>pm. mget (relocate old new fs) q = Some (Dir pm)"
    if "mget (relocate old new fs) (q @ [x]) \<noteq> None" for q x
  proof (cases "prefix new (q @ [x])")
    case True
    then have "new = q @ [x] \<or> prefix new q" by simp
    then consider "q @ [x] = new" | r where "q = new @ r"
      by (auto elim: prefixE)
    then show ?thesis
    proof cases
      case 1
      then have "\<not> prefix new q" "q = butlast new" by (auto simp: prefix_def)
      moreover from 1 assms(3) have "\<not> prefix old q" by (auto dest: prefix_prefix)
      ultimately show ?thesis using assms(8) by (simp add: look(2))
    next
      case 2
      with that obtain v where "mget fs (old @ r @ [x]) = Some v" by (auto simp: look(2))
      with fs_wfD(3) [OF assms(1), of "old @ r" x v] 2 show ?thesis by (auto simp: look(2))
    qed
  next
    case False
    then have "\<not> prefix new q" by auto
    from False that have "\<not> prefix old (q @ [x])" "mget fs (q @ [x]) \<noteq> None"
      by (auto simp: look(2) split: if_splits)
    then have "\<not> prefix old q" "\<exists>pm. mget fs q = Some (Dir pm)"
      using assms(1) by (auto simp: fs_wf_def)
    with \<open>\<not> prefix new q\<close> show ?thesis by (simp add: look(2))
  qed
  have "mget (relocate old new fs) [] = mget fs []"
    using assms(6,7) by (simp add: look(2))
  with parent look(1) fs_wfD(2) [OF assms(1)] show ?thesis
    by (simp add: fs_wf_def)
qed

section \<open>Triples\<close>

definition honest :: "world \<Rightarrow> bool" where
  "honest w \<longleftrightarrow> (\<forall>n k e. fault w n = Some (k, e) \<longrightarrow>
     \<not> errors_Is e (OS ErrNotExist) \<and> \<not> errors_Is e (OS IoEOF))"

definition calm :: "world \<Rightarrow> bool" where
  "calm w \<longleftrightarrow> (\<forall>n. fault w n = None) \<and> (\<forall>n. ctx_err w n = None)"

definition same_env :: "world \<Rightarrow> world \<Rightarrow> bool" where
  "same_env w w' \<longleftrightarrow> fault w' = fault w \<and> ctx_err w' = ctx_err w \<and> clock w' = clock w \<and>
     dir_meta w' = dir_meta w \<and> tmp_name w' = tmp_name w \<and> uuid w' = uuid w \<and> mime w' = mime w \<and>
     outside w' = outside w"

definition ftriple ::
  "bool \<Rightarrow> (fsys \<Rightarrow> bool) \<Rightarrow> 'a io \<Rightarrow> ('a \<Rightarrow> fsys \<Rightarrow> bool) \<Rightarrow> (gerror \<Rightarrow> fsys \<Rightarrow> bool) \<Rightarrow> bool" where
  "ftriple c P m Q E \<longleftrightarrow>
     (\<forall>w. honest w \<and> (c \<longrightarrow> calm w) \<and> P (files w) \<longrightarrow>
        (case m w of (r, w') \<Rightarrow> same_env w w' \<and>
           (case r of Ok x \<Rightarrow> Q x (files w') | Err e \<Rightarrow> E e (files w') | Diverges \<Rightarrow> False)))"

named_theorems ft \<open>triples of the calls\<close>

lemma calm_honest: "calm w \<Longrightarrow> honest w"
  by (simp add: calm_def honest_def)

lemma same_env_refl [simp]: "same_env w w"
  by (simp add: same_env_def)

lemma same_env_trans: "same_env u v \<Longrightarrow> same_env v w \<Longrightarrow> same_env u w"
  by (simp add: same_env_def)

lemma same_env_honest: "same_env w w' \<Longrightarrow> honest w' = honest w"
  by (simp add: same_env_def honest_def)

lemma same_env_calm: "same_env w w' \<Longrightarrow> calm w' = calm w"
  by (simp add: same_env_def calm_def)

lemma ftripleD:
  assumes "ftriple c P m Q E" "honest w" "c \<longrightarrow> calm w" "P (files w)" "m w = (r, w')"
  shows "same_env w w'" "r = Ok x \<Longrightarrow> Q x (files w')" "r = Err e \<Longrightarrow> E e (files w')" "r \<noteq> Diverges"
proof -
  from assms have "same_env w w' \<and>
      (case r of Ok x \<Rightarrow> Q x (files w') | Err e \<Rightarrow> E e (files w') | Diverges \<Rightarrow> False)"
    unfolding ftriple_def by (metis (no_types, lifting) case_prod_conv)
  then show "same_env w w'" "r = Ok x \<Longrightarrow> Q x (files w')" "r = Err e \<Longrightarrow> E e (files w')" "r \<noteq> Diverges"
    by (auto split: outcome.splits)
qed

lemma ftripleI:
  assumes "\<And>w. honest w \<Longrightarrow> (c \<longrightarrow> calm w) \<Longrightarrow> P (files w) \<Longrightarrow>
     (case m w of (r, w') \<Rightarrow> same_env w w' \<and>
        (case r of Ok x \<Rightarrow> Q x (files w') | Err e \<Rightarrow> E e (files w') | Diverges \<Rightarrow> False))"
  shows "ftriple c P m Q E"
  using assms by (simp add: ftriple_def)

lemma ft_run:
  "ftriple c P m Q E \<Longrightarrow> honest w \<Longrightarrow> (c \<longrightarrow> calm w) \<Longrightarrow> P (files w) \<Longrightarrow>
     (case m w of (r, w') \<Rightarrow> same_env w w' \<and>
        (case r of Ok x \<Rightarrow> Q x (files w') | Err e \<Rightarrow> E e (files w') | Diverges \<Rightarrow> False))"
  by (simp add: ftriple_def)

lemma ft_conseq:
  assumes "ftriple c P m Q E" "\<And>fs. P' fs \<Longrightarrow> P fs"
    and "\<And>x fs. Q x fs \<Longrightarrow> Q' x fs" "\<And>e fs. E e fs \<Longrightarrow> E' e fs"
  shows "ftriple c P' m Q' E'"
proof (rule ftripleI)
  fix w assume "honest w" "c \<longrightarrow> calm w" "P' (files w)"
  from ft_run [OF assms(1) this(1,2) assms(2) [OF this(3)]] assms(3,4)
  show "case m w of (r, w') \<Rightarrow> same_env w w' \<and>
        (case r of Ok x \<Rightarrow> Q' x (files w') | Err e \<Rightarrow> E' e (files w') | Diverges \<Rightarrow> False)"
    by (auto split: prod.splits outcome.splits)
qed

lemma ft_pre: "ftriple c P m Q E \<Longrightarrow> (\<And>fs. P' fs \<Longrightarrow> P fs) \<Longrightarrow> ftriple c P' m Q E"
  by (erule ft_conseq) auto

lemma ft_prop: "(A \<Longrightarrow> ftriple c P m Q E) \<Longrightarrow> ftriple c (\<lambda>fs. A \<and> P fs) m Q E"
  by (auto simp: ftriple_def)

lemma ft_frame:
  assumes "ftriple c P m Q E"
  shows "ftriple c (\<lambda>fs. P fs \<and> A) m (\<lambda>x fs. Q x fs \<and> A) (\<lambda>e fs. E e fs \<and> A)"
proof (cases A)
  case True
  with assms show ?thesis by simp
qed (simp add: ftriple_def)

text \<open>Fix the files at the start.\<close>

lemma ft_start: "(\<And>F. P F \<Longrightarrow> ftriple c (\<lambda>fs. fs = F) m Q E) \<Longrightarrow> ftriple c P m Q E"
  by (rule ftripleI) (rule ft_run [of c "\<lambda>fs. fs = files w" m Q E w for w], simp_all)

lemma ft_ret: "(\<And>fs. P fs \<Longrightarrow> Q x fs) \<Longrightarrow> ftriple c P (ret x) Q E"
  by (simp add: ftriple_def ret_def)

lemma ft_throw: "(\<And>fs. P fs \<Longrightarrow> E e fs) \<Longrightarrow> ftriple c P (throw e) Q E"
  by (simp add: ftriple_def throw_def)

lemma ft_bnd:
  assumes "ftriple c P m R E" "\<And>x. ftriple c (R x) (f x) Q E"
  shows "ftriple c P (bnd m f) Q E"
proof (rule ftripleI)
  fix w assume w: "honest w" "c \<longrightarrow> calm w" "P (files w)"
  obtain r w1 where m: "m w = (r, w1)" by force
  note d = ftripleD [OF assms(1) w m]
  show "case bnd m f w of (r, w') \<Rightarrow> same_env w w' \<and>
        (case r of Ok x \<Rightarrow> Q x (files w') | Err e \<Rightarrow> E e (files w') | Diverges \<Rightarrow> False)"
  proof (cases r)
    case (Ok x)
    obtain r2 w2 where f: "f x w1 = (r2, w2)" by force
    have h: "honest w1" "c \<longrightarrow> calm w1"
      using w d(1) by (auto simp: same_env_honest same_env_calm)
    note d2 = ftripleD [OF assms(2) h d(2) [OF Ok] f]
    have "bnd m f w = (r2, w2)" by (simp add: bnd_def m Ok f)
    moreover have "same_env w w2" by (rule same_env_trans [OF d(1) d2(1)])
    ultimately show ?thesis using d2(2-4) by (simp split: outcome.split)
  qed (use d m in \<open>auto simp: bnd_def\<close>)
qed

lemma ft_wrapErr: "ftriple c P m Q (\<lambda>e. E (g e)) \<Longrightarrow> ftriple c P (wrapErr g m) Q E"
  by (rule ftripleI) (auto dest: ft_run simp: wrapErr_def split: prod.splits outcome.splits)

lemma ft_attempt:
  "ftriple c P m (\<lambda>x. Q (Inr x)) (\<lambda>e. Q (Inl e)) \<Longrightarrow> ftriple c P (attempt m) Q E"
  by (rule ftripleI) (auto dest: ft_run simp: attempt_def split: prod.splits outcome.splits)

text \<open>Sequencing with a known triple of the first step, whose failures are weakened.\<close>

lemma ft_seq:
  assumes "ftriple c P m R E0" "\<And>e fs. E0 e fs \<Longrightarrow> E e fs" "\<And>x. ftriple c (R x) (f x) Q E"
  shows "ftriple c P (bnd m f) Q E"
  using ft_bnd [OF ft_conseq [OF assms(1)] assms(3)] assms(2) by simp

lemma ft_seq_wrap:
  assumes "ftriple c P m R E0" "\<And>e fs. E0 e fs \<Longrightarrow> E (g e) fs" "\<And>x. ftriple c (R x) (f x) Q E"
  shows "ftriple c P (bnd (wrapErr g m) f) Q E"
  using ft_bnd [OF ft_wrapErr [OF ft_conseq [OF assms(1)]] assms(3)] assms(2) by simp

lemma ft_seq_attempt:
  assumes "ftriple c P m R E0" "\<And>x. ftriple c (R x) (f (Inr x)) Q E" "\<And>e. ftriple c (E0 e) (f (Inl e)) Q E"
  shows "ftriple c P (bnd (attempt m) f) Q E"
proof (rule ft_bnd [OF ft_attempt])
  show "ftriple c P m (\<lambda>x. case_sum E0 R (Inr x)) (\<lambda>e. case_sum E0 R (Inl e))" using assms(1) by simp
  show "ftriple c (case_sum E0 R r) (f r) Q E" for r using assms(2,3) by (cases r) auto
qed

lemma ft_gets: "(\<And>w. P (files w) \<Longrightarrow> Q (f w) (files w)) \<Longrightarrow> ftriple c P (gets f) Q E"
  by (simp add: ftriple_def gets_def)

lemma ft_modify_other:
  "(\<And>w. files (f w) = files w \<and> same_env w (f w)) \<Longrightarrow> (\<And>fs. P fs \<Longrightarrow> Q () fs) \<Longrightarrow>
   ftriple c P (modify f) Q E"
  by (simp add: ftriple_def modify_def)

lemma ft_modify_files:
  "(\<And>fs. P fs \<Longrightarrow> Q () (g fs)) \<Longrightarrow> ftriple c P (modify (\<lambda>w. w\<lparr>files := g (files w)\<rparr>)) Q E"
  by (simp add: ftriple_def modify_def same_env_def)

lemma ft_set_node: "(\<And>fs. P fs \<Longrightarrow> Q () (mput p n fs)) \<Longrightarrow> ftriple c P (set_node p n) Q E"
  unfolding set_node_def by (rule ft_modify_files)

lemma ft_check:
  "(\<And>fs. P fs \<Longrightarrow> x = None \<Longrightarrow> Q () fs) \<Longrightarrow> (\<And>fs e. P fs \<Longrightarrow> x = Some e \<Longrightarrow> E e fs) \<Longrightarrow>
   ftriple c P (check x) Q E"
  by (cases x) (auto simp: check_def intro: ft_ret ft_throw)

lemma ft_sys:
  assumes "ftriple c P m Q E"
    and "\<And>fs e. \<not> c \<Longrightarrow> P fs \<Longrightarrow> \<not> errors_Is e (OS ErrNotExist) \<Longrightarrow> \<not> errors_Is e (OS IoEOF) \<Longrightarrow> E e fs"
  shows "ftriple c P (sys m) Q E"
proof (rule ftripleI)
  fix w assume w: "honest w" "c \<longrightarrow> calm w" "P (files w)"
  let ?w = "w\<lparr>ticks := ticks w + 1\<rparr>"
  have env: "same_env w ?w" by (simp add: same_env_def)
  show "case sys m w of (r, w') \<Rightarrow> same_env w w' \<and>
        (case r of Ok x \<Rightarrow> Q x (files w') | Err e \<Rightarrow> E e (files w') | Diverges \<Rightarrow> False)"
  proof (cases "fault w (ticks w)")
    case None
    obtain r w1 where m: "m ?w = (r, w1)" by force
    have h: "honest ?w" "c \<longrightarrow> calm ?w" "P (files ?w)"
      using w env by (auto simp: same_env_honest same_env_calm)
    note d = ftripleD [OF assms(1) h m]
    have "sys m w = (r, w1)" using None m by (simp add: sys_def Let_def)
    with d(2-4) same_env_trans [OF env d(1)] show ?thesis by (simp split: outcome.split)
  next
    case (Some ke)
    obtain k e where ke: "ke = (k, e)" by force
    from w(2) Some have "\<not> c" by (auto simp: calm_def)
    moreover from w(1) Some ke have "\<not> errors_Is e (OS ErrNotExist)" "\<not> errors_Is e (OS IoEOF)"
      by (auto simp: honest_def)
    ultimately have "E e (files w)" using assms(2) w(3) by blast
    with Some ke env show ?thesis by (simp add: sys_def Let_def)
  qed
qed

lemma ft_ctx_Err:
  "(\<And>fs. P fs \<Longrightarrow> Q () fs) \<Longrightarrow> (\<And>fs e. \<not> c \<Longrightarrow> P fs \<Longrightarrow> E e fs) \<Longrightarrow> ftriple c P ctx_Err Q E"
  by (rule ftripleI) (auto simp: ctx_Err_def Let_def same_env_def calm_def split: option.split)

lemma ft_at_node:
  assumes "\<And>fs n. P fs \<Longrightarrow> walk fs [] p = Found n \<Longrightarrow> ftriple c (\<lambda>g. g = fs) (f n) Q E"
    and "\<And>fs. P fs \<Longrightarrow> walk fs [] p = Missing \<Longrightarrow> E (os_err ErrNotExist) fs"
    and "\<And>fs. P fs \<Longrightarrow> walk fs [] p = NotDir \<Longrightarrow> E (os_err ENOTDIR) fs"
    and "\<And>fs. P fs \<Longrightarrow> walk fs [] p \<noteq> Through"
  shows "ftriple c P (at_node p f) Q E"
proof (rule ftripleI)
  fix w assume w: "honest w" "c \<longrightarrow> calm w" "P (files w)"
  show "case at_node p f w of (r, w') \<Rightarrow> same_env w w' \<and>
        (case r of Ok x \<Rightarrow> Q x (files w') | Err e \<Rightarrow> E e (files w') | Diverges \<Rightarrow> False)"
  proof (cases "walk (files w) [] p")
    case (Found n)
    from assms(1) [OF w(3) Found] w show ?thesis
      by (simp add: at_node_def Found ftriple_def)
  qed (use assms(2-4) [OF w(3)] in \<open>auto simp: at_node_def throw_def\<close>)
qed

section \<open>Triples of the calls\<close>

lemma node_info_kind [simp]:
  "fi_kind (node_info m n) = KSymlink \<longleftrightarrow> n = Symlink"
  "fi_kind (node_info m n) = KDir \<longleftrightarrow> is_dir n"
  "fi_kind (node_info m n) = KRegular \<longleftrightarrow> (\<exists>pm cnt t. n = File pm cnt t)"
  by (cases m; cases n; simp)+

lemma node_info_File [simp]:
  "node_info m (File pm cnt t) = \<lparr>fi_kind = KRegular, fi_perm = pm, fi_size = length cnt, fi_mtime = t\<rparr>"
  by (cases m) simp

lemma ft_info_of:
  "(\<And>fs m. P fs \<Longrightarrow> Q (node_info m n) fs) \<Longrightarrow> ftriple c P (info_of n) Q E"
  unfolding info_of_def by (rule ft_gets) blast

text \<open>When a look at a path fails.\<close>

definition look_fails :: "bool \<Rightarrow> fsys \<Rightarrow> path \<Rightarrow> gerror \<Rightarrow> bool" where
  "look_fails c F p e \<longleftrightarrow>
     (errors_Is e (OS ErrNotExist) \<longrightarrow> walk F [] p = Missing) \<and>
     (c \<longrightarrow> mget F p = None \<and> (walk F [] p = Missing \<longrightarrow> errors_Is e (OS ErrNotExist)))"

lemma look_failsI:
  assumes "fs_wf F" "walk F [] p \<noteq> Through"
  shows "\<not> c \<Longrightarrow> \<not> errors_Is e (OS ErrNotExist) \<Longrightarrow> look_fails c F p e"
    and "walk F [] p = Missing \<Longrightarrow> look_fails c F p (os_err ErrNotExist)"
    and "walk F [] p = NotDir \<Longrightarrow> look_fails c F p (os_err ENOTDIR)"
  using walk_existing [OF assms(1), of "[]" p]
  by (cases "mget F p"; auto simp: look_fails_def)+

lemma ft_Lstat:
  assumes "fs_wf F" "walk F [] p \<noteq> Through"
  shows "ftriple c (\<lambda>fs. fs = F) (os_Lstat p)
    (\<lambda>info fs. fs = F \<and> (\<exists>n m. mget F p = Some n \<and> info = node_info m n))
    (\<lambda>e fs. fs = F \<and> look_fails c F p e)"
  unfolding os_Lstat_def
proof (intro ft_sys ft_at_node)
  fix fs n assume "fs = F" "walk fs [] p = Found n"
  then have "mget F p = Some n" "fs = F" using assms by (auto simp: walk_Found_iff)
  then show "ftriple c (\<lambda>g. g = fs) (info_of n)
    (\<lambda>info fs. fs = F \<and> (\<exists>n m. mget F p = Some n \<and> info = node_info m n))
    (\<lambda>e fs. fs = F \<and> look_fails c F p e)"
    by (intro ft_info_of) blast
qed (use assms look_failsI [OF assms] in auto)

lemma ft_Stat:
  assumes "fs_wf F" "walk F [] p \<noteq> Through" "mget F p \<noteq> Some Symlink"
  shows "ftriple c (\<lambda>fs. fs = F) (os_Stat p)
    (\<lambda>info fs. fs = F \<and> (\<exists>n m. mget F p = Some n \<and> info = node_info m n))
    (\<lambda>e fs. fs = F \<and> look_fails c F p e)"
  unfolding os_Stat_def
proof (intro ft_sys ft_at_node)
  fix fs n assume "fs = F" "walk fs [] p = Found n"
  then have n: "mget F p = Some n" "fs = F" "(n = Symlink) = False"
    using assms by (auto simp: walk_Found_iff)
  then show "ftriple c (\<lambda>g. g = fs) (if n = Symlink then followed p else info_of n)
    (\<lambda>info fs. fs = F \<and> (\<exists>n m. mget F p = Some n \<and> info = node_info m n))
    (\<lambda>e fs. fs = F \<and> look_fails c F p e)"
    unfolding n(3) if_False by (intro ft_info_of) blast
qed (use assms look_failsI [OF assms(1,2)] in auto)

section \<open>Making directories\<close>

definition mkdir_ext :: "path \<Rightarrow> nat \<Rightarrow> fsys \<Rightarrow> fsys \<Rightarrow> bool" where
  "mkdir_ext p perm F G \<longleftrightarrow>
     (\<forall>q. mget G q = mget F q \<or> (mget F q = None \<and> prefix q p \<and> mget G q = Some (Dir perm)))"

definition dir_path :: "fsys \<Rightarrow> path \<Rightarrow> bool" where
  "dir_path F p \<longleftrightarrow> (\<forall>q n. prefix q p \<longrightarrow> mget F q = Some n \<longrightarrow> is_dir n)"

lemma mkdir_ext_refl: "mkdir_ext p perm F F"
  by (simp add: mkdir_ext_def)

lemma mkdir_ext_old: "mkdir_ext p perm F G \<Longrightarrow> mget F q = Some n \<Longrightarrow> mget G q = Some n"
  unfolding mkdir_ext_def by (metis option.distinct(1))

lemma mkdir_ext_no_link: "mkdir_ext p perm F G \<Longrightarrow> no_link F q \<Longrightarrow> no_link G q"
  unfolding mkdir_ext_def no_link_def by (metis node.distinct(3) option.inject)

lemma mkdir_ext_trans_step:
  assumes "mkdir_ext p perm F G" "mget G q = None" "prefix q p"
  shows "mkdir_ext p perm F (mput q (Dir perm) G)"
proof -
  have "mget F q = None" using assms(1,2) unfolding mkdir_ext_def by metis
  with assms show ?thesis unfolding mkdir_ext_def by simp
qed

lemma ft_mkdirs:
  assumes "no_link F (cur @ rest)"
  shows "ftriple c
    (\<lambda>fs. fs_wf fs \<and> mkdir_ext (cur @ rest) perm F fs \<and> (\<exists>pm. mget fs cur = Some (Dir pm)))
    (mkdirs perm cur rest)
    (\<lambda>_ fs. fs_wf fs \<and> mkdir_ext (cur @ rest) perm F fs \<and> (\<exists>pm. mget fs (cur @ rest) = Some (Dir pm)))
    (\<lambda>e fs. fs_wf fs \<and> mkdir_ext (cur @ rest) perm F fs \<and> (c \<longrightarrow> \<not> dir_path F (cur @ rest)))"
  using assms
proof (induction rest arbitrary: cur)
  case Nil
  then show ?case by (auto intro: ft_ret)
next
  case (Cons x xs)
  let ?p = "cur @ [x]" and ?all = "cur @ x # xs"
  let ?I = "\<lambda>fs. fs_wf fs \<and> mkdir_ext ?all perm F fs"
  let ?E = "\<lambda>e fs. ?I fs \<and> (c \<longrightarrow> \<not> dir_path F ?all)"
  let ?step = "sys (\<lambda>w. case walk (files w) [] ?p of
             Found (Dir _) \<Rightarrow> ret () w
           | Found Symlink \<Rightarrow> followed ?p w
           | Found _ \<Rightarrow> throw (os_err ENOTDIR) w
           | Missing \<Rightarrow> create_node ?p (Dir perm) w
           | NotDir \<Rightarrow> throw (os_err ENOTDIR) w
           | Through \<Rightarrow> followed ?p w)"
  have step: "ftriple c (\<lambda>fs. ?I fs \<and> (\<exists>pm. mget fs cur = Some (Dir pm))) ?step
      (\<lambda>_ fs. ?I fs \<and> (\<exists>pm. mget fs ?p = Some (Dir pm))) ?E"
  proof (rule ft_sys)
    show "ftriple c (\<lambda>fs. ?I fs \<and> (\<exists>pm. mget fs cur = Some (Dir pm)))
       (\<lambda>w. case walk (files w) [] ?p of
             Found (Dir _) \<Rightarrow> ret () w
           | Found Symlink \<Rightarrow> followed ?p w
           | Found _ \<Rightarrow> throw (os_err ENOTDIR) w
           | Missing \<Rightarrow> create_node ?p (Dir perm) w
           | NotDir \<Rightarrow> throw (os_err ENOTDIR) w
           | Through \<Rightarrow> followed ?p w)
      (\<lambda>_ fs. ?I fs \<and> (\<exists>pm. mget fs ?p = Some (Dir pm))) ?E" (is "ftriple c ?P ?m ?Q ?E")
    proof (rule ftripleI)
      fix w :: world assume "?P (files w)"
      then obtain pm where wf: "fs_wf (files w)" and ext: "mkdir_ext ?all perm F (files w)"
        and pm: "mget (files w) cur = Some (Dir pm)" by auto
      note walk = walk_child [OF wf pm, of x]
      have nl: "mget (files w) ?p \<noteq> Some Symlink"
        using mkdir_ext_no_link [OF ext Cons.prems] by (auto simp: no_link_def)
      show "case ?m w of (r, w') \<Rightarrow> same_env w w' \<and>
        (case r of Ok y \<Rightarrow> ?Q y (files w') | Err e \<Rightarrow> ?E e (files w') | Diverges \<Rightarrow> False)"
      proof (cases "mget (files w) ?p")
        case None
        have "fs_wf (mput ?p (Dir perm) (files w))"
          using wf pm by (intro fs_wf_mput) auto
        moreover have "mkdir_ext ?all perm F (mput ?p (Dir perm) (files w))"
          using ext None by (intro mkdir_ext_trans_step) auto
        moreover have "create_node ?p (Dir perm) w = (Ok (), w\<lparr>files := mput ?p (Dir perm) (files w)\<rparr>)"
        proof -
          have "walk (files w) [] cur = Found (Dir pm)" using walk_Found_iff [OF wf] pm by simp
          then show ?thesis by (simp add: create_node_def at_node_def set_node_def modify_def)
        qed
        ultimately show ?thesis
          using walk None by (simp add: same_env_def)
      next
        case (Some n)
        show ?thesis
        proof (cases "is_dir n")
          case True
          with Some walk wf ext show ?thesis by (cases n) (auto simp: ret_def)
        next
          case False
          have old: "mget F ?p = Some n"
            using ext Some False unfolding mkdir_ext_def by (metis is_dir.simps(1) option.inject)
          have "prefix ?p ?all" by simp
          with old False have "\<not> dir_path F ?all" unfolding dir_path_def by blast
          with Some walk wf ext False nl show ?thesis by (cases n) (auto simp: throw_def)
        qed
      qed
    qed
  qed auto
  have eq: "?p @ xs = ?all" by simp
  show ?case
    unfolding mkdirs.simps Let_def
    by (rule ft_bnd [OF step [unfolded conj_assoc]]) (use Cons.IH [of ?p] Cons.prems eq in simp)
qed

lemma ft_MkdirAll:
  assumes "fs_wf F" "no_link F p"
  shows "ftriple c (\<lambda>fs. fs = F) (os_MkdirAll p perm)
    (\<lambda>_ fs. fs_wf fs \<and> mkdir_ext p perm F fs \<and> (\<exists>pm. mget fs p = Some (Dir pm)))
    (\<lambda>e fs. fs_wf fs \<and> mkdir_ext p perm F fs \<and> (c \<longrightarrow> \<not> dir_path F p))"
  unfolding os_MkdirAll_def
  using ft_mkdirs [of F "[]" p c perm] assms fs_wfD(2) [OF assms(1)]
  by (auto intro: ft_pre simp: mkdir_ext_refl)

section \<open>One file\<close>

text \<open>The tree \<open>F\<close>, except that \<open>p\<close> is a file with the given permissions and content.\<close>

definition has_file :: "fsys \<Rightarrow> path \<Rightarrow> nat \<Rightarrow> content \<Rightarrow> fsys \<Rightarrow> bool" where
  "has_file F p pm cnt fs \<longleftrightarrow>
     fs_wf fs \<and> (\<exists>t. mget fs p = Some (File pm cnt t)) \<and> same_except {p} F fs"

text \<open>The tree \<open>F\<close>, except that there is nothing at \<open>p\<close>.\<close>

definition without :: "fsys \<Rightarrow> path \<Rightarrow> fsys \<Rightarrow> bool" where
  "without F p fs \<longleftrightarrow> fs_wf fs \<and> mget fs p = None \<and> same_except {p} F fs"

lemma has_file_mput:
  assumes "has_file F p pm cnt fs"
  shows "has_file F p pm' cnt' (mput p (File pm' cnt' t) fs)"
  using assms fs_wf_mput_same [of fs p _ "File pm' cnt' t"]
  by (auto simp: has_file_def same_except_def)

lemma has_file_node: "has_file F p pm cnt fs \<Longrightarrow> \<exists>t. mget fs p = Some (File pm cnt t)"
  by (simp add: has_file_def)

lemma has_file_walk: "has_file F p pm cnt fs \<Longrightarrow> \<exists>t. walk fs [] p = Found (File pm cnt t)"
  unfolding has_file_def by (auto simp: walk_Found_iff)

lemma ft_CreateTemp:
  assumes "fs_wf F" "mget F dir = Some (Dir pm)"
  shows "ftriple c (\<lambda>fs. fs = F) (os_CreateTemp dir)
    (\<lambda>tmp fs. (\<exists>name. tmp = dir @ [''.tethux-'' @ name]) \<and> mget F tmp = None \<and> has_file F tmp 384 [] fs)
    (\<lambda>e fs. fs = F \<and> (c \<longrightarrow> (\<exists>name. mget F (dir @ [''.tethux-'' @ name]) \<noteq> None)))"
  unfolding os_CreateTemp_def Let_def
proof (rule ft_sys, rule ftripleI)
  fix w :: world assume w: "files w = F"
  define tmp where "tmp = dir @ [''.tethux-'' @ tmp_name w (ticks w)]"
  have walk: "walk F [] dir = Found (Dir pm)" using assms by (simp add: walk_Found_iff)
  have "has_file F tmp 384 [] (mput tmp (File 384 [] t) F)" if "mget F tmp = None" for t
  proof -
    have "fs_wf (mput tmp (File 384 [] t) F)"
      using assms that by (intro fs_wf_new) (auto simp: tmp_def)
    then show ?thesis by (simp add: has_file_def same_except_def)
  qed
  moreover have "create_node tmp n w = (Ok (), w\<lparr>files := mput tmp n F\<rparr>)" for n
    using walk w by (simp add: create_node_def at_node_def tmp_def set_node_def modify_def)
  moreover have "\<exists>name. tmp = dir @ [''.tethux-'' @ name]" by (auto simp: tmp_def)
  ultimately show "case (if mget (files w) (dir @ [''.tethux-'' @ tmp_name w (ticks w)]) \<noteq> None
        then throw (os_err ErrExist) w
        else bnd (create_node (dir @ [''.tethux-'' @ tmp_name w (ticks w)]) (File 384 [] (now w)))
              (\<lambda>_. ret (dir @ [''.tethux-'' @ tmp_name w (ticks w)])) w) of
      (r, w') \<Rightarrow> same_env w w' \<and> (case r of
        Ok tmp \<Rightarrow> (\<exists>name. tmp = dir @ [''.tethux-'' @ name]) \<and> mget F tmp = None \<and> has_file F tmp 384 [] (files w')
      | Err e \<Rightarrow> files w' = F \<and> (c \<longrightarrow> (\<exists>name. mget F (dir @ [''.tethux-'' @ name]) \<noteq> None))
      | Diverges \<Rightarrow> False)"
    unfolding tmp_def [symmetric] w
    by (cases "mget F tmp = None") (auto simp: w throw_def bnd_def ret_def same_env_def)
qed auto

lemma ft_file_Chmod:
  "ftriple c (has_file F p pm cnt) (file_Chmod p perm)
     (\<lambda>_. has_file F p perm cnt) (\<lambda>e fs. \<not> c \<and> has_file F p pm cnt fs)"
  unfolding file_Chmod_def
proof (intro ft_sys ft_at_node)
  fix fs n assume "has_file F p pm cnt fs" "walk fs [] p = Found n"
  with has_file_walk [OF this(1)] obtain t where "n = File pm cnt t" by auto
  with \<open>has_file F p pm cnt fs\<close> show "ftriple c (\<lambda>g. g = fs) (set_node p (chmod_node perm n))
     (\<lambda>_. has_file F p perm cnt) (\<lambda>e fs. \<not> c \<and> has_file F p pm cnt fs)"
    by (intro ft_set_node) (auto intro: has_file_mput)
qed (auto dest: has_file_walk)

lemma ft_nop:
  "(\<And>fs. P fs \<Longrightarrow> Q () fs) \<Longrightarrow> (\<And>fs e. \<not> c \<Longrightarrow> P fs \<Longrightarrow> E e fs) \<Longrightarrow> ftriple c P file_Sync Q E"
  "(\<And>fs. P fs \<Longrightarrow> Q () fs) \<Longrightarrow> (\<And>fs e. \<not> c \<Longrightarrow> P fs \<Longrightarrow> E e fs) \<Longrightarrow> ftriple c P file_Close Q E"
  unfolding file_Sync_def file_Close_def by (intro ft_sys ft_ret; simp)+

lemma append_bytes_At:
  assumes "has_file F p pm cnt (files w)"
  shows "has_file F p pm (cnt @ bs) (files (append_bytes (At p) bs w)) \<and> same_env w (append_bytes (At p) bs w)"
  using has_file_node [OF assms] assms
  by (auto simp: append_bytes_def same_env_def intro: has_file_mput)

lemma ft_file_Write:
  "ftriple c (has_file F p pm cnt) (file_Write (At p) bs)
     (\<lambda>(k, e) fs. has_file F p pm (cnt @ take k bs) fs \<and> (e = None \<longrightarrow> k = length bs) \<and> (c \<longrightarrow> e = None))
     (\<lambda>_ _. False)"
proof (rule ftripleI)
  fix w assume w: "honest w" "c \<longrightarrow> calm w" "has_file F p pm cnt (files w)"
  let ?w = "w\<lparr>ticks := ticks w + 1\<rparr>"
  have env: "same_env w ?w" by (simp add: same_env_def)
  have app: "has_file F p pm (cnt @ b) (files (append_bytes (At p) b ?w)) \<and>
      same_env w (append_bytes (At p) b ?w)" for b
    using append_bytes_At [of F p pm cnt ?w b] w(3) same_env_trans [OF env] by simp
  show "case file_Write (At p) bs w of (r, w') \<Rightarrow> same_env w w' \<and>
      (case r of Ok x \<Rightarrow> (case x of (k, e) \<Rightarrow> \<lambda>fs. has_file F p pm (cnt @ take k bs) fs \<and>
           (e = None \<longrightarrow> k = length bs) \<and> (c \<longrightarrow> e = None)) (files w')
       | Err e \<Rightarrow> False | Diverges \<Rightarrow> False)"
    using w(2) app [of bs] app [of "take k bs" for k]
    by (auto simp: file_Write_def Let_def calm_def min_def split: option.split)
qed

lemma ft_Remove_file:
  "ftriple c (has_file F p pm cnt) (os_Remove p)
     (\<lambda>_. without F p) (\<lambda>e fs. \<not> c \<and> has_file F p pm cnt fs)"
  unfolding os_Remove_def
proof (intro ft_sys ft_at_node)
  fix fs n assume hf: "has_file F p pm cnt fs" and "walk fs [] p = Found n"
  with has_file_walk [OF this(1)] obtain t where n: "n = File pm cnt t" by auto
  from hf have wf: "fs_wf fs" and p: "\<exists>t. mget fs p = Some (File pm cnt t)" by (auto simp: has_file_def)
  have "p \<noteq> []" "\<forall>x. mget fs (p @ [x]) = None"
    using p fs_wfD(2) [OF wf] fs_wfD(3) [OF wf, of p] by fastforce+
  from fs_wf_mdel [OF wf this] hf have "without F p (mdel p fs)"
    by (auto simp: without_def has_file_def same_except_def)
  then show "ftriple c (\<lambda>g. g = fs) (\<lambda>w. case n of
       Dir _ \<Rightarrow> if children (files w) p \<noteq> [] \<or> p = [] then throw (os_err ENOTEMPTY) w
         else modify (\<lambda>w. w\<lparr>files := mdel p (files w)\<rparr>) w
     | _ \<Rightarrow> modify (\<lambda>w. w\<lparr>files := mdel p (files w)\<rparr>) w)
     (\<lambda>_. without F p) (\<lambda>e fs. \<not> c \<and> has_file F p pm cnt fs)"
    by (simp add: n) (rule ft_modify_files, simp)
qed (auto dest: has_file_walk)

text \<open>The tree \<open>F\<close> with the file \<open>p\<close> and nothing at \<open>tmp\<close>.\<close>

definition replaced :: "fsys \<Rightarrow> path \<Rightarrow> path \<Rightarrow> nat \<Rightarrow> content \<Rightarrow> fsys \<Rightarrow> bool" where
  "replaced F tmp p pm cnt fs \<longleftrightarrow>
     fs_wf fs \<and> (\<exists>t. mget fs p = Some (File pm cnt t)) \<and> mget fs tmp = None \<and> same_except {p, tmp} F fs"

lemma relocate_replaced:
  assumes hf: "has_file F (dir @ [a]) pm cnt fs" and "a \<noteq> b" and nd: "\<nexists>pm'. mget F (dir @ [b]) = Some (Dir pm')"
  shows "replaced F (dir @ [a]) (dir @ [b]) pm cnt (relocate (dir @ [a]) (dir @ [b]) fs)"
proof -
  let ?tmp = "dir @ [a]" and ?p = "dir @ [b]"
  from hf obtain t where wf: "fs_wf fs" and t: "mget fs ?tmp = Some (File pm cnt t)"
    and same: "same_except {?tmp} F fs" by (auto simp: has_file_def)
  have np: "\<not> prefix ?tmp ?p" "\<not> prefix ?p ?tmp" using assms(2) by (auto simp: prefix_def)
  have none: "\<forall>x. mget fs (?p @ [x]) = None"
    using wf_no_child [OF wf, of ?p] nd same assms(2) by (simp add: same_except_def)
  have noneT: "mget fs (?tmp @ r) = None" if "r \<noteq> []" for r
    using wf_nothing_below [OF wf _ that, of ?tmp] wf_no_child [OF wf, of ?tmp] t by auto
  obtain pmd where "mget fs dir = Some (Dir pmd)" using fs_wfD(3) [OF wf t] by blast
  with fs_wf_relocate [OF wf none np t] have wf': "fs_wf (relocate ?tmp ?p fs)" by simp
  have below: "\<forall>r. r \<noteq> [] \<longrightarrow> mget fs (?p @ r) = None"
    using wf_nothing_below [OF wf none] by blast
  note look = relocate_lookup(2) [OF fs_wfD(1) [OF wf] below np]
  have "mget (relocate ?tmp ?p fs) q = mget F q" if "q \<noteq> ?p" "q \<noteq> ?tmp" for q
  proof (cases "prefix ?p q \<or> prefix ?tmp q")
    case True
    then obtain r where r: "q = ?p @ r \<or> q = ?tmp @ r" unfolding prefix_def by blast
    moreover from r that have "r \<noteq> []" by auto
    ultimately have r: "q = ?p @ r \<or> q = ?tmp @ r" "r \<noteq> []" .
    have "mget fs q = None"
      using below [rule_format, OF r(2)] noneT [OF r(2)] r(1) by metis
    then have "mget F q = None" using same that by (simp add: same_except_def)
    moreover have "mget (relocate ?tmp ?p fs) q = None"
      using r noneT np by (auto simp: look)
    ultimately show ?thesis by simp
  next
    case False
    with same that show ?thesis by (simp add: look same_except_def)
  qed
  moreover have "mget (relocate ?tmp ?p fs) ?p = Some (File pm cnt t)" "mget (relocate ?tmp ?p fs) ?tmp = None"
    using t np by (simp_all add: look)
  ultimately show ?thesis
    using wf' by (auto simp: replaced_def same_except_def)
qed

lemma ft_Rename_file:
  assumes "a \<noteq> b"
  shows "ftriple c (has_file F (dir @ [a]) pm cnt) (os_Rename (dir @ [a]) (dir @ [b]))
    (\<lambda>_. replaced F (dir @ [a]) (dir @ [b]) pm cnt)
    (\<lambda>e fs. has_file F (dir @ [a]) pm cnt fs \<and> (c \<longrightarrow> (\<exists>pm'. mget F (dir @ [b]) = Some (Dir pm'))))"
  unfolding os_Rename_def
proof (rule ft_sys, rule ft_at_node)
  fix fs n assume hf: "has_file F (dir @ [a]) pm cnt fs" and n: "walk fs [] (dir @ [a]) = Found n"
  from hf obtain t where wf: "fs_wf fs" and t: "mget fs (dir @ [a]) = Some (File pm cnt t)"
    and same: "same_except {dir @ [a]} F fs" by (auto simp: has_file_def)
  from n t wf have n: "n = File pm cnt t" by (simp add: walk_Found_iff)
  obtain pmd where "mget fs dir = Some (Dir pmd)" using fs_wfD(3) [OF wf t] by blast
  then have wd: "walk fs [] dir = Found (Dir pmd)" using wf by (simp add: walk_Found_iff)
  have np: "\<not> prefix (dir @ [a]) (dir @ [b])" using assms by (auto simp: prefix_def)
  have eqb: "mget fs (dir @ [b]) = mget F (dir @ [b])" using same assms by (simp add: same_except_def)
  have ref: "(\<exists>pm'. mget F (dir @ [b]) = Some (Dir pm')) \<or>
      rename_refused fs (dir @ [a]) (dir @ [b]) n (mget fs (dir @ [b])) = None"
    using n by (auto simp: rename_refused_def eqb split: option.splits) (metis is_dir.elims(2))+
  show "ftriple c (\<lambda>g. g = fs)
     (at_node (butlast (dir @ [b])) (\<lambda>parent w.
       case parent of
         Symlink \<Rightarrow> followed (dir @ [b]) w
       | Dir _ \<Rightarrow>
           if dir @ [a] = dir @ [b] then ret () w
           else if prefix (dir @ [a]) (dir @ [b]) \<or> dir @ [a] = [] \<or> dir @ [b] = [] then throw (os_err EINVAL) w
           else case rename_refused (files w) (dir @ [a]) (dir @ [b]) n (mget (files w) (dir @ [b])) of
             Some e \<Rightarrow> throw e w
           | None \<Rightarrow> modify (\<lambda>w. w\<lparr>files := relocate (dir @ [a]) (dir @ [b]) (files w)\<rparr>) w
       | _ \<Rightarrow> throw (os_err ENOTDIR) w))
    (\<lambda>_. replaced F (dir @ [a]) (dir @ [b]) pm cnt)
    (\<lambda>e fs. has_file F (dir @ [a]) pm cnt fs \<and> (c \<longrightarrow> (\<exists>pm'. mget F (dir @ [b]) = Some (Dir pm'))))"
  proof (cases "\<exists>pm'. mget F (dir @ [b]) = Some (Dir pm')")
    case True
    then have "rename_refused fs (dir @ [a]) (dir @ [b]) n (mget fs (dir @ [b])) \<noteq> None"
      by (auto simp: rename_refused_def eqb n)
    with True assms hf wd np show ?thesis
      by (auto simp: ftriple_def at_node_def throw_def)
  next
    case False
    with relocate_replaced [OF hf assms False] ref assms wd np show ?thesis
      by (auto simp: ftriple_def at_node_def modify_def same_env_def)
  qed
qed (auto dest: has_file_walk)

end
