(* ===== verification/Storage_Local_Facts.thy ===== *)
theory Storage_Local_Facts
  imports Storage_Local Storage_FS_Facts Storage_Operation_Facts
begin

text \<open>
  Facts about the local provider: which references lead to which paths, what each operation does
  to the tree (as triples over the calls of \<open>Storage_FS_Facts\<close>).
\<close>

section \<open>Cleaning paths\<close>

definition name_ok :: "string \<Rightarrow> bool" where
  "name_ok c \<longleftrightarrow> c \<noteq> '''' \<and> c \<noteq> ''.'' \<and> CHR ''/'' \<notin> set c"

definition safe_path :: "path \<Rightarrow> bool" where
  "safe_path p \<longleftrightarrow> p \<noteq> [] \<and> (\<forall>c \<in> set p. name_ok c \<and> c \<noteq> ''..'')"

definition clean_form :: "string list \<Rightarrow> bool" where
  "clean_form cs \<longleftrightarrow> (\<exists>k ns. cs = replicate k ''..'' @ ns \<and> (\<forall>c \<in> set ns. name_ok c \<and> c \<noteq> ''..''))"

lemma clean_form_snoc: "clean_form cs \<Longrightarrow> name_ok c \<Longrightarrow> c \<noteq> ''..'' \<Longrightarrow> clean_form (cs @ [c])"
  unfolding clean_form_def by (metis append.assoc rotate1.simps(2) set_rotate1 set_ConsD)

lemma clean_form_pop:
  assumes "clean_form (cs @ [t])" "t \<noteq> ''..''"
  shows "clean_form cs"
proof -
  from assms(1) obtain k ns where k: "cs @ [t] = replicate k ''..'' @ ns" "\<forall>c \<in> set ns. name_ok c \<and> c \<noteq> ''..''"
    by (auto simp: clean_form_def)
  have "ns \<noteq> []"
  proof
    assume "ns = []"
    with k(1) have "last (replicate k ''..'') = t" by (metis append_Nil2 last_snoc)
    moreover from \<open>ns = []\<close> k(1) have "k \<noteq> 0" by (cases k) auto
    ultimately show False using assms(2) by simp
  qed
  then obtain ms m where "ns = ms @ [m]" by (metis rev_exhaust)
  with k show ?thesis by (auto simp: clean_form_def)
qed

lemma clean_form_up:
  assumes "clean_form (cs @ [''..''])"
  shows "clean_form (cs @ [''..'', ''..''])"
proof -
  from assms obtain k ns where k: "cs @ [''..''] = replicate k ''..'' @ ns" "\<forall>c \<in> set ns. name_ok c \<and> c \<noteq> ''..''"
    by (auto simp: clean_form_def)
  have "ns = []"
  proof (rule ccontr)
    assume "ns \<noteq> []"
    with k(1) have "last ns = ''..''" by (metis last_appendR last_snoc)
    with \<open>ns \<noteq> []\<close> k(2) show False by (metis last_in_set)
  qed
  with k(1) have "cs @ [''..'', ''..''] = replicate (Suc k) ''..''"
    by (metis append.assoc append_Cons append_Nil append_Nil2 replicate_append_same replicate_Suc)
  then show ?thesis by (auto simp: clean_form_def intro: exI [of _ "Suc k"] exI [of _ "[]"])
qed

lemma cleanLoop_form:
  assumes "clean_form (rev st)" "\<forall>c \<in> set cs. CHR ''/'' \<notin> set c"
  shows "clean_form (cleanLoop st cs)"
  using assms
proof (induction st cs rule: cleanLoop.induct)
  case (1 st)
  then show ?case by simp
next
  case (2 st c cs)
  consider "c = '''' \<or> c = ''.''" | "c = ''..''" | "name_ok c" "c \<noteq> ''..''"
    using "2.prems"(2) by (auto simp: name_ok_def)
  then show ?case
  proof cases
    case 1
    with 2 show ?thesis by auto
  next
    case 2
    show ?thesis
    proof (cases st)
      case Nil
      have "clean_form [''..'']" by (auto simp: clean_form_def intro: exI [of _ 1] exI [of _ "[]"])
      with 2 Nil "2.IH"(2) "2.prems" show ?thesis by simp
    next
      case (Cons t ts)
      show ?thesis
      proof (cases "t = ''..''")
        case True
        with clean_form_up [of "rev ts"] 2 Cons "2.IH"(3) "2.prems" show ?thesis by simp
      next
        case False
        with clean_form_pop [of "rev ts" t] 2 Cons "2.IH"(4) "2.prems" show ?thesis by simp
      qed
    qed
  next
    case 3
    then have "\<not> (c = '''' \<or> c = ''.'')" by (simp add: name_ok_def)
    with 3 "2.IH"(5) "2.prems" clean_form_snoc show ?thesis by simp
  qed
qed

lemma filepath_Clean_form: "clean_form (filepath_Clean key)"
  unfolding filepath_Clean_def
  by (rule cleanLoop_form) (auto simp: clean_form_def dest: splitAt_no_sep)

lemma filepath_Clean_safe:
  assumes "filepath_Clean key \<noteq> []" "\<not> escapes (filepath_Clean key)"
  shows "safe_path (filepath_Clean key)"
proof -
  obtain k ns where k: "filepath_Clean key = replicate k ''..'' @ ns" "\<forall>c \<in> set ns. name_ok c \<and> c \<noteq> ''..''"
    using filepath_Clean_form [of key] by (auto simp: clean_form_def)
  with assms(2) have "k = 0" by (cases k) (auto simp: escapes_def)
  with k assms(1) show ?thesis by (simp add: safe_path_def)
qed

text \<open>A clean name is its own clean form.\<close>

lemma cleanLoop_safe: "(\<forall>c \<in> set cs. name_ok c \<and> c \<noteq> ''..'') \<Longrightarrow> cleanLoop st cs = rev st @ cs"
  by (induction cs arbitrary: st) (auto simp: name_ok_def)

lemma filepath_Clean_joinSep:
  assumes "safe_path p"
  shows "filepath_Clean (joinSep ''/'' p) = p"
proof -
  have "splitAt CHR ''/'' (joinSep ''/'' p) = p"
    using assms by (intro splitAt_joinSep) (auto simp: safe_path_def name_ok_def list_all_iff)
  with cleanLoop_safe [of p "[]"] assms show ?thesis
    by (simp add: filepath_Clean_def safe_path_def)
qed

lemma filepath_Rel_self: "filepath_Rel r (r @ c) = c"
  by (induction r) (cases c; simp)+

section \<open>From references to paths\<close>

definition valid_ref :: "Provider \<Rightarrow> Ref \<Rightarrow> bool" where
  "valid_ref p ref \<longleftrightarrow> Ref_Validate ref = None \<and> ref_Provider ref = prov_name p \<and>
     \<not> filepath_IsAbs (ref_Key ref) \<and> filepath_Clean (ref_Key ref) \<noteq> [] \<and>
     \<not> escapes (filepath_Clean (ref_Key ref))"

abbreviation ref_path :: "Ref \<Rightarrow> path" where
  "ref_path ref \<equiv> filepath_Clean (ref_Key ref)"

lemma valid_ref_safe: "valid_ref p ref \<Longrightarrow> safe_path (ref_path ref)"
  by (simp add: valid_ref_def filepath_Clean_safe)

lemma pathFor_valid:
  "valid_ref p ref \<Longrightarrow>
     pathFor p ref = bnd (checkComponents p (ref_Key ref) [] (ref_path ref)) (\<lambda>_. ret (ref_path ref))"
  by (simp add: fun_eq_iff pathFor_def valid_ref_def check_def Let_def filepath_Rel_self bnd_def ret_def)

lemma pathFor_invalid:
  assumes "\<not> valid_ref p ref"
  shows "\<exists>e. pathFor p ref = throw e \<and>
    (errors_Is e (StorageKind ErrInvalidRef) \<or> errors_Is e (StorageKind ErrProviderMismatch))"
proof (cases "Ref_Validate ref")
  case None
  with assms show ?thesis
    by (auto simp: fun_eq_iff pathFor_def valid_ref_def check_def Let_def filepath_Rel_self bnd_def
        ret_def throw_def nameErr_def)
next
  case (Some e)
  then show ?thesis
    by (auto simp: fun_eq_iff pathFor_def check_def bnd_def throw_def Ref_Validate_Is)
qed

text \<open>Nothing on the way to the path is a link, and only directories are on the way.\<close>

definition clear :: "fsys \<Rightarrow> path \<Rightarrow> bool" where
  "clear F p \<longleftrightarrow> no_link F p \<and> walk F [] p \<noteq> NotDir"

lemma clear_walk: "clear F p \<Longrightarrow> walk F [] p \<noteq> Through"
  by (simp add: clear_def no_link_walk)

lemma clear_node: "clear F p \<Longrightarrow> mget F p \<noteq> Some Symlink"
  by (simp add: clear_def no_link_def)

lemma clear_dir_path:
  assumes "fs_wf F" "clear F p" "p \<noteq> []"
  shows "dir_path F (butlast p)"
  unfolding dir_path_def
proof (intro allI impI)
  fix q n assume q: "prefix q (butlast p)" "mget F q = Some n"
  obtain y ys where p: "p = q @ y # ys"
  proof -
    from q(1) obtain r where "butlast p = q @ r" by (auto simp: prefix_def)
    then have "p = q @ r @ [last p]" using assms(3) by (metis append.assoc append_butlast_last_id)
    then show ?thesis using that by (cases r) auto
  qed
  have "walk F [] q = Found n" using assms(1) q(2) by (simp add: walk_Found_iff)
  with assms(2) p show "is_dir n"
    using no_link_walk [of F p] by (cases n) (auto simp: clear_def walk_append)
qed

lemma ft_checkComponents:
  assumes "fs_wf F" "mget F cur \<noteq> None" "no_link F cur"
  shows "ftriple c (\<lambda>fs. fs = F) (checkComponents p key cur rest)
    (\<lambda>_ fs. fs = F \<and> clear F (cur @ rest)) (\<lambda>e fs. fs = F \<and> (c \<longrightarrow> \<not> clear F (cur @ rest)))"
  using assms(2,3)
proof (induction rest arbitrary: cur)
  case Nil
  then obtain n where "mget F cur = Some n" by auto
  with walk_existing [OF assms(1), of "[]" cur] Nil have "clear F cur" by (simp add: clear_def)
  then show ?case by (auto intro: ft_ret)
next
  case (Cons x xs)
  let ?q = "cur @ [x]" and ?all = "cur @ x # xs"
  have nt: "walk F [] ?q \<noteq> Through"
    using walk_Through [of F "[]" ?q] Cons.prems(2) by (auto simp: no_link_def strict_prefix_def)
  show ?case
    unfolding checkComponents.simps
  proof (rule ft_bnd [OF ft_attempt])
    show "ftriple c (\<lambda>fs. fs = F) (os_Lstat ?q)
      (\<lambda>info fs. case Inr info of Inl e \<Rightarrow> fs = F \<and> look_fails c F ?q e
        | Inr info \<Rightarrow> fs = F \<and> (\<exists>n m. mget F ?q = Some n \<and> info = node_info m n))
      (\<lambda>e fs. case Inl e of Inl e \<Rightarrow> fs = F \<and> look_fails c F ?q e
        | Inr info \<Rightarrow> fs = F \<and> (\<exists>n m. mget F ?q = Some n \<and> info = node_info m n))"
      using ft_Lstat [OF assms(1) nt] by simp
  next
    fix r
    show "ftriple c (\<lambda>fs. case r of Inl e \<Rightarrow> fs = F \<and> look_fails c F ?q e
        | Inr info \<Rightarrow> fs = F \<and> (\<exists>n m. mget F ?q = Some n \<and> info = node_info m n))
      (case r of
         Inl e \<Rightarrow>
           if errors_Is e (OS ErrNotExist) then ret ()
           else throw (wrapAs p ErrStat (fullPath p ?q) e)
       | Inr info \<Rightarrow>
           if fi_kind info = KSymlink then throw (nameErr p ErrInvalidRef key)
           else checkComponents p key ?q xs)
      (\<lambda>_ fs. fs = F \<and> clear F ?all) (\<lambda>e fs. fs = F \<and> (c \<longrightarrow> \<not> clear F ?all))"
    proof (cases r)
      case (Inl e)
      have missing: "clear F ?all" if "walk F [] ?q = Missing"
      proof -
        have none: "mget F ?q = None"
          using that walk_existing [OF assms(1), of "[]" ?q] by (cases "mget F ?q") auto
        have "mget F q \<noteq> Some Symlink" if q: "prefix q ?all" for q
        proof (cases "prefix q cur")
          case True
          with Cons.prems(2) show ?thesis by (simp add: no_link_def)
        next
          case False
          with q obtain us where us: "q = cur @ us" "prefix us (x # xs)" by (auto simp: prefix_append)
          with False obtain r where "q = ?q @ r" by (cases us) auto
          then show ?thesis
            using wf_ancestor [OF assms(1), of ?q r] none by (cases r) auto
        qed
        moreover have "walk F [] ?all = Missing"
          using that walk_append [of F "[]" ?q "hd xs" "tl xs"] by (cases xs) auto
        ultimately show ?thesis by (simp add: clear_def no_link_def)
      qed
      have notdir: "\<not> clear F ?all" if "walk F [] ?q = NotDir"
        using that walk_append [of F "[]" ?q "hd xs" "tl xs"] by (cases xs) (auto simp: clear_def)
      have "mget F ?q = None \<Longrightarrow> walk F [] ?q \<noteq> Missing \<Longrightarrow> walk F [] ?q = NotDir"
        using nt assms(1) by (cases "walk F [] ?q") (auto simp: walk_Found_iff)
      with missing notdir Inl show ?thesis
        by (auto simp: look_fails_def intro!: ft_ret ft_throw)
    next
      case (Inr info)
      show ?thesis
      proof (rule ft_start)
        fix G assume "case r of Inl e \<Rightarrow> G = F \<and> look_fails c F ?q e
          | Inr info \<Rightarrow> G = F \<and> (\<exists>n m. mget F ?q = Some n \<and> info = node_info m n)"
        with Inr obtain n m where n: "G = F" "mget F ?q = Some n" "info = node_info m n" by auto
        show "ftriple c (\<lambda>fs. fs = G) (case r of
            Inl e \<Rightarrow> if errors_Is e (OS ErrNotExist) then ret () else throw (wrapAs p ErrStat (fullPath p ?q) e)
          | Inr info \<Rightarrow> if fi_kind info = KSymlink then throw (nameErr p ErrInvalidRef key)
              else checkComponents p key ?q xs)
          (\<lambda>_ fs. fs = F \<and> clear F ?all) (\<lambda>e fs. fs = F \<and> (c \<longrightarrow> \<not> clear F ?all))"
        proof (cases "n = Symlink")
          case True
          with n have "fi_kind info = KSymlink" by simp
          moreover have "prefix ?q ?all" by simp
          with n True have "\<not> clear F ?all" unfolding clear_def no_link_def by blast
          ultimately have "fi_kind info = KSymlink" "\<not> clear F ?all" .
          with n Inr show ?thesis by (auto intro: ft_throw)
        next
          case False
          with n have "fi_kind info \<noteq> KSymlink" by simp
          moreover have "no_link F ?q"
            using Cons.prems(2) n(2) False by (auto simp: no_link_def)
          ultimately show ?thesis
            using n Inr Cons.IH [of ?q] by simp
        qed
      qed
    qed
  qed
qed

lemma ft_pathFor:
  assumes "fs_wf F"
  shows "ftriple c (\<lambda>fs. fs = F) (pathFor p ref)
    (\<lambda>path fs. fs = F \<and> valid_ref p ref \<and> path = ref_path ref \<and> clear F path)
    (\<lambda>e fs. fs = F \<and> (c \<longrightarrow> \<not> (valid_ref p ref \<and> clear F (ref_path ref))))"
proof (cases "valid_ref p ref")
  case True
  have "no_link F []" "mget F [] \<noteq> None"
    using fs_wfD(2) [OF assms] by (auto simp: no_link_def)
  from ft_checkComponents [OF assms this(2,1), of c p "ref_Key ref" "ref_path ref"] True
  have "ftriple c (\<lambda>fs. fs = F) (checkComponents p (ref_Key ref) [] (ref_path ref))
    (\<lambda>_ fs. fs = F \<and> clear F (ref_path ref))
    (\<lambda>e fs. fs = F \<and> (c \<longrightarrow> \<not> (valid_ref p ref \<and> clear F (ref_path ref))))"
    by simp
  then show ?thesis
    unfolding pathFor_valid [OF True] by (rule ft_bnd) (rule ft_ret, use True in simp)
next
  case False
  with pathFor_invalid [OF False] show ?thesis by (auto intro: ft_throw)
qed

section \<open>Put\<close>

text \<open>What a scripted reader delivers before its end or its first error.\<close>

fun script_result :: "(content \<times> gerror option) list \<Rightarrow> content \<times> gerror option" where
  "script_result [] = ([], None)"
| "script_result ((bs, Some e) # xs) = (bs, if errors_Is e (OS IoEOF) then None else Some e)"
| "script_result ((bs, None) # xs) = (bs @ fst (script_result xs), snd (script_result xs))"

lemma ft_writeChunk:
  "ftriple c (has_file F p pm cnt) (writeChunk (At p) bs k)
     (\<lambda>_. has_file F p pm (cnt @ bs)) (\<lambda>e fs. \<not> c \<and> (\<exists>cnt'. has_file F p pm cnt' fs))"
proof (cases "bs = []")
  case True
  then show ?thesis by (auto simp: writeChunk_def intro: ft_ret)
next
  case False
  show ?thesis
    unfolding writeChunk_def if_not_P [OF False]
  proof (rule ft_bnd)
    show "ftriple c (has_file F p pm cnt) (file_Write (At p) bs)
     (\<lambda>(k, e) fs. has_file F p pm (cnt @ take k bs) fs \<and> (e = None \<longrightarrow> k = length bs) \<and> (c \<longrightarrow> e = None))
     (\<lambda>e fs. \<not> c \<and> (\<exists>cnt'. has_file F p pm cnt' fs))"
      by (rule ft_conseq [OF ft_file_Write]) auto
  qed (auto intro!: ft_ret ft_throw split: option.splits)
qed

lemma ft_copyLoop_Script:
  "length xs < n \<Longrightarrow>
   ftriple c (has_file F p pm cnt) (copyLoop n (At p) (Script xs) k)
     (\<lambda>_ fs. snd (script_result xs) = None \<and> has_file F p pm (cnt @ fst (script_result xs)) fs)
     (\<lambda>e fs. (\<not> c \<or> snd (script_result xs) = Some e) \<and> (\<exists>cnt'. has_file F p pm cnt' fs))"
proof (induction xs arbitrary: n cnt k)
  case Nil
  then obtain m where n: "n = Suc m" by (cases n) auto
  show ?case
    unfolding n copyLoop.simps
    by (rule ft_bnd [OF ft_ctx_Err [where Q = "\<lambda>_. has_file F p pm cnt"]])
       (auto simp: reader_Read_def writeChunk_def bnd_def ret_def ftriple_def)
next
  case (Cons x xs)
  then obtain m where n: "n = Suc m" "length xs < m" by (cases n) auto
  obtain bs re where x: "x = (bs, re)" by force
  have read: "bnd (reader_Read (Script (x # xs))) f = f (x, Script xs)" for f :: "_ \<Rightarrow> nat io"
    by (simp add: reader_Read_def bnd_def ret_def fun_eq_iff)
  have rest: "ftriple c (has_file F p pm (cnt @ bs))
      (case re of Some e \<Rightarrow> if errors_Is e (OS IoEOF) then ret k' else throw e
        | None \<Rightarrow> copyLoop m (At p) (Script xs) k')
      (\<lambda>_ fs. snd (script_result (x # xs)) = None \<and> has_file F p pm (cnt @ fst (script_result (x # xs))) fs)
      (\<lambda>e fs. (\<not> c \<or> snd (script_result (x # xs)) = Some e) \<and> (\<exists>cnt'. has_file F p pm cnt' fs))" for k'
  proof (cases re)
    case None
    with Cons.IH [OF n(2), of "cnt @ bs" k'] x show ?thesis by simp
  qed (auto simp: x intro!: ft_ret ft_throw)
  show ?case
    unfolding n(1) copyLoop.simps
  proof (rule ft_bnd [OF ft_ctx_Err [where Q = "\<lambda>_. has_file F p pm cnt"]])
    show "ftriple c (has_file F p pm cnt)
      (bnd (reader_Read (Script (x # xs))) (\<lambda>((bs, readErr), r).
       bnd (writeChunk (At p) bs k) (\<lambda>written. case readErr of
           Some e \<Rightarrow> if errors_Is e (OS IoEOF) then ret written else throw e
         | None \<Rightarrow> copyLoop m (At p) r written)))
      (\<lambda>_ fs. snd (script_result (x # xs)) = None \<and> has_file F p pm (cnt @ fst (script_result (x # xs))) fs)
      (\<lambda>e fs. (\<not> c \<or> snd (script_result (x # xs)) = Some e) \<and> (\<exists>cnt'. has_file F p pm cnt' fs))"
      unfolding read unfolding x prod.case
      by (rule ft_bnd [OF ft_conseq [OF ft_writeChunk] rest [unfolded x]]) auto
  qed auto
qed

lemma ft_copyContext_Script:
  "ftriple c (has_file F p pm cnt) (copyContext (At p) (Script xs))
     (\<lambda>_ fs. snd (script_result xs) = None \<and> has_file F p pm (cnt @ fst (script_result xs)) fs)
     (\<lambda>e fs. (\<not> c \<or> snd (script_result xs) = Some e) \<and> (\<exists>cnt'. has_file F p pm cnt' fs))"
proof -
  have "copyContext (At p) (Script xs) = copyLoop (Suc (length xs)) (At p) (Script xs) 0"
    by (simp add: fun_eq_iff copyContext_def readerFuel_def)
  with ft_copyLoop_Script [of xs "Suc (length xs)"] show ?thesis by simp
qed

abbreviation some_file :: "fsys \<Rightarrow> path \<Rightarrow> fsys \<Rightarrow> bool" where
  "some_file F p fs \<equiv> \<exists>pm cnt. has_file F p pm cnt fs"

lemma ft_ex:
  assumes "\<And>x. ftriple c (P x) m Q E"
  shows "ftriple c (\<lambda>fs. \<exists>x. P x fs) m Q E"
proof (rule ftripleI)
  fix w assume w: "honest w" "c \<longrightarrow> calm w" "\<exists>x. P x (files w)"
  then obtain x where "P x (files w)" by blast
  from ft_run [OF assms w(1,2) this] show "case m w of (r, w') \<Rightarrow> same_env w w' \<and>
      (case r of Ok x \<Rightarrow> Q x (files w') | Err e \<Rightarrow> E e (files w') | Diverges \<Rightarrow> False)" .
qed

lemma ft_Remove_some:
  "ftriple c (some_file F p) (os_Remove p) (\<lambda>_. without F p) (\<lambda>e fs. \<not> c \<and> some_file F p fs)"
  by (intro ft_ex ft_conseq [OF ft_Remove_file]) auto

abbreviation gone_or_left :: "bool \<Rightarrow> fsys \<Rightarrow> path \<Rightarrow> fsys \<Rightarrow> bool" where
  "gone_or_left c F p fs \<equiv> without F p fs \<or> \<not> c \<and> some_file F p fs"

lemma ft_removeTmp: "ftriple c (some_file F p) (removeTmp p) (\<lambda>_. gone_or_left c F p) (\<lambda>_ _. False)"
  unfolding removeTmp_def
  by (rule ft_bnd [OF ft_attempt [OF ft_conseq [OF ft_Remove_some]] ft_ret]) auto

lemma ft_cleanup: "ftriple c (some_file F p) (cleanup p) (\<lambda>_. gone_or_left c F p) (\<lambda>_ _. False)"
  unfolding cleanup_def
proof (rule ft_bnd)
  show "ftriple c (some_file F p) (attempt file_Close) (\<lambda>_. some_file F p) (\<lambda>_ _. False)"
    by (rule ft_attempt, rule ft_nop) auto
  show "ftriple c (some_file F p) (bnd (attempt (os_Remove p)) (\<lambda>r. ret (errors_Join [failed x, failed r])))
      (\<lambda>_. gone_or_left c F p) (\<lambda>_ _. False)" for x :: "gerror + unit"
    by (rule ft_bnd [OF ft_attempt [OF ft_conseq [OF ft_Remove_some]] ft_ret]) auto
qed

lemma ft_orCleanup:
  assumes "ftriple c P m Q (\<lambda>_. M)" "ftriple c M clean (\<lambda>_. R) (\<lambda>_ _. False)" "\<And>e fs. R fs \<Longrightarrow> E e fs"
  shows "ftriple c P (orCleanup wrap clean m) Q E"
  unfolding orCleanup_def
proof (rule ft_bnd [OF ft_attempt])
  show "ftriple c P m (\<lambda>x. case_sum (\<lambda>_. M) Q (Inr x)) (\<lambda>e. case_sum (\<lambda>_. M) Q (Inl e))"
    using assms(1) by simp
  fix r
  show "ftriple c (case_sum (\<lambda>_. M) Q r)
      (case r of Inr x \<Rightarrow> ret x | Inl e \<Rightarrow> bnd clean (\<lambda>c. throw (wrap (the_join [Some e, c])))) Q E"
  proof (cases r)
    case (Inl e)
    have "ftriple c M clean (\<lambda>_. R) E" by (rule ft_conseq [OF assms(2)]) auto
    with Inl assms(3) show ?thesis by (auto intro: ft_bnd ft_throw)
  qed (auto intro: ft_ret)
qed

text \<open>The tree after a \<open>Put\<close> that returned, and after one that failed.\<close>

definition put_done :: "fsys \<Rightarrow> path \<Rightarrow> nat \<Rightarrow> content \<Rightarrow> fsys \<Rightarrow> bool" where
  "put_done F p pm cnt fs \<longleftrightarrow> fs_wf fs \<and> (\<exists>t. mget fs p = Some (File pm cnt t)) \<and>
     (\<forall>q. q \<noteq> p \<longrightarrow> mget fs q = mget F q \<or>
        (mget F q = None \<and> strict_prefix q p \<and> mget fs q = Some (Dir 488)))"

definition is_temp_of :: "path \<Rightarrow> path \<Rightarrow> bool" where
  "is_temp_of p q \<longleftrightarrow> (\<exists>name. q = butlast p @ [''.tethux-'' @ name])"

definition put_undone :: "bool \<Rightarrow> fsys \<Rightarrow> path \<Rightarrow> fsys \<Rightarrow> bool" where
  "put_undone c F p fs \<longleftrightarrow> fs_wf fs \<and>
     (\<forall>q. mget fs q = mget F q \<or> (mget F q = None \<and>
        (strict_prefix q p \<and> mget fs q = Some (Dir 488) \<or>
         \<not> c \<and> is_temp_of p q \<and> (\<exists>pm cnt t. mget fs q = Some (File pm cnt t)))))"

lemma mkdir_undone:
  assumes "fs_wf G" "mkdir_ext (butlast p) 488 F G" "p \<noteq> []"
  shows "put_undone c F p G"
proof -
  have "strict_prefix q p" if "prefix q (butlast p)" for q
    using prefix_length_le [OF that] prefix_order.trans [OF that prefixeq_butlast] assms(3)
    by (cases p) (auto simp: strict_prefix_def split: if_splits)
  with assms(1,2) show ?thesis unfolding put_undone_def mkdir_ext_def by blast
qed

lemma undone_without:
  assumes "put_undone c F p G" "mget G tmp = None" "without G tmp fs"
  shows "put_undone c F p fs"
proof -
  have "mget fs q = mget G q" for q
    using assms(2,3) by (cases "q = tmp") (auto simp: without_def same_except_def)
  with assms(1,3) show ?thesis by (simp add: put_undone_def without_def)
qed

lemma undone_left:
  assumes "put_undone c F p G" "mget G tmp = None" "is_temp_of p tmp" "\<not> c" "some_file G tmp fs"
  shows "put_undone c F p fs"
proof -
  from assms(5) have wf: "fs_wf fs" and same: "\<And>q. q \<noteq> tmp \<Longrightarrow> mget fs q = mget G q"
    and t: "\<exists>pm cnt t. mget fs tmp = Some (File pm cnt t)" by (auto simp: has_file_def same_except_def)
  have "mget F tmp = None"
    using assms(1,2) unfolding put_undone_def by (metis option.distinct(1))
  with assms(1,3,4) same t wf show ?thesis
    unfolding put_undone_def by metis
qed

lemma undone_replaced:
  assumes "put_undone True F p G" "mget G tmp = None" "replaced G tmp p pm cnt fs"
  shows "put_done F p pm cnt fs"
proof -
  have "mget fs q = mget G q" if "q \<noteq> p" for q
    using assms(2,3) that by (cases "q = tmp") (auto simp: replaced_def same_except_def)
  with assms(1,3) show ?thesis unfolding put_done_def put_undone_def replaced_def by metis
qed

text \<open>The steps of \<open>Put\<close> once the temporary file exists.\<close>

definition putTemp :: "(gerror \<Rightarrow> gerror) \<Rightarrow> nat \<Rightarrow> reader \<Rightarrow> path \<Rightarrow> path \<Rightarrow> unit io" where
  "putTemp fail mode r path tmp =
     bnd (orCleanup fail (cleanup tmp) (file_Chmod tmp mode)) (\<lambda>_.
     bnd (orCleanup fail (cleanup tmp) (copyContext (At tmp) r)) (\<lambda>_.
     bnd (orCleanup fail (cleanup tmp) file_Sync) (\<lambda>_.
     bnd (orCleanup fail (removeTmp tmp) file_Close) (\<lambda>_.
     orCleanup fail (removeTmp tmp) (os_Rename tmp path)))))"

lemma ft_putRename:
  assumes "tmp = dir @ [a]" "path = dir @ [b]"
  shows "ftriple c (has_file G tmp pm cnt) (os_Rename tmp path)
    (\<lambda>_ fs. tmp \<noteq> path \<and> replaced G tmp path pm cnt fs \<or> tmp = path \<and> has_file G tmp pm cnt fs)
    (\<lambda>e fs. has_file G tmp pm cnt fs \<and> (c \<longrightarrow> tmp \<noteq> path \<and> (\<exists>pm'. mget G path = Some (Dir pm'))))"
proof (cases "a = b")
  case False
  with assms show ?thesis by (auto intro: ft_conseq [OF ft_Rename_file])
next
  case True
  show ?thesis
    unfolding os_Rename_def
  proof (rule ft_sys, rule ft_at_node)
    fix fs n assume hf: "has_file G tmp pm cnt fs"
    then obtain pmd where "mget fs dir = Some (Dir pmd)"
      using fs_wfD(3) [of fs dir a] assms(1) by (auto simp: has_file_def)
    then have "walk fs [] (butlast path) = Found (Dir pmd)"
      using hf assms(2) by (simp add: walk_Found_iff has_file_def)
    with hf True assms show "ftriple c (\<lambda>g. g = fs)
       (at_node (butlast path) (\<lambda>parent w.
         case parent of
           Symlink \<Rightarrow> followed path w
         | Dir _ \<Rightarrow>
             if tmp = path then ret () w
             else if prefix tmp path \<or> tmp = [] \<or> path = [] then throw (os_err EINVAL) w
             else case rename_refused (files w) tmp path n (mget (files w) path) of
               Some e \<Rightarrow> throw e w
             | None \<Rightarrow> modify (\<lambda>w. w\<lparr>files := relocate tmp path (files w)\<rparr>) w
         | _ \<Rightarrow> throw (os_err ENOTDIR) w))
       (\<lambda>_ fs. tmp \<noteq> path \<and> replaced G tmp path pm cnt fs \<or> tmp = path \<and> has_file G tmp pm cnt fs)
       (\<lambda>e fs. has_file G tmp pm cnt fs \<and> (c \<longrightarrow> tmp \<noteq> path \<and> (\<exists>pm'. mget G path = Some (Dir pm'))))"
      by (auto simp: ftriple_def at_node_def ret_def)
  qed (auto dest: has_file_walk)
qed

lemma ft_putTemp:
  assumes "tmp = dir @ [a]" "path = dir @ [b]"
  shows "ftriple c (has_file G tmp pm0 []) (putTemp fail mode (Script xs) path tmp)
    (\<lambda>_ fs. snd (script_result xs) = None \<and>
       (tmp \<noteq> path \<and> replaced G tmp path mode (fst (script_result xs)) fs \<or>
        tmp = path \<and> has_file G tmp mode (fst (script_result xs)) fs))
    (\<lambda>e fs. gone_or_left c G tmp fs \<and>
       (c \<longrightarrow> snd (script_result xs) \<noteq> None \<or> tmp \<noteq> path \<and> (\<exists>pm'. mget G path = Some (Dir pm'))))"
    (is "ftriple c _ _ ?Q ?E")
proof -
  let ?data = "fst (script_result xs)" and ?ok = "snd (script_result xs) = None"
  let ?bad = "c \<longrightarrow> \<not> ?ok \<or> tmp \<noteq> path \<and> (\<exists>pm'. mget G path = Some (Dir pm'))"
  have clean: "ftriple c (\<lambda>fs. some_file G tmp fs \<and> ?bad) (cleanup tmp) (\<lambda>_ fs. gone_or_left c G tmp fs \<and> ?bad) (\<lambda>_ _. False)"
    "ftriple c (\<lambda>fs. some_file G tmp fs \<and> ?bad) (removeTmp tmp) (\<lambda>_ fs. gone_or_left c G tmp fs \<and> ?bad) (\<lambda>_ _. False)"
    by (rule ft_conseq [OF ft_frame [OF ft_cleanup]]; simp)
       (rule ft_conseq [OF ft_frame [OF ft_removeTmp]]; simp)
  note wc = ft_orCleanup [OF _ clean(1), where E = ?E] and wr = ft_orCleanup [OF _ clean(2), where E = ?E]
  have s1: "ftriple c (has_file G tmp pm0 []) (file_Chmod tmp mode)
      (\<lambda>_. has_file G tmp mode []) (\<lambda>_ fs. some_file G tmp fs \<and> ?bad)"
    by (rule ft_conseq [OF ft_file_Chmod]) auto
  have s2: "ftriple c (has_file G tmp mode []) (copyContext (At tmp) (Script xs))
      (\<lambda>_ fs. ?ok \<and> has_file G tmp mode ?data fs) (\<lambda>_ fs. some_file G tmp fs \<and> ?bad)"
    by (rule ft_conseq [OF ft_copyContext_Script]) auto
  have s3: "ftriple c (\<lambda>fs. ?ok \<and> has_file G tmp mode ?data fs) file_Sync
      (\<lambda>_ fs. ?ok \<and> has_file G tmp mode ?data fs) (\<lambda>_ fs. some_file G tmp fs \<and> ?bad)"
    by (rule ft_nop) auto
  have s4: "ftriple c (\<lambda>fs. ?ok \<and> has_file G tmp mode ?data fs) file_Close
      (\<lambda>_ fs. ?ok \<and> has_file G tmp mode ?data fs) (\<lambda>_ fs. some_file G tmp fs \<and> ?bad)"
    by (rule ft_nop) auto
  have s5: "ftriple c (\<lambda>fs. ?ok \<and> has_file G tmp mode ?data fs) (os_Rename tmp path)
      ?Q (\<lambda>_ fs. some_file G tmp fs \<and> ?bad)"
    by (rule ft_prop, rule ft_conseq [OF ft_putRename [OF assms]]) auto
  show ?thesis
    unfolding putTemp_def
    by (rule ft_bnd [OF wc [OF s1] ft_bnd [OF wc [OF s2] ft_bnd [OF wc [OF s3]
          ft_bnd [OF wr [OF s4] wr [OF s5]]]]]) auto
qed

lemma Put_eq:
  "Put p ref (Some r) opts =
     bnd ctx_Err (\<lambda>_.
     bnd (check (map_option (nameErr p storage_kind.ErrInvalidOptions) (put_refused opts))) (\<lambda>_.
     bnd (pathFor p ref) (\<lambda>path.
     bnd (wrapErr (wrapAs p ErrCreate (Ref_String ref)) (os_MkdirAll (butlast path) 488)) (\<lambda>_.
     bnd (wrapErr (wrapAs p ErrCreate (Ref_String ref)) (os_CreateTemp (butlast path))) (\<lambda>tmp.
     putTemp (wrapAs p ErrPut (Ref_String ref)) (putMode opts) r path tmp)))))"
  by (simp add: Put_def putTemp_def Let_def)

text \<open>What keeps a \<open>Put\<close> from succeeding when nothing fails.\<close>

definition put_blocked :: "Provider \<Rightarrow> fsys \<Rightarrow> Ref \<Rightarrow> PutOptions \<Rightarrow> (content \<times> gerror option) list \<Rightarrow> bool" where
  "put_blocked p F ref opts xs \<longleftrightarrow>
     put_refused opts \<noteq> None \<or> \<not> valid_ref p ref \<or> \<not> clear F (ref_path ref) \<or>
     snd (script_result xs) \<noteq> None \<or> (\<exists>pm. mget F (ref_path ref) = Some (Dir pm)) \<or>
     (\<exists>q. is_temp_of (ref_path ref) q \<and> mget F q \<noteq> None)"

lemma mkdir_ext_outside: "mkdir_ext d pm F G \<Longrightarrow> \<not> prefix q d \<Longrightarrow> mget G q = mget F q"
  by (auto simp: mkdir_ext_def)

lemma not_prefix_butlast: "p \<noteq> [] \<Longrightarrow> \<not> prefix (butlast p @ [x]) (butlast p)"
  by (auto dest: prefix_length_le)

lemma ft_putInto:
  assumes "fs_wf G" "mkdir_ext (butlast path) 488 F G" "mget G (butlast path) = Some (Dir pm)" "path \<noteq> []"
  shows "ftriple c (\<lambda>fs. fs = G)
    (bnd (wrapErr create (os_CreateTemp (butlast path))) (\<lambda>tmp. putTemp fail mode (Script xs) path tmp))
    (\<lambda>_ fs. snd (script_result xs) = None \<and> put_done F path mode (fst (script_result xs)) fs)
    (\<lambda>_ fs. put_undone c F path fs \<and> (c \<longrightarrow> snd (script_result xs) \<noteq> None \<or>
       (\<exists>pm. mget F path = Some (Dir pm)) \<or> (\<exists>q. is_temp_of path q \<and> mget F q \<noteq> None)))"
    (is "ftriple c _ _ ?Q ?E")
proof (rule ft_bnd)
  have und: "put_undone c' F path G" for c' by (rule mkdir_undone [OF assms(1,2,4)])
  have out: "mget G (butlast path @ [x]) = mget F (butlast path @ [x])" for x
    using mkdir_ext_outside [OF assms(2)] not_prefix_butlast [OF assms(4)] by blast
  have path: "path = butlast path @ [last path]" using assms(4) by simp
  have outp: "mget G path = mget F path" using out [of "last path"] path by simp
  show "ftriple c (\<lambda>fs. fs = G) (wrapErr create (os_CreateTemp (butlast path)))
    (\<lambda>tmp fs. is_temp_of path tmp \<and> mget G tmp = None \<and> has_file G tmp 384 [] fs) ?E"
  proof (rule ft_wrapErr, rule ft_conseq [OF ft_CreateTemp [OF assms(1,3)]])
    fix e fs assume "fs = G \<and> (c \<longrightarrow> (\<exists>name. mget G (butlast path @ [''.tethux-'' @ name]) \<noteq> None))"
    with und out show "?E (create e) fs" by (auto simp: is_temp_of_def)
  qed (auto simp: is_temp_of_def)
  fix tmp
  show "ftriple c (\<lambda>fs. is_temp_of path tmp \<and> mget G tmp = None \<and> has_file G tmp 384 [] fs)
    (putTemp fail mode (Script xs) path tmp) ?Q ?E"
  proof (intro ft_prop)
    assume tmp: "is_temp_of path tmp" "mget G tmp = None"
    then obtain name where t: "tmp = butlast path @ [''.tethux-'' @ name]" by (auto simp: is_temp_of_def)
    show "ftriple c (has_file G tmp 384 []) (putTemp fail mode (Script xs) path tmp) ?Q ?E"
    proof (rule ft_conseq [OF ft_putTemp [OF t path]])
      fix fs assume "snd (script_result xs) = None \<and>
        (tmp \<noteq> path \<and> replaced G tmp path mode (fst (script_result xs)) fs \<or>
         tmp = path \<and> has_file G tmp mode (fst (script_result xs)) fs)"
      then show "snd (script_result xs) = None \<and> put_done F path mode (fst (script_result xs)) fs"
        using undone_replaced [OF und tmp(2), of mode "fst (script_result xs)" fs] und [of True]
        by (auto simp: put_done_def put_undone_def has_file_def same_except_def)
    next
      fix e fs assume left: "gone_or_left c G tmp fs \<and>
        (c \<longrightarrow> snd (script_result xs) \<noteq> None \<or> tmp \<noteq> path \<and> (\<exists>pm'. mget G path = Some (Dir pm')))"
      then have "put_undone c F path fs"
        using undone_without [OF und tmp(2)] undone_left [OF und tmp(2,1)] by blast
      with left outp show "?E e fs" by auto
    qed
  qed
qed

lemma ft_Put:
  assumes "fs_wf F"
  shows "ftriple c (\<lambda>fs. fs = F) (Put p ref (Some (Script xs)) opts)
    (\<lambda>_ fs. valid_ref p ref \<and> snd (script_result xs) = None \<and>
       put_done F (ref_path ref) (putMode opts) (fst (script_result xs)) fs)
    (\<lambda>_ fs. put_undone c F (ref_path ref) fs \<and> (c \<longrightarrow> put_blocked p F ref opts xs))"
    (is "ftriple c _ _ ?Q ?E")
proof -
  have id: "put_undone c' F path F" for c' path using assms by (simp add: put_undone_def)
  let ?I = "\<lambda>_ fs. fs = F"
  have body: "ftriple c (\<lambda>fs. fs = F)
      (bnd (pathFor p ref) (\<lambda>path.
       bnd (wrapErr (wrapAs p ErrCreate (Ref_String ref)) (os_MkdirAll (butlast path) 488)) (\<lambda>_.
       bnd (wrapErr (wrapAs p ErrCreate (Ref_String ref)) (os_CreateTemp (butlast path))) (\<lambda>tmp.
       putTemp (wrapAs p ErrPut (Ref_String ref)) (putMode opts) (Script xs) path tmp)))) ?Q ?E"
  proof (rule ft_seq [OF ft_pathFor [OF assms]])
    show "?E e fs" if "fs = F \<and> (c \<longrightarrow> \<not> (valid_ref p ref \<and> clear F (ref_path ref)))" for e fs
      using that id by (auto simp: put_blocked_def)
    fix path
    show "ftriple c (\<lambda>fs. fs = F \<and> valid_ref p ref \<and> path = ref_path ref \<and> clear F path)
      (bnd (wrapErr (wrapAs p ErrCreate (Ref_String ref)) (os_MkdirAll (butlast path) 488)) (\<lambda>_.
       bnd (wrapErr (wrapAs p ErrCreate (Ref_String ref)) (os_CreateTemp (butlast path))) (\<lambda>tmp.
       putTemp (wrapAs p ErrPut (Ref_String ref)) (putMode opts) (Script xs) path tmp))) ?Q ?E"
    proof (rule ft_start)
      fix G assume "G = F \<and> valid_ref p ref \<and> path = ref_path ref \<and> clear F path"
      then have G: "G = F" and v: "valid_ref p ref" and path: "ref_path ref = path" and cl: "clear F path" by auto
      have ne: "path \<noteq> []" using valid_ref_safe [OF v] path by (auto simp: safe_path_def)
      have nl: "no_link F (butlast path)" using cl by (simp add: clear_def no_link_butlast)
      note dp = clear_dir_path [OF assms cl ne]
      show "ftriple c (\<lambda>fs. fs = G)
        (bnd (wrapErr (wrapAs p ErrCreate (Ref_String ref)) (os_MkdirAll (butlast path) 488)) (\<lambda>_.
         bnd (wrapErr (wrapAs p ErrCreate (Ref_String ref)) (os_CreateTemp (butlast path))) (\<lambda>tmp.
         putTemp (wrapAs p ErrPut (Ref_String ref)) (putMode opts) (Script xs) path tmp))) ?Q ?E"
        unfolding G
      proof (rule ft_seq_wrap [OF ft_MkdirAll [OF assms nl]])
        show "?E (wrapAs p ErrCreate (Ref_String ref) e) fs"
          if "fs_wf fs \<and> mkdir_ext (butlast path) 488 F fs \<and> (c \<longrightarrow> \<not> dir_path F (butlast path))" for e fs
          using that dp mkdir_undone [of fs path F c] ne path by auto
        show "ftriple c (\<lambda>fs. fs_wf fs \<and> mkdir_ext (butlast path) 488 F fs \<and> (\<exists>pm. mget fs (butlast path) = Some (Dir pm)))
          (bnd (wrapErr (wrapAs p ErrCreate (Ref_String ref)) (os_CreateTemp (butlast path))) (\<lambda>tmp.
           putTemp (wrapAs p ErrPut (Ref_String ref)) (putMode opts) (Script xs) path tmp)) ?Q ?E"
        proof (rule ft_start)
          fix H assume "fs_wf H \<and> mkdir_ext (butlast path) 488 F H \<and> (\<exists>pm. mget H (butlast path) = Some (Dir pm))"
          then obtain pm where H: "fs_wf H" "mkdir_ext (butlast path) 488 F H" "mget H (butlast path) = Some (Dir pm)"
            by auto
          show "ftriple c (\<lambda>fs. fs = H)
            (bnd (wrapErr (wrapAs p ErrCreate (Ref_String ref)) (os_CreateTemp (butlast path))) (\<lambda>tmp.
             putTemp (wrapAs p ErrPut (Ref_String ref)) (putMode opts) (Script xs) path tmp)) ?Q ?E"
            by (rule ft_conseq [OF ft_putInto [OF H ne]]) (use v path in \<open>auto simp: put_blocked_def\<close>)
        qed
      qed
    qed
  qed
  show ?thesis
    unfolding Put_eq
    by (rule ft_bnd [OF ft_ctx_Err [where Q = ?I] ft_bnd [OF ft_check [where Q = ?I] body]])
       (auto simp: id put_blocked_def)
qed

end
