(* ===== verification/Storage_Copy_Facts.thy ===== *)
theory Storage_Copy_Facts
  imports Storage_Local_Facts
begin

text \<open>
  What \<open>copyPath\<close> does when the destination does not exist and lies apart from the source: it
  mirrors the source and touches nothing else, whatever fails.
\<close>

section \<open>Reading a file while another one is written\<close>

lemma copyBuf_pos: "0 < copyBuf"
  by (simp add: copyBuf_def)

lemma ft_copyLoop_file:
  assumes "mget G src = Some (File pm c0 t)" "src \<noteq> dst"
  shows "length c0 - off < n \<Longrightarrow>
    ftriple c (has_file G dst perm (take off c0)) (copyLoop n (At dst) (Reading (At src) off) k)
      (\<lambda>_. has_file G dst perm c0) (\<lambda>e fs. \<not> c \<and> some_file G dst fs)"
proof (induction n arbitrary: off k)
  case 0
  then show ?case by simp
next
  case (Suc n)
  let ?bs = "take copyBuf (drop off c0)"
  have read: "ftriple c (has_file G dst perm (take off c0)) (reader_Read (Reading (At src) off))
      (\<lambda>((bs, e), r) fs. has_file G dst perm (take off c0) fs \<and>
         (e = None \<and> bs = ?bs \<and> bs \<noteq> [] \<and> r = Reading (At src) (off + length bs) \<or>
          bs = [] \<and> r = Reading (At src) off \<and> e = Some (os_err IoEOF) \<and> ?bs = [] \<or>
          bs = [] \<and> r = Reading (At src) off \<and> \<not> c \<and> (\<exists>x. e = Some x \<and> \<not> errors_Is x (OS IoEOF))))
      (\<lambda>_ _. False)"
  proof (rule ftripleI)
    fix w assume w: "honest w" "c \<longrightarrow> calm w" "has_file G dst perm (take off c0) (files w)"
    then have src: "mget (files w) src = Some (File pm c0 t)"
      using assms by (simp add: has_file_def same_except_def)
    show "case reader_Read (Reading (At src) off) w of (r, w') \<Rightarrow> same_env w w' \<and>
      (case r of Ok x \<Rightarrow> (case x of (x, r) \<Rightarrow> (case x of (bs, e) \<Rightarrow> \<lambda>r fs.
         has_file G dst perm (take off c0) fs \<and>
         (e = None \<and> bs = ?bs \<and> bs \<noteq> [] \<and> r = Reading (At src) (off + length bs) \<or>
          bs = [] \<and> r = Reading (At src) off \<and> e = Some (os_err IoEOF) \<and> ?bs = [] \<or>
          bs = [] \<and> r = Reading (At src) off \<and> \<not> c \<and> (\<exists>x. e = Some x \<and> \<not> errors_Is x (OS IoEOF)))) r) (files w')
       | Err e \<Rightarrow> False | Diverges \<Rightarrow> False)"
    proof (cases "fault w (ticks w)")
      case None
      then show ?thesis
        using w src by (simp add: reader_Read_def Let_def same_env_def)
    next
      case (Some ke)
      obtain k e where ke: "ke = (k, e)" by force
      have "\<not> c" "\<not> errors_Is e (OS IoEOF)"
        using w(1,2) Some ke by (auto simp: calm_def honest_def)
      with Some ke w(3) show ?thesis by (simp add: reader_Read_def Let_def same_env_def)
    qed
  qed
  let ?Q = "\<lambda>_. has_file G dst perm c0" and ?E = "\<lambda>e fs. \<not> c \<and> some_file G dst fs"
  have cont: "ftriple c (\<lambda>fs. has_file G dst perm (take off c0) fs \<and>
         (e = None \<and> bs = ?bs \<and> bs \<noteq> [] \<and> r = Reading (At src) (off + length bs) \<or>
          bs = [] \<and> r = Reading (At src) off \<and> e = Some (os_err IoEOF) \<and> ?bs = [] \<or>
          bs = [] \<and> r = Reading (At src) off \<and> \<not> c \<and> (\<exists>x. e = Some x \<and> \<not> errors_Is x (OS IoEOF))))
        (bnd (writeChunk (At dst) bs k) (\<lambda>written. case e of
           Some e \<Rightarrow> if errors_Is e (OS IoEOF) then ret written else throw e
         | None \<Rightarrow> copyLoop n (At dst) r written)) ?Q ?E" for bs e r
  proof (cases "e = None \<and> bs = ?bs \<and> bs \<noteq> [] \<and> r = Reading (At src) (off + length bs)")
    case True
    have len: "0 < length bs" "length bs \<le> length c0 - off" using True by auto
    then have fuel: "length c0 - (off + length bs) < n" using Suc.prems by linarith
    have "take (length (take m xs)) xs = take m xs" for m and xs :: content
      by (cases "m \<le> length xs") auto
    with True have eq: "take off c0 @ bs = take (off + length bs) c0"
      by (simp add: take_add del: length_take)
    have "ftriple c (has_file G dst perm (take off c0))
        (bnd (writeChunk (At dst) bs k) (\<lambda>written. copyLoop n (At dst) r written)) ?Q ?E"
      by (rule ft_seq [OF ft_writeChunk]) (use Suc.IH [OF fuel] eq True in auto)
    with True show ?thesis by (auto intro: ft_pre)
  next
    case False
    then show ?thesis
      using copyBuf_pos by (auto simp: ftriple_def writeChunk_def bnd_def ret_def throw_def; blast)
  qed
  have loop: "ftriple c (has_file G dst perm (take off c0))
      (bnd (reader_Read (Reading (At src) off)) (\<lambda>((bs, readErr), r).
       bnd (writeChunk (At dst) bs k) (\<lambda>written. case readErr of
           Some e \<Rightarrow> if errors_Is e (OS IoEOF) then ret written else throw e
         | None \<Rightarrow> copyLoop n (At dst) r written))) ?Q ?E"
    by (rule ft_seq [OF read], blast) (simp only: split_paired_all prod.case, rule cont)
  show ?case
    unfolding copyLoop.simps
    by (rule ft_bnd [OF ft_ctx_Err [where Q = "\<lambda>_. has_file G dst perm (take off c0)"] loop]) auto
qed

section \<open>Opening and permissions\<close>

lemma ft_Open_existing:
  assumes "fs_wf G" "mget G p = Some n" "n \<noteq> Symlink"
  shows "ftriple c (\<lambda>fs. fs = G) (os_Open p) (\<lambda>h fs. h = At p \<and> fs = G) (\<lambda>e fs. \<not> c \<and> fs = G)"
  unfolding os_Open_def os_OpenFile_def
proof (rule ft_sys)
  have "walk G [] p = Found n" using assms by (simp add: walk_Found_iff)
  with assms(3) show "ftriple c (\<lambda>fs. fs = G) (\<lambda>w.
     case walk (files w) [] p of
       Found n \<Rightarrow> open_existing p O_RDONLY n w
     | Missing \<Rightarrow> (case O_RDONLY of
            O_CREATE_EXCL perm \<Rightarrow> new_file p perm w
          | O_CREATE_TRUNC perm \<Rightarrow> new_file p perm w
          | _ \<Rightarrow> throw (os_err ErrNotExist) w)
     | NotDir \<Rightarrow> throw (os_err ENOTDIR) w
     | Through \<Rightarrow> followed p w) (\<lambda>h fs. h = At p \<and> fs = G) (\<lambda>e fs. \<not> c \<and> fs = G)"
    by (auto simp: ftriple_def open_existing_def ret_def)
qed auto

lemma ft_OpenFile_new:
  assumes "fs_wf G" "mget G p = None" "mget G (butlast p) = Some (Dir pm)" "p \<noteq> []"
    and "m = O_CREATE_EXCL perm \<or> m = O_CREATE_TRUNC perm"
  shows "ftriple c (\<lambda>fs. fs = G) (os_OpenFile p m)
    (\<lambda>h fs. h = At p \<and> has_file G p perm [] fs) (\<lambda>e fs. \<not> c \<and> fs = G)"
  unfolding os_OpenFile_def
proof (rule ft_sys)
  have "walk G [] (butlast p @ [last p]) = Missing"
    unfolding walk_child [OF assms(1,3)] using assms(2,4) by simp
  then have walk: "walk G [] p = Missing" using assms(4) by simp
  have walkb: "walk G [] (butlast p) = Found (Dir pm)" using assms by (simp add: walk_Found_iff)
  have new: "has_file G p perm [] (mput p (File perm [] t) G)" for t
    using fs_wf_new [OF assms(1,4) _ assms(2)] assms(3)
    by (simp add: has_file_def same_except_def)
  have "new_file p perm w = (Ok (At p), w\<lparr>files := mput p (File perm [] (now w)) G\<rparr>)"
    if "files w = G" for w
    using that walkb by (simp add: new_file_def create_node_def at_node_def set_node_def modify_def bnd_def ret_def)
  with walk new assms(5) show "ftriple c (\<lambda>fs. fs = G) (\<lambda>w.
     case walk (files w) [] p of
       Found n \<Rightarrow> open_existing p m n w
     | Missing \<Rightarrow> (case m of
            O_CREATE_EXCL perm \<Rightarrow> new_file p perm w
          | O_CREATE_TRUNC perm \<Rightarrow> new_file p perm w
          | _ \<Rightarrow> throw (os_err ErrNotExist) w)
     | NotDir \<Rightarrow> throw (os_err ENOTDIR) w
     | Through \<Rightarrow> followed p w) (\<lambda>h fs. h = At p \<and> has_file G p perm [] fs) (\<lambda>e fs. \<not> c \<and> fs = G)"
    by (auto simp: ftriple_def same_env_def)
qed auto

lemma ft_Chmod_file:
  "ftriple c (has_file G p pm cnt) (os_Chmod p perm) (\<lambda>_. has_file G p perm cnt) (\<lambda>e fs. \<not> c \<and> some_file G p fs)"
  unfolding os_Chmod_def
proof (rule ft_sys, rule ft_at_node)
  fix fs n assume hf: "has_file G p pm cnt fs" and "walk fs [] p = Found n"
  with has_file_walk [OF hf] obtain t where "n = File pm cnt t" by auto
  with hf show "ftriple c (\<lambda>g. g = fs)
     (if n = Symlink then bnd (away p) (\<lambda>_. ret ()) else set_node p (chmod_node perm n))
     (\<lambda>_. has_file G p perm cnt) (\<lambda>e fs. \<not> c \<and> some_file G p fs)"
    by (auto intro!: ft_set_node has_file_mput)
qed (auto dest: has_file_walk)

lemma ft_Chmod_dir:
  assumes "fs_wf G" "mget G p = Some (Dir pm)"
  shows "ftriple c (\<lambda>fs. fs = G) (os_Chmod p perm)
    (\<lambda>_ fs. fs_wf fs \<and> mget fs p = Some (Dir perm) \<and> same_except {p} G fs) (\<lambda>e fs. \<not> c \<and> fs = G)"
  unfolding os_Chmod_def
proof (rule ft_sys, rule ft_at_node)
  fix fs n assume "fs = G" "walk fs [] p = Found n"
  then have "n = Dir pm" "fs = G" using assms by (auto simp: walk_Found_iff)
  moreover have "fs_wf (mput p (Dir perm) G)" using fs_wf_mput_same [OF assms] by simp
  ultimately show "ftriple c (\<lambda>g. g = fs)
     (if n = Symlink then bnd (away p) (\<lambda>_. ret ()) else set_node p (chmod_node perm n))
     (\<lambda>_ fs. fs_wf fs \<and> mget fs p = Some (Dir perm) \<and> same_except {p} G fs) (\<lambda>e fs. \<not> c \<and> fs = G)"
    by (auto intro!: ft_set_node simp: same_except_def)
qed (use walk_existing [OF assms(1), of "[]" p] assms in auto)

lemma ft_ReadDir:
  assumes "fs_wf G" "mget G p = Some (Dir pm)"
  shows "ftriple c (\<lambda>fs. fs = G) (os_ReadDir p)
    (\<lambda>names fs. names = children G p \<and> fs = G) (\<lambda>e fs. \<not> c \<and> fs = G)"
  unfolding os_ReadDir_def
proof (rule ft_sys, rule ft_at_node)
  fix fs n assume "fs = G" "walk fs [] p = Found n"
  then have "n = Dir pm" "fs = G" using assms by (auto simp: walk_Found_iff)
  then show "ftriple c (\<lambda>g. g = fs)
     (case n of Dir _ \<Rightarrow> gets (\<lambda>w. children (files w) p) | Symlink \<Rightarrow> followed p | _ \<Rightarrow> throw (os_err ENOTDIR))
     (\<lambda>names fs. names = children G p \<and> fs = G) (\<lambda>e fs. \<not> c \<and> fs = G)"
    by (auto intro: ft_gets)
qed (use walk_existing [OF assms(1), of "[]" p] assms in auto)

section \<open>One file\<close>

definition copy_frame :: "fsys \<Rightarrow> path \<Rightarrow> fsys \<Rightarrow> bool" where
  "copy_frame F dst g \<longleftrightarrow> (\<forall>q. \<not> prefix dst q \<longrightarrow> mget g q = mget F q \<or>
     (mget F q = None \<and> strict_prefix q dst \<and> (\<exists>pm. mget g q = Some (Dir pm))))"

lemma prefix_butlast_strict: "prefix q (butlast p) \<Longrightarrow> p \<noteq> [] \<Longrightarrow> strict_prefix q p"
  using prefix_length_le [of q "butlast p"] prefix_order.trans [OF _ prefixeq_butlast, of q p]
  by (cases p) (auto simp: strict_prefix_def split: if_splits)

lemma mkdir_copy_frame: "mkdir_ext (butlast dst) pm F G \<Longrightarrow> dst \<noteq> [] \<Longrightarrow> copy_frame F dst G"
  unfolding copy_frame_def mkdir_ext_def using prefix_butlast_strict by blast

lemma copy_frame_file:
  assumes "copy_frame F dst G" "has_file G dst pm cnt g"
  shows "copy_frame F dst g"
proof -
  have "mget g q = mget G q" if "\<not> prefix dst q" for q
    using assms(2) that by (auto simp: has_file_def same_except_def)
  with assms(1) show ?thesis by (simp add: copy_frame_def)
qed

lemma ft_copyContext_file:
  assumes "mget G src = Some (File pm c0 t)" "src \<noteq> dst"
  shows "ftriple c (has_file G dst perm []) (copyContext (At dst) (Reading (At src) 0))
      (\<lambda>_. has_file G dst perm c0) (\<lambda>e fs. \<not> c \<and> some_file G dst fs)"
proof (rule ftripleI)
  fix w assume w: "honest w" "c \<longrightarrow> calm w" "has_file G dst perm [] (files w)"
  then have "mget (files w) src = Some (File pm c0 t)"
    using assms by (simp add: has_file_def same_except_def)
  then have "copyContext (At dst) (Reading (At src) 0) w =
      copyLoop (Suc (length c0)) (At dst) (Reading (At src) 0) 0 w"
    by (simp add: copyContext_def readerFuel_def)
  with ft_run [OF ft_copyLoop_file [OF assms, of 0 "Suc (length c0)" c perm 0] w(1,2)] w(3)
  show "case copyContext (At dst) (Reading (At src) 0) w of (r, w') \<Rightarrow> same_env w w' \<and>
      (case r of Ok x \<Rightarrow> has_file G dst perm c0 (files w')
       | Err e \<Rightarrow> \<not> c \<and> some_file G dst (files w') | Diverges \<Rightarrow> False)"
    by simp
qed

lemma ft_closeBoth:
  assumes "\<And>fs. P fs \<Longrightarrow> (failed cp = None \<longrightarrow> Q () fs) \<and> (c \<longrightarrow> failed cp = None) \<and> (\<forall>e. \<not> c \<longrightarrow> E e fs)"
  shows "ftriple c P (closeBoth cp) Q E"
proof -
  have close: "ftriple c R (attempt file_Close) (\<lambda>r fs. R fs \<and> (c \<longrightarrow> failed r = None)) E" for R
    by (rule ft_attempt, rule ft_nop) (auto simp: failed_def)
  show ?thesis
    unfolding closeBoth_def
  proof (rule ft_bnd [OF close], rule ft_bnd [OF close], rule ft_start)
    fix dc sc :: "gerror + unit" and g
    assume a: "(P g \<and> (c \<longrightarrow> failed dc = None)) \<and> (c \<longrightarrow> failed sc = None)"
    with assms [of g] show "ftriple c (\<lambda>fs. fs = g)
       (if failed cp \<noteq> None then throw (the_join [failed cp, failed dc, failed sc])
        else if failed dc \<noteq> None then throw (the_join [failed dc, failed sc])
        else check (failed sc)) Q E"
      by (auto intro!: ft_throw ft_check)
  qed
qed

lemma ft_copyOpened:
  assumes wf: "fs_wf G" and none: "mget G dst = None" and pmd: "mget G (butlast dst) = Some (Dir pmd)"
    and ne: "dst \<noteq> []" and src: "mget G src = Some (File pm c0 t)"
  shows "ftriple c (\<lambda>fs. fs = G) (copyOpened dst pm ow (At src))
    (\<lambda>_. has_file G dst pm c0) (\<lambda>e fs. \<not> c \<and> (fs = G \<or> some_file G dst fs))" (is "ftriple c _ _ ?Q ?E")
  unfolding copyOpened_def
proof (rule ft_seq_attempt [OF ft_OpenFile_new [OF wf none pmd ne, of _ pm]], simp, goal_cases)
  case (1 h)
  have sd: "src \<noteq> dst" using src none by auto
  let ?R = "\<lambda>cp fs. some_file G dst fs \<and> (failed cp = None \<longrightarrow> has_file G dst pm c0 fs) \<and> (c \<longrightarrow> failed cp = None)"
  have "ftriple c (has_file G dst pm []) (attempt (copyContext (At dst) (Reading (At src) 0))) ?R ?E"
    by (rule ft_attempt, rule ft_conseq [OF ft_copyContext_file [OF src sd]]) (auto simp: failed_def)
  moreover have "ftriple c (?R cp) (closeBoth cp) (\<lambda>_. has_file G dst pm c0) ?E" for cp
    by (rule ft_closeBoth) auto
  moreover have "ftriple c (has_file G dst pm c0) (os_Chmod dst pm) ?Q ?E"
    by (rule ft_conseq [OF ft_Chmod_file]) auto
  ultimately have "ftriple c (has_file G dst pm []) (bnd (attempt (copyContext (At dst) (Reading (At src) 0)))
      (\<lambda>cp. bnd (closeBoth cp) (\<lambda>_. os_Chmod dst pm))) ?Q ?E"
    by (blast intro: ft_bnd)
  then show ?case by (simp, intro ft_prop) simp
next
  case (2 e)
  have "ftriple c (\<lambda>fs. \<not> c \<and> fs = G) (attempt file_Close) (\<lambda>_ fs. \<not> c \<and> fs = G) ?E"
    by (rule ft_attempt, rule ft_nop) auto
  then show ?case by (simp, rule ft_bnd) (rule ft_throw, simp)
qed

lemma ft_copyFile:
  assumes wf: "fs_wf F" and nl: "no_link F dst" and dp: "dir_path F (butlast dst)" and none: "mget F dst = None"
    and ne: "dst \<noteq> []" and src: "mget F src = Some (File pm c0 t)" and pm: "fi_perm info = pm"
  shows "ftriple c (\<lambda>fs. fs = F) (copyFile src dst ow info)
    (\<lambda>_ g. fs_wf g \<and> copy_frame F dst g \<and> (\<exists>t. mget g dst = Some (File pm c0 t)))
    (\<lambda>e g. \<not> c \<and> fs_wf g \<and> copy_frame F dst g)" (is "ftriple c _ _ ?Q ?E")
  unfolding copyFile_def pm
proof (rule ft_seq [OF ft_MkdirAll [OF wf no_link_butlast [OF nl]]])
  show "?E e g" if "fs_wf g \<and> mkdir_ext (butlast dst) 488 F g \<and> (c \<longrightarrow> \<not> dir_path F (butlast dst))" for e g
    using that dp mkdir_copy_frame ne by auto
  show "ftriple c (\<lambda>g. fs_wf g \<and> mkdir_ext (butlast dst) 488 F g \<and> (\<exists>pm. mget g (butlast dst) = Some (Dir pm)))
    (bnd (os_Open src) (copyOpened dst pm ow)) ?Q ?E"
  proof (rule ft_start)
    fix G assume "fs_wf G \<and> mkdir_ext (butlast dst) 488 F G \<and> (\<exists>pm. mget G (butlast dst) = Some (Dir pm))"
    then obtain pmd where wfG: "fs_wf G" and ext: "mkdir_ext (butlast dst) 488 F G"
      and pmd: "mget G (butlast dst) = Some (Dir pmd)" by blast
    have frG: "copy_frame F dst G" by (rule mkdir_copy_frame [OF ext ne])
    have srcG: "mget G src = Some (File pm c0 t)" by (rule mkdir_ext_old [OF ext src])
    have noneG: "mget G dst = None"
      using none mkdir_ext_outside [OF ext, of dst] not_prefix_butlast [OF ne, of "last dst"] ne by simp
    have hfile: "has_file G dst pm' cnt g \<Longrightarrow> fs_wf g \<and> copy_frame F dst g" for pm' cnt g
      using copy_frame_file [OF frG] by (auto simp: has_file_def)
    have copy: "ftriple c (\<lambda>fs. h = At src \<and> fs = G) (copyOpened dst pm ow h) ?Q ?E" for h
      by (rule ft_prop, simp only:, rule ft_conseq [OF ft_copyOpened [OF wfG noneG pmd ne srcG]])
         (use hfile wfG frG in \<open>auto dest: has_file_node\<close>)
    show "ftriple c (\<lambda>fs. fs = G) (bnd (os_Open src) (copyOpened dst pm ow)) ?Q ?E"
      by (rule ft_seq [OF ft_Open_existing [OF wfG srcG] _ copy]) (use wfG frG in auto)
  qed
qed

section \<open>Trees\<close>

fun same_obj :: "node option \<Rightarrow> node option \<Rightarrow> bool" where
  "same_obj None None = True"
| "same_obj (Some (Dir a)) (Some (Dir b)) = (a = b)"
| "same_obj (Some (File a c _)) (Some (File b d _)) = (a = b \<and> c = d)"
| "same_obj _ _ = False"

definition mirrors :: "fsys \<Rightarrow> path \<Rightarrow> fsys \<Rightarrow> path \<Rightarrow> bool" where
  "mirrors F src g dst \<longleftrightarrow> (\<forall>r. same_obj (mget F (src @ r)) (mget g (dst @ r)))"

definition copyable :: "fsys \<Rightarrow> path \<Rightarrow> bool" where
  "copyable F src \<longleftrightarrow> (\<forall>r n. mget F (src @ r) = Some n \<longrightarrow> n \<noteq> Symlink \<and> n \<noteq> Special)"

definition depth_ok :: "nat \<Rightarrow> fsys \<Rightarrow> path \<Rightarrow> bool" where
  "depth_ok n F src \<longleftrightarrow> (\<forall>r. mget F (src @ r) \<noteq> None \<longrightarrow> length r < n)"

definition apart :: "path \<Rightarrow> path \<Rightarrow> bool" where
  "apart p q \<longleftrightarrow> \<not> prefix p q \<and> \<not> prefix q p"

definition fresh :: "fsys \<Rightarrow> path \<Rightarrow> bool" where
  "fresh F dst \<longleftrightarrow> dst \<noteq> [] \<and> no_link F dst \<and> dir_path F (butlast dst) \<and> mget F dst = None"

lemma apart_child: "apart p q \<Longrightarrow> apart (p @ [x]) (q @ [x])"
  by (auto simp: apart_def dest: append_prefixD)

lemma copyable_child: "copyable F src \<Longrightarrow> copyable F (src @ [x])"
  by (simp add: copyable_def)

lemma depth_ok_child: "depth_ok (Suc n) F src \<Longrightarrow> depth_ok n F (src @ [x])"
  unfolding depth_ok_def by (metis Suc_less_eq append.assoc append_Cons append_Nil length_Cons)

lemma copy_frame_apart:
  assumes "copy_frame F dst g" "apart src dst"
  shows "mget g (src @ r) = mget F (src @ r)"
proof -
  have "\<not> prefix dst (src @ r)" "\<not> strict_prefix (src @ r) dst"
    using assms(2) by (auto simp: apart_def prefix_def strict_prefix_def append_eq_append_conv2)
  with assms(1) show ?thesis by (auto simp: copy_frame_def)
qed

lemma walk_NotDir:
  "walk fs cur rest = NotDir \<Longrightarrow> \<exists>r n. strict_prefix r rest \<and> mget fs (cur @ r) = Some n \<and> \<not> is_dir n"
proof (induction rest arbitrary: cur)
  case Nil
  then show ?case by (simp split: option.splits)
next
  case (Cons x xs)
  show ?case
  proof (cases "\<exists>n. mget fs cur = Some n \<and> \<not> is_dir n")
    case True
    then show ?thesis by (intro exI [of _ "[]"]) simp
  next
    case False
    with Cons.prems have "walk fs (cur @ [x]) xs = NotDir"
      by (auto split: option.splits node.splits)
    from Cons.IH [OF this] obtain r n where "strict_prefix r xs" "mget fs (cur @ [x] @ r) = Some n" "\<not> is_dir n"
      by auto
    then show ?thesis by (intro exI [of _ "x # r"]) auto
  qed
qed

lemma strict_prefix_butlast: "strict_prefix r p \<Longrightarrow> prefix r (butlast p)"
  by (metis append_butlast_last_id prefix_snoc strict_prefix_def prefix_bot.extremum_strict)

lemma fresh_walk:
  assumes "fs_wf F" "fresh F dst"
  shows "walk F [] dst = Missing"
proof -
  have "walk F [] dst \<noteq> NotDir"
    using walk_NotDir [of F "[]" dst] assms(2) strict_prefix_butlast
    by (fastforce simp: fresh_def dir_path_def)
  moreover have "walk F [] dst \<noteq> Through" using assms(2) by (simp add: fresh_def no_link_walk)
  moreover have "walk F [] dst \<noteq> Found n" for n using assms by (simp add: fresh_def walk_Found_iff)
  ultimately show ?thesis by (cases "walk F [] dst") auto
qed

lemma fresh_dir_path: "fresh F dst \<Longrightarrow> dir_path F dst"
  unfolding fresh_def dir_path_def
  by (metis append_butlast_last_id option.distinct(1) prefix_snoc)

lemma fresh_below: "fs_wf F \<Longrightarrow> fresh F dst \<Longrightarrow> mget F (dst @ r) = None"
  using wf_ancestor [of F dst r] by (cases r; cases "mget F (dst @ r)") (auto simp: fresh_def)

lemma mkdir_copy_frame_dst: "mkdir_ext dst pm F G \<Longrightarrow> copy_frame F dst G"
  unfolding copy_frame_def mkdir_ext_def strict_prefix_def by (metis prefix_order.refl)

lemma ft_dstDirectory:
  assumes "fs_wf F" "fresh F dst"
  shows "ftriple c (\<lambda>fs. fs = F) (dstDirectory p dst ow perm)
    (\<lambda>_ g. fs_wf g \<and> mkdir_ext dst perm F g \<and> (\<exists>pm. mget g dst = Some (Dir pm)))
    (\<lambda>e g. \<not> c \<and> fs_wf g \<and> copy_frame F dst g)" (is "ftriple c _ _ ?Q ?E")
  unfolding dstDirectory_def
proof (rule ft_seq_attempt [OF ft_Lstat [OF assms(1)]], goal_cases)
  case 1
  show ?case by (simp add: fresh_walk [OF assms])
next
  case (2 info)
  show ?case using assms(2) by (auto simp: ftriple_def fresh_def)
next
  case (3 e)
  have nl: "no_link F dst" using assms(2) by (simp add: fresh_def)
  have "ftriple c (\<lambda>fs. fs = F) (os_MkdirAll dst perm) ?Q ?E"
    by (rule ft_conseq [OF ft_MkdirAll [OF assms(1) nl]])
       (use fresh_dir_path [OF assms(2)] mkdir_copy_frame_dst in auto)
  moreover have "copy_frame F dst F" by (simp add: copy_frame_def)
  ultimately show ?case
    using fresh_walk [OF assms] assms(1)
    by (auto simp: look_fails_def intro!: ft_throw intro: ft_pre)
qed

text \<open>The loop over the entries of a directory: which children are done.\<close>

definition copied :: "fsys \<Rightarrow> path \<Rightarrow> fsys \<Rightarrow> path \<Rightarrow> string set \<Rightarrow> fsys \<Rightarrow> bool" where
  "copied F src G dst D g \<longleftrightarrow> fs_wf g \<and>
     (\<forall>q. \<not> (\<exists>x \<in> D. prefix (dst @ [x]) q) \<longrightarrow> mget g q = mget G q) \<and>
     (\<forall>x \<in> D. mirrors F (src @ [x]) g (dst @ [x]))"

lemma child_frame_eq:
  assumes "fs_wf g" "mget g dst = Some (Dir pm)" "copy_frame g (dst @ [x]) g'" "\<not> prefix (dst @ [x]) q"
  shows "mget g' q = mget g q"
proof -
  have "mget g q \<noteq> None" if "strict_prefix q (dst @ [x])"
  proof -
    have "prefix q dst" using that by (auto simp: strict_prefix_def)
    then show ?thesis
      using assms(2) wf_strict_prefix [OF assms(1,2), of q] by (cases "q = dst") (auto simp: strict_prefix_def)
  qed
  with assms(3,4) show ?thesis by (auto simp: copy_frame_def)
qed

lemma copy_frame_child:
  assumes "copy_frame F dst g" "fs_wf g" "mget g dst = Some (Dir pm)" "copy_frame g (dst @ [x]) g'"
  shows "copy_frame F dst g'"
proof -
  have "mget g' q = mget g q" if "\<not> prefix dst q" for q
    using that by (intro child_frame_eq [OF assms(2-4)]) (auto dest: append_prefixD)
  with assms(1) show ?thesis by (simp add: copy_frame_def)
qed

lemma copied_step:
  assumes "copied F src G dst D g" "x \<notin> D" "fs_wf g'" "mget G dst = Some (Dir pm)"
    and fr: "copy_frame g (dst @ [x]) g'" and mi: "mirrors F (src @ [x]) g' (dst @ [x])"
  shows "copied F src G dst (insert x D) g'"
proof -
  have gdst: "mget g dst = Some (Dir pm)"
    using assms(1,4) by (auto simp: copied_def)
  have wfg: "fs_wf g" using assms(1) by (simp add: copied_def)
  note eq = child_frame_eq [OF wfg gdst fr]
  have "mirrors F (src @ [y]) g' (dst @ [y])" if "y \<in> D" for y
  proof -
    have "mget g' (dst @ [y] @ r) = mget g (dst @ [y] @ r)" for r
      using assms(2) that by (intro eq) auto
    with assms(1) that show ?thesis by (simp add: copied_def mirrors_def)
  qed
  with mi eq assms(1,3) show ?thesis by (auto simp: copied_def)
qed

lemma ft_eachIO:
  assumes "\<And>x D. x \<notin> D \<Longrightarrow> x \<in> S \<Longrightarrow> ftriple c (I D) (f x) (\<lambda>_. I (insert x D)) E"
  shows "distinct xs \<Longrightarrow> set xs \<subseteq> S \<Longrightarrow> set xs \<inter> D = {} \<Longrightarrow>
    ftriple c (I D) (eachIO f xs) (\<lambda>_. I (D \<union> set xs)) E"
proof (induction xs arbitrary: D)
  case Nil
  then show ?case by (auto intro: ft_ret)
next
  case (Cons x xs)
  have "ftriple c (I (insert x D)) (eachIO f xs) (\<lambda>_. I (insert x D \<union> set xs)) E"
    using Cons.prems by (intro Cons.IH) auto
  then have "ftriple c (I (insert x D)) (eachIO f xs) (\<lambda>_. I (D \<union> set (x # xs))) E" by simp
  with assms [of x D] Cons.prems show ?case
    by (auto intro: ft_bnd)
qed

lemma mirrors_dir:
  assumes "fs_wf F" "mget F src = Some (Dir pm)" "mget G dst = Some (Dir pm)" "copied F src G dst (set (children F src)) g"
    and "\<And>x r. mget G (dst @ x # r) = None"
  shows "mirrors F src g dst"
  unfolding mirrors_def
proof
  fix r
  show "same_obj (mget F (src @ r)) (mget g (dst @ r))"
  proof (cases r)
    case Nil
    have "mget g dst = mget G dst" using assms(4) by (auto simp: copied_def)
    with Nil assms(2,3) show ?thesis by simp
  next
    case (Cons x s)
    show ?thesis
    proof (cases "x \<in> set (children F src)")
      case True
      with assms(4) have "mirrors F (src @ [x]) g (dst @ [x])" by (simp add: copied_def)
      with Cons show ?thesis by (simp add: mirrors_def)
    next
      case False
      then have "mget F (src @ [x]) = None" by (simp add: set_children)
      then have "mget F (src @ r) = None"
        using wf_ancestor [OF assms(1), of "src @ [x]" s] Cons by (cases s; cases "mget F (src @ r)") auto
      moreover have "\<not> (\<exists>y \<in> set (children F src). prefix (dst @ [y]) (dst @ r))"
        using False Cons by auto
      then have "mget g (dst @ r) = mget G (dst @ r)"
        using assms(4) by (simp add: copied_def)
      ultimately show ?thesis using assms(5) Cons by simp
    qed
  qed
qed

lemma copied_child_pre:
  assumes wf: "fs_wf F" and ap: "apart src dst" and fr: "copy_frame F dst G"
    and G: "mget G dst = Some (Dir pm)" "\<And>x r. mget G (dst @ x # r) = None"
    and cp: "copied F src G dst D g" and x: "x \<notin> D"
  shows "fs_wf g" "fresh g (dst @ [x])" "\<And>r. mget g (src @ r) = mget F (src @ r)"
proof -
  show wfg: "fs_wf g" using cp by (simp add: copied_def)
  have out: "mget g q = mget G q" if "\<not> (\<exists>y \<in> D. prefix (dst @ [y]) q)" for q
    using cp that by (simp add: copied_def)
  have dst: "mget g dst = Some (Dir pm)" using out [of dst] G by auto
  have none: "mget g (dst @ [x]) = None" using out [of "dst @ [x]"] x G(2) by auto
  have dp: "dir_path g dst"
    unfolding dir_path_def
  proof (intro allI impI)
    fix q n assume "prefix q dst" "mget g q = Some n"
    with dst wf_strict_prefix [OF wfg dst, of q] show "is_dir n"
      by (cases "q = dst") (auto simp: strict_prefix_def)
  qed
  have "no_link g (dst @ [x])"
    unfolding no_link_def
  proof (intro allI impI)
    fix q assume "prefix q (dst @ [x])"
    then have "q = dst @ [x] \<or> prefix q dst" by simp
    with none dp show "mget g q \<noteq> Some Symlink" by (auto simp: dir_path_def)
  qed
  with none dp show "fresh g (dst @ [x])" by (simp add: fresh_def)
  fix r
  have "\<not> (\<exists>y \<in> D. prefix (dst @ [y]) (src @ r))"
    using ap by (auto simp: apart_def prefix_def append_eq_append_conv2 append_eq_Cons_conv)
  then show "mget g (src @ r) = mget F (src @ r)"
    using out copy_frame_apart [OF fr ap] by simp
qed

lemma copied_frame:
  assumes "copied F src G dst D g" "copy_frame F dst G"
  shows "fs_wf g \<and> copy_frame F dst g"
proof -
  have "mget g q = mget G q" if "\<not> prefix dst q" for q
    using assms(1) that by (auto simp: copied_def dest: append_prefixD)
  with assms show ?thesis by (simp add: copied_def copy_frame_def)
qed

text \<open>Copying the children, given that copying each of them works.\<close>

abbreviation copies :: "bool \<Rightarrow> fsys \<Rightarrow> path \<Rightarrow> path \<Rightarrow> unit io \<Rightarrow> bool" where
  "copies c F src dst m \<equiv> ftriple c (\<lambda>fs. fs = F) m
    (\<lambda>_ g. fs_wf g \<and> copy_frame F dst g \<and> mirrors F src g dst)
    (\<lambda>e g. fs_wf g \<and> copy_frame F dst g \<and> (c \<longrightarrow> \<not> copyable F src))"

lemma ft_copyChildren:
  assumes wf: "fs_wf F" and ap: "apart src dst" and src: "mget F src = Some (Dir pm)" and fr: "copy_frame F dst G"
    and G: "fs_wf G" "mget G dst = Some (Dir pm)" "\<And>x r. mget G (dst @ x # r) = None"
    and depth: "depth_ok (Suc n) F src"
    and IH: "\<And>g x. fs_wf g \<Longrightarrow> fresh g (dst @ [x]) \<Longrightarrow> mget g (src @ [x]) \<noteq> None \<Longrightarrow>
      depth_ok n g (src @ [x]) \<Longrightarrow> copies c g (src @ [x]) (dst @ [x]) (cp x)"
  shows "ftriple c (\<lambda>fs. fs = G) (eachIO (\<lambda>x. bnd ctx_Err (\<lambda>_. cp x)) (children F src))
    (\<lambda>_ g. fs_wf g \<and> copy_frame F dst g \<and> mirrors F src g dst)
    (\<lambda>e g. fs_wf g \<and> copy_frame F dst g \<and> (c \<longrightarrow> \<not> copyable F src))" (is "ftriple c _ _ ?Q ?E")
proof -
  let ?I = "\<lambda>D. copied F src G dst D"
  have child: "ftriple c (?I D) (cp x) (\<lambda>_. ?I (insert x D)) ?E"
    if x: "x \<notin> D" "x \<in> set (children F src)" for x D
  proof (rule ft_start)
    fix g assume g: "?I D g"
    note pre = copied_child_pre [OF wf ap fr G(2,3) g x(1)]
    have gd: "mget g dst = Some (Dir pm)" using g G(2) by (auto simp: copied_def)
    have "mget g (src @ [x]) \<noteq> None" using x(2) pre(3) [of "[x]"] by (simp add: set_children)
    moreover have "depth_ok n g (src @ [x])"
      using depth_ok_child [OF depth, of x] pre(3) by (simp add: depth_ok_def)
    ultimately have "copies c g (src @ [x]) (dst @ [x]) (cp x)" by (rule IH [OF pre(1,2)])
    then show "ftriple c (\<lambda>fs. fs = g) (cp x) (\<lambda>_. ?I (insert x D)) ?E"
    proof (rule ft_conseq)
      fix g' assume g': "fs_wf g' \<and> copy_frame g (dst @ [x]) g' \<and> mirrors g (src @ [x]) g' (dst @ [x])"
      then have "mirrors F (src @ [x]) g' (dst @ [x])" using pre(3) by (simp add: mirrors_def)
      with copied_step [OF g x(1) _ G(2)] g' show "?I (insert x D) g'" by blast
    next
      fix e g' assume g': "fs_wf g' \<and> copy_frame g (dst @ [x]) g' \<and> (c \<longrightarrow> \<not> copyable g (src @ [x]))"
      have "copyable F src \<Longrightarrow> copyable g (src @ [x])"
        using copyable_child [of F src x] pre(3) by (simp add: copyable_def)
      with g' copy_frame_child [OF conjunct2 [OF copied_frame [OF g fr]] pre(1) gd] show "?E e g'" by blast
    qed simp
  qed
  have step: "ftriple c (?I D) (bnd ctx_Err (\<lambda>_. cp x)) (\<lambda>_. ?I (insert x D)) ?E"
    if "x \<notin> D" "x \<in> set (children F src)" for x D
    by (rule ft_bnd [OF ft_ctx_Err [where Q = "\<lambda>_. ?I D"] child [OF that]])
       (use copied_frame [OF _ fr] in auto)
  have "ftriple c (?I {}) (eachIO (\<lambda>x. bnd ctx_Err (\<lambda>_. cp x)) (children F src))
      (\<lambda>_. ?I ({} \<union> set (children F src))) ?E"
    by (rule ft_eachIO [where S = "set (children F src)" and I = ?I, OF step])
       (use distinct_children fs_wfD(1) [OF wf] in auto)
  then show ?thesis
    by (rule ft_conseq)
       (use G copied_frame [OF _ fr] mirrors_dir [OF wf src G(2) _ G(3)] in \<open>auto simp: copied_def\<close>)
qed

lemma children_cong:
  assumes "fs_wf F" "fs_wf G" "\<And>r. mget G (src @ r) = mget F (src @ r)"
  shows "children G src = children F src"
proof -
  have "distinct (children G src)" "distinct (children F src)" "set (children G src) = set (children F src)"
    using assms by (auto simp: distinct_children fs_wfD(1) set_children)
  moreover have "sorted (children fs src)" for fs by (simp add: children_def)
  ultimately show ?thesis by (intro sorted_distinct_set_unique)
qed

lemma ft_copyDir:
  assumes wf: "fs_wf F" and fresh: "fresh F dst" and ap: "apart src dst" and src: "mget F src = Some (Dir pm)"
    and depth: "depth_ok (Suc n) F src"
    and IH: "\<And>g x. fs_wf g \<Longrightarrow> fresh g (dst @ [x]) \<Longrightarrow> mget g (src @ [x]) \<noteq> None \<Longrightarrow>
      depth_ok n g (src @ [x]) \<Longrightarrow> copies c g (src @ [x]) (dst @ [x]) (cp x)"
  shows "copies c F src dst (bnd (dstDirectory p dst ow pm) (\<lambda>_.
     bnd (os_Chmod dst pm) (\<lambda>_.
     bnd (os_ReadDir src) (eachIO (\<lambda>x. bnd ctx_Err (\<lambda>_. cp x))))))" (is "ftriple c _ _ ?Q ?E")
proof (rule ft_seq [OF ft_dstDirectory [OF wf fresh]], simp, rule ft_start)
  fix H assume "fs_wf H \<and> mkdir_ext dst pm F H \<and> (\<exists>pm. mget H dst = Some (Dir pm))"
  then obtain pm' where H: "fs_wf H" "mkdir_ext dst pm F H" "mget H dst = Some (Dir pm')" by blast
  note frH = mkdir_copy_frame_dst [OF H(2)]
  show "ftriple c (\<lambda>fs. fs = H) (bnd (os_Chmod dst pm) (\<lambda>_.
     bnd (os_ReadDir src) (eachIO (\<lambda>x. bnd ctx_Err (\<lambda>_. cp x))))) ?Q ?E"
  proof (rule ft_seq [OF ft_Chmod_dir [OF H(1,3)]], use H(1) frH in simp, rule ft_start)
    fix G assume "fs_wf G \<and> mget G dst = Some (Dir pm) \<and> same_except {dst} H G"
    then have G: "fs_wf G" "mget G dst = Some (Dir pm)" "same_except {dst} H G" by auto
    have fr: "copy_frame F dst G"
      using frH G(3) by (auto simp: copy_frame_def same_except_def)
    have below: "mget G (dst @ x # r) = None" for x r
      using G(3) fresh_below [OF wf fresh, of "x # r"] mkdir_ext_outside [OF H(2), of "dst @ x # r"]
      by (auto simp: same_except_def dest: prefix_length_le)
    have srcG: "mget G (src @ r) = mget F (src @ r)" for r by (rule copy_frame_apart [OF fr ap])
    have dirG: "mget G src = Some (Dir pm)" using srcG [of "[]"] src by simp
    have each: "ftriple c (\<lambda>fs. names = children G src \<and> fs = G) (eachIO (\<lambda>x. bnd ctx_Err (\<lambda>_. cp x)) names) ?Q ?E" for names
      by (rule ft_prop, simp only: children_cong [OF wf G(1) srcG])
         (rule ft_copyChildren [OF wf ap src fr G(1,2) below depth IH])
    show "ftriple c (\<lambda>fs. fs = G) (bnd (os_ReadDir src) (eachIO (\<lambda>x. bnd ctx_Err (\<lambda>_. cp x)))) ?Q ?E"
      by (rule ft_seq [OF ft_ReadDir [OF G(1) dirG] _ each]) (use G(1) fr in auto)
  qed
qed

lemma ft_copyPath:
  assumes "fs_wf F" "fresh F dst" "apart src dst" "mget F src \<noteq> None" "depth_ok n F src"
  shows "copies c F src dst (copyPath n p src dst ow)"
  using assms
proof (induction n arbitrary: F src dst)
  case 0
  then show ?case by (metis append_Nil2 depth_ok_def not_less0)
next
  case (Suc n)
  note wf = Suc.prems(1) and fresh = Suc.prems(2) and ap = Suc.prems(3)
  let ?Q = "\<lambda>_ g. fs_wf g \<and> copy_frame F dst g \<and> mirrors F src g dst"
  let ?E = "\<lambda>e g. fs_wf g \<and> copy_frame F dst g \<and> (c \<longrightarrow> \<not> copyable F src)"
  have frF: "copy_frame F dst F" by (simp add: copy_frame_def)
  obtain nd where nd: "mget F src = Some nd" using Suc.prems(4) by blast
  have walk: "walk F [] src \<noteq> Through" using nd wf walk_existing [of F "[]" src nd] by simp
  have bad: "?E e F" if "nd = Symlink \<or> nd = Special" for e
    using nd that wf frF unfolding copyable_def by (metis append_Nil2)
  have mirror: "mirrors F src g dst" if "nd = File pm c0 t" "fs_wf g" "mget g dst = Some (File pm c0 t')" for pm c0 t g t'
    unfolding mirrors_def
  proof
    fix r show "same_obj (mget F (src @ r)) (mget g (dst @ r))"
      using that nd wf_nothing_below [OF wf _, of src r] wf_nothing_below [OF that(2), of dst r]
        wf_no_child [OF wf, of src] wf_no_child [OF that(2), of dst] by (cases "r = []") auto
  qed
  have rest: "ftriple c (\<lambda>fs. fs = F \<and> (\<exists>n m. mget F src = Some n \<and> info = node_info m n))
      (if fi_kind info = KSymlink then throw (nameErr p ErrCopy (fullPath p src))
       else if fi_kind info = KDir then
         bnd (dstDirectory p dst ow (fi_perm info)) (\<lambda>_.
         bnd (os_Chmod dst (fi_perm info)) (\<lambda>_.
         bnd (os_ReadDir src) (\<lambda>entries.
         eachIO (\<lambda>name. bnd ctx_Err (\<lambda>_. copyPath n p (src @ [name]) (dst @ [name]) ow)) entries)))
       else if fi_kind info \<noteq> KRegular then throw (nameErr p ErrCopy (fullPath p src))
       else copyFile src dst ow info) ?Q ?E" for info
  proof (rule ft_start, clarify)
    fix m1 m2 n' assume "mget F src = Some n'" and info: "info = node_info (m1, m2) n'"
    with nd have n': "n' = nd" by simp
    show "ftriple c (\<lambda>fs. fs = F) (if fi_kind (node_info (m1, m2) n') = KSymlink then throw (nameErr p ErrCopy (fullPath p src))
       else if fi_kind (node_info (m1, m2) n') = KDir then
         bnd (dstDirectory p dst ow (fi_perm (node_info (m1, m2) n'))) (\<lambda>_.
         bnd (os_Chmod dst (fi_perm (node_info (m1, m2) n'))) (\<lambda>_.
         bnd (os_ReadDir src) (\<lambda>entries.
         eachIO (\<lambda>name. bnd ctx_Err (\<lambda>_. copyPath n p (src @ [name]) (dst @ [name]) ow)) entries)))
       else if fi_kind (node_info (m1, m2) n') \<noteq> KRegular then throw (nameErr p ErrCopy (fullPath p src))
       else copyFile src dst ow (node_info (m1, m2) n')) ?Q ?E"
    proof (cases nd)
      case (Dir pm)
      have "copies c F src dst (bnd (dstDirectory p dst ow pm) (\<lambda>_. bnd (os_Chmod dst pm) (\<lambda>_.
          bnd (os_ReadDir src) (eachIO (\<lambda>x. bnd ctx_Err (\<lambda>_. copyPath n p (src @ [x]) (dst @ [x]) ow))))))"
        by (rule ft_copyDir [OF wf fresh ap _ Suc.prems(5)])
           (use nd Dir Suc.IH apart_child [OF ap] in auto)
      with Dir n' show ?thesis by simp
    next
      case (File pm c0 t)
      have dst: "dst \<noteq> []" "no_link F dst" "dir_path F (butlast dst)" "mget F dst = None"
        using fresh by (auto simp: fresh_def)
      have "ftriple c (\<lambda>fs. fs = F) (copyFile src dst ow (node_info (m1, m2) n')) ?Q ?E"
        by (rule ft_conseq [OF ft_copyFile [OF wf dst(2-4,1)]])
           (use nd File n' mirror in auto)
      with File n' show ?thesis by simp
    qed (use n' bad in \<open>auto intro!: ft_throw\<close>)
  qed
  show ?case
    unfolding copyPath.simps
    by (rule ft_bnd [OF ft_ctx_Err [where Q = "\<lambda>_ fs. fs = F"] ft_seq [OF ft_Lstat [OF wf walk] _ rest]])
       (use wf frF nd in \<open>auto simp: look_fails_def\<close>)
qed

end
