(* ===== verification/Storage_Object_Facts.thy ===== *)
theory Storage_Object_Facts
  imports Storage_Copy_Facts
begin

text \<open>
  Triples for the methods that work on one object or one pair of objects: \<open>Stat\<close>, \<open>Open\<close>,
  \<open>Delete\<close>, the checks of a transfer, \<open>Copy\<close> and \<open>Move\<close>, and that the fuel of \<open>Copy\<close> is enough.
\<close>

section \<open>Removing\<close>

lemma ft_pathFor_then:
  assumes "fs_wf F"
    and "valid_ref p ref \<Longrightarrow> clear F (ref_path ref) \<Longrightarrow> ftriple c (\<lambda>fs. fs = F) (f (ref_path ref)) Q E"
    and "\<And>e. (c \<longrightarrow> \<not> (valid_ref p ref \<and> clear F (ref_path ref))) \<Longrightarrow> E e F"
  shows "ftriple c (\<lambda>fs. fs = F) (bnd (pathFor p ref) f) Q E"
proof (rule ft_seq [OF ft_pathFor [OF assms(1)]])
  show "ftriple c (\<lambda>fs. fs = F \<and> valid_ref p ref \<and> path = ref_path ref \<and> clear F path) (f path) Q E" for path
  proof (cases "valid_ref p ref \<and> path = ref_path ref \<and> clear F path")
    case True
    then have "ftriple c (\<lambda>fs. fs = F) (f path) Q E" using assms(2) by blast
    then show ?thesis by (rule ft_pre) simp
  qed (auto simp: ftriple_def)
qed (use assms(3) in auto)

lemma clear_missing:
  assumes "fs_wf F" "clear F p"
  shows "walk F [] p = Missing \<longleftrightarrow> mget F p = None"
proof (cases "mget F p")
  case (Some n)
  with walk_existing [OF assms(1), of "[]" p] show ?thesis by simp
next
  case None
  then have "walk F [] p \<noteq> Found n" for n using walk_Found_iff [OF assms(1)] by simp
  with None assms(2) clear_walk [OF assms(2)] show ?thesis by (cases "walk F [] p") (auto simp: clear_def)
qed

lemma ft_Remove:
  assumes "fs_wf F" "walk F [] p \<noteq> Through" "p \<noteq> []"
  shows "ftriple c (\<lambda>fs. fs = F) (os_Remove p)
    (\<lambda>_ fs. fs_wf fs \<and> mget F p \<noteq> None \<and> mget fs p = None \<and> same_except {p} F fs)
    (\<lambda>e fs. fs = F \<and> (look_fails c F p e \<or>
       children F p \<noteq> [] \<and> (\<exists>pm. mget F p = Some (Dir pm)) \<and> \<not> errors_Is e (OS ErrNotExist)))"
  unfolding os_Remove_def
proof (rule ft_sys, rule ft_at_node)
  fix fs n assume "fs = F" "walk fs [] p = Found n"
  then have n: "mget F p = Some n" and fs: "fs = F" using assms by (auto simp: walk_Found_iff)
  have leaf: "\<forall>x. mget F (p @ [x]) = None" if "\<not> is_dir n"
    using wf_no_child [OF assms(1), of p] n that by (cases n) auto
  have del: "fs_wf (mdel p F)" if "\<forall>x. mget F (p @ [x]) = None"
    using fs_wf_mdel [OF assms(1,3) that] .
  have del': "fs_wf (mdel p F)" if "children F p = []" using del that by (simp add: children_Nil)
  show "ftriple c (\<lambda>g. g = fs) (\<lambda>w. case n of
       Dir _ \<Rightarrow> if children (files w) p \<noteq> [] \<or> p = [] then throw (os_err ENOTEMPTY) w
         else modify (\<lambda>w. w\<lparr>files := mdel p (files w)\<rparr>) w
     | _ \<Rightarrow> modify (\<lambda>w. w\<lparr>files := mdel p (files w)\<rparr>) w)
    (\<lambda>_ fs. fs_wf fs \<and> mget F p \<noteq> None \<and> mget fs p = None \<and> same_except {p} F fs)
    (\<lambda>e fs. fs = F \<and> (look_fails c F p e \<or>
       children F p \<noteq> [] \<and> (\<exists>pm. mget F p = Some (Dir pm)) \<and> \<not> errors_Is e (OS ErrNotExist)))"
    using n fs assms(3) leaf del del'
    by (cases n) (auto simp: ftriple_def throw_def modify_def same_env_def same_except_def)
qed (use look_failsI [OF assms(1,2)] assms in auto)

lemma ft_RemoveAll:
  assumes "fs_wf F" "clear F p" "p \<noteq> []"
  shows "ftriple c (\<lambda>fs. fs = F) (os_RemoveAll p)
    (\<lambda>_ fs. fs = filter (\<lambda>(q, _). \<not> prefix p q) F) (\<lambda>e fs. \<not> c \<and> fs = F)"
  unfolding os_RemoveAll_def
proof (rule ft_sys)
  have "walk F [] p \<noteq> NotDir" "walk F [] p \<noteq> Through"
    using assms(2) by (auto simp: clear_def clear_walk)
  with assms(3) show "ftriple c (\<lambda>fs. fs = F) (\<lambda>w.
     case walk (files w) [] p of
       Through \<Rightarrow> followed p w
     | NotDir \<Rightarrow> throw (os_err ENOTDIR) w
     | _ \<Rightarrow> if p = [] then throw (os_err EINVAL) w
            else modify (\<lambda>w. w\<lparr>files := filter (\<lambda>(q, _). \<not> prefix p q) (files w)\<rparr>) w)
    (\<lambda>_ fs. fs = filter (\<lambda>(q, _). \<not> prefix p q) F) (\<lambda>e fs. \<not> c \<and> fs = F)"
    by (auto simp: ftriple_def modify_def same_env_def split: walked.split)
qed auto

lemma ft_Delete:
  assumes "fs_wf F"
  shows "ftriple c (\<lambda>fs. fs = F) (Delete p ref)
    (\<lambda>_ fs. fs_wf fs \<and> valid_ref p ref \<and> mget fs (ref_path ref) = None \<and> same_except {ref_path ref} F fs)
    (\<lambda>e fs. fs = F \<and> (c \<longrightarrow> \<not> valid_ref p ref \<or> \<not> clear F (ref_path ref) \<or> children F (ref_path ref) \<noteq> []))"
    (is "ftriple c _ _ ?Q ?E")
  unfolding Delete_def
proof (rule ft_bnd [OF ft_ctx_Err [where Q = "\<lambda>_ fs. fs = F"]], simp, simp)
  let ?fin = "\<lambda>r. case r of
       Inr _ \<Rightarrow> ret ()
     | Inl e \<Rightarrow>
         if errors_Is e (OS ErrNotExist) then ret ()
         else throw (wrapAs p ErrDelete (Ref_String ref) e)"
  have rm: "ftriple c (\<lambda>fs. fs = F) (bnd (attempt (os_Remove path)) ?fin) ?Q ?E"
    if v: "valid_ref p ref" "path = ref_path ref" "clear F path" for path
  proof (rule ft_seq_attempt [OF ft_Remove])
    show "fs_wf F" "walk F [] path \<noteq> Through" "path \<noteq> []"
      using assms that valid_ref_safe [OF that(1)] by (auto simp: clear_walk safe_path_def)
    show "ftriple c (\<lambda>fs. fs_wf fs \<and> mget F path \<noteq> None \<and> mget fs path = None \<and> same_except {path} F fs) (?fin (Inr x)) ?Q ?E" for x
      using v by (auto intro: ft_ret)
    show "ftriple c (\<lambda>fs. fs = F \<and> (look_fails c F path e \<or>
       children F path \<noteq> [] \<and> (\<exists>pm. mget F path = Some (Dir pm)) \<and> \<not> errors_Is e (OS ErrNotExist))) (?fin (Inl e)) ?Q ?E" for e
      using v assms clear_missing [OF assms v(3)]
      by (auto simp: look_fails_def same_except_def intro!: ft_ret ft_throw)
  qed
  show "ftriple c (\<lambda>fs. fs = F) (bnd (pathFor p ref) (\<lambda>path. bnd (attempt (os_Remove path)) ?fin)) ?Q ?E"
  by (rule ft_pathFor_then [OF assms]) (rule rm, auto)
qed

section \<open>Looking\<close>

lemma ft_Open:
  assumes "fs_wf F"
  shows "ftriple c (\<lambda>fs. fs = F) (Open p ref)
    (\<lambda>h fs. fs = F \<and> valid_ref p ref \<and> h = At (ref_path ref) \<and> mget F (ref_path ref) \<noteq> None)
    (\<lambda>e fs. fs = F \<and> (c \<longrightarrow> \<not> valid_ref p ref \<or> \<not> clear F (ref_path ref) \<or> mget F (ref_path ref) = None))"
    (is "ftriple c _ _ ?Q ?E")
  unfolding Open_def
proof (rule ft_bnd [OF ft_ctx_Err [where Q = "\<lambda>_ fs. fs = F"]], simp, simp)
  have opn: "ftriple c (\<lambda>fs. fs = F) (wrapErr g (os_Open path)) ?Q ?E"
    if v: "valid_ref p ref" "path = ref_path ref" "clear F path" for path g
  proof (rule ft_wrapErr, cases "mget F path")
    case (Some n)
    then have "n \<noteq> Symlink" using clear_node [OF v(3)] by auto
    from ft_Open_existing [OF assms Some this]
    show "ftriple c (\<lambda>fs. fs = F) (os_Open path) ?Q (\<lambda>e. ?E (g e))"
      by (rule ft_conseq) (use v Some in auto)
  next
    case None
    have walk: "walk F [] path = Missing" using None clear_missing [OF assms v(3)] by simp
    show "ftriple c (\<lambda>fs. fs = F) (os_Open path) ?Q (\<lambda>e. ?E (g e))"
      unfolding os_Open_def os_OpenFile_def
      by (rule ft_sys) (use walk None v in \<open>auto simp: ftriple_def throw_def\<close>)
  qed
  show "ftriple c (\<lambda>fs. fs = F) (bnd (pathFor p ref) (\<lambda>path. wrapErr (wrapAs p ErrOpen (Ref_String ref)) (os_Open path))) ?Q ?E"
  by (rule ft_pathFor_then [OF assms]) (rule opn, auto)
qed

text \<open>What \<open>Stat\<close> reports about a node.\<close>

definition stat_of :: "Ref \<Rightarrow> node \<Rightarrow> ObjectInfo \<Rightarrow> bool" where
  "stat_of ref n oi \<longleftrightarrow> oi_Ref oi = ref \<and> oi_Metadata oi = [] \<and>
     (case n of
        File pm cnt t \<Rightarrow> oi_Type oi = ObjectFile \<and> oi_Size oi = length cnt \<and> oi_ModTime oi = t \<and>
          oi_Generation oi = show_int t @ '':'' @ show_nat (length cnt)
      | Dir _ \<Rightarrow> oi_Type oi = ObjectDir \<and> oi_Generation oi = ''''
      | _ \<Rightarrow> oi_Type oi = ObjectUnknown \<and> oi_Generation oi = '''')"

lemma ft_StatM:
  assumes "fs_wf F"
  shows "ftriple c (\<lambda>fs. fs = F) (Stat p ref)
    (\<lambda>oi fs. fs = F \<and> valid_ref p ref \<and> (\<exists>n. mget F (ref_path ref) = Some n \<and> stat_of ref n oi))
    (\<lambda>e fs. fs = F \<and> (c \<longrightarrow> \<not> valid_ref p ref \<or> \<not> clear F (ref_path ref) \<or> mget F (ref_path ref) = None))"
    (is "ftriple c _ _ ?Q ?E")
  unfolding Stat_def
proof (rule ft_bnd [OF ft_ctx_Err [where Q = "\<lambda>_ fs. fs = F"]], simp, simp)
  let ?oi = "\<lambda>path info w. \<lparr>oi_Ref = ref, oi_Type = objectType info, oi_Size = fi_size info,
                oi_ModTime = fi_mtime info, oi_Generation = generationOf info,
                oi_ContentType = mime w (filepath_Ext (last path)),
                oi_Metadata = [], oi_Kind = ArtifactGeneric\<rparr>"
  have st: "stat_of ref n (?oi path (node_info m n) w)" for n m path w
    by (cases m; cases n) (auto simp: stat_of_def objectType_def generationOf_def)
  have look: "ftriple c (\<lambda>fs. fs = F) (bnd (wrapErr g (os_Stat path)) (\<lambda>info. gets (?oi path info))) ?Q ?E"
    if v: "valid_ref p ref" "path = ref_path ref" "clear F path" for path g
  proof (rule ft_seq_wrap [OF ft_Stat])
    show "fs_wf F" "walk F [] path \<noteq> Through" "mget F path \<noteq> Some Symlink"
      using assms v clear_walk clear_node by auto
    show "ftriple c (\<lambda>fs. fs = F \<and> (\<exists>n m. mget F path = Some n \<and> info = node_info m n)) (gets (?oi path info)) ?Q ?E" for info
      by (rule ft_gets) (use v st in auto)
    show "?E (g e) fs" if "fs = F \<and> look_fails c F path e" for e fs
      using that v by (auto simp: look_fails_def)
  qed
  show "ftriple c (\<lambda>fs. fs = F) (bnd (pathFor p ref) (\<lambda>path.
     bnd (wrapErr (notFoundOr p ErrStat (Ref_String ref)) (os_Stat path)) (\<lambda>info. gets (?oi path info)))) ?Q ?E"
  by (rule ft_pathFor_then [OF assms]) (rule look, auto)
qed

section \<open>Transfers\<close>

definition transferable :: "Provider \<Rightarrow> fsys \<Rightarrow> Ref \<Rightarrow> Ref \<Rightarrow> bool" where
  "transferable p F src dst \<longleftrightarrow> src \<noteq> dst \<and> valid_ref p src \<and> valid_ref p dst \<and>
     clear F (ref_path src) \<and> clear F (ref_path dst) \<and> mget F (ref_path src) \<noteq> None"

fun looked :: "fsys \<Rightarrow> path \<Rightarrow> FileInfo option \<Rightarrow> bool" where
  "looked F q None \<longleftrightarrow> mget F q = None"
| "looked F q (Some info) \<longleftrightarrow> (\<exists>n m. mget F q = Some n \<and> info = node_info m n)"

lemma ft_transferChecks:
  assumes "fs_wf F"
  shows "ftriple c (\<lambda>fs. fs = F) (transferChecks p kind src dst)
    (\<lambda>(sp, dp, si, di) fs. fs = F \<and> transferable p F src dst \<and> sp = ref_path src \<and> dp = ref_path dst \<and>
       looked F sp (Some si) \<and> looked F dp di)
    (\<lambda>e fs. fs = F \<and> (c \<longrightarrow> \<not> transferable p F src dst))" (is "ftriple c _ _ ?Q ?E")
proof (cases "src = dst")
  case True
  then show ?thesis unfolding transferChecks_def
    by (intro ft_bnd [OF ft_ctx_Err [where Q = "\<lambda>_ fs. fs = F"]]) (auto simp: transferable_def intro: ft_throw)
next
  case False
  let ?last = "\<lambda>sp dp info r. case r of
           Inr dstInfo \<Rightarrow> ret (sp, dp, info, Some dstInfo)
         | Inl e \<Rightarrow>
             if errors_Is e (OS ErrNotExist) then ret (sp, dp, info, None)
             else throw (wrapAs p kind (Ref_String dst) e)"
  let ?rest = "\<lambda>sp dp info. if fi_kind info = KSymlink then throw (nameErr p kind (arrow src dst))
       else bnd (attempt (os_Lstat dp)) (?last sp dp info)"
  have body: "ftriple c (\<lambda>fs. fs = F)
      (bnd (wrapErr (notFoundOr p kind (Ref_String src)) (os_Lstat (ref_path src))) (?rest (ref_path src) (ref_path dst))) ?Q ?E"
    if v: "valid_ref p src" "valid_ref p dst" "clear F (ref_path src)" "clear F (ref_path dst)"
  proof (rule ft_seq_wrap [OF ft_Lstat [OF assms clear_walk [OF v(3)]]])
    fix info
    show "ftriple c (\<lambda>fs. fs = F \<and> (\<exists>n m. mget F (ref_path src) = Some n \<and> info = node_info m n))
        (?rest (ref_path src) (ref_path dst) info) ?Q ?E"
    proof (cases "looked F (ref_path src) (Some info)")
      case True
      then have nl: "fi_kind info \<noteq> KSymlink" using clear_node [OF v(3)] by auto
      have tr: "transferable p F src dst" using True v False by (auto simp: transferable_def)
      have "ftriple c (\<lambda>fs. fs = F) (bnd (attempt (os_Lstat (ref_path dst))) (?last (ref_path src) (ref_path dst) info)) ?Q ?E"
      proof (rule ft_seq_attempt [OF ft_Lstat [OF assms clear_walk [OF v(4)]]])
        show "ftriple c (\<lambda>fs. fs = F \<and> (\<exists>n m. mget F (ref_path dst) = Some n \<and> x = node_info m n))
          (?last (ref_path src) (ref_path dst) info (Inr x)) ?Q ?E" for x
        proof (rule ft_pre)
          show "ftriple c (\<lambda>fs. fs = F \<and> looked F (ref_path dst) (Some x))
            (?last (ref_path src) (ref_path dst) info (Inr x)) ?Q ?E"
            using tr True by (auto intro!: ft_ret simp del: looked.simps(2))
        qed simp
        show "ftriple c (\<lambda>fs. fs = F \<and> look_fails c F (ref_path dst) e)
          (?last (ref_path src) (ref_path dst) info (Inl e)) ?Q ?E" for e
          using tr True clear_missing [OF assms v(4)] by (auto simp: look_fails_def intro!: ft_ret ft_throw)
      qed
      with nl show ?thesis by (auto intro: ft_pre)
    qed (auto simp: ftriple_def)
  qed (auto simp: look_fails_def transferable_def)
  show ?thesis
    unfolding transferChecks_def if_not_P [OF False]
    by (rule ft_bnd [OF ft_ctx_Err [where Q = "\<lambda>_ fs. fs = F"]], simp, simp,
        rule ft_pathFor_then [OF assms], rule ft_pathFor_then [OF assms], rule body)
       (auto simp: transferable_def)
qed

text \<open>The number of objects bounds the depth of the tree, so the fuel of \<open>Copy\<close> is enough.\<close>

lemma depth_enough:
  assumes "fs_wf F"
  shows "depth_ok (Suc (length F)) F src"
  unfolding depth_ok_def
proof (intro allI impI)
  fix r assume r: "mget F (src @ r) \<noteq> None"
  let ?P = "(\<lambda>i. src @ take i r) ` {..<length r}"
  have "?P \<subseteq> dom (mget F)"
  proof
    fix q assume "q \<in> ?P"
    then obtain i where i: "i < length r" "q = src @ take i r" by auto
    have "src @ r = q @ drop i r" using i by simp
    moreover have "drop i r \<noteq> []" using i by simp
    ultimately obtain pm where "mget F q = Some (Dir pm)"
      using r wf_ancestor [OF assms, of q "drop i r"] by (metis not_None_eq)
    then show "q \<in> dom (mget F)" by (rule domI)
  qed
  then have "card ?P \<le> card (dom (mget F))" by (rule card_mono [OF finite_dom_map_of])
  moreover have "inj_on (\<lambda>i. src @ take i r) {..<length r}"
    by (rule inj_onI) (auto dest: arg_cong [where f = length])
  then have "card ?P = length r" by (simp add: card_image)
  ultimately show "length r < Suc (length F)"
    using length_eq_keys [OF fs_wfD(1) [OF assms]] by simp
qed

lemma ft_Copy_fresh:
  assumes "fs_wf F" "mget F (ref_path dst) = None" "apart (ref_path src) (ref_path dst)"
  shows "ftriple c (\<lambda>fs. fs = F) (Copy p src dst opts)
    (\<lambda>_ g. fs_wf g \<and> transferable p F src dst \<and> copy_frame F (ref_path dst) g \<and> mirrors F (ref_path src) g (ref_path dst))
    (\<lambda>e g. fs_wf g \<and> copy_frame F (ref_path dst) g \<and>
       (c \<longrightarrow> \<not> (transferable p F src dst \<and> copyable F (ref_path src))))" (is "ftriple c _ _ ?Q ?E")
  unfolding Copy_def
proof (rule ft_seq [OF ft_transferChecks [OF assms(1)]], goal_cases)
  case (1 e fs)
  with assms(1) show ?case by (auto simp: copy_frame_def)
next
  case (2 x)
  obtain sp dp si di where x: "x = (sp, dp, si, di)" by (cases x)
  show ?case unfolding x prod.case
  proof (cases "transferable p F src dst \<and> sp = ref_path src \<and> dp = ref_path dst \<and> looked F dp di")
    case True
    then have di: "di = None" using assms(2) by (cases di) auto
    have tr: "valid_ref p dst" "clear F (ref_path dst)" "mget F (ref_path src) \<noteq> None"
      using True by (auto simp: transferable_def)
    have ne: "ref_path dst \<noteq> []" using valid_ref_safe [OF tr(1)] by (simp add: safe_path_def)
    have "fresh F (ref_path dst)"
      using clear_dir_path [OF assms(1) tr(2) ne] tr(2) ne assms(2) by (simp add: fresh_def clear_def)
    from ft_copyPath [OF assms(1) this assms(3) tr(3) depth_enough [OF assms(1)], of c p "copy_Overwrite opts"]
    have "ftriple c (\<lambda>fs. fs = F) (\<lambda>w. copyPath (Suc (length (files w))) p sp dp (copy_Overwrite opts) w)
      (\<lambda>_ g. fs_wf g \<and> copy_frame F dp g \<and> mirrors F sp g dp)
      (\<lambda>e g. fs_wf g \<and> copy_frame F dp g \<and> (c \<longrightarrow> \<not> copyable F sp))"
      using True unfolding ftriple_def by auto
    then have "ftriple c (\<lambda>fs. fs = F)
      (bnd (check None) (\<lambda>_. wrapErr (wrapAs p ErrCopy (arrow src dst))
        (\<lambda>w. copyPath (Suc (length (files w))) p sp dp (copy_Overwrite opts) w))) ?Q ?E"
      using True
      by (intro ft_bnd [OF ft_check [where Q = "\<lambda>_ fs. fs = F"]] ft_wrapErr) (auto elim: ft_conseq)
    then show "ftriple c (\<lambda>fs. fs = F \<and> transferable p F src dst \<and> sp = ref_path src \<and> dp = ref_path dst \<and>
        looked F sp (Some si) \<and> looked F dp di) (bnd (check (case di of
            None \<Rightarrow> None
          | Some di \<Rightarrow>
              if \<not> copy_Overwrite opts then Some (nameErr p ErrAlreadyExists (Ref_String dst))
              else if (fi_kind si = KDir) \<noteq> (fi_kind di = KDir)
                then Some (nameErr p ErrCopy (arrow src dst))
              else if fi_kind si \<noteq> KDir \<and> (fi_kind si \<noteq> KRegular \<or> fi_kind di \<noteq> KRegular)
                then Some (nameErr p ErrCopy (arrow src dst))
              else None)) (\<lambda>_.
     wrapErr (wrapAs p ErrCopy (arrow src dst))
       (\<lambda>w. copyPath (Suc (length (files w))) p sp dp (copy_Overwrite opts) w))) ?Q ?E"
      unfolding di option.case by (rule ft_pre) auto
  qed (auto simp: ftriple_def)
qed

end
