(* ===== verification/Storage_Move_Facts.thy ===== *)
theory Storage_Move_Facts
  imports Storage_Object_Facts
begin

text \<open>
  \<open>Move\<close>: what it does to the tree when the destination is absent, when an unrelated destination is
  replaced, and when the destination holds the source.
\<close>

definition wiped :: "fsys \<Rightarrow> path \<Rightarrow> fsys \<Rightarrow> bool" where
  "wiped F p g \<longleftrightarrow> fs_wf g \<and> (\<forall>q. mget g q = (if prefix p q then None else mget F q))"

definition moved_tree :: "fsys \<Rightarrow> path \<Rightarrow> path \<Rightarrow> fsys \<Rightarrow> bool" where
  "moved_tree F src dst g \<longleftrightarrow> fs_wf g \<and>
     (\<forall>r. mget g (dst @ r) = mget F (src @ r)) \<and> (\<forall>r. mget g (src @ r) = None) \<and>
     (\<forall>q. \<not> prefix src q \<and> \<not> prefix dst q \<longrightarrow> mget g q = mget F q \<or>
        (mget F q = None \<and> strict_prefix q dst \<and> mget g q = Some (Dir 488)))"

lemma wiped_absent:
  assumes "fs_wf F" "mget F p = None"
  shows "wiped F p F"
proof -
  have "mget F q = None" if "prefix p q" for q
  proof -
    from that obtain r where "q = p @ r" by (auto simp: prefix_def)
    with wf_nothing_below [OF assms(1) _, of p r] wf_no_child [OF assms(1), of p] assms(2)
    show ?thesis by (cases "r = []") auto
  qed
  with assms(1) show ?thesis by (simp add: wiped_def)
qed

lemma wiped_RemoveAll:
  assumes "fs_wf F" "p \<noteq> []"
  shows "wiped F p (filter (\<lambda>(q, _). \<not> prefix p q) F)"
  using fs_wf_RemoveAll [OF assms] mget_filter_prefix [OF fs_wfD(1) [OF assms(1)]]
  by (simp add: wiped_def)

lemma wiped_leaf:
  assumes "fs_wf F" "fs_wf g" "mget g p = None" "same_except {p} F g" "\<forall>x. mget F (p @ [x]) = None"
  shows "wiped F p g"
proof -
  have "mget g q = (if prefix p q then None else mget F q)" for q
  proof (cases "prefix p q")
    case True
    then obtain r where q: "q = p @ r" by (auto simp: prefix_def)
    with wf_nothing_below [OF assms(1,5), of r] assms(3,4) True show ?thesis
      by (cases "r = []") (auto simp: same_except_def)
  next
    case False
    with assms(4) show ?thesis by (auto simp: same_except_def)
  qed
  with assms(2) show ?thesis by (simp add: wiped_def)
qed

lemma wiped_clear:
  assumes "wiped F p G" "clear F p" "fs_wf F" "p \<noteq> []"
  shows "no_link G (butlast p)" "dir_path G (butlast p)"
proof -
  have "mget G q = mget F q \<or> mget G q = None" for q using assms(1) by (simp add: wiped_def)
  then show "no_link G (butlast p)" "dir_path G (butlast p)"
    using clear_dir_path [OF assms(3,2,4)] no_link_butlast [of F p] assms(2)
    unfolding clear_def no_link_def dir_path_def by (metis option.distinct(1))+
qed

lemma ft_Rename_tree:
  assumes "fs_wf G" "mget G old = Some n" "old \<noteq> []" "new \<noteq> []" "mget G new = None"
    and "mget G (butlast new) = Some (Dir pm)"
  shows "ftriple c (\<lambda>fs. fs = G) (os_Rename old new)
    (\<lambda>_ fs. \<not> prefix old new \<and> fs = relocate old new G) (\<lambda>e fs. fs = G \<and> (c \<longrightarrow> prefix old new))"
  unfolding os_Rename_def
proof (rule ft_sys)
  have "walk G [] old = Found n" "walk G [] (butlast new) = Found (Dir pm)" "old \<noteq> new"
    using assms by (auto simp: walk_Found_iff)
  with assms(3-5) show "ftriple c (\<lambda>fs. fs = G) (at_node old (\<lambda>src. at_node (butlast new) (\<lambda>parent w.
       case parent of
         Symlink \<Rightarrow> followed new w
       | Dir _ \<Rightarrow>
           if old = new then ret () w
           else if prefix old new \<or> old = [] \<or> new = [] then throw (os_err EINVAL) w
           else case rename_refused (files w) old new src (mget (files w) new) of
             Some e \<Rightarrow> throw e w
           | None \<Rightarrow> modify (\<lambda>w. w\<lparr>files := relocate old new (files w)\<rparr>) w
       | _ \<Rightarrow> throw (os_err ENOTDIR) w)))
    (\<lambda>_ fs. \<not> prefix old new \<and> fs = relocate old new G) (\<lambda>e fs. fs = G \<and> (c \<longrightarrow> prefix old new))"
    by (auto simp: ftriple_def at_node_def throw_def modify_def same_env_def rename_refused_def)
qed auto

lemma relocate_moved:
  assumes wip: "wiped F dst G" and ext: "mkdir_ext (butlast dst) 488 G H" and wf: "fs_wf H"
    and src: "mget F src = Some n" and np: "\<not> prefix dst src" "\<not> prefix src dst"
    and ne: "src \<noteq> []" "dst \<noteq> []" and par: "mget H (butlast dst) = Some (Dir pm)"
  shows "moved_tree F src dst (relocate src dst H)"
proof -
  have out: "mget H q = mget G q" if "\<not> prefix q (butlast dst)" for q
    using mkdir_ext_outside [OF ext that] .
  have longer: "\<not> prefix (dst @ r) (butlast dst)" for r
    using ne(2) prefix_length_le [of "dst @ r" "butlast dst"] by (cases dst) auto
  have none: "mget H (dst @ r) = None" for r
    using out [OF longer] wip by (simp add: wiped_def)
  have off: "\<not> prefix (src @ r) (butlast dst)" for r
    using np(2) by (meson append_prefixD prefix_order.trans prefixeq_butlast)
  have offd: "\<not> prefix dst (src @ r)" for r
    using np by (auto simp: prefix_append)
  have srcH: "mget H (src @ r) = mget F (src @ r)" for r
    using out [OF off] wip offd by (simp add: wiped_def)
  have srcn: "mget H src = Some n" using srcH [of "[]"] src by simp
  have wf': "fs_wf (relocate src dst H)"
    by (rule fs_wf_relocate [OF wf _ np(2,1) srcn ne par]) (use none in simp)
  note look = relocate_lookup(2) [OF fs_wfD(1) [OF wf] _ np(2,1), rule_format]
  have other: "mget H q = mget F q \<or> (mget F q = None \<and> strict_prefix q dst \<and> mget H q = Some (Dir 488))"
    if "\<not> prefix dst q" for q
    using ext wip that prefix_butlast_strict [OF _ ne(2)]
    unfolding mkdir_ext_def wiped_def by metis
  have "\<not> prefix dst (src @ r) \<and> prefix src (src @ r)" for r using offd by simp
  then have "mget (relocate src dst H) (src @ r) = None" for r
    using look none by simp
  moreover have "mget (relocate src dst H) (dst @ r) = mget F (src @ r)" for r
    using look none srcH by simp
  moreover have "mget (relocate src dst H) q = mget H q" if "\<not> prefix src q" "\<not> prefix dst q" for q
    using look none that by simp
  ultimately show ?thesis using wf' other by (simp add: moved_tree_def)
qed

lemma ft_Move_core:
  assumes "fs_wf F" "wiped F dst G" "clear F dst" "dst \<noteq> []" "src \<noteq> []" "mget F src = Some n" "\<not> prefix dst src"
  shows "ftriple c (\<lambda>fs. fs = G)
     (bnd (wrapErr f (os_MkdirAll (butlast dst) 488)) (\<lambda>_. wrapErr g (os_Rename src dst)))
     (\<lambda>_ h. \<not> prefix src dst \<and> moved_tree F src dst h)
     (\<lambda>_ h. fs_wf h \<and> mkdir_ext (butlast dst) 488 G h \<and> (c \<longrightarrow> prefix src dst))" (is "ftriple c _ _ ?Q ?E")
proof (rule ft_seq_wrap [OF ft_MkdirAll])
  show wfG: "fs_wf G" using assms(2) by (simp add: wiped_def)
  show "no_link G (butlast dst)" using wiped_clear [OF assms(2,3,1,4)] by simp
  show "?E (f e) h" if "fs_wf h \<and> mkdir_ext (butlast dst) 488 G h \<and> (c \<longrightarrow> \<not> dir_path G (butlast dst))" for e h
    using that wiped_clear [OF assms(2,3,1,4)] by simp
  show "ftriple c (\<lambda>fs. fs_wf fs \<and> mkdir_ext (butlast dst) 488 G fs \<and> (\<exists>pm. mget fs (butlast dst) = Some (Dir pm)))
      (wrapErr g (os_Rename src dst)) ?Q ?E" for x
  proof (rule ft_start)
    fix H assume H: "fs_wf H \<and> mkdir_ext (butlast dst) 488 G H \<and> (\<exists>pm. mget H (butlast dst) = Some (Dir pm))"
    then obtain pm where wf: "fs_wf H" and ext: "mkdir_ext (butlast dst) 488 G H" and pm: "mget H (butlast dst) = Some (Dir pm)" by blast
    have "mget G src = Some n" using assms(2,6,7) by (simp add: wiped_def)
    from mkdir_ext_old [OF ext this] have srcn: "mget H src = Some n" .
    have "mget G dst = None" using assms(2) by (simp add: wiped_def)
    then have dstn: "mget H dst = None"
      using mkdir_ext_outside [OF ext, of dst] not_prefix_butlast [OF assms(4), of "last dst"] assms(4) by simp
    show "ftriple c (\<lambda>fs. fs = H) (wrapErr g (os_Rename src dst)) ?Q ?E"
    proof (rule ft_wrapErr, rule ft_conseq [OF ft_Rename_tree [OF wf srcn assms(5,4) dstn pm]])
      show "?Q x fs" if "\<not> prefix src dst \<and> fs = relocate src dst H" for x fs
        using that relocate_moved [OF assms(2) ext wf assms(6,7) _ assms(5,4) pm] by simp
    qed (use wf ext in auto)
  qed
qed

section \<open>The method\<close>

text \<open>The steps of \<open>Move\<close> after its checks.\<close>

definition moveClear :: "Provider \<Rightarrow> Ref \<Rightarrow> Ref \<Rightarrow> MoveOptions \<Rightarrow> path \<Rightarrow> FileInfo \<Rightarrow> FileInfo option \<Rightarrow> unit io" where
  "moveClear p src dst opts dstPath srcInfo dstInfo =
     (case dstInfo of
        None \<Rightarrow> ret ()
      | Some di \<Rightarrow>
          if \<not> move_Overwrite opts then throw (nameErr p ErrAlreadyExists (Ref_String dst))
          else if (fi_kind srcInfo = KDir) \<noteq> (fi_kind di = KDir)
            then throw (nameErr p ErrMove (arrow src dst))
          else wrapErr (wrapAs p ErrMove (Ref_String dst))
                 (if fi_kind di = KDir then os_RemoveAll dstPath else os_Remove dstPath))"

definition moveTo :: "Provider \<Rightarrow> Ref \<Rightarrow> Ref \<Rightarrow> path \<Rightarrow> path \<Rightarrow> unit io" where
  "moveTo p src dst srcPath dstPath =
     bnd (wrapErr (wrapAs p ErrMove (Ref_String dst)) (os_MkdirAll (butlast dstPath) 488)) (\<lambda>_.
     wrapErr (wrapAs p ErrMove (arrow src dst)) (os_Rename srcPath dstPath))"

lemma Move_eq:
  "Move p src dst opts =
     bnd (transferChecks p ErrMove src dst) (\<lambda>(srcPath, dstPath, srcInfo, dstInfo).
     bnd (moveClear p src dst opts dstPath srcInfo dstInfo) (\<lambda>_. moveTo p src dst srcPath dstPath))"
  by (simp add: Move_def moveClear_def moveTo_def)

text \<open>When the checks let an existing destination be replaced.\<close>

definition replaceable :: "fsys \<Rightarrow> path \<Rightarrow> path \<Rightarrow> MoveOptions \<Rightarrow> bool" where
  "replaceable F src dst opts \<longleftrightarrow>
     (\<forall>m n. mget F src = Some m \<longrightarrow> mget F dst = Some n \<longrightarrow> move_Overwrite opts \<and> is_dir m = is_dir n)"

lemma ft_moveClear:
  assumes "fs_wf F" "clear F dst" "dst \<noteq> []" "looked F sp (Some si)" "looked F dst di"
  shows "ftriple c (\<lambda>fs. fs = F) (moveClear p src d opts dst si di)
    (\<lambda>_ fs. replaceable F sp dst opts \<and> wiped F dst fs) (\<lambda>e fs. fs = F \<and> (c \<longrightarrow> \<not> replaceable F sp dst opts))"
    (is "ftriple c _ _ ?Q (\<lambda>_. ?E)")
proof (cases di)
  case None
  with assms(5) wiped_absent [OF assms(1)] show ?thesis
    by (auto simp: moveClear_def replaceable_def intro!: ft_ret)
next
  case (Some i)
  obtain n m where n: "mget F sp = Some n" "si = node_info m n" using assms(4) by auto
  obtain k l where k: "mget F dst = Some k" "i = node_info l k" using assms(5) Some by auto
  have rep: "replaceable F sp dst opts \<longleftrightarrow> move_Overwrite opts \<and> is_dir n = is_dir k"
    using n k by (auto simp: replaceable_def)
  have all: "ftriple c (\<lambda>fs. fs = F) (os_RemoveAll dst) ?Q (\<lambda>_. ?E)" if "replaceable F sp dst opts"
    by (rule ft_conseq [OF ft_RemoveAll [OF assms(1,2,3)]])
       (use that wiped_RemoveAll [OF assms(1,3)] in auto)
  have leaf: "\<forall>x. mget F (dst @ [x]) = None" if "\<not> is_dir k"
    using wf_no_child [OF assms(1), of dst] k(1) that by (cases k) auto
  have one: "ftriple c (\<lambda>fs. fs = F) (os_Remove dst) ?Q (\<lambda>_. ?E)"
    if r: "replaceable F sp dst opts" and nd: "\<not> is_dir k"
  proof (rule ft_conseq [OF ft_Remove [OF assms(1) clear_walk [OF assms(2)] assms(3)]])
    show "?Q x fs" if "fs_wf fs \<and> mget F dst \<noteq> None \<and> mget fs dst = None \<and> same_except {dst} F fs" for x fs
      using that r wiped_leaf [OF assms(1) _ _ _ leaf [OF nd], of fs] by simp
    show "?E fs" if "fs = F \<and> (look_fails c F dst e' \<or>
        children F dst \<noteq> [] \<and> (\<exists>pm. mget F dst = Some (Dir pm)) \<and> \<not> errors_Is e' (OS ErrNotExist))" for e' fs
      using that k(1) nd by (auto simp: look_fails_def)
  qed simp
  show ?thesis
    unfolding moveClear_def Some option.case
  proof (cases "move_Overwrite opts", simp_all only: not_True_eq_False not_False_eq_True if_True if_False)
    case False
    with rep show "ftriple c (\<lambda>fs. fs = F) (throw (nameErr p ErrAlreadyExists (Ref_String d))) ?Q (\<lambda>_. ?E)"
      by (auto intro: ft_throw)
  next
    case ow: True
    have k1: "(fi_kind si = KDir) = is_dir n" "(fi_kind i = KDir) = is_dir k" using n k by auto
    show "ftriple c (\<lambda>fs. fs = F)
      (if (fi_kind si = KDir) \<noteq> (fi_kind i = KDir) then throw (nameErr p ErrMove (arrow src d))
       else wrapErr (wrapAs p ErrMove (Ref_String d))
              (if fi_kind i = KDir then os_RemoveAll dst else os_Remove dst)) ?Q (\<lambda>_. ?E)"
      unfolding k1
    proof (cases "is_dir n = is_dir k")
      case True
      with ow rep have r: "replaceable F sp dst opts" by simp
      show "ftriple c (\<lambda>fs. fs = F)
        (if is_dir n \<noteq> is_dir k then throw (nameErr p ErrMove (arrow src d))
         else wrapErr (wrapAs p ErrMove (Ref_String d))
                (if is_dir k then os_RemoveAll dst else os_Remove dst)) ?Q (\<lambda>_. ?E)"
        using True ft_wrapErr [OF all [OF r]] ft_wrapErr [OF one [OF r]] by (cases "is_dir k") simp_all
    next
      case False
      with rep show "ftriple c (\<lambda>fs. fs = F)
        (if is_dir n \<noteq> is_dir k then throw (nameErr p ErrMove (arrow src d))
         else wrapErr (wrapAs p ErrMove (Ref_String d))
                (if is_dir k then os_RemoveAll dst else os_Remove dst)) ?Q (\<lambda>_. ?E)"
        by (auto intro: ft_throw)
    qed
  qed
qed

lemma ft_Move:
  assumes "fs_wf F" "\<not> prefix (ref_path dst) (ref_path src)"
  shows "ftriple c (\<lambda>fs. fs = F) (Move p src dst opts)
    (\<lambda>_ g. transferable p F src dst \<and> replaceable F (ref_path src) (ref_path dst) opts \<and>
       moved_tree F (ref_path src) (ref_path dst) g)
    (\<lambda>e g. fs_wf g \<and> (g = F \<or> (\<exists>G. wiped F (ref_path dst) G \<and> mkdir_ext (butlast (ref_path dst)) 488 G g)) \<and>
       (c \<longrightarrow> \<not> (transferable p F src dst \<and> replaceable F (ref_path src) (ref_path dst) opts \<and>
         \<not> prefix (ref_path src) (ref_path dst))))" (is "ftriple c _ _ ?Q (\<lambda>_. ?E)")
  unfolding Move_eq
proof (rule ft_seq [OF ft_transferChecks [OF assms(1)]], goal_cases)
  case (1 e fs)
  with assms(1) show ?case by auto
next
  case (2 x)
  obtain sp dp si di where x: "x = (sp, dp, si, di)" by (cases x)
  show ?case unfolding x prod.case
  proof (cases "transferable p F src dst \<and> sp = ref_path src \<and> dp = ref_path dst \<and>
      looked F sp (Some si) \<and> looked F dp di")
    case True
    then have tr: "transferable p F src dst" and sp: "sp = ref_path src" and dp: "dp = ref_path dst"
      and lk: "looked F sp (Some si)" "looked F dp di" by auto
    have ne: "sp \<noteq> []" "dp \<noteq> []" and cl: "clear F dp"
      using tr valid_ref_safe [of p src] valid_ref_safe [of p dst] sp dp
      by (auto simp: transferable_def safe_path_def)
    obtain n where n: "mget F sp = Some n" using lk(1) by auto
    have np: "\<not> prefix dp sp" using assms(2) sp dp by simp
    show "ftriple c (\<lambda>fs. fs = F \<and> transferable p F src dst \<and> sp = ref_path src \<and> dp = ref_path dst \<and>
        looked F sp (Some si) \<and> looked F dp di)
       (bnd (moveClear p src dst opts dp si di) (\<lambda>_. moveTo p src dst sp dp)) ?Q (\<lambda>_. ?E)"
    proof (rule ft_pre, rule ft_seq [OF ft_moveClear [OF assms(1) cl ne(2) lk]])
      show "ftriple c (\<lambda>fs. replaceable F sp dp opts \<and> wiped F dp fs) (moveTo p src dst sp dp) ?Q (\<lambda>_. ?E)" for x
      proof (rule ft_start)
        fix G assume G: "replaceable F sp dp opts \<and> wiped F dp G"
        then have w: "wiped F dp G" by simp
        show "ftriple c (\<lambda>fs. fs = G) (moveTo p src dst sp dp) ?Q (\<lambda>_. ?E)"
          unfolding moveTo_def
          by (rule ft_conseq [OF ft_Move_core [OF assms(1) w cl ne(2,1) n np]])
             (use G tr sp dp in blast)+
      qed
      show "?E fs" if "fs = F \<and> (c \<longrightarrow> \<not> replaceable F sp dp opts)" for fs
        using that assms(1) sp dp by simp
    qed auto
  qed (auto simp: ftriple_def)
qed

end
