(* ===== verification/Storage_Invariant.thy ===== *)
theory Storage_Invariant
  imports Storage_Local Storage_FS_Facts
begin

text \<open>
  Every operation of the provider keeps the file tree well formed, in every environment: each
  object lies in a directory, and the root is a directory.
\<close>

definition keeps :: "'a io \<Rightarrow> bool" where
  "keeps m \<longleftrightarrow> (\<forall>w. fs_wf (files w) \<longrightarrow> fs_wf (files (snd (m w))))"

named_theorems keeps_intros \<open>computations that keep the tree well formed\<close>

lemma keepsD: "keeps m \<Longrightarrow> fs_wf (files w) \<Longrightarrow> fs_wf (files (snd (m w)))"
  by (simp add: keeps_def)

section \<open>Combinators\<close>

lemma keeps_fun: "(\<And>w. fs_wf (files w) \<Longrightarrow> fs_wf (files (snd (m w)))) \<Longrightarrow> keeps m"
  by (simp add: keeps_def)

lemma keeps_ret [keeps_intros]: "keeps (ret x)"
  by (simp add: keeps_def ret_def)

lemma keeps_throw [keeps_intros]: "keeps (throw e)"
  by (simp add: keeps_def throw_def)

lemma keeps_followed [keeps_intros]: "keeps (followed p)"
  by (simp add: keeps_def followed_def)

lemma keeps_away [keeps_intros]: "keeps (away p)"
  by (simp add: keeps_def away_def)

lemma keeps_diverges [keeps_intros]: "keeps (\<lambda>w. (Diverges, w))"
  by (simp add: keeps_def)

lemma keeps_gets [keeps_intros]: "keeps (gets f)"
  by (simp add: keeps_def gets_def)

lemma keeps_bnd [keeps_intros]: "keeps m \<Longrightarrow> (\<And>x. keeps (f x)) \<Longrightarrow> keeps (bnd m f)"
proof (rule keeps_fun)
  fix w :: world assume m: "keeps m" and f: "\<And>x. keeps (f x)" and w: "fs_wf (files w)"
  obtain r and w1 :: world where r: "m w = (r, w1)" by force
  with keepsD [OF m w] have "fs_wf (files w1)" by simp
  with keepsD [OF f] show "fs_wf (files (snd (bnd m f w)))"
    by (cases r) (simp_all add: bnd_def r)
qed

lemma keeps_attempt [keeps_intros]: "keeps m \<Longrightarrow> keeps (attempt m)"
  by (auto simp: keeps_def attempt_def split: prod.splits outcome.splits)

lemma keeps_wrapErr [keeps_intros]: "keeps m \<Longrightarrow> keeps (wrapErr f m)"
  by (auto simp: keeps_def wrapErr_def split: prod.splits outcome.splits)

lemma keeps_check [keeps_intros]: "keeps (check e)"
  by (cases e) (simp_all add: check_def keeps_ret keeps_throw)

lemma keeps_sys [keeps_intros]: "keeps m \<Longrightarrow> keeps (sys m)"
  by (auto simp: keeps_def sys_def Let_def split: option.splits)

lemma keeps_ctx_Err [keeps_intros]: "keeps ctx_Err"
  by (auto simp: keeps_def ctx_Err_def Let_def split: option.splits)

lemma keeps_modify: "(\<And>w. fs_wf (files w) \<Longrightarrow> fs_wf (files (f w))) \<Longrightarrow> keeps (modify f)"
  by (simp add: keeps_def modify_def)

lemma keeps_at_node:
  assumes "\<And>w n. fs_wf (files w) \<Longrightarrow> mget (files w) p = Some n \<Longrightarrow> fs_wf (files (snd (f n w)))"
  shows "keeps (at_node p f)"
  by (rule keeps_fun)
     (auto simp: at_node_def throw_def followed_def walk_Found_iff assms split: walked.split)

lemma keeps_eachIO [keeps_intros]: "(\<And>x. keeps (f x)) \<Longrightarrow> keeps (eachIO f xs)"
  by (induction xs) (auto intro: keeps_intros)

lemma keeps_concatIO [keeps_intros]: "(\<And>x. keeps (f x)) \<Longrightarrow> keeps (concatIO f xs)"
  by (induction xs) (auto intro: keeps_intros)

section \<open>Calls\<close>

lemma keeps_look [keeps_intros]: "keeps (os_Lstat p)" "keeps (os_Stat p)" "keeps (os_ReadDir p)"
  unfolding os_Lstat_def os_Stat_def os_ReadDir_def info_of_def
  by (intro keeps_sys keeps_at_node;
      auto simp: gets_def followed_def throw_def split: node.split)+

lemma keeps_nop [keeps_intros]: "keeps file_Sync" "keeps file_Close"
  unfolding file_Sync_def file_Close_def by (intro keeps_intros)+

lemma walk_missing: "fs_wf fs \<Longrightarrow> walk fs [] p = Missing \<Longrightarrow> mget fs p = None"
  using walk_existing [of fs "[]" p] by (cases "mget fs p") auto

lemma keeps_create_node:
  assumes "fs_wf (files w)" "mget (files w) p = None" "p \<noteq> []"
  shows "fs_wf (files (snd (create_node p n w)))"
  using assms
  by (auto simp: create_node_def at_node_def set_node_def modify_def throw_def followed_def walk_Found_iff
      intro: fs_wf_new split: walked.split node.split)

lemma keeps_mkdirs [keeps_intros]: "keeps (mkdirs perm cur rest)"
proof (induction rest arbitrary: cur)
  case Nil
  show ?case by (simp add: keeps_ret)
next
  case (Cons x xs)
  have "fs_wf (files (snd (create_node (cur @ [x]) (Dir perm) w)))"
    if "fs_wf (files w)" "walk (files w) [] (cur @ [x]) = Missing" for w
    using that walk_missing [OF that] by (intro keeps_create_node) auto
  then show ?case
    unfolding mkdirs.simps Let_def
    by (intro keeps_bnd keeps_sys Cons.IH keeps_fun)
       (auto simp: ret_def throw_def followed_def split: walked.split node.split)
qed

lemma keeps_MkdirAll [keeps_intros]: "keeps (os_MkdirAll p perm)"
  unfolding os_MkdirAll_def by (rule keeps_mkdirs)

lemma snd_bnd_ret [simp]: "files (snd (bnd m (\<lambda>_. ret x) w)) = files (snd (m w))"
  by (auto simp: bnd_def ret_def split: prod.split outcome.split)

lemma keeps_OpenFile [keeps_intros]: "keeps (os_OpenFile p m)"
  unfolding os_OpenFile_def
proof (intro keeps_sys keeps_fun)
  fix w :: world assume wf: "fs_wf (files w)"
  have miss: "p \<noteq> []" "mget (files w) p = None" if "walk (files w) [] p = Missing"
    using walk_missing [OF wf that] fs_wfD(2) [OF wf] by auto
  have trunc: "fs_wf (mput p (File pm [] t) (files w))" if "walk (files w) [] p = Found (File pm c t')" for pm c t t'
    using fs_wf_mput_same [OF wf, of p "File pm c t'" "File pm [] t"] that wf by (simp add: walk_Found_iff)
  show "fs_wf (files (snd (case walk (files w) [] p of
       Found n \<Rightarrow> open_existing p m n w
     | Missing \<Rightarrow> (case m of
            O_CREATE_EXCL perm \<Rightarrow> new_file p perm w
          | O_CREATE_TRUNC perm \<Rightarrow> new_file p perm w
          | _ \<Rightarrow> throw (os_err ErrNotExist) w)
     | NotDir \<Rightarrow> throw (os_err ENOTDIR) w
     | Through \<Rightarrow> followed p w)))"
    using wf miss trunc keeps_create_node [OF wf]
    by (auto simp: open_existing_def new_file_def throw_def followed_def away_def ret_def set_node_def modify_def
        split: walked.split open_mode.split node.split)
qed

lemma keeps_Open [keeps_intros]: "keeps (os_Open p)"
  unfolding os_Open_def by (rule keeps_OpenFile)

lemma keeps_CreateTemp [keeps_intros]: "keeps (os_CreateTemp dir)"
  unfolding os_CreateTemp_def Let_def
  by (intro keeps_sys keeps_fun) (auto simp: throw_def intro: keeps_create_node)

lemma is_dir_chmod [simp]: "is_dir (chmod_node perm n) = is_dir n"
  by (cases n) auto

lemma keeps_chmod [keeps_intros]: "keeps (os_Chmod p perm)" "keeps (file_Chmod p perm)"
  unfolding os_Chmod_def file_Chmod_def
  by (intro keeps_sys keeps_at_node;
      auto simp: away_def bnd_def ret_def set_node_def modify_def intro: fs_wf_mput_same)+

lemma append_bytes_wf: "fs_wf (files w) \<Longrightarrow> fs_wf (files (append_bytes h bs w))"
  by (auto simp: append_bytes_def intro: fs_wf_mput_same split: handle.split option.split node.split)

lemma keeps_Write [keeps_intros]: "keeps (file_Write h bs)"
  by (rule keeps_fun) (auto simp: file_Write_def Let_def intro!: append_bytes_wf split: option.split)

lemma keeps_Remove [keeps_intros]: "keeps (os_Remove p)"
  unfolding os_Remove_def
proof (intro keeps_sys keeps_at_node)
  fix w :: world and n assume wf: "fs_wf (files w)" and n: "mget (files w) p = Some n"
  have "p \<noteq> []" "\<forall>x. mget (files w) (p @ [x]) = None" if "\<not> is_dir n"
    using that n fs_wfD(2) [OF wf] wf_no_child [OF wf, of p] by (cases n; auto)+
  then show "fs_wf (files (snd (case n of
       Dir _ \<Rightarrow> if children (files w) p \<noteq> [] \<or> p = [] then throw (os_err ENOTEMPTY) w
         else modify (\<lambda>w. w\<lparr>files := mdel p (files w)\<rparr>) w
     | _ \<Rightarrow> modify (\<lambda>w. w\<lparr>files := mdel p (files w)\<rparr>) w)))"
    using wf by (auto simp: throw_def modify_def children_Nil intro: fs_wf_mdel split: node.split)
qed

lemma keeps_RemoveAll [keeps_intros]: "keeps (os_RemoveAll p)"
  unfolding os_RemoveAll_def
  by (intro keeps_sys keeps_fun)
     (auto simp: throw_def followed_def modify_def intro: fs_wf_RemoveAll split: walked.split)

lemma keeps_Rename [keeps_intros]: "keeps (os_Rename old new)"
  unfolding os_Rename_def
proof (intro keeps_sys keeps_at_node)
  fix w :: world and src assume wf: "fs_wf (files w)" and src: "mget (files w) old = Some src"
  have move: "fs_wf (relocate old new (files w))"
    if "\<not> prefix old new" "old \<noteq> []" "new \<noteq> []" "mget (files w) (butlast new) = Some (Dir pm)"
      "rename_refused (files w) old new src (mget (files w) new) = None" for pm
  proof -
    have none: "\<forall>x. mget (files w) (new @ [x]) = None"
    proof (cases "\<exists>pm. mget (files w) new = Some (Dir pm)")
      case True
      with that(5) show ?thesis by (auto simp: rename_refused_def children_Nil split: if_splits)
    qed (use wf_no_child [OF wf, of new] in blast)
    have "\<not> prefix new old"
    proof
      assume "prefix new old"
      with that(1) obtain r where "old = new @ r" "r \<noteq> []" by (auto simp: prefix_def)
      with wf_nothing_below [OF wf none, of r] src show False by simp
    qed
    with fs_wf_relocate [OF wf none that(1) _ src that(2,3,4)] show ?thesis by simp
  qed
  show "fs_wf (files (snd (at_node (butlast new) (\<lambda>parent w.
       case parent of
         Symlink \<Rightarrow> followed new w
       | Dir _ \<Rightarrow>
           if old = new then ret () w
           else if prefix old new \<or> old = [] \<or> new = [] then throw (os_err EINVAL) w
           else case rename_refused (files w) old new src (mget (files w) new) of
             Some e \<Rightarrow> throw e w
           | None \<Rightarrow> modify (\<lambda>w. w\<lparr>files := relocate old new (files w)\<rparr>) w
       | _ \<Rightarrow> throw (os_err ENOTDIR) w) w)))"
    using wf move
    by (auto simp: at_node_def throw_def followed_def ret_def modify_def walk_Found_iff
        split: walked.split node.split option.split)
qed

lemma keeps_Read [keeps_intros]: "keeps (reader_Read r)"
  by (rule keeps_fun)
     (auto simp: reader_Read_def ret_def Let_def split: reader.split list.split option.split handle.split node.split)

end
