(* ===== verification/Storage_Provider_Invariant.thy ===== *)
theory Storage_Provider_Invariant
  imports Storage_Invariant
begin

text \<open>
  The methods of the local provider keep the file tree well formed, whatever the environment does:
  the lemmas of \<open>Storage_Invariant\<close> about the calls and the combinators, applied to each method.
\<close>

lemma keeps_if [keeps_intros]: "(b \<Longrightarrow> keeps m) \<Longrightarrow> (\<not> b \<Longrightarrow> keeps n) \<Longrightarrow> keeps (if b then m else n)"
  by simp

lemma keeps_option [keeps_intros]:
  "(x = None \<Longrightarrow> keeps m) \<Longrightarrow> (\<And>y. x = Some y \<Longrightarrow> keeps (f y)) \<Longrightarrow>
   keeps (case x of None \<Rightarrow> m | Some y \<Rightarrow> f y)"
  by (cases x) auto

lemma keeps_sum [keeps_intros]:
  "(\<And>y. keeps (f y)) \<Longrightarrow> (\<And>y. keeps (g y)) \<Longrightarrow> keeps (case x of Inl y \<Rightarrow> f y | Inr y \<Rightarrow> g y)"
  by (cases x) auto

lemma keeps_prod [keeps_intros]: "(\<And>a b. keeps (f a b)) \<Longrightarrow> keeps (case x of (a, b) \<Rightarrow> f a b)"
  by (cases x) auto

lemma keeps_kind [keeps_intros]:
  "keeps a \<Longrightarrow> keeps b \<Longrightarrow> keeps c \<Longrightarrow> keeps d \<Longrightarrow>
   keeps (case x of KRegular \<Rightarrow> a | KDir \<Rightarrow> b | KSymlink \<Rightarrow> c | KOther \<Rightarrow> d)"
  by (cases x) auto

lemma keeps_view: "(\<And>w. keeps (m w)) \<Longrightarrow> keeps (\<lambda>w. m w w)"
  by (simp add: keeps_def)

lemma keeps_modify_other [keeps_intros]: "(\<And>w. files (f w) = files w) \<Longrightarrow> keeps (modify f)"
  by (rule keeps_modify) simp

section \<open>Helpers\<close>

lemma keeps_checkComponents [keeps_intros]: "keeps (checkComponents p key cur cs)"
  by (induction cs arbitrary: cur) (auto intro!: keeps_intros)

lemma keeps_pathFor [keeps_intros]: "keeps (pathFor p ref)"
  unfolding pathFor_def Let_def by (intro keeps_intros)

lemma keeps_Stat [keeps_intros]: "keeps (Stat p ref)"
  unfolding Stat_def by (intro keeps_intros)

lemma keeps_writeChunk [keeps_intros]: "keeps (writeChunk dst bs n)"
  unfolding writeChunk_def by (intro keeps_intros)

lemma keeps_copyLoop [keeps_intros]: "keeps (copyLoop n dst r written)"
  by (induction n arbitrary: r written) (auto intro!: keeps_intros)

lemma keeps_copyContext [keeps_intros]: "keeps (copyContext dst r)"
  unfolding copyContext_def [abs_def] by (rule keeps_view) (rule keeps_copyLoop)

lemma keeps_newUUID [keeps_intros]: "keeps newUUID"
  by (simp add: keeps_def newUUID_def)

lemma keeps_prov_emit [keeps_intros]: "keeps (prov_emit e)"
  unfolding prov_emit_def by (intro keeps_intros) simp

lemma keeps_checkOwner [keeps_intros]: "keeps (checkOwner p pr)"
  unfolding checkOwner_def by (intro keeps_intros)

lemma keeps_walkDir [keeps_intros]: "keeps (walkDir n p dir)"
  by (induction n arbitrary: dir) (auto simp: Let_def intro!: keeps_intros)

lemma keeps_walkDir_all [keeps_intros]: "keeps (\<lambda>w. walkDir (g w) p dir w)"
  by (rule keeps_view) (rule keeps_walkDir)

lemma keeps_copyFile [keeps_intros]: "keeps (copyFile src dst ov info)"
  unfolding copyFile_def copyOpened_def closeBoth_def by (intro keeps_intros)

lemma keeps_copyPath [keeps_intros]: "keeps (copyPath n p src dst ov)"
  by (induction n arbitrary: src dst) (auto simp: dstDirectory_def intro!: keeps_intros)

lemma keeps_copyPath_all [keeps_intros]: "keeps (\<lambda>w. copyPath (g w) p src dst ov w)"
  by (rule keeps_view) (rule keeps_copyPath)

lemma keeps_transferChecks [keeps_intros]: "keeps (transferChecks p k src dst)"
  unfolding transferChecks_def by (intro keeps_intros)

section \<open>Methods\<close>

lemma keeps_Open_ref [keeps_intros]: "keeps (Open p ref)"
  unfolding Open_def by (intro keeps_intros)

lemma keeps_Put [keeps_intros]: "keeps (Put p ref r opts)"
  unfolding Put_def Let_def orCleanup_def cleanup_def removeTmp_def by (intro keeps_intros)

lemma keeps_Delete [keeps_intros]: "keeps (Delete p ref)"
  unfolding Delete_def by (intro keeps_intros)

lemma keeps_List [keeps_intros]: "keeps (List_objects p pre opts)"
  unfolding List_objects_def listRecursive_def listDirect_def by (intro keeps_intros)

lemma keeps_Prepare [keeps_intros]: "keeps (Prepare p req)"
  unfolding Prepare_def statOrCreate_def createResource_def inferResourceType_def Let_def
  by (intro keeps_intros)

lemma keeps_MarkDirty [keeps_intros]: "keeps (MarkDirty p pr)"
  unfolding MarkDirty_def by (intro keeps_intros) simp

lemma keeps_Copy [keeps_intros]: "keeps (Copy p src dst copts)"
  unfolding Copy_def by (intro keeps_intros)

lemma keeps_Move [keeps_intros]: "keeps (Move p src dst mopts)"
  unfolding Move_def by (intro keeps_intros)

lemma keeps_Release [keeps_intros]: "keeps (Release p pr)"
  unfolding Release_def by (intro keeps_intros) simp

lemma keeps_Commit [keeps_intros]: "keeps (Commit p pr comm)"
  unfolding Commit_def commitSync_def syncFile_def syncDirectory_def syncHandle_def Let_def
  by (intro keeps_intros) simp

end
