(* ===== verification/Storage_Properties.thy ===== *)
theory Storage_Properties
  imports Storage_Move_Facts Storage_Provider_Invariant
begin

text \<open>
  The properties of the local provider's operations on objects: where references lead, that the
  tree stays well formed, and what \<open>Put\<close>, \<open>Open\<close>, \<open>Delete\<close>, \<open>Copy\<close> and \<open>Move\<close> do to it, with and
  without failures of the environment. Each is read off the triple of the method.
\<close>

section \<open>Concrete worlds\<close>

definition fs_ok :: "fsys \<Rightarrow> bool" where
  "fs_ok fs \<longleftrightarrow> mwf fs \<and> (case mget fs [] of Some n \<Rightarrow> is_dir n | None \<Rightarrow> False) \<and>
     list_all (\<lambda>(q, _). q = [] \<or> (case mget fs (butlast q) of Some n \<Rightarrow> is_dir n | None \<Rightarrow> False)) fs"

lemma is_dir_iff: "is_dir n \<longleftrightarrow> (\<exists>pm. n = Dir pm)"
  by (cases n) auto

lemma fs_ok_wf:
  assumes "fs_ok fs"
  shows "fs_wf fs"
proof -
  have "\<exists>pm. mget fs q = Some (Dir pm)" if "mget fs (q @ [x]) = Some n" for q x n
  proof -
    have "(q @ [x], n) \<in> set fs" using that by (rule map_of_SomeD)
    with assms have "case mget fs q of Some n \<Rightarrow> is_dir n | None \<Rightarrow> False"
      by (auto simp: fs_ok_def list_all_iff)
    then show ?thesis by (auto simp: is_dir_iff split: option.splits)
  qed
  with assms show ?thesis
    by (auto simp: fs_ok_def fs_wf_def is_dir_iff split: option.splits)
qed

definition demo_world :: "fsys \<Rightarrow> world" where
  "demo_world fs = \<lparr>files = fs, outside = [], ticks = 0, fault = \<lambda>_. None, ctx_err = \<lambda>_. None,
     clock = \<lambda>n. int n, dir_meta = \<lambda>_. (0, 0), tmp_name = \<lambda>_. ''1'', uuid = \<lambda>_. ''id'', mime = \<lambda>_. '''',
     dirty = [], nextSubID = 0, subs = []\<rparr>"

definition demo_prov :: Provider where
  "demo_prov = \<lparr>prov_name = ''local'', prov_root = ''/srv''\<rparr>"

abbreviation demo_ref :: "string \<Rightarrow> Ref" where
  "demo_ref key \<equiv> \<lparr>ref_Provider = ''local'', ref_Key = key\<rparr>"

lemma demo_world_simps [simp]:
  "files (demo_world fs) = fs" "outside (demo_world fs) = []" "calm (demo_world fs)" "honest (demo_world fs)"
  by (simp_all add: demo_world_def calm_def honest_def)

definition demo_tree :: fsys where
  "demo_tree = [([], Dir 488), ([''a''], Dir 488), ([''a'', ''x''], File 420 [1, 2] 7), ([''f''], File 384 [3] 5)]"

lemma demo_tree_wf [simp]: "fs_wf demo_tree"
  by (rule fs_ok_wf) (simp add: fs_ok_def demo_tree_def mwf_def mkeys_def)

lemma clear_exists:
  assumes "fs_wf F" "mget F p = Some n" "n \<noteq> Symlink"
  shows "clear F p"
proof -
  have "mget F q \<noteq> Some Symlink" if "prefix q p" for q
  proof (cases "q = p")
    case False
    then have "strict_prefix q p" using that by (simp add: strict_prefix_def)
    from wf_strict_prefix [OF assms(1,2) this] show ?thesis by auto
  qed (use assms in simp)
  moreover have "walk F [] p = Found n" using walk_existing [of F "[]" p n] assms by simp
  ultimately show ?thesis by (simp add: clear_def no_link_def)
qed

section \<open>Where references lead\<close>

text \<open>C10: a reference is refused, without any call to the system, with \<open>ErrInvalidRef\<close> or
  \<open>ErrProviderMismatch\<close> unless it names this provider and a relative key that stays below the
  root. A path that is returned has no empty, \<open>.\<close> or \<open>..\<close> component and passes no symbolic
  link, whatever else fails on the way, and looking for it changes nothing.\<close>

theorem pathFor_confines:
  assumes "fs_wf (files w)" "honest w" "pathFor p ref w = (r, w')"
  shows "files w' = files w \<and> outside w' = outside w \<and> r \<noteq> Diverges \<and>
    (\<forall>path. r = Ok path \<longrightarrow> path = filepath_Clean (ref_Key ref) \<and> safe_path path \<and> no_link (files w) path) \<and>
    (\<not> valid_ref p ref \<longrightarrow> w' = w \<and>
       (\<exists>e. r = Err e \<and> (errors_Is e (StorageKind ErrInvalidRef) \<or> errors_Is e (StorageKind ErrProviderMismatch))))"
proof -
  note d = ftripleD [OF ft_pathFor [of "files w" False p ref] _ _ _ assms(3), simplified, OF assms(1,2)]
  have "files w' = files w" using d(2,3,4) by (cases r) auto
  moreover have "w' = w \<and> (\<exists>e. r = Err e \<and> (errors_Is e (StorageKind ErrInvalidRef) \<or>
      errors_Is e (StorageKind ErrProviderMismatch)))" if "\<not> valid_ref p ref"
    using pathFor_invalid [OF that] assms(3) by (auto simp: throw_def)
  ultimately show ?thesis
    using d valid_ref_safe [of p ref] by (auto simp: same_env_def clear_def)
qed

theorem pathFor_confines_witness:
  "\<exists>e. fst (pathFor demo_prov (demo_ref ''a/../../etc'') (demo_world demo_tree)) = Err e \<and>
    (errors_Is e (StorageKind ErrInvalidRef) \<or> errors_Is e (StorageKind ErrProviderMismatch))"
proof -
  have "\<not> valid_ref demo_prov (demo_ref ''a/../../etc'')"
    by (simp add: valid_ref_def filepath_Clean_def escapes_def)
  with pathFor_confines [of "demo_world demo_tree" demo_prov "demo_ref ''a/../../etc''", OF _ _ prod.collapse [symmetric]]
  show ?thesis by simp
qed

section \<open>The tree stays well formed\<close>

text \<open>The methods a caller can use, and the goroutine of a subscription.\<close>

datatype prov_call =
    DoStat Ref | DoOpen Ref | DoPut Ref "reader option" PutOptions | DoDelete Ref | DoList Ref ListOptions
  | DoPrepare PrepareRequest | DoMarkDirty "Prepared option" | DoCopy Ref Ref CopyOptions
  | DoMove Ref Ref MoveOptions | DoRelease "Prepared option" | DoCommit "Prepared option" CommitOptions
  | DoEvents | DoTake "64 word" | DoDeliver "64 word" | DoQuit "64 word"

fun prov_do :: "Provider \<Rightarrow> prov_call \<Rightarrow> world \<Rightarrow> world" where
  "prov_do p (DoStat ref) w = snd (Stat p ref w)"
| "prov_do p (DoOpen ref) w = snd (Open p ref w)"
| "prov_do p (DoPut ref r opts) w = snd (Put p ref r opts w)"
| "prov_do p (DoDelete ref) w = snd (Delete p ref w)"
| "prov_do p (DoList ref opts) w = snd (List_objects p ref opts w)"
| "prov_do p (DoPrepare req) w = snd (Prepare p req w)"
| "prov_do p (DoMarkDirty pr) w = snd (MarkDirty p pr w)"
| "prov_do p (DoCopy src dst opts) w = snd (Copy p src dst opts w)"
| "prov_do p (DoMove src dst opts) w = snd (Move p src dst opts w)"
| "prov_do p (DoRelease pr) w = snd (Release p pr w)"
| "prov_do p (DoCommit pr opts) w = snd (Commit p pr opts w)"
| "prov_do p DoEvents w = snd (prov_Events w)"
| "prov_do p (DoTake i) w = (case sub_take i w of Some w' \<Rightarrow> w' | None \<Rightarrow> w)"
| "prov_do p (DoDeliver i) w = (case sub_deliver i w of Some w' \<Rightarrow> w' | None \<Rightarrow> w)"
| "prov_do p (DoQuit i) w = sub_quit i w"

lemma keeps_prov_Events: "keeps prov_Events"
  unfolding prov_Events_def Let_def by (intro keeps_intros keeps_fun) simp

lemma prov_do_wf: "fs_wf (files w) \<Longrightarrow> fs_wf (files (prov_do p c w))"
  by (cases c)
     (auto simp: sub_take_def sub_deliver_def sub_quit_def
       intro: keepsD keeps_intros keeps_prov_Events
       split: option.splits list.splits if_splits)

lemma fs_wf_root: "fs_wf [([], Dir pm)]"
  by (rule fs_ok_wf) (simp add: fs_ok_def mwf_def mkeys_def)

lemma New_wf:
  assumes "fst (New wd rootDir opts w) = Ok p" "files w = [] \<or> fs_wf (files w)"
  shows "fs_wf (files (snd (New wd rootDir opts w)))"
proof -
  have "fs_wf (files w1)" if "makeRoot w = (Ok (), w1)" for w1
    using that assms(2) fs_wf_root
    by (auto simp: makeRoot_def sys_def Let_def set_node_def modify_def ret_def throw_def followed_def mput_def
        dest: fs_wfD(2) split: option.splits node.splits)
  with assms(1) show ?thesis
    by (auto simp: New_def Let_def bnd_def wrapErr_def throw_def ret_def
        split: if_splits sum.splits outcome.splits prod.splits)
qed

section \<open>Writing and reading back\<close>

text \<open>C11: \<open>Put\<close> replaces an object atomically, whatever fails or is cancelled in between. Success
  means that the input ended without an error and that the object is a file with exactly these
  bytes and the requested mode; failure means that the object at the reference is what it was.
  Apart from new parent directories and, when the clean-up fails too, one temporary file beside
  it, nothing else changes; \<open>Put\<close> always returns, and it succeeds if nothing fails and nothing is
  in its way.\<close>

theorem Put_atomic:
  assumes "fs_wf (files w)" "honest w" "Put p ref (Some (Script xs)) opts w = (r, w')"
  shows "r \<noteq> Diverges \<and> outside w' = outside w \<and>
    (r = Ok () \<longrightarrow> snd (script_result xs) = None \<and>
       put_done (files w) (filepath_Clean (ref_Key ref)) (putMode opts) (fst (script_result xs)) (files w')) \<and>
    (\<forall>e. r = Err e \<longrightarrow> put_undone False (files w) (filepath_Clean (ref_Key ref)) (files w')) \<and>
    (calm w \<and> \<not> put_blocked p (files w) ref opts xs \<longrightarrow> r = Ok ())"
proof -
  note d = ftripleD [OF ft_Put [of "files w" False p ref xs opts] assms(2) _ _ assms(3), simplified, OF assms(1)]
  note c = ftripleD [OF ft_Put [of "files w" True p ref xs opts] assms(2) _ _ assms(3), simplified, OF assms(1)]
  have "calm w \<and> \<not> put_blocked p (files w) ref opts xs \<longrightarrow> r = Ok ()"
    using c(3,4) by (cases r) auto
  with d show ?thesis by (auto simp: same_env_def)
qed

lemma demo_put_free: "\<not> put_blocked demo_prov demo_tree (demo_ref ''b/y'') opts0 [([9], None)]"
  if "opts0 = \<lparr>put_Mode = 0, put_ContentType = '''', put_Metadata = [], put_Kind = '''', put_ExpectedGeneration = '''', put_IfNotExists = False\<rparr>"
proof -
  have path: "filepath_Clean ''b/y'' = [''b'', ''y'']" by (simp add: filepath_Clean_def)
  have "valid_ref demo_prov (demo_ref ''b/y'')"
    by (simp add: valid_ref_def Ref_Validate_def demo_prov_def filepath_IsAbs_def path escapes_def)
  moreover have "clear demo_tree [''b'', ''y'']"
    by (auto simp: clear_def no_link_def demo_tree_def prefix_Cons)
  moreover have "mget demo_tree q = None" if "is_temp_of [''b'', ''y''] q" for q
    using that by (auto simp: is_temp_of_def demo_tree_def)
  ultimately show ?thesis
    using that by (auto simp: put_blocked_def put_refused_def path demo_tree_def)
qed

theorem Put_atomic_witness:
  "put_done demo_tree [''b'', ''y''] 420 [9]
     (files (snd (Put demo_prov (demo_ref ''b/y'') (Some (Script [([9], None)]))
        \<lparr>put_Mode = 0, put_ContentType = '''', put_Metadata = [], put_Kind = '''', put_ExpectedGeneration = '''', put_IfNotExists = False\<rparr>
        (demo_world demo_tree))))"
  (is "put_done _ _ _ _ (files (snd (Put _ ?ref (Some (Script ?xs)) ?opts ?w)))")
proof -
  have "filepath_Clean ''b/y'' = [''b'', ''y'']" by (simp add: filepath_Clean_def)
  with Put_atomic [of ?w demo_prov ?ref ?xs ?opts, OF _ _ prod.collapse [symmetric]] demo_put_free
  show ?thesis by (simp add: putMode_def)
qed

text \<open>A client that reads an opened object to its end.\<close>

primrec read_all :: "nat \<Rightarrow> reader \<Rightarrow> content io" where
  "read_all 0 r = (\<lambda>w. (Diverges, w))"
| "read_all (Suc n) r =
     bnd (reader_Read r) (\<lambda>((bs, e), r).
     case e of
       None \<Rightarrow> bnd (read_all n r) (\<lambda>rest. ret (bs @ rest))
     | Some e \<Rightarrow> if errors_Is e (OS IoEOF) then ret bs else throw e)"

lemma read_all_file:
  assumes "calm w" "mget (files w) q = Some (File pm c t)" "length c - off < n"
  shows "\<exists>w'. read_all n (Reading (At q) off) w = (Ok (drop off c), w') \<and> files w' = files w \<and> calm w'"
  using assms
proof (induction n arbitrary: w off)
  case (Suc n)
  let ?bs = "take copyBuf (drop off c)" and ?w = "w\<lparr>ticks := ticks w + 1\<rparr>"
  show ?case
  proof (cases "?bs = []")
    case True
    with Suc.prems have "drop off c = []" by (auto simp: copyBuf_def)
    with Suc.prems show ?thesis
      by (simp add: reader_Read_def bnd_def ret_def Let_def calm_def)
  next
    case False
    have rd: "reader_Read (Reading (At q) off) w = (Ok ((?bs, None), Reading (At q) (off + length ?bs)), ?w)"
      using False Suc.prems by (simp add: reader_Read_def Let_def calm_def)
    have "off < length c" using False by (cases "off < length c") auto
    then have "length c - (off + length ?bs) < n" using Suc.prems(3) copyBuf_pos by simp
    from Suc.IH [of ?w "off + length ?bs", OF _ _ this] Suc.prems(1,2) obtain w' where
      "read_all n (Reading (At q) (off + length ?bs)) ?w = (Ok (drop (off + length ?bs) c), w')"
      "files w' = files w" "calm w'" by (auto simp: calm_def)
    moreover have "?bs @ drop (off + length ?bs) c = drop off c"
      by (metis append_take_drop_id drop_drop add.commute length_take min.commute take_all_iff drop_eq_Nil2 nle_le min_def)
    ultimately show ?thesis using rd by (simp add: bnd_def ret_def)
  qed
qed simp

text \<open>C12: what was put is read back. After a \<open>Put\<close> that nothing hinders, opening the reference and
  reading to the end gives exactly the bytes of the input, and \<open>Stat\<close> reports a file of that
  size.\<close>

theorem Put_Open_roundtrip:
  assumes "fs_wf (files w)" "calm w" "\<not> put_blocked p (files w) ref opts xs"
  defines "data \<equiv> fst (script_result xs)"
  shows "\<exists>w1 w2 w3 w4 h oi. Put p ref (Some (Script xs)) opts w = (Ok (), w1) \<and>
    Open p ref w1 = (Ok h, w2) \<and> read_all (Suc (length data)) (Reading h 0) w2 = (Ok data, w3) \<and>
    Stat p ref w3 = (Ok oi, w4) \<and> oi_Type oi = ObjectFile \<and> oi_Size oi = length data \<and> files w4 = files w1"
proof -
  let ?q = "ref_path ref"
  have v: "valid_ref p ref" using assms(3) by (simp add: put_blocked_def)
  obtain r w1 where put: "Put p ref (Some (Script xs)) opts w = (r, w1)" by force
  note d = ftripleD [OF ft_Put [of "files w" True p ref xs opts] calm_honest [OF assms(2)] _ _ put, simplified, OF assms(1,2)]
  have r: "r = Ok ()" using d(3,4) assms(3) by (cases r) auto
  with d(2) have done1: "put_done (files w) ?q (putMode opts) data (files w1)" by (simp add: data_def)
  then obtain t where wf1: "fs_wf (files w1)" and q1: "mget (files w1) ?q = Some (File (putMode opts) data t)"
    by (auto simp: put_done_def)
  have cl: "clear (files w1) ?q" by (rule clear_exists [OF wf1 q1]) simp
  have calm1: "calm w1" using same_env_calm [OF d(1)] assms(2) by simp
  obtain ro w2 where opn: "Open p ref w1 = (ro, w2)" by force
  note o = ftripleD [OF ft_Open [OF wf1, of True p ref] calm_honest [OF calm1] _ _ opn, simplified, OF calm1]
  have ro: "ro = Ok (At ?q)" "files w2 = files w1" using o(2,3,4) v cl q1 by (cases ro; auto)+
  have calm2: "calm w2" using same_env_calm [OF o(1)] calm1 by simp
  obtain w3 where rd: "read_all (Suc (length data)) (Reading (At ?q) 0) w2 = (Ok data, w3)"
    "files w3 = files w2" "calm w3"
    using read_all_file [OF calm2, of ?q "putMode opts" data t 0 "Suc (length data)"] q1 ro(2) by auto
  have wf3: "fs_wf (files w3)" using wf1 ro(2) rd(2) by simp
  obtain rs w4 where st: "Stat p ref w3 = (rs, w4)" by force
  note s = ftripleD [OF ft_StatM [OF wf3, of True p ref] calm_honest [OF rd(3)] _ _ st, simplified, OF rd(3)]
  have "\<exists>oi. rs = Ok oi \<and> files w4 = files w3 \<and> oi_Type oi = ObjectFile \<and> oi_Size oi = length data"
    using s(2,3,4) v cl q1 ro(2) rd(2) by (cases rs) (auto simp: stat_of_def)
  with put r opn ro rd(1,2) st show ?thesis by auto
qed

theorem Put_Open_roundtrip_witness:
  "\<exists>w1 w2 w3 h. Put demo_prov (demo_ref ''b/y'') (Some (Script [([9], None)]))
      \<lparr>put_Mode = 0, put_ContentType = '''', put_Metadata = [], put_Kind = '''', put_ExpectedGeneration = '''', put_IfNotExists = False\<rparr>
      (demo_world demo_tree) = (Ok (), w1) \<and>
    Open demo_prov (demo_ref ''b/y'') w1 = (Ok h, w2) \<and> read_all 2 (Reading h 0) w2 = (Ok [9], w3)"
  using Put_Open_roundtrip [of "demo_world demo_tree" demo_prov "demo_ref ''b/y''" _ "[([9], None)]"] demo_put_free
  by (simp add: numeral_2_eq_2) blast

section \<open>Deleting\<close>

text \<open>\<open>Delete\<close> removes the object it names and no other, and leaves the tree untouched when it
  reports an error. Deleting what does not exist succeeds, so it can be repeated; without a failure
  only an unacceptable reference or a directory that is not empty is refused.\<close>

theorem Delete_removes_only:
  assumes "fs_wf (files w)" "honest w" "Delete p ref w = (r, w')"
  defines "q \<equiv> filepath_Clean (ref_Key ref)"
  shows "r \<noteq> Diverges \<and> outside w' = outside w \<and>
    (r = Ok () \<longrightarrow> mget (files w') q = None \<and> (\<forall>x. x \<noteq> q \<longrightarrow> mget (files w') x = mget (files w) x)) \<and>
    (\<forall>e. r = Err e \<longrightarrow> files w' = files w) \<and>
    (calm w \<and> valid_ref p ref \<and> clear (files w) q \<and> children (files w) q = [] \<longrightarrow> r = Ok ())"
proof -
  note d = ftripleD [OF ft_Delete [of "files w" False p ref] assms(2) _ _ assms(3), simplified, OF assms(1)]
  note c = ftripleD [OF ft_Delete [of "files w" True p ref] assms(2) _ _ assms(3), simplified, OF assms(1)]
  have "calm w \<and> valid_ref p ref \<and> clear (files w) q \<and> children (files w) q = [] \<longrightarrow> r = Ok ()"
    using c(3,4) by (cases r) (auto simp: q_def)
  with d show ?thesis by (auto simp: same_env_def q_def same_except_def)
qed

theorem Delete_removes_only_witness:
  "mget (files (snd (Delete demo_prov (demo_ref ''f'') (demo_world demo_tree)))) [''f''] = None"
proof -
  have q: "filepath_Clean ''f'' = [''f'']" by (simp add: filepath_Clean_def)
  have "valid_ref demo_prov (demo_ref ''f'')"
    by (simp add: valid_ref_def Ref_Validate_def demo_prov_def filepath_IsAbs_def q escapes_def)
  moreover have "clear demo_tree [''f'']" by (rule clear_exists [of _ _ "File 384 [3] 5"]) (simp_all, simp add: demo_tree_def)
  moreover have "children demo_tree [''f''] = []" by (auto simp: children_Nil demo_tree_def)
  ultimately show ?thesis
    using Delete_removes_only [of "demo_world demo_tree" demo_prov "demo_ref ''f''", OF _ _ prod.collapse [symmetric]]
    by (simp add: q)
qed

end
