(* ===== verification/Storage_Transfer_Properties.thy ===== *)
theory Storage_Transfer_Properties
  imports Storage_Properties
begin

text \<open>
  The properties of \<open>Copy\<close> and \<open>Move\<close>: the copy mirrors its source and the move relocates it as
  long as source and destination are separate, and what happens when they are not.
\<close>

section \<open>Copying to a new place\<close>

text \<open>C13: copying to an absent destination outside the source always returns. Success means that
  the destination mirrors the source (same shape, contents and permissions), and in every case
  nothing outside the destination changes but missing parent directories. Without a failure the
  copy succeeds exactly if the source is there and holds only files and directories.\<close>

theorem Copy_mirrors:
  assumes "fs_wf (files w)" "honest w" "Copy p src dst opts w = (r, w')"
  defines "s \<equiv> filepath_Clean (ref_Key src)" and "d \<equiv> filepath_Clean (ref_Key dst)"
  assumes "mget (files w) d = None" "\<not> prefix s d" "\<not> prefix d s"
  shows "r \<noteq> Diverges \<and> outside w' = outside w \<and> copy_frame (files w) d (files w') \<and>
    (r = Ok () \<longrightarrow> mirrors (files w) s (files w') d) \<and>
    (calm w \<and> transferable p (files w) src dst \<and> copyable (files w) s \<longrightarrow> r = Ok ())"
proof -
  have ap: "apart (ref_path src) (ref_path dst)" using assms by (simp add: apart_def)
  note t = ft_Copy_fresh [OF assms(1) _ ap, of _ p opts]
  note d = ftripleD [OF t assms(2) _ _ assms(3), of False, simplified]
  note c = ftripleD [OF t assms(2) _ _ assms(3), of True, simplified]
  have "calm w \<and> transferable p (files w) src dst \<and> copyable (files w) s \<longrightarrow> r = Ok ()"
    using c(3,4) assms by (cases r) (auto simp: s_def)
  moreover have "copy_frame (files w) d (files w')"
    using d(2,3,4) assms(6) by (cases r) (auto simp: d_def)
  ultimately show ?thesis using d assms(6) by (auto simp: same_env_def s_def d_def)
qed

lemma demo_paths [simp]:
  "filepath_Clean ''a'' = [''a'']" "filepath_Clean ''b'' = [''b'']" "filepath_Clean ''a/b'' = [''a'', ''b'']"
  "filepath_Clean ''./f'' = [''f'']" "filepath_Clean ''f'' = [''f'']" "filepath_Clean ''a/x'' = [''a'', ''x'']"
  by (simp_all add: filepath_Clean_def)

lemma demo_valid [simp]:
  "valid_ref demo_prov (demo_ref ''a'')" "valid_ref demo_prov (demo_ref ''b'')" "valid_ref demo_prov (demo_ref ''a/b'')"
  "valid_ref demo_prov (demo_ref ''./f'')" "valid_ref demo_prov (demo_ref ''f'')" "valid_ref demo_prov (demo_ref ''a/x'')"
  by (simp_all add: valid_ref_def Ref_Validate_def demo_prov_def filepath_IsAbs_def escapes_def)

lemma demo_clear: "clear demo_tree [''a'']" "clear demo_tree [''b'']" "clear demo_tree [''f'']" "clear demo_tree [''a'', ''x'']"
  by (auto simp: clear_def no_link_def demo_tree_def prefix_Cons)

lemma demo_copyable: "copyable demo_tree [''a'']"
  by (auto simp: copyable_def demo_tree_def split: if_splits)

theorem Copy_mirrors_witness:
  "mirrors demo_tree [''a'']
     (files (snd (Copy demo_prov (demo_ref ''a'') (demo_ref ''b'') \<lparr>copy_Overwrite = False\<rparr> (demo_world demo_tree)))) [''b'']"
proof -
  have "transferable demo_prov demo_tree (demo_ref ''a'') (demo_ref ''b'')" "mget demo_tree [''b''] = None"
    using demo_clear by (simp_all add: transferable_def) (simp_all add: demo_tree_def)
  then show ?thesis
    using Copy_mirrors [of "demo_world demo_tree" demo_prov "demo_ref ''a''" "demo_ref ''b''" "\<lparr>copy_Overwrite = False\<rparr>",
        OF _ _ prod.collapse [symmetric]] demo_copyable
    by simp
qed

section \<open>Runs without failures\<close>

lemma ft_True_run:
  assumes "ftriple True P m Q E" "calm w" "P (files w)" "\<And>e fs. \<not> E e fs"
  shows "\<exists>x w'. m w = (Ok x, w') \<and> Q x (files w') \<and> calm w' \<and> outside w' = outside w"
proof -
  obtain r w' where m: "m w = (r, w')" by force
  note d = ftripleD [OF assms(1) calm_honest [OF assms(2)] _ assms(3) m, simplified, OF assms(2)]
  have "\<exists>x. r = Ok x" using d(3,4) assms(4) by (cases r) auto
  then obtain x where "r = Ok x" by blast
  with m d(1,2) assms(2) show ?thesis
    by (auto simp: same_env_calm) (simp add: same_env_def)
qed

lemma bnd_Ok: "m w = (Ok x, w') \<Longrightarrow> bnd m f w = f x w'"
  by (simp add: bnd_def)

lemma bnd_assoc: "bnd (bnd m f) g = bnd m (\<lambda>x. bnd (f x) g)"
  by (auto simp: bnd_def fun_eq_iff split: prod.split outcome.split)

lemma wrapErr_Ok: "m w = (Ok x, w') \<Longrightarrow> wrapErr g m w = (Ok x, w')"
  by (simp add: wrapErr_def)

lemma wrapErr_Diverges: "fst (m w) = Diverges \<Longrightarrow> fst (wrapErr g m w) = Diverges"
  by (auto simp: wrapErr_def split: prod.splits)

lemma calm_ctx_Err: "calm w \<Longrightarrow> ctx_Err w = (Ok (), w\<lparr>ticks := ticks w + 1\<rparr>)"
  by (simp add: ctx_Err_def calm_def Let_def)

lemma calm_tick [simp]: "calm (w\<lparr>ticks := n\<rparr>) = calm w"
  by (simp add: calm_def)

section \<open>Copying a directory into itself\<close>

lemma fresh_child:
  assumes "fs_wf F" "mget F s = Some (Dir pm)" "mget F (s @ [x]) = None"
  shows "fresh F (s @ [x])"
proof -
  have "clear F s" by (rule clear_exists [OF assms(1,2)]) simp
  then have "no_link F (s @ [x])" using assms(3) by (auto simp: clear_def no_link_def)
  moreover have "is_dir n" if "prefix q s" "mget F q = Some n" for q n
    using that assms(2) wf_strict_prefix [OF assms(1,2), of q] by (cases "q = s") (auto simp: strict_prefix_def)
  ultimately show ?thesis using assms(3) by (auto simp: fresh_def dir_path_def)
qed

text \<open>The only change of making and reading a fresh child directory of \<open>s\<close>.\<close>

lemma mkdir_child:
  assumes "fs_wf F" "mget F s = Some (Dir pm)" "mkdir_ext (s @ [x]) pmd F G" "same_except {s @ [x]} G H" "q \<noteq> s @ [x]"
  shows "mget H q = mget F q"
proof (cases "prefix q (s @ [x])")
  case True
  then have "prefix q s" using assms(5) by simp
  then have "mget F q \<noteq> None"
    using wf_strict_prefix [OF assms(1,2), of q] assms(2) by (cases "q = s") (auto simp: strict_prefix_def)
  then obtain m where "mget F q = Some m" by auto
  with mkdir_ext_old [OF assms(3) this] assms(4,5) show ?thesis by (simp add: same_except_def)
next
  case False
  with mkdir_ext_outside [OF assms(3)] assms(4,5) show ?thesis by (simp add: same_except_def)
qed

lemma children_single:
  assumes "mwf F" "\<And>y. mget F (s @ [y]) \<noteq> None \<longleftrightarrow> y = x"
  shows "children F s = [x]"
proof -
  have "set (children F s) = {x}" using assms(2) by (auto simp: set_children)
  moreover have "distinct (children F s)" by (rule distinct_children [OF assms(1)])
  ultimately show ?thesis
    by (cases "children F s"; cases "tl (children F s)") auto
qed

text \<open>The steps of \<open>copyPath\<close> on a directory before its entries are copied.\<close>

definition enterDir :: "Provider \<Rightarrow> path \<Rightarrow> path \<Rightarrow> bool \<Rightarrow> nat \<Rightarrow> string list io" where
  "enterDir p src dst ow perm =
     bnd (dstDirectory p dst ow perm) (\<lambda>_. bnd (os_Chmod dst perm) (\<lambda>_. os_ReadDir src))"

lemma copyPath_dir:
  assumes "calm w" "fs_wf (files w)" "mget (files w) s = Some (Dir pm)"
  shows "\<exists>w'. files w' = files w \<and> calm w' \<and> outside w' = outside w \<and>
    copyPath (Suc n) p s d ow w = bnd (enterDir p s d ow pm)
      (eachIO (\<lambda>x. bnd ctx_Err (\<lambda>_. copyPath n p (s @ [x]) (d @ [x]) ow))) w'"
proof -
  let ?w = "w\<lparr>ticks := ticks w + 1\<rparr>"
  have "walk (files w) [] s \<noteq> Through" using walk_existing [of "files w" "[]" s] assms by simp
  from ft_True_run [OF ft_Lstat [OF assms(2) this, of True], of ?w] assms(1,3)
  obtain info w' where "os_Lstat s ?w = (Ok info, w')" "files w' = files w" "fi_kind info = KDir" "fi_perm info = pm"
    "calm w'" "outside w' = outside w" by (auto simp: look_fails_def)
  then show ?thesis
    by (intro exI [of _ w'])
       (simp add: enterDir_def bnd_assoc bnd_Ok [of ctx_Err w "()" ?w] calm_ctx_Err [OF assms(1)]
         bnd_Ok [of "os_Lstat s" "w\<lparr>ticks := Suc (ticks w)\<rparr>" info w'])
qed

lemma enterDir_fresh:
  assumes "fs_wf F" "mget F s = Some (Dir pm)" "mget F (s @ [x]) = None"
  shows "ftriple True (\<lambda>fs. fs = F) (enterDir p s (s @ [x]) ow pm)
    (\<lambda>names g. fs_wf g \<and> names = children g s \<and> mget g (s @ [x]) = Some (Dir pm) \<and> (\<forall>q. q \<noteq> s @ [x] \<longrightarrow> mget g q = mget F q))
    (\<lambda>_ _. False)" (is "ftriple True _ _ ?Q _")
  unfolding enterDir_def
proof (rule ft_seq [OF ft_dstDirectory [OF assms(1) fresh_child [OF assms]]], simp, rule ft_start)
  fix G assume "fs_wf G \<and> mkdir_ext (s @ [x]) pm F G \<and> (\<exists>pm. mget G (s @ [x]) = Some (Dir pm))"
  then obtain pm' where G: "fs_wf G" "mkdir_ext (s @ [x]) pm F G" "mget G (s @ [x]) = Some (Dir pm')" by blast
  show "ftriple True (\<lambda>fs. fs = G) (bnd (os_Chmod (s @ [x]) pm) (\<lambda>_. os_ReadDir s)) ?Q (\<lambda>_ _. False)"
  proof (rule ft_seq [OF ft_Chmod_dir [OF G(1,3)]], simp, rule ft_start)
    fix H assume H: "fs_wf H \<and> mget H (s @ [x]) = Some (Dir pm) \<and> same_except {s @ [x]} G H"
    have old: "mget H q = mget F q" if "q \<noteq> s @ [x]" for q
      using mkdir_child [OF assms(1,2) G(2) _ that] H by blast
    have "mget H s = Some (Dir pm)" using old [of s] assms(2) by simp
    from ft_ReadDir [OF _ this] H old
    show "ftriple True (\<lambda>fs. fs = H) (os_ReadDir s) ?Q (\<lambda>_ _. False)" by (auto intro: ft_conseq)
  qed
qed

lemma copyPath_into_itself:
  assumes "calm w" "fs_wf (files w)" "mget (files w) s = Some (Dir pm)" "children (files w) s = []"
  shows "fst (copyPath n p s (s @ [x]) ow w) = Diverges"
  using assms
proof (induction n arbitrary: w s pm)
  case (Suc n)
  note wf = Suc.prems(2) and dir = Suc.prems(3)
  let ?d = "s @ [x]" and ?cp = "\<lambda>y. bnd ctx_Err (\<lambda>_. copyPath n p (s @ [y]) ((s @ [x]) @ [y]) ow)"
  have none: "mget (files w) (s @ [y]) = None" for y using Suc.prems(4) by (simp add: children_Nil)
  obtain w1 where w1: "files w1 = files w" "calm w1"
      "copyPath (Suc n) p s ?d ow w = bnd (enterDir p s ?d ow pm) (eachIO ?cp) w1"
    using copyPath_dir [OF Suc.prems(1) wf dir] by blast
  obtain w2 where w2: "enterDir p s ?d ow pm w1 = (Ok (children (files w2) s), w2)" "fs_wf (files w2)"
      "mget (files w2) ?d = Some (Dir pm)" "\<forall>q. q \<noteq> ?d \<longrightarrow> mget (files w2) q = mget (files w) q" "calm w2"
    using ft_True_run [OF enterDir_fresh [OF wf dir none [of x], where p = p and ow = ow] w1(2)] w1(1) by auto
  have "children (files w2) s = [x]"
  proof (rule children_single [OF fs_wfD(1) [OF w2(2)]])
    show "(mget (files w2) (s @ [y]) \<noteq> None) = (y = x)" for y
      using w2(3,4) none [of y] by (cases "y = x") auto
  qed
  then have "copyPath (Suc n) p s ?d ow w = bnd (?cp x) (\<lambda>_. ret ()) w2"
    using w1(3) w2(1) by (simp add: bnd_def)
  moreover have "children (files w2) ?d = []"
    using wf_no_child [OF wf, of ?d] none [of x] w2(4) by (simp add: children_Nil)
  with Suc.IH [of "w2\<lparr>ticks := ticks w2 + 1\<rparr>" ?d pm] w2
  have "fst (copyPath n p ?d (?d @ [x]) ow (w2\<lparr>ticks := ticks w2 + 1\<rparr>)) = Diverges" by simp
  ultimately show ?case
    by (auto simp: bnd_def calm_ctx_Err [OF w2(5)] split: prod.splits)
qed simp

text \<open>C18: copying an empty directory to a new name inside itself does not end: every level finds the
  directory it has just made as an entry of its source and descends into it, whatever the depth.\<close>

theorem Copy_into_itself_never_ends:
  assumes "fs_wf (files w)" "calm w" "transferable p (files w) src dst"
  defines "s \<equiv> filepath_Clean (ref_Key src)"
  assumes "filepath_Clean (ref_Key dst) = s @ [x]" "mget (files w) s = Some (Dir pm)" "children (files w) s = []"
  shows "fst (Copy p src dst opts w) = Diverges \<and> (\<forall>n. fst (copyPath n p s (s @ [x]) ow w) = Diverges)"
proof -
  have "mget (files w) (s @ [x]) = None" using assms(7) by (simp add: children_Nil)
  moreover obtain sp dp si di w1 where t: "transferChecks p ErrCopy src dst w = (Ok (sp, dp, si, di), w1)"
    "files w1 = files w" "calm w1" "sp = s" "dp = s @ [x]" "looked (files w) dp di"
    using ft_True_run [OF ft_transferChecks [OF assms(1), of True p ErrCopy src dst] assms(2)] assms(3,5)
    by (auto simp: s_def)
  ultimately have "di = None" by (cases di) auto
  with t have "Copy p src dst opts w =
      wrapErr (wrapAs p ErrCopy (arrow src dst))
        (\<lambda>w. copyPath (Suc (length (files w))) p s (s @ [x]) (copy_Overwrite opts) w) w1"
    by (simp add: Copy_def check_def bnd_def ret_def)
  moreover have "fst (copyPath n p s (s @ [x]) ow w1) = Diverges" for n ow
    using copyPath_into_itself [OF t(3), of s pm] t(2) assms by simp
  ultimately show ?thesis
    using copyPath_into_itself [OF assms(2,1,6,7)] by (simp add: wrapErr_Diverges del: copyPath.simps)
qed

definition empty_dir_tree :: fsys where
  "empty_dir_tree = [([], Dir 488), ([''a''], Dir 488)]"

theorem Copy_into_itself_never_ends_witness:
  "fst (Copy demo_prov (demo_ref ''a'') (demo_ref ''a/b'') \<lparr>copy_Overwrite = False\<rparr> (demo_world empty_dir_tree)) = Diverges"
proof -
  have wf: "fs_wf empty_dir_tree"
    by (rule fs_ok_wf) (simp add: fs_ok_def empty_dir_tree_def mwf_def mkeys_def)
  have "transferable demo_prov empty_dir_tree (demo_ref ''a'') (demo_ref ''a/b'')"
    "children empty_dir_tree [''a''] = []" "mget empty_dir_tree [''a''] = Some (Dir 488)"
    by (auto simp: transferable_def clear_def no_link_def empty_dir_tree_def prefix_Cons children_Nil)
  with Copy_into_itself_never_ends [of "demo_world empty_dir_tree" demo_prov "demo_ref ''a''" "demo_ref ''a/b''" "''b''" 488] wf
  show ?thesis by simp
qed

section \<open>Copying a file onto itself\<close>

lemma ft_OpenFile_trunc:
  assumes "fs_wf G" "mget G q = Some (File pm c0 t)"
  shows "ftriple c (\<lambda>fs. fs = G) (os_OpenFile q (O_CREATE_TRUNC perm))
    (\<lambda>h fs. h = At q \<and> has_file G q pm [] fs) (\<lambda>e fs. \<not> c \<and> fs = G)"
  unfolding os_OpenFile_def
proof (rule ft_sys)
  have walk: "walk G [] q = Found (File pm c0 t)" using assms by (simp add: walk_Found_iff)
  have "has_file G q pm [] (mput q (File pm [] t') G)" for t'
    using fs_wf_mput_same [OF assms] by (simp add: has_file_def same_except_def)
  with walk show "ftriple c (\<lambda>fs. fs = G) (\<lambda>w.
     case walk (files w) [] q of
       Found n \<Rightarrow> open_existing q (O_CREATE_TRUNC perm) n w
     | Missing \<Rightarrow> (case O_CREATE_TRUNC perm of
            O_CREATE_EXCL perm \<Rightarrow> new_file q perm w
          | O_CREATE_TRUNC perm \<Rightarrow> new_file q perm w
          | _ \<Rightarrow> throw (os_err ErrNotExist) w)
     | NotDir \<Rightarrow> throw (os_err ENOTDIR) w
     | Through \<Rightarrow> followed q w)
    (\<lambda>h fs. h = At q \<and> has_file G q pm [] fs) (\<lambda>e fs. \<not> c \<and> fs = G)"
    by (auto simp: ftriple_def open_existing_def set_node_def modify_def bnd_def ret_def same_env_def)
qed auto

lemma ft_copySelf:
  "ftriple True (has_file G q pm []) (copyContext (At q) (Reading (At q) 0)) (\<lambda>_. has_file G q pm []) (\<lambda>_ _. False)"
proof (rule ftripleI)
  fix w assume "True \<longrightarrow> calm w" and hf: "has_file G q pm [] (files w)"
  then have c: "calm w" by simp
  obtain t where t: "mget (files w) q = Some (File pm [] t)" using has_file_node [OF hf] by blast
  have "copyContext (At q) (Reading (At q) 0) w = (Ok 0, w\<lparr>ticks := ticks w + 2\<rparr>)"
    using c t by (simp add: copyContext_def readerFuel_def bnd_def ctx_Err_def reader_Read_def writeChunk_def
        ret_def Let_def calm_def)
  with hf show "case copyContext (At q) (Reading (At q) 0) w of (r, w') \<Rightarrow> same_env w w' \<and>
      (case r of Ok x \<Rightarrow> has_file G q pm [] (files w') | Err e \<Rightarrow> False | Diverges \<Rightarrow> False)"
    by (simp add: same_env_def)
qed

lemma ft_copyOpened_self:
  assumes "fs_wf G" "mget G q = Some (File pm c0 t)"
  shows "ftriple True (\<lambda>fs. fs = G) (copyOpened q perm True (At q)) (\<lambda>_. has_file G q perm []) (\<lambda>_ _. False)"
    (is "ftriple True _ _ ?Q ?E")
proof -
  let ?R = "\<lambda>cp fs. has_file G q pm [] fs \<and> failed cp = None"
  have "ftriple True (has_file G q pm []) (attempt (copyContext (At q) (Reading (At q) 0))) ?R ?E"
    by (rule ft_attempt, rule ft_conseq [OF ft_copySelf]) (auto simp: failed_def)
  moreover have "ftriple True (?R cp) (closeBoth cp) (\<lambda>_. has_file G q pm []) ?E" for cp
    by (rule ft_closeBoth) auto
  moreover have "ftriple True (has_file G q pm []) (os_Chmod q perm) ?Q ?E"
    by (rule ft_conseq [OF ft_Chmod_file]) auto
  ultimately have "ftriple True (has_file G q pm []) (bnd (attempt (copyContext (At q) (Reading (At q) 0)))
      (\<lambda>cp. bnd (closeBoth cp) (\<lambda>_. os_Chmod q perm))) ?Q ?E"
    by (blast intro: ft_bnd)
  then show ?thesis
    unfolding copyOpened_def if_True
    by (intro ft_seq_attempt [OF ft_OpenFile_trunc [OF assms]]) (simp_all, intro ft_prop, simp, simp add: ftriple_def)
qed

lemma mkdir_existing:
  assumes "fs_wf F" "mget F q = Some n" "mkdir_ext (butlast q) pm F G" "q \<noteq> []"
  shows "mget G r = mget F r"
proof (cases "prefix r (butlast q)")
  case True
  then have "strict_prefix r q" using prefix_butlast_strict assms(4) by blast
  from wf_strict_prefix [OF assms(1,2) this] obtain pm' where "mget F r = Some (Dir pm')" by blast
  with mkdir_ext_old [OF assms(3) this] show ?thesis by simp
qed (use mkdir_ext_outside [OF assms(3)] in simp)

lemma ft_copyFile_self:
  assumes "fs_wf F" "mget F q = Some (File pm c0 t)" "q \<noteq> []"
  shows "ftriple True (\<lambda>fs. fs = F) (copyFile q q True info) (\<lambda>_. has_file F q (fi_perm info) []) (\<lambda>_ _. False)"
    (is "ftriple True _ _ ?Q ?E")
  unfolding copyFile_def
proof (rule ft_seq [OF ft_MkdirAll [OF assms(1)]])
  have cl: "clear F q" by (rule clear_exists [OF assms(1,2)]) simp
  then show "no_link F (butlast q)" by (simp add: clear_def no_link_butlast)
  show "?E e fs" if "fs_wf fs \<and> mkdir_ext (butlast q) 488 F fs \<and> (True \<longrightarrow> \<not> dir_path F (butlast q))" for e fs
    using that clear_dir_path [OF assms(1) cl assms(3)] by simp
  show "ftriple True (\<lambda>fs. fs_wf fs \<and> mkdir_ext (butlast q) 488 F fs \<and> (\<exists>pm. mget fs (butlast q) = Some (Dir pm)))
      (bnd (os_Open q) (copyOpened q (fi_perm info) True)) ?Q ?E" for x
  proof (rule ft_start)
    fix G assume "fs_wf G \<and> mkdir_ext (butlast q) 488 F G \<and> (\<exists>pm. mget G (butlast q) = Some (Dir pm))"
    then have wf: "fs_wf G" and eq: "mget G r = mget F r" for r
      using mkdir_existing [OF assms(1,2) _ assms(3)] by auto
    have q: "mget G q = Some (File pm c0 t)" using eq assms(2) by simp
    have "ftriple True (\<lambda>fs. h = At q \<and> fs = G) (copyOpened q (fi_perm info) True h) ?Q ?E" for h
      by (rule ft_prop, simp only:, rule ft_conseq [OF ft_copyOpened_self [OF wf q]])
         (auto simp: has_file_def same_except_def eq)
    then show "ftriple True (\<lambda>fs. fs = G) (bnd (os_Open q) (copyOpened q (fi_perm info) True)) ?Q ?E"
      by (intro ft_seq [OF ft_Open_existing [OF wf q]]) auto
  qed
qed

text \<open>C16: the guard against copying an object onto itself compares references, not paths. Two
  different references to the same file (such as \<open>f\<close> and \<open>./f\<close>) pass it, and with \<open>Overwrite\<close> the
  copy succeeds and leaves the file empty.\<close>

theorem Copy_alias_truncates:
  assumes "fs_wf (files w)" "calm w" "transferable p (files w) src dst" "copy_Overwrite opts"
  defines "q \<equiv> filepath_Clean (ref_Key src)"
  assumes "filepath_Clean (ref_Key dst) = q" "mget (files w) q = Some (File pm c0 t)"
  shows "\<exists>w' t'. Copy p src dst opts w = (Ok (), w') \<and> mget (files w') q = Some (File pm [] t')"
proof -
  obtain sp dp si di w1 where t: "transferChecks p ErrCopy src dst w = (Ok (sp, dp, si, di), w1)"
    "files w1 = files w" "calm w1" "sp = q" "dp = q" "looked (files w) sp (Some si)" "looked (files w) dp di"
    using ft_True_run [OF ft_transferChecks [OF assms(1), of True p ErrCopy src dst] assms(2)] assms(3,6)
    by (auto simp: q_def simp del: looked.simps)
  have si: "fi_kind si = KRegular" "fi_perm si = pm" using t(4,6) assms(7) by auto
  obtain i where i: "di = Some i" "fi_kind i = KRegular" using t(5,7) assms(7) by (cases di) auto
  let ?cp = "copyPath (Suc (length (files w))) p q q True"
  have "q \<noteq> []" using assms(3) valid_ref_safe [of p src] by (auto simp: transferable_def q_def safe_path_def)
  note self = ft_copyFile_self [OF assms(1,7) this]
  have cl: "clear (files w) q" by (rule clear_exists [OF assms(1,7)]) simp
  have "ftriple True (\<lambda>fs. fs = files w) ?cp (\<lambda>_. has_file (files w) q pm []) (\<lambda>_ _. False)"
    unfolding copyPath.simps
  proof (rule ft_bnd [OF ft_ctx_Err [where Q = "\<lambda>_ fs. fs = files w"]], simp, simp,
      rule ft_seq [OF ft_Lstat [OF assms(1) clear_walk [OF cl]]], simp add: look_fails_def assms(7), goal_cases)
    case (1 x info)
    show ?case
    proof (cases "\<exists>n m. mget (files w) q = Some n \<and> info = node_info m n")
      case True
      then have "fi_kind info = KRegular" "fi_perm info = pm" using assms(7) by auto
      then show ?thesis using self [of info] by (auto intro: ft_pre)
    qed (auto simp: ftriple_def)
  qed
  from ft_True_run [OF this t(3)] t(2) obtain w2 where w2: "?cp w1 = (Ok (), w2)" "has_file (files w) q pm [] (files w2)"
    by auto
  have "Copy p src dst opts w = (Ok (), w2)"
    using t(1,2,4,5) i si assms(4) w2(1)
    by (simp add: Copy_def check_def bnd_def ret_def wrapErr_def del: copyPath.simps)
  with w2(2) show ?thesis by (auto simp: has_file_def)
qed

theorem Copy_alias_truncates_witness:
  "\<exists>w' t'. Copy demo_prov (demo_ref ''f'') (demo_ref ''./f'') \<lparr>copy_Overwrite = True\<rparr> (demo_world demo_tree) = (Ok (), w') \<and>
     mget (files w') [''f''] = Some (File 384 [] t')"
proof -
  have "transferable demo_prov demo_tree (demo_ref ''f'') (demo_ref ''./f'')" "mget demo_tree [''f''] = Some (File 384 [3] 5)"
    using demo_clear by (simp_all add: transferable_def) (simp_all add: demo_tree_def)
  then show ?thesis
    using Copy_alias_truncates [of "demo_world demo_tree" demo_prov "demo_ref ''f''" "demo_ref ''./f''" "\<lparr>copy_Overwrite = True\<rparr>" 384 "[3]" 5]
    by simp
qed

section \<open>Copying over a directory that holds a symbolic link\<close>

lemma copyLoop_away:
  assumes "calm w" "mget (files w) q = Some (File pm c t)" "length c - off < n"
  shows "\<exists>k w'. copyLoop n (Away d) (Reading (At q) off) m w = (Ok k, w') \<and>
    files w' = files w \<and> calm w' \<and> outside w' = outside w"
  using assms
proof (induction n arbitrary: w off m)
  case (Suc n)
  let ?bs = "take copyBuf (drop off c)" and ?w = "\<lambda>i. w\<lparr>ticks := ticks w + i\<rparr>"
  show ?case
  proof (cases "?bs = []")
    case True
    then have "drop off c = []" by (auto simp: copyBuf_def)
    then have "copyLoop (Suc n) (Away d) (Reading (At q) off) m w = (Ok m, ?w 2)"
      using Suc.prems by (simp add: bnd_def ctx_Err_def reader_Read_def writeChunk_def ret_def Let_def calm_def)
    with Suc.prems(1) show ?thesis by simp
  next
    case False
    have "off < length c" using False by (cases "off < length c") auto
    then have lt: "length c - (off + length ?bs) < n" using Suc.prems(3) copyBuf_pos by simp
    have "copyLoop (Suc n) (Away d) (Reading (At q) off) m w =
        copyLoop n (Away d) (Reading (At q) (off + length ?bs)) (m + length ?bs) (?w 3)"
      using False Suc.prems
      by (simp add: bnd_def ctx_Err_def reader_Read_def writeChunk_def file_Write_def append_bytes_def ret_def Let_def calm_def
          numeral_3_eq_3 del: length_take)
    with Suc.IH [of "?w 3" "off + length ?bs" "m + length ?bs"] Suc.prems(1,2) lt show ?thesis by simp
  qed
qed simp

lemma calm_nop: "calm w \<Longrightarrow> file_Close w = (Ok (), w\<lparr>ticks := ticks w + 1\<rparr>)"
  by (simp add: file_Close_def sys_def ret_def calm_def Let_def)

lemma copyOpened_away:
  assumes "calm w" "fs_wf (files w)" "mget (files w) q = Some (File pm c t)" "mget (files w) d = Some Symlink"
  shows "\<exists>w'. copyOpened d perm True (At q) w = (Ok (), w') \<and> outside w' = outside w @ [d, d]"
proof -
  let ?w = "w\<lparr>ticks := ticks w + 1, outside := outside w @ [d]\<rparr>"
  have walk: "walk (files w) [] d = Found Symlink" using assms by (simp add: walk_Found_iff)
  have opn: "os_OpenFile d (O_CREATE_TRUNC perm) w = (Ok (Away d), ?w)"
    using assms(1) walk by (simp add: os_OpenFile_def sys_def open_existing_def away_def calm_def Let_def)
  have calm: "calm ?w" using assms(1) by (simp add: calm_def)
  obtain k w2 where w2: "copyContext (Away d) (Reading (At q) 0) ?w = (Ok k, w2)" "files w2 = files w"
      "calm w2" "outside w2 = outside w @ [d]"
    using copyLoop_away [OF calm, of q pm c t 0 "Suc (length c)" d 0] assms(3)
    by (auto simp: copyContext_def readerFuel_def)
  let ?w3 = "w2\<lparr>ticks := ticks w2 + 2\<rparr>"
  have "closeBoth (Inr k) w2 = (Ok (), ?w3)"
    using w2(3) calm_nop [of w2] calm_nop [of "w2\<lparr>ticks := ticks w2 + 1\<rparr>"]
    by (simp add: closeBoth_def bnd_def attempt_def failed_def check_def ret_def)
  moreover have "os_Chmod d perm ?w3 = (Ok (), ?w3\<lparr>ticks := ticks w2 + 3, outside := outside w @ [d, d]\<rparr>)"
    using w2 walk by (simp add: os_Chmod_def sys_def at_node_def away_def bnd_def ret_def calm_def Let_def)
  ultimately show ?thesis
    using opn w2(1) by (simp add: copyOpened_def bnd_def attempt_def)
qed

lemma enterDir_existing:
  assumes "fs_wf F" "mget F s = Some (Dir pm)" "mget F d = Some (Dir pmd)"
  shows "ftriple True (\<lambda>fs. fs = F) (enterDir p s d True pm)
    (\<lambda>names g. fs_wf g \<and> names = children g s \<and> mget g d = Some (Dir pm) \<and> (\<forall>q. q \<noteq> d \<longrightarrow> mget g q = mget F q))
    (\<lambda>_ _. False)" (is "ftriple True _ _ ?Q ?E")
  unfolding enterDir_def
proof (rule ft_bnd)
  have walk: "walk F [] d \<noteq> Through" using walk_existing [of F "[]" d] assms by simp
  show "ftriple True (\<lambda>fs. fs = F) (dstDirectory p d True pm) (\<lambda>_ fs. fs = F) ?E"
    unfolding dstDirectory_def
    by (rule ft_seq_attempt [OF ft_Lstat [OF assms(1) walk]])
       (use assms(3) in \<open>auto simp: ftriple_def look_fails_def ret_def\<close>)
  show "ftriple True (\<lambda>fs. fs = F) (bnd (os_Chmod d pm) (\<lambda>_. os_ReadDir s)) ?Q ?E" for x
  proof (rule ft_seq [OF ft_Chmod_dir [OF assms(1,3)]], simp, rule ft_start)
    fix H assume H: "fs_wf H \<and> mget H d = Some (Dir pm) \<and> same_except {d} F H"
    then have "mget H s = Some (Dir pm)" using assms(2) by (cases "s = d") (auto simp: same_except_def)
    then show "ftriple True (\<lambda>fs. fs = H) (os_ReadDir s) ?Q ?E"
      by (rule ft_conseq [OF ft_ReadDir [OF conjunct1 [OF H]]]) (use H in \<open>simp_all add: same_except_def\<close>)
  qed
qed

lemma copyPath_onto_link:
  assumes "calm w" "fs_wf (files w)" "mget (files w) q = Some (File pm c t)" "mget (files w) d = Some Symlink"
  shows "\<exists>w'. copyPath (Suc n) p q d True w = (Ok (), w') \<and> outside w' = outside w @ [d, d]"
proof -
  let ?F = "files w" and ?w1 = "w\<lparr>ticks := ticks w + 1\<rparr>"
  have "d \<noteq> []" using assms(4) fs_wfD(2) [OF assms(2)] by auto
  have anc: "\<exists>pm. mget ?F r = Some (Dir pm)" if "prefix r (butlast d)" for r
    using wf_strict_prefix [OF assms(2,4)] prefix_butlast_strict [OF that \<open>d \<noteq> []\<close>] by blast
  have nl: "no_link ?F (butlast d)" "dir_path ?F (butlast d)"
    using anc by (fastforce simp: no_link_def dir_path_def)+
  have walk: "walk ?F [] q \<noteq> Through" using walk_existing [of ?F "[]" q] assms by simp
  obtain info w2 where w2: "os_Lstat q ?w1 = (Ok info, w2)" "files w2 = ?F" "calm w2" "outside w2 = outside w"
      "fi_kind info = KRegular"
    using ft_True_run [OF ft_Lstat [OF assms(2) walk, of True], of ?w1] assms(1,3) by (auto simp: look_fails_def)
  have mk: "ftriple True (\<lambda>fs. fs = ?F) (os_MkdirAll (butlast d) 488)
      (\<lambda>_ fs. fs_wf fs \<and> (\<forall>r. mget fs r = mget ?F r)) (\<lambda>_ _. False)"
    by (rule ft_conseq [OF ft_MkdirAll [OF assms(2) nl(1)]])
       (use nl(2) mkdir_existing [OF assms(2,4) _ \<open>d \<noteq> []\<close>] in auto)
  obtain w3 where w3: "os_MkdirAll (butlast d) 488 w2 = (Ok (), w3)" "fs_wf (files w3)"
      "\<forall>r. mget (files w3) r = mget ?F r" "calm w3" "outside w3 = outside w"
    using ft_True_run [OF mk w2(3)] w2(2,4) by auto
  have q3: "mget (files w3) q = Some (File pm c t)" using w3(3) assms(3) by simp
  obtain w4 where w4: "os_Open q w3 = (Ok (At q), w4)" "files w4 = files w3" "calm w4" "outside w4 = outside w"
    using ft_True_run [OF ft_Open_existing [OF w3(2) q3, of True] w3(4)] w3(5) by auto
  obtain w5 where "copyOpened d (fi_perm info) True (At q) w4 = (Ok (), w5)" "outside w5 = outside w @ [d, d]"
    using copyOpened_away [OF w4(3), of q pm c t d] w4 w3 assms(3,4) by auto
  then show ?thesis
    using w2 w3(1) w4(1) calm_ctx_Err [OF assms(1)] by (simp add: bnd_def copyFile_def)
qed

text \<open>C19: the destination's entries are not checked for symbolic links. Copying a directory with
  \<open>Overwrite\<close> over a directory that holds a link under the name of a source file succeeds, and
  writes to and changes the mode of whatever the link points to, outside the provider's root.\<close>

theorem Copy_follows_nested_link:
  assumes "fs_wf (files w)" "calm w" "transferable p (files w) src dst" "copy_Overwrite opts"
  defines "s \<equiv> filepath_Clean (ref_Key src)" and "d \<equiv> filepath_Clean (ref_Key dst)"
  assumes "mget (files w) s = Some (Dir pms)" "mget (files w) d = Some (Dir pmd)" "children (files w) s = [x]"
    and "mget (files w) (s @ [x]) = Some (File pm c0 t)" "mget (files w) (d @ [x]) = Some Symlink"
  shows "\<exists>w'. Copy p src dst opts w = (Ok (), w') \<and> outside w' = outside w @ [d @ [x], d @ [x]]"
proof -
  obtain sp dp si di w1 where t: "transferChecks p ErrCopy src dst w = (Ok (sp, dp, si, di), w1)"
    "files w1 = files w" "calm w1" "outside w1 = outside w" "sp = s" "dp = d" "looked (files w) sp (Some si)" "looked (files w) dp di"
    using ft_True_run [OF ft_transferChecks [OF assms(1), of True p ErrCopy src dst] assms(2)] assms(3)
    by (auto simp: s_def d_def simp del: looked.simps)
  have si: "fi_kind si = KDir" using t(5,7) assms(7) by auto
  obtain i where i: "di = Some i" "fi_kind i = KDir" using t(6,8) assms(8) by (cases di) auto
  obtain m where m: "length (files w) = Suc m" using assms(7) by (cases "files w") auto
  let ?cp = "\<lambda>y. bnd ctx_Err (\<lambda>_. copyPath (Suc m) p (s @ [y]) (d @ [y]) True)"
  obtain w2 where w2: "files w2 = files w" "calm w2" "outside w2 = outside w"
      "copyPath (Suc (Suc m)) p s d True w1 = bnd (enterDir p s d True pms) (eachIO ?cp) w2"
    using copyPath_dir [OF t(3), of s pms "Suc m" p d True] t(2,4) assms(1,7) by auto
  obtain w3 where w3: "enterDir p s d True pms w2 = (Ok (children (files w3) s), w3)" "fs_wf (files w3)"
      "\<forall>q. q \<noteq> d \<longrightarrow> mget (files w3) q = mget (files w) q" "calm w3" "outside w3 = outside w"
    using ft_True_run [OF enterDir_existing [OF assms(1,7,8), where p = p] w2(2) w2(1)] w2(3) by auto
  have kid: "mget (files w) (s @ [y]) \<noteq> None \<longleftrightarrow> y = x" for y
    using set_children [of "files w" s] assms(9) by auto
  have nd: "s @ [y] \<noteq> d" for y using kid [of y] assms(8,10) by (cases "y = x") auto
  have "children (files w3) s = [x]"
    by (rule children_single [OF fs_wfD(1) [OF w3(2)]]) (use w3(3) nd kid in simp)
  moreover obtain w4 where "copyPath (Suc m) p (s @ [x]) (d @ [x]) True (w3\<lparr>ticks := ticks w3 + 1\<rparr>) = (Ok (), w4)"
      "outside w4 = outside w @ [d @ [x], d @ [x]]"
    using copyPath_onto_link [of "w3\<lparr>ticks := ticks w3 + 1\<rparr>" "s @ [x]" pm c0 t "d @ [x]" m p] w3 nd [of x] assms(10,11)
    by auto
  ultimately have "copyPath (Suc (Suc m)) p s d True w1 = (Ok (), w4)" "outside w4 = outside w @ [d @ [x], d @ [x]]"
    using w2(4) w3(1) calm_ctx_Err [OF w3(4)] by (simp_all add: bnd_def ret_def del: copyPath.simps)
  then show ?thesis
    using t(1,2,5,6) i si assms(4) m
    by (simp add: Copy_def check_def bnd_def ret_def wrapErr_def del: copyPath.simps)
qed

definition link_tree :: fsys where
  "link_tree = [([], Dir 488), ([''a''], Dir 488), ([''a'', ''x''], File 420 [1] 7), ([''b''], Dir 488), ([''b'', ''x''], Symlink)]"

theorem Copy_follows_nested_link_witness:
  "\<exists>w'. Copy demo_prov (demo_ref ''a'') (demo_ref ''b'') \<lparr>copy_Overwrite = True\<rparr> (demo_world link_tree) = (Ok (), w') \<and>
     outside w' = [[''b'', ''x''], [''b'', ''x'']]"
proof -
  have wf: "fs_wf link_tree"
    by (rule fs_ok_wf) (simp add: fs_ok_def link_tree_def mwf_def mkeys_def)
  have "transferable demo_prov link_tree (demo_ref ''a'') (demo_ref ''b'')"
    by (auto simp: transferable_def clear_def no_link_def link_tree_def prefix_Cons)
  moreover have "children link_tree [''a''] = [''x'']"
    by (rule children_single [OF fs_wfD(1) [OF wf]]) (simp add: link_tree_def)
  ultimately show ?thesis
    using Copy_follows_nested_link [of "demo_world link_tree" demo_prov "demo_ref ''a''" "demo_ref ''b''" "\<lparr>copy_Overwrite = True\<rparr>" 488 488 "''x''" 420 "[1]" 7] wf
    by (simp add: link_tree_def)
qed

section \<open>Moving\<close>

text \<open>C14: assume that the destination is neither the source nor a directory that holds it. Then a
  successful move relocates the source: everything below the source is below the destination,
  unchanged, nothing is left of the source, and the rest of the tree is as before but for missing
  parent directories. A failed move leaves everything of the source as it was that does not lie at
  or below the destination (so all of it, unless the destination lies inside the source), and if
  the destination was absent, nothing has changed but missing parent directories. Without a failure
  of the environment a move succeeds unless the checks refuse it or the destination lies inside the
  source. What a move onto the source itself or a directory that holds it does is shown below.\<close>

theorem Move_relocates:
  assumes "fs_wf (files w)" "honest w" "Move p src dst opts w = (r, w')"
  defines "s \<equiv> filepath_Clean (ref_Key src)" and "d \<equiv> filepath_Clean (ref_Key dst)"
  assumes "\<not> prefix d s"
  shows "r \<noteq> Diverges \<and> outside w' = outside w \<and>
    (r = Ok () \<longrightarrow> moved_tree (files w) s d (files w')) \<and>
    (\<forall>e x. r = Err e \<longrightarrow> mget (files w) (s @ x) \<noteq> None \<and> \<not> prefix d (s @ x) \<longrightarrow>
       mget (files w') (s @ x) = mget (files w) (s @ x)) \<and>
    (\<forall>e. r = Err e \<and> mget (files w) d = None \<longrightarrow> mkdir_ext (butlast d) 488 (files w) (files w')) \<and>
    (calm w \<and> transferable p (files w) src dst \<and> replaceable (files w) s d opts \<and> \<not> prefix s d \<longrightarrow> r = Ok ())"
proof -
  have np: "\<not> prefix (ref_path dst) (ref_path src)" using assms by simp
  note d = ftripleD [OF ft_Move [OF assms(1) np, of False p opts] assms(2) _ _ assms(3), simplified]
  note c = ftripleD [OF ft_Move [OF assms(1) np, of True p opts] assms(2) _ _ assms(3), simplified]
  have ok: "calm w \<and> transferable p (files w) src dst \<and> replaceable (files w) s d opts \<and> \<not> prefix s d \<longrightarrow> r = Ok ()"
    using c(3,4) assms by (cases r) (auto simp: s_def d_def)
  have src: "mget (files w') (s @ x) = mget (files w) (s @ x)"
    if "r = Err e" "mget (files w) (s @ x) \<noteq> None" "\<not> prefix d (s @ x)" for e x
  proof -
    from d(3) [OF that(1)] consider "files w' = files w"
      | G where "wiped (files w) d G" "mkdir_ext (butlast d) 488 G (files w')" by (auto simp: d_def)
    then show ?thesis
    proof cases
      case (2 G)
      from that(2) obtain n where n: "mget (files w) (s @ x) = Some n" by auto
      with 2(1) that(3) have "mget G (s @ x) = Some n" by (simp add: wiped_def)
      from mkdir_ext_old [OF 2(2) this] n show ?thesis by simp
    qed simp
  qed
  have dst: "mkdir_ext (butlast d) 488 (files w) (files w')" if "r = Err e" "mget (files w) d = None" for e
  proof -
    have same: "mget G q = mget (files w) q" if "wiped (files w) d G" for G q
      using that wiped_absent [OF assms(1) \<open>mget (files w) d = None\<close>] by (simp add: wiped_def)
    from d(3) [OF that(1)] consider "files w' = files w"
      | G where "wiped (files w) d G" "mkdir_ext (butlast d) 488 G (files w')" by (auto simp: d_def)
    then show ?thesis
    proof cases
      case 1
      then show ?thesis by (simp add: mkdir_ext_refl)
    next
      case (2 G)
      from 2(2) show ?thesis unfolding mkdir_ext_def same [OF 2(1)] .
    qed
  qed
  show ?thesis
  proof (intro conjI allI impI)
    show "r \<noteq> Diverges" "outside w' = outside w" using d(1,4) by (auto simp: same_env_def)
    show "moved_tree (files w) s d (files w')" if "r = Ok ()" using d(2) that by (simp add: s_def d_def)
    show "r = Ok ()" if "calm w \<and> transferable p (files w) src dst \<and> replaceable (files w) s d opts \<and> \<not> prefix s d"
      using ok that by blast
  qed (use src dst in blast)+
qed

theorem Move_relocates_witness:
  "moved_tree demo_tree [''a''] [''b'']
     (files (snd (Move demo_prov (demo_ref ''a'') (demo_ref ''b'') \<lparr>move_Overwrite = False\<rparr> (demo_world demo_tree))))"
proof -
  have "transferable demo_prov demo_tree (demo_ref ''a'') (demo_ref ''b'')" "mget demo_tree [''b''] = None"
    using demo_clear by (simp_all add: transferable_def) (simp_all add: demo_tree_def)
  then show ?thesis
    using Move_relocates [of "demo_world demo_tree" demo_prov "demo_ref ''a''" "demo_ref ''b''" "\<lparr>move_Overwrite = False\<rparr>",
        OF _ _ prod.collapse [symmetric]]
    by (simp add: replaceable_def)
qed

lemma ft_Rename_missing:
  assumes "fs_wf G" "mget G old = None" "no_link G old"
  shows "ftriple c (\<lambda>fs. fs = G) (os_Rename old new) (\<lambda>_ _. False) (\<lambda>e fs. fs = G)"
  unfolding os_Rename_def
proof (rule ft_sys, rule ft_at_node)
  fix fs n assume "fs = G" "walk fs [] old = Found n"
  with assms(1,2) show "ftriple c (\<lambda>g. g = fs) (f n) (\<lambda>_ _. False) (\<lambda>e fs. fs = G)" for f :: "node \<Rightarrow> 'a io"
    by (simp add: walk_Found_iff)
qed (use no_link_walk [OF assms(3)] in auto)

lemma ft_moveTo_gone:
  assumes "fs_wf F" "mget F dst = Some n" "clear F dst" "clear F src" "wiped F dst G" "prefix dst src" "dst \<noteq> []"
  shows "ftriple c (\<lambda>fs. fs = G) (moveTo p s d src dst) (\<lambda>_ _. False) (\<lambda>e fs. \<forall>r. mget fs (dst @ r) = None)"
    (is "ftriple c _ _ ?Q ?E")
  unfolding moveTo_def
proof (rule ft_seq_wrap [OF ft_MkdirAll])
  show "fs_wf G" using assms(5) by (simp add: wiped_def)
  show "no_link G (butlast dst)" using wiped_clear [OF assms(5,3,1,7)] by simp
  have gone: "mget fs (dst @ r) = None" if "mkdir_ext (butlast dst) 488 G fs" for fs r
  proof -
    have "\<not> prefix (dst @ r) (butlast dst)"
      using assms(7) prefix_length_le [of "dst @ r" "butlast dst"] by (cases dst) auto
    from mkdir_ext_outside [OF that this] assms(5) show ?thesis by (simp add: wiped_def)
  qed
  then show "?E (g e) fs" if "fs_wf fs \<and> mkdir_ext (butlast dst) 488 G fs \<and> (c \<longrightarrow> \<not> dir_path G (butlast dst))" for g e fs
    using that by blast
  show "ftriple c (\<lambda>fs. fs_wf fs \<and> mkdir_ext (butlast dst) 488 G fs \<and> (\<exists>pm. mget fs (butlast dst) = Some (Dir pm)))
     (wrapErr g (os_Rename src dst)) ?Q ?E" for x g
  proof (rule ft_start, rule ft_wrapErr)
    fix H assume "fs_wf H \<and> mkdir_ext (butlast dst) 488 G H \<and> (\<exists>pm. mget H (butlast dst) = Some (Dir pm))"
    then have H: "fs_wf H" "mkdir_ext (butlast dst) 488 G H" by auto
    obtain r where "src = dst @ r" using assms(6) by (auto simp: prefix_def)
    then have none: "mget H src = None" using gone [OF H(2)] by simp
    have "no_link G src" using assms(4,5) by (auto simp: clear_def no_link_def wiped_def)
    then have "no_link H src" by (rule mkdir_ext_no_link [OF H(2)])
    from ft_Rename_missing [OF H(1) none this]
    show "ftriple c (\<lambda>fs. fs = H) (os_Rename src dst) ?Q (\<lambda>e. ?E (g e))"
      by (rule ft_conseq) (use gone [OF H(2)] in auto)
  qed
qed

text \<open>C17: with \<open>Overwrite\<close>, a move whose destination is the source itself under another spelling, or
  a directory above it, first removes the destination and the source with it; the rename then
  fails. The call reports an error and the data is gone.\<close>

theorem Move_overwrite_destroys_source:
  assumes "fs_wf (files w)" "calm w" "transferable p (files w) src dst"
  defines "s \<equiv> filepath_Clean (ref_Key src)" and "d \<equiv> filepath_Clean (ref_Key dst)"
  assumes "prefix d s" "mget (files w) d \<noteq> None" "replaceable (files w) s d opts"
  shows "\<exists>e w'. Move p src dst opts w = (Err e, w') \<and> (\<forall>x. mget (files w') (d @ x) = None)"
proof -
  obtain sp dp si di w1 where t: "transferChecks p ErrMove src dst w = (Ok (sp, dp, si, di), w1)"
    "files w1 = files w" "calm w1" "sp = s" "dp = d" "looked (files w) sp (Some si)" "looked (files w) dp di"
    using ft_True_run [OF ft_transferChecks [OF assms(1), of True p ErrMove src dst] assms(2)] assms(3)
    by (auto simp: s_def d_def simp del: looked.simps)
  have cl: "clear (files w) s" "clear (files w) d" and ne: "d \<noteq> []"
    using assms(3) valid_ref_safe [of p dst] by (auto simp: transferable_def s_def d_def safe_path_def)
  obtain n where n: "mget (files w) d = Some n" using assms(7) by auto
  have "ftriple True (\<lambda>fs. fs = files w) (moveClear p src dst opts d si di) (\<lambda>_ fs. wiped (files w) d fs) (\<lambda>_ _. False)"
    by (rule ft_conseq [OF ft_moveClear [OF assms(1) cl(2) ne]]) (use t(4-7) assms(8) in auto)
  from ft_True_run [OF this t(3)] t(2) obtain w2 where
    w2: "moveClear p src dst opts d si di w1 = (Ok (), w2)" "wiped (files w) d (files w2)" "calm w2" by auto
  obtain r w3 where w3: "moveTo p src dst s d w2 = (r, w3)" by force
  note m = ftripleD [OF ft_moveTo_gone [OF assms(1) n cl(2,1) w2(2) assms(6) ne, of False p src dst]
      calm_honest [OF w2(3)] _ refl w3, simplified]
  have "Move p src dst opts w = (r, w3)"
    using t(1,4,5) w2(1) w3 by (simp add: Move_eq bnd_def)
  moreover have "\<exists>e. r = Err e \<and> (\<forall>x. mget (files w3) (d @ x) = None)" using m(2-4) by (cases r) auto
  ultimately show ?thesis by blast
qed

theorem Move_overwrite_destroys_source_witness:
  "\<exists>e w'. Move demo_prov (demo_ref ''f'') (demo_ref ''./f'') \<lparr>move_Overwrite = True\<rparr> (demo_world demo_tree) = (Err e, w') \<and>
     mget (files w') [''f''] = None"
proof -
  have "transferable demo_prov demo_tree (demo_ref ''f'') (demo_ref ''./f'')" "mget demo_tree [''f''] \<noteq> None"
    using demo_clear by (simp_all add: transferable_def) (simp_all add: demo_tree_def)
  moreover have "replaceable demo_tree [''f''] [''f''] \<lparr>move_Overwrite = True\<rparr>" by (simp add: replaceable_def)
  ultimately obtain e w' where "Move demo_prov (demo_ref ''f'') (demo_ref ''./f'') \<lparr>move_Overwrite = True\<rparr> (demo_world demo_tree) = (Err e, w')"
    "\<forall>x. mget (files w') ([''f''] @ x) = None"
    using Move_overwrite_destroys_source [of "demo_world demo_tree" demo_prov "demo_ref ''f''" "demo_ref ''./f''" "\<lparr>move_Overwrite = True\<rparr>"]
    by auto
  from this(2) [rule_format, of "[]"] this(1) show ?thesis by auto
qed

definition two_files :: fsys where
  "two_files = [([], Dir 488), ([''a''], File 420 [1] 7), ([''b''], File 420 [2] 8)]"

text \<open>Although the provider advertises atomic moves, a move that overwrites is a removal
  followed by a rename: when only the rename fails, the old destination is lost and the source
  has not moved.\<close>

theorem Move_overwrite_not_atomic:
  "AtomicMove (pi_Capabilities (Info demo_prov)) \<and>
   files (snd (Move demo_prov (demo_ref ''a'') (demo_ref ''b'') \<lparr>move_Overwrite = True\<rparr>
     (demo_world two_files\<lparr>fault := (\<lambda>n. if n = 6 then Some (0, os_err EIO) else None)\<rparr>))) =
   [([], Dir 488), ([''a''], File 420 [1] 7)]"
proof
  show "AtomicMove (pi_Capabilities (Info demo_prov))" by (simp add: Info_def)
qed code_simp

end
