(* ===== verification/Storage_Quiet.thy ===== *)
theory Storage_Quiet
  imports Storage_Local
begin

text \<open>
  Which methods of the provider leave the dirty table and the subscribers alone, and what an
  emitted event does to the subscribers.
\<close>

definition quiet :: "'a io \<Rightarrow> bool" where
  "quiet m \<longleftrightarrow> (\<forall>w. dirty (snd (m w)) = dirty w \<and> subs (snd (m w)) = subs w)"

named_theorems quiet_intros \<open>computations that leave the dirty table and the subscribers alone\<close>

lemma quietD: "quiet m \<Longrightarrow> m w = (r, w') \<Longrightarrow> dirty w' = dirty w \<and> subs w' = subs w"
  by (metis quiet_def snd_conv)

lemma quiet_fun: "(\<And>w. dirty (snd (m w)) = dirty w \<and> subs (snd (m w)) = subs w) \<Longrightarrow> quiet m"
  by (simp add: quiet_def)

lemma quiet_basic [quiet_intros]:
  "quiet (ret x)" "quiet (throw e)" "quiet (followed p)" "quiet (away p)" "quiet (\<lambda>w. (Diverges, w))" "quiet (gets f)"
  "quiet ctx_Err" "quiet newUUID"
  by (auto simp: quiet_def ret_def throw_def followed_def away_def gets_def ctx_Err_def newUUID_def Let_def split: option.split)

lemma quiet_bnd [quiet_intros]: "quiet m \<Longrightarrow> (\<And>x. quiet (f x)) \<Longrightarrow> quiet (bnd m f)"
proof (rule quiet_fun)
  fix w :: world assume m: "quiet m" and f: "\<And>x. quiet (f x)"
  obtain r and w1 :: world where r: "m w = (r, w1)" by force
  show "dirty (snd (bnd m f w)) = dirty w \<and> subs (snd (bnd m f w)) = subs w"
    using quietD [OF m r] f [unfolded quiet_def, rule_format, of _ w1] by (cases r) (auto simp: bnd_def r)
qed

lemma quiet_attempt [quiet_intros]: "quiet m \<Longrightarrow> quiet (attempt m)"
  by (auto simp: quiet_def attempt_def split: prod.splits outcome.splits) (metis snd_conv)+

lemma quiet_wrapErr [quiet_intros]: "quiet m \<Longrightarrow> quiet (wrapErr f m)"
  by (auto simp: quiet_def wrapErr_def split: prod.splits outcome.splits) (metis snd_conv)+

lemma quiet_check [quiet_intros]: "quiet (check e)"
  by (cases e) (simp_all add: check_def quiet_basic)

lemma quiet_sys [quiet_intros]: "quiet m \<Longrightarrow> quiet (sys m)"
  by (auto simp: quiet_def sys_def Let_def split: option.splits)

lemma quiet_cases [quiet_intros]:
  "(b \<Longrightarrow> quiet m) \<Longrightarrow> (\<not> b \<Longrightarrow> quiet n) \<Longrightarrow> quiet (if b then m else n)"
  "quiet m \<Longrightarrow> (\<And>y. quiet (f y)) \<Longrightarrow> quiet (case x of None \<Rightarrow> m | Some y \<Rightarrow> f y)"
  "(\<And>y. quiet (g y)) \<Longrightarrow> (\<And>y. quiet (h y)) \<Longrightarrow> quiet (case s of Inl y \<Rightarrow> g y | Inr y \<Rightarrow> h y)"
  "quiet a \<Longrightarrow> quiet b' \<Longrightarrow> quiet c \<Longrightarrow> quiet d \<Longrightarrow>
   quiet (case k of KRegular \<Rightarrow> a | KDir \<Rightarrow> b' | KSymlink \<Rightarrow> c | KOther \<Rightarrow> d)"
  by (auto split: option.split sum.split FileKind.split)

lemma quiet_at_node: "(\<And>n. quiet (f n)) \<Longrightarrow> quiet (at_node p f)"
  by (rule quiet_fun) (auto simp: at_node_def throw_def followed_def quiet_def split: walked.split)

lemma quiet_set_node [quiet_intros]: "quiet (set_node p n)"
  by (simp add: quiet_def set_node_def modify_def)

lemma quiet_create_node [quiet_intros]: "quiet (create_node p n)"
  unfolding create_node_def by (rule quiet_at_node) (auto intro!: quiet_intros split: node.split)

lemma quiet_look [quiet_intros]: "quiet (os_Lstat p)" "quiet (os_Stat p)"
  unfolding os_Lstat_def os_Stat_def info_of_def
  by (intro quiet_sys quiet_at_node quiet_intros)+

lemma quiet_nop [quiet_intros]: "quiet file_Sync" "quiet file_Close"
  unfolding file_Sync_def file_Close_def by (intro quiet_intros)+

lemma quiet_mkdirs [quiet_intros]: "quiet (mkdirs perm cur rest)"
proof (induction rest arbitrary: cur)
  case (Cons x xs)
  show ?case
    unfolding mkdirs.simps Let_def
    by (intro quiet_bnd quiet_sys Cons.IH quiet_fun)
       (use quiet_create_node in \<open>auto simp: quiet_def ret_def throw_def followed_def split: walked.split node.split\<close>)
qed (simp add: quiet_basic)

lemma quiet_MkdirAll [quiet_intros]: "quiet (os_MkdirAll p perm)"
  unfolding os_MkdirAll_def by (rule quiet_mkdirs)

lemma quiet_new_file: "quiet (new_file p perm)"
  by (rule quiet_fun)
     (use quiet_create_node in \<open>auto simp: new_file_def quiet_def bnd_def ret_def split: prod.splits outcome.splits\<close>, metis snd_conv)+

lemma quiet_open_existing: "quiet (open_existing p m n)"
  unfolding open_existing_def
  by (auto intro!: quiet_intros split: open_mode.split node.split)
     (auto simp: quiet_def set_node_def modify_def bnd_def ret_def)

lemma quiet_OpenFile [quiet_intros]: "quiet (os_OpenFile p m)" "quiet (os_Open p)"
  unfolding os_Open_def os_OpenFile_def
  by (intro quiet_sys quiet_fun;
      use quiet_new_file quiet_open_existing in \<open>auto simp: quiet_def throw_def followed_def split: walked.split open_mode.split\<close>)+

section \<open>Methods\<close>

lemma quiet_checkComponents [quiet_intros]: "quiet (checkComponents p key cur cs)"
  by (induction cs arbitrary: cur) (auto intro!: quiet_intros)

lemma quiet_pathFor [quiet_intros]: "quiet (pathFor p ref)"
  unfolding pathFor_def Let_def by (intro quiet_intros)

lemma quiet_Stat [quiet_intros]: "quiet (Stat p ref)"
  unfolding Stat_def by (intro quiet_intros)

lemma quiet_checkOwner [quiet_intros]: "quiet (checkOwner p pr)"
  unfolding checkOwner_def by (intro quiet_intros)

lemma quiet_commitSync [quiet_intros]: "quiet (commitSync p ref path info dur)"
  unfolding commitSync_def syncFile_def syncDirectory_def syncHandle_def Let_def by (intro quiet_intros)

lemma quiet_statOrCreate [quiet_intros]: "quiet (statOrCreate p req path)"
  unfolding statOrCreate_def createResource_def Let_def by (intro quiet_intros)

lemma quiet_inferResourceType [quiet_intros]: "quiet (inferResourceType p req info)"
  unfolding inferResourceType_def by (intro quiet_intros)

section \<open>Events\<close>

definition emitted :: "StorageEvent \<Rightarrow> (64 word, subscription) gomap \<Rightarrow> (64 word, subscription) gomap" where
  "emitted e = map (\<lambda>(i, s). (i, if length (sub_queue s) < subscriptionCap
                                  then s\<lparr>sub_queue := sub_queue s @ [e]\<rparr> else s))"

lemma prov_emit_eq: "prov_emit e w = (Ok (), w\<lparr>subs := emitted e (subs w)\<rparr>)"
  by (simp add: prov_emit_def modify_def emitted_def)

lemma mget_emitted:
  "mget (emitted e ss) i = map_option (\<lambda>s. if length (sub_queue s) < subscriptionCap
      then s\<lparr>sub_queue := sub_queue s @ [e]\<rparr> else s) (mget ss i)"
  unfolding emitted_def by (induction ss) auto

end
