(* ===== verification/Storage_Lifecycle_Properties.thy ===== *)
theory Storage_Lifecycle_Properties
  imports Storage_Transfer_Properties Storage_Quiet Storage_Operation_Facts
begin

text \<open>
  The life of prepared storage: \<open>Prepare\<close>, \<open>MarkDirty\<close>, \<open>Commit\<close> and \<open>Release\<close> with the dirty table,
  the events that subscribers get, generations, and the asynchronous variants.
\<close>

section \<open>Preparing\<close>

definition prep_frame :: "bool \<Rightarrow> fsys \<Rightarrow> path \<Rightarrow> fsys \<Rightarrow> bool" where
  "prep_frame create F q g \<longleftrightarrow>
     fs_wf g \<and> (g = F \<or> create \<and> mget F q = None \<and> copy_frame F q g)"

lemma prep_frame_refl: "fs_wf F \<Longrightarrow> prep_frame create F q F"
  by (simp add: prep_frame_def)

lemma ft_createResource:
  assumes "fs_wf F" "fresh F q" "req_Create req"
  shows "ftriple c (\<lambda>fs. fs = F) (createResource p req q)
    (\<lambda>_ g. prep_frame (req_Create req) F q g \<and> mget g q \<noteq> None \<and> no_link g q)
    (\<lambda>e g. prep_frame (req_Create req) F q g)" (is "ftriple c _ _ ?Q ?E")
proof -
  have fr: "no_link F q" "q \<noteq> []" "mget F q = None" using assms(2) by (auto simp: fresh_def)
  have ext: "prep_frame (req_Create req) F q G" if "fs_wf G" "mkdir_ext q pm F G" for G pm
    using that mkdir_copy_frame_dst assms(3) fr(3) by (auto simp: prep_frame_def)
  have ext': "prep_frame (req_Create req) F q G" if "fs_wf G" "mkdir_ext (butlast q) pm F G" for G pm
    using that mkdir_copy_frame [OF _ fr(2)] assms(3) fr(3) by (auto simp: prep_frame_def)
  have dir: "ftriple c (\<lambda>fs. fs = F) (wrapErr f (os_MkdirAll q 488)) ?Q ?E" for f
    by (rule ft_wrapErr, rule ft_conseq [OF ft_MkdirAll [OF assms(1) fr(1)]])
       (use ext mkdir_ext_no_link [OF _ fr(1)] in auto)
  have opn: "ftriple c (\<lambda>fs. fs = G) (bnd (wrapErr f (os_OpenFile q (O_CREATE_EXCL 384))) (\<lambda>_. wrapErr f file_Close)) ?Q ?E"
    if G: "fs_wf G" "mkdir_ext (butlast q) 488 F G" "mget G (butlast q) = Some (Dir pm)" for G pm f
  proof -
    have none: "mget G q = None"
      using fr(2,3) mkdir_ext_outside [OF G(2), of q] not_prefix_butlast [OF fr(2), of "last q"] by simp
    have new: "?Q () g" if "has_file G q pm' cnt g" for g pm' cnt
    proof -
      have eq: "mget g r = mget G r" if "r \<noteq> q" for r using \<open>has_file G q pm' cnt g\<close> that by (simp add: has_file_def same_except_def)
      have nl: "no_link G q" by (rule mkdir_ext_no_link [OF G(2) fr(1)])
      have "mget g r \<noteq> Some Symlink" if "prefix r q" for r
        using nl that eq [of r] has_file_node [OF \<open>has_file G q pm' cnt g\<close>] by (cases "r = q") (auto simp: no_link_def)
      then have "no_link g q" by (simp add: no_link_def)
      moreover have "copy_frame F q g"
        by (rule copy_frame_file [OF mkdir_copy_frame [OF G(2) fr(2)] that])
      ultimately show ?thesis using that assms(3) fr(3) by (auto simp: prep_frame_def has_file_def)
    qed
    show ?thesis
    proof (rule ft_seq_wrap [OF ft_OpenFile_new [OF G(1) none G(3) fr(2), of "O_CREATE_EXCL 384" 384]])
      show "ftriple c (\<lambda>fs. h = At q \<and> has_file G q 384 [] fs) (wrapErr f file_Close) ?Q ?E" for h
        by (rule ft_wrapErr, rule ft_nop) (use new in auto)
    qed (use ext' [OF G(1,2)] in auto)
  qed
  have file_case: "ftriple c (\<lambda>fs. fs = F) (bnd (wrapErr f (os_MkdirAll (butlast q) 488)) (\<lambda>_.
      bnd (wrapErr f (os_OpenFile q (O_CREATE_EXCL 384))) (\<lambda>_. wrapErr f file_Close))) ?Q ?E" for f
  proof (rule ft_seq_wrap [OF ft_MkdirAll [OF assms(1) no_link_butlast [OF fr(1)]]])
    show "ftriple c (\<lambda>fs. fs_wf fs \<and> mkdir_ext (butlast q) 488 F fs \<and> (\<exists>pm. mget fs (butlast q) = Some (Dir pm)))
        (bnd (wrapErr f (os_OpenFile q (O_CREATE_EXCL 384))) (\<lambda>_. wrapErr f file_Close)) ?Q ?E" for x
      by (rule ft_start) (use opn in blast)
  qed (use ext' in blast)
  show ?thesis
    unfolding createResource_def Let_def
    using dir file_case prep_frame_refl [OF assms(1)] by (auto intro: ft_throw)
qed

lemma ft_statOrCreate:
  assumes "fs_wf F" "clear F q" "q \<noteq> []"
  shows "ftriple c (\<lambda>fs. fs = F) (statOrCreate p req q)
    (\<lambda>info g. prep_frame (req_Create req) F q g \<and> (\<exists>n m. mget g q = Some n \<and> info = node_info m n))
    (\<lambda>e g. prep_frame (req_Create req) F q g)" (is "ftriple c _ _ ?Q ?E")
  unfolding statOrCreate_def Let_def
proof (rule ft_seq_attempt [OF ft_Stat [OF assms(1) clear_walk [OF assms(2)] clear_node [OF assms(2)]]], goal_cases)
  case (1 info)
  show ?case using prep_frame_refl [OF assms(1)] by (auto intro!: ft_ret)
next
  case (2 e)
  have fresh: "fresh F q" if "mget F q = None"
    using that assms clear_dir_path [OF assms] by (simp add: fresh_def clear_def)
  have again: "ftriple c (\<lambda>g. prep_frame (req_Create req) F q g \<and> mget g q \<noteq> None \<and> no_link g q)
      (wrapErr f (os_Stat q)) ?Q ?E" for f
  proof (rule ft_start, rule ft_wrapErr)
    fix g assume g: "prep_frame (req_Create req) F q g \<and> mget g q \<noteq> None \<and> no_link g q"
    then have "fs_wf g" "walk g [] q \<noteq> Through" "mget g q \<noteq> Some Symlink"
      using no_link_walk by (auto simp: prep_frame_def no_link_def)
    from ft_Stat [OF this] show "ftriple c (\<lambda>fs. fs = g) (os_Stat q) ?Q (\<lambda>e. ?E (f e))"
      by (rule ft_conseq) (use g in auto)
  qed
  have make: "ftriple c (\<lambda>fs. fs = F) (bnd (createResource p req q) (\<lambda>_. wrapErr f (os_Stat q))) ?Q ?E"
    if "req_Create req" "mget F q = None" for f
    by (rule ft_seq [OF ft_createResource [OF assms(1) fresh [OF that(2)] that(1)] _ again]) auto
  have "ftriple c (\<lambda>fs. fs = F) (if \<not> errors_Is e (OS ErrNotExist) then throw (wrapAs p ErrStat (Ref_String (req_Ref req)) e)
      else if \<not> req_Create req then throw (wrapAs p storage_kind.ErrNotFound (Ref_String (req_Ref req)) e)
      else bnd (createResource p req q) (\<lambda>_. wrapErr (wrapAs p ErrStat (Ref_String (req_Ref req))) (os_Stat q))) ?Q ?E"
    if "look_fails c F q e"
    using that make prep_frame_refl [OF assms(1)] clear_missing [OF assms(1,2)]
    by (auto simp: look_fails_def intro: ft_throw)
  then show ?case by (cases "look_fails c F q e") (auto simp: ftriple_def)
qed

text \<open>\<open>Prepare\<close> up to the event it emits.\<close>

definition prepareObject :: "Provider \<Rightarrow> PrepareRequest \<Rightarrow> Prepared io" where
  "prepareObject p req =
     bnd ctx_Err (\<lambda>_.
     let mode = (if req_Mode req = '''' then PrepareDirect else req_Mode req) in
     if mode \<noteq> PrepareDirect then throw (nameErr p storage_kind.ErrUnsupportedMode mode)
     else
       bnd (pathFor p (req_Ref req)) (\<lambda>path.
       bnd (statOrCreate p req path) (\<lambda>info.
       bnd (check (map_option (wrapAs p ErrInvalidResourceType (Ref_String (req_Ref req)))
                    (validateResourceType (req_ResourceType req) info))) (\<lambda>_.
       bnd (inferResourceType p req info) (\<lambda>rt.
       bnd (Stat p (req_Ref req)) (\<lambda>oi.
       bnd newUUID (\<lambda>i.
       ret \<lparr>pr_ID = i, pr_Ref = req_Ref req, pr_BaseGeneration = oi_Generation oi,
                 pr_NodeID = req_NodeID req, pr_AccessMode = req_AccessMode req, pr_Mode = mode,
                 pr_ResourceType = rt, pr_Ownership = OwnershipExternal,
                 pr_Location = \<lparr>loc_Kind = LocationPath, loc_Value = fullPath p path\<rparr>\<rparr>)))))))"

lemma quiet_prepareObject: "quiet (prepareObject p req)"
  unfolding prepareObject_def Let_def by (intro quiet_intros)

lemma bnd_simps: "bnd (throw e) f = throw e" "bnd (ret x) f = f x"
  "bnd (if b then m else n) f = (if b then bnd m f else bnd n f)"
  by (auto simp: fun_eq_iff bnd_def throw_def ret_def)

lemma Prepare_eq:
  "Prepare p req = bnd (prepareObject p req) (\<lambda>pr.
     bnd (prov_emit (prepared_event EventPrepared pr (pr_BaseGeneration pr))) (\<lambda>_. ret pr))"
  by (simp add: Prepare_def prepareObject_def Let_def bnd_assoc bnd_simps)

fun has_type :: "node \<Rightarrow> ResourceType \<Rightarrow> bool" where
  "has_type (File _ _ _) rt \<longleftrightarrow> rt = ResourceTypeFile"
| "has_type (Dir _) rt \<longleftrightarrow> rt = ResourceTypeDirectory"
| "has_type _ rt \<longleftrightarrow> False"

fun node_generation :: "node \<Rightarrow> Generation" where
  "node_generation (File _ c t) = show_int t @ '':'' @ show_nat (length c)"
| "node_generation _ = ''''"

lemma stat_generation: "stat_of ref n oi \<Longrightarrow> oi_Generation oi = node_generation n"
  by (cases n) (auto simp: stat_of_def)

text \<open>What a prepared handle says about the request and the object.\<close>

definition prepared_for :: "Provider \<Rightarrow> PrepareRequest \<Rightarrow> node \<Rightarrow> Prepared \<Rightarrow> bool" where
  "prepared_for p req n pr \<longleftrightarrow>
     pr_Ref pr = req_Ref req \<and> pr_NodeID pr = req_NodeID req \<and> pr_AccessMode pr = req_AccessMode req \<and>
     pr_Mode pr = PrepareDirect \<and> pr_Ownership pr = OwnershipExternal \<and>
     pr_Location pr = \<lparr>loc_Kind = LocationPath, loc_Value = fullPath p (ref_path (req_Ref req))\<rparr> \<and>
     has_type n (pr_ResourceType pr) \<and> (req_ResourceType req \<noteq> '''' \<longrightarrow> pr_ResourceType pr = req_ResourceType req) \<and>
     pr_BaseGeneration pr = node_generation n"

lemma resource_type_ok:
  assumes "validateResourceType (req_ResourceType req) (node_info m n) = None" "n \<noteq> Symlink" "q \<noteq> []"
  shows "(\<exists>e. inferResourceType p req (node_info m n) = throw e) \<or>
    (\<exists>rt. inferResourceType p req (node_info m n) = ret rt \<and> has_type n rt \<and>
       (req_ResourceType req \<noteq> '''' \<longrightarrow> rt = req_ResourceType req))"
  using assms(1,2)
  by (cases m; cases n) (auto simp: validateResourceType_def inferResourceType_def split: if_splits)

lemma ft_prepareObject:
  fixes req :: PrepareRequest
  assumes "fs_wf F"
  defines "q \<equiv> ref_path (req_Ref req)"
  shows "ftriple c (\<lambda>fs. fs = F) (prepareObject p req)
    (\<lambda>pr g. prep_frame (req_Create req) F q g \<and> valid_ref p (req_Ref req) \<and> (\<exists>n. mget g q = Some n \<and> prepared_for p req n pr))
    (\<lambda>e g. prep_frame (req_Create req) F q g)" (is "ftriple c _ _ ?Q ?E")
proof (cases "req_Mode req = '''' \<or> req_Mode req = PrepareDirect")
  case False
  then show ?thesis unfolding prepareObject_def Let_def
    by (intro ft_bnd [OF ft_ctx_Err [where Q = "\<lambda>_ fs. fs = F"]])
       (auto intro!: ft_throw simp: prep_frame_refl [OF assms(1)])
next
  case True
  let ?mk = "\<lambda>rt oi i. \<lparr>pr_ID = i, pr_Ref = req_Ref req, pr_BaseGeneration = oi_Generation oi,
                 pr_NodeID = req_NodeID req, pr_AccessMode = req_AccessMode req, pr_Mode = PrepareDirect,
                 pr_ResourceType = rt, pr_Ownership = OwnershipExternal,
                 pr_Location = \<lparr>loc_Kind = LocationPath, loc_Value = fullPath p q\<rparr>\<rparr>"
  let ?stat = "\<lambda>rt. bnd (Stat p (req_Ref req)) (\<lambda>oi. bnd newUUID (\<lambda>i. ret (?mk rt oi i)))"
  let ?rest = "\<lambda>info. bnd (check (map_option (wrapAs p ErrInvalidResourceType (Ref_String (req_Ref req)))
      (validateResourceType (req_ResourceType req) info))) (\<lambda>_. bnd (inferResourceType p req info) ?stat)"
  have fin: "ftriple c (\<lambda>fs. fs = g) (?stat rt) ?Q ?E"
    if g: "prep_frame (req_Create req) F q g" "mget g q = Some n" "has_type n rt"
      "req_ResourceType req \<noteq> '''' \<longrightarrow> rt = req_ResourceType req" for g n rt
  proof (rule ft_seq [OF ft_StatM])
    show "fs_wf g" using g(1) by (simp add: prep_frame_def)
    show "ftriple c (\<lambda>fs. fs = g \<and> valid_ref p (req_Ref req) \<and> (\<exists>n. mget g (ref_path (req_Ref req)) = Some n \<and> stat_of (req_Ref req) n oi))
        (bnd newUUID (\<lambda>i. ret (?mk rt oi i))) ?Q ?E" for oi
      using g stat_generation [of "req_Ref req" n oi]
      by (auto simp: ftriple_def newUUID_def bnd_def ret_def same_env_def q_def prepared_for_def)
  qed (use g in auto)
  have rty: "ftriple c (\<lambda>fs. fs = g) (?rest (node_info m n)) ?Q ?E"
    if g: "prep_frame (req_Create req) F q g" "mget g q = Some n" "n \<noteq> Symlink" "q \<noteq> []" for g m n
  proof (cases "validateResourceType (req_ResourceType req) (node_info m n)")
    case None
    with resource_type_ok [OF None g(3,4), of p] fin [OF g(1,2)] g(1) show ?thesis
      by (auto simp: check_def bnd_simps intro: ft_throw)
  qed (use g(1) in \<open>auto simp: check_def bnd_simps intro: ft_throw\<close>)
  have body: "ftriple c (\<lambda>fs. fs = F) (bnd (statOrCreate p req q) ?rest) ?Q ?E"
    if "clear F q" "q \<noteq> []"
  proof (rule ft_seq [OF ft_statOrCreate [OF assms(1) that]])
    show "ftriple c (\<lambda>g. prep_frame (req_Create req) F q g \<and> (\<exists>n m. mget g q = Some n \<and> info = node_info m n)) (?rest info) ?Q ?E" for info
    proof (rule ft_start)
      fix g assume g: "prep_frame (req_Create req) F q g \<and> (\<exists>n m. mget g q = Some n \<and> info = node_info m n)"
      then obtain n m where n: "mget g q = Some n" "info = node_info m n" by blast
      show "ftriple c (\<lambda>fs. fs = g) (?rest info) ?Q ?E"
      proof (cases "n = Symlink")
        case True
        then show ?thesis using g n(2)
          by (cases m) (auto simp: validateResourceType_def inferResourceType_def check_def bnd_simps intro!: ft_throw)
      qed (use rty [of g n m] g n that(2) in simp)
    qed
  qed auto
  have mode: "(if req_Mode req = '''' then PrepareDirect else req_Mode req) = PrepareDirect" using True by auto
  show ?thesis
    unfolding prepareObject_def Let_def mode
    by (rule ft_bnd [OF ft_ctx_Err [where Q = "\<lambda>_ fs. fs = F"]], simp, simp add: prep_frame_refl [OF assms(1)],
        simp only: not_True_eq_False if_False refl, rule ft_pathFor_then [OF assms(1)], fold q_def, rule body)
       (use valid_ref_safe [of p "req_Ref req"] prep_frame_refl [OF assms(1)] in \<open>auto simp: q_def safe_path_def\<close>)
qed

text \<open>The whole run of \<open>Prepare\<close>.\<close>

lemma Prepare_run:
  assumes "fs_wf (files w)" "honest w" "Prepare p req w = (r, w')"
  shows "r \<noteq> Diverges \<and> same_env w w' \<and> dirty w' = dirty w \<and>
    prep_frame (req_Create req) (files w) (filepath_Clean (ref_Key (req_Ref req))) (files w') \<and>
    (\<forall>pr. r = Ok pr \<longrightarrow> subs w' = emitted (prepared_event EventPrepared pr (pr_BaseGeneration pr)) (subs w) \<and>
       valid_ref p (req_Ref req) \<and>
       (\<exists>n. mget (files w') (filepath_Clean (ref_Key (req_Ref req))) = Some n \<and> prepared_for p req n pr)) \<and>
    (\<forall>e. r = Err e \<longrightarrow> subs w' = subs w)"
proof -
  obtain r1 w1 where o: "prepareObject p req w = (r1, w1)" by force
  note d = ftripleD [OF ft_prepareObject [OF assms(1), of False p req] assms(2) _ _ o, simplified]
  note q = quietD [OF quiet_prepareObject o]
  show ?thesis
  proof (cases r1)
    case (Ok pr)
    then have "r = Ok pr" "w' = w1\<lparr>subs := emitted (prepared_event EventPrepared pr (pr_BaseGeneration pr)) (subs w1)\<rparr>"
      using assms(3) o by (simp_all add: Prepare_eq bnd_def prov_emit_eq ret_def)
    with Ok d(1,2) q show ?thesis by (auto simp: same_env_def)
  next
    case (Err e)
    then have "r = Err e" "w' = w1" using assms(3) o by (simp_all add: Prepare_eq bnd_def)
    with Err d(1,3) q show ?thesis by (simp add: same_env_def)
  qed (use d(4) in simp)
qed

text \<open>\<open>Prepare\<close> hands out an object that is there: on success the handle carries the reference,
  node and access of the request, the full path, the type of the object (the requested one, if one
  was requested) and its present generation, and each subscriber with room in its buffer gets one
  prepared event. The tree is unchanged unless creation was asked for and the object was missing;
  then only the object and missing parent directories are new. No existing object, dirty mark or
  (on failure) subscriber is touched.\<close>

theorem Prepare_hands_out:
  assumes "fs_wf (files w)" "honest w" "Prepare p req w = (r, w')"
  shows "r \<noteq> Diverges \<and> outside w' = outside w \<and> dirty w' = dirty w \<and>
    prep_frame (req_Create req) (files w) (filepath_Clean (ref_Key (req_Ref req))) (files w') \<and>
    (\<forall>pr. r = Ok pr \<longrightarrow> subs w' = emitted (prepared_event EventPrepared pr (pr_BaseGeneration pr)) (subs w) \<and>
       (\<exists>n. mget (files w') (filepath_Clean (ref_Key (req_Ref req))) = Some n \<and> prepared_for p req n pr)) \<and>
    (\<forall>e. r = Err e \<longrightarrow> subs w' = subs w)"
  using Prepare_run [OF assms] by (auto simp: same_env_def)

definition demo_request :: PrepareRequest where
  "demo_request = \<lparr>req_Ref = demo_ref ''f'', req_NodeID = ''n1'', req_AccessMode = AccessReadWrite, req_Mode = '''',
     req_ResourceType = '''', req_Create = False\<rparr>"

theorem Prepare_hands_out_witness:
  "files (snd (Prepare demo_prov demo_request (demo_world demo_tree))) = demo_tree"
  using Prepare_hands_out [of "demo_world demo_tree" demo_prov demo_request, OF _ _ prod.collapse [symmetric]]
  by (simp add: prep_frame_def demo_request_def)

section \<open>The dirty table\<close>

text \<open>Marking is refused for a handle of another provider and for read-only access, and
  otherwise succeeds, is recorded, and is announced once: marking again changes nothing and emits
  nothing. Releasing always forgets the mark, announces the release, and never touches a file.\<close>

theorem MarkDirty_Release:
  assumes "calm w" "ref_Provider (pr_Ref pr) = prov_name p" "pr_AccessMode pr \<noteq> AccessReadOnly"
  defines "w1 \<equiv> snd (MarkDirty p (Some pr) w)"
  shows "fst (MarkDirty p (Some pr) w) = Ok () \<and> mget (dirty w1) (pr_ID pr) = Some True \<and> files w1 = files w \<and>
    (\<forall>i. i \<noteq> pr_ID pr \<longrightarrow> mget (dirty w1) i = mget (dirty w) i) \<and>
    subs w1 = (if mget (dirty w) (pr_ID pr) = Some True then subs w
               else emitted (prepared_event EventDirty pr '''') (subs w)) \<and>
    (\<exists>w2. MarkDirty p (Some pr) w1 = (Ok (), w2) \<and> mget (dirty w2) = mget (dirty w1) \<and> subs w2 = subs w1) \<and>
    (\<exists>w3. Release p (Some pr) w1 = (Ok (), w3) \<and> mget (dirty w3) (pr_ID pr) = None \<and> files w3 = files w \<and>
       subs w3 = emitted (prepared_event EventReleased pr '''') (subs w1)) \<and>
    (ref_Provider (pr_Ref qr) \<noteq> prov_name p \<or> pr_AccessMode qr = AccessReadOnly \<longrightarrow>
       (\<exists>e w4. MarkDirty p (Some qr) w = (Err e, w4) \<and> dirty w4 = dirty w \<and> subs w4 = subs w \<and>
         (errors_Is e (StorageKind ErrProviderMismatch) \<or> errors_Is e (StorageKind storage_kind.ErrInvalidOptions))))"
proof -
  note defs = MarkDirty_def Release_def checkOwner_def bnd_def gets_def modify_def ret_def prov_emit_eq
  have w1: "MarkDirty p (Some pr) w = (Ok (), w1)"
    "w1 = w\<lparr>ticks := ticks w + 1, dirty := mput (pr_ID pr) True (dirty w),
       subs := (if mget (dirty w) (pr_ID pr) = Some True then subs w
               else emitted (prepared_event EventDirty pr '''') (subs w))\<rparr>"
    using assms(1-3) by (auto simp: w1_def defs calm_ctx_Err)
  then have "calm w1" using assms(1) by (simp add: calm_def)
  then have "MarkDirty p (Some pr) w1 = (Ok (), w1\<lparr>ticks := ticks w1 + 1, dirty := mput (pr_ID pr) True (dirty w1)\<rparr>)"
    "Release p (Some pr) w1 = (Ok (), w1\<lparr>ticks := ticks w1 + 1, dirty := mdel (pr_ID pr) (dirty w1),
       subs := emitted (prepared_event EventReleased pr '''') (subs w1)\<rparr>)"
    using assms(2,3) w1(2) by (simp_all add: defs calm_ctx_Err)
  moreover have "\<exists>e w4. MarkDirty p (Some qr) w = (Err e, w4) \<and> dirty w4 = dirty w \<and> subs w4 = subs w \<and>
      (errors_Is e (StorageKind ErrProviderMismatch) \<or> errors_Is e (StorageKind storage_kind.ErrInvalidOptions))"
    if "ref_Provider (pr_Ref qr) \<noteq> prov_name p \<or> pr_AccessMode qr = AccessReadOnly"
    using that assms(1) by (auto simp: defs calm_ctx_Err throw_def nameErr_def)
  ultimately show ?thesis using w1 by (simp add: fun_eq_iff)
qed

definition demo_prepared :: Prepared where
  "demo_prepared = \<lparr>pr_ID = ''id'', pr_Ref = demo_ref ''f'', pr_BaseGeneration = ''5:1'', pr_NodeID = ''n1'',
     pr_AccessMode = AccessReadWrite, pr_Mode = PrepareDirect, pr_ResourceType = ResourceTypeFile,
     pr_Ownership = OwnershipExternal, pr_Location = \<lparr>loc_Kind = LocationPath, loc_Value = ''/srv/f''\<rparr>\<rparr>"

theorem MarkDirty_Release_witness:
  "\<exists>w3. Release demo_prov (Some demo_prepared) (snd (MarkDirty demo_prov (Some demo_prepared) (demo_world demo_tree))) = (Ok (), w3) \<and>
     mget (dirty w3) ''id'' = None \<and> files w3 = demo_tree"
  using MarkDirty_Release [of "demo_world demo_tree" demo_prepared demo_prov]
  by (auto simp: demo_prepared_def demo_prov_def)

section \<open>Committing\<close>

lemma ft_OpenFile_write:
  assumes "fs_wf F" "clear F q"
  shows "ftriple c (\<lambda>fs. fs = F) (os_OpenFile q O_WRONLY) (\<lambda>_ fs. fs = F) (\<lambda>_ fs. fs = F)"
  unfolding os_OpenFile_def
proof (rule ft_sys)
  have "walk F [] q \<noteq> Found Symlink" "walk F [] q \<noteq> Through"
    using assms clear_walk clear_node by (auto simp: walk_Found_iff)
  then show "ftriple c (\<lambda>fs. fs = F) (\<lambda>w. case walk (files w) [] q of
       Found n \<Rightarrow> open_existing q O_WRONLY n w
     | Missing \<Rightarrow> (case O_WRONLY of
            O_CREATE_EXCL perm \<Rightarrow> new_file q perm w
          | O_CREATE_TRUNC perm \<Rightarrow> new_file q perm w
          | _ \<Rightarrow> throw (os_err ErrNotExist) w)
     | NotDir \<Rightarrow> throw (os_err ENOTDIR) w
     | Through \<Rightarrow> followed q w) (\<lambda>_ fs. fs = F) (\<lambda>_ fs. fs = F)"
    by (auto simp: ftriple_def open_existing_def throw_def ret_def split: walked.split node.split)
qed auto

lemma ft_syncHandle: "ftriple c (\<lambda>fs. fs = F) syncHandle (\<lambda>_ fs. fs = F) (\<lambda>_ fs. fs = F)"
  unfolding syncHandle_def
proof (rule ft_bnd)
  show "ftriple c (\<lambda>fs. fs = F) (attempt file_Sync) (\<lambda>_ fs. fs = F) (\<lambda>_ fs. fs = F)"
    by (rule ft_attempt, rule ft_nop) auto
  have close: "ftriple c (\<lambda>fs. fs = F) (attempt file_Close) (\<lambda>_ fs. fs = F) (\<lambda>_ fs. fs = F)"
    by (rule ft_attempt, rule ft_nop) auto
  show "ftriple c (\<lambda>fs. fs = F) (case r of Inr _ \<Rightarrow> file_Close
     | Inl e \<Rightarrow> bnd (attempt file_Close) (\<lambda>c. throw (the_join [Some e, failed c]))) (\<lambda>_ fs. fs = F) (\<lambda>_ fs. fs = F)" for r :: "gerror + unit"
    by (cases r) (auto intro: ft_bnd [OF close] ft_throw ft_nop)
qed

lemma ft_commitSync:
  assumes "fs_wf F" "clear F q" "mget F q \<noteq> None" "q \<noteq> []"
  shows "ftriple c (\<lambda>fs. fs = F) (commitSync p ref q info dur) (\<lambda>_ fs. fs = F) (\<lambda>_ fs. fs = F)"
proof -
  let ?ok = "\<lambda>m :: unit io. ftriple c (\<lambda>fs. fs = F) m (\<lambda>_ fs. fs = F) (\<lambda>_ fs. fs = F)"
  have file1: "?ok (wrapErr g (syncFile q))" for g
    unfolding syncFile_def by (intro ft_wrapErr ft_bnd [OF ft_OpenFile_write [OF assms(1,2)]] ft_syncHandle)
  obtain n where n: "mget F q = Some n" using assms(3) by auto
  have "strict_prefix (butlast q) q" using prefix_butlast_strict [OF _ assms(4), of "butlast q"] by simp
  from wf_strict_prefix [OF assms(1) n this] obtain pm where "mget F (butlast q) = Some (Dir pm)" by blast
  note opn = ft_conseq [OF ft_Open_existing [OF assms(1) this, of c], where Q' = "\<lambda>_ fs. fs = F" and E' = "\<lambda>_ fs. fs = F"]
  have dir1: "?ok (wrapErr g (syncDirectory (butlast q)))" for g
    unfolding syncDirectory_def by (intro ft_wrapErr ft_bnd [OF opn] ft_syncHandle) auto
  have both: "?ok (bnd (wrapErr g (syncFile q)) (\<lambda>_. wrapErr g (syncDirectory (butlast q))))" for g
    by (rule ft_bnd [OF file1 dir1])
  have none: "?ok (bnd (ret ()) (\<lambda>_. wrapErr g (syncDirectory (butlast q))))" for g
    using dir1 by (simp add: bnd_simps)
  show ?thesis
    unfolding commitSync_def Let_def using file1 both none by (auto intro: ft_ret ft_throw)
qed

text \<open>\<open>Commit\<close> up to the change of the dirty table.\<close>

definition commitObject :: "Provider \<Rightarrow> Prepared \<Rightarrow> CommitOptions \<Rightarrow> ObjectInfo io" where
  "commitObject p pr opts =
     (let ref = pr_Ref pr in
     bnd (pathFor p ref) (\<lambda>path.
     bnd (wrapErr (notFoundOr p ErrStat (Ref_String ref)) (os_Lstat path)) (\<lambda>info.
     if fi_kind info = KSymlink then throw (nameErr p ErrInvalidRef (Ref_String ref))
     else
       bnd (if com_ExpectedGeneration opts = '''' then ret ()
            else bnd (Stat p ref) (\<lambda>current.
              if oi_Generation current \<noteq> com_ExpectedGeneration opts
              then throw (nameErr p ErrConflict (Ref_String ref)) else ret ())) (\<lambda>_.
       bnd (commitSync p ref path info (com_Durability opts)) (\<lambda>_. Stat p ref)))))"

lemma quiet_commitObject: "quiet (commitObject p pr opts)"
  unfolding commitObject_def Let_def by (intro quiet_intros)

lemma Commit_eq:
  "Commit p prepared opts =
     bnd ctx_Err (\<lambda>_. bnd (checkOwner p prepared) (\<lambda>pr.
     bnd (commitObject p pr opts) (\<lambda>oi.
     bnd (modify (\<lambda>w. w\<lparr>dirty := mdel (pr_ID pr) (dirty w)\<rparr>)) (\<lambda>_.
     bnd (prov_emit (prepared_event EventCommitted pr (oi_Generation oi))) (\<lambda>_.
     ret \<lparr>com_Object = oi\<rparr>)))))"
  by (simp add: Commit_def commitObject_def Let_def bnd_assoc bnd_simps cong: if_cong)

definition conflicts :: "node \<Rightarrow> CommitOptions \<Rightarrow> bool" where
  "conflicts n opts \<longleftrightarrow> com_ExpectedGeneration opts \<noteq> '''' \<and> com_ExpectedGeneration opts \<noteq> node_generation n"

lemma ft_expect:
  assumes "fs_wf F" "mget F (ref_path ref) = Some n" "valid_ref p ref" "clear F (ref_path ref)"
  shows "ftriple c (\<lambda>fs. fs = F) (if com_ExpectedGeneration opts = '''' then ret ()
      else bnd (Stat p ref) (\<lambda>current.
        if oi_Generation current \<noteq> com_ExpectedGeneration opts
        then throw (nameErr p ErrConflict (Ref_String ref)) else ret ()))
    (\<lambda>_ fs. fs = F \<and> \<not> conflicts n opts)
    (\<lambda>e fs. fs = F \<and> (c \<longrightarrow> errors_Is e (StorageKind ErrConflict)))" (is "ftriple c _ _ ?Q ?E")
proof (cases "com_ExpectedGeneration opts = ''''")
  case True
  then show ?thesis by (simp add: conflicts_def) (rule ft_ret)
next
  case False
  show ?thesis
    unfolding if_not_P [OF False]
  proof (rule ft_seq [OF ft_StatM [OF assms(1)]])
    show "?E e fs" if "fs = F \<and> (c \<longrightarrow> \<not> valid_ref p ref \<or> \<not> clear F (ref_path ref) \<or> mget F (ref_path ref) = None)" for e fs
      using that assms(2-4) by auto
    show "ftriple c (\<lambda>fs. fs = F \<and> valid_ref p ref \<and> (\<exists>n. mget F (ref_path ref) = Some n \<and> stat_of ref n oi))
        (if oi_Generation oi \<noteq> com_ExpectedGeneration opts then throw (nameErr p ErrConflict (Ref_String ref)) else ret ()) ?Q ?E" for oi
      using assms(2) False stat_generation [of ref n oi]
      by (auto simp: ftriple_def throw_def ret_def conflicts_def nameErr_def)
  qed
qed

lemma ft_commitObject:
  fixes pr :: Prepared
  assumes "fs_wf F"
  defines "q \<equiv> ref_path (pr_Ref pr)"
  shows "ftriple c (\<lambda>fs. fs = F) (commitObject p pr opts)
    (\<lambda>oi fs. fs = F \<and> valid_ref p (pr_Ref pr) \<and>
       (\<exists>n. mget F q = Some n \<and> \<not> conflicts n opts \<and> stat_of (pr_Ref pr) n oi))
    (\<lambda>e fs. fs = F \<and> (c \<and> valid_ref p (pr_Ref pr) \<and> clear F q \<longrightarrow>
       (\<forall>n. mget F q = Some n \<and> conflicts n opts \<longrightarrow> errors_Is e (StorageKind ErrConflict))))"
    (is "ftriple c _ _ ?Q ?E")
proof -
  let ?ref = "pr_Ref pr"
  let ?expect = "if com_ExpectedGeneration opts = '''' then ret ()
      else bnd (Stat p ?ref) (\<lambda>current.
        if oi_Generation current \<noteq> com_ExpectedGeneration opts
        then throw (nameErr p ErrConflict (Ref_String ?ref)) else ret ())"
  let ?rest = "\<lambda>info. bnd ?expect (\<lambda>_. bnd (commitSync p ?ref q info (com_Durability opts)) (\<lambda>_. Stat p ?ref))"
  have rest: "ftriple c (\<lambda>fs. fs = F) (?rest info) ?Q ?E"
    if v: "valid_ref p ?ref" "clear F q" "q \<noteq> []" "mget F q = Some n" for info n
  proof (rule ft_seq [OF ft_expect [OF assms(1)]])
    show "mget F (ref_path ?ref) = Some n" "valid_ref p ?ref" "clear F (ref_path ?ref)" using v by (auto simp: q_def)
    have stat: "ftriple c (\<lambda>fs. fs = F) (Stat p ?ref) ?Q ?E" if "\<not> conflicts n opts"
      by (rule ft_conseq [OF ft_StatM [OF assms(1)]]) (use v that in \<open>auto simp: q_def\<close>)
    have sync: "ftriple c (\<lambda>fs. fs = F) (commitSync p ?ref q info (com_Durability opts)) (\<lambda>_ fs. fs = F) ?E" if "\<not> conflicts n opts"
      by (rule ft_conseq [OF ft_commitSync [OF assms(1) v(2) _ v(3)]]) (use v that in auto)
    show "ftriple c (\<lambda>fs. fs = F \<and> \<not> conflicts n opts)
        (bnd (commitSync p ?ref q info (com_Durability opts)) (\<lambda>_. Stat p ?ref)) ?Q ?E" for x
    proof (cases "conflicts n opts")
      case False
      from ft_bnd [OF sync [OF False] stat [OF False]] show ?thesis by (auto intro: ft_pre)
    qed (simp add: ftriple_def)
  qed auto
  have "ftriple c (\<lambda>fs. fs = F) (bnd (pathFor p ?ref) (\<lambda>q. bnd (wrapErr (notFoundOr p ErrStat (Ref_String ?ref)) (os_Lstat q)) (\<lambda>info.
      if fi_kind info = KSymlink then throw (nameErr p ErrInvalidRef (Ref_String ?ref))
      else bnd ?expect (\<lambda>_. bnd (commitSync p ?ref q info (com_Durability opts)) (\<lambda>_. Stat p ?ref))))) ?Q ?E"
  proof (rule ft_pathFor_then [OF assms(1)], fold q_def)
    assume v: "valid_ref p ?ref" "clear F q"
    have ne: "q \<noteq> []" using valid_ref_safe [OF v(1)] by (simp add: q_def safe_path_def)
    show "ftriple c (\<lambda>fs. fs = F) (bnd (wrapErr (notFoundOr p ErrStat (Ref_String ?ref)) (os_Lstat q)) (\<lambda>info.
        if fi_kind info = KSymlink then throw (nameErr p ErrInvalidRef (Ref_String ?ref)) else ?rest info)) ?Q ?E"
    proof (rule ft_seq_wrap [OF ft_Lstat [OF assms(1) clear_walk [OF v(2)]]])
      show "ftriple c (\<lambda>fs. fs = F \<and> (\<exists>n m. mget F q = Some n \<and> info = node_info m n))
        (if fi_kind info = KSymlink then throw (nameErr p ErrInvalidRef (Ref_String ?ref)) else ?rest info) ?Q ?E" for info
      proof (cases "\<exists>n m. mget F q = Some n \<and> info = node_info m n")
        case True
        then obtain n m where n: "mget F q = Some n" "info = node_info m n" by blast
        then have "fi_kind info \<noteq> KSymlink" using clear_node [OF v(2)] by auto
        with rest [OF v ne n(1), of info] show ?thesis by (auto intro: ft_pre)
      qed (auto simp: ftriple_def)
    qed (auto simp: look_fails_def)
  qed auto
  then show ?thesis by (simp add: commitObject_def Let_def)
qed

text \<open>C15: a commit never overwrites a change it did not expect. It succeeds only if the object has
  the expected generation, if one was given; it then clears the dirty mark and announces the
  object's generation. When it fails, also because the generation differs (\<open>ErrConflict\<close>), the
  dirty marks and the subscribers are untouched. It never changes a file.\<close>

theorem Commit_checks_generation:
  assumes "fs_wf (files w)" "honest w" "Commit p (Some pr) opts w = (r, w')"
  defines "q \<equiv> filepath_Clean (ref_Key (pr_Ref pr))"
  shows "r \<noteq> Diverges \<and> files w' = files w \<and> outside w' = outside w \<and>
    (\<forall>res. r = Ok res \<longrightarrow> (\<exists>n. mget (files w) q = Some n \<and> \<not> conflicts n opts \<and> stat_of (pr_Ref pr) n (com_Object res) \<and>
       dirty w' = mdel (pr_ID pr) (dirty w) \<and>
       subs w' = emitted (prepared_event EventCommitted pr (node_generation n)) (subs w))) \<and>
    (\<forall>e. r = Err e \<longrightarrow> dirty w' = dirty w \<and> subs w' = subs w) \<and>
    (\<forall>n. calm w \<and> valid_ref p (pr_Ref pr) \<and> mget (files w) q = Some n \<and> n \<noteq> Symlink \<and> conflicts n opts \<longrightarrow>
       (\<exists>e. r = Err e \<and> errors_Is e (StorageKind ErrConflict)))"
proof -
  let ?w = "w\<lparr>ticks := ticks w + 1\<rparr>"
  consider e where "r = Err e" "w' = ?w" "ctx_Err w = (Err e, ?w) \<or> ref_Provider (pr_Ref pr) \<noteq> prov_name p"
    | r1 w1 where "commitObject p pr opts ?w = (r1, w1)" "r1 = Diverges \<longrightarrow> r = Diverges"
       "\<forall>e. r1 = Err e \<longrightarrow> r = Err e \<and> w' = w1"
       "\<forall>oi. r1 = Ok oi \<longrightarrow> r = Ok \<lparr>com_Object = oi\<rparr> \<and>
          w' = w1\<lparr>dirty := mdel (pr_ID pr) (dirty w1), subs := emitted (prepared_event EventCommitted pr (oi_Generation oi)) (subs w1)\<rparr>"
  proof (cases "ctx_err w (ticks w) = None \<and> ref_Provider (pr_Ref pr) = prov_name p")
    case True
    obtain r1 w1 where o: "commitObject p pr opts ?w = (r1, w1)" by force
    show ?thesis
      by (rule that(2) [OF o]) (use True o assms(3) in
        \<open>auto simp: Commit_eq bnd_def ctx_Err_def checkOwner_def Let_def ret_def modify_def prov_emit_eq\<close>)
  next
    case False
    show ?thesis
      by (rule that(1) [of "case r of Err e \<Rightarrow> e"]) (use False assms(3) in
        \<open>auto simp: Commit_eq bnd_def ctx_Err_def checkOwner_def Let_def ret_def throw_def split: option.splits if_splits\<close>)
  qed
  then show ?thesis
  proof cases
    case (1 e)
    then show ?thesis by (auto simp: ctx_Err_def calm_def valid_ref_def Let_def split: option.splits)
  next
    case (2 r1 w1)
    have h: "honest ?w" using assms(2) by (simp add: honest_def)
    note d = ftripleD [OF ft_commitObject [of "files w" False p pr opts] h _ _ 2(1), simplified, OF assms(1)]
    note c = ftripleD [OF ft_commitObject [of "files w" True p pr opts] h _ _ 2(1), simplified, OF assms(1)]
    note q = quietD [OF quiet_commitObject 2(1), simplified]
    have same: "outside w1 = outside w" using d(1) by (simp add: same_env_def)
    show ?thesis
    proof (cases r1)
      case (Ok oi)
      with 2(4) d(2) q same stat_generation [of "pr_Ref pr" _ oi] show ?thesis
        by (auto simp: q_def)
    next
      case (Err e)
      have "clear (files w) q" if "mget (files w) q = Some n" "n \<noteq> Symlink" for n
        by (rule clear_exists [OF assms(1) that])
      with Err 2(3) d(3) c(3) q same show ?thesis by (auto simp: q_def)
    qed (use d(4) in simp)
  qed
qed

theorem Commit_checks_generation_witness:
  "\<exists>e. fst (Commit demo_prov (Some demo_prepared) \<lparr>com_Durability = '''', com_ExpectedGeneration = ''4:1''\<rparr> (demo_world demo_tree)) = Err e \<and>
     errors_Is e (StorageKind ErrConflict)"
proof -
  have "conflicts (File 384 [3] 5) \<lparr>com_Durability = '''', com_ExpectedGeneration = ''4:1''\<rparr>"
    by code_simp
  moreover have "valid_ref demo_prov (demo_ref ''f'')" "mget demo_tree [''f''] = Some (File 384 [3] 5)"
    by (simp_all add: demo_tree_def)
  ultimately show ?thesis
    using Commit_checks_generation [of "demo_world demo_tree" demo_prov demo_prepared _ _ _, OF _ _ prod.collapse [symmetric]]
    by (simp add: demo_prepared_def)
qed

text \<open>The generation string determines modification time and size: two regular files have the
  same generation exactly if both agree, and only regular files have one.\<close>

theorem generation_determines:
  "(generationOf i = generationOf j \<and> fi_kind i = KRegular \<and> fi_kind j = KRegular \<longleftrightarrow>
     fi_mtime i = fi_mtime j \<and> fi_size i = fi_size j \<and> fi_kind i = KRegular \<and> fi_kind j = KRegular) \<and>
   (generationOf i = '''' \<longleftrightarrow> fi_kind i \<noteq> KRegular)"
proof -
  have "m = m' \<and> n = n'" if "show_int m @ CHR '':'' # show_nat n = show_int m' @ CHR '':'' # show_nat n'" for m m' n n'
  proof -
    have "takeWhile (\<lambda>c. c \<noteq> CHR '':'') (show_int a @ CHR '':'' # x) = show_int a" for a x
      using show_int_no_colon [of a] by (auto simp: takeWhile_tail)
    with that have "show_int m = show_int m'" by metis
    then have "m = m'" by (rule show_int_inj)
    moreover from this that have "show_nat n = show_nat n'" by simp
    then have "n = n'" by (rule show_nat_inj)
    ultimately show ?thesis ..
  qed
  then have key: "show_int m @ CHR '':'' # show_nat n = show_int m' @ CHR '':'' # show_nat n' \<longleftrightarrow> m = m' \<and> n = n'" for m m' n n'
    by blast
  show ?thesis
    by (cases "fi_kind i = KRegular"; cases "fi_kind j = KRegular") (simp_all add: generationOf_def key)
qed

section \<open>Asynchronous variants\<close>

lemma start_fields: "op_start h = Some h' \<Longrightarrow> op_finished h' = op_finished h"
  by (auto simp: op_start_def broadcastLocked_def split: if_splits Option.bind_splits)

lemma finish_fields:
  "op_finish err h = Some h' \<Longrightarrow>
     op_prepared h' = op_prepared h \<and> op_commit h' = op_commit h \<and> op_resultErr h' = op_resultErr h"
  by (auto simp: op_finish_def broadcastLocked_def Let_def split: if_splits Option.bind_splits)

lemma asyncWorker_ends:
  assumes "op_inv h" "\<not> op_finished h" "work w = (r, w')" "r \<noteq> Diverges"
    and "\<And>h. op_inv h \<Longrightarrow> op_inv (note_result r h)" "\<And>h. op_finished (note_result r h) = op_finished h"
  shows "\<exists>h' k. asyncWorker work note_result h w = Some (h', w') \<and> op_done h' \<and>
    st_State (op_status h') = final_state (outcome_err r) \<and> op_prepared h' = op_prepared (note_result r k) \<and>
    op_commit h' = op_commit (note_result r k) \<and> op_resultErr h' = op_resultErr (note_result r k)"
proof -
  obtain k where k: "op_start h = Some k" "op_inv k" using op_inv_start [OF assms(1)] by blast
  have "\<not> op_finished (note_result r k)" using start_fields [OF k(1)] assms(2,6) by simp
  from op_finish_live [OF assms(5) [OF k(2)] this, of "outcome_err r"] obtain h' where
    h': "op_finish (outcome_err r) (note_result r k) = Some h'" "op_done h'" "st_State (op_status h') = final_state (outcome_err r)"
    by blast
  have "asyncWorker work note_result h w = Some (h', w')"
    using k(1) h'(1) assms(3,4) by (cases r) (auto simp: asyncWorker_def)
  with h'(2,3) finish_fields [OF h'(1)] show ?thesis by blast
qed

lemma set_result_inv:
  "op_inv h \<Longrightarrow> op_inv (setPrepared pr err h)" "op_inv h \<Longrightarrow> op_inv (setCommitResult res err h)"
  "op_inv h \<Longrightarrow> op_inv (setPreparedID i h)"
  by (blast intro: op_step_inv op_step.intros)+

lemma Prepare_returns:
  assumes "fs_wf (files w)" "honest w"
  shows "fst (Prepare p req w) \<noteq> Diverges"
proof -
  obtain r w1 where o: "prepareObject p req w = (r, w1)" by force
  with ftripleD(4) [OF ft_prepareObject [OF assms(1), of False p req] assms(2) _ _ o] show ?thesis
    by (cases r) (simp_all add: Prepare_eq bnd_def prov_emit_eq ret_def)
qed

lemma Commit_returns:
  assumes "fs_wf (files w)" "honest w"
  shows "fst (Commit p prepared opts w) \<noteq> Diverges"
proof (cases "ctx_err w (ticks w)")
  case None
  let ?w = "w\<lparr>ticks := ticks w + 1\<rparr>"
  have h: "honest ?w" "fs_wf (files ?w)" using assms by (simp_all add: honest_def)
  let ?tail = "\<lambda>pr oi. bnd (modify (\<lambda>w. w\<lparr>dirty := mdel (pr_ID pr) (dirty w)\<rparr>)) (\<lambda>_.
     bnd (prov_emit (prepared_event EventCommitted pr (oi_Generation oi))) (\<lambda>_. ret \<lparr>com_Object = oi\<rparr>))"
  have "fst (bnd (commitObject p pr opts) (?tail pr) ?w) \<noteq> Diverges" for pr
  proof -
    obtain r w1 where o: "commitObject p pr opts ?w = (r, w1)" by force
    with ftripleD(4) [OF ft_commitObject [OF h(2), of False p pr opts] h(1) _ _ o] show ?thesis
      by (cases r) (simp_all add: bnd_def modify_def prov_emit_eq ret_def)
  qed
  moreover have "Commit p prepared opts w =
      bnd (checkOwner p prepared) (\<lambda>pr. bnd (commitObject p pr opts) (?tail pr)) ?w"
    using None by (simp add: Commit_eq bnd_def [of ctx_Err] ctx_Err_def)
  ultimately show ?thesis
    by (cases prepared) (auto simp: checkOwner_def bnd_simps throw_def)
qed (simp add: Commit_eq bnd_def ctx_Err_def)

text \<open>The goroutines of the asynchronous variants end. Started on an operation that may already
  have been observed, subscribed to or canceled, the worker never blocks; the world is the one the
  synchronous method leaves, the operation is done in the state that the method's result calls for,
  and \<open>Prepared\<close> and \<open>Result\<close> return exactly that result.\<close>

theorem async_returns_result:
  assumes "fs_wf (files w)" "honest w"
    and "reach (newOperation i False t src tgt) op_step h" "\<not> op_done h"
  shows "(\<exists>h' r w'. Prepare p req w = (r, w') \<and> PrepareAsync_worker p req h w = Some (h', w') \<and>
      st_State (op_status h') = final_state (outcome_err r) \<and>
      op_Prepared pick None h' = Some (case r of Ok pr \<Rightarrow> Inr (Some pr) | Err e \<Rightarrow> Inl e)) \<and>
    (\<exists>h' r w'. Commit p prepared opts w = (r, w') \<and> CommitAsync_worker p prepared opts h w = Some (h', w') \<and>
      st_State (op_status h') = final_state (outcome_err r) \<and>
      op_Result pick None h' = Some (case r of Ok res \<Rightarrow> Inr (Some res) | Err e \<Rightarrow> Inl e))"
proof -
  have inv: "op_inv h" by (rule op_sys.reach_inv [OF assms(3)])
  have live: "\<not> op_finished h" using op_invD(3) [OF inv] assms(4) by simp
  obtain r w1 where pr: "Prepare p req w = (r, w1)" by force
  obtain s w2 where cm: "Commit p prepared opts w = (s, w2)" by force
  have ends: "r \<noteq> Diverges" "s \<noteq> Diverges"
    using Prepare_returns [OF assms(1,2), of p req] Commit_returns [OF assms(1,2), of p prepared opts] pr cm by auto
  let ?np = "\<lambda>r h. let h = (case outcome_val r of Some pr \<Rightarrow> setPreparedID (pr_ID pr) h | None \<Rightarrow> h)
       in setPrepared (outcome_val r) (outcome_err r) h"
  have np: "op_inv h \<Longrightarrow> op_inv (?np r h)" "op_finished (?np r h) = op_finished h" for h
    by (cases "outcome_val r"; simp add: set_result_inv)
       (cases "outcome_val r"; simp add: setPrepared_def setPreparedID_def)
  have "\<exists>h' k. PrepareAsync_worker p req h w = Some (h', w1) \<and> op_done h' \<and>
    st_State (op_status h') = final_state (outcome_err r) \<and> op_prepared h' = op_prepared (?np r k) \<and>
    op_commit h' = op_commit (?np r k) \<and> op_resultErr h' = op_resultErr (?np r k)"
    unfolding PrepareAsync_worker_def
    by (rule asyncWorker_ends [where work = "Prepare p req", OF inv live pr ends(1)]) (fact np)+
  moreover have "\<exists>h' k. CommitAsync_worker p prepared opts h w = Some (h', w2) \<and> op_done h' \<and>
    st_State (op_status h') = final_state (outcome_err s) \<and>
    op_prepared h' = op_prepared (setCommitResult (outcome_val s) (outcome_err s) k) \<and>
    op_commit h' = op_commit (setCommitResult (outcome_val s) (outcome_err s) k) \<and>
    op_resultErr h' = op_resultErr (setCommitResult (outcome_val s) (outcome_err s) k)"
    unfolding CommitAsync_worker_def
    by (rule asyncWorker_ends [where work = "Commit p prepared opts", OF inv live cm ends(2)]) (rule set_result_inv, simp, simp add: setCommitResult_def)
  ultimately show ?thesis
    using pr cm ends
    by (cases r; cases s)
       (auto simp: op_Prepared_def op_Result_def op_Wait_def op_Status_def setPrepared_def setCommitResult_def Let_def)
qed

theorem async_returns_result_witness:
  "\<exists>h' r w'. Prepare demo_prov demo_request (demo_world demo_tree) = (r, w') \<and>
     PrepareAsync_worker demo_prov demo_request demo_op (demo_world demo_tree) = Some (h', w') \<and>
     st_State (op_status h') = final_state (outcome_err r)"
proof -
  have "\<not> op_done demo_op" by (simp add: demo_op_def newOperation_def)
  then show ?thesis
    using async_returns_result [of "demo_world demo_tree" "''op-1''" OperationCopy None None demo_op demo_prov demo_request,
        folded demo_op_def] reach_init [of demo_op op_step] by simp blast
qed

end
