(* ===== verification/Storage_Confinement.thy ===== *)
theory Storage_Confinement
  imports Storage_Lifecycle_Properties
begin

text \<open>
  Confinement of the local provider: no method but \<open>Copy\<close> follows a symbolic link out of the root,
  however calls, failures and cancellations are interleaved. The triples of the methods give this for
  most of them; here are those of \<open>List\<close> and of a \<open>Move\<close> onto its own source, and the invariant over
  sequences of calls.
\<close>

section \<open>Methods that stay inside\<close>

text \<open>A computation that, started on a well-formed tree, returns, follows no link and leaves the
  environment as it is.\<close>

definition confined :: "'a io \<Rightarrow> bool" where
  "confined m \<longleftrightarrow> (\<forall>w. fs_wf (files w) \<and> honest w \<longrightarrow> fst (m w) \<noteq> Diverges \<and> same_env w (snd (m w)))"

lemma confinedI:
  assumes "\<And>F. fs_wf F \<Longrightarrow> ftriple False (\<lambda>fs. fs = F) m (Q F) (E F)"
  shows "confined m"
  unfolding confined_def
proof (intro allI impI)
  fix w assume w: "fs_wf (files w) \<and> honest w"
  obtain r w' where m: "m w = (r, w')" by (rule prod.exhaust)
  from ftripleD(1,4) [OF assms [of "files w"] _ _ refl m] w m show "fst (m w) \<noteq> Diverges \<and> same_env w (snd (m w))" by simp
qed

lemma confinedD: "confined m \<Longrightarrow> fs_wf (files w) \<Longrightarrow> honest w \<Longrightarrow> fst (m w) \<noteq> Diverges \<and> same_env w (snd (m w))"
  by (simp add: confined_def)

lemma confined_Stat: "confined (Stat p ref)" by (rule confinedI, rule ft_StatM)
lemma confined_Open: "confined (Open p ref)" by (rule confinedI, rule ft_Open)
lemma confined_Delete: "confined (Delete p ref)" by (rule confinedI, rule ft_Delete)

lemma confined_Put: "confined (Put p ref (map_option Script xs) opts)"
proof (cases xs)
  case None
  then show ?thesis
    by (auto simp: Put_def Let_def intro!: confinedI ft_bnd ft_ctx_Err [where Q = "\<lambda>_ _. True" and E = "\<lambda>_ _. True"] ft_throw)
next
  case (Some s)
  then show ?thesis by (auto intro: confinedI ft_Put)
qed

lemma confined_Prepare: "confined (Prepare p req)"
  unfolding confined_def
proof (intro allI impI)
  fix w assume w: "fs_wf (files w) \<and> honest w"
  obtain r w' where m: "Prepare p req w = (r, w')" by (rule prod.exhaust)
  from Prepare_run [OF _ _ m] w m show "fst (Prepare p req w) \<noteq> Diverges \<and> same_env w (snd (Prepare p req w))" by simp
qed

lemma ft_emit: "(\<And>fs. P fs \<Longrightarrow> Q () fs) \<Longrightarrow> ftriple c P (prov_emit e) Q E"
  unfolding prov_emit_def by (rule ft_modify_other) (simp_all add: same_env_def)

lemma ft_checkOwner: "ftriple c (\<lambda>fs. fs = F) (checkOwner p pr) (\<lambda>_ fs. fs = F) (\<lambda>_ fs. fs = F)"
  by (auto simp: checkOwner_def intro!: ft_ret ft_throw split: option.split)

lemma ft_dirty: "ftriple c (\<lambda>fs. fs = F) (modify (\<lambda>w. w\<lparr>dirty := g (dirty w)\<rparr>)) (\<lambda>_ fs. fs = F) E"
  by (rule ft_modify_other) (simp_all add: same_env_def)

lemma confined_MarkDirty: "confined (MarkDirty p pr)"
  by (rule confinedI [where Q = "\<lambda>F _ fs. fs = F" and E = "\<lambda>F _ fs. fs = F"])
     (auto simp: MarkDirty_def intro!: ft_bnd [OF ft_ctx_Err [where Q = "\<lambda>_ fs. fs = F" for F]] ft_bnd [OF ft_checkOwner]
       ft_bnd [OF ft_gets [where Q = "\<lambda>_ fs. fs = F" for F]] ft_bnd [OF ft_dirty] ft_throw ft_ret ft_emit)

lemma confined_Release: "confined (Release p pr)"
  by (rule confinedI [where Q = "\<lambda>F _ fs. fs = F" and E = "\<lambda>F _ fs. fs = F"])
     (auto simp: Release_def intro!: ft_bnd [OF ft_ctx_Err [where Q = "\<lambda>_ fs. fs = F" for F]] ft_bnd [OF ft_checkOwner]
       ft_bnd [OF ft_dirty] ft_emit)

lemma confined_Commit: "confined (Commit p pr opts)"
proof (rule confinedI [where Q = "\<lambda>F _ fs. fs = F" and E = "\<lambda>F _ fs. fs = F"])
  fix F assume "fs_wf F"
  then have "ftriple False (\<lambda>fs. fs = F) (commitObject p q opts) (\<lambda>_ fs. fs = F) (\<lambda>_ fs. fs = F)" for q
    by (rule ft_conseq [OF ft_commitObject]) auto
  then show "ftriple False (\<lambda>fs. fs = F) (Commit p pr opts) (\<lambda>_ fs. fs = F) (\<lambda>_ fs. fs = F)"
    unfolding Commit_eq
    by (auto intro!: ft_bnd [OF ft_ctx_Err [where Q = "\<lambda>_ fs. fs = F"]] ft_bnd [OF ft_checkOwner] ft_bnd [of _ _ "commitObject p q opts" for q]
       ft_bnd [OF ft_dirty] ft_bnd [OF ft_emit [where Q = "\<lambda>_ fs. fs = F"]] ft_ret)
qed

section \<open>Moving and listing\<close>

lemma confined_Move: "confined (Move p src dst opts)"
proof (rule confinedI [where Q = "\<lambda>_ _ _. True" and E = "\<lambda>_ _ _. True"])
  fix F assume wf: "fs_wf F"
  show "ftriple False (\<lambda>fs. fs = F) (Move p src dst opts) (\<lambda>_ _. True) (\<lambda>_ _. True)"
  proof (cases "prefix (ref_path dst) (ref_path src)")
    case False
    from ft_Move [OF wf this] show ?thesis by (rule ft_conseq) auto
  next
    case True
    show ?thesis unfolding Move_eq
    proof (rule ft_seq [OF ft_transferChecks [OF wf]], goal_cases)
      case (2 x)
      obtain sp dp si di where x: "x = (sp, dp, si, di)" by (cases x)
      show ?case unfolding x prod.case
      proof (cases "transferable p F src dst \<and> sp = ref_path src \<and> dp = ref_path dst \<and> looked F sp (Some si) \<and> looked F dp di")
        case ok: True
        then obtain n where n: "mget F sp = Some n" by auto
        have cl: "clear F sp" "clear F dp" and ne: "dp \<noteq> []"
          using ok valid_ref_safe [of p dst] by (auto simp: transferable_def safe_path_def)
        have pre: "prefix dp sp" using True ok by simp
        then obtain m where m: "mget F dp = Some m"
          using n wf_strict_prefix [OF wf n, of dp] by (cases "dp = sp") (auto simp: prefix_order.dual_order.strict_iff_order)
        show "ftriple False (\<lambda>fs. fs = F \<and> transferable p F src dst \<and> sp = ref_path src \<and> dp = ref_path dst \<and> looked F sp (Some si) \<and> looked F dp di)
           (bnd (moveClear p src dst opts dp si di) (\<lambda>_. moveTo p src dst sp dp)) (\<lambda>_ _. True) (\<lambda>_ _. True)"
        proof (rule ft_pre, rule ft_seq [OF ft_moveClear [OF wf cl(2) ne]])
          show "looked F sp (Some si)" "looked F dp di" using ok by blast+
          show "ftriple False (\<lambda>fs. replaceable F sp dp opts \<and> wiped F dp fs) (moveTo p src dst sp dp) (\<lambda>_ _. True) (\<lambda>_ _. True)" for x
          proof (rule ft_start)
            fix G assume "replaceable F sp dp opts \<and> wiped F dp G"
            then have "wiped F dp G" by simp
            from ft_moveTo_gone [OF wf m cl(2,1) this pre ne]
            show "ftriple False (\<lambda>fs. fs = G) (moveTo p src dst sp dp) (\<lambda>_ _. True) (\<lambda>_ _. True)" by (rule ft_conseq) auto
          qed
        qed auto
      qed (auto simp: ftriple_def)
    qed simp
  qed
qed

lemma ft_concatIO:
  "(\<And>x. x \<in> set xs \<Longrightarrow> ftriple c (\<lambda>fs. fs = F) (f x) (\<lambda>_ fs. fs = F) (\<lambda>_ fs. fs = F)) \<Longrightarrow>
   ftriple c (\<lambda>fs. fs = F) (concatIO f xs) (\<lambda>_ fs. fs = F) (\<lambda>_ fs. fs = F)"
proof (induction xs)
  case Nil
  show ?case by (auto intro: ft_ret)
next
  case (Cons x xs)
  then have "ftriple c (\<lambda>fs. fs = F) (concatIO f xs) (\<lambda>_ fs. fs = F) (\<lambda>_ fs. fs = F)" by simp
  then show ?case
    unfolding concatIO.simps by (intro ft_bnd [OF Cons.prems] ft_bnd [of _ _ "concatIO f xs"]) (auto intro: ft_ret)
qed

text \<open>Reading a directory that is reached without a link: its entries are those of the tree.\<close>

lemma ft_ReadDir_any:
  assumes "fs_wf F" "no_link F d"
  shows "ftriple c (\<lambda>fs. fs = F) (os_ReadDir d) (\<lambda>names fs. fs = F \<and> names = children F d) (\<lambda>_ fs. fs = F)"
proof (cases "\<exists>pm. mget F d = Some (Dir pm)")
  case True
  then obtain pm where "mget F d = Some (Dir pm)" by blast
  from ft_ReadDir [OF assms(1) this] show ?thesis by (rule ft_conseq) auto
next
  case False
  show ?thesis unfolding os_ReadDir_def
  proof (rule ft_sys, rule ft_at_node)
    fix fs n assume "fs = F" "walk fs [] d = Found n"
    moreover from this have "mget F d = Some n" using assms(1) by (simp add: walk_Found_iff)
    moreover have "n \<noteq> Symlink" using assms(2) \<open>mget F d = Some n\<close> by (auto simp: no_link_def)
    ultimately show "ftriple c (\<lambda>g. g = fs)
       (case n of Dir _ \<Rightarrow> gets (\<lambda>w. children (files w) d) | Symlink \<Rightarrow> followed d | _ \<Rightarrow> throw (os_err ENOTDIR))
       (\<lambda>names fs. fs = F \<and> names = children F d) (\<lambda>_ fs. fs = F)"
      using False by (cases n) (auto intro: ft_throw)
  qed (use no_link_walk [OF assms(2)] in auto)
qed

lemma ft_Lstat_child:
  assumes "fs_wf F" "x \<in> set (children F d)"
  shows "ftriple c (\<lambda>fs. fs = F) (os_Lstat (d @ [x])) (\<lambda>_ fs. fs = F) (\<lambda>_ fs. fs = F)"
proof -
  obtain n where "mget F (d @ [x]) = Some n" using assms(2) by (auto simp: set_children)
  then have "walk F [] (d @ [x]) = Found n" using walk_existing [OF assms(1), of "[]" "d @ [x]"] by simp
  then show ?thesis by (intro ft_conseq [OF ft_Lstat [OF assms(1)]]) auto
qed

lemma ft_listDirect:
  assumes "fs_wf F" "no_link F d"
  shows "ftriple c (\<lambda>fs. fs = F) (listDirect p pre d) (\<lambda>_ fs. fs = F) (\<lambda>_ fs. fs = F)"
  unfolding listDirect_def
proof (rule ft_seq_wrap [OF ft_ReadDir_any [OF assms]])
  fix names
  show "ftriple c (\<lambda>fs. fs = F \<and> names = children F d)
     (concatIO (\<lambda>name. bnd ctx_Err (\<lambda>_. bnd (wrapErr (wrapAs p ErrList name) (os_Lstat (d @ [name]))) (\<lambda>info.
       ret [objectInfoFromFileInfo (prov_name p) (joinSep ''/'' (filepath_Clean (ref_Key pre) @ [name])) info]))) names)
     (\<lambda>_ fs. fs = F) (\<lambda>_ fs. fs = F)"
  proof (cases "names = children F d")
    case True
    show ?thesis
      by (rule ft_pre, rule ft_concatIO)
         (use True in \<open>auto intro!: ft_bnd [OF ft_ctx_Err [where Q = "\<lambda>_ fs. fs = F"]] ft_seq_wrap [OF ft_Lstat_child [OF assms(1)]] ft_ret\<close>)
  qed (auto simp: ftriple_def)
qed simp

lemma ft_walkDir:
  assumes "fs_wf F" "mget F d = Some (Dir pm)" "no_link F d" "depth_ok n F d"
  shows "ftriple c (\<lambda>fs. fs = F) (walkDir n p d) (\<lambda>_ fs. fs = F) (\<lambda>_ fs. fs = F)"
  using assms(2-)
proof (induction n arbitrary: d pm)
  case 0
  from 0(3) have "mget F (d @ []) \<noteq> None \<longrightarrow> length ([] :: string list) < 0" unfolding depth_ok_def by blast
  with 0(1) show ?case by simp
next
  case (Suc n)
  have below: "ftriple c (\<lambda>fs. fs = F) (walkDir n p (d @ [x])) (\<lambda>_ fs. fs = F) (\<lambda>_ fs. fs = F)" if "mget F (d @ [x]) = Some (Dir qm)" for x qm
    by (rule Suc.IH [OF that]) (use Suc.prems that depth_ok_child [OF Suc.prems(3), of x] in \<open>auto simp: no_link_def\<close>)
  let ?visit = "\<lambda>dirs name. bnd ctx_Err (\<lambda>_. bnd (os_Lstat (d @ [name])) (\<lambda>info.
       let oi = objectInfoFromFileInfo (prov_name p) (joinSep ''/'' (d @ [name])) info in
       if name \<in> set dirs then bnd (walkDir n p (d @ [name])) (\<lambda>rest. ret (oi # rest)) else ret [oi]))"
  have visit: "ftriple c (\<lambda>fs. fs = F) (?visit dirs x) (\<lambda>_ fs. fs = F) (\<lambda>_ fs. fs = F)"
    if x: "x \<in> set (children F d)" and dirs: "\<forall>y \<in> set dirs. \<exists>qm. mget F (d @ [y]) = Some (Dir qm)" for x dirs
  proof (rule ft_bnd [OF ft_ctx_Err [where Q = "\<lambda>_ fs. fs = F"]], simp, simp, rule ft_bnd [OF ft_Lstat_child [OF assms(1) x]])
    fix info
    have "ftriple c (\<lambda>fs. fs = F) (bnd (walkDir n p (d @ [x])) (\<lambda>rest. ret (oi # rest))) (\<lambda>_ fs. fs = F) (\<lambda>_ fs. fs = F)" if "x \<in> set dirs" for oi
    proof -
      from bspec [OF dirs that] obtain qm where qm: "mget F (d @ [x]) = Some (Dir qm)" by (rule exE)
      show ?thesis by (rule ft_bnd [OF below [OF qm]], rule ft_ret)
    qed
    then show "ftriple c (\<lambda>fs. fs = F) (let oi = objectInfoFromFileInfo (prov_name p) (joinSep ''/'' (d @ [x])) info in
       if x \<in> set dirs then bnd (walkDir n p (d @ [x])) (\<lambda>rest. ret (oi # rest)) else ret [oi]) (\<lambda>_ fs. fs = F) (\<lambda>_ fs. fs = F)"
      by (auto simp: Let_def intro: ft_ret)
  qed
  show ?case unfolding walkDir.simps
  proof (rule ft_bnd [OF ft_ReadDir_any [OF assms(1) Suc.prems(2)]])
    fix names
    let ?dirs = "filter (\<lambda>name. case mget F (d @ [name]) of Some (Dir _) \<Rightarrow> True | _ \<Rightarrow> False) names"
    show "ftriple c (\<lambda>fs. fs = F \<and> names = children F d)
       (bnd (gets (\<lambda>w. filter (\<lambda>name. case mget (files w) (d @ [name]) of Some (Dir _) \<Rightarrow> True | _ \<Rightarrow> False) names)) (\<lambda>dirs. concatIO (?visit dirs) names))
       (\<lambda>_ fs. fs = F) (\<lambda>_ fs. fs = F)"
    proof (rule ft_bnd [OF ft_gets [where Q = "\<lambda>dirs fs. fs = F \<and> names = children F d \<and> dirs = ?dirs"]])
      fix dirs
      show "ftriple c (\<lambda>fs. fs = F \<and> names = children F d \<and> dirs = ?dirs) (concatIO (?visit dirs) names) (\<lambda>_ fs. fs = F) (\<lambda>_ fs. fs = F)"
      proof (cases "names = children F d \<and> dirs = ?dirs")
        case True
        then have "\<forall>y \<in> set dirs. \<exists>qm. mget F (d @ [y]) = Some (Dir qm)" by (auto split: option.splits node.splits)
        with True show ?thesis by (intro ft_pre [OF ft_concatIO [OF visit]]) auto
      qed (auto simp: ftriple_def)
    qed auto
  qed
qed

lemma ft_listRecursive:
  assumes "fs_wf F" "clear F d"
  shows "ftriple c (\<lambda>fs. fs = F) (listRecursive p pre d) (\<lambda>_ fs. fs = F) (\<lambda>_ fs. fs = F)"
  unfolding listRecursive_def
proof (rule ft_wrapErr, rule ft_seq [OF ft_Lstat [OF assms(1) clear_walk [OF assms(2)]]])
  fix info
  show "ftriple c (\<lambda>fs. fs = F \<and> (\<exists>n m. mget F d = Some n \<and> info = node_info m n))
     (bnd ctx_Err (\<lambda>_. if fi_kind info = KDir then (\<lambda>w. walkDir (Suc (length (files w))) p d w) else ret [])) (\<lambda>_ fs. fs = F) (\<lambda>_ fs. fs = F)"
  proof (rule ft_bnd [OF ft_ctx_Err [where Q = "\<lambda>_ fs. fs = F \<and> (\<exists>n m. mget F d = Some n \<and> info = node_info m n)"]])
    fix u
    let ?walk = "\<lambda>w. walkDir (Suc (length (files w))) p d w"
    have walk: "ftriple c (\<lambda>fs. fs = F) ?walk (\<lambda>_ fs. fs = F) (\<lambda>_ fs. fs = F)" if "mget F d = Some (Dir pm)" for pm
    proof -
      have "no_link F d" using assms(2) by (simp add: clear_def)
      from ft_walkDir [OF assms(1) that this depth_enough [OF assms(1)], of c p] show ?thesis
        unfolding ftriple_def by (intro allI impI) (simp del: walkDir.simps)
    qed
    have dir: "\<exists>pm. n = Dir pm" if "fi_kind (node_info m n) = KDir" for n m
      using that by (cases n; cases m) auto
    show "ftriple c (\<lambda>fs. fs = F \<and> (\<exists>n m. mget F d = Some n \<and> info = node_info m n))
       (if fi_kind info = KDir then ?walk else ret []) (\<lambda>_ fs. fs = F) (\<lambda>_ fs. fs = F)"
    proof (cases "fi_kind info = KDir \<and> (\<exists>n m. mget F d = Some n \<and> info = node_info m n)")
      case True
      then obtain pm where "mget F d = Some (Dir pm)" using dir by blast
      from ft_pre [OF walk [OF this]] True show ?thesis by simp
    next
      case False
      show ?thesis
      proof (cases "fi_kind info = KDir")
        case True
        with False have "\<nexists>n m. mget F d = Some n \<and> info = node_info m n" by simp
        then have none: "\<not> (fs = F \<and> (\<exists>n m. mget F d = Some n \<and> info = node_info m n))" for fs by blast
        have never: "ftriple c (\<lambda>_. False) m Q E" for m :: "ObjectInfo list io" and Q E by (simp add: ftriple_def)
        show ?thesis by (rule ft_pre, rule never) (use none in blast)
      qed (auto intro: ft_ret)
    qed
  qed auto
qed auto

lemma confined_List: "confined (List_objects p pre opts)"
proof (rule confinedI [where Q = "\<lambda>F _ fs. fs = F" and E = "\<lambda>F _ fs. fs = F"])
  fix F assume wf: "fs_wf F"
  show "ftriple False (\<lambda>fs. fs = F) (List_objects p pre opts) (\<lambda>_ fs. fs = F) (\<lambda>_ fs. fs = F)"
    unfolding List_objects_def
    by (rule ft_bnd [OF ft_ctx_Err [where Q = "\<lambda>_ fs. fs = F"]], simp, simp, rule ft_pathFor_then [OF wf])
       (use ft_listDirect [OF wf] ft_listRecursive [OF wf] in \<open>auto simp: clear_def\<close>)
qed

section \<open>Sequences of calls\<close>

text \<open>The calls of the invariant: all methods but \<open>Copy\<close>, and \<open>Put\<close> of a stream of bytes (not of the
  contents of an open file of the tree).\<close>

fun confined_call :: "prov_call \<Rightarrow> bool" where
  "confined_call (DoCopy _ _ _) = False"
| "confined_call (DoPut _ (Some (Reading _ _)) _) = False"
| "confined_call _ = True"

text \<open>Whether a call returns.\<close>

fun returns :: "Provider \<Rightarrow> prov_call \<Rightarrow> world \<Rightarrow> bool" where
  "returns p (DoStat ref) w \<longleftrightarrow> fst (Stat p ref w) \<noteq> Diverges"
| "returns p (DoOpen ref) w \<longleftrightarrow> fst (Open p ref w) \<noteq> Diverges"
| "returns p (DoPut ref r opts) w \<longleftrightarrow> fst (Put p ref r opts w) \<noteq> Diverges"
| "returns p (DoDelete ref) w \<longleftrightarrow> fst (Delete p ref w) \<noteq> Diverges"
| "returns p (DoList ref opts) w \<longleftrightarrow> fst (List_objects p ref opts w) \<noteq> Diverges"
| "returns p (DoPrepare req) w \<longleftrightarrow> fst (Prepare p req w) \<noteq> Diverges"
| "returns p (DoMarkDirty pr) w \<longleftrightarrow> fst (MarkDirty p pr w) \<noteq> Diverges"
| "returns p (DoCopy src dst opts) w \<longleftrightarrow> fst (Copy p src dst opts w) \<noteq> Diverges"
| "returns p (DoMove src dst opts) w \<longleftrightarrow> fst (Move p src dst opts w) \<noteq> Diverges"
| "returns p (DoRelease pr) w \<longleftrightarrow> fst (Release p pr w) \<noteq> Diverges"
| "returns p (DoCommit pr opts) w \<longleftrightarrow> fst (Commit p pr opts w) \<noteq> Diverges"
| "returns p _ w \<longleftrightarrow> True"

lemma prov_do_confined:
  assumes "fs_wf (files w)" "honest w" "confined_call c"
  shows "returns p c w \<and> same_env w (prov_do p c w)"
proof -
  note con = confinedD [OF _ assms(1,2)]
  show ?thesis
  proof (cases c)
    case (DoPut ref r opts)
    with assms(3) obtain xs where "r = map_option Script xs"
      by (cases r) (metis option.map(1), metis confined_call.simps(2) option.map(2) reader.exhaust)
    with DoPut con [OF confined_Put] show ?thesis by simp
  next
    case DoEvents
    then show ?thesis by (simp add: prov_Events_def bnd_def ctx_Err_def Let_def same_env_def split: option.split)
  qed (use assms(3) con [OF confined_Stat] con [OF confined_Open] con [OF confined_Delete] con [OF confined_List] con [OF confined_Prepare]
      con [OF confined_MarkDirty] con [OF confined_Move] con [OF confined_Release] con [OF confined_Commit] in
      \<open>auto simp: sub_take_def sub_deliver_def sub_quit_def same_env_def split: option.splits list.splits\<close>)
qed

lemma New_same_env: "fst (New wd rootDir opts w) = Ok p \<Longrightarrow> same_env w (snd (New wd rootDir opts w))"
  by (auto simp: New_def Let_def bnd_def wrapErr_def throw_def ret_def makeRoot_def sys_def set_node_def modify_def same_env_def
      split: if_splits sum.splits outcome.splits prod.splits option.splits node.splits)

interpretation prov_conf: inductive_invariant
  "snd (New wd rootDir opts w0)" "\<lambda>w c w'. confined_call c \<and> w' = prov_do p c w"
  "\<lambda>w. fst (New wd rootDir opts w0) = Ok q \<and> (files w0 = [] \<or> fs_wf (files w0)) \<and> honest w0 \<longrightarrow> fs_wf (files w) \<and> same_env w0 w"
  for wd rootDir opts w0 p q
proof unfold_locales
  show "fst (New wd rootDir opts w0) = Ok q \<and> (files w0 = [] \<or> fs_wf (files w0)) \<and> honest w0 \<longrightarrow>
      fs_wf (files (snd (New wd rootDir opts w0))) \<and> same_env w0 (snd (New wd rootDir opts w0))"
    using New_wf New_same_env by blast
qed (use prov_do_wf prov_do_confined same_env_honest same_env_trans in metis)

text \<open>C9: from the construction of a provider on, over an empty root or any well-formed tree, every
  sequence of calls other than \<open>Copy\<close> stays inside the root: whatever symbolic links the tree has,
  whatever the keys, and whatever calls of the operating system fail or contexts are cancelled in
  between, no call follows a link out of it, the tree stays well-formed, and every further call returns.
  (The failures must not pose as missing objects or ends of files; \<open>Put\<close> is given a stream of bytes.
  \<open>Copy\<close> is another matter, see \<open>Storage_Transfer_Properties\<close>.)\<close>

theorem provider_stays_inside:
  assumes "fst (New wd rootDir opts w0) = Ok p" "files w0 = [] \<or> fs_wf (files w0)" "honest w0"
    and "reach (snd (New wd rootDir opts w0)) (\<lambda>w c w'. confined_call c \<and> w' = prov_do p c w) w"
  shows "outside w = outside w0 \<and> fs_wf (files w) \<and> (\<forall>c. confined_call c \<longrightarrow> returns p c w \<and> outside (prov_do p c w) = outside w0)"
proof -
  have inv: "fs_wf (files w)" "same_env w0 w" using prov_conf.reach_inv [OF assms(4), of p] assms(1-3) by blast+
  then have "honest w" using assms(3) by (simp add: same_env_honest)
  with inv prov_do_confined [of w _ p] show ?thesis by (simp add: same_env_def)
qed

text \<open>A tree with a link that a caller tries to go through.\<close>

theorem provider_stays_inside_witness:
  "outside (prov_do demo_prov (DoDelete (demo_ref ''l/passwd'')) (snd (New (Inr ''/'') ''srv'' [] (demo_world [([], Dir 488), ([''l''], Symlink)])))) = []"
proof -
  let ?w = "demo_world [([], Dir 488), ([''l''], Symlink)]"
  have new: "fst (New (Inr ''/'') ''srv'' [] ?w) = Ok demo_prov"
    by (simp add: New_def filepath_Abs_def filepath_IsAbs_def abs_string_def makeRoot_def demo_world_def demo_prov_def
        bnd_def wrapErr_def sys_def set_node_def modify_def mput_def ret_def Let_def DefaultName_def)
  have wf: "fs_wf (files ?w)" by (rule fs_ok_wf) (simp add: fs_ok_def mwf_def mkeys_def)
  have "honest ?w" "confined_call (DoDelete (demo_ref ''l/passwd''))" by simp_all
  from provider_stays_inside [OF new disjI2 [OF wf] this(1) reach_init, THEN conjunct2, THEN conjunct2, rule_format, OF this(2)]
  show ?thesis by simp
qed

end
