(* ===== verification/Net_Addr.thy ===== *)
theory Net_Addr
  imports Prelude "HOL-Library.Word"
begin

text \<open>
  Addresses as the standard library parses them: \<open>netip.ParseAddr\<close> on IPv4 addresses and
  \<open>net.ParseMAC\<close>, with a description of the strings that are hardware addresses, and addresses with
  ports.
\<close>

section \<open>Addresses\<close>

definition digit_value :: "char \<Rightarrow> nat option" where
  "digit_value c =
     (let n = of_char c :: nat in if 48 \<le> n \<and> n \<le> 57 then Some (n - 48) else None)"

text \<open>One field of an IPv4 address: the digits read so far, and no leading zero.\<close>

fun octetLoop :: "nat \<Rightarrow> nat \<Rightarrow> string \<Rightarrow> nat option" where
  "octetLoop digLen val [] = (if digLen = 0 then None else Some val)"
| "octetLoop digLen val (c # cs) =
     (case digit_value c of
        None \<Rightarrow> None
      | Some d \<Rightarrow>
          if digLen = 1 \<and> val = 0 then None
          else let val = val * 10 + d in if val > 255 then None else octetLoop (digLen + 1) val cs)"

fun octets :: "string list \<Rightarrow> nat list option" where
  "octets [] = Some []"
| "octets (f # fs) =
     (case (octetLoop 0 0 f, octets fs) of (Some n, Some ns) \<Rightarrow> Some (n # ns) | _ \<Rightarrow> None)"

definition ParseAddr4 :: "string \<Rightarrow> nat list option" where
  "ParseAddr4 s =
     (let fs = splitAt CHR ''.'' s in if length fs = 4 then octets fs else None)"

definition hex_value :: "char \<Rightarrow> nat option" where
  "hex_value c =
     (let n = of_char c :: nat in
      if 48 \<le> n \<and> n \<le> 57 then Some (n - 48)
      else if 97 \<le> n \<and> n \<le> 102 then Some (n - 87)
      else if 65 \<le> n \<and> n \<le> 70 then Some (n - 55)
      else None)"

text \<open>Two hexadecimal digits, then the separator or the end of the input.\<close>

definition xtoi2 :: "string \<Rightarrow> char \<Rightarrow> nat option" where
  "xtoi2 s e =
     (case s of
        a # b # rest \<Rightarrow>
          (case rest of
             c # _ \<Rightarrow> if c \<noteq> e then None
                       else (case (hex_value a, hex_value b) of (Some m, Some n) \<Rightarrow> Some (16 * m + n) | _ \<Rightarrow> None)
           | [] \<Rightarrow> (case (hex_value a, hex_value b) of (Some m, Some n) \<Rightarrow> Some (16 * m + n) | _ \<Rightarrow> None))
      | _ \<Rightarrow> None)"

fun macPairs :: "nat \<Rightarrow> string \<Rightarrow> char \<Rightarrow> nat list option" where
  "macPairs 0 s sep = Some []"
| "macPairs (Suc n) s sep =
     (case (xtoi2 s sep, macPairs n (drop 3 s) sep) of (Some b, Some bs) \<Rightarrow> Some (b # bs) | _ \<Rightarrow> None)"

fun macQuads :: "nat \<Rightarrow> string \<Rightarrow> char \<Rightarrow> nat list option" where
  "macQuads 0 s sep = Some []"
| "macQuads (Suc n) s sep =
     (case (xtoi2 (take 2 s) CHR 0x00, xtoi2 (drop 2 s) sep, macQuads n (drop 5 s) sep) of
        (Some a, Some b, Some bs) \<Rightarrow> Some (a # b # bs) | _ \<Rightarrow> None)"

definition ParseMAC :: "string \<Rightarrow> nat list option" where
  "ParseMAC s =
     (if length s < 14 then None
      else if s ! 2 = CHR '':'' \<or> s ! 2 = CHR ''-'' then
        (let n = (length s + 1) div 3 in
         if (length s + 1) mod 3 \<noteq> 0 \<or> n \<noteq> 6 \<and> n \<noteq> 8 \<and> n \<noteq> 20 then None else macPairs n s (s ! 2))
      else if s ! 4 = CHR ''.'' then
        (let n = 2 * (length s + 1) div 5 in
         if (length s + 1) mod 5 \<noteq> 0 \<or> n \<noteq> 6 \<and> n \<noteq> 8 \<and> n \<noteq> 20 then None else macQuads (n div 2) s (s ! 4))
      else None)"

section \<open>Addresses with ports\<close>

text \<open>An address with a port of \<open>netip\<close>: invalid, or IPv4 or IPv6 with the text of the address.\<close>

datatype AddrPort = NoAddr | Addr4 string "16 word" | Addr6 string "16 word"

fun addr_Is4 :: "AddrPort \<Rightarrow> bool" where
  "addr_Is4 (Addr4 _ _) = True"
| "addr_Is4 _ = False"

fun addr_Port :: "AddrPort \<Rightarrow> 16 word" where
  "addr_Port NoAddr = 0"
| "addr_Port (Addr4 _ p) = p"
| "addr_Port (Addr6 _ p) = p"

fun addr_String :: "AddrPort \<Rightarrow> string" where
  "addr_String NoAddr = ''invalid IP''"
| "addr_String (Addr4 a _) = a"
| "addr_String (Addr6 a _) = a"

section \<open>Hardware addresses\<close>

abbreviation hexdigit :: "char \<Rightarrow> bool" where
  "hexdigit c \<equiv> hex_value c \<noteq> None"

text \<open>Groups of hexadecimal digits between separators.\<close>

definition grouped :: "nat \<Rightarrow> nat \<Rightarrow> char \<Rightarrow> string \<Rightarrow> bool" where
  "grouped w n e s \<longleftrightarrow> (\<exists>gs. length gs = n \<and> (\<forall>g \<in> set gs. length g = w \<and> list_all hexdigit g) \<and> s = joinSep [e] gs)"

definition hardware_address :: "string \<Rightarrow> bool" where
  "hardware_address s \<longleftrightarrow> (\<exists>n \<in> {6, 8, 20}. grouped 2 n CHR '':'' s \<or> grouped 2 n CHR ''-'' s \<or> grouped 4 (n div 2) CHR ''.'' s)"

lemma length_joinSep:
  "gs \<noteq> [] \<Longrightarrow> \<forall>g \<in> set gs. length g = w \<Longrightarrow> length (joinSep [e] gs) + 1 = (w + 1) * length gs"
  by (induction "[e]" gs rule: joinSep.induct) auto

lemma grouped_length: "grouped w n e s \<Longrightarrow> 0 < n \<Longrightarrow> length s + 1 = (w + 1) * n"
  unfolding grouped_def using length_joinSep by fastforce

lemma joinSep_Cons: "gs \<noteq> [] \<Longrightarrow> joinSep [e] (g # gs) = g @ e # joinSep [e] gs"
  by (cases gs) auto

lemma grouped_Suc: "0 < n \<Longrightarrow> grouped w (Suc n) e s \<longleftrightarrow> (\<exists>g t. s = g @ e # t \<and> length g = w \<and> list_all hexdigit g \<and> grouped w n e t)"
proof
  assume n: "0 < n" and "grouped w (Suc n) e s"
  then obtain hs where hs: "length hs = Suc n" "\<forall>h \<in> set hs. length h = w \<and> list_all hexdigit h" "s = joinSep [e] hs"
    unfolding grouped_def by blast
  then obtain g gs where "hs = g # gs" by (cases hs) auto
  with hs have g: "length gs = n" "\<forall>h \<in> set (g # gs). length h = w \<and> list_all hexdigit h" "s = joinSep [e] (g # gs)" by simp_all
  then have "gs \<noteq> []" using n by auto
  with g(3) have "s = g @ e # joinSep [e] gs" by (simp add: joinSep_Cons)
  moreover have "grouped w n e (joinSep [e] gs)" unfolding grouped_def using g by auto
  moreover have "length g = w" "list_all hexdigit g" using g(2) by auto
  ultimately show "\<exists>g t. s = g @ e # t \<and> length g = w \<and> list_all hexdigit g \<and> grouped w n e t" by blast
next
  assume n: "0 < n" and "\<exists>g t. s = g @ e # t \<and> length g = w \<and> list_all hexdigit g \<and> grouped w n e t"
  then obtain g gs where g: "length gs = n" "\<forall>h \<in> set gs. length h = w \<and> list_all hexdigit h" "s = g @ e # joinSep [e] gs"
    "length g = w" "list_all hexdigit g"
    unfolding grouped_def by auto
  then have "gs \<noteq> []" using n by auto
  with g show "grouped w (Suc n) e s" unfolding grouped_def by (intro exI [of _ "g # gs"]) (simp add: joinSep_Cons)
qed

lemma grouped_1: "grouped w (Suc 0) e s \<longleftrightarrow> length s = w \<and> list_all hexdigit s"
  unfolding grouped_def by (auto simp: length_Suc_conv)

lemma grouped_2_Cons: "grouped 2 (Suc (Suc n)) e (a # b # c # t) \<longleftrightarrow> hexdigit a \<and> hexdigit b \<and> c = e \<and> grouped 2 (Suc n) e t"
proof
  assume "grouped 2 (Suc (Suc n)) e (a # b # c # t)"
  then obtain g u where g: "a # b # c # t = g @ e # u" "length g = 2" "list_all hexdigit g" "grouped 2 (Suc n) e u"
    unfolding grouped_Suc [OF zero_less_Suc] by blast
  then have "g = [a, b]" by (auto simp: numeral_eq_Suc length_Suc_conv)
  with g show "hexdigit a \<and> hexdigit b \<and> c = e \<and> grouped 2 (Suc n) e t" by simp
next
  assume "hexdigit a \<and> hexdigit b \<and> c = e \<and> grouped 2 (Suc n) e t"
  then show "grouped 2 (Suc (Suc n)) e (a # b # c # t)"
    unfolding grouped_Suc [OF zero_less_Suc] by (intro exI [of _ "[a, b]"] exI [of _ t]) simp
qed

lemma grouped_4_Cons:
  "grouped 4 (Suc (Suc n)) e (a # b # c # d # x # t) \<longleftrightarrow> hexdigit a \<and> hexdigit b \<and> hexdigit c \<and> hexdigit d \<and> x = e \<and> grouped 4 (Suc n) e t"
proof
  assume "grouped 4 (Suc (Suc n)) e (a # b # c # d # x # t)"
  then obtain g u where g: "a # b # c # d # x # t = g @ e # u" "length g = 4" "list_all hexdigit g" "grouped 4 (Suc n) e u"
    unfolding grouped_Suc [OF zero_less_Suc] by blast
  then have "g = [a, b, c, d]" by (auto simp: numeral_eq_Suc length_Suc_conv)
  with g show "hexdigit a \<and> hexdigit b \<and> hexdigit c \<and> hexdigit d \<and> x = e \<and> grouped 4 (Suc n) e t" by simp
next
  assume "hexdigit a \<and> hexdigit b \<and> hexdigit c \<and> hexdigit d \<and> x = e \<and> grouped 4 (Suc n) e t"
  then show "grouped 4 (Suc (Suc n)) e (a # b # c # d # x # t)"
    unfolding grouped_Suc [OF zero_less_Suc] by (intro exI [of _ "[a, b, c, d]"] exI [of _ t]) simp
qed

lemma xtoi2_pair: "xtoi2 [a, b] e \<noteq> None \<longleftrightarrow> hexdigit a \<and> hexdigit b"
  "xtoi2 (a # b # c # t) e \<noteq> None \<longleftrightarrow> hexdigit a \<and> hexdigit b \<and> c = e"
  by (auto simp: xtoi2_def split: option.splits)

lemma macPairs_Suc: "macPairs (Suc n) s e \<noteq> None \<longleftrightarrow> xtoi2 s e \<noteq> None \<and> macPairs n (drop 3 s) e \<noteq> None"
  by (auto split: option.splits)

lemma macQuads_Suc: "macQuads (Suc n) s e \<noteq> None \<longleftrightarrow> xtoi2 (take 2 s) CHR 0x00 \<noteq> None \<and> xtoi2 (drop 2 s) e \<noteq> None \<and> macQuads n (drop 5 s) e \<noteq> None"
  by (auto split: option.splits)

declare macPairs.simps(2) [simp del] macQuads.simps(2) [simp del]

lemma pairs_iff: "length s + 1 = 3 * Suc n \<Longrightarrow> macPairs (Suc n) s e \<noteq> None \<longleftrightarrow> grouped 2 (Suc n) e s"
proof (induction n arbitrary: s)
  case 0
  then obtain a b where "s = [a, b]" by (auto simp: numeral_eq_Suc length_Suc_conv)
  then show ?case by (simp add: macPairs_Suc xtoi2_pair grouped_1 del: not_None_eq)
next
  case (Suc n)
  then have "length s = Suc (Suc (Suc (3 * n + 2)))" by simp
  then obtain a b c t where s: "s = a # b # c # t" "length t + 1 = 3 * Suc n" by (auto simp: length_Suc_conv)
  show ?case unfolding macPairs_Suc [of "Suc n"] using Suc.IH [OF s(2)] by (simp add: s(1) xtoi2_pair grouped_2_Cons del: not_None_eq)
qed

lemma quads_iff: "length s + 1 = 5 * Suc n \<Longrightarrow> macQuads (Suc n) s e \<noteq> None \<longleftrightarrow> grouped 4 (Suc n) e s"
proof (induction n arbitrary: s)
  case 0
  then obtain a b c d where "s = [a, b, c, d]" by (auto simp: numeral_eq_Suc length_Suc_conv)
  then show ?case by (simp add: macQuads_Suc xtoi2_pair grouped_1 del: not_None_eq)
next
  case (Suc n)
  then have "length s = 5 + (5 * n + 4)" by simp
  then obtain u t where u: "s = u @ t" "length u = 5" "length t = 5 * n + 4" by (metis append_take_drop_id length_append length_drop length_take
    min_absorb2 diff_add_inverse le_add1)
  then obtain a b c d x where "u = [a, b, c, d, x]" by (auto simp: numeral_eq_Suc length_Suc_conv)
  with u have s: "s = a # b # c # d # x # t" "length t + 1 = 5 * Suc n" by simp_all
  show ?case unfolding macQuads_Suc [of "Suc n"] using Suc.IH [OF s(2)]
    by (simp add: s(1) xtoi2_pair grouped_4_Cons del: not_None_eq)
qed

lemma grouped_head:
  assumes "grouped w n e s" "2 \<le> n"
  shows "s ! w = e \<and> (\<forall>i < w. hexdigit (s ! i))"
proof -
  obtain m where "n = Suc m" "0 < m" using assms(2) by (cases n) auto
  with assms(1) obtain g t where "s = g @ e # t" "length g = w" "list_all hexdigit g" using grouped_Suc [of m w e s] by auto
  then show ?thesis by (auto simp: nth_append list_all_length)
qed

lemma hexdigit_not_sep: "hexdigit c \<Longrightarrow> c \<noteq> CHR '':'' \<and> c \<noteq> CHR ''-''"
  by (auto simp: hex_value_def)

lemma ParseMAC_colon:
  assumes "14 \<le> length s" "s ! 2 = CHR '':'' \<or> s ! 2 = CHR ''-''"
  shows "ParseMAC s \<noteq> None \<longleftrightarrow> (\<exists>n \<in> {6, 8, 20}. grouped 2 n (s ! 2) s)"
proof (cases "(length s + 1) mod 3 = 0 \<and> (length s + 1) div 3 \<in> {6, 8, 20}")
  case True
  define n where "n = (length s + 1) div 3"
  have n: "length s + 1 = 3 * Suc (n - 1)" "Suc (n - 1) = n" "n \<in> {6, 8, 20}" using True by (auto simp: n_def)
  have "ParseMAC s = macPairs n s (s ! 2)" using assms True unfolding ParseMAC_def Let_def n_def by auto
  then have "ParseMAC s \<noteq> None \<longleftrightarrow> grouped 2 n (s ! 2) s" using pairs_iff [OF n(1), of "s ! 2"] unfolding n(2) by simp
  moreover have "grouped 2 m (s ! 2) s \<longleftrightarrow> m = n \<and> grouped 2 n (s ! 2) s" if "m \<in> {6, 8, 20}" for m
    using grouped_length [of 2 m "s ! 2" s] that n by auto
  ultimately show ?thesis using n(3) by blast
next
  case False
  moreover have "\<not> grouped 2 m (s ! 2) s" if "m \<in> {6, 8, 20}" for m
    using grouped_length [of 2 m "s ! 2" s] that False by auto
  ultimately show ?thesis using assms by (auto simp: ParseMAC_def Let_def)
qed

lemma ParseMAC_dot:
  assumes "14 \<le> length s" "\<not> (s ! 2 = CHR '':'' \<or> s ! 2 = CHR ''-'')"
  shows "ParseMAC s \<noteq> None \<longleftrightarrow> (\<exists>n \<in> {6, 8, 20}. grouped 4 (n div 2) CHR ''.'' s)"
proof (cases "s ! 4 = CHR ''.'' \<and> (length s + 1) mod 5 = 0 \<and> 2 * (length s + 1) div 5 \<in> {6, 8, 20}")
  case True
  define n where "n = 2 * (length s + 1) div 5"
  from True obtain k where k: "length s + 1 = 5 * k" by (metis mod_eq_0_iff_dvd dvdE)
  then have nk: "n = 2 * k" by (simp add: n_def)
  with True have n: "n \<in> {6, 8, 20}" by (simp add: n_def)
  with k nk have len: "length s + 1 = 5 * Suc (n div 2 - 1)" "Suc (n div 2 - 1) = n div 2" by auto
  have "ParseMAC s = macQuads (n div 2) s CHR ''.''" using assms True unfolding ParseMAC_def Let_def n_def by auto
  then have "ParseMAC s \<noteq> None \<longleftrightarrow> grouped 4 (n div 2) CHR ''.'' s"
    using quads_iff [OF len(1), of "CHR ''.''"] unfolding len(2) by simp
  moreover have "grouped 4 (m div 2) CHR ''.'' s \<longleftrightarrow> m = n \<and> grouped 4 (n div 2) CHR ''.'' s" if "m \<in> {6, 8, 20}" for m
  proof -
    have "0 < m div 2" "2 * (m div 2) = m" using that by auto
    then have "m = n" if "grouped 4 (m div 2) CHR ''.'' s" using grouped_length [OF that] k nk by simp
    then show ?thesis by blast
  qed
  ultimately show ?thesis using n by blast
next
  case False
  moreover have "\<not> grouped 4 (m div 2) CHR ''.'' s" if "m \<in> {6, 8, 20}" for m
    using grouped_length [of 4 "m div 2" "CHR ''.''" s] grouped_head [of 4 "m div 2" "CHR ''.''" s] that False by auto
  ultimately show ?thesis using assms by (auto simp: ParseMAC_def Let_def)
qed

lemma ParseMAC_iff: "ParseMAC s \<noteq> None \<longleftrightarrow> hardware_address s"
proof (cases "14 \<le> length s")
  case False
  moreover have "\<not> hardware_address s"
    using False grouped_length [of 2 _ _ s] grouped_length [of 4 _ _ s] by (fastforce simp: hardware_address_def)
  ultimately show ?thesis by (simp add: ParseMAC_def)
next
  case True
  have nf: "grouped 2 n e s \<longrightarrow> s ! 2 = e" "grouped 4 (n div 2) e s \<longrightarrow> s ! 2 \<noteq> CHR '':'' \<and> s ! 2 \<noteq> CHR ''-''"
    if "n \<in> {6, 8, 20}" for n e
  proof -
    have n: "2 \<le> n" "2 \<le> n div 2" using that by auto
    show "grouped 2 n e s \<longrightarrow> s ! 2 = e" using grouped_head n(1) by blast
    show "grouped 4 (n div 2) e s \<longrightarrow> s ! 2 \<noteq> CHR '':'' \<and> s ! 2 \<noteq> CHR ''-''"
    proof
      assume "grouped 4 (n div 2) e s"
      from grouped_head [OF this n(2)] have "hexdigit (s ! 2)" by simp
      then show "s ! 2 \<noteq> CHR '':'' \<and> s ! 2 \<noteq> CHR ''-''" by (rule hexdigit_not_sep)
    qed
  qed
  show ?thesis
  proof (cases "s ! 2 = CHR '':'' \<or> s ! 2 = CHR ''-''")
    case sep: True
    show ?thesis unfolding ParseMAC_colon [OF True sep] hardware_address_def
      by (rule bex_cong [OF refl]) (use nf sep in metis)
  next
    case sep: False
    show ?thesis unfolding ParseMAC_dot [OF True sep] hardware_address_def
      by (rule bex_cong [OF refl]) (use nf sep in metis)
  qed
qed

end
