(* ===== verification/Topology.thy ===== *)
theory Topology
  imports Errors "HOL-Library.Word" Net_Addr
begin

unbundle bit_operations_syntax

text \<open>
  Topologies and their validation (\<open>topology/topology.go\<close>, \<open>node.go\<close>, \<open>port.go\<close>, \<open>link.go\<close>,
  \<open>view.go\<close>, \<open>validate.go\<close>). Kinds are strings, since any string can be decoded into them. The
  text that \<open>fmt\<close> makes of an identifier with the verb \<open>q\<close> is the function \<open>fq\<close>: it only occurs in
  messages, and everything holds for every such function. Addresses are those of \<open>Net_Addr\<close>.
\<close>

section \<open>Data\<close>

type_synonym NodeID = string
type_synonym PortID = string
type_synonym LinkID = string
type_synonym ViewID = string
type_synonym PortKind = string
type_synonym LinkKind = string

abbreviation PortEthernet :: PortKind where "PortEthernet \<equiv> ''ethernet''"
abbreviation PortSerial :: PortKind where "PortSerial \<equiv> ''serial''"
abbreviation LinkEthernet :: LinkKind where "LinkEthernet \<equiv> ''ethernet''"
abbreviation LinkSerial :: LinkKind where "LinkSerial \<equiv> ''serial''"

record Env =
  env_Name :: string
  env_Value :: string

record ContainerSpec =
  cs_Provider :: string
  cs_Image :: string
  cs_Command :: "string list"
  cs_Env :: "Env list"

record DomainSpec =
  ds_Image :: string
  ds_SeedImage :: string
  ds_CPUs :: "16 word"
  ds_MemoryMB :: "32 word"

record ShitnetSpec =
  ss_IP :: string
  ss_MAC :: string

record DynamipsCard =
  card_Slot :: "32 word"
  card_Name :: string

record DynamipsInterface =
  dif_ID :: PortID
  dif_Slot :: "32 word"
  dif_Port :: "32 word"

record DynamipsSpec =
  dy_Image :: string
  dy_RAMMB :: "32 word"
  dy_Platform :: string
  dy_NPE :: string
  dy_Midplane :: string
  dy_ConsolePort :: "16 word"
  dy_EnhancedConsole :: bool
  dy_StartupConfig :: string
  dy_Cards :: "DynamipsCard list"
  dy_Interfaces :: "DynamipsInterface list"

text \<open>The concrete specs; a pointer to one (or any other type) is an \<open>OtherSpec\<close> with its type name.\<close>

datatype NodeSpec =
    Container ContainerSpec | Domain DomainSpec | Shitnet ShitnetSpec | Dynamips DynamipsSpec
  | OtherSpec string

definition NodeSpec_Kind :: "NodeSpec \<Rightarrow> string option" where
  "NodeSpec_Kind s =
     (case s of
        Container _ \<Rightarrow> Some ''container'' | Domain _ \<Rightarrow> Some ''domain'' | Shitnet _ \<Rightarrow> Some ''shitnet''
      | Dynamips _ \<Rightarrow> Some ''dynamips'' | OtherSpec _ \<Rightarrow> None)"

record Port =
  port_ID :: PortID
  port_Kind :: PortKind

record Node =
  node_ID :: NodeID
  node_Name :: string
  node_Spec :: "NodeSpec option"
  node_Ports :: "Port list"

record Endpoint =
  ep_Node :: NodeID
  ep_Port :: PortID

definition Endpoint_String :: "Endpoint \<Rightarrow> string" where
  "Endpoint_String e = ep_Node e @ ''/'' @ ep_Port e"

record Link =
  link_ID :: LinkID
  link_Kind :: LinkKind
  link_A :: Endpoint
  link_B :: Endpoint
  link_MTU :: "16 word"

record Position =
  pos_X :: f64
  pos_Y :: f64

record NodeView =
  nv_Node :: NodeID
  nv_Position :: Position

record LinkView =
  lv_Link :: LinkID
  lv_Points :: "Position list"

record View =
  view_ID :: ViewID
  view_Name :: string
  view_Nodes :: "NodeView list"
  view_Links :: "LinkView list"

record Topology =
  top_ID :: string
  top_Nodes :: "Node list"
  top_Links :: "Link list"
  top_Views :: "View list"

section \<open>Validation\<close>

definition nodeErr :: "topology_kind \<Rightarrow> string \<Rightarrow> gerror option" where
  "nodeErr k msg = Some (topology_New ''validate topology node'' k msg)"

fun validateEnv :: "(string \<Rightarrow> string) \<Rightarrow> NodeID \<Rightarrow> string list \<Rightarrow> Env list \<Rightarrow> gerror option" where
  "validateEnv fq nid names [] = None"
| "validateEnv fq nid names (e # es) =
     (if env_Name e = '''' \<or> CHR ''='' \<in> set (env_Name e) \<or> CHR 0x00 \<in> set (env_Name e) \<or> CHR 0x00 \<in> set (env_Value e)
      then nodeErr ErrInvalidNode (''container '' @ fq nid @ '' has invalid environment variable '' @ fq (env_Name e))
      else if env_Name e \<in> set names
      then nodeErr ErrInvalidNode (''container '' @ fq nid @ '' repeats environment variable '' @ fq (env_Name e))
      else validateEnv fq nid (env_Name e # names) es)"

definition shitnet_bad :: "ShitnetSpec \<Rightarrow> bool" where
  "shitnet_bad s \<longleftrightarrow>
     (case ParseAddr4 (ss_IP s) of None \<Rightarrow> True | Some ip \<Rightarrow> ip = [0, 0, 0, 0]) \<or>
     (case ParseMAC (ss_MAC s) of None \<Rightarrow> True | Some mac \<Rightarrow> length mac \<noteq> 6 \<or> hd mac AND 1 \<noteq> 0)"

definition validateSpec :: "(string \<Rightarrow> string) \<Rightarrow> NodeID \<Rightarrow> NodeSpec \<Rightarrow> gerror option" where
  "validateSpec fq nid spec =
     (case spec of
        Container s \<Rightarrow>
          if cs_Image s = '''' then nodeErr ErrInvalidNode (''container '' @ fq nid @ '' requires an image'')
          else validateEnv fq nid [] (cs_Env s)
      | Domain s \<Rightarrow>
          if ds_Image s = '''' then nodeErr ErrInvalidNode (''domain '' @ fq nid @ '' requires an image'') else None
      | Shitnet s \<Rightarrow>
          if shitnet_bad s
          then nodeErr ErrInvalidNode ''Shitnet requires an IPv4 address and unicast Ethernet MAC'' else None
      | Dynamips s \<Rightarrow>
          if dy_Image s = '''' then nodeErr ErrInvalidNode (''dynamips node '' @ fq nid @ '' requires an image'') else None
      | OtherSpec t \<Rightarrow>
          nodeErr ErrInvalidNode (''node '' @ fq nid @ '' has unsupported spec '' @ t @ ''; use a concrete spec value''))"

fun validatePorts :: "(string \<Rightarrow> string) \<Rightarrow> NodeID \<Rightarrow> PortID list \<Rightarrow> Port list \<Rightarrow> gerror option" where
  "validatePorts fq nid ports [] = None"
| "validatePorts fq nid ports (p # ps) =
     (if port_ID p = '''' then nodeErr ErrInvalidPort (''node '' @ fq nid @ '' has port without id'')
      else if port_Kind p \<noteq> PortEthernet \<and> port_Kind p \<noteq> PortSerial
      then nodeErr ErrInvalidPort (''node '' @ fq nid @ '' port '' @ fq (port_ID p) @ '' has unknown kind '' @ fq (port_Kind p))
      else if port_ID p \<in> set ports
      then nodeErr ErrDuplicateID (''node '' @ fq nid @ '' port '' @ fq (port_ID p))
      else validatePorts fq nid (port_ID p # ports) ps)"

definition validateNode :: "(string \<Rightarrow> string) \<Rightarrow> Node \<Rightarrow> gerror option" where
  "validateNode fq n =
     (if node_ID n = '''' then nodeErr ErrInvalidNode ''id is required''
      else case node_Spec n of
        None \<Rightarrow> nodeErr ErrInvalidNode (''node '' @ fq (node_ID n) @ '' has no spec'')
      | Some spec \<Rightarrow>
          (case validateSpec fq (node_ID n) spec of
             Some e \<Rightarrow> Some e
           | None \<Rightarrow> validatePorts fq (node_ID n) [] (node_Ports n)))"

definition findPort :: "(string \<Rightarrow> string) \<Rightarrow> (NodeID, Node) gomap \<Rightarrow> Endpoint \<Rightarrow> gerror + Port" where
  "findPort fq nodes e =
     (case mget nodes (ep_Node e) of
        None \<Rightarrow> Inl (topology_New ''find topology port'' topology_kind.ErrNotFound (''node '' @ fq (ep_Node e)))
      | Some n \<Rightarrow>
          (case List.find (\<lambda>p. port_ID p = ep_Port e) (node_Ports n) of
             Some p \<Rightarrow> Inr p
           | None \<Rightarrow> Inl (topology_New ''find topology port'' topology_kind.ErrNotFound
                        (''port '' @ fq (ep_Port e) @ '' on node '' @ fq (ep_Node e)))))"

definition linkErr :: "string \<Rightarrow> gerror option" where
  "linkErr msg = Some (topology_New ''validate topology link'' ErrInvalidLink msg)"

definition linkWrap :: "string \<Rightarrow> gerror \<Rightarrow> gerror option" where
  "linkWrap msg e = Some (topology_Wrap ''validate topology link'' ErrInvalidLink msg (Some e))"

definition validateLink :: "(string \<Rightarrow> string) \<Rightarrow> (NodeID, Node) gomap \<Rightarrow> Link \<Rightarrow> gerror option" where
  "validateLink fq nodes l =
     (if link_ID l = '''' then linkErr ''id is required''
      else if link_Kind l \<noteq> LinkEthernet \<and> link_Kind l \<noteq> LinkSerial
      then linkErr (''link '' @ fq (link_ID l) @ '' has unknown kind '' @ fq (link_Kind l))
      else if link_A l = link_B l
      then linkErr (''link '' @ fq (link_ID l) @ '' connects endpoint '' @ fq (Endpoint_String (link_A l)) @ '' to itself'')
      else case findPort fq nodes (link_A l) of
        Inl e \<Rightarrow> linkWrap (''link '' @ fq (link_ID l) @ '' endpoint A'') e
      | Inr a \<Rightarrow>
          (case findPort fq nodes (link_B l) of
             Inl e \<Rightarrow> linkWrap (''link '' @ fq (link_ID l) @ '' endpoint B'') e
           | Inr b \<Rightarrow>
               if link_Kind l = LinkEthernet then
                 (if port_Kind a \<noteq> PortEthernet \<or> port_Kind b \<noteq> PortEthernet
                  then linkErr (''ethernet link '' @ fq (link_ID l) @ '' requires ethernet ports'') else None)
               else
                 (if port_Kind a \<noteq> PortSerial \<or> port_Kind b \<noteq> PortSerial
                  then linkErr (''serial link '' @ fq (link_ID l) @ '' requires serial ports'') else None)))"

definition topErr :: "topology_kind \<Rightarrow> string \<Rightarrow> gerror" where
  "topErr k msg = topology_New ''validate topology'' k msg"

fun collectNodes :: "(string \<Rightarrow> string) \<Rightarrow> (NodeID, Node) gomap \<Rightarrow> Node list \<Rightarrow> gerror + (NodeID, Node) gomap" where
  "collectNodes fq nodes [] = Inr nodes"
| "collectNodes fq nodes (n # ns) =
     (case validateNode fq n of
        Some e \<Rightarrow> Inl e
      | None \<Rightarrow>
          if mget nodes (node_ID n) \<noteq> None then Inl (topErr ErrDuplicateID (''node '' @ fq (node_ID n)))
          else collectNodes fq (mput (node_ID n) n nodes) ns)"

text \<open>The loop over the two endpoints of a link.\<close>

fun connect :: "(string \<Rightarrow> string) \<Rightarrow> LinkID \<Rightarrow> (Endpoint, LinkID) gomap \<Rightarrow> Endpoint list \<Rightarrow> gerror + (Endpoint, LinkID) gomap" where
  "connect fq lid conn [] = Inr conn"
| "connect fq lid conn (e # es) =
     (case mget conn e of
        Some previous \<Rightarrow>
          Inl (topology_New ''validate topology link'' ErrInvalidLink
            (''link '' @ fq lid @ '' reuses endpoint '' @ fq (Endpoint_String e) @ '' from link '' @ fq previous))
      | None \<Rightarrow> connect fq lid (mput e lid conn) es)"

fun collectLinks :: "(string \<Rightarrow> string) \<Rightarrow> (NodeID, Node) gomap \<Rightarrow> LinkID list \<Rightarrow> (Endpoint, LinkID) gomap \<Rightarrow>
    Link list \<Rightarrow> gerror + LinkID list" where
  "collectLinks fq nodes links conn [] = Inr links"
| "collectLinks fq nodes links conn (l # ls) =
     (if link_ID l \<in> set links then Inl (topErr ErrDuplicateID (''link '' @ fq (link_ID l)))
      else case validateLink fq nodes l of
        Some e \<Rightarrow> Inl e
      | None \<Rightarrow>
          (case connect fq (link_ID l) conn [link_A l, link_B l] of
             Inl e \<Rightarrow> Inl e
           | Inr conn \<Rightarrow> collectLinks fq nodes (link_ID l # links) conn ls))"

definition validPosition :: "Position \<Rightarrow> bool" where
  "validPosition p \<longleftrightarrow> \<not> f64_IsNaN (pos_X p) \<and> \<not> f64_IsInf (pos_X p) \<and> \<not> f64_IsNaN (pos_Y p) \<and> \<not> f64_IsInf (pos_Y p)"

definition viewErr :: "topology_kind \<Rightarrow> string \<Rightarrow> gerror option" where
  "viewErr k msg = Some (topology_New ''validate topology view'' k msg)"

fun placeNodes :: "(string \<Rightarrow> string) \<Rightarrow> (NodeID, Node) gomap \<Rightarrow> ViewID \<Rightarrow> NodeID list \<Rightarrow> NodeView list \<Rightarrow> gerror option" where
  "placeNodes fq nodes vid placed [] = None"
| "placeNodes fq nodes vid placed (p # ps) =
     (if mget nodes (nv_Node p) = None then viewErr ErrInvalidView (''view '' @ fq vid @ '' references node '' @ fq (nv_Node p))
      else if nv_Node p \<in> set placed then viewErr ErrDuplicateID (''view '' @ fq vid @ '' repeats node '' @ fq (nv_Node p))
      else if \<not> validPosition (nv_Position p)
      then viewErr ErrInvalidView (''view '' @ fq vid @ '' node '' @ fq (nv_Node p) @ '' has non-finite position'')
      else placeNodes fq nodes vid (nv_Node p # placed) ps)"

fun placeLinks :: "(string \<Rightarrow> string) \<Rightarrow> LinkID list \<Rightarrow> ViewID \<Rightarrow> LinkID list \<Rightarrow> LinkView list \<Rightarrow> gerror option" where
  "placeLinks fq links vid placed [] = None"
| "placeLinks fq links vid placed (p # ps) =
     (if lv_Link p \<notin> set links then viewErr ErrInvalidView (''view '' @ fq vid @ '' references link '' @ fq (lv_Link p))
      else if lv_Link p \<in> set placed then viewErr ErrDuplicateID (''view '' @ fq vid @ '' repeats link '' @ fq (lv_Link p))
      else if \<not> list_all validPosition (lv_Points p)
      then viewErr ErrInvalidView (''view '' @ fq vid @ '' link '' @ fq (lv_Link p) @ '' has non-finite point'')
      else placeLinks fq links vid (lv_Link p # placed) ps)"

fun validateViews :: "(string \<Rightarrow> string) \<Rightarrow> (NodeID, Node) gomap \<Rightarrow> LinkID list \<Rightarrow> ViewID list \<Rightarrow> View list \<Rightarrow> gerror option" where
  "validateViews fq nodes links ids [] = None"
| "validateViews fq nodes links ids (v # vs) =
     (if view_ID v = '''' then viewErr ErrInvalidView ''id is required''
      else if view_ID v \<in> set ids then viewErr ErrDuplicateID (''view '' @ fq (view_ID v))
      else case placeNodes fq nodes (view_ID v) [] (view_Nodes v) of
        Some e \<Rightarrow> Some e
      | None \<Rightarrow>
          (case placeLinks fq links (view_ID v) [] (view_Links v) of
             Some e \<Rightarrow> Some e
           | None \<Rightarrow> validateViews fq nodes links (view_ID v # ids) vs))"

definition Validate :: "(string \<Rightarrow> string) \<Rightarrow> Topology option \<Rightarrow> gerror option" where
  "Validate fq t =
     (case t of
        None \<Rightarrow> Some (topErr ErrInvalidTopology ''nil topology'')
      | Some t \<Rightarrow>
          if top_ID t = '''' then Some (topErr ErrInvalidTopology ''id is required'')
          else case collectNodes fq [] (top_Nodes t) of
            Inl e \<Rightarrow> Some e
          | Inr nodes \<Rightarrow>
              (case collectLinks fq nodes [] [] (top_Links t) of
                 Inl e \<Rightarrow> Some e
               | Inr links \<Rightarrow> validateViews fq nodes links [] (top_Views t)))"

end
