(* ===== verification/Topology_Properties.thy ===== *)
theory Topology_Properties
  imports Topology
begin

text \<open>
  What \<open>Validate\<close> decides: a declarative description of a well-formed topology, the proof that the
  checks accept exactly these, the kinds of the errors, and what a validated link guarantees.
\<close>

section \<open>Well-formed topologies\<close>

definition env_ok :: "Env \<Rightarrow> bool" where
  "env_ok e \<longleftrightarrow> env_Name e \<noteq> '''' \<and> CHR ''='' \<notin> set (env_Name e) \<and> CHR 0x00 \<notin> set (env_Name e) \<and> CHR 0x00 \<notin> set (env_Value e)"

definition spec_ok :: "NodeSpec \<Rightarrow> bool" where
  "spec_ok s \<longleftrightarrow> (case s of
      Container c \<Rightarrow> cs_Image c \<noteq> '''' \<and> list_all env_ok (cs_Env c) \<and> distinct (map env_Name (cs_Env c))
    | Domain d \<Rightarrow> ds_Image d \<noteq> ''''
    | Shitnet s \<Rightarrow> (\<exists>a b c d. ParseAddr4 (ss_IP s) = Some [a, b, c, d] \<and> [a, b, c, d] \<noteq> [0, 0, 0, 0]) \<and>
        (\<exists>m ms. ParseMAC (ss_MAC s) = Some (m # ms) \<and> length ms = 5 \<and> even m)
    | Dynamips y \<Rightarrow> dy_Image y \<noteq> ''''
    | OtherSpec _ \<Rightarrow> False)"

definition port_ok :: "Port \<Rightarrow> bool" where
  "port_ok p \<longleftrightarrow> port_ID p \<noteq> '''' \<and> port_Kind p \<in> {PortEthernet, PortSerial}"

definition node_ok :: "Node \<Rightarrow> bool" where
  "node_ok n \<longleftrightarrow> node_ID n \<noteq> '''' \<and> (\<exists>s. node_Spec n = Some s \<and> spec_ok s) \<and>
     list_all port_ok (node_Ports n) \<and> distinct (map port_ID (node_Ports n))"

definition has_port :: "Node list \<Rightarrow> Endpoint \<Rightarrow> PortKind \<Rightarrow> bool" where
  "has_port ns e k \<longleftrightarrow> (\<exists>n \<in> set ns. node_ID n = ep_Node e \<and> \<lparr>port_ID = ep_Port e, port_Kind = k\<rparr> \<in> set (node_Ports n))"

definition link_ok :: "Node list \<Rightarrow> Link \<Rightarrow> bool" where
  "link_ok ns l \<longleftrightarrow> link_ID l \<noteq> '''' \<and> link_Kind l \<in> {LinkEthernet, LinkSerial} \<and> link_A l \<noteq> link_B l \<and>
     has_port ns (link_A l) (link_Kind l) \<and> has_port ns (link_B l) (link_Kind l)"

definition endpoints :: "Link list \<Rightarrow> Endpoint list" where
  "endpoints ls = concat (map (\<lambda>l. [link_A l, link_B l]) ls)"

definition view_ok :: "NodeID set \<Rightarrow> LinkID set \<Rightarrow> View \<Rightarrow> bool" where
  "view_ok N L v \<longleftrightarrow> view_ID v \<noteq> '''' \<and>
     (\<forall>p \<in> set (view_Nodes v). nv_Node p \<in> N \<and> validPosition (nv_Position p)) \<and> distinct (map nv_Node (view_Nodes v)) \<and>
     (\<forall>p \<in> set (view_Links v). lv_Link p \<in> L \<and> list_all validPosition (lv_Points p)) \<and> distinct (map lv_Link (view_Links v))"

definition topology_ok :: "Topology \<Rightarrow> bool" where
  "topology_ok t \<longleftrightarrow> top_ID t \<noteq> '''' \<and>
     list_all node_ok (top_Nodes t) \<and> distinct (map node_ID (top_Nodes t)) \<and>
     list_all (link_ok (top_Nodes t)) (top_Links t) \<and> distinct (map link_ID (top_Links t)) \<and>
     distinct (endpoints (top_Links t)) \<and>
     list_all (view_ok (node_ID ` set (top_Nodes t)) (link_ID ` set (top_Links t))) (top_Views t) \<and>
     distinct (map view_ID (top_Views t))"

section \<open>The checks of a node\<close>

lemma validateEnv_None:
  "validateEnv fq nid names es = None \<longleftrightarrow>
     list_all env_ok es \<and> distinct (map env_Name es) \<and> env_Name ` set es \<inter> set names = {}"
  by (induction es arbitrary: names) (auto simp: env_ok_def nodeErr_def)

lemma validatePorts_None:
  "validatePorts fq nid ports ps = None \<longleftrightarrow>
     list_all port_ok ps \<and> distinct (map port_ID ps) \<and> port_ID ` set ps \<inter> set ports = {}"
  by (induction ps arbitrary: ports) (auto simp: port_ok_def nodeErr_def)

lemma octets_length: "octets fs = Some ns \<Longrightarrow> length ns = length fs"
  by (induction fs arbitrary: ns) (auto split: option.splits)

lemma ParseAddr4_length: "ParseAddr4 s = Some ip \<Longrightarrow> length ip = 4"
  by (auto simp: ParseAddr4_def Let_def dest: octets_length split: if_splits)

lemma length_4: "length xs = 4 \<longleftrightarrow> (\<exists>a b c d. xs = [a, b, c, d])"
  by (auto simp: length_Suc_conv numeral_eq_Suc)

lemma shitnet_good:
  "\<not> shitnet_bad s \<longleftrightarrow>
     (\<exists>a b c d. ParseAddr4 (ss_IP s) = Some [a, b, c, d] \<and> [a, b, c, d] \<noteq> [0, 0, 0, 0]) \<and>
     (\<exists>m ms. ParseMAC (ss_MAC s) = Some (m # ms) \<and> length ms = 5 \<and> even m)"
proof -
  have "(\<exists>ip. ParseAddr4 (ss_IP s) = Some ip \<and> ip \<noteq> [0, 0, 0, 0]) \<longleftrightarrow>
      (\<exists>a b c d. ParseAddr4 (ss_IP s) = Some [a, b, c, d] \<and> [a, b, c, d] \<noteq> [0, 0, 0, 0])"
    using ParseAddr4_length [of "ss_IP s"] by (metis length_4)
  moreover have "(\<exists>mac. ParseMAC (ss_MAC s) = Some mac \<and> length mac = 6 \<and> hd mac AND 1 = 0) \<longleftrightarrow>
      (\<exists>m ms. ParseMAC (ss_MAC s) = Some (m # ms) \<and> length ms = 5 \<and> even m)"
    by (auto simp: and_one_eq even_iff_mod_2_eq_zero length_Suc_conv numeral_eq_Suc) 
  ultimately show ?thesis by (auto simp: shitnet_bad_def split: option.splits)
qed

lemma validateSpec_None: "validateSpec fq nid s = None \<longleftrightarrow> spec_ok s"
proof (cases s)
  case (Shitnet x)
  show ?thesis
    unfolding validateSpec_def spec_ok_def nodeErr_def Shitnet NodeSpec.case shitnet_good [symmetric] by simp
qed (auto simp: validateSpec_def spec_ok_def nodeErr_def validateEnv_None)

lemma validateNode_None: "validateNode fq n = None \<longleftrightarrow> node_ok n"
proof (cases "node_Spec n")
  case (Some s)
  with validateSpec_None [of fq "node_ID n" s] show ?thesis
    by (cases "validateSpec fq (node_ID n) s") (auto simp: validateNode_def node_ok_def nodeErr_def validatePorts_None)
qed (simp add: validateNode_def node_ok_def nodeErr_def)

section \<open>Collecting nodes and links\<close>

definition indexes :: "(NodeID, Node) gomap \<Rightarrow> Node list \<Rightarrow> bool" where
  "indexes m ns \<longleftrightarrow> (\<forall>i n. mget m i = Some n \<longleftrightarrow> n \<in> set ns \<and> node_ID n = i)"

lemma collectNodes_result:
  "(\<forall>n \<in> set ns. node_ok n) \<and> distinct (map node_ID ns) \<and> (\<forall>n \<in> set ns. mget m (node_ID n) = None) \<Longrightarrow>
     \<exists>m'. collectNodes fq m ns = Inr m' \<and>
       (\<forall>i n. mget m' i = Some n \<longleftrightarrow> mget m i = Some n \<or> n \<in> set ns \<and> node_ID n = i)"
proof (induction ns arbitrary: m)
  case (Cons n ns)
  have "\<exists>m'. collectNodes fq (mput (node_ID n) n m) ns = Inr m' \<and>
      (\<forall>i k. mget m' i = Some k \<longleftrightarrow> mget (mput (node_ID n) n m) i = Some k \<or> k \<in> set ns \<and> node_ID k = i)"
    by (rule Cons.IH) (use Cons.prems in \<open>auto simp: image_iff\<close>)
  then obtain m' where m': "collectNodes fq (mput (node_ID n) n m) ns = Inr m'"
    "\<And>i k. mget m' i = Some k \<longleftrightarrow> mget (mput (node_ID n) n m) i = Some k \<or> k \<in> set ns \<and> node_ID k = i" by blast
  have "collectNodes fq m (n # ns) = Inr m'" using Cons.prems m'(1) validateNode_None [of fq n] by simp
  moreover have "mget m' i = Some k \<longleftrightarrow> mget m i = Some k \<or> k \<in> set (n # ns) \<and> node_ID k = i" for i k
    using m'(2) [of i k] Cons.prems by auto
  ultimately show ?case by blast
qed auto

lemma collectNodes_fails:
  "\<not> ((\<forall>n \<in> set ns. node_ok n) \<and> distinct (map node_ID ns) \<and> (\<forall>n \<in> set ns. mget m (node_ID n) = None)) \<Longrightarrow>
     isl (collectNodes fq m ns)"
proof (induction ns arbitrary: m)
  case (Cons n ns)
  show ?case
  proof (cases "validateNode fq n = None \<and> mget m (node_ID n) = None")
    case True
    then have "\<not> ((\<forall>k \<in> set ns. node_ok k) \<and> distinct (map node_ID ns) \<and>
        (\<forall>k \<in> set ns. mget (mput (node_ID n) n m) (node_ID k) = None))"
      using Cons.prems by (auto simp: validateNode_None image_iff split: if_splits)
    from Cons.IH [OF this] True show ?thesis by simp
  qed (auto split: option.split)
qed simp

lemma find_port:
  "distinct (map port_ID ps) \<Longrightarrow>
     List.find (\<lambda>p. port_ID p = i) ps = Some p \<longleftrightarrow> p \<in> set ps \<and> port_ID p = i"
  by (induction ps) (auto simp: image_iff)

lemma findPort_Inr:
  assumes "indexes m ns" "\<forall>n \<in> set ns. node_ok n" "distinct (map node_ID ns)"
  shows "(\<exists>p. findPort fq m e = Inr p \<and> port_Kind p = k) \<longleftrightarrow> has_port ns e k"
proof (cases "mget m (ep_Node e)")
  case None
  then have "\<not> has_port ns e k" using assms(1) by (auto simp: has_port_def indexes_def) (metis option.distinct(1))
  with None show ?thesis by (simp add: findPort_def)
next
  case (Some n)
  with assms(1) have n: "n \<in> set ns" "node_ID n = ep_Node e" by (auto simp: indexes_def)
  have only: "n' = n" if "n' \<in> set ns" "node_ID n' = ep_Node e" for n'
    using that n assms(3) by (metis distinct_map inj_onD)
  have dist: "distinct (map port_ID (node_Ports n))" using assms(2) n(1) by (auto simp: node_ok_def)
  have "has_port ns e k \<longleftrightarrow> \<lparr>port_ID = ep_Port e, port_Kind = k\<rparr> \<in> set (node_Ports n)"
    using n only unfolding has_port_def by blast
  also have "\<dots> \<longleftrightarrow> (\<exists>p. p \<in> set (node_Ports n) \<and> port_ID p = ep_Port e \<and> port_Kind p = k)"
    by (metis (full_types) Port.equality Port.select_convs(1,2) old.unit.exhaust)
  also have "\<dots> \<longleftrightarrow> (\<exists>p. List.find (\<lambda>p. port_ID p = ep_Port e) (node_Ports n) = Some p \<and> port_Kind p = k)"
    using find_port [OF dist, of "ep_Port e"] by blast
  also have "\<dots> \<longleftrightarrow> (\<exists>p. findPort fq m e = Inr p \<and> port_Kind p = k)"
    using Some by (simp add: findPort_def split: option.split)
  finally show ?thesis by simp
qed

lemma validateLink_None:
  assumes "indexes m ns" "\<forall>n \<in> set ns. node_ok n" "distinct (map node_ID ns)"
  shows "validateLink fq m l = None \<longleftrightarrow> link_ok ns l"
proof -
  have "has_port ns (link_A l) k \<longleftrightarrow> (\<exists>p. findPort fq m (link_A l) = Inr p \<and> port_Kind p = k)"
    "has_port ns (link_B l) k \<longleftrightarrow> (\<exists>p. findPort fq m (link_B l) = Inr p \<and> port_Kind p = k)" for k
    using findPort_Inr [OF assms] by blast+
  then show ?thesis
    by (cases "findPort fq m (link_A l)"; cases "findPort fq m (link_B l)")
       (auto simp: validateLink_def link_ok_def linkErr_def linkWrap_def)
qed

lemma connect_two:
  "(\<exists>c. connect fq lid conn [a, b] = Inr c) \<longleftrightarrow> a \<noteq> b \<and> mget conn a = None \<and> mget conn b = None"
  "connect fq lid conn [a, b] = Inr c \<Longrightarrow> dom (mget c) = dom (mget conn) \<union> {a, b}"
  by (auto split: option.splits if_splits)

lemma collectLinks_Inr:
  assumes "indexes m ns" "\<forall>n \<in> set ns. node_ok n" "distinct (map node_ID ns)"
  shows "(\<exists>r. collectLinks fq m links conn ls = Inr r) \<longleftrightarrow>
    (\<forall>l \<in> set ls. link_ok ns l) \<and> distinct (map link_ID ls) \<and> link_ID ` set ls \<inter> set links = {} \<and>
    distinct (endpoints ls) \<and> set (endpoints ls) \<inter> dom (mget conn) = {}"
proof (induction ls arbitrary: links conn)
  case Nil
  show ?case by (simp add: endpoints_def)
next
  case (Cons l ls)
  note vl = validateLink_None [OF assms, of fq l]
  show ?case
  proof (cases "link_ID l \<notin> set links \<and> link_ok ns l \<and> mget conn (link_A l) = None \<and> mget conn (link_B l) = None")
    case True
    then have "link_A l \<noteq> link_B l" by (simp add: link_ok_def)
    with True obtain c where c: "connect fq (link_ID l) conn [link_A l, link_B l] = Inr c"
      using connect_two(1) by metis
    have "collectLinks fq m links conn (l # ls) = collectLinks fq m (link_ID l # links) c ls"
      using True vl c by simp
    with Cons.IH [of "link_ID l # links" c] True \<open>link_A l \<noteq> link_B l\<close> connect_two(2) [OF c] show ?thesis
      by (auto simp: endpoints_def)
  next
    case False
    have "\<not> (\<exists>r. collectLinks fq m links conn (l # ls) = Inr r)"
      using False vl connect_two(1) [of fq "link_ID l" conn "link_A l" "link_B l"]
      by (auto split: option.splits sum.splits simp del: connect.simps)
    moreover have "\<not> (link_ok ns l \<and> link_ID l \<notin> set links \<and> link_A l \<notin> dom (mget conn) \<and> link_B l \<notin> dom (mget conn))"
      using False by auto
    ultimately show ?thesis by (auto simp: endpoints_def)
  qed
qed

lemma collectLinks_ids: "collectLinks fq m links conn ls = Inr r \<Longrightarrow> set r = link_ID ` set ls \<union> set links"
  by (induction ls arbitrary: links conn) (auto split: if_splits option.splits sum.splits)

section \<open>Views\<close>

lemma placeNodes_None:
  "placeNodes fq m vid placed ps = None \<longleftrightarrow>
     (\<forall>p \<in> set ps. nv_Node p \<in> dom (mget m) \<and> validPosition (nv_Position p)) \<and> distinct (map nv_Node ps) \<and>
     nv_Node ` set ps \<inter> set placed = {}"
  by (induction ps arbitrary: placed) (auto simp: viewErr_def)

lemma placeLinks_None:
  "placeLinks fq links vid placed ps = None \<longleftrightarrow>
     (\<forall>p \<in> set ps. lv_Link p \<in> set links \<and> list_all validPosition (lv_Points p)) \<and> distinct (map lv_Link ps) \<and>
     lv_Link ` set ps \<inter> set placed = {}"
  by (induction ps arbitrary: placed) (auto simp: viewErr_def)

lemma validateViews_None:
  "validateViews fq m links ids vs = None \<longleftrightarrow>
     (\<forall>v \<in> set vs. view_ok (dom (mget m)) (set links) v) \<and> distinct (map view_ID vs) \<and> view_ID ` set vs \<inter> set ids = {}"
proof (induction vs arbitrary: ids)
  case (Cons v vs)
  have "view_ok (dom (mget m)) (set links) v \<longleftrightarrow> view_ID v \<noteq> '''' \<and>
      placeNodes fq m (view_ID v) [] (view_Nodes v) = None \<and> placeLinks fq links (view_ID v) [] (view_Links v) = None"
    by (auto simp: view_ok_def placeNodes_None placeLinks_None)
  with Cons.IH [of "view_ID v # ids"] show ?case
    by (auto simp: viewErr_def split: option.splits)
qed simp

section \<open>Properties\<close>

lemma Validate_parts:
  "Validate fq (Some t) = None \<longleftrightarrow> top_ID t \<noteq> '''' \<and>
     (\<exists>m r. collectNodes fq [] (top_Nodes t) = Inr m \<and> collectLinks fq m [] [] (top_Links t) = Inr r \<and>
       validateViews fq m r [] (top_Views t) = None)"
  by (auto simp: Validate_def split: sum.splits)

lemma collectNodes_indexes:
  assumes "collectNodes fq [] ns = Inr m"
  shows "indexes m ns" "\<forall>n \<in> set ns. node_ok n" "distinct (map node_ID ns)"
proof -
  show "\<forall>n \<in> set ns. node_ok n" "distinct (map node_ID ns)"
    using collectNodes_fails [of ns "[]" fq] assms by auto
  with collectNodes_result [of ns "[]" fq] assms show "indexes m ns" by (auto simp: indexes_def)
qed

lemma indexes_dom: "indexes m ns \<Longrightarrow> dom (mget m) = node_ID ` set ns"
  by (auto simp: indexes_def dom_def image_iff)

text \<open>C20: \<open>Validate\<close> accepts exactly the well-formed topologies: an identifier, distinct nodes with
  a concrete complete spec and distinct ports of a known medium, distinct links between two
  different existing ports of the link's medium with no port used twice, and views with finite
  positions that place existing nodes and links at most once.\<close>

theorem Validate_iff: "Validate fq (Some t) = None \<longleftrightarrow> topology_ok t"
proof
  assume "Validate fq (Some t) = None"
  then obtain m r where v: "top_ID t \<noteq> ''''" "collectNodes fq [] (top_Nodes t) = Inr m"
    "collectLinks fq m [] [] (top_Links t) = Inr r" "validateViews fq m r [] (top_Views t) = None"
    by (auto simp: Validate_parts)
  note ix = collectNodes_indexes [OF v(2)]
  show "topology_ok t"
    using v(1,4) ix(2,3) collectLinks_Inr [OF ix, of fq "[]" "[]" "top_Links t"] v(3)
      collectLinks_ids [OF v(3)] indexes_dom [OF ix(1)] validateViews_None [of fq m r "[]" "top_Views t"]
    by (simp add: topology_ok_def list_all_iff)
next
  assume ok: "topology_ok t"
  then obtain m where m: "collectNodes fq [] (top_Nodes t) = Inr m"
    using collectNodes_result [of "top_Nodes t" "[]" fq] by (auto simp: topology_ok_def list_all_iff)
  note ix = collectNodes_indexes [OF m]
  obtain r where r: "collectLinks fq m [] [] (top_Links t) = Inr r"
    using collectLinks_Inr [OF ix, of fq "[]" "[]" "top_Links t"] ok by (auto simp: topology_ok_def list_all_iff)
  show "Validate fq (Some t) = None"
    using ok m r collectLinks_ids [OF r] indexes_dom [OF ix(1)] validateViews_None [of fq m r "[]" "top_Views t"]
    by (auto simp: Validate_parts topology_ok_def list_all_iff)
qed

lemma validated_indexes:
  assumes "Validate fq (Some t) = None"
  obtains m where "collectNodes fq [] (top_Nodes t) = Inr m" "\<forall>l \<in> set (top_Links t). link_ok (top_Nodes t) l"
    "distinct (map link_ID (top_Links t))" "distinct (endpoints (top_Links t))"
proof -
  from assms obtain m r where v: "collectNodes fq [] (top_Nodes t) = Inr m" "collectLinks fq m [] [] (top_Links t) = Inr r"
    by (auto simp: Validate_parts)
  with collectLinks_Inr [OF collectNodes_indexes [OF v(1)], of fq "[]" "[]" "top_Links t"] that show thesis by auto
qed

lemma endpoints_once:
  assumes "distinct (endpoints ls)" "l \<in> set ls" "l' \<in> set ls" "e \<in> {link_A l, link_B l}" "e \<in> {link_A l', link_B l'}"
  shows "l = l'"
  using assms
proof (induction ls)
  case (Cons k ls)
  have "link_A x \<in> set (endpoints ls) \<and> link_B x \<in> set (endpoints ls)" if "x \<in> set ls" for x
    using that by (auto simp: endpoints_def)
  with Cons show ?case by (auto simp: endpoints_def)
qed simp

text \<open>C21: a validated link is well typed. Each of its endpoints names a port of the topology, which
  the code's own lookup finds, of the medium of the link, and no other link uses that port.\<close>

theorem validated_link_typed:
  assumes "Validate fq (Some t) = None" "l \<in> set (top_Links t)" "e \<in> {link_A l, link_B l}"
  shows "\<exists>m p. collectNodes fq [] (top_Nodes t) = Inr m \<and> findPort fq m e = Inr p \<and>
    port_ID p = ep_Port e \<and> port_Kind p = link_Kind l \<and>
    (\<forall>l' \<in> set (top_Links t). e \<in> {link_A l', link_B l'} \<longrightarrow> l' = l)"
proof -
  obtain m where m: "collectNodes fq [] (top_Nodes t) = Inr m" "\<forall>l \<in> set (top_Links t). link_ok (top_Nodes t) l"
    "distinct (endpoints (top_Links t))" using validated_indexes [OF assms(1)] by metis
  note ix = collectNodes_indexes [OF m(1)]
  have "has_port (top_Nodes t) e (link_Kind l)" using m(2) assms(2,3) by (auto simp: link_ok_def)
  then obtain p where p: "findPort fq m e = Inr p" "port_Kind p = link_Kind l"
    using findPort_Inr [OF ix, of fq e "link_Kind l"] by blast
  then have "port_ID p = ep_Port e"
    by (auto simp: findPort_def find_Some_iff split: option.splits)
  with m p assms(2,3) endpoints_once [OF m(3)] show ?thesis by blast
qed

definition demo_topology :: Topology where
  "demo_topology =
     \<lparr>top_ID = ''lab'',
      top_Nodes =
        [\<lparr>node_ID = ''c'', node_Name = '''', node_Spec = Some (Container \<lparr>cs_Provider = '''', cs_Image = ''alpine'', cs_Command = [], cs_Env = []\<rparr>),
          node_Ports = [\<lparr>port_ID = ''eth0'', port_Kind = PortEthernet\<rparr>]\<rparr>,
         \<lparr>node_ID = ''n'', node_Name = '''', node_Spec = Some (Shitnet \<lparr>ss_IP = ''10.0.0.1'', ss_MAC = ''02:00:00:00:00:01''\<rparr>),
          node_Ports = [\<lparr>port_ID = ''p'', port_Kind = PortEthernet\<rparr>]\<rparr>],
      top_Links = [\<lparr>link_ID = ''l'', link_Kind = LinkEthernet, link_A = \<lparr>ep_Node = ''c'', ep_Port = ''eth0''\<rparr>,
          link_B = \<lparr>ep_Node = ''n'', ep_Port = ''p''\<rparr>, link_MTU = 0\<rparr>],
      top_Views = []\<rparr>"

lemma demo_topology_valid: "Validate id (Some demo_topology) = None"
  by code_simp

theorem validated_link_typed_witness:
  "\<exists>m p. collectNodes id [] (top_Nodes demo_topology) = Inr m \<and>
     findPort id m \<lparr>ep_Node = ''n'', ep_Port = ''p''\<rparr> = Inr p \<and> port_Kind p = LinkEthernet"
proof -
  let ?l = "hd (top_Links demo_topology)" and ?e = "\<lparr>ep_Node = ''n'', ep_Port = ''p''\<rparr>"
  have "?l \<in> set (top_Links demo_topology)" and "?e \<in> {link_A ?l, link_B ?l}" and k: "link_Kind ?l = LinkEthernet"
    by (simp_all add: demo_topology_def)
  from validated_link_typed [OF demo_topology_valid this(1,2)] k show ?thesis by metis
qed

section \<open>Errors\<close>

definition about :: "topology_kind list \<Rightarrow> gerror \<Rightarrow> bool" where
  "about ks e \<longleftrightarrow> (\<exists>k \<in> set ks. errors_Is e (TopologyKind k))"

lemma about_mono: "about ks e \<Longrightarrow> set ks \<subseteq> set ls \<Longrightarrow> about ls e"
  by (auto simp: about_def)

lemma node_errors:
  "validateEnv fq nid names es = Some e \<Longrightarrow> about [ErrInvalidNode] e"
  "validatePorts fq nid ports ps = Some e \<Longrightarrow> about [ErrInvalidPort, ErrDuplicateID] e"
  by (induction es arbitrary: names; induction ps arbitrary: ports; auto simp: about_def nodeErr_def split: if_splits)+

lemma validateNode_about: "validateNode fq n = Some e \<Longrightarrow> about [ErrInvalidNode, ErrInvalidPort, ErrDuplicateID] e"
  by (auto simp: validateNode_def validateSpec_def nodeErr_def about_def
      dest!: node_errors [unfolded about_def] split: if_splits option.splits NodeSpec.splits)

lemma collectNodes_about: "collectNodes fq m ns = Inl e \<Longrightarrow> about [ErrInvalidNode, ErrInvalidPort, ErrDuplicateID] e"
  by (induction ns arbitrary: m) (auto simp: topErr_def about_def dest!: validateNode_about [unfolded about_def] split: option.splits if_splits)

lemma validateLink_about: "validateLink fq m l = Some e \<Longrightarrow> about [ErrInvalidLink] e"
  by (auto simp: validateLink_def linkErr_def linkWrap_def about_def split: if_splits sum.splits)

lemma connect_about: "connect fq lid c es = Inl e \<Longrightarrow> about [ErrInvalidLink] e"
  by (induction es arbitrary: c) (auto simp: about_def split: option.splits)

lemma collectLinks_about: "collectLinks fq m links c ls = Inl e \<Longrightarrow> about [ErrInvalidLink, ErrDuplicateID] e"
  by (induction ls arbitrary: links c)
     (auto simp: topErr_def about_def simp del: connect.simps dest!: validateLink_about [unfolded about_def] connect_about [unfolded about_def]
       split: option.splits sum.splits if_splits)

lemma view_errors:
  "placeNodes fq m vid placed ns = Some e \<Longrightarrow> about [ErrInvalidView, ErrDuplicateID] e"
  "placeLinks fq links vid placed' ls = Some e \<Longrightarrow> about [ErrInvalidView, ErrDuplicateID] e"
  by (induction ns arbitrary: placed; induction ls arbitrary: placed'; auto simp: about_def viewErr_def split: if_splits)+

lemma validateViews_about: "validateViews fq m links ids vs = Some e \<Longrightarrow> about [ErrInvalidView, ErrDuplicateID] e"
  by (induction vs arbitrary: ids)
     (auto simp: viewErr_def about_def dest!: view_errors [unfolded about_def] split: if_splits option.splits)

text \<open>What \<open>Validate\<close> reports names the part that is wrong. A missing topology or identifier is
  \<open>ErrInvalidTopology\<close>; before that all nodes are checked, then all links, then the views, and the
  error of each phase is one of its own kinds or \<open>ErrDuplicateID\<close>. A link to a node or port that
  does not exist is reported as \<open>ErrInvalidLink\<close> wrapping \<open>ErrNotFound\<close>.\<close>

theorem Validate_error_kinds:
  "about [ErrInvalidTopology] (the (Validate fq None)) \<and>
   (top_ID t = '''' \<longrightarrow> (\<exists>e. Validate fq (Some t) = Some e \<and> about [ErrInvalidTopology] e)) \<and>
   (\<forall>e. top_ID t \<noteq> '''' \<and> Validate fq (Some t) = Some e \<longrightarrow>
      (case collectNodes fq [] (top_Nodes t) of
         Inl _ \<Rightarrow> about [ErrInvalidNode, ErrInvalidPort, ErrDuplicateID] e
       | Inr m \<Rightarrow>
           (case collectLinks fq m [] [] (top_Links t) of
              Inl _ \<Rightarrow> about [ErrInvalidLink, ErrDuplicateID] e
            | Inr _ \<Rightarrow> about [ErrInvalidView, ErrDuplicateID] e))) \<and>
   (\<forall>m. link_ID l \<noteq> '''' \<and> link_Kind l \<in> {LinkEthernet, LinkSerial} \<and> link_A l \<noteq> link_B l \<and>
      (isl (findPort fq m (link_A l)) \<or> isl (findPort fq m (link_B l))) \<longrightarrow>
      (\<exists>e. validateLink fq m l = Some e \<and> about [ErrInvalidLink] e \<and> about [topology_kind.ErrNotFound] e))"
proof (intro conjI allI impI)
  show "about [ErrInvalidTopology] (the (Validate fq None))"
    by (simp add: Validate_def topErr_def about_def)
  show "\<exists>e. Validate fq (Some t) = Some e \<and> about [ErrInvalidTopology] e" if "top_ID t = ''''"
    using that by (simp add: Validate_def topErr_def about_def)
  show "case collectNodes fq [] (top_Nodes t) of
         Inl _ \<Rightarrow> about [ErrInvalidNode, ErrInvalidPort, ErrDuplicateID] e
       | Inr m \<Rightarrow> (case collectLinks fq m [] [] (top_Links t) of
              Inl _ \<Rightarrow> about [ErrInvalidLink, ErrDuplicateID] e
            | Inr _ \<Rightarrow> about [ErrInvalidView, ErrDuplicateID] e)"
    if "top_ID t \<noteq> '''' \<and> Validate fq (Some t) = Some e" for e
    using that
    by (auto simp: Validate_def dest: collectNodes_about collectLinks_about validateViews_about split: sum.splits)
  have nf: "about [topology_kind.ErrNotFound] e" if "findPort fq m ep = Inl e" for m ep e
    using that by (auto simp: findPort_def about_def split: option.splits)
  show "\<exists>e. validateLink fq m l = Some e \<and> about [ErrInvalidLink] e \<and> about [topology_kind.ErrNotFound] e"
    if "link_ID l \<noteq> '''' \<and> link_Kind l \<in> {LinkEthernet, LinkSerial} \<and> link_A l \<noteq> link_B l \<and>
      (isl (findPort fq m (link_A l)) \<or> isl (findPort fq m (link_B l)))" for m
    using that
    by (cases "findPort fq m (link_A l)"; cases "findPort fq m (link_B l)")
       (auto simp: validateLink_def linkWrap_def about_def dest!: nf [unfolded about_def])
qed

theorem Validate_error_kinds_witness:
  "\<exists>e. Validate id (Some (demo_topology\<lparr>top_ID := ''''\<rparr>)) = Some e \<and> about [ErrInvalidTopology] e"
  using Validate_error_kinds [of id "demo_topology\<lparr>top_ID := ''''\<rparr>"] by auto

end
