(* ===== verification/Virt_Types.thy ===== *)
theory Virt_Types
  imports Storage_Types
begin

text \<open>
  The data of the workload contract (\<open>virt/provider.go\<close>) and of the two workload families whose
  managers the development models: containers (\<open>virt/container\<close>: \<open>config.go\<close>, \<open>runtime.go\<close>, \<open>node.go\<close>)
  and domains (\<open>virt/domain\<close>: the same three files). Enumerations that a caller supplies are strings,
  as in the storage contract; addresses of \<open>netip\<close> are kept in text form.
\<close>

section \<open>Nodes\<close>

type_synonym ConsoleType = string

record Console =
  con_Type :: ConsoleType
  con_Host :: string
  con_Port :: "16 word"

datatype NodeState = NodeStopped | NodeStarting | NodeRunning | NodeStopping | NodeSuspended

record NodeConfig =
  nc_ID :: string
  nc_Name :: string
  nc_Image :: string
  nc_CPUs :: int
  nc_MemoryMB :: int
  nc_ConsoleType :: ConsoleType
  nc_AuxConsoleType :: ConsoleType
  nc_Meta :: "(string, string) gomap"

record Node =
  vn_ID :: string
  vn_Name :: string
  vn_State :: NodeState
  vn_Console :: Console
  vn_Aux :: "Console option"

section \<open>Images\<close>

record Image =
  img_Registry :: string
  img_Tag :: string
  img_Digest :: string

text \<open>\<open>strings.Cut\<close> around the first occurrence, and what is before and after the last occurrence.\<close>

definition strings_Cut :: "char \<Rightarrow> string \<Rightarrow> string \<times> string" where
  "strings_Cut c s = (takeWhile (\<lambda>x. x \<noteq> c) s, drop 1 (dropWhile (\<lambda>x. x \<noteq> c) s))"

text \<open>\<open>strings.LastIndexByte\<close>, -1 if the character does not occur.\<close>

definition LastIndexByte :: "string \<Rightarrow> char \<Rightarrow> int" where
  "LastIndexByte s c = int (length s) - 1 - int (length (takeWhile (\<lambda>x. x \<noteq> c) (rev s)))"

definition ParseImage :: "string \<Rightarrow> Image" where
  "ParseImage ref =
     (let (registry, digest) = strings_Cut CHR ''@'' ref in
      if digest \<noteq> '''' then \<lparr>img_Registry = registry, img_Tag = '''', img_Digest = digest\<rparr>
      else
        let lastSlash = LastIndexByte registry CHR ''/'';
            colon = LastIndexByte registry CHR '':'' in
        if colon > lastSlash then
          \<lparr>img_Registry = take (nat colon) registry, img_Tag = drop (nat colon + 1) registry, img_Digest = ''''\<rparr>
        else \<lparr>img_Registry = registry, img_Tag = '''', img_Digest = ''''\<rparr>)"

definition Image_String :: "Image \<Rightarrow> string" where
  "Image_String i =
     (if img_Digest i \<noteq> '''' then
        (if img_Registry i = '''' then img_Digest i else img_Registry i @ ''@'' @ img_Digest i)
      else if img_Tag i \<noteq> '''' then
        (if img_Registry i = '''' then img_Tag i else img_Registry i @ '':'' @ img_Tag i)
      else img_Registry i)"

section \<open>Containers\<close>

record VolumeMount =
  vm_Source :: Ref
  vm_Target :: string
  vm_ReadOnly :: bool

record ContainerConfig =
  cc_NodeConfig :: NodeConfig
  cc_Image :: Image
  cc_Entrypoint :: "string list"
  cc_Cmd :: "string list"
  cc_Env :: "string list"
  cc_Volumes :: "VolumeMount list"
  cc_CapAdd :: "string list"
  cc_CapDrop :: "string list"
  cc_Privileged :: bool
  cc_NetworkMode :: string
  cc_Hostname :: string
  cc_DNS :: "string list"
  cc_ExtraHosts :: "string list"
  cc_Labels :: "(string, string) gomap"

record RuntimeVolumeMount =
  rv_Source :: string
  rv_Target :: string
  rv_ReadOnly :: bool

record container_RuntimeConfig =
  rc_NodeConfig :: NodeConfig
  rc_Image :: Image
  rc_Entrypoint :: "string list"
  rc_Cmd :: "string list"
  rc_Env :: "string list"
  rc_Volumes :: "RuntimeVolumeMount list"
  rc_CapAdd :: "string list"
  rc_CapDrop :: "string list"
  rc_Privileged :: bool
  rc_NetworkMode :: string
  rc_Hostname :: string
  rc_DNS :: "string list"
  rc_ExtraHosts :: "string list"
  rc_Labels :: "(string, string) gomap"

record ContainerNode =
  cn_Node :: Node
  cn_PID :: "32 word"
  cn_ImageID :: string
  cn_ImageName :: string
  cn_Labels :: "(string, string) gomap"
  cn_Networks :: "string list"

section \<open>Domains\<close>

type_synonym Firmware = string
type_synonym DiskBus = string
type_synonym DiskDevice = string
type_synonym DiskFormat = string
type_synonym InterfaceModel = string
type_synonym BootDevice = string

record Disk =
  disk_Source :: Ref
  disk_Device :: DiskDevice
  disk_Bus :: DiskBus
  disk_Target :: string
  disk_Format :: DiskFormat
  disk_ReadOnly :: bool

record Interface =
  if_MAC :: string
  if_Model :: InterfaceModel
  if_Bridge :: string

record domain_Config =
  dc_NodeConfig :: NodeConfig
  dc_Machine :: string
  dc_Architecture :: string
  dc_Firmware :: Firmware
  dc_Disks :: "Disk list"
  dc_Interfaces :: "Interface list"
  dc_BootOrder :: "BootDevice list"

record RuntimeDisk =
  rd_Source :: string
  rd_Device :: string
  rd_Bus :: string
  rd_Target :: string
  rd_Format :: string
  rd_ReadOnly :: bool

record domain_RuntimeConfig =
  dr_NodeConfig :: NodeConfig
  dr_Machine :: string
  dr_Architecture :: string
  dr_Firmware :: Firmware
  dr_Disks :: "RuntimeDisk list"
  dr_Interfaces :: "Interface list"
  dr_BootOrder :: "BootDevice list"

record DiskInfo =
  di_Target :: string
  di_Source :: string

record InterfaceInfo =
  ii_MAC :: string
  ii_Target :: string

record domain_Node =
  dn_Node :: Node
  dn_UUID :: string
  dn_Persistent :: bool
  dn_Disks :: "DiskInfo list"
  dn_Interfaces :: "InterfaceInfo list"

section \<open>Reading image references\<close>

lemma until_absent:
  assumes "c \<notin> set s"
  shows "takeWhile (\<lambda>x. x \<noteq> c) s = s" "dropWhile (\<lambda>x. x \<noteq> c) s = []"
    "takeWhile (\<lambda>x. x \<noteq> c) (s @ c # t) = s" "dropWhile (\<lambda>x. x \<noteq> c) (s @ c # t) = c # t"
  using assms by (induction s) auto

lemma strings_Cut_absent: "c \<notin> set s \<Longrightarrow> strings_Cut c s = (s, '''')"
  by (simp add: strings_Cut_def until_absent)

lemma strings_Cut_at: "c \<notin> set s \<Longrightarrow> strings_Cut c (s @ c # t) = (s, t)"
  by (simp add: strings_Cut_def until_absent)

lemma LastIndexByte_absent: "c \<notin> set s \<Longrightarrow> LastIndexByte s c = - 1"
  by (simp add: LastIndexByte_def until_absent)

lemma LastIndexByte_at: "c \<notin> set t \<Longrightarrow> LastIndexByte (s @ c # t) c = int (length s)"
  by (simp add: LastIndexByte_def until_absent)

lemma LastIndexByte_least: "- 1 \<le> LastIndexByte s c"
  using length_takeWhile_le [of "\<lambda>x. x \<noteq> c" "rev s"] by (simp add: LastIndexByte_def)

lemma LastIndexByte_bound: "LastIndexByte s c < int (length s)"
  by (simp add: LastIndexByte_def)

lemma LastIndexByte_less:
  assumes "c \<notin> set t" "d \<notin> set t" "c \<noteq> d"
  shows "LastIndexByte (s @ c # t) d < LastIndexByte (s @ c # t) c"
proof -
  have "takeWhile (\<lambda>x. x \<noteq> d) (rev (s @ c # t)) = rev t @ c # takeWhile (\<lambda>x. x \<noteq> d) (rev s)"
    using assms by (subst rev_append) (simp add: takeWhile_append)
  then show ?thesis unfolding LastIndexByte_at [OF assms(1)] by (simp add: LastIndexByte_def)
qed

text \<open>A reference has a tag if a colon follows its last slash.\<close>

definition tagged :: "string \<Rightarrow> string \<Rightarrow> string \<Rightarrow> bool" where
  "tagged ref r t \<longleftrightarrow> ref = r @ CHR '':'' # t \<and> CHR '':'' \<notin> set t \<and> CHR ''/'' \<notin> set t"

lemma tagged_iff:
  "LastIndexByte ref CHR ''/'' < LastIndexByte ref CHR '':'' \<longleftrightarrow> (\<exists>r t. tagged ref r t)"
proof
  assume less: "LastIndexByte ref CHR ''/'' < LastIndexByte ref CHR '':''"
  have "CHR '':'' \<in> set ref"
    using less LastIndexByte_absent [of "CHR '':''" ref] LastIndexByte_least [of ref "CHR ''/''"] by force
  then obtain r t where rt: "ref = r @ CHR '':'' # t" "CHR '':'' \<notin> set t"
    by (meson split_list_last)
  have "CHR ''/'' \<notin> set t"
  proof
    assume "CHR ''/'' \<in> set t"
    then obtain u v where "t = u @ CHR ''/'' # v" "CHR ''/'' \<notin> set v" by (meson split_list_last)
    with rt have "LastIndexByte ref CHR ''/'' = int (length (r @ CHR '':'' # u))"
      using LastIndexByte_at [of "CHR ''/''" v "r @ CHR '':'' # u"] by simp
    with less LastIndexByte_at [OF rt(2), of r] rt(1) show False by simp
  qed
  with rt show "\<exists>r t. tagged ref r t" by (auto simp: tagged_def)
next
  assume "\<exists>r t. tagged ref r t"
  then show "LastIndexByte ref CHR ''/'' < LastIndexByte ref CHR '':''"
    by (auto simp: tagged_def intro: LastIndexByte_less)
qed

lemma ParseImage_tagged:
  assumes "CHR ''@'' \<notin> set ref" "tagged ref r t"
  shows "ParseImage ref = \<lparr>img_Registry = r, img_Tag = t, img_Digest = ''''\<rparr>"
proof -
  have "LastIndexByte ref CHR '':'' = int (length r)"
    using assms(2) LastIndexByte_at [of "CHR '':''" t r] by (auto simp: tagged_def)
  moreover have "LastIndexByte ref CHR ''/'' < LastIndexByte ref CHR '':''" using assms(2) tagged_iff by blast
  ultimately show ?thesis using assms by (auto simp: ParseImage_def strings_Cut_absent Let_def tagged_def)
qed

lemma ParseImage_plain:
  assumes "CHR ''@'' \<notin> set ref" "\<nexists>r t. tagged ref r t"
  shows "ParseImage ref = \<lparr>img_Registry = ref, img_Tag = '''', img_Digest = ''''\<rparr>"
  using assms tagged_iff [of ref] by (auto simp: ParseImage_def strings_Cut_absent Let_def)

lemma ParseImage_digest:
  assumes "CHR ''@'' \<notin> set r" "d \<noteq> ''''"
  shows "ParseImage (r @ CHR ''@'' # d) = \<lparr>img_Registry = r, img_Tag = '''', img_Digest = d\<rparr>"
  using assms by (simp add: ParseImage_def strings_Cut_at)

lemma ParseImage_at_end:
  assumes "CHR ''@'' \<notin> set r"
  shows "ParseImage (r @ ''@'') = ParseImage r"
  using assms strings_Cut_at [of "CHR ''@''" r "''''"] by (simp add: ParseImage_def strings_Cut_absent)

end
