(* ===== verification/Storage_Release.thy ===== *)
theory Storage_Release
  imports Storage_Types "HOL-Library.Multiset"
begin

text \<open>
  What workload managers use of storage: the two calls of \<open>storage.Manager\<close> they make, over an
  arbitrary state of the rest of the system; \<open>storage.ReleaseResources\<close> with its in-place
  compaction of the slice; and the rollback context of \<open>internal/cleanup\<close>. A nil pointer is
  \<open>None\<close>. The locale \<open>storage_leases\<close> states the accounting a manager of leases allows; \<open>audited\<close>
  adds the account to any storage manager and interprets the locale.
\<close>

section \<open>Contexts\<close>

text \<open>A context is what it carries and what \<open>Err\<close> answers at a time (nanoseconds).\<close>

record Context =
  ctx_Value :: "string \<Rightarrow> string option"
  ctx_Done :: "int \<Rightarrow> gerror option"

definition cleanup_NewContext :: "int \<Rightarrow> Context \<Rightarrow> Context" where
  "cleanup_NewContext now ctx =
     ctx\<lparr>ctx_Done := (\<lambda>t. if now + 30 * 1000000000 \<le> t then Some (Sentinel (OS CtxDeadlineExceeded)) else None)\<rparr>"

section \<open>The storage manager as its clients see it\<close>

record 's StorageManager =
  sm_Prepare :: "Context \<Rightarrow> PrepareRequest \<Rightarrow> 's \<Rightarrow> (gerror + Prepared) \<times> 's"
  sm_Release :: "Context \<Rightarrow> Prepared option \<Rightarrow> 's \<Rightarrow> gerror option \<times> 's"

type_synonym PreparedResources = "Prepared option list"

text \<open>The loop of \<open>ReleaseResources\<close>: \<open>arr\<close> is the array behind both slices, \<open>i\<close> the index of the
  range loop and \<open>j\<close> the length of \<open>remaining\<close>, whose \<open>append\<close> writes to \<open>arr\<close> at \<open>j\<close>.\<close>

function releaseLoop :: "'s StorageManager \<Rightarrow> Context \<Rightarrow> nat \<Rightarrow> nat \<Rightarrow> PreparedResources \<Rightarrow> gerror list \<Rightarrow> 's \<Rightarrow>
    nat \<times> PreparedResources \<times> gerror list \<times> 's" where
  "releaseLoop M ctx i j arr failures s =
     (if i < length arr then
        (let resource = arr ! i in
         case sm_Release M ctx resource s of
           (None, s) \<Rightarrow> releaseLoop M ctx (i + 1) j arr failures s
         | (Some releaseErr, s) \<Rightarrow>
             releaseLoop M ctx (i + 1) (j + 1) (arr[j := resource]) (failures @ [releaseErr]) s)
      else (j, arr, failures, s))"
  by pat_completeness auto
termination by (relation "measure (\<lambda>(M, ctx, i, j, arr, failures, s). length arr - i)") auto

declare releaseLoop.simps [simp del]

text \<open>The value: the remaining leases, the array behind the argument afterwards, the error and the state.\<close>

definition ReleaseResources :: "'s StorageManager \<Rightarrow> Context \<Rightarrow> PreparedResources \<Rightarrow> 's \<Rightarrow>
    PreparedResources \<times> PreparedResources \<times> gerror option \<times> 's" where
  "ReleaseResources M ctx resources s =
     (case releaseLoop M ctx 0 0 resources [] s of
        (n, arr, failures, s) \<Rightarrow>
          let arr = take n arr @ replicate (length arr - n) None in
          (take n arr, arr, errors_Join (map Some failures), s))"

section \<open>The reference definition\<close>

text \<open>Each lease is released once, in order; those that failed are kept.\<close>

fun release_each :: "'s StorageManager \<Rightarrow> Context \<Rightarrow> PreparedResources \<Rightarrow> 's \<Rightarrow>
    PreparedResources \<times> gerror list \<times> 's" where
  "release_each M ctx [] s = ([], [], s)"
| "release_each M ctx (r # rs) s =
     (case sm_Release M ctx r s of
        (None, s) \<Rightarrow> release_each M ctx rs s
      | (Some e, s) \<Rightarrow> (case release_each M ctx rs s of (kept, es, s) \<Rightarrow> (r # kept, e # es, s)))"

lemma length_release_each: "release_each M ctx rs s = (kept, es, s') \<Longrightarrow> length es = length kept \<and> length kept \<le> length rs"
  by (induction rs arbitrary: s kept es s') (fastforce split: prod.splits option.splits)+

lemma releaseLoop_spec:
  assumes "j \<le> i" "i \<le> length arr" "release_each M ctx (drop i arr) s = (kept, es, s')"
  shows "\<exists>arr'. releaseLoop M ctx i j arr failures s = (j + length kept, arr', failures @ es, s') \<and>
    length arr' = length arr \<and> take (j + length kept) arr' = take j arr @ kept"
  using assms
proof (induction M ctx i j arr failures s arbitrary: kept es s' rule: releaseLoop.induct)
  case (1 M ctx i j arr failures s)
  show ?case
  proof (cases "i < length arr")
    case False
    with "1.prems" show ?thesis by (simp add: releaseLoop.simps)
  next
    case True
    obtain e t where r: "sm_Release M ctx (arr ! i) s = (e, t)" by force
    have d: "drop i arr = arr ! i # drop (i + 1) arr" using True by (simp add: Cons_nth_drop_Suc)
    show ?thesis
    proof (cases e)
      case None
      with "1.IH"(1) [OF True refl r [symmetric] None] "1.prems" r d True show ?thesis
        by (simp add: releaseLoop.simps [of M ctx i])
    next
      case (Some e')
      obtain k' f' u where k: "release_each M ctx (drop (i + 1) arr) t = (k', f', u)" by (metis prod_cases3)
      have u: "drop (i + 1) (arr[j := arr ! i]) = drop (i + 1) arr"
        using "1.prems"(1) by (simp add: drop_update_cancel)
      have tk: "take (j + 1) (arr[j := arr ! i]) = take j arr @ [arr ! i]"
        using "1.prems"(1,2) True by (simp add: take_Suc_conv_app_nth)
      from "1.IH"(2) [OF True refl r [symmetric] Some, of k' f' u] "1.prems"(1) True k u tk
      obtain arr' where "releaseLoop M ctx (i + 1) (j + 1) (arr[j := arr ! i]) (failures @ [e']) t =
          (j + 1 + length k', arr', (failures @ [e']) @ f', u)" "length arr' = length arr"
        "take (j + 1 + length k') arr' = (take j arr @ [arr ! i]) @ k'" by fastforce
      with "1.prems"(3) r d Some True k show ?thesis
        by (auto simp: releaseLoop.simps [of M ctx i])
    qed
  qed
qed

lemma ReleaseResources_spec:
  assumes "release_each M ctx rs s = (kept, es, s')"
  shows "ReleaseResources M ctx rs s =
    (kept, kept @ replicate (length rs - length kept) None, errors_Join (map Some es), s')"
proof -
  obtain arr' where "releaseLoop M ctx 0 0 rs [] s = (length kept, arr', es, s')"
    "length arr' = length rs" "take (length kept) arr' = kept"
    using releaseLoop_spec [of 0 0 rs M ctx s kept es s' "[]"] assms by auto
  then show ?thesis by (simp add: ReleaseResources_def)
qed

lemma release_each_None:
  "release_each M ctx rs s = (kept, es, s') \<Longrightarrow> errors_Join (map Some es) = None \<longleftrightarrow> kept = []"
  using length_release_each by (fastforce simp: errors_Join_None)

section \<open>Accounts of leases\<close>

locale storage_leases =
  fixes M :: "'s StorageManager"
    and acquired returned :: "'s \<Rightarrow> Prepared option multiset"
  assumes prepare_ok: "sm_Prepare M ctx req s = (Inr pr, s') \<Longrightarrow>
      acquired s' = add_mset (Some pr) (acquired s) \<and> returned s' = returned s"
    and prepare_err: "sm_Prepare M ctx req s = (Inl e, s') \<Longrightarrow> acquired s' = acquired s \<and> returned s' = returned s"
    and release_ok: "sm_Release M ctx r s = (None, s') \<Longrightarrow>
      acquired s' = acquired s \<and> returned s' = add_mset r (returned s)"
    and release_err: "sm_Release M ctx r s = (Some e, s') \<Longrightarrow> acquired s' = acquired s \<and> returned s' = returned s"
begin

lemma release_each_account:
  "release_each M ctx rs s = (kept, es, s') \<Longrightarrow>
   acquired s' = acquired s \<and> returned s' + mset kept = returned s + mset rs"
proof (induction rs arbitrary: s kept es s')
  case (Cons r rs)
  obtain e t where e: "sm_Release M ctx r s = (e, t)" by force
  obtain k f u where k: "release_each M ctx rs t = (k, f, u)" by (metis prod_cases3)
  from Cons.IH [OF k] Cons.prems e k release_ok [of ctx r s t] release_err [of ctx r s _ t]
  show ?case by (cases e) auto
qed simp

lemma ReleaseResources_account:
  assumes "ReleaseResources M ctx rs s = (remaining, arr, err, s')"
  shows "acquired s' = acquired s \<and> returned s' + mset remaining = returned s + mset rs \<and>
    (err = None \<longleftrightarrow> remaining = [])"
proof -
  obtain kept es t where r: "release_each M ctx rs s = (kept, es, t)" by (metis prod_cases3)
  with release_each_account [OF r] release_each_None [OF r] ReleaseResources_spec [OF r] assms
  show ?thesis by simp
qed

end

section \<open>Auditing any storage manager\<close>

record 's account =
  acc_state :: 's
  acc_acquired :: "Prepared option multiset"
  acc_returned :: "Prepared option multiset"

definition audited :: "'s StorageManager \<Rightarrow> 's account StorageManager" where
  "audited M =
     \<lparr>sm_Prepare = (\<lambda>ctx req a. case sm_Prepare M ctx req (acc_state a) of
          (Inr pr, s) \<Rightarrow> (Inr pr, a\<lparr>acc_state := s, acc_acquired := add_mset (Some pr) (acc_acquired a)\<rparr>)
        | (Inl e, s) \<Rightarrow> (Inl e, a\<lparr>acc_state := s\<rparr>)),
      sm_Release = (\<lambda>ctx r a. case sm_Release M ctx r (acc_state a) of
          (None, s) \<Rightarrow> (None, a\<lparr>acc_state := s, acc_returned := add_mset r (acc_returned a)\<rparr>)
        | (Some e, s) \<Rightarrow> (Some e, a\<lparr>acc_state := s\<rparr>))\<rparr>"

interpretation audit: storage_leases "audited M" acc_acquired acc_returned
  by unfold_locales (auto simp: audited_def split: prod.splits sum.splits option.splits)

end
