(* ===== verification/Virt_Manager.thy ===== *)
theory Virt_Manager
  imports Virt_Types Storage_Release
begin

text \<open>
  The workload managers (\<open>virt/container/manager.go\<close> and \<open>virt/domain/manager.go\<close>) over any storage
  manager and any workload provider, which act on a common state \<open>'s\<close>; \<open>now\<close> reads the clock of
  that state. The two packages repeat the same protocol; both are written out here, and shown to
  be instances of the loop \<open>prepareEach\<close>, for which the facts are proved once. A nil manager, nil
  storage manager, configuration or provider is \<open>None\<close>; \<open>fq\<close> is the quoting of \<open>%q\<close>.
\<close>

section \<open>Containers\<close>

definition container_Release ::
  "'s StorageManager \<Rightarrow> Context \<Rightarrow> PreparedResources option \<Rightarrow> 's \<Rightarrow> gerror option \<times> PreparedResources option \<times> 's" where
  "container_Release M ctx resources s =
     (case resources of
        None \<Rightarrow> (None, None, s)
      | Some volumes \<Rightarrow>
          (case ReleaseResources M ctx volumes s of
             (remaining, _, releaseErr, s) \<Rightarrow> (releaseErr, Some remaining, s)))"

definition container_rollback ::
  "('s \<Rightarrow> int) \<Rightarrow> 's StorageManager \<Rightarrow> Context \<Rightarrow> PreparedResources \<Rightarrow> gerror \<Rightarrow> 's \<Rightarrow> PreparedResources option \<times> gerror \<times> 's" where
  "container_rollback now M ctx resources cause s =
     (let cleanupCtx = cleanup_NewContext (now s) ctx in
      case container_Release M cleanupCtx (Some resources) s of
        (Some releaseErr, resources, s) \<Rightarrow> (resources, the (errors_Join [Some cause, Some releaseErr]), s)
      | (None, _, s) \<Rightarrow> (None, cause, s))"

text \<open>The loop over the volumes: the leases acquired so far, and the mounts or the error that ends it.\<close>

fun prepareVolumes :: "(string \<Rightarrow> string) \<Rightarrow> 's StorageManager \<Rightarrow> Context \<Rightarrow> string \<Rightarrow> RuntimeVolumeMount list \<Rightarrow>
    PreparedResources \<Rightarrow> VolumeMount list \<Rightarrow> 's \<Rightarrow> (gerror + RuntimeVolumeMount list) \<times> PreparedResources \<times> 's" where
  "prepareVolumes fq M ctx nodeID runtimeVolumes resources [] s = (Inr runtimeVolumes, resources, s)"
| "prepareVolumes fq M ctx nodeID runtimeVolumes resources (volume # volumes) s =
     (let accessMode = (if vm_ReadOnly volume then AccessReadOnly else AccessReadWrite) in
      case sm_Prepare M ctx \<lparr>req_Ref = vm_Source volume, req_NodeID = nodeID, req_AccessMode = accessMode,
             req_Mode = '''', req_ResourceType = '''', req_Create = False\<rparr> s of
        (Inl err, s) \<Rightarrow>
          (Inl (container_Wrap ''manager'' ErrInvalidConfig (Ref_String (vm_Source volume)) (Some err)), resources, s)
      | (Inr prepared, s) \<Rightarrow>
          let resources = resources @ [Some prepared] in
          if loc_Kind (pr_Location prepared) \<noteq> LocationPath then
            (Inl (container_New ''manager'' ErrInvalidConfig
               (''bind mount '' @ Ref_String (vm_Source volume) @ '' resolved to '' @ fq (loc_Kind (pr_Location prepared)))),
             resources, s)
          else
            prepareVolumes fq M ctx nodeID
              (runtimeVolumes @ [\<lparr>rv_Source = loc_Value (pr_Location prepared), rv_Target = vm_Target volume, rv_ReadOnly = vm_ReadOnly volume\<rparr>])
              resources volumes s)"

definition container_runtime :: "ContainerConfig \<Rightarrow> RuntimeVolumeMount list \<Rightarrow> container_RuntimeConfig" where
  "container_runtime cfg volumes =
     \<lparr>rc_NodeConfig = cc_NodeConfig cfg, rc_Image = cc_Image cfg, rc_Entrypoint = cc_Entrypoint cfg,
      rc_Cmd = cc_Cmd cfg, rc_Env = cc_Env cfg, rc_Volumes = volumes, rc_CapAdd = cc_CapAdd cfg,
      rc_CapDrop = cc_CapDrop cfg, rc_Privileged = cc_Privileged cfg, rc_NetworkMode = cc_NetworkMode cfg,
      rc_Hostname = cc_Hostname cfg, rc_DNS = cc_DNS cfg, rc_ExtraHosts = cc_ExtraHosts cfg, rc_Labels = cc_Labels cfg\<rparr>"

definition container_Prepare ::
  "(string \<Rightarrow> string) \<Rightarrow> ('s \<Rightarrow> int) \<Rightarrow> 's StorageManager option \<Rightarrow> Context \<Rightarrow> ContainerConfig option \<Rightarrow> 's \<Rightarrow>
   container_RuntimeConfig option \<times> PreparedResources option \<times> gerror option \<times> 's" where
  "container_Prepare fq now m ctx cfg s =
     (case (m, cfg) of
        (Some M, Some cfg) \<Rightarrow>
          (case prepareVolumes fq M ctx (nc_ID (cc_NodeConfig cfg)) [] [] (cc_Volumes cfg) s of
             (Inl cause, resources, s) \<Rightarrow>
               (case container_rollback now M ctx resources cause s of
                  (resources, err, s) \<Rightarrow> (None, resources, Some err, s))
           | (Inr volumes, resources, s) \<Rightarrow> (Some (container_runtime cfg volumes), Some resources, None, s))
      | _ \<Rightarrow> (None, None, Some (container_New ''manager'' ErrInvalidConfig ''storage manager and config are required''), s))"

type_synonym 's CreateContainer = "Context \<Rightarrow> container_RuntimeConfig \<Rightarrow> 's \<Rightarrow> (ContainerNode option \<times> gerror option) \<times> 's"

definition container_Create ::
  "(string \<Rightarrow> string) \<Rightarrow> ('s \<Rightarrow> int) \<Rightarrow> 's StorageManager option \<Rightarrow> Context \<Rightarrow> 's CreateContainer option \<Rightarrow> ContainerConfig option \<Rightarrow> 's \<Rightarrow>
   ContainerNode option \<times> PreparedResources option \<times> gerror option \<times> 's" where
  "container_Create fq now m ctx p cfg s =
     (case p of
        None \<Rightarrow> (None, None, Some (container_New ''manager'' ErrInvalidConfig ''provider is nil''), s)
      | Some CreateContainer \<Rightarrow>
          (case container_Prepare fq now m ctx cfg s of
             (Some runtimeCfg, Some resources, None, s) \<Rightarrow>
               (case CreateContainer ctx runtimeCfg s of
                  ((node, None), s) \<Rightarrow> (node, Some resources, None, s)
                | ((Some node, Some err), s) \<Rightarrow> (Some node, Some resources, Some err, s)
                | ((None, Some err), s) \<Rightarrow>
                    (case container_rollback now (the m) ctx resources err s of
                       (remaining, rollbackErr, s) \<Rightarrow> (None, remaining, Some rollbackErr, s)))
           | (_, resources, err, s) \<Rightarrow> (None, resources, err, s)))"

section \<open>Domains\<close>

definition domain_Release ::
  "'s StorageManager \<Rightarrow> Context \<Rightarrow> PreparedResources option \<Rightarrow> 's \<Rightarrow> gerror option \<times> PreparedResources option \<times> 's" where
  "domain_Release M ctx resources s =
     (case resources of
        None \<Rightarrow> (None, None, s)
      | Some disks \<Rightarrow>
          (case ReleaseResources M ctx disks s of
             (remaining, _, releaseErr, s) \<Rightarrow> (releaseErr, Some remaining, s)))"

definition domain_rollback ::
  "('s \<Rightarrow> int) \<Rightarrow> 's StorageManager \<Rightarrow> Context \<Rightarrow> PreparedResources \<Rightarrow> gerror \<Rightarrow> 's \<Rightarrow> PreparedResources option \<times> gerror \<times> 's" where
  "domain_rollback now M ctx resources cause s =
     (let cleanupCtx = cleanup_NewContext (now s) ctx in
      case domain_Release M cleanupCtx (Some resources) s of
        (Some releaseErr, resources, s) \<Rightarrow> (resources, the (errors_Join [Some cause, Some releaseErr]), s)
      | (None, _, s) \<Rightarrow> (None, cause, s))"

fun prepareDisks :: "(string \<Rightarrow> string) \<Rightarrow> 's StorageManager \<Rightarrow> Context \<Rightarrow> string \<Rightarrow> RuntimeDisk list \<Rightarrow>
    PreparedResources \<Rightarrow> Disk list \<Rightarrow> 's \<Rightarrow> (gerror + RuntimeDisk list) \<times> PreparedResources \<times> 's" where
  "prepareDisks fq M ctx nodeID disks resources [] s = (Inr disks, resources, s)"
| "prepareDisks fq M ctx nodeID disks resources (disk # ds) s =
     (let access = (if disk_ReadOnly disk then AccessReadOnly else AccessReadWrite) in
      case sm_Prepare M ctx \<lparr>req_Ref = disk_Source disk, req_NodeID = nodeID, req_AccessMode = access,
             req_Mode = '''', req_ResourceType = '''', req_Create = False\<rparr> s of
        (Inl err, s) \<Rightarrow> (Inl err, resources, s)
      | (Inr prepared, s) \<Rightarrow>
          let resources = resources @ [Some prepared] in
          if loc_Kind (pr_Location prepared) \<noteq> LocationPath then
            (Inl (storage_New ''domain'' ErrInvalidResourceType
               (''disk '' @ Ref_String (disk_Source disk) @ '' resolved to unsupported location '' @ fq (loc_Kind (pr_Location prepared)))),
             resources, s)
          else
            prepareDisks fq M ctx nodeID
              (disks @ [\<lparr>rd_Source = loc_Value (pr_Location prepared), rd_Device = disk_Device disk, rd_Bus = disk_Bus disk,
                         rd_Target = disk_Target disk, rd_Format = disk_Format disk, rd_ReadOnly = disk_ReadOnly disk\<rparr>])
              resources ds s)"

definition domain_runtime :: "domain_Config \<Rightarrow> RuntimeDisk list \<Rightarrow> domain_RuntimeConfig" where
  "domain_runtime cfg disks =
     \<lparr>dr_NodeConfig = dc_NodeConfig cfg, dr_Machine = dc_Machine cfg, dr_Architecture = dc_Architecture cfg,
      dr_Firmware = dc_Firmware cfg, dr_Disks = disks, dr_Interfaces = dc_Interfaces cfg, dr_BootOrder = dc_BootOrder cfg\<rparr>"

definition domain_Prepare ::
  "(string \<Rightarrow> string) \<Rightarrow> ('s \<Rightarrow> int) \<Rightarrow> 's StorageManager option \<Rightarrow> Context \<Rightarrow> domain_Config option \<Rightarrow> 's \<Rightarrow>
   domain_RuntimeConfig option \<times> PreparedResources option \<times> gerror option \<times> 's" where
  "domain_Prepare fq now m ctx cfg s =
     (case m of
        None \<Rightarrow> (None, None, Some (storage_New ''domain'' storage_kind.ErrInvalidOptions ''storage manager is not configured''), s)
      | Some M \<Rightarrow>
          (case cfg of
             None \<Rightarrow> (None, None, Some (storage_New ''domain'' storage_kind.ErrInvalidOptions ''configuration is nil''), s)
           | Some cfg \<Rightarrow>
               (case prepareDisks fq M ctx (nc_ID (dc_NodeConfig cfg)) [] [] (dc_Disks cfg) s of
                  (Inl cause, resources, s) \<Rightarrow>
                    (case domain_rollback now M ctx resources cause s of
                       (resources, err, s) \<Rightarrow> (None, resources, Some err, s))
                | (Inr disks, resources, s) \<Rightarrow> (Some (domain_runtime cfg disks), Some resources, None, s))))"

type_synonym 's CreateDomain = "Context \<Rightarrow> domain_RuntimeConfig \<Rightarrow> 's \<Rightarrow> (domain_Node option \<times> gerror option) \<times> 's"

definition domain_Create ::
  "(string \<Rightarrow> string) \<Rightarrow> ('s \<Rightarrow> int) \<Rightarrow> 's StorageManager option \<Rightarrow> Context \<Rightarrow> 's CreateDomain option \<Rightarrow> domain_Config option \<Rightarrow> 's \<Rightarrow>
   domain_Node option \<times> PreparedResources option \<times> gerror option \<times> 's" where
  "domain_Create fq now m ctx p cfg s =
     (case p of
        None \<Rightarrow> (None, None, Some (storage_New ''domain'' storage_kind.ErrInvalidOptions ''provider is nil''), s)
      | Some CreateDomain \<Rightarrow>
          (case domain_Prepare fq now m ctx cfg s of
             (Some runtimeCfg, Some resources, None, s) \<Rightarrow>
               (case CreateDomain ctx runtimeCfg s of
                  ((node, None), s) \<Rightarrow> (node, Some resources, None, s)
                | ((Some node, Some err), s) \<Rightarrow> (Some node, Some resources, Some err, s)
                | ((None, Some err), s) \<Rightarrow>
                    (case domain_rollback now (the m) ctx resources err s of
                       (remaining, rollbackErr, s) \<Rightarrow> (None, remaining, Some rollbackErr, s)))
           | (_, resources, err, s) \<Rightarrow> (None, resources, err, s)))"

end
