(* ===== verification/Virt_Manager_Facts.thy ===== *)
theory Virt_Manager_Facts
  imports Virt_Manager
begin

text \<open>
  Facts about the workload managers, proved once for the loop both share and, for the accounts of
  leases, inside the locale of lease accounting.
\<close>

section \<open>The shared loop\<close>

fun prepareEach :: "('i \<Rightarrow> Ref) \<Rightarrow> ('i \<Rightarrow> bool) \<Rightarrow> ('i \<Rightarrow> gerror \<Rightarrow> gerror) \<Rightarrow> ('i \<Rightarrow> LocationKind \<Rightarrow> gerror) \<Rightarrow> ('i \<Rightarrow> string \<Rightarrow> 'v) \<Rightarrow>
    's StorageManager \<Rightarrow> Context \<Rightarrow> string \<Rightarrow> 'v list \<Rightarrow> PreparedResources \<Rightarrow> 'i list \<Rightarrow> 's \<Rightarrow>
    (gerror + 'v list) \<times> PreparedResources \<times> 's" where
  "prepareEach src ro wrap bad conv M ctx nodeID vs rs [] s = (Inr vs, rs, s)"
| "prepareEach src ro wrap bad conv M ctx nodeID vs rs (x # xs) s =
     (case sm_Prepare M ctx \<lparr>req_Ref = src x, req_NodeID = nodeID,
             req_AccessMode = (if ro x then AccessReadOnly else AccessReadWrite),
             req_Mode = '''', req_ResourceType = '''', req_Create = False\<rparr> s of
        (Inl e, s) \<Rightarrow> (Inl (wrap x e), rs, s)
      | (Inr pr, s) \<Rightarrow>
          if loc_Kind (pr_Location pr) \<noteq> LocationPath
          then (Inl (bad x (loc_Kind (pr_Location pr))), rs @ [Some pr], s)
          else prepareEach src ro wrap bad conv M ctx nodeID (vs @ [conv x (loc_Value (pr_Location pr))]) (rs @ [Some pr]) xs s)"

definition mount_of :: "VolumeMount \<Rightarrow> string \<Rightarrow> RuntimeVolumeMount" where
  "mount_of v path = \<lparr>rv_Source = path, rv_Target = vm_Target v, rv_ReadOnly = vm_ReadOnly v\<rparr>"

definition disk_of :: "Disk \<Rightarrow> string \<Rightarrow> RuntimeDisk" where
  "disk_of d path = \<lparr>rd_Source = path, rd_Device = disk_Device d, rd_Bus = disk_Bus d, rd_Target = disk_Target d,
     rd_Format = disk_Format d, rd_ReadOnly = disk_ReadOnly d\<rparr>"

lemma prepareVolumes_eq:
  "prepareVolumes fq M ctx n vs rs xs s =
   prepareEach vm_Source vm_ReadOnly (\<lambda>v e. container_Wrap ''manager'' ErrInvalidConfig (Ref_String (vm_Source v)) (Some e))
     (\<lambda>v k. container_New ''manager'' ErrInvalidConfig (''bind mount '' @ Ref_String (vm_Source v) @ '' resolved to '' @ fq k))
     mount_of M ctx n vs rs xs s"
  by (induction xs arbitrary: vs rs s) (auto simp: Let_def mount_of_def split: prod.split sum.split)

lemma prepareDisks_eq:
  "prepareDisks fq M ctx n vs rs xs s =
   prepareEach disk_Source disk_ReadOnly (\<lambda>_ e. e)
     (\<lambda>d k. storage_New ''domain'' ErrInvalidResourceType (''disk '' @ Ref_String (disk_Source d) @ '' resolved to unsupported location '' @ fq k))
     disk_of M ctx n vs rs xs s"
  by (induction xs arbitrary: vs rs s) (auto simp: Let_def disk_of_def split: prod.split sum.split)

lemma domain_rollback_eq: "domain_rollback = container_rollback"
  by (simp add: fun_eq_iff domain_rollback_def container_rollback_def domain_Release_def container_Release_def)

lemma domain_Release_eq: "domain_Release = container_Release"
  by (simp add: fun_eq_iff domain_Release_def container_Release_def)

text \<open>If every volume is prepared, each has its lease and its mount, in order.\<close>

lemma prepareEach_mounts:
  assumes "prepareEach src ro wrap bad conv M ctx n vs rs xs s = (Inr vs', rs', s')"
  shows "\<exists>ps. length ps = length xs \<and> rs' = rs @ map Some ps \<and>
    vs' = vs @ map2 (\<lambda>x pr. conv x (loc_Value (pr_Location pr))) xs ps"
  using assms
proof (induction xs arbitrary: vs rs s)
  case (Cons x xs)
  from Cons.prems obtain pr t where "prepareEach src ro wrap bad conv M ctx n (vs @ [conv x (loc_Value (pr_Location pr))])
      (rs @ [Some pr]) xs t = (Inr vs', rs', s')"
    by (auto split: prod.splits sum.splits if_splits)
  from Cons.IH [OF this] obtain ps where "length ps = length xs" "rs' = rs @ map Some (pr # ps)"
    "vs' = vs @ map2 (\<lambda>x pr. conv x (loc_Value (pr_Location pr))) (x # xs) (pr # ps)" by auto
  then show ?case by (intro exI [of _ "pr # ps"]) auto
qed auto

lemma rollback_cause:
  assumes "container_rollback now M ctx rs cause s = (res, err, s')" "errors_Is cause k"
  shows "errors_Is err k"
  using assms errors_Join_Is
  by (fastforce simp: container_rollback_def Let_def errors_Join_def split: prod.splits option.splits)

section \<open>Accounts\<close>

abbreviation owned :: "PreparedResources option \<Rightarrow> PreparedResources" where
  "owned res \<equiv> (case res of None \<Rightarrow> [] | Some rs \<Rightarrow> rs)"

context storage_leases
begin

lemma prepareEach_account:
  assumes "prepareEach src ro wrap bad conv M ctx n vs rs xs s = (r, rs', s')"
  shows "acquired s' + mset rs = acquired s + mset rs' \<and> returned s' = returned s"
  using assms
proof (induction xs arbitrary: vs rs s)
  case (Cons x xs)
  let ?req = "\<lparr>req_Ref = src x, req_NodeID = n, req_AccessMode = (if ro x then AccessReadOnly else AccessReadWrite),
             req_Mode = '''', req_ResourceType = '''', req_Create = False\<rparr>"
  obtain q t where q: "sm_Prepare M ctx ?req s = (q, t)" by force
  show ?case
  proof (cases q)
    case (Inl e)
    with Cons.prems q prepare_err [of ctx ?req s e t] show ?thesis by auto
  next
    case (Inr pr)
    note t = prepare_ok [OF q [unfolded Inr]]
    show ?thesis
    proof (cases "loc_Kind (pr_Location pr) = LocationPath")
      case True
      with Cons.prems q Inr have "prepareEach src ro wrap bad conv M ctx n (vs @ [conv x (loc_Value (pr_Location pr))])
          (rs @ [Some pr]) xs t = (r, rs', s')" by simp
      from Cons.IH [OF this] t show ?thesis by simp
    qed (use Cons.prems q Inr t in auto)
  qed
qed simp

lemma Release_account:
  assumes "container_Release M ctx res s = (err, res', s')"
  shows "acquired s' = acquired s \<and> returned s' + mset (owned res') = returned s + mset (owned res) \<and>
    (err = None \<longleftrightarrow> owned res' = [])"
  using assms ReleaseResources_account
  by (fastforce simp: container_Release_def split: option.splits prod.splits)

lemma rollback_account:
  assumes "container_rollback now M ctx rs cause s = (res, err, s')"
  shows "acquired s' = acquired s \<and> returned s' + mset (owned res) = returned s + mset rs \<and> res \<noteq> Some []"
proof -
  obtain e res1 t where e: "container_Release M (cleanup_NewContext (now s) ctx) (Some rs) s = (e, res1, t)" by (metis prod_cases3)
  with assms Release_account [OF e] show ?thesis
    by (auto simp: container_rollback_def Let_def split: option.splits)
qed

end

end
