(* ===== verification/Virt_Manager_Properties.thy ===== *)
theory Virt_Manager_Properties
  imports Virt_Manager_Facts Storage_Lifecycle_Properties
begin

text \<open>
  What the workload managers promise: who owns which lease after \<open>Create\<close>, \<open>Prepare\<close> and \<open>Release\<close>,
  on every path and for every storage manager; the same managers over the local storage provider;
  and the round trip of image references.
\<close>

section \<open>Ownership\<close>

definition owns_rest :: "('s \<Rightarrow> Prepared option multiset) \<Rightarrow> ('s \<Rightarrow> Prepared option multiset) \<Rightarrow> 's \<Rightarrow>
    nat \<Rightarrow> bool \<Rightarrow> PreparedResources option \<Rightarrow> gerror option \<Rightarrow> 's \<Rightarrow> bool" where
  "owns_rest acquired returned s n made res err s' \<longleftrightarrow>
     acquired s' + returned s = acquired s + returned s' + mset (owned res) \<and>
     (err = None \<longrightarrow> (\<exists>rs. res = Some rs \<and> length rs = n)) \<and>
     (err = None \<or> made \<longrightarrow> returned s' = returned s) \<and>
     (err \<noteq> None \<and> \<not> made \<longrightarrow> res \<noteq> Some [])"

context storage_leases
begin

lemma container_Create_account:
  assumes keep: "\<And>c s r s'. p ctx c s = (r, s') \<Longrightarrow> acquired s' = acquired s \<and> returned s' = returned s"
    and run: "container_Create fq clk (Some M) ctx (Some p) (Some cfg) s = (node, res, err, s')"
  shows "owns_rest acquired returned s (length (cc_Volumes cfg)) (node \<noteq> None) res err s'"
proof -
  obtain r rs t where r: "prepareVolumes fq M ctx (nc_ID (cc_NodeConfig cfg)) [] [] (cc_Volumes cfg) s = (r, rs, t)"
    by (metis prod_cases3)
  note acc = prepareEach_account [OF r [unfolded prepareVolumes_eq]]
  show ?thesis
  proof (cases r)
    case (Inl cause)
    obtain res1 e u where "container_rollback clk M ctx rs cause t = (res1, e, u)" by (metis prod_cases3)
    with run r Inl acc rollback_account [OF this] show ?thesis
      by (auto simp: container_Create_def container_Prepare_def owns_rest_def)
  next
    case (Inr vs)
    have len: "length rs = length (cc_Volumes cfg)"
      using prepareEach_mounts [OF r [unfolded Inr prepareVolumes_eq]] by auto
    obtain nd e u where p: "p ctx (container_runtime cfg vs) t = ((nd, e), u)" by (metis prod_cases3 prod.collapse)
    note k = keep [OF p]
    obtain res1 e1 v where b: "container_rollback clk M ctx rs (the e) u = (res1, e1, v)" by (metis prod_cases3)
    show ?thesis
    proof (cases "e \<noteq> None \<and> nd = None")
      case True
      with run r Inr p b acc k rollback_account [OF b] show ?thesis
        by (auto simp: container_Create_def container_Prepare_def owns_rest_def)
    next
      case False
      with run r Inr p acc k len show ?thesis
        by (cases e; cases nd) (auto simp: container_Create_def container_Prepare_def owns_rest_def)
    qed
  qed
qed

lemma domain_Create_account:
  assumes keep: "\<And>c s r s'. p ctx c s = (r, s') \<Longrightarrow> acquired s' = acquired s \<and> returned s' = returned s"
    and run: "domain_Create fq clk (Some M) ctx (Some p) (Some cfg) s = (node, res, err, s')"
  shows "owns_rest acquired returned s (length (dc_Disks cfg)) (node \<noteq> None) res err s'"
proof -
  obtain r rs t where r: "prepareDisks fq M ctx (nc_ID (dc_NodeConfig cfg)) [] [] (dc_Disks cfg) s = (r, rs, t)"
    by (metis prod_cases3)
  note acc = prepareEach_account [OF r [unfolded prepareDisks_eq]]
  note defs = domain_Create_def domain_Prepare_def owns_rest_def domain_rollback_eq
  show ?thesis
  proof (cases r)
    case (Inl cause)
    obtain res1 e u where "container_rollback clk M ctx rs cause t = (res1, e, u)" by (metis prod_cases3)
    with run r Inl acc rollback_account [OF this] show ?thesis by (auto simp: defs)
  next
    case (Inr vs)
    have len: "length rs = length (dc_Disks cfg)"
      using prepareEach_mounts [OF r [unfolded Inr prepareDisks_eq]] by auto
    obtain nd e u where p: "p ctx (domain_runtime cfg vs) t = ((nd, e), u)" by (metis prod_cases3 prod.collapse)
    note k = keep [OF p]
    obtain res1 e1 v where b: "container_rollback clk M ctx rs (the e) u = (res1, e1, v)" by (metis prod_cases3)
    show ?thesis
    proof (cases "e \<noteq> None \<and> nd = None")
      case True
      with run r Inr p b acc k rollback_account [OF b] show ?thesis by (auto simp: defs)
    next
      case False
      with run r Inr p acc k len show ?thesis by (cases e; cases nd) (auto simp: defs)
    qed
  qed
qed

end

text \<open>A workload provider acts on the rest of the system and not on the account.\<close>

definition on_state :: "('c \<Rightarrow> 'd \<Rightarrow> 's \<Rightarrow> 'r \<times> 's) \<Rightarrow> 'c \<Rightarrow> 'd \<Rightarrow> 's account \<Rightarrow> 'r \<times> 's account" where
  "on_state p ctx cfg a = (case p ctx cfg (acc_state a) of (r, s) \<Rightarrow> (r, a\<lparr>acc_state := s\<rparr>))"

lemma on_state_keeps:
  "on_state p ctx cfg a = (r, a') \<Longrightarrow> acc_acquired a' = acc_acquired a \<and> acc_returned a' = acc_returned a"
  by (auto simp: on_state_def split: prod.splits)

definition opened :: "'s \<Rightarrow> 's account" where
  "opened s = \<lparr>acc_state = s, acc_acquired = {#}, acc_returned = {#}\<rparr>"

text \<open>C22: no lease is lost and none is released twice. Whatever the storage manager and the workload
  provider do, after \<open>Create\<close> of a container or a domain the leases acquired are exactly those
  released together with those handed to the caller. On success the caller holds one lease per
  volume and nothing was released; if a node was made in spite of an error nothing was released
  either, so the node can be deleted first; on an error without a node, resources are returned only
  if a lease remains. A later \<open>Release\<close>, with any context, keeps the account and returns an error
  exactly if a lease remains.\<close>

theorem Create_accounts_for_leases:
  assumes "container_Create fq clk (Some (audited M)) ctx (Some (on_state p)) (Some cfg) (opened s) = (node, res, err, a)"
    and "domain_Create fq clk (Some (audited M)) ctx (Some (on_state q)) (Some dcfg) (opened s) = (dnode, dres, derr, b)"
    and "container_Release (audited M) ctx' res a = (err', res', a')"
    and "domain_Release (audited M) ctx' dres b = (derr', dres', b')"
  shows "owns_rest acc_acquired acc_returned (opened s) (length (cc_Volumes cfg)) (node \<noteq> None) res err a \<and>
    owns_rest acc_acquired acc_returned (opened s) (length (dc_Disks dcfg)) (dnode \<noteq> None) dres derr b \<and>
    acc_acquired a' = acc_returned a' + mset (owned res') \<and> (err' = None \<longleftrightarrow> owned res' = []) \<and>
    acc_acquired b' = acc_returned b' + mset (owned dres') \<and> (derr' = None \<longleftrightarrow> owned dres' = [])"
proof -
  have c: "owns_rest acc_acquired acc_returned (opened s) (length (cc_Volumes cfg)) (node \<noteq> None) res err a"
    by (rule audit.container_Create_account [OF _ assms(1)]) (rule on_state_keeps)
  have d: "owns_rest acc_acquired acc_returned (opened s) (length (dc_Disks dcfg)) (dnode \<noteq> None) dres derr b"
    by (rule audit.domain_Create_account [OF _ assms(2)]) (rule on_state_keeps)
  from c d audit.Release_account [OF assms(3)] audit.Release_account [OF assms(4) [unfolded domain_Release_eq]]
  show ?thesis by (simp add: owns_rest_def opened_def)
qed

definition demo_node :: NodeConfig where
  "demo_node = \<lparr>nc_ID = ''n1'', nc_Name = ''n1'', nc_Image = '''', nc_CPUs = 1, nc_MemoryMB = 64,
     nc_ConsoleType = '''', nc_AuxConsoleType = '''', nc_Meta = []\<rparr>"

definition demo_container :: ContainerConfig where
  "demo_container = \<lparr>cc_NodeConfig = demo_node, cc_Image = ParseImage ''alpine:3.20'', cc_Entrypoint = [], cc_Cmd = [], cc_Env = [],
     cc_Volumes = [\<lparr>vm_Source = demo_ref ''f'', vm_Target = ''/data'', vm_ReadOnly = True\<rparr>,
                   \<lparr>vm_Source = demo_ref ''g'', vm_Target = ''/more'', vm_ReadOnly = False\<rparr>],
     cc_CapAdd = [], cc_CapDrop = [], cc_Privileged = False, cc_NetworkMode = '''', cc_Hostname = '''', cc_DNS = [],
     cc_ExtraHosts = [], cc_Labels = []\<rparr>"

definition demo_domain :: domain_Config where
  "demo_domain = \<lparr>dc_NodeConfig = demo_node, dc_Machine = '''', dc_Architecture = '''', dc_Firmware = '''',
     dc_Disks = [], dc_Interfaces = [], dc_BootOrder = []\<rparr>"

definition background :: Context where
  "background = \<lparr>ctx_Value = (\<lambda>_. None), ctx_Done = (\<lambda>_. None)\<rparr>"

text \<open>A storage manager whose second preparation fails.\<close>

definition demo_store :: "nat StorageManager" where
  "demo_store = \<lparr>sm_Prepare = (\<lambda>ctx req n. if n = 1 then (Inl (os_err EIO), n + 1) else (Inr demo_prepared, n + 1)),
     sm_Release = (\<lambda>ctx r n. (None, n))\<rparr>"

theorem Create_accounts_for_leases_witness:
  "\<exists>node res err a. container_Create id (\<lambda>_. 0) (Some (audited demo_store)) background
       (Some (on_state (\<lambda>ctx cfg n. ((None, None), n)))) (Some demo_container) (opened 0) = (node, res, err, a) \<and>
     acc_acquired a = {#Some demo_prepared#} \<and>
     owns_rest acc_acquired acc_returned (opened 0) 2 (node \<noteq> None) res err a"
proof -
  obtain node res err a where c: "container_Create id (\<lambda>_. 0) (Some (audited demo_store)) background
    (Some (on_state (\<lambda>ctx cfg n. ((None, None), n)))) (Some demo_container) (opened 0) = (node, res, err, a)"
    by (metis prod_cases4)
  obtain dnode dres derr b where d: "domain_Create id (\<lambda>_. 0) (Some (audited demo_store)) background
    (Some (on_state (\<lambda>ctx cfg n. ((None, None), n)))) (Some demo_domain) (opened 0) = (dnode, dres, derr, b)"
    by (metis prod_cases4)
  obtain e1 r1 a1 where r: "container_Release (audited demo_store) background res a = (e1, r1, a1)" by (metis prod_cases3)
  obtain e2 r2 b2 where r': "domain_Release (audited demo_store) background dres b = (e2, r2, b2)" by (metis prod_cases3)
  have "acc_acquired a = {#Some demo_prepared#}"
    using c by (auto simp: container_Create_def container_Prepare_def demo_container_def audited_def demo_store_def opened_def
      demo_prepared_def container_rollback_def container_Release_def Let_def ReleaseResources_def releaseLoop.simps errors_Join_def)
  moreover have "length (cc_Volumes demo_container) = 2" by (simp add: demo_container_def)
  ultimately show ?thesis using c Create_accounts_for_leases [OF c d r r'] by metis
qed

section \<open>Releasing\<close>

text \<open>The in-place compaction of \<open>ReleaseResources\<close> computes what the reference definition says:
  every lease is released once, in order; the leases whose release failed are returned in order,
  with their errors joined; the rest of the array behind the slice is cleared, so that no released
  lease stays reachable; and without a failure there is no error and nothing remains.\<close>

theorem ReleaseResources_compacts:
  "ReleaseResources M ctx rs s =
     (case release_each M ctx rs s of
        (kept, es, s') \<Rightarrow> (kept, kept @ replicate (length rs - length kept) None, errors_Join (map Some es), s')) \<and>
   (\<forall>kept arr err s'. ReleaseResources M ctx rs s = (kept, arr, err, s') \<longrightarrow>
      length arr = length rs \<and> (err = None \<longleftrightarrow> kept = []))"
proof -
  obtain kept es s' where r: "release_each M ctx rs s = (kept, es, s')" by (metis prod_cases3)
  show ?thesis
    using ReleaseResources_spec [OF r] release_each_None [OF r] length_release_each [OF r] by (simp add: r)
qed

theorem ReleaseResources_compacts_witness:
  "\<exists>kept arr err s'. ReleaseResources demo_store background [Some demo_prepared, None] 0 = (kept, arr, err, s') \<and> length arr = 2"
proof -
  obtain kept arr err s' where r: "ReleaseResources demo_store background [Some demo_prepared, None] 0 = (kept, arr, err, s')"
    by (metis prod_cases4)
  have "length arr = 2"
    using ReleaseResources_compacts [THEN conjunct2, rule_format, OF r] by simp
  with r show ?thesis by blast
qed

section \<open>Over the local storage provider\<close>

text \<open>The provider sees a context through its answers, which depend on the time of the look.\<close>

definition run_io :: "'a io \<Rightarrow> Context \<Rightarrow> world \<Rightarrow> 'a outcome \<times> world" where
  "run_io m ctx w =
     (case m (w\<lparr>ctx_err := (\<lambda>n. ctx_Done ctx (clock w n))\<rparr>) of (r, w') \<Rightarrow> (r, w'\<lparr>ctx_err := ctx_err w\<rparr>))"

definition never_returned :: gerror where
  "never_returned = Foreign ''the call did not return'' []"

definition local_manager :: "Provider \<Rightarrow> world StorageManager" where
  "local_manager p =
     \<lparr>sm_Prepare = (\<lambda>ctx req w. case run_io (Prepare p req) ctx w of
          (Ok pr, w) \<Rightarrow> (Inr pr, w) | (Err e, w) \<Rightarrow> (Inl e, w) | (Diverges, w) \<Rightarrow> (Inl never_returned, w)),
      sm_Release = (\<lambda>ctx r w. case run_io (Release p r) ctx w of
          (Ok _, w) \<Rightarrow> (None, w) | (Err e, w) \<Rightarrow> (Some e, w) | (Diverges, w) \<Rightarrow> (Some never_returned, w))\<rparr>"

text \<open>All that a client relies on of the tree below the provider.\<close>

definition undisturbed :: "world \<Rightarrow> world \<Rightarrow> bool" where
  "undisturbed w w' \<longleftrightarrow> files w' = files w \<and> outside w' = outside w \<and> fault w' = fault w \<and> clock w' = clock w"

lemma undisturbed_refl: "undisturbed w w"
  by (simp add: undisturbed_def)

lemma undisturbed_trans: "undisturbed u v \<Longrightarrow> undisturbed v w \<Longrightarrow> undisturbed u w"
  by (simp add: undisturbed_def)

definition lease_of :: "Provider \<Rightarrow> fsys \<Rightarrow> Ref \<Rightarrow> Prepared \<Rightarrow> bool" where
  "lease_of p fs ref pr \<longleftrightarrow>
     pr_Ref pr = ref \<and> ref_Provider ref = prov_name p \<and>
     pr_Location pr = \<lparr>loc_Kind = LocationPath, loc_Value = fullPath p (filepath_Clean (ref_Key ref))\<rparr> \<and>
     mget fs (filepath_Clean (ref_Key ref)) \<noteq> None"

lemma local_prepare:
  assumes "fs_wf (files w)" "honest w" "\<not> req_Create req" "sm_Prepare (local_manager p) ctx req w = (r, w')"
  shows "undisturbed w w' \<and> (\<forall>pr. r = Inr pr \<longrightarrow> lease_of p (files w) (req_Ref req) pr)"
proof -
  let ?w = "w\<lparr>ctx_err := (\<lambda>n. ctx_Done ctx (clock w n))\<rparr>"
  obtain o1 w1 where o: "Prepare p req ?w = (o1, w1)" by force
  have "fs_wf (files ?w)" "honest ?w" using assms(1,2) by (simp_all add: honest_def)
  note run = Prepare_run [OF this o]
  have eq: "r = (case o1 of Ok pr \<Rightarrow> Inr pr | Err e \<Rightarrow> Inl e | Diverges \<Rightarrow> Inl never_returned) \<and> w' = w1\<lparr>ctx_err := ctx_err w\<rparr>"
    using assms(4) o by (cases o1) (auto simp: local_manager_def run_io_def)
  have "files w1 = files w" using run assms(3) by (simp add: prep_frame_def)
  with run eq show ?thesis
    by (cases o1) (auto simp: undisturbed_def same_env_def lease_of_def prepared_for_def valid_ref_def)
qed

lemma local_release:
  assumes "ctx_Done ctx (clock w (ticks w)) = None" "ref_Provider (pr_Ref pr) = prov_name p"
  shows "\<exists>w'. sm_Release (local_manager p) ctx (Some pr) w = (None, w') \<and> undisturbed w w' \<and> ticks w' = ticks w + 1"
  using assms
  by (simp add: local_manager_def run_io_def Release_def checkOwner_def bnd_def ctx_Err_def modify_def ret_def prov_emit_eq
      Let_def undisturbed_def)

lemma local_release_each:
  assumes "\<And>i. i < length rs \<Longrightarrow> ctx_Done ctx (clock w (ticks w + i)) = None"
    "list_all (\<lambda>r. \<exists>pr. r = Some pr \<and> ref_Provider (pr_Ref pr) = prov_name p) rs"
  shows "\<exists>w'. release_each (local_manager p) ctx rs w = ([], [], w') \<and> undisturbed w w'"
  using assms
proof (induction rs arbitrary: w)
  case (Cons r rs)
  then obtain pr where pr: "r = Some pr" "ref_Provider (pr_Ref pr) = prov_name p" by auto
  have "ctx_Done ctx (clock w (ticks w)) = None" using Cons.prems(1) [of 0] by simp
  from local_release [OF this pr(2)] obtain w1 where w1: "sm_Release (local_manager p) ctx (Some pr) w = (None, w1)"
    "undisturbed w w1" "ticks w1 = ticks w + 1" by blast
  have "ctx_Done ctx (clock w1 (ticks w1 + i)) = None" if "i < length rs" for i
    using Cons.prems(1) [of "Suc i"] that w1(2,3) by (simp add: undisturbed_def)
  from Cons.IH [OF this] Cons.prems(2) obtain w2 where "release_each (local_manager p) ctx rs w1 = ([], [], w2)" "undisturbed w1 w2"
    by auto
  with w1 pr show ?case using undisturbed_trans by auto
qed (simp add: undisturbed_refl)

definition local_now :: "world \<Rightarrow> int" where
  "local_now w = clock w (ticks w)"

text \<open>Any \<open>k\<close> successive looks at the clock fall within the thirty seconds that a rollback has.\<close>

definition prompt :: "nat \<Rightarrow> world \<Rightarrow> bool" where
  "prompt k w \<longleftrightarrow> (\<forall>m n. m \<le> n \<and> n < m + k \<longrightarrow> clock w n < clock w m + 30 * 1000000000)"

lemma local_rollback:
  assumes "prompt k w" "length rs \<le> k" "list_all (\<lambda>r. \<exists>pr. r = Some pr \<and> ref_Provider (pr_Ref pr) = prov_name p) rs"
  shows "\<exists>w'. container_rollback local_now (local_manager p) ctx rs cause w = (None, cause, w') \<and> undisturbed w w'"
proof -
  let ?c = "cleanup_NewContext (local_now w) ctx"
  have "ctx_Done ?c (clock w (ticks w + i)) = None" if "i < length rs" for i
    using assms(1,2) that by (simp add: cleanup_NewContext_def local_now_def prompt_def not_le)
  from local_release_each [OF this assms(3)] obtain w' where
    "release_each (local_manager p) ?c rs w = ([], [], w')" "undisturbed w w'" by blast
  with ReleaseResources_spec [OF this(1)] show ?thesis
    by (simp add: container_rollback_def container_Release_def Let_def errors_Join_def)
qed

lemma local_prepareEach:
  assumes "fs_wf (files w)" "honest w"
    "prepareEach src ro wrap bad conv (local_manager p) ctx n vs rs xs w = (r, rs', w')"
  shows "undisturbed w w' \<and> (\<exists>ps. rs' = rs @ map Some ps \<and> length ps \<le> length xs \<and> list_all (\<lambda>pr. ref_Provider (pr_Ref pr) = prov_name p) ps \<and>
    (\<forall>vs'. r = Inr vs' \<longrightarrow> list_all2 (\<lambda>x pr. lease_of p (files w) (src x) pr) xs ps \<and>
       vs' = vs @ map (\<lambda>x. conv x (fullPath p (filepath_Clean (ref_Key (src x))))) xs))"
  using assms
proof (induction xs arbitrary: vs rs w)
  case Nil
  then show ?case by (auto simp: undisturbed_refl intro!: exI [of _ "[]"])
next
  case (Cons x xs)
  let ?req = "\<lparr>req_Ref = src x, req_NodeID = n, req_AccessMode = (if ro x then AccessReadOnly else AccessReadWrite),
             req_Mode = '''', req_ResourceType = '''', req_Create = False\<rparr>"
  obtain q t where q: "sm_Prepare (local_manager p) ctx ?req w = (q, t)" by force
  note step = local_prepare [OF Cons.prems(1,2) _ q, simplified]
  show ?case
  proof (cases q)
    case (Inl e)
    with Cons.prems(3) q step show ?thesis by (auto intro!: exI [of _ "[]"])
  next
    case (Inr pr)
    with step have l: "lease_of p (files w) (src x) pr" and t: "undisturbed w t" by auto
    then have f: "files t = files w" "honest t" using Cons.prems(2) by (auto simp: undisturbed_def honest_def)
    have "prepareEach src ro wrap bad conv (local_manager p) ctx n (vs @ [conv x (loc_Value (pr_Location pr))]) (rs @ [Some pr]) xs t = (r, rs', w')"
      using Cons.prems(3) q Inr l by (simp add: lease_of_def)
    from Cons.IH [OF _ f(2) this] f(1) Cons.prems(1) obtain ps where ps: "undisturbed t w'" "rs' = rs @ map Some (pr # ps)" "length ps \<le> length xs"
      "list_all (\<lambda>pr. ref_Provider (pr_Ref pr) = prov_name p) ps"
      "\<forall>vs'. r = Inr vs' \<longrightarrow> list_all2 (\<lambda>x pr. lease_of p (files w) (src x) pr) xs ps \<and>
         vs' = vs @ [conv x (loc_Value (pr_Location pr))] @ map (\<lambda>x. conv x (fullPath p (filepath_Clean (ref_Key (src x))))) xs" by auto
    have "list_all (\<lambda>pr. ref_Provider (pr_Ref pr) = prov_name p) (pr # ps)" using l ps(4) by (simp add: lease_of_def)
    moreover have "loc_Value (pr_Location pr) = fullPath p (filepath_Clean (ref_Key (src x)))" using l by (simp add: lease_of_def)
    ultimately show ?thesis using ps l undisturbed_trans [OF t ps(1)] by (intro conjI exI [of _ "pr # ps"]) auto
  qed
qed

text \<open>C23: over the local storage provider, preparing a container or a domain is all or nothing. A
  failure, even one caused by the cancellation of the caller's context, leaves the caller with no
  lease to clean up, since the rollback has a context of its own, as long as the clock stays within
  its thirty seconds. On success every mount (disk) is the full path of an object that exists under
  its reference. Either way no file changes and nothing outside the root is touched.\<close>

theorem local_Prepare_all_or_nothing:
  assumes "fs_wf (files w)" "honest w" "prompt (length (cc_Volumes cfg)) w" "prompt (length (dc_Disks dcfg)) w"
    and "container_Prepare fq local_now (Some (local_manager p)) ctx (Some cfg) w = (rc, res, err, w1)"
    and "domain_Prepare fq local_now (Some (local_manager p)) ctx (Some dcfg) w = (drc, dres, derr, w2)"
  shows "files w1 = files w \<and> outside w1 = outside w \<and> files w2 = files w \<and> outside w2 = outside w \<and>
    (case err of
       Some _ \<Rightarrow> rc = None \<and> res = None
     | None \<Rightarrow> (\<exists>ps. res = Some (map Some ps) \<and> list_all2 (\<lambda>v. lease_of p (files w) (vm_Source v)) (cc_Volumes cfg) ps) \<and>
         rc = Some (container_runtime cfg (map (\<lambda>v. mount_of v (fullPath p (filepath_Clean (ref_Key (vm_Source v))))) (cc_Volumes cfg)))) \<and>
    (case derr of
       Some _ \<Rightarrow> drc = None \<and> dres = None
     | None \<Rightarrow> (\<exists>ps. dres = Some (map Some ps) \<and> list_all2 (\<lambda>d. lease_of p (files w) (disk_Source d)) (dc_Disks dcfg) ps) \<and>
         drc = Some (domain_runtime dcfg (map (\<lambda>d. disk_of d (fullPath p (filepath_Clean (ref_Key (disk_Source d))))) (dc_Disks dcfg))))"
proof -
  have pr: "prompt k u" if "prompt k w" "undisturbed w u" for k u using that by (simp add: prompt_def undisturbed_def)
  have own: "list_all (\<lambda>r. \<exists>pr. r = Some pr \<and> ref_Provider (pr_Ref pr) = prov_name p) (map Some ps)"
    if "list_all (\<lambda>pr. ref_Provider (pr_Ref pr) = prov_name p) ps" for ps
    using that by (simp add: list_all_iff)
  obtain r rs u where r: "prepareVolumes fq (local_manager p) ctx (nc_ID (cc_NodeConfig cfg)) [] [] (cc_Volumes cfg) w = (r, rs, u)"
    by (metis prod_cases3)
  note L = local_prepareEach [OF assms(1,2) r [unfolded prepareVolumes_eq]]
  obtain d ds v where d: "prepareDisks fq (local_manager p) ctx (nc_ID (dc_NodeConfig dcfg)) [] [] (dc_Disks dcfg) w = (d, ds, v)"
    by (metis prod_cases3)
  note D = local_prepareEach [OF assms(1,2) d [unfolded prepareDisks_eq]]
  obtain ps qs where ps: "rs = map Some ps" "length ps \<le> length (cc_Volumes cfg)" "list_all (\<lambda>pr. ref_Provider (pr_Ref pr) = prov_name p) ps"
    and qs: "ds = map Some qs" "length qs \<le> length (dc_Disks dcfg)" "list_all (\<lambda>pr. ref_Provider (pr_Ref pr) = prov_name p) qs" using L D by auto
  have c: "files w1 = files w \<and> outside w1 = outside w \<and> (case err of
       Some _ \<Rightarrow> rc = None \<and> res = None
     | None \<Rightarrow> (\<exists>ps. res = Some (map Some ps) \<and> list_all2 (\<lambda>v. lease_of p (files w) (vm_Source v)) (cc_Volumes cfg) ps) \<and>
         rc = Some (container_runtime cfg (map (\<lambda>v. mount_of v (fullPath p (filepath_Clean (ref_Key (vm_Source v))))) (cc_Volumes cfg))))"
  proof (cases r)
    case (Inl cause)
    obtain u' where "container_rollback local_now (local_manager p) ctx rs cause u = (None, cause, u')" "undisturbed u u'"
      using local_rollback [OF pr [OF assms(3)] _ own [OF ps(3)], of u ctx cause] L ps(1,2) by auto
    with assms(5) r Inl L show ?thesis by (auto simp: container_Prepare_def undisturbed_def)
  next
    case (Inr vs)
    with assms(5) r L show ?thesis by (auto simp: container_Prepare_def undisturbed_def)
  qed
  have "files w2 = files w \<and> outside w2 = outside w \<and> (case derr of
       Some _ \<Rightarrow> drc = None \<and> dres = None
     | None \<Rightarrow> (\<exists>ps. dres = Some (map Some ps) \<and> list_all2 (\<lambda>d. lease_of p (files w) (disk_Source d)) (dc_Disks dcfg) ps) \<and>
         drc = Some (domain_runtime dcfg (map (\<lambda>d. disk_of d (fullPath p (filepath_Clean (ref_Key (disk_Source d))))) (dc_Disks dcfg))))"
  proof (cases d)
    case (Inl cause)
    obtain v' where "container_rollback local_now (local_manager p) ctx ds cause v = (None, cause, v')" "undisturbed v v'"
      using local_rollback [OF pr [OF assms(4)] _ own [OF qs(3)], of v ctx cause] D qs(1,2) by auto
    with assms(6) d Inl D show ?thesis by (auto simp: domain_Prepare_def undisturbed_def domain_rollback_eq)
  next
    case (Inr vs)
    with assms(6) d D show ?thesis by (auto simp: domain_Prepare_def undisturbed_def)
  qed
  with c show ?thesis by blast
qed

theorem local_Prepare_all_or_nothing_witness:
  "files (snd (snd (snd (container_Prepare id local_now (Some (local_manager demo_prov)) background (Some demo_container) (demo_world demo_tree)))))
   = demo_tree"
proof -
  obtain rc res err w1 where c: "container_Prepare id local_now (Some (local_manager demo_prov)) background (Some demo_container) (demo_world demo_tree)
    = (rc, res, err, w1)" by (metis prod_cases4)
  obtain drc dres derr w2 where d: "domain_Prepare id local_now (Some (local_manager demo_prov)) background (Some demo_domain) (demo_world demo_tree)
    = (drc, dres, derr, w2)" by (metis prod_cases4)
  have "prompt (length (cc_Volumes demo_container)) (demo_world demo_tree)" "prompt (length (dc_Disks demo_domain)) (demo_world demo_tree)"
    by (auto simp: prompt_def demo_world_def demo_container_def demo_domain_def)
  from local_Prepare_all_or_nothing [OF _ _ this c d] c show ?thesis by simp
qed

section \<open>Image references\<close>

text \<open>The references \<open>String\<close> cannot reproduce: an empty repository, tag or digest next to its separator.\<close>

definition degenerate :: "string \<Rightarrow> bool" where
  "degenerate ref \<longleftrightarrow>
     (\<exists>d. ref = CHR ''@'' # d) \<or> (\<exists>r. CHR ''@'' \<notin> set r \<and> ref = r @ ''@'') \<or>
     CHR ''@'' \<notin> set ref \<and> (\<exists>r t. tagged ref r t \<and> (r = '''' \<or> t = ''''))"

definition proper_image :: "Image \<Rightarrow> bool" where
  "proper_image i \<longleftrightarrow> img_Registry i \<noteq> '''' \<and> CHR ''@'' \<notin> set (img_Registry i) \<and>
     (if img_Digest i \<noteq> '''' then img_Tag i = ''''
      else if img_Tag i \<noteq> '''' then set (img_Tag i) \<inter> {CHR ''@'', CHR '':'', CHR ''/''} = {}
      else \<not> (\<exists>r t. tagged (img_Registry i) r t))"

lemma Image_String_ParseImage: "Image_String (ParseImage ref) = ref \<longleftrightarrow> \<not> degenerate ref"
proof (cases "CHR ''@'' \<in> set ref")
  case True
  then obtain r d where rd: "ref = r @ CHR ''@'' # d" "CHR ''@'' \<notin> set r" by (meson split_list_first)
  have short: "length (Image_String (ParseImage r)) \<le> length r" if "CHR ''@'' \<notin> set r" for r
  proof (cases "\<exists>r' t. tagged r r' t")
    case True
    then obtain r' t where "tagged r r' t" by blast
    with ParseImage_tagged [OF that this] show ?thesis by (auto simp: Image_String_def tagged_def)
  qed (simp add: ParseImage_plain [OF that] Image_String_def)
  show ?thesis
  proof (cases "d = ''''")
    case True
    with rd short [OF rd(2)] ParseImage_at_end [OF rd(2)] show ?thesis
      by (auto simp: degenerate_def dest: arg_cong [of _ _ length])
  next
    case False
    have "degenerate ref \<longleftrightarrow> r = ''''"
    proof
      assume "degenerate ref"
      then consider e where "ref = CHR ''@'' # e" | r' where "CHR ''@'' \<notin> set r'" "ref = r' @ ''@''"
        using True by (auto simp: degenerate_def)
      then show "r = ''''"
      proof cases
        case 1
        with rd show ?thesis by (cases r) auto
      next
        case 2
        then have "strings_Cut CHR ''@'' ref = (r', '''')" using strings_Cut_at [of "CHR ''@''" r' "''''"] by simp
        with rd strings_Cut_at [of "CHR ''@''" r d] False show ?thesis by simp
      qed
    qed (use rd in \<open>auto simp: degenerate_def\<close>)
    with rd False ParseImage_digest [OF rd(2) False] show ?thesis
      by (auto simp: Image_String_def dest: arg_cong [of _ _ length])
  qed
next
  case False
  show ?thesis
  proof (cases "\<exists>r t. tagged ref r t")
    case True
    then obtain r t where rt: "tagged ref r t" by blast
    have uniq: "r' = r \<and> t' = t" if "tagged ref r' t'" for r' t'
      using ParseImage_tagged [OF False that] ParseImage_tagged [OF False rt] by simp
    have "\<not> (\<exists>d. ref = CHR ''@'' # d)" "\<not> (\<exists>r. CHR ''@'' \<notin> set r \<and> ref = r @ ''@'')"
      using False by force+
    with False rt uniq have "degenerate ref \<longleftrightarrow> r = '''' \<or> t = ''''"
      unfolding degenerate_def by metis
    moreover have "ref = r @ CHR '':'' # t" using rt by (simp add: tagged_def)
    ultimately show ?thesis using ParseImage_tagged [OF False rt] by (simp add: Image_String_def)
  next
    case untagged: False
    have "\<not> degenerate ref" using False untagged unfolding degenerate_def by (metis in_set_conv_decomp list.set_intros(1))
    with ParseImage_plain [OF False untagged] show ?thesis by (simp add: Image_String_def)
  qed
qed

text \<open>Image references survive parsing and printing, in both directions: \<open>String\<close> reproduces a parsed
  reference exactly if it is not degenerate, and parsing the text of a proper image (with a
  repository, and either a digest or a tag or neither) gives the image back. A reference with both a
  tag and a digest keeps the tag inside the repository part.\<close>

theorem Image_roundtrip:
  "(Image_String (ParseImage ref) = ref \<longleftrightarrow> \<not> degenerate ref) \<and>
   (proper_image i \<longrightarrow> ParseImage (Image_String i) = i) \<and>
   (CHR ''@'' \<notin> set (repo @ tag) \<and> digest \<noteq> '''' \<longrightarrow>
      ParseImage (repo @ '':'' @ tag @ ''@'' @ digest) = \<lparr>img_Registry = repo @ '':'' @ tag, img_Tag = '''', img_Digest = digest\<rparr>)"
proof (intro conjI impI)
  show "Image_String (ParseImage ref) = ref \<longleftrightarrow> \<not> degenerate ref" by (rule Image_String_ParseImage)
  show "ParseImage (Image_String i) = i" if i: "proper_image i"
  proof -
    obtain r t d where ird: "i = \<lparr>img_Registry = r, img_Tag = t, img_Digest = d\<rparr>" by (cases i)
    have r: "r \<noteq> ''''" "CHR ''@'' \<notin> set r" using i by (simp_all add: proper_image_def ird)
    consider "d \<noteq> ''''" "t = ''''" | "d = ''''" "t \<noteq> ''''" "set t \<inter> {CHR ''@'', CHR '':'', CHR ''/''} = {}"
      | "d = ''''" "t = ''''" "\<not> (\<exists>r' t'. tagged r r' t')"
      using i by (auto simp: proper_image_def ird split: if_splits)
    then show ?thesis
    proof cases
      case 1
      with r ParseImage_digest [OF r(2) 1(1)] show ?thesis by (simp add: Image_String_def ird)
    next
      case 2
      then have "CHR ''@'' \<notin> set (r @ CHR '':'' # t)" "tagged (r @ CHR '':'' # t) r t" using r by (auto simp: tagged_def)
      from ParseImage_tagged [OF this] 2 r show ?thesis by (simp add: Image_String_def ird)
    next
      case 3
      with ParseImage_plain [OF r(2) 3(3)] show ?thesis by (simp add: Image_String_def ird)
    qed
  qed
  show "ParseImage (repo @ '':'' @ tag @ ''@'' @ digest) = \<lparr>img_Registry = repo @ '':'' @ tag, img_Tag = '''', img_Digest = digest\<rparr>"
    if "CHR ''@'' \<notin> set (repo @ tag) \<and> digest \<noteq> ''''"
    using that ParseImage_digest [of "repo @ '':'' @ tag" digest] by simp
qed

theorem Image_roundtrip_witness:
  "ParseImage ''alpine:3.20@sha256:00'' = \<lparr>img_Registry = ''alpine:3.20'', img_Tag = '''', img_Digest = ''sha256:00''\<rparr> \<and>
   proper_image (ParseImage ''alpine'') \<and> ParseImage (Image_String (ParseImage ''alpine'')) = ParseImage ''alpine''"
proof -
  have "ParseImage ''alpine'' = \<lparr>img_Registry = ''alpine'', img_Tag = '''', img_Digest = ''''\<rparr>" by code_simp
  then have p: "proper_image (ParseImage ''alpine'')" by (auto simp: proper_image_def tagged_def Cons_eq_append_conv)
  with Image_roundtrip [of "''alpine''" "ParseImage ''alpine''" "''alpine''" "''3.20''" "''sha256:00''"] show ?thesis by simp
qed

end
