(* ===== verification/Dynamips.thy ===== *)
theory Dynamips
  imports Virt_Manager Net_Addr
begin

text \<open>
  The Dynamips provider (\<open>virt/emulator/dynamips\<close>): configuration and its validation
  (\<open>config.go\<close>, \<open>platform.go\<close>, \<open>runtime.go\<close>, \<open>validate.go\<close>), the adapter over the native runtime
  (\<open>adapter.go\<close>, \<open>create.go\<close>, \<open>inspect.go\<close>, \<open>lifecycle.go\<close>) and the manager of router state
  storage (\<open>manager.go\<close>). The native runtime is a third-party library: the calls the adapter makes
  are the functions of the record \<open>native\<close>, over a state \<open>'s\<close> of the rest of the system, as is the
  resolution of symbolic links by the operating system. Native handles are numbers. Byte strings
  of configurations are lists of words; \<open>None\<close> is the nil slice.
\<close>

section \<open>Configuration\<close>

record C7200Config =
  c72_NPE :: string
  c72_Midplane :: string

record PlatformConfig =
  plat_Name :: string
  plat_Chassis :: string
  plat_MAC :: "(8 word list) option"
  plat_C7200 :: "C7200Config option"

record Card =
  card_Slot :: "32 word"
  card_Name :: string

record UDPConfig =
  udp_LocalPort :: "16 word"
  udp_Remote :: AddrPort

record dynamips_Interface =
  dif_ID :: string
  dif_Slot :: "32 word"
  dif_Port :: "32 word"
  dif_UDP :: UDPConfig

record dynamips_Config =
  dy_NodeConfig :: NodeConfig
  dy_State :: Ref
  dy_Platform :: PlatformConfig
  dy_InstanceID :: "32 word"
  dy_Cards :: "Card list"
  dy_Interfaces :: "dynamips_Interface list"
  dy_ConsolePort :: "16 word"
  dy_EnhancedConsole :: bool
  dy_StartupConfig :: "(8 word list) option"
  dy_PrivateConfig :: "(8 word list) option"

record dynamips_RuntimeConfig =
  dy_Config :: dynamips_Config
  dy_StateDirectory :: string

abbreviation rid :: "dynamips_RuntimeConfig \<Rightarrow> string" where
  "rid cfg \<equiv> nc_ID (dy_NodeConfig (dy_Config cfg))"

abbreviation rname :: "dynamips_RuntimeConfig \<Rightarrow> string" where
  "rname cfg \<equiv> nc_Name (dy_NodeConfig (dy_Config cfg))"

abbreviation ConsoleNone :: ConsoleType where "ConsoleNone \<equiv> ''none''"
abbreviation ConsoleTelnet :: ConsoleType where "ConsoleTelnet \<equiv> ''telnet''"

section \<open>Validation\<close>

abbreviation NUL :: char where "NUL \<equiv> CHR 0x00"

definition IsAbs :: "string \<Rightarrow> bool" where
  "IsAbs s \<longleftrightarrow> (case s of [] \<Rightarrow> False | c # _ \<Rightarrow> c = CHR ''/'')"

definition dyErr :: "dynamips_kind \<Rightarrow> string \<Rightarrow> gerror option" where
  "dyErr k t = Some (dynamips_New ''validate router'' k t)"

fun validateCards :: "32 word list \<Rightarrow> Card list \<Rightarrow> gerror option" where
  "validateCards slots [] = None"
| "validateCards slots (c # cards) =
     (if card_Name c = '''' \<or> NUL \<in> set (card_Name c) then dyErr dynamips_kind.ErrConfig ''card name''
      else if card_Slot c \<in> set slots then dyErr dynamips_kind.ErrConfig ''duplicate card slot''
      else validateCards (card_Slot c # slots) cards)"

fun validateInterfaces :: "string list \<Rightarrow> (32 word \<times> 32 word) list \<Rightarrow> dynamips_Interface list \<Rightarrow> gerror option" where
  "validateInterfaces ids ports [] = None"
| "validateInterfaces ids ports (iface # ifaces) =
     (if dif_ID iface = '''' \<or> NUL \<in> set (dif_ID iface) \<or> udp_LocalPort (dif_UDP iface) = 0 \<or>
         udp_Remote (dif_UDP iface) = NoAddr \<or> \<not> addr_Is4 (udp_Remote (dif_UDP iface)) \<or> addr_Port (udp_Remote (dif_UDP iface)) = 0
      then dyErr dynamips_kind.ErrConfig ''interface requires an ID and IPv4 UDP endpoints''
      else if dif_ID iface \<in> set ids \<or> (dif_Slot iface, dif_Port iface) \<in> set ports
      then dyErr dynamips_kind.ErrConfig ''duplicate interface ID or card port''
      else validateInterfaces (dif_ID iface # ids) ((dif_Slot iface, dif_Port iface) # ports) ifaces)"

definition validatePlatform :: "PlatformConfig \<Rightarrow> gerror option" where
  "validatePlatform p =
     (if plat_Name p \<notin> {''c1700'', ''c2600'', ''c2691'', ''c3600'', ''c3725'', ''c3745'', ''c7200''}
      then dyErr dynamips_kind.ErrUnsupported (plat_Name p)
      else if plat_Chassis p \<noteq> '''' \<or> (plat_MAC p \<noteq> None \<and> plat_Name p \<noteq> ''c7200'')
      then dyErr dynamips_kind.ErrUnsupported ''generic chassis and MAC setters need native bindings''
      else case plat_C7200 p of
        None \<Rightarrow> None
      | Some c \<Rightarrow>
          if plat_Name p \<noteq> ''c7200'' then dyErr dynamips_kind.ErrConfig ''C7200 settings require the c7200 platform''
          else if NUL \<in> set (c72_NPE c @ c72_Midplane c) then dyErr dynamips_kind.ErrConfig ''C7200 settings contain NUL''
          else None)"

definition validateConsole :: "NodeConfig \<Rightarrow> 16 word \<Rightarrow> bool \<Rightarrow> gerror option" where
  "validateConsole nc port enhanced =
     (if nc_CPUs nc \<noteq> 0 \<and> nc_CPUs nc \<noteq> 1 then dyErr dynamips_kind.ErrUnsupported ''CPU count''
      else if nc_AuxConsoleType nc \<noteq> '''' \<and> nc_AuxConsoleType nc \<noteq> ConsoleNone
      then dyErr dynamips_kind.ErrUnsupported ''auxiliary console''
      else if nc_ConsoleType nc \<noteq> '''' \<and> nc_ConsoleType nc \<noteq> ConsoleNone \<and> nc_ConsoleType nc \<noteq> ConsoleTelnet
      then dyErr dynamips_kind.ErrUnsupported ''console transport''
      else if (nc_ConsoleType nc = ConsoleNone \<and> port \<noteq> 0) \<or> (nc_ConsoleType nc = ConsoleTelnet \<and> port = 0)
      then dyErr dynamips_kind.ErrConfig ''console type and port conflict''
      else if enhanced \<and> port = 0 then dyErr dynamips_kind.ErrConfig ''enhanced console requires a TCP console port''
      else None)"

abbreviation MaxUint32 :: int where "MaxUint32 \<equiv> 2 ^ 32 - 1"

definition validateConfig :: "dynamips_RuntimeConfig option \<Rightarrow> gerror option" where
  "validateConfig cfg =
     (case cfg of
        None \<Rightarrow> dyErr dynamips_kind.ErrConfig ''nil config''
      | Some cfg \<Rightarrow>
          let dir = dy_StateDirectory cfg; c = dy_Config cfg; nc = dy_NodeConfig c in
          if dir \<noteq> '''' \<and> (\<not> IsAbs dir \<or> NUL \<in> set dir)
          then dyErr dynamips_kind.ErrConfig ''state directory must be an absolute path''
          else if nc_ID nc = '''' \<or> nc_Name nc = '''' \<or> nc_Image nc = '''' \<or>
            set (nc_Name nc) \<inter> {CHR ''/'', CHR 0x5C, NUL} \<noteq> {} \<or> NUL \<in> set (nc_ID nc @ nc_Image nc)
          then dyErr dynamips_kind.ErrConfig ''ID, name, and image are required; name must be a filename''
          else if sint (dy_InstanceID c) < 0 \<or> nc_MemoryMB nc < 0 \<or> nc_MemoryMB nc > MaxUint32
          then dyErr dynamips_kind.ErrConfig ''instance ID and RAM size must fit native ranges''
          else case validatePlatform (dy_Platform c) of
            Some e \<Rightarrow> Some e
          | None \<Rightarrow>
              (case validateConsole nc (dy_ConsolePort c) (dy_EnhancedConsole c) of
                 Some e \<Rightarrow> Some e
               | None \<Rightarrow>
                   (case validateCards [] (dy_Cards c) of
                      Some e \<Rightarrow> Some e
                    | None \<Rightarrow> validateInterfaces [] [] (dy_Interfaces c))))"

section \<open>The native runtime\<close>

record VMConfig =
  vmc_Name :: string
  vmc_InstanceID :: "32 word"
  vmc_Platform :: string
  vmc_StateDirectory :: string

record native_UDPConfig =
  nu_Name :: string
  nu_LocalPort :: "16 word"
  nu_RemoteHost :: string
  nu_RemotePort :: "16 word"

datatype vm_call =
    SetC7200NPE string | SetC7200Midplane string | SetC7200MACAddr "8 word list" | SetIOS string
  | SetRAM "32 word" | SetConsoleTCPPort "16 word" | PushConfig "(8 word list) option" "(8 word list) option"
  | AddCard "32 word" string | AttachNIO "32 word" "32 word" nat
  | VM_Start | VM_Stop | VM_Suspend | VM_Resume

datatype vm_status = VMHalted | VMShutdown | VMRunning | VMSuspended | VMOther

record 's native =
  nat_CreateVM :: "VMConfig \<Rightarrow> 's \<Rightarrow> (gerror + nat) \<times> 's"
  nat_call :: "nat \<Rightarrow> vm_call \<Rightarrow> 's \<Rightarrow> gerror option \<times> 's"
  nat_DeleteVM :: "nat \<Rightarrow> 's \<Rightarrow> gerror option \<times> 's"
  nat_Status :: "nat \<Rightarrow> 's \<Rightarrow> (gerror + vm_status) \<times> 's"
  nat_CreateUDP :: "native_UDPConfig \<Rightarrow> 's \<Rightarrow> (gerror + nat) \<times> 's"
  nat_DeleteNIO :: "nat \<Rightarrow> 's \<Rightarrow> gerror option \<times> 's"
  nat_EvalSymlinks :: "string \<Rightarrow> 's \<Rightarrow> (gerror + string) \<times> 's"
  nat_now :: "'s \<Rightarrow> int"

definition ctxErr :: "'s native \<Rightarrow> Context \<Rightarrow> 's \<Rightarrow> gerror option" where
  "ctxErr N ctx s = ctx_Done ctx (nat_now N s)"

section \<open>The adapter\<close>

record Router =
  r_Node :: Node
  r_InstanceID :: "32 word"
  r_EnhancedConsole :: bool
  r_StateDirectory :: string
  r_VM :: "nat option"
  r_NIOs :: "(string, nat) gomap"

text \<open>The state of an adapter: its map of routers. A nil map reads as the empty one.\<close>

type_synonym Routers = "(string, Router) gomap"

fun deleteNIOs :: "'s native \<Rightarrow> (string \<times> nat) list \<Rightarrow> (string, nat) gomap \<Rightarrow> gerror list \<Rightarrow> 's \<Rightarrow>
    gerror list \<times> (string, nat) gomap \<times> 's" where
  "deleteNIOs N [] nios failures s = (failures, nios, s)"
| "deleteNIOs N ((i, nio) # rest) nios failures s =
     (case nat_DeleteNIO N nio s of
        (Some deleteErr, s) \<Rightarrow>
          deleteNIOs N rest nios (failures @ [dynamips_Wrap ''delete partial NIO'' dynamips_kind.ErrCleanup i (Some deleteErr)]) s
      | (None, s) \<Rightarrow> deleteNIOs N rest (mdel i nios) failures s)"

definition cleanupNIOs :: "'s native \<Rightarrow> Router \<Rightarrow> 's \<Rightarrow> gerror option \<times> Router \<times> 's" where
  "cleanupNIOs N router s =
     (case deleteNIOs N (r_NIOs router) (r_NIOs router) [] s of
        (failures, nios, s) \<Rightarrow> (errors_Join (map Some failures), router\<lparr>r_NIOs := nios\<rparr>, s))"

definition cleanupRouter :: "'s native \<Rightarrow> Router \<Rightarrow> 's \<Rightarrow> gerror option \<times> Router \<times> 's" where
  "cleanupRouter N router s =
     (case r_VM router of
        None \<Rightarrow> cleanupNIOs N router s
      | Some vm \<Rightarrow>
          (case nat_DeleteVM N vm s of
             (Some deleteErr, s) \<Rightarrow>
               (Some (dynamips_Wrap ''delete partial router'' dynamips_kind.ErrCleanup (vn_ID (r_Node router)) (Some deleteErr)), router, s)
           | (None, s) \<Rightarrow> cleanupNIOs N (router\<lparr>r_VM := None\<rparr>) s))"

fun runSteps :: "'s native \<Rightarrow> Context \<Rightarrow> nat \<Rightarrow> vm_call list \<Rightarrow> 's \<Rightarrow> gerror option \<times> 's" where
  "runSteps N ctx vm [] s = (None, s)"
| "runSteps N ctx vm (step # steps) s =
     (case ctxErr N ctx s of
        Some contextErr \<Rightarrow> (Some contextErr, s)
      | None \<Rightarrow>
          (case nat_call N vm step s of
             (Some stepErr, s) \<Rightarrow> (Some stepErr, s)
           | (None, s) \<Rightarrow> runSteps N ctx vm steps s))"

fun attachInterfaces :: "'s native \<Rightarrow> Context \<Rightarrow> string \<Rightarrow> nat \<Rightarrow> dynamips_Interface list \<Rightarrow> (string, nat) gomap \<Rightarrow> 's \<Rightarrow>
    gerror option \<times> (string, nat) gomap \<times> 's" where
  "attachInterfaces N ctx name vm [] nios s = (None, nios, s)"
| "attachInterfaces N ctx name vm (iface # ifaces) nios s =
     (case ctxErr N ctx s of
        Some contextErr \<Rightarrow> (Some contextErr, nios, s)
      | None \<Rightarrow>
          (case nat_CreateUDP N \<lparr>nu_Name = name @ ''/'' @ dif_ID iface, nu_LocalPort = udp_LocalPort (dif_UDP iface),
                  nu_RemoteHost = addr_String (udp_Remote (dif_UDP iface)), nu_RemotePort = addr_Port (udp_Remote (dif_UDP iface))\<rparr> s of
             (Inl createErr, s) \<Rightarrow> (Some createErr, nios, s)
           | (Inr nio, s) \<Rightarrow>
               let nios = mput (dif_ID iface) nio nios in
               (case nat_call N vm (AttachNIO (dif_Slot iface) (dif_Port iface) nio) s of
                  (Some attachErr, s) \<Rightarrow> (Some attachErr, nios, s)
                | (None, s) \<Rightarrow> attachInterfaces N ctx name vm ifaces nios s)))"

text \<open>The settings that \<open>configureRouter\<close> collects before it applies any, given the RAM size.\<close>

definition settings :: "dynamips_RuntimeConfig \<Rightarrow> vm_call list" where
  "settings cfg =
     (let c = dy_Config cfg; p = dy_Platform c; nc = dy_NodeConfig c in
      (case plat_C7200 p of
         None \<Rightarrow> []
       | Some specific \<Rightarrow>
           (if c72_NPE specific \<noteq> '''' then [SetC7200NPE (c72_NPE specific)] else []) @
           (if c72_Midplane specific \<noteq> '''' then [SetC7200Midplane (c72_Midplane specific)] else [])) @
      (case plat_MAC p of None \<Rightarrow> [] | Some mac \<Rightarrow> [SetC7200MACAddr mac]) @
      [SetIOS (nc_Image nc)] @
      (if nc_MemoryMB nc \<noteq> 0 then [SetRAM (word_of_int (nc_MemoryMB nc))] else []) @
      (if dy_ConsolePort c \<noteq> 0 then [SetConsoleTCPPort (dy_ConsolePort c)] else []) @
      (if dy_StartupConfig c \<noteq> None \<or> dy_PrivateConfig c \<noteq> None
       then [PushConfig (dy_StartupConfig c) (dy_PrivateConfig c)] else []))"

definition configureRouter :: "'s native \<Rightarrow> Context \<Rightarrow> dynamips_RuntimeConfig \<Rightarrow> nat \<Rightarrow> Router \<Rightarrow> 's \<Rightarrow> gerror option \<times> Router \<times> 's" where
  "configureRouter N ctx cfg vm router s =
     (let c = dy_Config cfg; memory = nc_MemoryMB (dy_NodeConfig c) in
      if memory \<noteq> 0 \<and> (memory < 0 \<or> memory > MaxUint32)
      then (Some (dynamips_New ''configure RAM'' dynamips_kind.ErrConfig (rid cfg)), router, s)
      else
        let router =
          (if dy_ConsolePort c \<noteq> 0
           then router\<lparr>r_Node := (r_Node router)\<lparr>vn_Console := \<lparr>con_Type = ConsoleTelnet, con_Host = ''127.0.0.1'', con_Port = dy_ConsolePort c\<rparr>\<rparr>\<rparr>
           else router) in
        case runSteps N ctx vm (settings cfg) s of
          (Some e, s) \<Rightarrow> (Some e, router, s)
        | (None, s) \<Rightarrow>
            (case runSteps N ctx vm (map (\<lambda>c. AddCard (card_Slot c) (card_Name c)) (dy_Cards c)) s of
               (Some e, s) \<Rightarrow> (Some e, router, s)
             | (None, s) \<Rightarrow>
                 (case attachInterfaces N ctx (rname cfg) vm (dy_Interfaces c) (r_NIOs router) s of
                    (Some e, nios, s) \<Rightarrow> (Some e, router\<lparr>r_NIOs := nios\<rparr>, s)
                  | (None, nios, s) \<Rightarrow> (ctxErr N ctx s, router\<lparr>r_NIOs := nios\<rparr>, s))))"

definition newRouter :: "dynamips_RuntimeConfig \<Rightarrow> string \<Rightarrow> nat \<Rightarrow> Router" where
  "newRouter cfg dir vm =
     \<lparr>r_Node = \<lparr>vn_ID = rid cfg, vn_Name = rname cfg, vn_State = NodeStopped,
        vn_Console = \<lparr>con_Type = ConsoleNone, con_Host = '''', con_Port = 0\<rparr>, vn_Aux = None\<rparr>,
      r_InstanceID = dy_InstanceID (dy_Config cfg), r_EnhancedConsole = dy_EnhancedConsole (dy_Config cfg),
      r_StateDirectory = dir, r_VM = Some vm, r_NIOs = []\<rparr>"

definition clashes :: "dynamips_RuntimeConfig \<Rightarrow> string \<Rightarrow> Router \<Rightarrow> bool" where
  "clashes cfg dir existing \<longleftrightarrow>
     vn_Name (r_Node existing) = rname cfg \<or> r_InstanceID existing = dy_InstanceID (dy_Config cfg) \<or>
     (dir \<noteq> '''' \<and> r_StateDirectory existing = dir)"

text \<open>What remains once the configuration is known to be valid and the state directory is resolved.\<close>

definition createResolved :: "'s native \<Rightarrow> Context \<Rightarrow> dynamips_RuntimeConfig \<Rightarrow> string \<Rightarrow> Routers \<Rightarrow> 's \<Rightarrow>
    (gerror + Node) \<times> Routers \<times> 's" where
  "createResolved N ctx cfg dir a s =
     (if mget a (rid cfg) \<noteq> None then (Inl (dynamips_New ''create router'' dynamips_kind.ErrDuplicate (rid cfg)), a, s)
      else if list_ex (\<lambda>(_, existing). clashes cfg dir existing) a
      then (Inl (dynamips_New ''create router'' dynamips_kind.ErrDuplicate (rname cfg)), a, s)
      else
        case nat_CreateVM N \<lparr>vmc_Name = rname cfg, vmc_InstanceID = dy_InstanceID (dy_Config cfg),
               vmc_Platform = plat_Name (dy_Platform (dy_Config cfg)), vmc_StateDirectory = dir\<rparr> s of
          (Inl createErr, s) \<Rightarrow> (Inl (dynamips_Wrap ''create router'' dynamips_kind.ErrCreate (rid cfg) (Some createErr)), a, s)
        | (Inr vm, s) \<Rightarrow>
            (case configureRouter N ctx cfg vm (newRouter cfg dir vm) s of
               (Some configureErr, router, s) \<Rightarrow>
                 (case cleanupRouter N router s of
                    (cleanupErr, router, s) \<Rightarrow>
                      (Inl (the (errors_Join [Some (dynamips_Wrap ''create router'' dynamips_kind.ErrCreate (rid cfg) (Some configureErr)), cleanupErr])),
                       if cleanupErr \<noteq> None then mput (rid cfg) router a else a, s))
             | (None, router, s) \<Rightarrow> (Inr (r_Node router), mput (rid cfg) router a, s)))"

text \<open>\<open>CreateRouter\<close>; \<open>live\<close> says that the adapter and its runtime are not nil. The other methods
  refuse a nil adapter before they do anything; they are written for an adapter that is not nil.\<close>

definition CreateRouter :: "'s native \<Rightarrow> bool \<Rightarrow> Context \<Rightarrow> dynamips_RuntimeConfig option \<Rightarrow> Routers \<Rightarrow> 's \<Rightarrow>
    (gerror + Node) \<times> Routers \<times> 's" where
  "CreateRouter N live ctx cfg a s =
     (case ctxErr N ctx s of
        Some contextErr \<Rightarrow> (Inl (dynamips_Wrap ''create router'' dynamips_kind.ErrCreate '''' (Some contextErr)), a, s)
      | None \<Rightarrow>
          if \<not> live then (Inl (dynamips_New ''create router'' dynamips_kind.ErrRuntime ''''), a, s)
          else case validateConfig cfg of
            Some configErr \<Rightarrow> (Inl configErr, a, s)
          | None \<Rightarrow>
              let cfg = the cfg in
              if dy_StateDirectory cfg \<noteq> '''' then
                (case nat_EvalSymlinks N (dy_StateDirectory cfg) s of
                   (Inl resolveErr, s) \<Rightarrow> (Inl (dynamips_Wrap ''resolve router state'' dynamips_kind.ErrConfig (rid cfg) (Some resolveErr)), a, s)
                 | (Inr dir, s) \<Rightarrow> createResolved N ctx cfg dir a s)
              else createResolved N ctx cfg '''' a s)"

section \<open>Inspection and lifecycle\<close>

text \<open>A method that yields a value or an error and changes the adapter and the state.\<close>

type_synonym ('s, 'a) adapter_op = "Routers \<Rightarrow> 's \<Rightarrow> (gerror + 'a) \<times> Routers \<times> 's"

definition findRouter :: "'s native \<Rightarrow> Context \<Rightarrow> string \<Rightarrow> Routers \<Rightarrow> 's \<Rightarrow> gerror + (Router \<times> nat)" where
  "findRouter N ctx i a s =
     (case ctxErr N ctx s of
        Some contextErr \<Rightarrow> Inl (dynamips_Wrap ''find router'' dynamips_kind.ErrLifecycle i (Some contextErr))
      | None \<Rightarrow>
          (case mget a i of
             None \<Rightarrow> Inl (dynamips_New ''find router'' dynamips_kind.ErrNotFound i)
           | Some router \<Rightarrow>
               (case r_VM router of
                  None \<Rightarrow> Inl (dynamips_New ''find router'' dynamips_kind.ErrNotFound i)
                | Some vm \<Rightarrow> Inr (router, vm))))"

fun status_state :: "vm_status \<Rightarrow> NodeState option" where
  "status_state VMHalted = Some NodeStopped"
| "status_state VMShutdown = Some NodeStopped"
| "status_state VMRunning = Some NodeRunning"
| "status_state VMSuspended = Some NodeSuspended"
| "status_state VMOther = None"

definition State :: "'s native \<Rightarrow> Context \<Rightarrow> string \<Rightarrow> ('s, NodeState) adapter_op" where
  "State N ctx i a s =
     (case findRouter N ctx i a s of
        Inl lookupErr \<Rightarrow> (Inl lookupErr, a, s)
      | Inr (router, vm) \<Rightarrow>
          (case nat_Status N vm s of
             (Inl statusErr, s) \<Rightarrow> (Inl (dynamips_Wrap ''read router state'' dynamips_kind.ErrLifecycle i (Some statusErr)), a, s)
           | (Inr status, s) \<Rightarrow>
               (case status_state status of
                  None \<Rightarrow> (Inl (dynamips_New ''read router state'' dynamips_kind.ErrLifecycle ''unknown native status''), a, s)
                | Some st \<Rightarrow> (Inr st, mput i (router\<lparr>r_Node := (r_Node router)\<lparr>vn_State := st\<rparr>\<rparr>) a, s))))"

definition Reload :: "'s native \<Rightarrow> Context \<Rightarrow> string \<Rightarrow> ('s, Node) adapter_op" where
  "Reload N ctx i a s =
     (case State N ctx i a s of
        (Inl stateErr, a, s) \<Rightarrow> (Inl stateErr, a, s)
      | (Inr _, a, s) \<Rightarrow> (Inr (r_Node (the (mget a i))), a, s))"

fun reloadAll :: "'s native \<Rightarrow> Context \<Rightarrow> string list \<Rightarrow> Node list \<Rightarrow> ('s, Node list) adapter_op" where
  "reloadAll N ctx [] nodes a s = (Inr nodes, a, s)"
| "reloadAll N ctx (i # ids) nodes a s =
     (case Reload N ctx i a s of
        (Inl reloadErr, a, s) \<Rightarrow> (Inl reloadErr, a, s)
      | (Inr node, a, s) \<Rightarrow> reloadAll N ctx ids (nodes @ [node]) a s)"

definition List_routers :: "'s native \<Rightarrow> Context \<Rightarrow> ('s, Node list) adapter_op" where
  "List_routers N ctx a s = reloadAll N ctx (sort (mkeys a)) [] a s"

text \<open>\<open>context.WithoutCancel\<close>.\<close>

definition WithoutCancel :: "Context \<Rightarrow> Context" where
  "WithoutCancel ctx = ctx\<lparr>ctx_Done := (\<lambda>_. None)\<rparr>"

definition changeState :: "'s native \<Rightarrow> Context \<Rightarrow> string \<Rightarrow> string \<Rightarrow> vm_call \<Rightarrow> Routers \<Rightarrow> 's \<Rightarrow> gerror option \<times> Routers \<times> 's" where
  "changeState N ctx i operation change a s =
     (case findRouter N ctx i a s of
        Inl lookupErr \<Rightarrow> (Some lookupErr, a, s)
      | Inr (router, vm) \<Rightarrow>
          (case nat_call N vm change s of
             (changeErr, s) \<Rightarrow>
               (case State N (WithoutCancel ctx) i a s of
                  (r, a, s) \<Rightarrow>
                    let stateErr = (case r of Inl e \<Rightarrow> Some e | Inr _ \<Rightarrow> None) in
                    (case changeErr of
                       Some e \<Rightarrow> errors_Join [Some (dynamips_Wrap operation dynamips_kind.ErrLifecycle i (Some e)), stateErr]
                     | None \<Rightarrow> stateErr, a, s))))"

definition router_Start :: "'s native \<Rightarrow> Context \<Rightarrow> string \<Rightarrow> Routers \<Rightarrow> 's \<Rightarrow> gerror option \<times> Routers \<times> 's" where
  "router_Start N ctx i a s =
     (case State N ctx i a s of
        (Inl stateErr, a, s) \<Rightarrow> (Some stateErr, a, s)
      | (Inr st, a, s) \<Rightarrow>
          if st = NodeRunning then (None, a, s) else changeState N ctx i ''start router'' VM_Start a s)"

definition router_Stop :: "'s native \<Rightarrow> Context \<Rightarrow> string \<Rightarrow> Routers \<Rightarrow> 's \<Rightarrow> gerror option \<times> Routers \<times> 's" where
  "router_Stop N ctx i a s =
     (case State N ctx i a s of
        (Inl stateErr, a, s) \<Rightarrow> (Some stateErr, a, s)
      | (Inr st, a, s) \<Rightarrow>
          if st = NodeStopped then (None, a, s) else changeState N ctx i ''stop router'' VM_Stop a s)"

definition router_Suspend :: "'s native \<Rightarrow> Context \<Rightarrow> string \<Rightarrow> Routers \<Rightarrow> 's \<Rightarrow> gerror option \<times> Routers \<times> 's" where
  "router_Suspend N ctx i = changeState N ctx i ''suspend router'' VM_Suspend"

definition router_Resume :: "'s native \<Rightarrow> Context \<Rightarrow> string \<Rightarrow> Routers \<Rightarrow> 's \<Rightarrow> gerror option \<times> Routers \<times> 's" where
  "router_Resume N ctx i = changeState N ctx i ''resume router'' VM_Resume"

definition router_Restart :: "'s native \<Rightarrow> Context \<Rightarrow> string \<Rightarrow> Routers \<Rightarrow> 's \<Rightarrow> gerror option \<times> Routers \<times> 's" where
  "router_Restart N ctx i a s =
     (case router_Stop N ctx i a s of
        (Some stopErr, a, s) \<Rightarrow> (Some stopErr, a, s)
      | (None, a, s) \<Rightarrow> router_Start N ctx i a s)"

definition router_Delete :: "'s native \<Rightarrow> Context \<Rightarrow> string \<Rightarrow> Routers \<Rightarrow> 's \<Rightarrow> gerror option \<times> Routers \<times> 's" where
  "router_Delete N ctx i a s =
     (case ctxErr N ctx s of
        Some contextErr \<Rightarrow> (Some (dynamips_Wrap ''delete router'' dynamips_kind.ErrCleanup i (Some contextErr)), a, s)
      | None \<Rightarrow>
          (case mget a i of
             None \<Rightarrow> (None, a, s)
           | Some router \<Rightarrow>
               (case cleanupRouter N router s of
                  (Some cleanupErr, router, s) \<Rightarrow> (Some cleanupErr, mput i router a, s)
                | (None, router, s) \<Rightarrow> (None, mdel i a, s))))"

definition context_Background :: Context where
  "context_Background = \<lparr>ctx_Value = (\<lambda>_. None), ctx_Done = (\<lambda>_. None)\<rparr>"

fun closeAll :: "'s native \<Rightarrow> string list \<Rightarrow> gerror list \<Rightarrow> Routers \<Rightarrow> 's \<Rightarrow> gerror list \<times> Routers \<times> 's" where
  "closeAll N [] failures a s = (failures, a, s)"
| "closeAll N (i # ids) failures a s =
     (case router_Delete N context_Background i a s of
        (Some deleteErr, a, s) \<Rightarrow> closeAll N ids (failures @ [deleteErr]) a s
      | (None, a, s) \<Rightarrow> closeAll N ids failures a s)"

definition router_Close :: "'s native \<Rightarrow> Routers \<Rightarrow> 's \<Rightarrow> gerror option \<times> Routers \<times> 's" where
  "router_Close N a s =
     (case closeAll N (mkeys a) [] a s of (failures, a, s) \<Rightarrow> (errors_Join (map Some failures), a, s))"

section \<open>The manager of router state\<close>

text \<open>The two calls of a provider that the manager makes, over the state of the system.\<close>

record 's router_provider =
  rp_CreateRouter :: "Context \<Rightarrow> dynamips_RuntimeConfig \<Rightarrow> 's \<Rightarrow> (gerror + Node) \<times> 's"
  rp_Delete :: "Context \<Rightarrow> string \<Rightarrow> 's \<Rightarrow> gerror option \<times> 's"

text \<open>\<open>PreparedResources\<close> has one field: the lease, or nil. A pointer to it may be nil as well.\<close>

type_synonym router_resources = "Prepared option"

definition router_Release :: "'s StorageManager option \<Rightarrow> Context \<Rightarrow> router_resources option \<Rightarrow> 's \<Rightarrow>
    gerror option \<times> router_resources option \<times> 's" where
  "router_Release m ctx resources s =
     (case resources of
        None \<Rightarrow> (None, None, s)
      | Some None \<Rightarrow> (None, Some None, s)
      | Some (Some state) \<Rightarrow>
          (case m of
             None \<Rightarrow> (Some (dynamips_New ''release router state'' dynamips_kind.ErrStorage ''storage manager is required''), resources, s)
           | Some M \<Rightarrow>
               (case sm_Release M ctx (Some state) s of
                  (Some releaseErr, s) \<Rightarrow>
                    (Some (dynamips_Wrap ''release router state'' dynamips_kind.ErrStorage (pr_NodeID state) (Some releaseErr)), resources, s)
                | (None, s) \<Rightarrow> (None, Some None, s))))"

text \<open>The release with a rollback context that \<open>Prepare\<close> and \<open>Create\<close> share.\<close>

definition router_rollback :: "('s \<Rightarrow> int) \<Rightarrow> 's StorageManager option \<Rightarrow> Context \<Rightarrow> router_resources \<Rightarrow> gerror \<Rightarrow> 's \<Rightarrow>
    router_resources option \<times> gerror \<times> 's" where
  "router_rollback now m ctx resources cause s =
     (case router_Release m (cleanup_NewContext (now s) ctx) (Some resources) s of
        (Some releaseErr, resources, s) \<Rightarrow> (resources, the (errors_Join [Some cause, Some releaseErr]), s)
      | (None, _, s) \<Rightarrow> (None, cause, s))"

definition router_Prepare :: "('s \<Rightarrow> int) \<Rightarrow> 's StorageManager option \<Rightarrow> Context \<Rightarrow> dynamips_Config option \<Rightarrow> 's \<Rightarrow>
    dynamips_RuntimeConfig option \<times> router_resources option \<times> gerror option \<times> 's" where
  "router_Prepare now m ctx cfg s =
     (let refuse = (None, None, Some (dynamips_New ''prepare router'' dynamips_kind.ErrConfig ''storage manager, config, and node ID are required''), s) in
      case (m, cfg) of
        (Some M, Some cfg) \<Rightarrow>
          let i = nc_ID (dy_NodeConfig cfg); wrap = (\<lambda>e. dynamips_Wrap ''prepare router state'' dynamips_kind.ErrStorage i (Some e)) in
          if i = '''' then refuse
          else case Ref_Validate (dy_State cfg) of
            Some refErr \<Rightarrow> (None, None, Some (wrap refErr), s)
          | None \<Rightarrow>
              (case sm_Prepare M ctx \<lparr>req_Ref = dy_State cfg, req_NodeID = i, req_AccessMode = AccessReadWrite, req_Mode = '''',
                      req_ResourceType = ResourceTypeDirectory, req_Create = True\<rparr> s of
                 (Inl prepareErr, s) \<Rightarrow> (None, None, Some (wrap prepareErr), s)
               | (Inr prepared, s) \<Rightarrow>
                   if loc_Kind (pr_Location prepared) \<noteq> LocationPath \<or> \<not> IsAbs (loc_Value (pr_Location prepared)) then
                     (case router_rollback now m ctx (Some prepared)
                         (dynamips_New ''prepare router state'' dynamips_kind.ErrUnsupported ''state storage must resolve to an absolute directory path'') s of
                        (resources, err, s) \<Rightarrow> (None, resources, Some err, s))
                   else (Some \<lparr>dy_Config = cfg, dy_StateDirectory = loc_Value (pr_Location prepared)\<rparr>, Some (Some prepared), None, s))
      | _ \<Rightarrow> refuse)"

definition manager_Create :: "('s \<Rightarrow> int) \<Rightarrow> 's StorageManager option \<Rightarrow> Context \<Rightarrow> 's router_provider option \<Rightarrow> dynamips_Config option \<Rightarrow> 's \<Rightarrow>
    Node option \<times> router_resources option \<times> gerror option \<times> 's" where
  "manager_Create now m ctx provider cfg s =
     (case provider of
        None \<Rightarrow> (None, None, Some (dynamips_New ''create router'' dynamips_kind.ErrConfig ''provider is required''), s)
      | Some P \<Rightarrow>
          (case router_Prepare now m ctx cfg s of
             (Some runtimeCfg, Some resources, None, s) \<Rightarrow>
               (case rp_CreateRouter P ctx runtimeCfg s of
                  (Inr node, s) \<Rightarrow> (Some node, Some resources, None, s)
                | (Inl createErr, s) \<Rightarrow>
                    if errors_Is createErr (DynamipsKind dynamips_kind.ErrCleanup) then (None, Some resources, Some createErr, s)
                    else (case router_rollback now m ctx resources createErr s of
                            (remaining, err, s) \<Rightarrow> (None, remaining, Some err, s)))
           | (_, resources, err, s) \<Rightarrow> (None, resources, err, s)))"

definition manager_Delete :: "'s StorageManager option \<Rightarrow> Context \<Rightarrow> 's router_provider option \<Rightarrow> string \<Rightarrow> router_resources option \<Rightarrow> 's \<Rightarrow>
    gerror option \<times> router_resources option \<times> 's" where
  "manager_Delete m ctx provider i resources s =
     (case provider of
        None \<Rightarrow> (Some (dynamips_New ''delete router'' dynamips_kind.ErrConfig ''provider is required''), resources, s)
      | Some P \<Rightarrow>
          if (case resources of Some (Some state) \<Rightarrow> pr_NodeID state \<noteq> i | _ \<Rightarrow> False)
          then (Some (dynamips_New ''delete router'' dynamips_kind.ErrConfig ''storage lease belongs to another node''), resources, s)
          else case rp_Delete P ctx i s of
            (Some deleteErr, s) \<Rightarrow> (Some deleteErr, resources, s)
          | (None, s) \<Rightarrow> router_Release m ctx resources s)"

end
