(* ===== verification/Dynamips_Facts.thy ===== *)
theory Dynamips_Facts
  imports Dynamips
begin

text \<open>
  Facts about the Dynamips adapter: which native handles its routers hold, that every method keeps
  the account of handles and the identities of the routers apart. The laws of the account are the
  locale \<open>native_account\<close>; \<open>logged\<close> adds the account to any native runtime.
\<close>

section \<open>The handles a router holds\<close>

datatype native_handle = VMH nat | NIOH nat

definition nio_handles :: "(string, nat) gomap \<Rightarrow> native_handle multiset" where
  "nio_handles nios = mset (map (\<lambda>(_, n). NIOH n) nios)"

definition handles :: "Router \<Rightarrow> native_handle multiset" where
  "handles r = (case r_VM r of None \<Rightarrow> {#} | Some v \<Rightarrow> {#VMH v#}) + nio_handles (r_NIOs r)"

fun tracked :: "Routers \<Rightarrow> native_handle multiset" where
  "tracked [] = {#}"
| "tracked ((_, r) # a) = handles r + tracked a"

lemma nio_handles_Nil [simp]: "nio_handles [] = {#}"
  by (simp add: nio_handles_def)

lemma mdel_absent: "i \<notin> set (mkeys m) \<Longrightarrow> mdel i m = m"
  by (simp add: mdel_def mkeys_def delete_id)

lemma mdel_Cons: "mdel i ((j, x) # m) = (if i = j then mdel i m else (j, x) # mdel i m)"
  by (simp add: mdel_def)

lemma nio_handles_mdel:
  "mwf nios \<Longrightarrow> mget nios i = Some n \<Longrightarrow> nio_handles nios = add_mset (NIOH n) (nio_handles (mdel i nios))"
proof (induction nios)
  case (Cons p nios)
  obtain j k where p: "p = (j, k)" by force
  from Cons.prems have "mwf nios" "j \<notin> set (mkeys nios)" by (auto simp: mwf_def p mkeys_def)
  with Cons p show ?case
    by (cases "j = i") (auto simp: nio_handles_def mdel_Cons mdel_absent)
qed simp

lemma nio_handles_mput_new:
  "mget nios i = None \<Longrightarrow> nio_handles (mput i n nios) = add_mset (NIOH n) (nio_handles nios)"
  by (simp add: mput_new nio_handles_def)

lemma tracked_append: "tracked (a @ b) = tracked a + tracked b"
  by (induction a rule: tracked.induct) auto

lemma tracked_mput_new: "mget a i = None \<Longrightarrow> tracked (mput i r a) = tracked a + handles r"
  by (simp add: mput_new tracked_append)

lemma tracked_mput:
  "mget a i = Some r0 \<Longrightarrow> tracked (mput i r a) + handles r0 = tracked a + handles r"
  unfolding mput_def by (induction a rule: tracked.induct) auto

lemma tracked_mdel: "mwf a \<Longrightarrow> mget a i = Some r \<Longrightarrow> tracked (mdel i a) + handles r = tracked a"
proof (induction a rule: tracked.induct)
  case (2 j q a)
  then have "mwf a" "j \<notin> set (mkeys a)" by (auto simp: mwf_def mkeys_def)
  with 2 show ?case by (auto simp: mdel_Cons mdel_absent ac_simps)
qed simp

section \<open>Identities\<close>

definition identity :: "Router \<Rightarrow> string \<times> string \<times> 32 word \<times> string" where
  "identity r = (vn_ID (r_Node r), vn_Name (r_Node r), r_InstanceID r, r_StateDirectory r)"

definition apart_routers :: "Router \<Rightarrow> Router \<Rightarrow> bool" where
  "apart_routers r q \<longleftrightarrow> vn_Name (r_Node r) \<noteq> vn_Name (r_Node q) \<and> r_InstanceID r \<noteq> r_InstanceID q \<and>
     (r_StateDirectory r = r_StateDirectory q \<longrightarrow> r_StateDirectory r = '''')"

definition adapter_ok :: "Routers \<Rightarrow> bool" where
  "adapter_ok a \<longleftrightarrow> mwf a \<and>
     (\<forall>i r. mget a i = Some r \<longrightarrow> vn_ID (r_Node r) = i \<and> mwf (r_NIOs r)) \<and>
     (\<forall>i j r q. i \<noteq> j \<and> mget a i = Some r \<and> mget a j = Some q \<longrightarrow> apart_routers r q)"

lemma adapter_ok_Nil [simp]: "adapter_ok []"
  by (simp add: adapter_ok_def)

lemma adapter_okD:
  assumes "adapter_ok a" "mget a i = Some r"
  shows "mwf a" "vn_ID (r_Node r) = i" "mwf (r_NIOs r)"
  using assms by (auto simp: adapter_ok_def)

lemma apart_cong: "identity r = identity r' \<Longrightarrow> apart_routers r q = apart_routers r' q \<and> apart_routers q r = apart_routers q r'"
  by (auto simp: identity_def apart_routers_def)

lemma adapter_ok_update:
  assumes "adapter_ok a" "mget a i = Some r" "identity r' = identity r" "mwf (r_NIOs r')"
  shows "adapter_ok (mput i r' a)"
proof -
  have "apart_routers r' q \<and> apart_routers q r'" if "mget a j = Some q" "j \<noteq> i" for j q
    using assms(1,2) that apart_cong [OF assms(3)] unfolding adapter_ok_def by metis
  then show ?thesis
    using assms unfolding adapter_ok_def identity_def by (auto split: if_splits)
qed

lemma adapter_ok_new:
  assumes "adapter_ok a" "mwf (r_NIOs r)" "vn_ID (r_Node r) = i"
    and "\<And>j q. mget a j = Some q \<Longrightarrow> apart_routers r q \<and> apart_routers q r"
  shows "adapter_ok (mput i r a)"
  using assms unfolding adapter_ok_def by (auto split: if_splits)

lemma adapter_ok_mdel: "adapter_ok a \<Longrightarrow> adapter_ok (mdel i a)"
  by (auto simp: adapter_ok_def split: if_splits)

section \<open>What cleaning up and configuring do to a router\<close>

lemma deleteNIOs_identity: "cleanupNIOs N r s = (e, r', s') \<Longrightarrow> identity r' = identity r \<and> r_VM r' = r_VM r"
  by (auto simp: cleanupNIOs_def identity_def split: prod.splits)

lemma cleanupRouter_identity: "cleanupRouter N r s = (e, r', s') \<Longrightarrow> identity r' = identity r"
  by (auto simp: cleanupRouter_def identity_def dest!: deleteNIOs_identity split: prod.splits option.splits)

lemma deleteNIOs_domain:
  assumes "deleteNIOs N rest nios fs s = (fs', nios', s')"
  shows "(mwf nios \<longrightarrow> mwf nios') \<and> set (mkeys nios') \<subseteq> set (mkeys nios) \<and> length fs \<le> length fs' \<and>
    (fs' = fs \<longrightarrow> set (mkeys nios') \<inter> fst ` set rest = {})"
  using assms
proof (induction N rest nios fs s rule: deleteNIOs.induct)
  case (2 N i nio rest nios fs s)
  obtain e t where e: "nat_DeleteNIO N nio s = (e, t)" by force
  show ?case
  proof (cases e)
    case None
    from "2.IH"(1) [OF e [symmetric] None] "2.prems" e None show ?thesis by (auto simp: mkeys_mdel)
  next
    case (Some d)
    from "2.IH"(2) [OF e [symmetric] Some] "2.prems" e Some show ?thesis by auto
  qed
qed simp

lemma errors_Join_map_None: "errors_Join (map Some es) = None \<longleftrightarrow> es = []"
  by (cases es) (auto simp: errors_Join_None)

lemma cleanupRouter_ok:
  assumes "cleanupRouter N r s = (None, r', s')" "mwf (r_NIOs r)"
  shows "r_VM r' = None \<and> r_NIOs r' = []"
proof -
  have nios: "r_VM q' = r_VM q \<and> r_NIOs q' = []" if "cleanupNIOs N q t = (None, q', t')" for q q' t t'
  proof -
    obtain fs nios u where d: "deleteNIOs N (r_NIOs q) (r_NIOs q) [] t = (fs, nios, u)" by (metis prod_cases3)
    with that have q: "fs = []" "q' = q\<lparr>r_NIOs := nios\<rparr>"
      by (auto simp: cleanupNIOs_def errors_Join_map_None)
    from deleteNIOs_domain [OF d] q(1) have "set (mkeys nios) \<subseteq> fst ` set (r_NIOs q)" "set (mkeys nios) \<inter> fst ` set (r_NIOs q) = {}"
      by (simp_all add: mkeys_def)
    then have "set (mkeys nios) = {}" by (metis Int_absorb2)
    with q(2) show ?thesis by (simp add: mkeys_def)
  qed
  from assms show ?thesis
    by (auto simp: cleanupRouter_def dest!: nios split: option.splits prod.splits)
qed

lemma cleanupRouter_mwf: "cleanupRouter N r s = (e, r', s') \<Longrightarrow> mwf (r_NIOs r) \<Longrightarrow> mwf (r_NIOs r')"
  by (auto simp: cleanupRouter_def cleanupNIOs_def dest!: deleteNIOs_domain split: option.splits prod.splits)

lemma attachInterfaces_mwf: "attachInterfaces N ctx name vm ifs nios s = (e, nios', s') \<Longrightarrow> mwf nios \<Longrightarrow> mwf nios'"
  by (induction ifs arbitrary: nios s)
     (auto simp: Let_def split: option.splits prod.splits sum.splits)

lemma configureRouter_keeps:
  assumes "configureRouter N ctx cfg vm r s = (e, r', s')" "mwf (r_NIOs r)"
  shows "identity r' = identity r \<and> r_VM r' = r_VM r \<and> mwf (r_NIOs r')"
  using assms
  by (auto simp: configureRouter_def Let_def identity_def dest: attachInterfaces_mwf split: if_splits prod.splits option.splits)

section \<open>Validation\<close>

lemma validateInterfaces_ids: "validateInterfaces ids ports ifs = None \<Longrightarrow> distinct (map dif_ID ifs) \<and> set (map dif_ID ifs) \<inter> set ids = {}"
  by (induction ifs arbitrary: ids ports) (fastforce simp: dyErr_def split: if_splits)+

lemma validateConfig_ids: "validateConfig (Some cfg) = None \<Longrightarrow> distinct (map dif_ID (dy_Interfaces (dy_Config cfg)))"
  by (auto simp: validateConfig_def Let_def dyErr_def dest: validateInterfaces_ids split: if_splits option.splits)

section \<open>Accounts of native handles\<close>

locale native_account =
  fixes N :: "'s native"
    and created deleted :: "'s \<Rightarrow> native_handle multiset"
  assumes create_vm: "nat_CreateVM N c s = (r, s') \<Longrightarrow> deleted s' = deleted s \<and>
      created s' = created s + (case r of Inr v \<Rightarrow> {#VMH v#} | Inl _ \<Rightarrow> {#})"
    and create_udp: "nat_CreateUDP N u s = (r, s') \<Longrightarrow> deleted s' = deleted s \<and>
      created s' = created s + (case r of Inr v \<Rightarrow> {#NIOH v#} | Inl _ \<Rightarrow> {#})"
    and delete_vm: "nat_DeleteVM N v s = (e, s') \<Longrightarrow> created s' = created s \<and>
      deleted s' = deleted s + (if e = None then {#VMH v#} else {#})"
    and delete_nio: "nat_DeleteNIO N v s = (e, s') \<Longrightarrow> created s' = created s \<and>
      deleted s' = deleted s + (if e = None then {#NIOH v#} else {#})"
    and call_acc: "nat_call N v k s = (e, s') \<Longrightarrow> created s' = created s \<and> deleted s' = deleted s"
    and status_acc: "nat_Status N v s = (st, s') \<Longrightarrow> created s' = created s \<and> deleted s' = deleted s"
    and eval_acc: "nat_EvalSymlinks N p s = (q, s') \<Longrightarrow> created s' = created s \<and> deleted s' = deleted s"
begin

lemma deleteNIOs_account:
  assumes "deleteNIOs N rest nios fs s = (fs', nios', s')" "mwf nios" "distinct (map fst rest)"
    "\<And>i n. (i, n) \<in> set rest \<Longrightarrow> mget nios i = Some n"
  shows "created s' = created s \<and> deleted s' + nio_handles nios' = deleted s + nio_handles nios"
  using assms
proof (induction rest arbitrary: nios fs s)
  case (Cons p rest)
  obtain i n where p: "p = (i, n)" by force
  obtain e t where e: "nat_DeleteNIO N n s = (e, t)" by force
  note acc = delete_nio [OF e]
  show ?case
  proof (cases e)
    case None
    with Cons.prems(1) p e have run: "deleteNIOs N rest (mdel i nios) fs t = (fs', nios', s')" by simp
    have "mget (mdel i nios) j = Some m" if "(j, m) \<in> set rest" for j m
      using that Cons.prems(3,4) [unfolded p] by (force simp: rev_image_eqI)
    from Cons.IH [OF run mwf_mdel [OF Cons.prems(2)] _ this] Cons.prems(3)
      nio_handles_mdel [OF Cons.prems(2), of i n] Cons.prems(4) acc None p show ?thesis by auto
  next
    case (Some d)
    with Cons.IH [of nios "fs @ [dynamips_Wrap ''delete partial NIO'' dynamips_kind.ErrCleanup i (Some d)]" t]
      Cons.prems acc p e show ?thesis by auto
  qed
qed simp

lemma cleanupNIOs_account:
  assumes "cleanupNIOs N r s = (e, r', s')" "mwf (r_NIOs r)"
  shows "created s' = created s \<and> deleted s' + nio_handles (r_NIOs r') = deleted s + nio_handles (r_NIOs r)"
proof -
  obtain fs nios t where d: "deleteNIOs N (r_NIOs r) (r_NIOs r) [] s = (fs, nios, t)" by (metis prod_cases3)
  have "distinct (map fst (r_NIOs r))" using assms(2) by (simp add: mwf_def mkeys_def)
  with deleteNIOs_account [OF d assms(2)] assms d show ?thesis
    by (auto simp: cleanupNIOs_def mget_in_set [symmetric])
qed

lemma cleanupRouter_account:
  assumes "cleanupRouter N r s = (e, r', s')" "mwf (r_NIOs r)"
  shows "created s' = created s \<and> deleted s' + handles r' = deleted s + handles r"
proof (cases "r_VM r")
  case None
  with assms have run: "cleanupNIOs N r s = (e, r', s')" by (simp add: cleanupRouter_def)
  from cleanupNIOs_account [OF run assms(2)] deleteNIOs_identity [OF run] None show ?thesis by (simp add: handles_def)
next
  case (Some vm)
  obtain d t where d: "nat_DeleteVM N vm s = (d, t)" by force
  show ?thesis
  proof (cases d)
    case None
    with assms Some d have run: "cleanupNIOs N (r\<lparr>r_VM := None\<rparr>) t = (e, r', s')" by (simp add: cleanupRouter_def)
    from cleanupNIOs_account [OF run] assms(2) deleteNIOs_identity [OF run] delete_vm [OF d] None Some
    show ?thesis by (simp add: handles_def)
  next
    case (Some x)
    with assms \<open>r_VM r = _\<close> d delete_vm [OF d] show ?thesis by (auto simp: cleanupRouter_def)
  qed
qed

lemma runSteps_account: "runSteps N ctx vm steps s = (e, s') \<Longrightarrow> created s' = created s \<and> deleted s' = deleted s"
  by (induction steps arbitrary: s) (auto dest!: call_acc split: option.splits prod.splits)

lemma attachInterfaces_account:
  assumes "attachInterfaces N ctx name vm ifs nios s = (e, nios', s')" "distinct (map dif_ID ifs)"
    "set (map dif_ID ifs) \<inter> set (mkeys nios) = {}"
  shows "deleted s' = deleted s \<and> created s' + nio_handles nios = created s + nio_handles nios'"
  using assms
proof (induction ifs arbitrary: nios s)
  case (Cons x ifs)
  let ?u = "\<lparr>nu_Name = name @ ''/'' @ dif_ID x, nu_LocalPort = udp_LocalPort (dif_UDP x),
    nu_RemoteHost = addr_String (udp_Remote (dif_UDP x)), nu_RemotePort = addr_Port (udp_Remote (dif_UDP x))\<rparr>"
  obtain r t where r: "nat_CreateUDP N ?u s = (r, t)" by force
  note c = create_udp [OF r]
  show ?case
  proof (cases "ctxErr N ctx s = None \<and> \<not> isl r")
    case False
    with Cons.prems(1) r c show ?thesis by (cases r) (auto split: option.splits)
  next
    case True
    then obtain n where n: "r = Inr n" by (cases r) auto
    obtain d u where d: "nat_call N vm (AttachNIO (dif_Slot x) (dif_Port x) n) t = (d, u)" by force
    have new: "mget nios (dif_ID x) = None" using Cons.prems(3) by (auto simp: set_mkeys domIff)
    note h = nio_handles_mput_new [OF new, of n]
    show ?thesis
    proof (cases d)
      case None
      with Cons.prems(1) True r n d have run: "attachInterfaces N ctx name vm ifs (mput (dif_ID x) n nios) u = (e, nios', s')"
        by (simp add: Let_def)
      have "set (map dif_ID ifs) \<inter> set (mkeys (mput (dif_ID x) n nios)) = {}"
        using Cons.prems(2,3) by (auto simp: mkeys_mput_new [OF new])
      from Cons.IH [OF run _ this] Cons.prems(2) h c n call_acc [OF d] show ?thesis by auto
    next
      case (Some y)
      with Cons.prems(1) True r n d c call_acc [OF d] h show ?thesis by (auto simp: Let_def)
    qed
  qed
qed simp

lemma configureRouter_account:
  assumes "configureRouter N ctx cfg vm r s = (e, r', s')" "r_NIOs r = []" "distinct (map dif_ID (dy_Interfaces (dy_Config cfg)))"
  shows "deleted s' = deleted s \<and> created s' + handles r = created s + handles r'"
proof -
  obtain e1 s1 where s1: "runSteps N ctx vm (settings cfg) s = (e1, s1)" by force
  obtain e2 s2 where s2: "runSteps N ctx vm (map (\<lambda>c. AddCard (card_Slot c) (card_Name c)) (dy_Cards (dy_Config cfg))) s1 = (e2, s2)" by force
  obtain e3 nios s3 where s3: "attachInterfaces N ctx (rname cfg) vm (dy_Interfaces (dy_Config cfg)) [] s2 = (e3, nios, s3)"
    by (metis prod_cases3)
  from assms(1,2) s1 s2 s3 runSteps_account [OF s1] runSteps_account [OF s2] attachInterfaces_account [OF s3 assms(3)]
  show ?thesis
    by (auto simp: configureRouter_def Let_def handles_def split: if_splits option.splits)
qed

end

end
