(* ===== verification/Dynamips_Properties.thy ===== *)
theory Dynamips_Properties
  imports Dynamips_Facts Virt_Manager_Properties
begin

text \<open>
  What the Dynamips provider promises: identities of routers stay apart and no native handle is
  lost, whatever calls are made and whatever fails; the storage lease of a router outlives the
  router; validated settings fit the native ranges; and what a partial cleanup does to \<open>List\<close>.
\<close>

section \<open>Every method keeps the account\<close>

lemma mset_swap:
  fixes A :: "'a multiset"
  assumes "A + q' = B + q" "C + q = D + q'"
  shows "B + D = A + C"
proof (rule multiset_eqI)
  fix x
  have "count (A + q') x = count (B + q) x" "count (C + q) x = count (D + q') x" using assms by simp_all
  then show "count (B + D) x = count (A + C) x" by simp
qed

lemma mset_chain:
  fixes A :: "'a multiset"
  assumes "A' + B + T = A + B' + T'" "A'' + B' + T' = A' + B'' + T''"
  shows "A'' + B + T = A + B'' + T''"
proof (rule multiset_eqI)
  fix x
  have "count (A' + B + T) x = count (A + B' + T') x" "count (A'' + B' + T') x = count (A' + B'' + T'') x"
    using assms by simp_all
  then show "count (A'' + B + T) x = count (A + B'' + T'') x" by simp
qed

context native_account
begin

definition balanced :: "Routers \<Rightarrow> 's \<Rightarrow> Routers \<Rightarrow> 's \<Rightarrow> bool" where
  "balanced a s a' s' \<longleftrightarrow> (adapter_ok a \<longrightarrow> adapter_ok a' \<and>
     created s' + deleted s + tracked a = created s + deleted s' + tracked a')"

lemma balanced_refl [simp]: "balanced a s a s"
  by (simp add: balanced_def)

lemma balanced_quiet: "created s' = created s \<Longrightarrow> deleted s' = deleted s \<Longrightarrow> balanced a s a s'"
  by (simp add: balanced_def)

lemma balanced_trans: "balanced a s b t \<Longrightarrow> balanced b t c u \<Longrightarrow> balanced a s c u"
  unfolding balanced_def using mset_chain by blast

lemma State_balanced:
  assumes "State N ctx i a s = (r, a', s')"
  shows "balanced a s a' s'"
proof (cases "findRouter N ctx i a s")
  case (Inl e)
  with assms show ?thesis by (simp add: State_def)
next
  case (Inr p)
  then obtain q vm where q: "p = (q, vm)" "mget a i = Some q"
    by (auto simp: findRouter_def split: option.splits)
  obtain st t where st: "nat_Status N vm s = (st, t)" by force
  have "balanced a s (mput i (q\<lparr>r_Node := (r_Node q)\<lparr>vn_State := x\<rparr>\<rparr>) a) t" for x
    using status_acc [OF st] tracked_mput [OF q(2), of "q\<lparr>r_Node := (r_Node q)\<lparr>vn_State := x\<rparr>\<rparr>"]
      adapter_ok_update [OF _ q(2), of "q\<lparr>r_Node := (r_Node q)\<lparr>vn_State := x\<rparr>\<rparr>"] adapter_okD(3) [OF _ q(2)]
    by (auto simp: balanced_def handles_def identity_def)
  with assms Inr q st status_acc [OF st] show ?thesis
    by (auto simp: State_def split: sum.splits option.splits intro: balanced_quiet)
qed

lemma Reload_balanced: "Reload N ctx i a s = (r, a', s') \<Longrightarrow> balanced a s a' s'"
  by (auto simp: Reload_def dest: State_balanced split: prod.splits sum.splits)

lemma reloadAll_balanced: "reloadAll N ctx ids nodes a s = (r, a', s') \<Longrightarrow> balanced a s a' s'"
proof (induction ids arbitrary: nodes a s)
  case (Cons i ids)
  obtain q b t where q: "Reload N ctx i a s = (q, b, t)" by (metis prod_cases3)
  note b = Reload_balanced [OF q]
  show ?case
  proof (cases q)
    case (Inr n)
    with Cons.prems q have "reloadAll N ctx ids (nodes @ [n]) b t = (r, a', s')" by simp
    from balanced_trans [OF b Cons.IH [OF this]] show ?thesis .
  qed (use Cons.prems q b in simp)
qed simp

lemma changeState_balanced:
  assumes "changeState N ctx i w k a s = (e, a', s')"
  shows "balanced a s a' s'"
proof (cases "findRouter N ctx i a s")
  case (Inr p)
  obtain q vm where p: "p = (q, vm)" by force
  obtain d t where d: "nat_call N vm k s = (d, t)" by force
  obtain r b u where u: "State N (WithoutCancel ctx) i a t = (r, b, u)" by (metis prod_cases3)
  from assms Inr p d u have "a' = b" "s' = u" by (auto simp: changeState_def Let_def)
  with balanced_trans [OF balanced_quiet State_balanced [OF u]] call_acc [OF d] show ?thesis by simp
qed (use assms in \<open>simp add: changeState_def\<close>)

lemma guarded_balanced:
  assumes "(case State N ctx i a s of (Inl e, a, s) \<Rightarrow> (Some e, a, s)
      | (Inr st, a, s) \<Rightarrow> if P st then (None, a, s) else changeState N ctx i w k a s) = (e, a', s')"
  shows "balanced a s a' s'"
proof -
  obtain r b t where r: "State N ctx i a s = (r, b, t)" by (metis prod_cases3)
  note b = State_balanced [OF r]
  from assms r consider "a' = b" "s' = t" | "changeState N ctx i w k b t = (e, a', s')"
    by (cases r) (auto split: if_splits)
  then show ?thesis
    using b balanced_trans [OF b changeState_balanced] by cases auto
qed

lemma Start_balanced: "router_Start N ctx i a s = (e, a', s') \<Longrightarrow> balanced a s a' s'"
  unfolding router_Start_def by (rule guarded_balanced)

lemma Stop_balanced: "router_Stop N ctx i a s = (e, a', s') \<Longrightarrow> balanced a s a' s'"
  unfolding router_Stop_def by (rule guarded_balanced)

lemma Restart_balanced:
  assumes "router_Restart N ctx i a s = (e, a', s')"
  shows "balanced a s a' s'"
proof -
  obtain d b t where d: "router_Stop N ctx i a s = (d, b, t)" by (metis prod_cases3)
  note b = Stop_balanced [OF d]
  from assms d consider "a' = b" "s' = t" | "router_Start N ctx i b t = (e, a', s')"
    by (cases d) (auto simp: router_Restart_def)
  then show ?thesis using b balanced_trans [OF b Start_balanced] by cases auto
qed

lemma Delete_balanced:
  assumes "router_Delete N ctx i a s = (e, a', s')"
  shows "balanced a s a' s'"
proof (cases "ctxErr N ctx s = None \<and> mget a i \<noteq> None")
  case False
  with assms show ?thesis by (auto simp: router_Delete_def split: option.splits)
next
  case True
  then obtain q where q: "mget a i = Some q" by auto
  obtain d q' t where d: "cleanupRouter N q s = (d, q', t)" by (metis prod_cases3)
  show ?thesis unfolding balanced_def
  proof
    assume ok: "adapter_ok a"
    note m = adapter_okD [OF ok q]
    note c = cleanupRouter_account [OF d m(3)]
    show "adapter_ok a' \<and> created s' + deleted s + tracked a = created s + deleted s' + tracked a'"
    proof (cases d)
      case None
      with assms True q d have "a' = mdel i a" "s' = t" by (auto simp: router_Delete_def)
      moreover have "handles q' = {#}"
        using cleanupRouter_ok [OF d [unfolded None] m(3)] by (simp add: handles_def)
      ultimately show ?thesis
        using c tracked_mdel [OF m(1) q, symmetric] adapter_ok_mdel [OF ok] by (simp add: ac_simps)
    next
      case (Some x)
      with assms True q d have a: "a' = mput i q' a" "s' = t" by (auto simp: router_Delete_def)
      have "deleted s + tracked a = deleted t + tracked (mput i q' a)"
        by (rule mset_swap [OF conjunct2 [OF c] tracked_mput [OF q]])
      with c have "created t + deleted s + tracked a = created s + deleted t + tracked (mput i q' a)"
        by (simp add: add.assoc)
      with a adapter_ok_update [OF ok q cleanupRouter_identity [OF d] cleanupRouter_mwf [OF d m(3)]]
      show ?thesis by simp
    qed
  qed
qed

lemma closeAll_balanced: "closeAll N ids fs a s = (fs', a', s') \<Longrightarrow> balanced a s a' s'"
proof (induction ids arbitrary: fs a s)
  case (Cons i ids)
  obtain d b t where d: "router_Delete N context_Background i a s = (d, b, t)" by (metis prod_cases3)
  from Cons.prems d obtain gs where "closeAll N ids gs b t = (fs', a', s')" by (cases d) auto
  from balanced_trans [OF Delete_balanced [OF d] Cons.IH [OF this]] show ?case .
qed simp

lemma Close_balanced: "router_Close N a s = (e, a', s') \<Longrightarrow> balanced a s a' s'"
  by (auto simp: router_Close_def dest: closeAll_balanced split: prod.splits)

lemma no_clash_apart:
  assumes "\<not> list_ex (\<lambda>(_, q). clashes cfg dir q) a" "mget a j = Some q" "identity r = (i, rname cfg, dy_InstanceID (dy_Config cfg), dir)"
  shows "apart_routers r q \<and> apart_routers q r"
proof -
  have "\<not> clashes cfg dir q" using assms(1) map_of_SomeD [OF assms(2)] by (auto simp: list_ex_iff)
  with assms(3) show ?thesis by (auto simp: clashes_def apart_routers_def identity_def)
qed

lemma createResolved_balanced:
  assumes run: "createResolved N ctx cfg dir a s = (r, a', s')"
    and ids: "distinct (map dif_ID (dy_Interfaces (dy_Config cfg)))"
  shows "balanced a s a' s'"
proof (cases "mget a (rid cfg) = None \<and> \<not> list_ex (\<lambda>(_, q). clashes cfg dir q) a")
  case False
  with run show ?thesis by (auto simp: createResolved_def split: if_splits)
next
  case True
  let ?vc = "\<lparr>vmc_Name = rname cfg, vmc_InstanceID = dy_InstanceID (dy_Config cfg),
               vmc_Platform = plat_Name (dy_Platform (dy_Config cfg)), vmc_StateDirectory = dir\<rparr>"
  obtain v t where v: "nat_CreateVM N ?vc s = (v, t)" by force
  note c = create_vm [OF v]
  show ?thesis
  proof (cases v)
    case (Inl e)
    with run True v c show ?thesis by (auto simp: createResolved_def intro: balanced_quiet)
  next
    case (Inr vm)
    obtain e q u where q: "configureRouter N ctx cfg vm (newRouter cfg dir vm) t = (e, q, u)" by (metis prod_cases3)
    have n: "r_NIOs (newRouter cfg dir vm) = []" "handles (newRouter cfg dir vm) = {#VMH vm#}"
      "identity (newRouter cfg dir vm) = (rid cfg, rname cfg, dy_InstanceID (dy_Config cfg), dir)"
      by (simp_all add: newRouter_def handles_def identity_def)
    note k = configureRouter_account [OF q n(1) ids]
    have kp: "identity q = (rid cfg, rname cfg, dy_InstanceID (dy_Config cfg), dir)" "mwf (r_NIOs q)"
      using configureRouter_keeps [OF q] n by auto
    have put: "adapter_ok (mput (rid cfg) q' a)" if "adapter_ok a" "identity q' = identity q" "mwf (r_NIOs q')" for q'
    proof (rule adapter_ok_new [OF that(1,3)])
      show "vn_ID (r_Node q') = rid cfg" using that(2) kp(1) by (simp add: identity_def)
      show "apart_routers q' z \<and> apart_routers z q'" if "mget a j = Some z" for j z
        by (rule no_clash_apart [OF conjunct2 [OF True] that]) (simp add: kp(1) \<open>identity q' = identity q\<close>)
    qed
    have tr: "tracked (mput (rid cfg) q' a) = tracked a + handles q'" for q'
      using True tracked_mput_new by blast
    show ?thesis
    proof (cases e)
      case None
      with run True v Inr q have "a' = mput (rid cfg) q a" "s' = u" by (auto simp: createResolved_def)
      with k c Inr n(2) tr put kp show ?thesis by (auto simp: balanced_def)
    next
      case (Some x)
      obtain d q' w where d: "cleanupRouter N q u = (d, q', w)" by (metis prod_cases3)
      note cc = cleanupRouter_account [OF d kp(2)]
      have hs: "created w + deleted s = created s + deleted w + handles q'"
        using cc k c Inr n(2) by (simp add: ac_simps)
      show ?thesis
      proof (cases d)
        case None
        with run True v Inr q Some d have "a' = a" "s' = w" by (auto simp: createResolved_def)
        with hs cleanupRouter_ok [OF d [unfolded None] kp(2)] show ?thesis by (simp add: balanced_def handles_def)
      next
        case (Some y)
        with run True v Inr q \<open>e = _\<close> d have "a' = mput (rid cfg) q' a" "s' = w" by (auto simp: createResolved_def)
        with hs tr put cleanupRouter_identity [OF d] cleanupRouter_mwf [OF d kp(2)] show ?thesis
          by (auto simp: balanced_def ac_simps)
      qed
    qed
  qed
qed

lemma CreateRouter_balanced:
  assumes "CreateRouter N live ctx cfg a s = (r, a', s')"
  shows "balanced a s a' s'"
proof (cases "ctxErr N ctx s = None \<and> live \<and> validateConfig cfg = None")
  case False
  with assms show ?thesis by (auto simp: CreateRouter_def split: option.splits if_splits)
next
  case True
  then obtain c where c: "cfg = Some c" by (cases cfg) (auto simp: validateConfig_def dyErr_def)
  with True have ids: "distinct (map dif_ID (dy_Interfaces (dy_Config c)))" using validateConfig_ids by blast
  show ?thesis
  proof (cases "dy_StateDirectory c = ''''")
    case False
    obtain p t where p: "nat_EvalSymlinks N (dy_StateDirectory c) s = (p, t)" by force
    note e = eval_acc [OF p]
    show ?thesis
    proof (cases p)
      case (Inr dir)
      with assms True c False p have "createResolved N ctx c dir a t = (r, a', s')" by (auto simp: CreateRouter_def)
      from balanced_trans [OF balanced_quiet createResolved_balanced [OF this ids]] e show ?thesis by simp
    qed (use assms True c False p e in \<open>auto simp: CreateRouter_def intro: balanced_quiet\<close>)
  qed (use assms True c createResolved_balanced [OF _ ids] in \<open>auto simp: CreateRouter_def\<close>)
qed

end

section \<open>Logging any native runtime\<close>

record 's native_log =
  nl_state :: 's
  nl_created :: "native_handle multiset"
  nl_deleted :: "native_handle multiset"

definition log_create :: "(nat \<Rightarrow> native_handle) \<Rightarrow> (gerror + nat) \<times> 's \<Rightarrow> 's native_log \<Rightarrow> (gerror + nat) \<times> 's native_log" where
  "log_create h r l = (case r of
      (Inr v, s) \<Rightarrow> (Inr v, l\<lparr>nl_state := s, nl_created := add_mset (h v) (nl_created l)\<rparr>)
    | (Inl e, s) \<Rightarrow> (Inl e, l\<lparr>nl_state := s\<rparr>))"

definition log_delete :: "native_handle \<Rightarrow> gerror option \<times> 's \<Rightarrow> 's native_log \<Rightarrow> gerror option \<times> 's native_log" where
  "log_delete h r l = (case r of
      (None, s) \<Rightarrow> (None, l\<lparr>nl_state := s, nl_deleted := add_mset h (nl_deleted l)\<rparr>)
    | (Some e, s) \<Rightarrow> (Some e, l\<lparr>nl_state := s\<rparr>))"

definition log_other :: "'r \<times> 's \<Rightarrow> 's native_log \<Rightarrow> 'r \<times> 's native_log" where
  "log_other r l = (case r of (x, s) \<Rightarrow> (x, l\<lparr>nl_state := s\<rparr>))"

definition logged :: "'s native \<Rightarrow> 's native_log native" where
  "logged N =
     \<lparr>nat_CreateVM = (\<lambda>c l. log_create VMH (nat_CreateVM N c (nl_state l)) l),
      nat_call = (\<lambda>v k l. log_other (nat_call N v k (nl_state l)) l),
      nat_DeleteVM = (\<lambda>v l. log_delete (VMH v) (nat_DeleteVM N v (nl_state l)) l),
      nat_Status = (\<lambda>v l. log_other (nat_Status N v (nl_state l)) l),
      nat_CreateUDP = (\<lambda>c l. log_create NIOH (nat_CreateUDP N c (nl_state l)) l),
      nat_DeleteNIO = (\<lambda>v l. log_delete (NIOH v) (nat_DeleteNIO N v (nl_state l)) l),
      nat_EvalSymlinks = (\<lambda>p l. log_other (nat_EvalSymlinks N p (nl_state l)) l),
      nat_now = (\<lambda>l. nat_now N (nl_state l))\<rparr>"

interpretation native_log: native_account "logged N" nl_created nl_deleted
  by unfold_locales (auto simp: logged_def log_create_def log_delete_def log_other_def split: prod.splits sum.splits option.splits)

section \<open>Sequences of calls\<close>

datatype adapter_call =
    CCreate bool Context "dynamips_RuntimeConfig option" | CState Context string | CReload Context string
  | CList Context | CStart Context string | CStop Context string | CSuspend Context string
  | CResume Context string | CRestart Context string | CDelete Context string | CClose

fun adapter_do :: "'s native \<Rightarrow> adapter_call \<Rightarrow> Routers \<Rightarrow> 's \<Rightarrow> Routers \<times> 's" where
  "adapter_do N (CCreate live ctx cfg) a s = snd (CreateRouter N live ctx cfg a s)"
| "adapter_do N (CState ctx i) a s = snd (State N ctx i a s)"
| "adapter_do N (CReload ctx i) a s = snd (Reload N ctx i a s)"
| "adapter_do N (CList ctx) a s = snd (List_routers N ctx a s)"
| "adapter_do N (CStart ctx i) a s = snd (router_Start N ctx i a s)"
| "adapter_do N (CStop ctx i) a s = snd (router_Stop N ctx i a s)"
| "adapter_do N (CSuspend ctx i) a s = snd (router_Suspend N ctx i a s)"
| "adapter_do N (CResume ctx i) a s = snd (router_Resume N ctx i a s)"
| "adapter_do N (CRestart ctx i) a s = snd (router_Restart N ctx i a s)"
| "adapter_do N (CDelete ctx i) a s = snd (router_Delete N ctx i a s)"
| "adapter_do N CClose a s = snd (router_Close N a s)"

definition adapter_step :: "'s native \<Rightarrow> Routers \<times> 's \<Rightarrow> adapter_call \<Rightarrow> Routers \<times> 's \<Rightarrow> bool" where
  "adapter_step N x c y \<longleftrightarrow> y = adapter_do N c (fst x) (snd x)"

context native_account
begin

lemma snd_result: "(\<And>r a' s'. f = (r, a', s') \<Longrightarrow> P a' s') \<Longrightarrow> snd f = (b, t) \<Longrightarrow> P b t"
  by (cases f) auto

lemma adapter_do_balanced: "adapter_do N c a s = (a', s') \<Longrightarrow> balanced a s a' s'"
  by (cases c; simp only: adapter_do.simps List_routers_def router_Suspend_def router_Resume_def; erule snd_result [rotated])
     (auto intro: CreateRouter_balanced State_balanced Reload_balanced reloadAll_balanced Start_balanced Stop_balanced
       changeState_balanced Restart_balanced Delete_balanced Close_balanced)

lemma adapter_inv_step:
  assumes "adapter_ok a \<and> created s = deleted s + tracked a" "adapter_step N (a, s) c (a', s')"
  shows "adapter_ok a' \<and> created s' = deleted s' + tracked a'"
proof -
  have b: "balanced a s a' s'" using assms(2) by (auto simp: adapter_step_def intro: adapter_do_balanced)
  have "created s' + (deleted s + tracked a) = (deleted s' + tracked a') + (deleted s + tracked a)"
    using b assms(1) by (simp add: balanced_def ac_simps)
  with b assms(1) show ?thesis by (simp add: balanced_def)
qed

end

definition fresh_log :: "'s \<Rightarrow> 's native_log" where
  "fresh_log s = \<lparr>nl_state = s, nl_created = {#}, nl_deleted = {#}\<rparr>"

interpretation adapter_run: inductive_invariant "([], fresh_log s)" "adapter_step (logged N)"
  "\<lambda>(a, l). adapter_ok a \<and> nl_created l = nl_deleted l + tracked a"
proof unfold_locales
  show "case ([], fresh_log s) of (a, l) \<Rightarrow> adapter_ok a \<and> nl_created l = nl_deleted l + tracked a"
    by (simp add: fresh_log_def)
  show "case t of (a, l) \<Rightarrow> adapter_ok a \<and> nl_created l = nl_deleted l + tracked a"
    if "case u of (a, l) \<Rightarrow> adapter_ok a \<and> nl_created l = nl_deleted l + tracked a" "adapter_step (logged N) u c t" for u c t
    using that native_log.adapter_inv_step [of "fst u" "snd u" N c "fst t" "snd t"] by (cases u; cases t) auto
qed

lemma Delete_gone:
  assumes "router_Delete N ctx i a s = (e, a', s')"
  shows "(\<forall>j. j \<noteq> i \<longrightarrow> mget a' j = mget a j) \<and> (e = None \<longrightarrow> mget a' i = None) \<and> dom (map_of a') \<subseteq> dom (map_of a)"
  using assms by (auto simp: router_Delete_def split: option.splits prod.splits if_splits)

lemma closeAll_gone:
  "closeAll N ids fs a s = (fs', a', s') \<Longrightarrow>
   length fs \<le> length fs' \<and> dom (map_of a') \<subseteq> dom (map_of a) \<and> (fs' = fs \<longrightarrow> (\<forall>i \<in> set ids. mget a' i = None))"
proof (induction ids arbitrary: fs a s)
  case (Cons i ids)
  obtain d b t where d: "router_Delete N context_Background i a s = (d, b, t)" by (metis prod_cases3)
  note g = Delete_gone [OF d]
  show ?case
  proof (cases d)
    case None
    with Cons.prems d have "closeAll N ids fs b t = (fs', a', s')" by simp
    from Cons.IH [OF this] have h: "length fs \<le> length fs'" "dom (map_of a') \<subseteq> dom (map_of b)"
      "fs' = fs \<longrightarrow> (\<forall>i \<in> set ids. mget a' i = None)" by simp_all
    have "mget a' i = None" using h(2) g None by (metis domIff subsetD)
    with h g show ?thesis by (metis (no_types, lifting) set_ConsD subset_trans)
  next
    case (Some e)
    with Cons.prems d have "closeAll N ids (fs @ [e]) b t = (fs', a', s')" by simp
    from Cons.IH [OF this] have h: "length fs < length fs'" "dom (map_of a') \<subseteq> dom (map_of b)" by simp_all
    from h(2) g have "dom (map_of a') \<subseteq> dom (map_of a)" by (metis subset_trans)
    with h(1) show ?thesis by auto
  qed
qed simp

lemma Close_empty:
  assumes "router_Close N a s = (None, a', s')"
  shows "a' = []"
proof -
  obtain fs b t where c: "closeAll N (mkeys a) [] a s = (fs, b, t)" by (metis prod_cases3)
  with assms have "fs = []" "b = a'" by (auto simp: router_Close_def errors_Join_map_None)
  with closeAll_gone [OF c] have h: "dom (map_of a') \<subseteq> dom (map_of a)" "\<forall>i \<in> dom (map_of a). mget a' i = None"
    by (simp_all add: set_mkeys)
  then have "mget a' i = None" for i by (metis domIff subsetD)
  then have "map_of a' = Map.empty" by (rule ext)
  then show ?thesis by simp
qed

text \<open>C24: in every reachable state of the adapter, whatever the native runtime does and whichever calls
  fail, the identifiers, names, instance numbers and state directories of the routers are distinct,
  and the native handles created so far are exactly those deleted and those that the adapter still
  tracks: none is lost and none is deleted twice. When \<open>Close\<close> reports no error, every handle has
  been deleted.\<close>

theorem adapter_tracks_handles:
  assumes "reach ([], fresh_log s) (adapter_step (logged N)) (a, l)"
  shows "adapter_ok a \<and> nl_created l = nl_deleted l + tracked a \<and>
    (\<forall>a' l'. router_Close (logged N) a l = (None, a', l') \<longrightarrow> a' = [] \<and> nl_created l' = nl_deleted l')"
proof -
  have inv: "adapter_ok a \<and> nl_created l = nl_deleted l + tracked a"
    using adapter_run.reach_inv [OF assms] by simp
  moreover have "a' = [] \<and> nl_created l' = nl_deleted l'" if "router_Close (logged N) a l = (None, a', l')" for a' l'
  proof -
    have "adapter_step (logged N) (a, l) CClose (a', l')" using that by (simp add: adapter_step_def)
    from native_log.adapter_inv_step [OF inv this] Close_empty [OF that] show ?thesis by simp
  qed
  ultimately show ?thesis by blast
qed

definition demo_native :: "nat native" where
  "demo_native =
     \<lparr>nat_CreateVM = (\<lambda>c n. (Inr n, n + 1)), nat_call = (\<lambda>v k n. (None, n)), nat_DeleteVM = (\<lambda>v n. (None, n)),
      nat_Status = (\<lambda>v n. (Inr VMHalted, n)), nat_CreateUDP = (\<lambda>c n. (Inr n, n + 1)), nat_DeleteNIO = (\<lambda>v n. (None, n)),
      nat_EvalSymlinks = (\<lambda>p n. (Inr p, n)), nat_now = (\<lambda>n. 0)\<rparr>"

definition demo_router :: dynamips_RuntimeConfig where
  "demo_router =
     \<lparr>dy_Config =
        \<lparr>dy_NodeConfig = \<lparr>nc_ID = ''r1'', nc_Name = ''r1'', nc_Image = ''/ios'', nc_CPUs = 0, nc_MemoryMB = 512,
           nc_ConsoleType = '''', nc_AuxConsoleType = '''', nc_Meta = []\<rparr>,
         dy_State = \<lparr>ref_Provider = ''local'', ref_Key = ''lab/r1''\<rparr>,
         dy_Platform = \<lparr>plat_Name = ''c7200'', plat_Chassis = '''', plat_MAC = None, plat_C7200 = None\<rparr>,
         dy_InstanceID = 1, dy_Cards = [\<lparr>card_Slot = 0, card_Name = ''C7200-IO-FE''\<rparr>],
         dy_Interfaces = [\<lparr>dif_ID = ''eth0'', dif_Slot = 0, dif_Port = 0,
           dif_UDP = \<lparr>udp_LocalPort = 23000, udp_Remote = Addr4 ''127.0.0.1'' 23001\<rparr>\<rparr>],
         dy_ConsolePort = 2000, dy_EnhancedConsole = False, dy_StartupConfig = None, dy_PrivateConfig = None\<rparr>,
      dy_StateDirectory = ''/state/r1''\<rparr>"

theorem adapter_tracks_handles_witness:
  "\<exists>a l. adapter_step (logged demo_native) ([], fresh_log 0) (CCreate True context_Background (Some demo_router)) (a, l) \<and>
     adapter_ok a \<and> nl_created l = nl_deleted l + tracked a"
proof -
  obtain a l where step: "adapter_step (logged demo_native) ([], fresh_log 0) (CCreate True context_Background (Some demo_router)) (a, l)"
    by (metis adapter_step_def prod.collapse)
  have "reach ([], fresh_log 0) (adapter_step (logged demo_native)) (a, l)"
    using step reach_init reach_step by metis
  from adapter_tracks_handles [OF this] step show ?thesis by blast
qed

section \<open>The manager over the adapter\<close>

text \<open>The adapter as the manager's provider, and a storage manager beside it, on a joint state.\<close>

definition adapter_provider :: "'s native \<Rightarrow> bool \<Rightarrow> (Routers \<times> 's) router_provider" where
  "adapter_provider N live =
     \<lparr>rp_CreateRouter = (\<lambda>ctx cfg (a, s). case CreateRouter N live ctx (Some cfg) a s of (r, x) \<Rightarrow> (r, x)),
      rp_Delete = (\<lambda>ctx i (a, s). case router_Delete N ctx i a s of (e, x) \<Rightarrow> (e, x))\<rparr>"

definition beside :: "'s StorageManager \<Rightarrow> ('a \<times> 's) StorageManager" where
  "beside M =
     \<lparr>sm_Prepare = (\<lambda>ctx req (a, s). case sm_Prepare M ctx req s of (r, s) \<Rightarrow> (r, (a, s))),
      sm_Release = (\<lambda>ctx p (a, s). case sm_Release M ctx p s of (e, s) \<Rightarrow> (e, (a, s)))\<rparr>"

lemma deleteNIOs_Is:
  assumes "deleteNIOs N rest nios fs s = (fs', nios', s')"
    "\<forall>e \<in> set fs. errors_Is e (DynamipsKind dynamips_kind.ErrCleanup)"
  shows "\<forall>e \<in> set fs'. errors_Is e (DynamipsKind dynamips_kind.ErrCleanup)"
  using assms by (induction N rest nios fs s rule: deleteNIOs.induct) (auto split: prod.splits option.splits)

lemma cleanupNIOs_Is: "cleanupNIOs N r s = (Some e, r', s') \<Longrightarrow> errors_Is e (DynamipsKind dynamips_kind.ErrCleanup)"
proof -
  assume run: "cleanupNIOs N r s = (Some e, r', s')"
  obtain fs nios t where d: "deleteNIOs N (r_NIOs r) (r_NIOs r) [] s = (fs, nios, t)" by (metis prod_cases3)
  with run have j: "errors_Join (map Some fs) = Some e" by (auto simp: cleanupNIOs_def)
  then have "fs \<noteq> []" by (auto simp: errors_Join_def)
  with deleteNIOs_Is [OF d] errors_Join_Is [OF j] show ?thesis by (cases fs) auto
qed

lemma cleanupRouter_Is: "cleanupRouter N r s = (Some e, r', s') \<Longrightarrow> errors_Is e (DynamipsKind dynamips_kind.ErrCleanup)"
  by (auto simp: cleanupRouter_def dest: cleanupNIOs_Is split: option.splits prod.splits)

text \<open>A failed creation that leaves a router behind says so; otherwise the routers are as before.\<close>

lemma createResolved_result:
  assumes "createResolved N ctx cfg dir a s = (r, a', s')"
  shows "(case r of
      Inr node \<Rightarrow> (\<exists>q. a' = mput (rid cfg) q a \<and> node = r_Node q)
    | Inl e \<Rightarrow> a' = a \<or> (\<exists>q. a' = mput (rid cfg) q a) \<and> errors_Is e (DynamipsKind dynamips_kind.ErrCleanup))"
proof -
  have j: "errors_Is (the (errors_Join [Some x, Some y])) k \<longleftrightarrow> errors_Is x k \<or> errors_Is y k" for x y k
    by (auto simp: errors_Join_def List.map_filter_def)
  show ?thesis
    using assms
    by (auto simp: createResolved_def j dest: cleanupRouter_Is split: if_splits prod.splits sum.splits option.splits)
qed

lemma CreateRouter_result:
  assumes "CreateRouter N live ctx (Some cfg) a s = (r, a', s')"
  shows "(case r of
      Inr node \<Rightarrow> (\<exists>q. a' = mput (rid cfg) q a \<and> node = r_Node q)
    | Inl e \<Rightarrow> a' = a \<or> (\<exists>q. a' = mput (rid cfg) q a) \<and> errors_Is e (DynamipsKind dynamips_kind.ErrCleanup))"
  using assms
  by (auto simp: CreateRouter_def Let_def dest: createResolved_result split: option.splits if_splits prod.splits sum.splits)

lemma router_rollback_routers:
  "router_rollback clk (Some (beside M)) ctx res cause (a, s) = (res', e, (a', s')) \<Longrightarrow> a' = a"
  by (auto simp: router_rollback_def router_Release_def beside_def split: option.splits prod.splits)

lemma router_Prepare_result:
  assumes "router_Prepare clk (Some (beside M)) ctx (Some cfg) (a, s) = (rc, res, err, (a', s'))"
  shows "a' = a \<and> (err = None \<longrightarrow> (\<exists>pr. res = Some (Some pr) \<and> pr_Location pr = \<lparr>loc_Kind = LocationPath, loc_Value = dy_StateDirectory (the rc)\<rparr> \<and>
    rc = Some \<lparr>dy_Config = cfg, dy_StateDirectory = loc_Value (pr_Location pr)\<rparr>)) \<and> (err \<noteq> None \<longrightarrow> rc = None)"
  using assms
  by (auto simp: router_Prepare_def Let_def beside_def [where M = M] dest!: router_rollback_routers [unfolded beside_def]
      split: if_splits option.splits prod.splits sum.splits)

text \<open>C25: the state directory of a router stays leased as long as the adapter has the router. After
  \<open>Create\<close>, success means that the router is tracked and the caller holds its lease; if a failed
  creation left a router behind, the caller still holds the lease; no other router is touched.
  \<open>Delete\<close> gives up a lease only after the router is gone, and refuses a lease of another node
  without touching anything.\<close>

theorem lease_outlives_router:
  assumes "manager_Create clk (Some (beside M)) ctx (Some (adapter_provider N live)) (Some cfg) (a, s) = (node, res, err, (a1, s1))"
    and "manager_Delete (Some (beside M)) ctx' (Some (adapter_provider N live)) i (Some (Some pr)) (b, t) = (err', res', (b1, t1))"
  shows "(err = None \<longrightarrow> (\<exists>lease q. res = Some (Some lease) \<and> mget a1 (nc_ID (dy_NodeConfig cfg)) = Some q \<and> node = Some (r_Node q))) \<and>
    (err \<noteq> None \<and> a1 \<noteq> a \<longrightarrow> (\<exists>lease. res = Some (Some lease))) \<and>
    (\<forall>j. j \<noteq> nc_ID (dy_NodeConfig cfg) \<longrightarrow> mget a1 j = mget a j) \<and>
    (res' \<noteq> Some (Some pr) \<longrightarrow> mget b1 i = None \<and> err' = None) \<and>
    (pr_NodeID pr \<noteq> i \<longrightarrow> err' \<noteq> None \<and> b1 = b \<and> t1 = t)"
proof -
  obtain rc res0 e0 a0 s0 where p: "router_Prepare clk (Some (beside M)) ctx (Some cfg) (a, s) = (rc, res0, e0, (a0, s0))"
    by (metis prod_cases4 prod.collapse)
  note P = router_Prepare_result [OF p]
  have c: "(err = None \<longrightarrow> (\<exists>lease q. res = Some (Some lease) \<and> mget a1 (nc_ID (dy_NodeConfig cfg)) = Some q \<and> node = Some (r_Node q))) \<and>
    (err \<noteq> None \<and> a1 \<noteq> a \<longrightarrow> (\<exists>lease. res = Some (Some lease))) \<and>
    (\<forall>j. j \<noteq> nc_ID (dy_NodeConfig cfg) \<longrightarrow> mget a1 j = mget a j)"
  proof (cases e0)
    case (Some e)
    with assms(1) p P show ?thesis by (auto simp: manager_Create_def)
  next
    case None
    with P obtain lease c where l: "res0 = Some (Some lease)" "rc = Some c" "rid c = nc_ID (dy_NodeConfig cfg)" by auto
    obtain r a2 s2 where r: "CreateRouter N live ctx (Some c) a0 s0 = (r, a2, s2)" by (metis prod_cases3)
    note R = CreateRouter_result [OF r]
    have rp: "rp_CreateRouter (adapter_provider N live) ctx c (a0, s0) = (r, (a2, s2))"
      using r by (simp add: adapter_provider_def)
    show ?thesis
    proof (cases r)
      case (Inr nd)
      have e: "node = Some nd" "res = Some (Some lease)" "err = None" "a1 = a2"
        using assms(1) p l(1,2) None rp Inr by (simp_all add: manager_Create_def)
      from R Inr obtain q where "a2 = mput (rid c) q a0" "nd = r_Node q" by auto
      with e P l(3) show ?thesis by simp
    next
      case (Inl e)
      obtain rem e3 a3 s3 where b: "router_rollback clk (Some (beside M)) ctx (Some lease) e (a2, s2) = (rem, e3, (a3, s3))"
        by (metis prod_cases3 prod.collapse)
      have "(node, res, err, a1) = (if errors_Is e (DynamipsKind dynamips_kind.ErrCleanup) then (None, Some (Some lease), Some e, a2)
          else (None, rem, Some e3, a3))"
        using assms(1) p l None rp Inl b by (auto simp: manager_Create_def split: if_splits)
      with P R Inl l(3) router_rollback_routers [OF b] show ?thesis by (auto split: if_splits)
    qed
  qed
  obtain d b2 t2 where d: "router_Delete N ctx' i b t = (d, b2, t2)" by (metis prod_cases3)
  have "(res' \<noteq> Some (Some pr) \<longrightarrow> mget b1 i = None \<and> err' = None) \<and> (pr_NodeID pr \<noteq> i \<longrightarrow> err' \<noteq> None \<and> b1 = b \<and> t1 = t)"
  proof (cases "pr_NodeID pr = i \<and> d = None")
    case True
    then have "router_Release (Some (beside M)) ctx' (Some (Some pr)) (b2, t2) = (err', res', (b1, t1))"
      using assms(2) d by (simp add: manager_Delete_def adapter_provider_def)
    then have "b1 = b2" "res' \<noteq> Some (Some pr) \<longrightarrow> err' = None"
      by (auto simp: router_Release_def beside_def split: option.splits prod.splits)
    with True Delete_gone [OF d] show ?thesis by simp
  next
    case False
    with assms(2) d show ?thesis by (auto simp: manager_Delete_def adapter_provider_def split: if_splits)
  qed
  with c show ?thesis by blast
qed

theorem lease_outlives_router_witness:
  "\<exists>err' res' b1 t1. manager_Delete (Some (beside demo_store)) background (Some (adapter_provider demo_native True)) ''other'' (Some (Some demo_prepared))
     ([], 0) = (err', res', (b1, t1)) \<and> err' \<noteq> None \<and> b1 = [] \<and> t1 = 0"
proof -
  obtain err' res' b1 t1 where d: "manager_Delete (Some (beside demo_store)) background (Some (adapter_provider demo_native True)) ''other''
      (Some (Some demo_prepared)) ([], 0) = (err', res', (b1, t1))"
    by (metis prod_cases3 prod.collapse)
  obtain node res err a1 s1 where c: "manager_Create (\<lambda>_. 0) (Some (beside demo_store)) background (Some (adapter_provider demo_native True))
      (Some (dy_Config demo_router)) ([], 0) = (node, res, err, (a1, s1))"
    by (metis prod_cases4 prod.collapse)
  have "pr_NodeID demo_prepared \<noteq> ''other''" by (simp add: demo_prepared_def)
  with lease_outlives_router [OF c d] d show ?thesis by blast
qed

section \<open>Bounds\<close>

lemma validateCards_slots: "validateCards slots cs = None \<Longrightarrow> distinct (map card_Slot cs) \<and> (\<forall>c \<in> set cs. card_Slot c \<notin> set slots)"
proof (induction cs arbitrary: slots)
  case (Cons c cs)
  then have "card_Slot c \<notin> set slots" "validateCards (card_Slot c # slots) cs = None"
    by (auto simp: dyErr_def split: if_splits)
  with Cons.IH [OF this(2)] show ?case by auto
qed simp

lemma validateInterfaces_ports:
  "validateInterfaces ids ports ifs = None \<Longrightarrow> distinct (map (\<lambda>x. (dif_Slot x, dif_Port x)) ifs) \<and>
     (\<forall>x \<in> set ifs. (dif_Slot x, dif_Port x) \<notin> set ports \<and> addr_Is4 (udp_Remote (dif_UDP x)))"
proof (induction ifs arbitrary: ids ports)
  case (Cons x ifs)
  then have "(dif_Slot x, dif_Port x) \<notin> set ports" "addr_Is4 (udp_Remote (dif_UDP x))"
    "validateInterfaces (dif_ID x # ids) ((dif_Slot x, dif_Port x) # ports) ifs = None"
    by (auto simp: dyErr_def split: if_splits)
  with Cons.IH [OF this(3)] show ?case by auto
qed simp

lemma validateConfig_parts:
  assumes "validateConfig (Some cfg) = None"
  shows "0 \<le> sint (dy_InstanceID (dy_Config cfg))" "0 \<le> nc_MemoryMB (dy_NodeConfig (dy_Config cfg))"
    "nc_MemoryMB (dy_NodeConfig (dy_Config cfg)) \<le> MaxUint32"
    "validatePlatform (dy_Platform (dy_Config cfg)) = None" "validateCards [] (dy_Cards (dy_Config cfg)) = None"
    "validateInterfaces [] [] (dy_Interfaces (dy_Config cfg)) = None"
  using assms by (auto simp: validateConfig_def Let_def dyErr_def split: if_splits option.splits)

lemma validatePlatform_C7200:
  assumes "validatePlatform p = None"
  shows "plat_MAC p = Some m \<Longrightarrow> plat_Name p = ''c7200''"
    "plat_C7200 p = Some c \<Longrightarrow> plat_Name p = ''c7200'' \<and> NUL \<notin> set (c72_NPE c) \<and> NUL \<notin> set (c72_Midplane c)"
  using assms by (auto simp: validatePlatform_def dyErr_def split: if_splits)

text \<open>C26: a validated configuration reaches the native runtime without truncation: the RAM size set
  is the configured one although it is converted to 32 bits, the instance number is not negative,
  the settings of a C7200 (network processing engine, midplane and chassis MAC address) are the
  configured ones, free of NUL characters where they are passed as C strings, and are made on a c7200
  only, cards have distinct slots, and interfaces have distinct identifiers and card ports, with IPv4
  endpoints.\<close>

theorem validated_settings_fit:
  assumes "validateConfig (Some cfg) = None"
  shows "(\<forall>w. SetRAM w \<in> set (settings cfg) \<longrightarrow> uint w = nc_MemoryMB (dy_NodeConfig (dy_Config cfg))) \<and>
    0 \<le> sint (dy_InstanceID (dy_Config cfg)) \<and>
    (\<forall>m. SetC7200MACAddr m \<in> set (settings cfg) \<longrightarrow>
      plat_Name (dy_Platform (dy_Config cfg)) = ''c7200'' \<and> plat_MAC (dy_Platform (dy_Config cfg)) = Some m) \<and>
    (\<forall>n. SetC7200NPE n \<in> set (settings cfg) \<longrightarrow>
      plat_Name (dy_Platform (dy_Config cfg)) = ''c7200'' \<and> NUL \<notin> set n \<and>
      map_option c72_NPE (plat_C7200 (dy_Platform (dy_Config cfg))) = Some n) \<and>
    (\<forall>m. SetC7200Midplane m \<in> set (settings cfg) \<longrightarrow>
      plat_Name (dy_Platform (dy_Config cfg)) = ''c7200'' \<and> NUL \<notin> set m \<and>
      map_option c72_Midplane (plat_C7200 (dy_Platform (dy_Config cfg))) = Some m) \<and>
    distinct (map card_Slot (dy_Cards (dy_Config cfg))) \<and> distinct (map dif_ID (dy_Interfaces (dy_Config cfg))) \<and>
    distinct (map (\<lambda>x. (dif_Slot x, dif_Port x)) (dy_Interfaces (dy_Config cfg))) \<and>
    (\<forall>x \<in> set (dy_Interfaces (dy_Config cfg)). addr_Is4 (udp_Remote (dif_UDP x)))"
proof -
  note v = validateConfig_parts [OF assms]
  have "uint (word_of_int (nc_MemoryMB (dy_NodeConfig (dy_Config cfg))) :: 32 word) = nc_MemoryMB (dy_NodeConfig (dy_Config cfg))"
    using v(2,3) by (simp add: uint_word_of_int)
  then have ram: "\<forall>w. SetRAM w \<in> set (settings cfg) \<longrightarrow> uint w = nc_MemoryMB (dy_NodeConfig (dy_Config cfg))"
    by (auto simp: settings_def Let_def split: option.splits if_splits)
  note platform = validatePlatform_C7200 [OF v(4)]
  have mac: "SetC7200MACAddr m \<in> set (settings cfg) \<Longrightarrow> plat_MAC (dy_Platform (dy_Config cfg)) = Some m" for m
    by (auto simp: settings_def Let_def split: option.splits if_splits)
  have npe: "SetC7200NPE n \<in> set (settings cfg) \<Longrightarrow> \<exists>c. plat_C7200 (dy_Platform (dy_Config cfg)) = Some c \<and> c72_NPE c = n" for n
    by (cases "plat_C7200 (dy_Platform (dy_Config cfg))") (auto simp: settings_def Let_def split: option.splits if_splits)
  have midplane: "SetC7200Midplane m \<in> set (settings cfg) \<Longrightarrow> \<exists>c. plat_C7200 (dy_Platform (dy_Config cfg)) = Some c \<and> c72_Midplane c = m" for m
    by (cases "plat_C7200 (dy_Platform (dy_Config cfg))") (auto simp: settings_def Let_def split: option.splits if_splits)
  have c7200: "(\<forall>m. SetC7200MACAddr m \<in> set (settings cfg) \<longrightarrow>
      plat_Name (dy_Platform (dy_Config cfg)) = ''c7200'' \<and> plat_MAC (dy_Platform (dy_Config cfg)) = Some m)"
    "(\<forall>n. SetC7200NPE n \<in> set (settings cfg) \<longrightarrow>
      plat_Name (dy_Platform (dy_Config cfg)) = ''c7200'' \<and> NUL \<notin> set n \<and>
      map_option c72_NPE (plat_C7200 (dy_Platform (dy_Config cfg))) = Some n)"
    "(\<forall>m. SetC7200Midplane m \<in> set (settings cfg) \<longrightarrow>
      plat_Name (dy_Platform (dy_Config cfg)) = ''c7200'' \<and> NUL \<notin> set m \<and>
      map_option c72_Midplane (plat_C7200 (dy_Platform (dy_Config cfg))) = Some m)"
    using mac npe midplane platform by fastforce+
  from ram c7200 v(1) validateCards_slots [OF v(5)] validateInterfaces_ids [OF v(6)] validateInterfaces_ports [OF v(6)]
  show ?thesis by simp
qed

theorem validated_settings_fit_witness:
  "\<exists>cfg. validateConfig (Some cfg) = None \<and> SetRAM 512 \<in> set (settings cfg) \<and>
     uint (512 :: 32 word) = nc_MemoryMB (dy_NodeConfig (dy_Config cfg)) \<and>
     SetC7200Midplane ''vxr'' \<in> set (settings cfg) \<and> plat_Name (dy_Platform (dy_Config cfg)) = ''c7200''"
proof -
  let ?platform = "(dy_Platform (dy_Config demo_router))\<lparr>plat_C7200 := Some \<lparr>c72_NPE = ''npe-400'', c72_Midplane = ''vxr''\<rparr>\<rparr>"
  let ?cfg = "demo_router\<lparr>dy_Config := (dy_Config demo_router)\<lparr>dy_Platform := ?platform\<rparr>\<rparr>"
  have valid: "validateConfig (Some ?cfg) = None" by code_simp
  have "SetRAM 512 \<in> set (settings ?cfg)" "SetC7200Midplane ''vxr'' \<in> set (settings ?cfg)"
    by (simp_all add: settings_def demo_router_def)
  with validated_settings_fit [OF valid] valid show ?thesis by blast
qed

section \<open>A partial deletion hides the inventory\<close>

lemma Reload_handle:
  "Reload N ctx j a s = (r, a', s') \<Longrightarrow> map_option r_VM (mget a' i) = map_option r_VM (mget a i)"
  by (auto simp: Reload_def State_def findRouter_def split: option.splits prod.splits sum.splits)

lemma Reload_without_VM:
  "map_option r_VM (mget a i) = Some None \<Longrightarrow> \<exists>e. Reload N ctx i a s = (Inl e, a, s)"
  by (auto simp: Reload_def State_def findRouter_def split: option.splits)

lemma reloadAll_without_VM:
  "i \<in> set ids \<Longrightarrow> map_option r_VM (mget a i) = Some None \<Longrightarrow> \<exists>e a' s'. reloadAll N ctx ids nodes a s = (Inl e, a', s')"
proof (induction ids arbitrary: nodes a s)
  case (Cons j ids)
  obtain r b t where r: "Reload N ctx j a s = (r, b, t)" by (metis prod_cases3)
  show ?case
  proof (cases r)
    case (Inl e)
    with r show ?thesis by simp
  next
    case (Inr node)
    then have "j \<noteq> i" using r Reload_without_VM [OF Cons.prems(2), of N ctx s] by auto
    moreover have "map_option r_VM (mget b i) = Some None" using Reload_handle [OF r] Cons.prems(2) by metis
    ultimately show ?thesis using Cons.IH [of b "nodes @ [node]" t] Cons.prems(1) r Inr by simp
  qed
qed simp

text \<open>C27: a deletion that removed the virtual machine of a router but not all of its network
  endpoints keeps the router in the map without a machine, and from then on \<open>List\<close> fails whatever the
  other routers do: one leftover endpoint hides the whole inventory, until the deletion is retried
  with success.\<close>

theorem List_blocked_by_partial_cleanup:
  assumes "mget a i = Some router" and "r_VM router = Some vm" and "nat_DeleteVM N vm s = (None, t)"
    and "ctxErr N ctx s = None" and "router_Delete N ctx i a s = (Some e, a', s')"
  shows "\<exists>left. mget a' i = Some left \<and> r_VM left = None \<and>
    (\<forall>ctx' t'. \<exists>e' a'' s''. List_routers N ctx' a' t' = (Inl e', a'', s''))"
proof -
  from assms obtain left where c: "cleanupNIOs N (router\<lparr>r_VM := None\<rparr>) t = (Some e, left, s')" and a': "a' = mput i left a"
    by (auto simp: router_Delete_def cleanupRouter_def split: option.splits prod.splits)
  have vm: "r_VM left = None" using deleteNIOs_identity [OF c] by simp
  have "i \<in> set (sort (mkeys a'))" using a' by (simp add: set_mkeys)
  then have "\<exists>e' a'' s''. List_routers N ctx' a' t' = (Inl e', a'', s'')" for ctx' t'
    unfolding List_routers_def by (rule reloadAll_without_VM) (simp add: a' vm)
  with vm a' show ?thesis by simp
qed

definition stuck_native :: "nat native" where
  "stuck_native = demo_native\<lparr>nat_DeleteNIO := (\<lambda>v n. (Some (Foreign ''busy'' []), n))\<rparr>"

definition two_routers :: Routers where
  "two_routers =
     (let node = \<lparr>vn_ID = ''r1'', vn_Name = ''r1'', vn_State = NodeStopped, vn_Console = \<lparr>con_Type = '''', con_Host = '''', con_Port = 0\<rparr>,
        vn_Aux = None\<rparr>;
        router = \<lparr>r_Node = node, r_InstanceID = 1, r_EnhancedConsole = False, r_StateDirectory = '''', r_VM = Some 0, r_NIOs = [(''eth0'', 1)]\<rparr> in
      [(''r1'', router), (''r2'', router\<lparr>r_Node := node\<lparr>vn_ID := ''r2''\<rparr>, r_VM := Some 2, r_NIOs := []\<rparr>)])"

theorem List_blocked_by_partial_cleanup_witness:
  "\<exists>e a' s' e' a'' s''. router_Delete stuck_native background ''r1'' two_routers 0 = (Some e, a', s') \<and>
     mget a' ''r2'' = mget two_routers ''r2'' \<and> List_routers stuck_native background a' 0 = (Inl e', a'', s'')"
proof -
  let ?r = "the (mget two_routers ''r1'')"
  obtain e a' s' where d: "router_Delete stuck_native background ''r1'' two_routers 0 = (Some e, a', s')"
    and k: "mget a' ''r2'' = mget two_routers ''r2''"
    by (simp add: router_Delete_def cleanupRouter_def cleanupNIOs_def two_routers_def stuck_native_def demo_native_def ctxErr_def background_def
        errors_Join_def)
  have "mget two_routers ''r1'' = Some ?r" "r_VM ?r = Some 0" "nat_DeleteVM stuck_native 0 0 = (None, 0)"
    "ctxErr stuck_native background 0 = None"
    by (simp_all add: two_routers_def stuck_native_def demo_native_def ctxErr_def background_def)
  from List_blocked_by_partial_cleanup [OF this d] d k show ?thesis by blast
qed

end
