(* ===== verification/Libvirt.thy ===== *)
theory Libvirt
  imports Virt_Manager Net_Addr
begin

text \<open>
  The libvirt provider (\<open>virt/hypervisor/libvirt\<close>): the translation of a domain configuration into
  a libvirt document (\<open>xml.go\<close>), lifecycle (\<open>lifecycle.go\<close>, \<open>state.go\<close>), creation, inspection,
  listing and the console (\<open>domain.go\<close>), lifecycle events and subscriptions (\<open>provider.go\<close>,
  \<open>events.go\<close>). The bindings of libvirt, the XML codec and the UUID parser are third-party code:
  the calls the provider makes are the functions of the record \<open>hypervisor\<close>, over a state \<open>'s\<close> of the
  rest of the system. References to domains are numbers. The documents are the parts of the
  binding's structures that the provider writes or reads.
\<close>

section \<open>Configuration\<close>

abbreviation FirmwareBIOS :: Firmware where "FirmwareBIOS \<equiv> ''bios''"
abbreviation FirmwareUEFI :: Firmware where "FirmwareUEFI \<equiv> ''uefi''"
abbreviation DiskBusVirtio :: DiskBus where "DiskBusVirtio \<equiv> ''virtio''"
abbreviation DiskDeviceDisk :: DiskDevice where "DiskDeviceDisk \<equiv> ''disk''"
abbreviation DiskDeviceCDROM :: DiskDevice where "DiskDeviceCDROM \<equiv> ''cdrom''"
abbreviation DiskFormatRaw :: DiskFormat where "DiskFormatRaw \<equiv> ''raw''"
abbreviation DiskFormatQCOW2 :: DiskFormat where "DiskFormatQCOW2 \<equiv> ''qcow2''"
abbreviation InterfaceModelVirtio :: InterfaceModel where "InterfaceModelVirtio \<equiv> ''virtio''"
abbreviation InterfaceModelE1000 :: InterfaceModel where "InterfaceModelE1000 \<equiv> ''e1000''"
abbreviation ConsoleSerial :: ConsoleType where "ConsoleSerial \<equiv> ''serial''"
abbreviation ConsoleSpice :: ConsoleType where "ConsoleSpice \<equiv> ''spice''"

record xml_Disk =
  xd_Device :: string
  xd_DriverName :: string
  xd_DriverType :: string
  xd_SourceFile :: string
  xd_TargetDev :: string
  xd_TargetBus :: string
  xd_ReadOnly :: bool

record xml_Interface =
  xi_Bridge :: string
  xi_Model :: string
  xi_MAC :: "string option"

record xml_Domain =
  xml_Type :: string
  xml_Name :: string
  xml_UUID :: string
  xml_Metadata :: string
  xml_OSType :: string
  xml_Arch :: string
  xml_Machine :: string
  xml_Firmware :: string
  xml_BootDevices :: "string list"
  xml_Memory :: "(string \<times> 64 word) option"
  xml_VCPU :: "64 word option"
  xml_SpiceListen :: string
  xml_Disks :: "xml_Disk list"
  xml_Interfaces :: "xml_Interface list"

section \<open>Documents\<close>

definition metadataXML :: string where
  "metadataXML =
     [CHR 0x0A] @ ''<tethux:tethux xmlns:tethux='' @ [CHR 0x22] @ ''urn:tethux'' @ [CHR 0x22] @ ''>'' @
     [CHR 0x0A, CHR 0x09] @ ''<tethux:managed/>'' @ [CHR 0x0A] @ ''</tethux:tethux>''"

definition orDefault :: "string \<Rightarrow> string \<Rightarrow> string" where
  "orDefault s d = (if s = '''' then d else s)"

definition validateDisk :: "RuntimeDisk \<Rightarrow> gerror option" where
  "validateDisk disk =
     (if rd_Source disk = '''' then Some (libvirt_New [libvirt_kind.ErrDiskSource] '''')
      else if rd_Device disk \<notin> {'''', DiskDeviceDisk, DiskDeviceCDROM} then Some (libvirt_New [libvirt_kind.ErrDiskDevice] (rd_Device disk))
      else if rd_Format disk \<notin> {'''', DiskFormatRaw, DiskFormatQCOW2} then Some (libvirt_New [libvirt_kind.ErrDiskFormat] (rd_Format disk))
      else if rd_Bus disk \<notin> {'''', DiskBusVirtio, ''sata'', ''scsi'', ''ide'', ''usb''}
      then Some (libvirt_New [libvirt_kind.ErrDiskBus] (rd_Bus disk))
      else None)"

definition validateInterface :: "Interface \<Rightarrow> gerror option" where
  "validateInterface iface =
     (if if_Bridge iface = '''' then Some (libvirt_New [libvirt_kind.ErrInterfaceBridge] '''')
      else if if_Model iface \<notin> {'''', InterfaceModelVirtio, InterfaceModelE1000}
      then Some (libvirt_New [libvirt_kind.ErrInterfaceModel] (if_Model iface))
      else if if_MAC iface \<noteq> '''' then
        (case ParseMAC (if_MAC iface) of
           None \<Rightarrow>
             Some (libvirt_Wrap [libvirt_kind.ErrInterfaceMAC] (if_MAC iface)
               (Some (Foreign (''address '' @ if_MAC iface @ '': invalid MAC address'') [])))
         | Some _ \<Rightarrow> None)
      else None)"

definition buildDisk :: "RuntimeDisk \<Rightarrow> xml_Disk" where
  "buildDisk disk =
     \<lparr>xd_Device = orDefault (rd_Device disk) DiskDeviceDisk, xd_DriverName = ''qemu'',
      xd_DriverType = orDefault (rd_Format disk) DiskFormatRaw, xd_SourceFile = rd_Source disk,
      xd_TargetDev = orDefault (rd_Target disk) ''vda'', xd_TargetBus = orDefault (rd_Bus disk) DiskBusVirtio,
      xd_ReadOnly = rd_ReadOnly disk\<rparr>"

definition buildInterface :: "Interface \<Rightarrow> xml_Interface" where
  "buildInterface iface =
     \<lparr>xi_Bridge = if_Bridge iface, xi_Model = orDefault (if_Model iface) InterfaceModelVirtio,
      xi_MAC = (if if_MAC iface \<noteq> '''' then Some (if_MAC iface) else None)\<rparr>"

text \<open>The loops over boot devices, disks and interfaces; the number is the index of the element.\<close>

fun bootDevices :: "BootDevice list \<Rightarrow> gerror + string list" where
  "bootDevices [] = Inr []"
| "bootDevices (device # rest) =
     (let next = (\<lambda>dev. case bootDevices rest of Inl e \<Rightarrow> Inl e | Inr devs \<Rightarrow> Inr (dev # devs)) in
      if device = ''disk'' then next ''hd''
      else if device = ''cdrom'' then next ''cdrom''
      else if device = ''network'' then next ''network''
      else Inl (libvirt_New [libvirt_kind.ErrConfig, libvirt_kind.ErrBootDevice] device))"

fun buildDisks :: "nat \<Rightarrow> RuntimeDisk list \<Rightarrow> gerror + xml_Disk list" where
  "buildDisks index [] = Inr []"
| "buildDisks index (disk # disks) =
     (case validateDisk disk of
        Some validationErr \<Rightarrow>
          Inl (libvirt_Wrap [libvirt_kind.ErrConfig, libvirt_kind.ErrDisk] (''disk '' @ show_nat index) (Some validationErr))
      | None \<Rightarrow> (case buildDisks (Suc index) disks of Inl e \<Rightarrow> Inl e | Inr ds \<Rightarrow> Inr (buildDisk disk # ds)))"

fun buildInterfaces :: "nat \<Rightarrow> Interface list \<Rightarrow> gerror + xml_Interface list" where
  "buildInterfaces index [] = Inr []"
| "buildInterfaces index (iface # ifaces) =
     (case validateInterface iface of
        Some validationErr \<Rightarrow>
          Inl (libvirt_Wrap [libvirt_kind.ErrConfig, libvirt_kind.ErrInterface] (''interface '' @ show_nat index) (Some validationErr))
      | None \<Rightarrow> (case buildInterfaces (Suc index) ifaces of Inl e \<Rightarrow> Inl e | Inr is \<Rightarrow> Inr (buildInterface iface # is)))"

text \<open>The UUID parser returns the canonical text of what it parses.\<close>

definition buildDomain :: "(string \<Rightarrow> gerror + string) \<Rightarrow> domain_RuntimeConfig option \<Rightarrow> gerror + xml_Domain" where
  "buildDomain parseUUID cfg =
     (case cfg of
        None \<Rightarrow> Inl (libvirt_New [libvirt_kind.ErrConfig, libvirt_kind.ErrNilConfig] '''')
      | Some cfg \<Rightarrow>
          let nc = dr_NodeConfig cfg; name = orDefault (nc_Name nc) (nc_ID nc) in
          if name = '''' then Inl (libvirt_New [libvirt_kind.ErrConfig, libvirt_kind.ErrEmptyName] '''')
          else if nc_MemoryMB nc < 0
          then Inl (libvirt_New [libvirt_kind.ErrConfig, libvirt_kind.ErrInvalidMemory] (show_int (nc_MemoryMB nc) @ '' MiB''))
          else if nc_CPUs nc < 0 then Inl (libvirt_New [libvirt_kind.ErrConfig, libvirt_kind.ErrInvalidCPU] (show_int (nc_CPUs nc)))
          else if dr_Firmware cfg \<notin> {'''', FirmwareBIOS, FirmwareUEFI}
          then Inl (libvirt_New [libvirt_kind.ErrConfig, libvirt_kind.ErrFirmware] (dr_Firmware cfg))
          else case bootDevices (dr_BootOrder cfg) of
            Inl e \<Rightarrow> Inl e
          | Inr boot \<Rightarrow>
              (case (if nc_ID nc = '''' then Inr '''' else parseUUID (nc_ID nc)) of
                 Inl uuidErr \<Rightarrow> Inl (libvirt_Wrap [libvirt_kind.ErrConfig, libvirt_kind.ErrInvalidUUID] (nc_ID nc) (Some uuidErr))
               | Inr i \<Rightarrow>
                   (case buildDisks 0 (dr_Disks cfg) of
                      Inl e \<Rightarrow> Inl e
                    | Inr disks \<Rightarrow>
                        (case buildInterfaces 0 (dr_Interfaces cfg) of
                           Inl e \<Rightarrow> Inl e
                         | Inr ifaces \<Rightarrow>
                             Inr \<lparr>xml_Type = ''kvm'', xml_Name = name, xml_UUID = i, xml_Metadata = metadataXML,
                               xml_OSType = ''hvm'', xml_Arch = orDefault (dr_Architecture cfg) ''x86_64'',
                               xml_Machine = orDefault (dr_Machine cfg) ''q35'',
                               xml_Firmware = (if dr_Firmware cfg = FirmwareUEFI then ''efi'' else ''''), xml_BootDevices = boot,
                               xml_Memory = (if nc_MemoryMB nc > 0 then Some (''MiB'', word_of_int (nc_MemoryMB nc)) else None),
                               xml_VCPU = (if nc_CPUs nc > 0 then Some (word_of_int (nc_CPUs nc)) else None),
                               xml_SpiceListen = ''127.0.0.1'', xml_Disks = disks, xml_Interfaces = ifaces\<rparr>))))"

section \<open>The hypervisor\<close>

datatype DomainState =
    DOMAIN_NOSTATE | DOMAIN_RUNNING | DOMAIN_BLOCKED | DOMAIN_PAUSED | DOMAIN_SHUTDOWN | DOMAIN_SHUTOFF
  | DOMAIN_CRASHED | DOMAIN_PMSUSPENDED

datatype domain_call = DomCreate | DomShutdown | DomDestroy | DomUndefine | DomSuspend | DomResume | DomReboot

text \<open>What the provider reads of the description of a domain: the targets and sources of disks
  (a file or a block device), the addresses and targets of interfaces, the SPICE displays.\<close>

record desc_Disk =
  dd_Target :: "string option"
  dd_Source :: "(string option \<times> string option) option"

record desc_Interface =
  de_MAC :: "string option"
  de_Target :: "string option"

record desc_Spice =
  sp_Port :: int
  sp_Listen :: string

record desc_Devices =
  dv_Disks :: "desc_Disk list"
  dv_Interfaces :: "desc_Interface list"
  dv_Graphics :: "desc_Spice option list"

text \<open>The cases of the \<open>select\<close> of \<open>waitStopped\<close>.\<close>

datatype wakeup = CtxDone | DeadlineFired | Ticked

text \<open>The error of \<open>GetMetadata\<close> comes with whether its code is \<open>ERR_NO_DOMAIN_METADATA\<close>. The last
  three fields are the scheduler's part: \<open>hv_now\<close> is the clock in nanoseconds, \<open>hv_sleep ctx t\<close> lets a
  goroutine sleep that waits for the context or for the time \<open>t\<close>, and \<open>hv_pollorder s\<close> gives the
  orders in which the successive executions of a \<open>select\<close> statement, from the state \<open>s\<close> on, look at their
  cases (Go draws a new pseudo-random order each time).\<close>

record 's hypervisor =
  hv_LookupDomainByUUIDString :: "string \<Rightarrow> 's \<Rightarrow> (gerror + nat) \<times> 's"
  hv_DomainDefineXML :: "string \<Rightarrow> 's \<Rightarrow> (gerror + nat) \<times> 's"
  hv_ListAllDomains :: "'s \<Rightarrow> (gerror + nat list) \<times> 's"
  hv_Free :: "nat \<Rightarrow> 's \<Rightarrow> gerror option \<times> 's"
  hv_call :: "nat \<Rightarrow> domain_call \<Rightarrow> 's \<Rightarrow> gerror option \<times> 's"
  hv_GetState :: "nat \<Rightarrow> 's \<Rightarrow> (gerror + DomainState) \<times> 's"
  hv_IsPersistent :: "nat \<Rightarrow> 's \<Rightarrow> (gerror + bool) \<times> 's"
  hv_GetUUIDString :: "nat \<Rightarrow> 's \<Rightarrow> (gerror + string) \<times> 's"
  hv_GetName :: "nat \<Rightarrow> 's \<Rightarrow> (gerror + string) \<times> 's"
  hv_GetMetadata :: "nat \<Rightarrow> 's \<Rightarrow> ((gerror \<times> bool) + string) \<times> 's"
  hv_GetXMLDesc :: "nat \<Rightarrow> 's \<Rightarrow> (gerror + string) \<times> 's"
  hv_sleep :: "Context \<Rightarrow> int \<Rightarrow> 's \<Rightarrow> 's"
  hv_pollorder :: "'s \<Rightarrow> nat \<Rightarrow> wakeup list"
  hv_now :: "'s \<Rightarrow> int"

text \<open>The codecs are functions of their input: marshalling and unmarshalling of documents, UUIDs.\<close>

record codecs =
  xml_Marshal :: "xml_Domain \<Rightarrow> gerror + string"
  xml_Unmarshal :: "string \<Rightarrow> gerror + desc_Devices option"
  uuid_Parse :: "string \<Rightarrow> gerror + string"

section \<open>State and events of the provider\<close>

type_synonym virt_EventType = string

record virt_Event =
  ve_Type :: virt_EventType
  ve_Time :: int
  ve_NodeID :: string
  ve_Name :: string
  ve_State :: NodeState
  ve_Detail :: string

text \<open>A subscription: the buffered channel of the subscriber map, the event that the forwarding
  goroutine holds between its two channel operations, and the channel that was returned, which the
  goroutine closes when it ends.\<close>

record lv_Subscription =
  sub_Context :: Context
  sub_Buffer :: "virt_Event list"
  sub_Held :: "virt_Event option"
  sub_Out :: "virt_Event list"
  sub_Closed :: bool

record lv_Provider =
  callbackID :: int
  nextSubID :: "64 word"
  subscribers :: "(64 word, lv_Subscription) gomap"
  managed :: "(string, unit) gomap"

definition rememberManaged :: "string \<Rightarrow> lv_Provider \<Rightarrow> lv_Provider" where
  "rememberManaged i p = p\<lparr>managed := mput i () (managed p)\<rparr>"

definition knowsManaged :: "string \<Rightarrow> lv_Provider \<Rightarrow> bool" where
  "knowsManaged i p = (mget (managed p) i \<noteq> None)"

definition forgetManaged :: "string \<Rightarrow> lv_Provider \<Rightarrow> lv_Provider" where
  "forgetManaged i p = p\<lparr>managed := mdel i (managed p)\<rparr>"

abbreviation eventBuffer :: nat where "eventBuffer \<equiv> 16"

text \<open>\<open>emit\<close>: a non-blocking send to every subscriber in the map.\<close>

definition offer :: "virt_Event \<Rightarrow> lv_Subscription \<Rightarrow> lv_Subscription" where
  "offer event sub = (if length (sub_Buffer sub) < eventBuffer then sub\<lparr>sub_Buffer := sub_Buffer sub @ [event]\<rparr> else sub)"

definition lv_emit :: "virt_Event \<Rightarrow> lv_Provider \<Rightarrow> lv_Provider" where
  "lv_emit event p = p\<lparr>subscribers := map (\<lambda>(i, sub). (i, offer event sub)) (subscribers p)\<rparr>"

definition lv_Events :: "'s hypervisor \<Rightarrow> Context \<Rightarrow> lv_Provider \<Rightarrow> 's \<Rightarrow> (gerror + 64 word) \<times> lv_Provider" where
  "lv_Events H ctx p s =
     (case ctx_Done ctx (hv_now H s) of
        Some err \<Rightarrow> (Inl err, p)
      | None \<Rightarrow>
          let i = nextSubID p in
          (Inr i, p\<lparr>nextSubID := i + 1, subscribers :=
             mput i \<lparr>sub_Context = ctx, sub_Buffer = [], sub_Held = None, sub_Out = [], sub_Closed = False\<rparr> (subscribers p)\<rparr>))"

datatype DomainEventType =
    DOMAIN_EVENT_DEFINED | DOMAIN_EVENT_UNDEFINED | DOMAIN_EVENT_STARTED | DOMAIN_EVENT_SUSPENDED | DOMAIN_EVENT_RESUMED
  | DOMAIN_EVENT_STOPPED | DOMAIN_EVENT_SHUTDOWN | DOMAIN_EVENT_PMSUSPENDED | DOMAIN_EVENT_CRASHED | DOMAIN_EVENT_OTHER

fun lifecycleEvent :: "DomainEventType \<Rightarrow> (virt_EventType \<times> NodeState) option" where
  "lifecycleEvent DOMAIN_EVENT_DEFINED = Some (''defined'', NodeStopped)"
| "lifecycleEvent DOMAIN_EVENT_UNDEFINED = Some (''undefined'', NodeStopped)"
| "lifecycleEvent DOMAIN_EVENT_STARTED = Some (''started'', NodeRunning)"
| "lifecycleEvent DOMAIN_EVENT_STOPPED = Some (''stopped'', NodeStopped)"
| "lifecycleEvent DOMAIN_EVENT_SHUTDOWN = Some (''stopped'', NodeStopped)"
| "lifecycleEvent DOMAIN_EVENT_SUSPENDED = Some (''suspended'', NodeSuspended)"
| "lifecycleEvent DOMAIN_EVENT_PMSUSPENDED = Some (''suspended'', NodeSuspended)"
| "lifecycleEvent DOMAIN_EVENT_RESUMED = Some (''resumed'', NodeRunning)"
| "lifecycleEvent DOMAIN_EVENT_CRASHED = Some (''crashed'', NodeStopped)"
| "lifecycleEvent DOMAIN_EVENT_OTHER = None"

fun nodeState :: "DomainState \<Rightarrow> NodeState" where
  "nodeState DOMAIN_RUNNING = NodeRunning"
| "nodeState DOMAIN_BLOCKED = NodeRunning"
| "nodeState DOMAIN_PAUSED = NodeSuspended"
| "nodeState DOMAIN_PMSUSPENDED = NodeSuspended"
| "nodeState DOMAIN_SHUTDOWN = NodeStopping"
| "nodeState DOMAIN_NOSTATE = NodeStopped"
| "nodeState DOMAIN_SHUTOFF = NodeStopped"
| "nodeState DOMAIN_CRASHED = NodeStopped"

definition isManaged :: "'s hypervisor \<Rightarrow> nat \<Rightarrow> 's \<Rightarrow> (gerror + bool) \<times> 's" where
  "isManaged H d s =
     (case hv_GetMetadata H d s of
        (Inr _, s) \<Rightarrow> (Inr True, s)
      | (Inl (metadataErr, missing), s) \<Rightarrow>
          (if missing then Inr False else Inl (libvirt_Wrap [libvirt_kind.ErrMetadata] '''' (Some metadataErr)), s))"

text \<open>The callback of a lifecycle event; \<open>txt\<close> is the description of the event.\<close>

definition handleLifecycleEvent :: "'s hypervisor \<Rightarrow> nat \<Rightarrow> DomainEventType \<Rightarrow> string \<Rightarrow> lv_Provider \<Rightarrow> 's \<Rightarrow> lv_Provider \<times> 's" where
  "handleLifecycleEvent H d event txt p s =
     (case hv_GetUUIDString H d s of
        (Inl _, s) \<Rightarrow> (p, s)
      | (Inr i, s) \<Rightarrow>
          (case isManaged H d s of
             (m, s) \<Rightarrow>
               if m \<noteq> Inr True \<and> \<not> knowsManaged i p then (p, s)
               else case hv_GetName H d s of
                 (Inl _, s) \<Rightarrow> (p, s)
               | (Inr name, s) \<Rightarrow>
                   (case lifecycleEvent event of
                      None \<Rightarrow> (p, s)
                    | Some (eventType, st) \<Rightarrow>
                        let p = lv_emit \<lparr>ve_Type = eventType, ve_Time = hv_now H s, ve_NodeID = i, ve_Name = name, ve_State = st,
                                   ve_Detail = txt\<rparr> p in
                        (if event = DOMAIN_EVENT_UNDEFINED then forgetManaged i p else p, s))))"

text \<open>The forwarding goroutine of a subscription: it takes an event from the buffer when it holds
  none, hands the event over when the returned channel has room, and ends when the context is done,
  which removes the subscription from the map and closes the channel.\<close>

definition lv_take :: "lv_Subscription \<Rightarrow> lv_Subscription option" where
  "lv_take sub =
     (case (sub_Held sub, sub_Buffer sub) of
        (None, event # rest) \<Rightarrow> Some (sub\<lparr>sub_Held := Some event, sub_Buffer := rest\<rparr>)
      | _ \<Rightarrow> None)"

definition lv_put :: "lv_Subscription \<Rightarrow> lv_Subscription option" where
  "lv_put sub =
     (case sub_Held sub of
        Some event \<Rightarrow>
          if length (sub_Out sub) < eventBuffer then Some (sub\<lparr>sub_Held := None, sub_Out := sub_Out sub @ [event]\<rparr>) else None
      | None \<Rightarrow> None)"

definition lv_end :: "'s hypervisor \<Rightarrow> 's \<Rightarrow> lv_Subscription \<Rightarrow> lv_Subscription option" where
  "lv_end H s sub =
     (case ctx_Done (sub_Context sub) (hv_now H s) of
        Some _ \<Rightarrow> Some (sub\<lparr>sub_Held := None, sub_Closed := True\<rparr>)
      | None \<Rightarrow> None)"

section \<open>Lifecycle\<close>

definition releaseDomainRef :: "'s hypervisor \<Rightarrow> string \<Rightarrow> nat \<Rightarrow> 's \<Rightarrow> gerror option \<times> 's" where
  "releaseDomainRef H i d s =
     (case hv_Free H d s of
        (Some releaseErr, s) \<Rightarrow> (Some (libvirt_Wrap [libvirt_kind.ErrLifecycle] i (Some releaseErr)), s)
      | (None, s) \<Rightarrow> (None, s))"

text \<open>The deferred release: its error is joined to the error of the function.\<close>

definition deferRelease :: "'s hypervisor \<Rightarrow> string \<Rightarrow> nat \<Rightarrow> gerror option \<Rightarrow> 's \<Rightarrow> gerror option \<times> 's" where
  "deferRelease H i d resultErr s =
     (case releaseDomainRef H i d s of (releaseErr, s) \<Rightarrow> (errors_Join [resultErr, releaseErr], s))"

definition lookup :: "'s hypervisor \<Rightarrow> string \<Rightarrow> 's \<Rightarrow> (gerror + nat) \<times> 's" where
  "lookup H i s =
     (case hv_LookupDomainByUUIDString H i s of
        (Inl lookupErr, s) \<Rightarrow> (Inl (libvirt_Wrap [libvirt_kind.ErrInspect] i (Some lookupErr)), s)
      | (Inr d, s) \<Rightarrow>
          (case isManaged H d s of
             (Inl metadataErr, s) \<Rightarrow>
               (case deferRelease H i d (Some metadataErr) s of (err, s) \<Rightarrow> (Inl (the err), s))
           | (Inr False, s) \<Rightarrow>
               (case deferRelease H i d (Some (libvirt_New [libvirt_kind.ErrNotManaged] i)) s of (err, s) \<Rightarrow> (Inl (the err), s))
           | (Inr True, s) \<Rightarrow> (Inr d, s)))"

text \<open>Looking a domain up, running a body with the reference and releasing it, the frame of every
  method below.\<close>

definition withDomain :: "'s hypervisor \<Rightarrow> string \<Rightarrow> (nat \<Rightarrow> 's \<Rightarrow> gerror option \<times> 's) \<Rightarrow> 's \<Rightarrow> gerror option \<times> 's" where
  "withDomain H i body s =
     (case lookup H i s of
        (Inl err, s) \<Rightarrow> (Some err, s)
      | (Inr d, s) \<Rightarrow> (case body d s of (resultErr, s) \<Rightarrow> deferRelease H i d resultErr s))"

definition ctxFirst :: "'s hypervisor \<Rightarrow> Context \<Rightarrow> ('s \<Rightarrow> gerror option \<times> 's) \<Rightarrow> 's \<Rightarrow> gerror option \<times> 's" where
  "ctxFirst H ctx body s = (case ctx_Done ctx (hv_now H s) of Some err \<Rightarrow> (Some err, s) | None \<Rightarrow> body s)"

definition wrapCall :: "'s hypervisor \<Rightarrow> libvirt_kind \<Rightarrow> string \<Rightarrow> nat \<Rightarrow> domain_call \<Rightarrow> 's \<Rightarrow> gerror option \<times> 's" where
  "wrapCall H kind i d call s =
     (case hv_call H d call s of
        (Some err, s) \<Rightarrow> (Some (libvirt_Wrap [kind] i (Some err)), s)
      | (None, s) \<Rightarrow> (None, s))"

definition lifecycle :: "'s hypervisor \<Rightarrow> Context \<Rightarrow> string \<Rightarrow> domain_call \<Rightarrow> 's \<Rightarrow> gerror option \<times> 's" where
  "lifecycle H ctx i operation = ctxFirst H ctx (withDomain H i (\<lambda>d. wrapCall H libvirt_kind.ErrLifecycle i d operation))"

text \<open>Reading the state of a domain, with the error that every caller returns.\<close>

definition readState :: "'s hypervisor \<Rightarrow> string \<Rightarrow> nat \<Rightarrow> 's \<Rightarrow> (gerror + NodeState) \<times> 's" where
  "readState H i d s =
     (case hv_GetState H d s of
        (Inl stateErr, s) \<Rightarrow> (Inl (libvirt_Wrap [libvirt_kind.ErrInspect] i (Some stateErr)), s)
      | (Inr st, s) \<Rightarrow> (Inr (nodeState st), s))"

definition lv_Start :: "'s hypervisor \<Rightarrow> Context \<Rightarrow> string \<Rightarrow> 's \<Rightarrow> gerror option \<times> 's" where
  "lv_Start H ctx i = ctxFirst H ctx (withDomain H i (\<lambda>d s.
     case readState H i d s of
       (Inl err, s) \<Rightarrow> (Some err, s)
     | (Inr st, s) \<Rightarrow> if st = NodeRunning then (None, s) else wrapCall H libvirt_kind.ErrLifecycle i d DomCreate s))"

text \<open>Timers and tickers are the times at which their channels become ready next. A ticker whose
  channel is read at the time \<open>t\<close> drops the ticks it missed: its next one is the first of its grid after
  \<open>t\<close>.\<close>

definition time_Millisecond :: int where "time_Millisecond = 1000000"

definition time_Second :: int where "time_Second = 1000 * time_Millisecond"

definition time_NewTimer :: "int \<Rightarrow> int \<Rightarrow> int" where "time_NewTimer d t = t + d"

definition time_NewTicker :: "int \<Rightarrow> int \<Rightarrow> int" where "time_NewTicker period t = t + period"

definition ticker_next :: "int \<Rightarrow> int \<Rightarrow> int \<Rightarrow> int" where
  "ticker_next period tick t = tick + period * (1 + (t - tick) div period)"

fun case_ready :: "'s hypervisor \<Rightarrow> Context \<Rightarrow> int \<Rightarrow> int \<Rightarrow> 's \<Rightarrow> wakeup \<Rightarrow> bool" where
  "case_ready H ctx deadline tick s CtxDone \<longleftrightarrow> ctx_Done ctx (hv_now H s) \<noteq> None"
| "case_ready H ctx deadline tick s DeadlineFired \<longleftrightarrow> deadline \<le> hv_now H s"
| "case_ready H ctx deadline tick s Ticked \<longleftrightarrow> tick \<le> hv_now H s"

text \<open>One \<open>select\<close>: it sleeps unless a case is ready, and takes the first ready case of its poll order;
  \<open>None\<close> means that it blocks forever.\<close>

definition selectStopped :: "'s hypervisor \<Rightarrow> Context \<Rightarrow> int \<Rightarrow> int \<Rightarrow> wakeup list \<Rightarrow> 's \<Rightarrow> (wakeup \<times> 's) option" where
  "selectStopped H ctx deadline tick polls s =
     (let s = (if list_ex (case_ready H ctx deadline tick s) polls then s else hv_sleep H ctx (min deadline tick) s)
      in map_option (\<lambda>w. (w, s)) (find (case_ready H ctx deadline tick s) polls))"

text \<open>The polling loop of \<open>Stop\<close>, with the timer and the ticker that were created before it: \<open>None\<close>
  means that it never returns.\<close>

definition pollInterval :: int where "pollInterval = 50 * time_Millisecond"

definition timedOut :: "string \<Rightarrow> gerror" where
  "timedOut i = libvirt_New [libvirt_kind.ErrLifecycle] (i @ '': shutdown timed out'')"

partial_function (option) waitStopped_loop ::
    "'s hypervisor \<Rightarrow> Context \<Rightarrow> nat \<Rightarrow> string \<Rightarrow> int \<Rightarrow> int \<Rightarrow> (nat \<Rightarrow> wakeup list) \<Rightarrow> nat \<Rightarrow> 's \<Rightarrow> (gerror option \<times> 's) option" where
  "waitStopped_loop H ctx d i deadline tick polls n s =
     (case readState H i d s of
        (Inl err, s) \<Rightarrow> Some (Some err, s)
      | (Inr st, s) \<Rightarrow>
          if st = NodeStopped then Some (None, s)
          else case selectStopped H ctx deadline tick (polls n) s of
            None \<Rightarrow> None
          | Some (CtxDone, s) \<Rightarrow> Some (ctx_Done ctx (hv_now H s), s)
          | Some (DeadlineFired, s) \<Rightarrow> Some (Some (timedOut i), s)
          | Some (Ticked, s) \<Rightarrow>
              waitStopped_loop H ctx d i deadline (ticker_next pollInterval tick (hv_now H s)) polls (Suc n) s)"

definition waitStopped :: "'s hypervisor \<Rightarrow> Context \<Rightarrow> nat \<Rightarrow> string \<Rightarrow> 's \<Rightarrow> (gerror option \<times> 's) option" where
  "waitStopped H ctx d i s =
     (let ticker = time_NewTicker pollInterval (hv_now H s);
          deadline = time_NewTimer (10 * time_Second) (hv_now H s)
      in waitStopped_loop H ctx d i deadline ticker (hv_pollorder H s) 0 s)"

definition lv_Stop :: "'s hypervisor \<Rightarrow> Context \<Rightarrow> string \<Rightarrow> 's \<Rightarrow> (gerror option \<times> 's) option" where
  "lv_Stop H ctx i s =
     (case lookup H i s of
        (Inl err, s) \<Rightarrow> Some (Some err, s)
      | (Inr d, s) \<Rightarrow>
          map_option (\<lambda>(resultErr, s). deferRelease H i d resultErr s)
            (case readState H i d s of
               (Inl err, s) \<Rightarrow> Some (Some err, s)
             | (Inr st, s) \<Rightarrow>
                 if st = NodeStopped then Some (None, s)
                 else case wrapCall H libvirt_kind.ErrLifecycle i d DomShutdown s of
                   (Some err, s) \<Rightarrow> Some (Some err, s)
                 | (None, s) \<Rightarrow> waitStopped H ctx d i s))"

definition lv_PowerOff :: "'s hypervisor \<Rightarrow> Context \<Rightarrow> string \<Rightarrow> 's \<Rightarrow> gerror option \<times> 's" where
  "lv_PowerOff H ctx i = lifecycle H ctx i DomDestroy"

definition lv_Suspend :: "'s hypervisor \<Rightarrow> Context \<Rightarrow> string \<Rightarrow> 's \<Rightarrow> gerror option \<times> 's" where
  "lv_Suspend H ctx i = lifecycle H ctx i DomSuspend"

definition lv_Resume :: "'s hypervisor \<Rightarrow> Context \<Rightarrow> string \<Rightarrow> 's \<Rightarrow> gerror option \<times> 's" where
  "lv_Resume H ctx i = lifecycle H ctx i DomResume"

definition lv_Restart :: "'s hypervisor \<Rightarrow> Context \<Rightarrow> string \<Rightarrow> 's \<Rightarrow> gerror option \<times> 's" where
  "lv_Restart H ctx i = lifecycle H ctx i DomReboot"

definition lv_Delete :: "'s hypervisor \<Rightarrow> Context \<Rightarrow> string \<Rightarrow> 's \<Rightarrow> gerror option \<times> 's" where
  "lv_Delete H ctx i = ctxFirst H ctx (withDomain H i (\<lambda>d s.
     case hv_IsPersistent H d s of
       (Inl persistentErr, s) \<Rightarrow> (Some (libvirt_Wrap [libvirt_kind.ErrDelete] i (Some persistentErr)), s)
     | (Inr False, s) \<Rightarrow> wrapCall H libvirt_kind.ErrDelete i d DomDestroy s
     | (Inr True, s) \<Rightarrow>
         (case readState H i d s of
            (Inl err, s) \<Rightarrow> (Some err, s)
          | (Inr st, s) \<Rightarrow>
              (case (if st \<noteq> NodeStopped then wrapCall H libvirt_kind.ErrDelete i d DomDestroy s else (None, s)) of
                 (Some err, s) \<Rightarrow> (Some err, s)
               | (None, s) \<Rightarrow> wrapCall H libvirt_kind.ErrDelete i d DomUndefine s))))"

definition lv_State :: "'s hypervisor \<Rightarrow> Context \<Rightarrow> string \<Rightarrow> 's \<Rightarrow> (NodeState option \<times> gerror option) \<times> 's" where
  "lv_State H ctx i s =
     (case ctx_Done ctx (hv_now H s) of
        Some err \<Rightarrow> ((None, Some err), s)
      | None \<Rightarrow>
          (case lookup H i s of
             (Inl err, s) \<Rightarrow> ((None, Some err), s)
           | (Inr d, s) \<Rightarrow>
               (case readState H i d s of
                  (r, s) \<Rightarrow>
                    (case deferRelease H i d (case r of Inl e \<Rightarrow> Some e | Inr _ \<Rightarrow> None) s of
                       (err, s) \<Rightarrow> ((case r of Inl _ \<Rightarrow> None | Inr st \<Rightarrow> Some st, err), s)))))"

section \<open>Creation and inspection\<close>

definition domainXML :: "codecs \<Rightarrow> domain_RuntimeConfig option \<Rightarrow> gerror + string" where
  "domainXML C cfg =
     (case buildDomain (uuid_Parse C) cfg of
        Inl buildErr \<Rightarrow> Inl buildErr
      | Inr d \<Rightarrow>
          (case xml_Marshal C d of
             Inl marshalErr \<Rightarrow> Inl (libvirt_Wrap [libvirt_kind.ErrXML] (xml_Name d) (Some marshalErr))
           | Inr output \<Rightarrow> Inr output))"

definition diskInfos :: "desc_Disk list \<Rightarrow> DiskInfo list" where
  "diskInfos disks = List.map_filter (\<lambda>disk.
     case (dd_Target disk, dd_Source disk) of
       (Some dev, Some (f, b)) \<Rightarrow>
         Some \<lparr>di_Target = dev, di_Source = (case f of Some x \<Rightarrow> x | None \<Rightarrow> (case b of Some y \<Rightarrow> y | None \<Rightarrow> ''''))\<rparr>
     | _ \<Rightarrow> None) disks"

definition interfaceInfos :: "desc_Interface list \<Rightarrow> InterfaceInfo list" where
  "interfaceInfos ifaces = map (\<lambda>iface.
     \<lparr>ii_MAC = (case de_MAC iface of Some m \<Rightarrow> m | None \<Rightarrow> ''''), ii_Target = (case de_Target iface of Some t \<Rightarrow> t | None \<Rightarrow> '''')\<rparr>) ifaces"

fun spiceConsole :: "desc_Spice option list \<Rightarrow> Console option" where
  "spiceConsole [] = None"
| "spiceConsole (None # rest) = spiceConsole rest"
| "spiceConsole (Some spice # rest) =
     (if sp_Port spice \<le> 0 then spiceConsole rest
      else if sp_Port spice \<le> 65535
      then Some \<lparr>con_Type = ConsoleSpice, con_Host = orDefault (sp_Listen spice) ''127.0.0.1'', con_Port = word_of_int (sp_Port spice)\<rparr>
      else None)"

definition inspect :: "'s hypervisor \<Rightarrow> codecs \<Rightarrow> nat \<Rightarrow> 's \<Rightarrow> (gerror + domain_Node) \<times> 's" where
  "inspect H C d s =
     (case hv_GetUUIDString H d s of
        (Inl err, s) \<Rightarrow> (Inl (libvirt_Wrap [libvirt_kind.ErrInspect] ''uuid'' (Some err)), s)
      | (Inr i, s) \<Rightarrow>
          let fail = (\<lambda>err. Inl (libvirt_Wrap [libvirt_kind.ErrInspect] i (Some err))) in
          (case hv_GetName H d s of
             (Inl err, s) \<Rightarrow> (fail err, s)
           | (Inr name, s) \<Rightarrow>
               (case hv_GetState H d s of
                  (Inl err, s) \<Rightarrow> (fail err, s)
                | (Inr st, s) \<Rightarrow>
                    (case hv_GetXMLDesc H d s of
                       (Inl err, s) \<Rightarrow> (fail err, s)
                     | (Inr description, s) \<Rightarrow>
                         (case xml_Unmarshal C description of
                            Inl err \<Rightarrow> (fail err, s)
                          | Inr devices \<Rightarrow>
                              (Inr \<lparr>dn_Node = \<lparr>vn_ID = i, vn_Name = name, vn_State = nodeState st,
                                      vn_Console = \<lparr>con_Type = ConsoleSerial, con_Host = '''', con_Port = 0\<rparr>,
                                      vn_Aux = (case devices of None \<Rightarrow> None | Some dv \<Rightarrow> spiceConsole (dv_Graphics dv))\<rparr>,
                                    dn_UUID = i, dn_Persistent = True,
                                    dn_Disks = (case devices of None \<Rightarrow> [] | Some dv \<Rightarrow> diskInfos (dv_Disks dv)),
                                    dn_Interfaces = (case devices of None \<Rightarrow> [] | Some dv \<Rightarrow> interfaceInfos (dv_Interfaces dv))\<rparr>, s))))))"

text \<open>Inspecting a domain and remembering it as managed, the common end of two methods.\<close>

definition inspectManaged :: "'s hypervisor \<Rightarrow> codecs \<Rightarrow> nat \<Rightarrow> lv_Provider \<times> 's \<Rightarrow> (domain_Node option \<times> gerror option) \<times> lv_Provider \<times> 's" where
  "inspectManaged H C d = (\<lambda>(p, s).
     case inspect H C d s of
       (Inl inspectErr, s) \<Rightarrow> ((None, Some inspectErr), p, s)
     | (Inr node, s) \<Rightarrow> ((Some node, None), rememberManaged (vn_ID (dn_Node node)) p, s))"

definition releaseNode ::
  "'s hypervisor \<Rightarrow> nat \<Rightarrow> (domain_Node option \<times> gerror option) \<times> lv_Provider \<times> 's \<Rightarrow> (domain_Node option \<times> gerror option) \<times> lv_Provider \<times> 's" where
  "releaseNode H d = (\<lambda>((node, resultErr), p, s). case deferRelease H '''' d resultErr s of (err, s) \<Rightarrow> ((node, err), p, s))"

definition lv_CreateDomain :: "'s hypervisor \<Rightarrow> codecs \<Rightarrow> Context \<Rightarrow> domain_RuntimeConfig option \<Rightarrow> lv_Provider \<times> 's \<Rightarrow>
    (domain_Node option \<times> gerror option) \<times> lv_Provider \<times> 's" where
  "lv_CreateDomain H C ctx cfg = (\<lambda>(p, s).
     case ctx_Done ctx (hv_now H s) of
       Some err \<Rightarrow> ((None, Some err), p, s)
     | None \<Rightarrow>
         (case domainXML C cfg of
            Inl xmlErr \<Rightarrow> ((None, Some xmlErr), p, s)
          | Inr xmlConfig \<Rightarrow>
              let name = nc_Name (dr_NodeConfig (the cfg)); fail = (\<lambda>e. (None, Some (libvirt_Wrap [libvirt_kind.ErrCreate] name (Some e)))) in
              (case hv_DomainDefineXML H xmlConfig s of
                 (Inl defineErr, s) \<Rightarrow> (fail defineErr, p, s)
               | (Inr d, s) \<Rightarrow>
                   releaseNode H d
                     (case hv_call H d DomCreate s of
                        (Some createErr, s) \<Rightarrow> (case hv_call H d DomUndefine s of (_, s) \<Rightarrow> (fail createErr, p, s))
                      | (None, s) \<Rightarrow>
                          (case ctx_Done ctx (hv_now H s) of
                             Some err \<Rightarrow>
                               (case hv_call H d DomDestroy s of (_, s) \<Rightarrow>
                                  (case hv_call H d DomUndefine s of (_, s) \<Rightarrow> ((None, Some err), p, s)))
                           | None \<Rightarrow> inspectManaged H C d (p, s))))))"

definition lv_InspectDomain :: "'s hypervisor \<Rightarrow> codecs \<Rightarrow> Context \<Rightarrow> string \<Rightarrow> lv_Provider \<times> 's \<Rightarrow>
    (domain_Node option \<times> gerror option) \<times> lv_Provider \<times> 's" where
  "lv_InspectDomain H C ctx i = (\<lambda>(p, s).
     case ctx_Done ctx (hv_now H s) of
       Some err \<Rightarrow> ((None, Some err), p, s)
     | None \<Rightarrow>
         (case lookup H i s of
            (Inl lookupErr, s) \<Rightarrow> ((None, Some lookupErr), p, s)
          | (Inr d, s) \<Rightarrow>
              releaseNode H d
                (case isManaged H d s of
                   (Inl metadataErr, s) \<Rightarrow> ((None, Some metadataErr), p, s)
                 | (Inr False, s) \<Rightarrow> ((None, Some (libvirt_New [libvirt_kind.ErrNotManaged] i)), p, s)
                 | (Inr True, s) \<Rightarrow> inspectManaged H C d (p, s))))"

definition lv_Reload :: "'s hypervisor \<Rightarrow> codecs \<Rightarrow> Context \<Rightarrow> string \<Rightarrow> lv_Provider \<times> 's \<Rightarrow> (gerror + Node) \<times> lv_Provider \<times> 's" where
  "lv_Reload H C ctx i ps =
     (case lv_InspectDomain H C ctx i ps of
        ((node, Some err), ps) \<Rightarrow> (Inl err, ps)
      | ((node, None), ps) \<Rightarrow> (Inr (dn_Node (the node)), ps))"

text \<open>The loop of \<open>List\<close> over the references, and the deferred release of all of them.\<close>

fun listNodes :: "'s hypervisor \<Rightarrow> codecs \<Rightarrow> Context \<Rightarrow> nat list \<Rightarrow> Node list \<Rightarrow> lv_Provider \<times> 's \<Rightarrow>
    (Node list option \<times> gerror option) \<times> lv_Provider \<times> 's" where
  "listNodes H C ctx [] result ps = ((Some result, None), ps)"
| "listNodes H C ctx (d # ds) result (p, s) =
     (case ctx_Done ctx (hv_now H s) of
        Some err \<Rightarrow> ((None, Some err), p, s)
      | None \<Rightarrow>
          (case isManaged H d s of
             (Inl metadataErr, s) \<Rightarrow> ((None, Some metadataErr), p, s)
           | (Inr False, s) \<Rightarrow> listNodes H C ctx ds result (p, s)
           | (Inr True, s) \<Rightarrow>
               (case inspectManaged H C d (p, s) of
                  ((Some node, None), ps) \<Rightarrow> listNodes H C ctx ds (result @ [dn_Node node]) ps
                | ((_, inspectErr), ps) \<Rightarrow> ((None, inspectErr), ps))))"

fun releaseAll :: "'s hypervisor \<Rightarrow> nat list \<Rightarrow> gerror option \<Rightarrow> 's \<Rightarrow> gerror option \<times> 's" where
  "releaseAll H [] resultErr s = (resultErr, s)"
| "releaseAll H (d # ds) resultErr s = (case deferRelease H '''' d resultErr s of (err, s) \<Rightarrow> releaseAll H ds err s)"

definition lv_List :: "'s hypervisor \<Rightarrow> codecs \<Rightarrow> Context \<Rightarrow> lv_Provider \<times> 's \<Rightarrow> (Node list option \<times> gerror option) \<times> lv_Provider \<times> 's" where
  "lv_List H C ctx = (\<lambda>(p, s).
     case ctx_Done ctx (hv_now H s) of
       Some err \<Rightarrow> ((None, Some err), p, s)
     | None \<Rightarrow>
         (case hv_ListAllDomains H s of
            (Inl listErr, s) \<Rightarrow> ((None, Some (libvirt_Wrap [libvirt_kind.ErrList] '''' (Some listErr))), p, s)
          | (Inr domains, s) \<Rightarrow>
              (case listNodes H C ctx domains [] (p, s) of
                 ((nodes, resultErr), p, s) \<Rightarrow>
                   (case releaseAll H domains resultErr s of (err, s) \<Rightarrow> ((nodes, err), p, s)))))"

section \<open>Connection\<close>

text \<open>\<open>New\<close> and \<open>Close\<close> over the calls of the connection: registering the event loop (done once per
  process), connecting, registering and deregistering the callback, closing.\<close>

record 's connector =
  cx_EventLoop :: "'s \<Rightarrow> gerror option \<times> 's"
  cx_NewConnect :: "string \<Rightarrow> 's \<Rightarrow> gerror option \<times> 's"
  cx_Register :: "'s \<Rightarrow> (gerror + int) \<times> 's"
  cx_Deregister :: "int \<Rightarrow> 's \<Rightarrow> gerror option \<times> 's"
  cx_Close :: "'s \<Rightarrow> gerror option \<times> 's"

definition lv_New :: "'s connector \<Rightarrow> string \<Rightarrow> 's \<Rightarrow> (gerror + lv_Provider) \<times> 's" where
  "lv_New X uri s =
     (case cx_EventLoop X s of
        (Some eventLoopErr, s) \<Rightarrow> (Inl (libvirt_Wrap [libvirt_kind.ErrEvents] uri (Some eventLoopErr)), s)
      | (None, s) \<Rightarrow>
          (case cx_NewConnect X uri s of
             (Some err, s) \<Rightarrow> (Inl (libvirt_Wrap [libvirt_kind.ErrConnect] uri (Some err)), s)
           | (None, s) \<Rightarrow>
               (case cx_Register X s of
                  (Inl callbackErr, s) \<Rightarrow>
                    (case cx_Close X s of (closeErr, s) \<Rightarrow>
                       (Inl (libvirt_Wrap [libvirt_kind.ErrEvents] uri (errors_Join [Some callbackErr, closeErr])), s))
                | (Inr i, s) \<Rightarrow> (Inr \<lparr>callbackID = i, nextSubID = 0, subscribers = [], managed = []\<rparr>, s))))"

definition lv_Close :: "'s connector \<Rightarrow> lv_Provider option \<Rightarrow> 's \<Rightarrow> gerror option \<times> lv_Provider option \<times> 's" where
  "lv_Close X p s =
     (case p of
        None \<Rightarrow> (None, None, s)
      | Some p \<Rightarrow>
          (case (if callbackID p \<ge> 0
                 then (case cx_Deregister X (callbackID p) s of
                         (Some err, s) \<Rightarrow> (Some (libvirt_Wrap [libvirt_kind.ErrEvents] ''deregister'' (Some err)), s)
                       | (None, s) \<Rightarrow> (None, s))
                 else (None, s)) of
             (deregisterErr, s) \<Rightarrow>
               (case cx_Close X s of
                  (closeErr, s) \<Rightarrow> (errors_Join [deregisterErr, closeErr], Some (if callbackID p \<ge> 0 then p\<lparr>callbackID := - 1\<rparr> else p), s))))"

section \<open>The console\<close>

text \<open>The calls of a console session: the stream of the hypervisor, the output the caller gave and
  its input. The goroutine that copies the input runs beside the receiving loop; \<open>co_InputDone\<close>
  says whether it has ended and \<open>co_AwaitInput\<close> waits for it. Closing the context aborts the stream
  from outside.\<close>

datatype console_input = NoInput | PlainReader | CloserReader

record 's console =
  co_NewStream :: "'s \<Rightarrow> gerror option \<times> 's"
  co_OpenConsole :: "nat \<Rightarrow> 's \<Rightarrow> gerror option \<times> 's"
  co_Recv :: "'s \<Rightarrow> (8 word list \<times> gerror option) \<times> 's"
  co_Send :: "8 word list \<Rightarrow> 's \<Rightarrow> (int \<times> gerror option) \<times> 's"
  co_Abort :: "'s \<Rightarrow> 's"
  co_Free :: "'s \<Rightarrow> gerror option \<times> 's"
  co_Write :: "8 word list \<Rightarrow> 's \<Rightarrow> gerror option \<times> 's"
  co_Read :: "'s \<Rightarrow> (8 word list \<times> gerror option) \<times> 's"
  co_CloseInput :: "'s \<Rightarrow> gerror option \<times> 's"
  co_InputDone :: "'s \<Rightarrow> bool"
  co_AwaitInput :: "'s \<Rightarrow> 's"

partial_function (option) receiveLoop :: "'s hypervisor \<Rightarrow> 's console \<Rightarrow> Context \<Rightarrow> string \<Rightarrow> 's \<Rightarrow> (gerror option \<times> 's) option" where
  "receiveLoop H X ctx i s =
     (case co_Recv X s of
        ((bytes, recvErr), s) \<Rightarrow>
          (case (if bytes \<noteq> [] then co_Write X bytes s else (None, s)) of
             (Some writeErr, s) \<Rightarrow> Some (Some (libvirt_Wrap [libvirt_kind.ErrConsole] i (Some writeErr)), co_Abort X s)
           | (None, s) \<Rightarrow>
               (case recvErr of
                  None \<Rightarrow> receiveLoop H X ctx i s
                | Some e \<Rightarrow>
                    (case ctx_Done ctx (hv_now H s) of
                       Some ctxErr \<Rightarrow> Some (Some ctxErr, s)
                     | None \<Rightarrow>
                         if errors_Is e (OS IoEOF) then Some (None, s)
                         else Some (Some (libvirt_Wrap [libvirt_kind.ErrConsole] i (Some e)), s)))))"

text \<open>Sending the rest of a buffer; \<open>False\<close> ends the copying. The rest shrinks with every round.\<close>

function (sequential) sendAll :: "'s console \<Rightarrow> 8 word list \<Rightarrow> 's \<Rightarrow> bool \<times> 's" where
  "sendAll X [] s = (True, s)"
| "sendAll X remaining s =
     (case co_Send X remaining s of
        ((written, sendErr), s) \<Rightarrow>
          if sendErr \<noteq> None \<or> written \<le> 0 then (False, s) else sendAll X (drop (nat written) remaining) s)"
  by pat_completeness auto
termination
  by (relation "measure (\<lambda>(X, remaining, s). length remaining)") auto

partial_function (option) copyConsoleInput :: "'s console \<Rightarrow> 's \<Rightarrow> 's option" where
  "copyConsoleInput X s =
     (case co_Read X s of
        ((bytes, err), s) \<Rightarrow>
          (case sendAll X bytes s of
             (sent, s) \<Rightarrow> if \<not> sent \<or> err \<noteq> None then Some s else copyConsoleInput X s))"

text \<open>The deferred functions of \<open>OpenConsole\<close>, in the order in which they run: the input goroutine is
  waited for or given up, the stream is aborted and freed unless the goroutine may still use it, the
  reference is released.\<close>

definition joinInput :: "'s console \<Rightarrow> console_input \<Rightarrow> gerror option \<Rightarrow> 's \<Rightarrow> bool \<times> gerror option \<times> 's" where
  "joinInput X input resultErr s =
     (case input of
        NoInput \<Rightarrow> (True, resultErr, s)
      | CloserReader \<Rightarrow>
          (case co_CloseInput X s of
             (closeErr, s) \<Rightarrow>
               (if closeErr \<noteq> None then co_InputDone X s else True, errors_Join [resultErr, closeErr],
                if closeErr \<noteq> None then s else co_AwaitInput X s))
      | PlainReader \<Rightarrow> (co_InputDone X s, resultErr, s))"

definition closeStream :: "'s console \<Rightarrow> bool \<Rightarrow> gerror option \<Rightarrow> 's \<Rightarrow> gerror option \<times> 's" where
  "closeStream X freeStream resultErr s =
     (let s = co_Abort X s in
      if freeStream then (case co_Free X s of (freeErr, s) \<Rightarrow> (errors_Join [resultErr, freeErr], s)) else (resultErr, s))"

definition lv_OpenConsole :: "'s hypervisor \<Rightarrow> 's console \<Rightarrow> Context \<Rightarrow> string \<Rightarrow> console_input \<Rightarrow> bool \<Rightarrow> 's \<Rightarrow>
    (gerror option \<times> 's) option" where
  "lv_OpenConsole H X ctx i input outputNil s =
     (if outputNil then Some (Some (libvirt_New [libvirt_kind.ErrConsole] (i @ '': output is nil'')), s)
      else case lookup H i s of
        (Inl err, s) \<Rightarrow> Some (Some err, s)
      | (Inr d, s) \<Rightarrow>
          map_option (\<lambda>(resultErr, s). deferRelease H '''' d resultErr s)
            (case co_NewStream X s of
               (Some err, s) \<Rightarrow> Some (Some (libvirt_Wrap [libvirt_kind.ErrConsole] i (Some err)), s)
             | (None, s) \<Rightarrow>
                 (case co_OpenConsole X d s of
                    (Some err, s) \<Rightarrow> Some (closeStream X True (Some (libvirt_Wrap [libvirt_kind.ErrConsole] i (Some err))) s)
                  | (None, s) \<Rightarrow>
                      map_option (\<lambda>(resultErr, s).
                          case joinInput X input resultErr s of (freeStream, resultErr, s) \<Rightarrow> closeStream X freeStream resultErr s)
                        (receiveLoop H X ctx i s))))"

end
