(* ===== verification/Libvirt_Facts.thy ===== *)
theory Libvirt_Facts
  imports Libvirt "HOL-Library.Multiset"
begin

text \<open>
  What every method of the libvirt provider does to references and to domains, for any hypervisor
  on which references can be counted: the locale \<open>hypervisor_account\<close> says what a call of the bindings
  does to the counts, and its lemmas follow the methods. The locale is interpreted on any hypervisor
  that is observed through a log (\<open>watched\<close>).
\<close>

section \<open>Counting references\<close>

text \<open>\<open>acquired\<close> and \<open>freed\<close> are the references handed out and given back so far, \<open>owned\<close> the
  references whose domain is known to carry the ownership metadata, \<open>foreign\<close> whether a domain was
  ever changed through a reference that is not one of them.\<close>

locale hypervisor_account =
  fixes H :: "'s hypervisor"
    and acquired freed :: "'s \<Rightarrow> nat multiset"
    and owned :: "'s \<Rightarrow> nat set"
    and foreign :: "'s \<Rightarrow> bool"
  assumes lookup_acc: "hv_LookupDomainByUUIDString H i s = (r, s') \<Longrightarrow> freed s' = freed s \<and> foreign s' = foreign s \<and>
      acquired s' = acquired s + (case r of Inr d \<Rightarrow> {#d#} | Inl _ \<Rightarrow> {#})"
    and define_acc: "hv_DomainDefineXML H x s = (r, s') \<Longrightarrow> freed s' = freed s \<and> foreign s' = foreign s \<and>
      acquired s' = acquired s + (case r of Inr d \<Rightarrow> {#d#} | Inl _ \<Rightarrow> {#}) \<and> (\<forall>d. r = Inr d \<longrightarrow> d \<in> owned s')"
    and list_acc: "hv_ListAllDomains H s = (l, s') \<Longrightarrow> freed s' = freed s \<and> foreign s' = foreign s \<and>
      acquired s' = acquired s + (case l of Inr ds \<Rightarrow> mset ds | Inl _ \<Rightarrow> {#})"
    and free_acc: "hv_Free H d s = (e, s') \<Longrightarrow> acquired s' = acquired s \<and> foreign s' = foreign s \<and> freed s' = freed s + {#d#}"
    and call_acc: "hv_call H d c s = (e, s') \<Longrightarrow> acquired s' = acquired s \<and> freed s' = freed s \<and> owned s' = owned s \<and>
      (foreign s' \<longleftrightarrow> foreign s \<or> d \<notin> owned s)"
    and metadata_acc: "hv_GetMetadata H d s = (m, s') \<Longrightarrow> acquired s' = acquired s \<and> freed s' = freed s \<and> foreign s' = foreign s \<and>
      owned s \<subseteq> owned s' \<and> ((\<exists>x. m = Inr x) \<longrightarrow> d \<in> owned s')"
    and state_acc: "hv_GetState H d s = (st, s') \<Longrightarrow> acquired s' = acquired s \<and> freed s' = freed s \<and> foreign s' = foreign s \<and> owned s' = owned s"
    and persistent_acc: "hv_IsPersistent H d s = (b, s') \<Longrightarrow> acquired s' = acquired s \<and> freed s' = freed s \<and> foreign s' = foreign s \<and> owned s' = owned s"
    and uuid_acc: "hv_GetUUIDString H d s = (u, s') \<Longrightarrow> acquired s' = acquired s \<and> freed s' = freed s \<and> foreign s' = foreign s \<and> owned s' = owned s"
    and name_acc: "hv_GetName H d s = (u, s') \<Longrightarrow> acquired s' = acquired s \<and> freed s' = freed s \<and> foreign s' = foreign s \<and> owned s' = owned s"
    and desc_acc: "hv_GetXMLDesc H d s = (u, s') \<Longrightarrow> acquired s' = acquired s \<and> freed s' = freed s \<and> foreign s' = foreign s \<and> owned s' = owned s"
    and sleep_acc: "hv_sleep H ctx t s = s' \<Longrightarrow> acquired s' = acquired s \<and> freed s' = freed s \<and> foreign s' = foreign s \<and> owned s' = owned s"
begin

text \<open>From \<open>s\<close> to \<open>s'\<close> the references \<open>ds\<close> were acquired and not given back, and no foreign domain was
  changed.\<close>

definition holding :: "nat multiset \<Rightarrow> 's \<Rightarrow> 's \<Rightarrow> bool" where
  "holding ds s s' \<longleftrightarrow> acquired s' + freed s = acquired s + freed s' + ds \<and> (foreign s' \<longrightarrow> foreign s)"

text \<open>As the same, for a body that works on the domain \<open>d\<close> and keeps knowing it as owned.\<close>

definition onOwned :: "nat \<Rightarrow> 's \<Rightarrow> 's \<Rightarrow> bool" where
  "onOwned d s s' \<longleftrightarrow> (d \<in> owned s \<longrightarrow> holding {#} s s' \<and> d \<in> owned s')"

lemma holding_refl [simp]: "holding {#} s s"
  by (simp add: holding_def)

lemma holding_trans:
  assumes "holding ds s t" "holding es t u"
  shows "holding (ds + es) s u"
proof -
  have "acquired u + freed s = acquired s + freed u + (ds + es)"
  proof (rule multiset_eqI)
    fix x
    have "count (acquired t + freed s) x = count (acquired s + freed t + ds) x"
      "count (acquired u + freed t) x = count (acquired t + freed u + es) x"
      using assms by (simp_all add: holding_def)
    then show "count (acquired u + freed s) x = count (acquired s + freed u + (ds + es)) x" by simp
  qed
  with assms show ?thesis by (simp add: holding_def)
qed

lemma holding_quiet: "holding ds s t \<Longrightarrow> holding {#} t u \<Longrightarrow> holding ds s u"
  using holding_trans [of ds s t "{#}" u] by simp

lemma holding_free:
  assumes "holding (add_mset d ds) s t" "acquired u = acquired t" "freed u = add_mset d (freed t)" "foreign u = foreign t"
  shows "holding ds s u"
  using assms by (auto simp: holding_def)

lemma onOwned_refl [simp]: "onOwned d s s"
  by (simp add: onOwned_def)

lemma onOwned_trans [trans]: "onOwned d s t \<Longrightarrow> onOwned d t u \<Longrightarrow> onOwned d s u"
  unfolding onOwned_def using holding_quiet by blast

lemma releaseDomainRef_acc: "releaseDomainRef H i d t = (e, u) \<Longrightarrow> holding (add_mset d ds) s t \<Longrightarrow> holding ds s u"
  using holding_free free_acc by (fastforce simp: releaseDomainRef_def split: prod.splits option.splits)

lemma deferRelease_acc: "deferRelease H i d r t = (e, u) \<Longrightarrow> holding (add_mset d ds) s t \<Longrightarrow> holding ds s u"
  using releaseDomainRef_acc by (auto simp: deferRelease_def split: prod.splits)

lemma isManaged_acc:
  "isManaged H d s = (m, s') \<Longrightarrow> holding {#} s s' \<and> owned s \<subseteq> owned s' \<and> (m = Inr True \<longrightarrow> d \<in> owned s')"
  using metadata_acc by (fastforce simp: isManaged_def holding_def split: prod.splits sum.splits if_splits)

lemma lookup_holds:
  assumes "lookup H i s = (r, s')"
  shows "case r of Inr d \<Rightarrow> holding {#d#} s s' \<and> d \<in> owned s' | Inl e \<Rightarrow> holding {#} s s'"
proof -
  obtain l t where l: "hv_LookupDomainByUUIDString H i s = (l, t)" by force
  note a = lookup_acc [OF l]
  show ?thesis
  proof (cases l)
    case (Inl e)
    with assms l a show ?thesis by (auto simp: lookup_def holding_def)
  next
    case (Inr d)
    with a have h: "holding {#d#} s t" by (simp add: holding_def)
    obtain m u where m: "isManaged H d t = (m, u)" by force
    note b = isManaged_acc [OF m]
    have hu: "holding {#d#} s u" using holding_quiet [OF h] b by blast
    show ?thesis
    proof (cases "m = Inr True")
      case True
      with assms l Inr m hu b show ?thesis by (auto simp: lookup_def)
    next
      case False
      then obtain cause e where "deferRelease H i d (Some cause) u = (e, s')" "r = Inl (the e)"
        using assms l Inr m by (auto simp: lookup_def split: sum.splits bool.splits prod.splits)
      with hu deferRelease_acc [of i d "Some cause" u e s' "{#}" s] show ?thesis by simp
    qed
  qed
qed

lemma withDomain_acc:
  assumes "withDomain H i body s = (e, s')" and body: "\<And>d t r u. body d t = (r, u) \<Longrightarrow> onOwned d t u"
  shows "holding {#} s s'"
proof -
  obtain r t where r: "lookup H i s = (r, t)" by force
  note a = lookup_holds [OF r]
  show ?thesis
  proof (cases r)
    case (Inl x)
    with assms(1) r a show ?thesis by (simp add: withDomain_def)
  next
    case (Inr d)
    obtain x u where x: "body d t = (x, u)" by force
    have "holding {#d#} s u" using a Inr body [OF x] holding_quiet by (auto simp: onOwned_def)
    moreover have "deferRelease H i d x u = (e, s')" using assms(1) r Inr x by (simp add: withDomain_def)
    ultimately show ?thesis using deferRelease_acc [of i d x u e s' "{#}" s] by simp
  qed
qed

lemma ctxFirst_acc: "ctxFirst H ctx body s = (e, s') \<Longrightarrow> (\<And>e u. body s = (e, u) \<Longrightarrow> holding {#} s u) \<Longrightarrow> holding {#} s s'"
  by (auto simp: ctxFirst_def split: option.splits)

lemma wrapCall_acc: "wrapCall H k i d c s = (e, s') \<Longrightarrow> onOwned d s s'"
  using call_acc by (fastforce simp: wrapCall_def onOwned_def holding_def split: prod.splits option.splits)

lemma readState_acc: "readState H i d s = (st, s') \<Longrightarrow> onOwned c s s'"
  using state_acc by (fastforce simp: readState_def onOwned_def holding_def split: prod.splits sum.splits)

lemma lifecycle_acc: "lifecycle H ctx i c s = (e, s') \<Longrightarrow> holding {#} s s'"
  unfolding lifecycle_def by (erule ctxFirst_acc, erule withDomain_acc) (rule wrapCall_acc)

lemma Start_acc: "lv_Start H ctx i s = (e, s') \<Longrightarrow> holding {#} s s'"
  unfolding lv_Start_def
  by (erule ctxFirst_acc, erule withDomain_acc)
    (auto split: prod.splits sum.splits if_splits dest: readState_acc wrapCall_acc intro: onOwned_trans)

lemma persistent_onOwned: "hv_IsPersistent H d s = (b, s') \<Longrightarrow> onOwned c s s'"
  using persistent_acc by (fastforce simp: onOwned_def holding_def)

lemma Delete_acc: "lv_Delete H ctx i s = (e, s') \<Longrightarrow> holding {#} s s'"
  unfolding lv_Delete_def
  apply (erule ctxFirst_acc, erule withDomain_acc)
  subgoal for e u d t r v
    by (auto split: prod.splits sum.splits if_splits bool.splits option.splits
        dest!: readState_acc wrapCall_acc persistent_onOwned [where c = d] intro: onOwned_trans)
  done

lemma select_onOwned: "selectStopped H ctx deadline tick polls s = Some (w, s') \<Longrightarrow> onOwned d s s'"
  using sleep_acc by (fastforce simp: selectStopped_def Let_def onOwned_def holding_def split: if_splits)

lemma waitStopped_loop_onOwned:
  "waitStopped_loop G ctx d i deadline tick polls n s = Some r \<Longrightarrow> G = H \<longrightarrow> onOwned c s (snd r)"
proof (erule waitStopped_loop.raw_induct [where P = "\<lambda>G ctx d i deadline tick polls n s r. G = H \<longrightarrow> onOwned c s (snd r)", rotated], rule impI)
  fix wait and G :: "'s hypervisor" and ctx d i deadline tick polls n s r
  assume IH: "\<And>G ctx d i deadline tick polls n s r. wait G ctx d i deadline tick polls n s = Some r \<Longrightarrow> G = H \<longrightarrow> onOwned c s (snd r)" and "G = H"
    and run: "(case readState G i d s of
        (Inl err, s) \<Rightarrow> Some (Some err, s)
      | (Inr st, s) \<Rightarrow>
          if st = NodeStopped then Some (None, s)
          else case selectStopped G ctx deadline tick (polls n) s of
            None \<Rightarrow> None
          | Some (CtxDone, s) \<Rightarrow> Some (ctx_Done ctx (hv_now G s), s)
          | Some (DeadlineFired, s) \<Rightarrow> Some (Some (timedOut i), s)
          | Some (Ticked, s) \<Rightarrow> wait G ctx d i deadline (ticker_next pollInterval tick (hv_now G s)) polls (Suc n) s) = Some r"
  obtain st t where st: "readState G i d s = (st, t)" by force
  have s: "onOwned c s t" using readState_acc st \<open>G = H\<close> by blast
  have u: "onOwned c s u" if "selectStopped G ctx deadline tick (polls n) t = Some (w, u)" for w u
    using onOwned_trans [OF s select_onOwned] that \<open>G = H\<close> by blast
  have "onOwned c s (snd r)" if "selectStopped G ctx deadline tick (polls n) t = Some (Ticked, u)"
      "wait G ctx d i deadline (ticker_next pollInterval tick (hv_now G u)) polls (Suc n) u = Some r" for u
    using onOwned_trans [OF u [OF that(1)]] IH [OF that(2)] \<open>G = H\<close> by blast
  note s u this
  with run st show "onOwned c s (snd r)"
    by (auto split: sum.splits if_splits option.splits wakeup.splits)
qed

lemma waitStopped_acc: "waitStopped H ctx d i s = Some (e, s') \<Longrightarrow> onOwned c s s'"
  using waitStopped_loop_onOwned by (fastforce simp: waitStopped_def Let_def)

lemma Stop_acc:
  assumes "lv_Stop H ctx i s = Some (e, s')"
  shows "holding {#} s s'"
proof -
  obtain r t where r: "lookup H i s = (r, t)" by force
  note a = lookup_holds [OF r]
  show ?thesis
  proof (cases r)
    case (Inl x)
    with assms r a show ?thesis by (simp add: lv_Stop_def)
  next
    case (Inr d)
    with assms r obtain x u where u: "deferRelease H i d x u = (e, s')" and x: "(case readState H i d t of
               (Inl err, s) \<Rightarrow> Some (Some err, s)
             | (Inr st, s) \<Rightarrow>
                 if st = NodeStopped then Some (None, s)
                 else case wrapCall H libvirt_kind.ErrLifecycle i d DomShutdown s of
                   (Some err, s) \<Rightarrow> Some (Some err, s)
                 | (None, s) \<Rightarrow> waitStopped H ctx d i s) = Some (x, u)"
      by (auto simp: lv_Stop_def)
    from x have "onOwned d t u"
      by (auto split: prod.splits sum.splits if_splits option.splits
          dest!: readState_acc [where c = d] wrapCall_acc waitStopped_acc [where c = d] intro: onOwned_trans)
    with a Inr have "holding {#d#} s u" using holding_quiet by (auto simp: onOwned_def)
    with deferRelease_acc [OF u, of "{#}" s] show ?thesis by simp
  qed
qed

lemma State_acc:
  assumes "lv_State H ctx i s = (r, s')"
  shows "holding {#} s s'"
proof (cases "ctx_Done ctx (hv_now H s)")
  case None
  obtain l t where l: "lookup H i s = (l, t)" by force
  note a = lookup_holds [OF l]
  show ?thesis
  proof (cases l)
    case (Inl x)
    with assms None l a show ?thesis by (simp add: lv_State_def)
  next
    case (Inr d)
    obtain st u where st: "readState H i d t = (st, u)" by force
    with assms None l Inr obtain x e where u: "deferRelease H i d x u = (e, s')"
      by (auto simp: lv_State_def split: prod.splits)
    have "holding {#d#} s u" using a Inr readState_acc [OF st, of d] holding_quiet by (auto simp: onOwned_def)
    with deferRelease_acc [OF u, of "{#}" s] show ?thesis by simp
  qed
qed (use assms in \<open>simp add: lv_State_def\<close>)

lemma inspect_acc:
  assumes "inspect H C d s = (r, s')"
  shows "holding {#} s s' \<and> owned s' = owned s"
proof -
  obtain u1 t1 where 1: "hv_GetUUIDString H d s = (u1, t1)" by force
  obtain u2 t2 where 2: "hv_GetName H d t1 = (u2, t2)" by force
  obtain u3 t3 where 3: "hv_GetState H d t2 = (u3, t3)" by force
  obtain u4 t4 where 4: "hv_GetXMLDesc H d t3 = (u4, t4)" by force
  have "s' \<in> {t1, t2, t3, t4}"
    using assms 1 2 3 4 by (auto simp: inspect_def Let_def split: sum.splits)
  with uuid_acc [OF 1] name_acc [OF 2] state_acc [OF 3] desc_acc [OF 4] show ?thesis by (auto simp: holding_def)
qed

lemma inspectManaged_acc: "inspectManaged H C d (p, s) = (r, p', s') \<Longrightarrow> holding {#} s s' \<and> owned s' = owned s"
  using inspect_acc by (fastforce simp: inspectManaged_def split: prod.splits sum.splits)

lemma releaseNode_acc: "releaseNode H d (r, p, t) = (r', p', s') \<Longrightarrow> holding (add_mset d ds) s t \<Longrightarrow> holding ds s s'"
  by (cases r) (auto simp: releaseNode_def split: prod.splits dest: deferRelease_acc)

lemma call_onOwned: "hv_call H d c s = (e, s') \<Longrightarrow> onOwned d s s'"
  using call_acc by (fastforce simp: onOwned_def holding_def)

lemma CreateDomain_acc:
  assumes "lv_CreateDomain H C ctx cfg (p, s) = (r, p', s')"
  shows "holding {#} s s'"
proof (cases "ctx_Done ctx (hv_now H s) = None \<and> (\<exists>x. domainXML C cfg = Inr x)")
  case True
  then obtain x where x: "domainXML C cfg = Inr x" by blast
  obtain l t where l: "hv_DomainDefineXML H x s = (l, t)" by force
  note a = define_acc [OF l]
  show ?thesis
  proof (cases l)
    case (Inl e)
    with assms True x l a show ?thesis by (auto simp: lv_CreateDomain_def Let_def holding_def)
  next
    case (Inr d)
    then have h: "holding {#d#} s t" "d \<in> owned t" using a by (simp_all add: holding_def)
    obtain v q u where u: "releaseNode H d (v, q, u) = (r, p', s')" and b: "onOwned d t u"
    proof -
      obtain e1 t1 where 1: "hv_call H d DomCreate t = (e1, t1)" by force
      obtain e2 t2 where 2: "hv_call H d DomUndefine t1 = (e2, t2)" by force
      obtain e3 t3 where 3: "hv_call H d DomDestroy t1 = (e3, t3)" by force
      obtain e4 t4 where 4: "hv_call H d DomUndefine t3 = (e4, t4)" by force
      obtain v5 q5 t5 where 5: "inspectManaged H C d (p, t1) = (v5, q5, t5)" by (metis prod_cases3)
      have "onOwned d t1 t5" using inspectManaged_acc [OF 5] by (simp add: onOwned_def)
      then have "onOwned d t t2" "onOwned d t t4" "onOwned d t t5"
        using 1 2 3 4 by (meson call_onOwned onOwned_trans)+
      with assms True x l Inr 1 2 3 4 5 that show ?thesis
        by (auto simp: lv_CreateDomain_def Let_def split: option.splits)
    qed
    from b h have "holding {#d#} s u" using holding_quiet by (auto simp: onOwned_def)
    with releaseNode_acc [OF u, of "{#}" s] show ?thesis by simp
  qed
next
  case False
  with assms show ?thesis by (auto simp: lv_CreateDomain_def split: option.splits sum.splits)
qed

lemma InspectDomain_acc:
  assumes "lv_InspectDomain H C ctx i (p, s) = (r, p', s')"
  shows "holding {#} s s'"
proof (cases "ctx_Done ctx (hv_now H s)")
  case None
  obtain l t where l: "lookup H i s = (l, t)" by force
  note a = lookup_holds [OF l]
  show ?thesis
  proof (cases l)
    case (Inl x)
    with assms None l a show ?thesis by (simp add: lv_InspectDomain_def)
  next
    case (Inr d)
    obtain m t1 where m: "isManaged H d t = (m, t1)" by force
    obtain v5 q5 t5 where 5: "inspectManaged H C d (p, t1) = (v5, q5, t5)" by (metis prod_cases3)
    obtain v q u where u: "releaseNode H d (v, q, u) = (r, p', s')" and ut: "u = t1 \<or> u = t5"
      using assms None l Inr m 5 by (auto simp: lv_InspectDomain_def split: sum.splits bool.splits)
    have "holding {#d#} s t1" using a Inr isManaged_acc [OF m] holding_quiet [of "{#d#}" s t t1] by simp
    then have "holding {#d#} s u" using ut inspectManaged_acc [OF 5] holding_quiet [of "{#d#}" s t1 t5] by auto
    with releaseNode_acc [OF u, of "{#}" s] show ?thesis by simp
  qed
qed (use assms in \<open>simp add: lv_InspectDomain_def\<close>)

lemma Reload_acc: "lv_Reload H C ctx i (p, s) = (r, p', s') \<Longrightarrow> holding {#} s s'"
  by (auto simp: lv_Reload_def split: prod.splits option.splits dest: InspectDomain_acc)

lemma listNodes_acc: "listNodes H C ctx ds result (p, s) = (r, p', s') \<Longrightarrow> holding {#} s s'"
proof (induction ds arbitrary: result p s)
  case (Cons d ds)
  show ?case
  proof (cases "ctx_Done ctx (hv_now H s)")
    case None
    obtain m t where m: "isManaged H d s = (m, t)" by force
    have st: "holding {#} s t" using isManaged_acc [OF m] by simp
    obtain node err q u where i: "inspectManaged H C d (p, t) = ((node, err), q, u)" by (metis prod_cases4 prod.collapse)
    have su: "holding {#} s u" using holding_quiet [OF st] inspectManaged_acc [OF i] by blast
    consider e where "m = Inl e" | "m = Inr False" | "m = Inr True" by (metis obj_sumE)
    then show ?thesis
    proof cases
      case 1
      with Cons.prems None m st show ?thesis by simp
    next
      case 2
      with Cons.prems None m have "listNodes H C ctx ds result (p, t) = (r, p', s')" by simp
      with Cons.IH st holding_quiet show ?thesis by blast
    next
      case 3
      show ?thesis
      proof (cases "\<exists>n. node = Some n \<and> err = None")
        case True
        then obtain n where "node = Some n" "err = None" by blast
        with Cons.prems None m i 3 have "listNodes H C ctx ds (result @ [dn_Node n]) (q, u) = (r, p', s')" by simp
        with Cons.IH su holding_quiet show ?thesis by blast
      next
        case False
        with Cons.prems None m i 3 have "s' = u" by (cases node; cases err) simp_all
        with su show ?thesis by simp
      qed
    qed
  qed (use Cons.prems in simp)
qed simp

lemma releaseAll_acc: "releaseAll H ds r t = (e, u) \<Longrightarrow> holding (mset ds) s t \<Longrightarrow> holding {#} s u"
  by (induction ds arbitrary: r t) (auto split: prod.splits dest: deferRelease_acc)

lemma List_acc:
  assumes "lv_List H C ctx (p, s) = (r, p', s')"
  shows "holding {#} s s'"
proof (cases "ctx_Done ctx (hv_now H s)")
  case None
  obtain l t where l: "hv_ListAllDomains H s = (l, t)" by force
  note a = list_acc [OF l]
  show ?thesis
  proof (cases l)
    case (Inl x)
    with assms None l a show ?thesis by (auto simp: lv_List_def holding_def)
  next
    case (Inr ds)
    obtain nodes err q u where n: "listNodes H C ctx ds [] (p, t) = ((nodes, err), q, u)" by (metis prod_cases4 prod.collapse)
    with assms None l Inr obtain e where e: "releaseAll H ds err u = (e, s')"
      by (auto simp: lv_List_def split: prod.splits)
    have "holding (mset ds) s t" using a Inr by (simp add: holding_def)
    then have "holding (mset ds) s u" using holding_quiet listNodes_acc [OF n] by blast
    with releaseAll_acc [OF e] show ?thesis .
  qed
qed (use assms in \<open>simp add: lv_List_def\<close>)

lemma handleLifecycleEvent_acc:
  assumes "handleLifecycleEvent H d event txt p s = (p', s')"
  shows "holding {#} s s'"
proof -
  obtain u1 t1 where 1: "hv_GetUUIDString H d s = (u1, t1)" by force
  obtain m t2 where 2: "isManaged H d t1 = (m, t2)" by force
  obtain u3 t3 where 3: "hv_GetName H d t2 = (u3, t3)" by force
  have "s' \<in> {t1, t2, t3}"
    using assms 1 2 3 by (auto simp: handleLifecycleEvent_def Let_def split: sum.splits if_splits option.splits)
  moreover have "holding {#} s t1" "holding {#} t1 t2" "holding {#} t2 t3"
    using uuid_acc [OF 1] isManaged_acc [OF 2] name_acc [OF 3] by (simp_all add: holding_def)
  ultimately show ?thesis by (auto intro: holding_quiet)
qed

end

section \<open>The console\<close>

text \<open>The calls of a console session leave references to domains alone.\<close>

locale console_account = hypervisor_account H acquired freed owned foreign
  for H :: "'s hypervisor" and acquired freed owned foreign +
  fixes X :: "'s console"
    and same :: "'s \<Rightarrow> 's \<Rightarrow> bool"
  defines "same s s' \<equiv> acquired s' = acquired s \<and> freed s' = freed s \<and> foreign s' = foreign s \<and> owned s' = owned s"
  assumes new_acc: "co_NewStream X s = (e, s') \<Longrightarrow> same s s'"
    and open_acc: "co_OpenConsole X d s = (e, s') \<Longrightarrow> same s s'"
    and recv_acc: "co_Recv X s = (v, s') \<Longrightarrow> same s s'"
    and write_acc: "co_Write X b s = (e, s') \<Longrightarrow> same s s'"
    and abort_acc: "same s (co_Abort X s)"
    and freestream_acc: "co_Free X s = (e, s') \<Longrightarrow> same s s'"
    and closeinput_acc: "co_CloseInput X s = (e, s') \<Longrightarrow> same s s'"
    and await_acc: "same s (co_AwaitInput X s)"
begin

lemma same_holding: "same s s' \<Longrightarrow> holding {#} s s'"
  by (simp add: same_def holding_def)

lemma same_trans: "same s t \<Longrightarrow> same t u \<Longrightarrow> same s u"
  by (simp add: same_def)

lemma receiveLoop_same: "receiveLoop G Y ctx i s = Some r \<Longrightarrow> Y = X \<longrightarrow> same s (snd r)"
proof (erule receiveLoop.raw_induct [where P = "\<lambda>G Y ctx i s r. Y = X \<longrightarrow> same s (snd r)", rotated], rule impI)
  fix loop and G :: "'s hypervisor" and Y :: "'s console" and ctx i s r
  assume IH: "\<And>G Y ctx i s r. loop G Y ctx i s = Some r \<Longrightarrow> Y = X \<longrightarrow> same s (snd r)" and "Y = X"
    and run: "(case co_Recv Y s of
        ((bytes, recvErr), s) \<Rightarrow>
          (case (if bytes \<noteq> [] then co_Write Y bytes s else (None, s)) of
             (Some writeErr, s) \<Rightarrow> Some (Some (libvirt_Wrap [libvirt_kind.ErrConsole] i (Some writeErr)), co_Abort Y s)
           | (None, s) \<Rightarrow>
               (case recvErr of
                  None \<Rightarrow> loop G Y ctx i s
                | Some e \<Rightarrow>
                    (case ctx_Done ctx (hv_now G s) of
                       Some ctxErr \<Rightarrow> Some (Some ctxErr, s)
                     | None \<Rightarrow>
                         if errors_Is e (OS IoEOF) then Some (None, s)
                         else Some (Some (libvirt_Wrap [libvirt_kind.ErrConsole] i (Some e)), s))))) = Some r"
  obtain b e t where b: "co_Recv X s = ((b, e), t)" by (metis prod_cases3 prod.collapse)
  obtain w u where w: "(if b \<noteq> [] then co_Write X b t else (None, t)) = (w, u)" by force
  have "same s t" "same t u"
    using recv_acc [OF b] w write_acc [of b t w u] by (auto simp: same_def split: if_splits)
  then have su: "same s u" by (rule same_trans)
  note run' = run [unfolded \<open>Y = X\<close> b prod.case w]
  consider x where "w = Some x" | "w = None" "e = None" | x where "w = None" "e = Some x" by blast
  then show "same s (snd r)"
  proof cases
    case 1
    with run' have "snd r = co_Abort X u" by auto
    with su abort_acc [of u] same_trans show ?thesis by metis
  next
    case 2
    with run' have "loop G X ctx i u = Some r" by simp
    with IH su same_trans show ?thesis by blast
  next
    case 3
    with run' have "snd r = u" by (auto split: option.splits if_splits)
    with su show ?thesis by simp
  qed
qed

lemma closeStream_same: "closeStream X f r s = (e, s') \<Longrightarrow> same s s'"
  by (auto simp: closeStream_def Let_def split: if_splits prod.splits dest!: freestream_acc intro: same_trans abort_acc)

lemma joinInput_same: "joinInput X input r s = (f, e, s') \<Longrightarrow> same s s'"
  using await_acc
  by (auto simp: joinInput_def split: console_input.splits if_splits prod.splits dest!: closeinput_acc intro: same_trans simp: same_def)

lemma OpenConsole_acc:
  assumes "lv_OpenConsole H X ctx i input outputNil s = Some (e, s')"
  shows "holding {#} s s'"
proof (cases outputNil)
  case True
  with assms show ?thesis by (simp add: lv_OpenConsole_def)
next
  case False
  obtain l t where l: "lookup H i s = (l, t)" by force
  note a = lookup_holds [OF l]
  show ?thesis
  proof (cases l)
    case (Inl x)
    with assms l a False show ?thesis by (simp add: lv_OpenConsole_def)
  next
    case (Inr d)
    obtain e1 t1 where 1: "co_NewStream X t = (e1, t1)" by force
    obtain e2 t2 where 2: "co_OpenConsole X d t1 = (e2, t2)" by force
    obtain x u where u: "deferRelease H '''' d x u = (e, s')" and r: "(case e1 of
          Some err \<Rightarrow> Some (Some (libvirt_Wrap [libvirt_kind.ErrConsole] i (Some err)), t1)
        | None \<Rightarrow> (case e2 of
            Some err \<Rightarrow> Some (closeStream X True (Some (libvirt_Wrap [libvirt_kind.ErrConsole] i (Some err))) t2)
          | None \<Rightarrow> map_option (\<lambda>(resultErr, s).
                case joinInput X input resultErr s of (freeStream, resultErr, s) \<Rightarrow> closeStream X freeStream resultErr s)
              (receiveLoop H X ctx i t2))) = Some (x, u)"
      using assms l Inr 1 2 False by (auto simp: lv_OpenConsole_def split: option.splits)
    have t2: "same t t1" "same t t2" using new_acc [OF 1] open_acc [OF 2] same_trans by blast+
    have "same t u"
    proof (cases "e1 = None \<and> e2 = None")
      case True
      with r obtain y v where v: "receiveLoop H X ctx i t2 = Some (y, v)" by fastforce
      obtain f z w where w: "joinInput X input y v = (f, z, w)" by (metis prod_cases3)
      from r True v w have "closeStream X f z w = (x, u)" by simp
      with receiveLoop_same [OF v] joinInput_same [OF w] closeStream_same t2 same_trans show ?thesis
        by (metis snd_conv)
    next
      case False
      with r t2 closeStream_same same_trans show ?thesis by (fastforce split: option.splits)
    qed
    then have "holding {#d#} s u" using a Inr same_holding holding_quiet by auto
    with deferRelease_acc [OF u, of "{#}" s] show ?thesis by simp
  qed
qed

end

section \<open>A hypervisor under observation\<close>

record lv_log =
  lg_acquired :: "nat multiset"
  lg_freed :: "nat multiset"
  lg_owned :: "nat set"
  lg_foreign :: bool
  lg_calls :: "(nat \<times> domain_call) list"

definition noted :: "('s \<Rightarrow> 'r \<times> 's) \<Rightarrow> ('r \<Rightarrow> lv_log \<Rightarrow> lv_log) \<Rightarrow> 's \<times> lv_log \<Rightarrow> 'r \<times> 's \<times> lv_log" where
  "noted f note = (\<lambda>(s, l). case f s of (r, s) \<Rightarrow> (r, s, note r l))"

definition acquire :: "gerror + nat \<Rightarrow> lv_log \<Rightarrow> lv_log" where
  "acquire r l = (case r of Inl _ \<Rightarrow> l | Inr d \<Rightarrow> l\<lparr>lg_acquired := add_mset d (lg_acquired l), lg_owned := lg_owned l - {d}\<rparr>)"

definition own :: "nat \<Rightarrow> lv_log \<Rightarrow> lv_log" where
  "own d l = l\<lparr>lg_owned := insert d (lg_owned l)\<rparr>"

text \<open>A new reference is not known to be owned until its metadata was read; a reference to a domain
  that the provider defined is, since the document carries the metadata.\<close>

definition watched :: "'s hypervisor \<Rightarrow> ('s \<times> lv_log) hypervisor" where
  "watched H =
     \<lparr>hv_LookupDomainByUUIDString = (\<lambda>i. noted (hv_LookupDomainByUUIDString H i) acquire),
      hv_DomainDefineXML = (\<lambda>x. noted (hv_DomainDefineXML H x) (\<lambda>r l. case r of Inl _ \<Rightarrow> l | Inr d \<Rightarrow> own d (acquire r l))),
      hv_ListAllDomains = noted (hv_ListAllDomains H) (\<lambda>r l. case r of Inl _ \<Rightarrow> l
        | Inr ds \<Rightarrow> l\<lparr>lg_acquired := lg_acquired l + mset ds, lg_owned := lg_owned l - set ds\<rparr>),
      hv_Free = (\<lambda>d. noted (hv_Free H d) (\<lambda>r l. l\<lparr>lg_freed := add_mset d (lg_freed l)\<rparr>)),
      hv_call = (\<lambda>d c. noted (hv_call H d c) (\<lambda>r l. l\<lparr>lg_foreign := lg_foreign l \<or> d \<notin> lg_owned l, lg_calls := lg_calls l @ [(d, c)]\<rparr>)),
      hv_GetState = (\<lambda>d. noted (hv_GetState H d) (\<lambda>_ l. l)),
      hv_IsPersistent = (\<lambda>d. noted (hv_IsPersistent H d) (\<lambda>_ l. l)),
      hv_GetUUIDString = (\<lambda>d. noted (hv_GetUUIDString H d) (\<lambda>_ l. l)),
      hv_GetName = (\<lambda>d. noted (hv_GetName H d) (\<lambda>_ l. l)),
      hv_GetMetadata = (\<lambda>d. noted (hv_GetMetadata H d) (\<lambda>m l. case m of Inl _ \<Rightarrow> l | Inr _ \<Rightarrow> own d l)),
      hv_GetXMLDesc = (\<lambda>d. noted (hv_GetXMLDesc H d) (\<lambda>_ l. l)),
      hv_sleep = (\<lambda>ctx t (s, l). (hv_sleep H ctx t s, l)),
      hv_pollorder = (\<lambda>(s, l). hv_pollorder H s),
      hv_now = (\<lambda>(s, l). hv_now H s)\<rparr>"

definition watched_console :: "'s console \<Rightarrow> ('s \<times> lv_log) console" where
  "watched_console X =
     \<lparr>co_NewStream = noted (co_NewStream X) (\<lambda>_ l. l), co_OpenConsole = (\<lambda>d. noted (co_OpenConsole X d) (\<lambda>_ l. l)),
      co_Recv = noted (co_Recv X) (\<lambda>_ l. l), co_Send = (\<lambda>b. noted (co_Send X b) (\<lambda>_ l. l)),
      co_Abort = (\<lambda>(s, l). (co_Abort X s, l)), co_Free = noted (co_Free X) (\<lambda>_ l. l),
      co_Write = (\<lambda>b. noted (co_Write X b) (\<lambda>_ l. l)), co_Read = noted (co_Read X) (\<lambda>_ l. l),
      co_CloseInput = noted (co_CloseInput X) (\<lambda>_ l. l), co_InputDone = (\<lambda>(s, l). co_InputDone X s),
      co_AwaitInput = (\<lambda>(s, l). (co_AwaitInput X s, l))\<rparr>"

interpretation wh: hypervisor_account "watched H" "lg_acquired \<circ> snd" "lg_freed \<circ> snd" "lg_owned \<circ> snd" "lg_foreign \<circ> snd"
  by unfold_locales (auto simp: watched_def noted_def acquire_def own_def split: prod.splits sum.splits)

interpretation wc: console_account "watched H" "lg_acquired \<circ> snd" "lg_freed \<circ> snd" "lg_owned \<circ> snd" "lg_foreign \<circ> snd" "watched_console X"
  "\<lambda>s s'. (lg_acquired \<circ> snd) s' = (lg_acquired \<circ> snd) s \<and> (lg_freed \<circ> snd) s' = (lg_freed \<circ> snd) s \<and>
     (lg_foreign \<circ> snd) s' = (lg_foreign \<circ> snd) s \<and> (lg_owned \<circ> snd) s' = (lg_owned \<circ> snd) s"
  by unfold_locales (auto simp: watched_console_def noted_def split: prod.splits)

end
