(* ===== verification/Libvirt_Properties.thy ===== *)
theory Libvirt_Properties
  imports Libvirt_Facts Virt_Manager_Properties "HOL-Library.Sublist"
begin

text \<open>
  What the libvirt provider promises: it gives back every reference it takes and changes only domains
  that carry its metadata; the documents it builds are those of well-formed configurations; \<open>Stop\<close>
  returns; events reach a subscriber in order and within the bounds of its channels; and where the
  code falls short of this: what happens to a domain that cannot be inspected after it was started,
  and to disks without a target.
\<close>

section \<open>References and ownership\<close>

datatype lv_method =
    LStart | LPowerOff | LSuspend | LResume | LRestart | LDelete | LStop | LState | LInspect | LReload
  | LList | LCreate | LConsole | LCallback | LOutside

text \<open>One call of a method, a callback of the hypervisor, or anything that happens outside.\<close>

inductive lv_step ::
  "'s hypervisor \<Rightarrow> codecs \<Rightarrow> 's console \<Rightarrow> ('s \<Rightarrow> 's \<Rightarrow> bool) \<Rightarrow> lv_Provider \<times> 's \<Rightarrow> lv_method \<Rightarrow> lv_Provider \<times> 's \<Rightarrow> bool"
  for H C X outside where
  "lv_Start H ctx i s = (e, s') \<Longrightarrow> lv_step H C X outside (p, s) LStart (p, s')"
| "lv_PowerOff H ctx i s = (e, s') \<Longrightarrow> lv_step H C X outside (p, s) LPowerOff (p, s')"
| "lv_Suspend H ctx i s = (e, s') \<Longrightarrow> lv_step H C X outside (p, s) LSuspend (p, s')"
| "lv_Resume H ctx i s = (e, s') \<Longrightarrow> lv_step H C X outside (p, s) LResume (p, s')"
| "lv_Restart H ctx i s = (e, s') \<Longrightarrow> lv_step H C X outside (p, s) LRestart (p, s')"
| "lv_Delete H ctx i s = (e, s') \<Longrightarrow> lv_step H C X outside (p, s) LDelete (p, s')"
| "lv_Stop H ctx i s = Some (e, s') \<Longrightarrow> lv_step H C X outside (p, s) LStop (p, s')"
| "lv_State H ctx i s = (r, s') \<Longrightarrow> lv_step H C X outside (p, s) LState (p, s')"
| "lv_InspectDomain H C ctx i (p, s) = (r, p', s') \<Longrightarrow> lv_step H C X outside (p, s) LInspect (p', s')"
| "lv_Reload H C ctx i (p, s) = (n, p', s') \<Longrightarrow> lv_step H C X outside (p, s) LReload (p', s')"
| "lv_List H C ctx (p, s) = (ns, p', s') \<Longrightarrow> lv_step H C X outside (p, s) LList (p', s')"
| "lv_CreateDomain H C ctx cfg (p, s) = (r, p', s') \<Longrightarrow> lv_step H C X outside (p, s) LCreate (p', s')"
| "lv_OpenConsole H X ctx i input nil s = Some (e, s') \<Longrightarrow> lv_step H C X outside (p, s) LConsole (p, s')"
| "handleLifecycleEvent H d event txt p s = (p', s') \<Longrightarrow> lv_step H C X outside (p, s) LCallback (p', s')"
| "outside s s' \<Longrightarrow> lv_step H C X outside (p, s) LOutside (p, s')"

definition fresh :: lv_log where
  "fresh = \<lparr>lg_acquired = {#}, lg_freed = {#}, lg_owned = {}, lg_foreign = False, lg_calls = []\<rparr>"

definition unobserved :: "'s \<times> lv_log \<Rightarrow> 's \<times> lv_log \<Rightarrow> bool" where
  "unobserved s s' \<longleftrightarrow> snd s' = snd s"

definition settled :: "lv_Provider \<times> 's \<times> lv_log \<Rightarrow> bool" where
  "settled = (\<lambda>(p, s, l). lg_acquired l = lg_freed l \<and> \<not> lg_foreign l)"

lemma settled_holding: "settled (p, s) \<Longrightarrow> wh.holding {#} s s' \<Longrightarrow> settled (p', s')"
  by (auto simp: settled_def wh.holding_def split: prod.splits)

lemma lv_step_settled:
  assumes "lv_step (watched H) C (watched_console X) unobserved ps m ps'" "settled ps"
  shows "settled ps'"
  using assms
proof (cases rule: lv_step.cases)
  case (15 s s' p)
  with assms(2) show ?thesis by (auto simp: settled_def unobserved_def)
qed (auto simp: lv_PowerOff_def lv_Suspend_def lv_Resume_def lv_Restart_def
    dest: wh.Start_acc wh.lifecycle_acc wh.Delete_acc wh.Stop_acc wh.State_acc wh.InspectDomain_acc wh.Reload_acc
      wh.List_acc wh.CreateDomain_acc wc.OpenConsole_acc wh.handleLifecycleEvent_acc intro: settled_holding)

interpretation lv: inductive_invariant "(p0, s0, fresh)" "lv_step (watched H) C (watched_console X) unobserved" settled
  by unfold_locales (simp add: settled_def fresh_def, rule lv_step_settled)

text \<open>C28: whatever sequence of methods is called on the provider, for whatever domains, with whatever
  failures of libvirt and whatever else happens to the domains in between, \<open>Free\<close> has been called exactly
  once on every reference to a domain that libvirt handed out when the calls have returned (whether it
  succeeds is up to libvirt), and no call started,
  stopped, suspended, resumed, rebooted, destroyed or undefined a domain unless its ownership metadata
  was read through the very reference used, or the provider had defined the domain itself.\<close>

theorem provider_settles_references:
  assumes "reach (p0, s0, fresh) (lv_step (watched H) C (watched_console X) unobserved) (p, s, l)"
  shows "lg_acquired l = lg_freed l \<and> \<not> lg_foreign l"
  using lv.reach_inv [OF assms] by (simp add: settled_def)

text \<open>A hypervisor with one running domain; its state counts the references handed out.\<close>

definition demo_hypervisor :: "nat hypervisor" where
  "demo_hypervisor =
     \<lparr>hv_LookupDomainByUUIDString = (\<lambda>i n. (Inr n, n + 1)), hv_DomainDefineXML = (\<lambda>x n. (Inr n, n + 1)),
      hv_ListAllDomains = (\<lambda>n. (Inr [n], n + 1)), hv_Free = (\<lambda>d n. (None, n)), hv_call = (\<lambda>d c n. (None, n)),
      hv_GetState = (\<lambda>d n. (Inr DOMAIN_RUNNING, n)), hv_IsPersistent = (\<lambda>d n. (Inr True, n)),
      hv_GetUUIDString = (\<lambda>d n. (Inr ''u1'', n)), hv_GetName = (\<lambda>d n. (Inr ''vm'', n)),
      hv_GetMetadata = (\<lambda>d n. (Inr '''', n)), hv_GetXMLDesc = (\<lambda>d n. (Inl (Foreign ''connection reset'' []), n)),
      hv_sleep = (\<lambda>ctx t n. max n (nat t)), 
      hv_pollorder = (\<lambda>n k. if even k then [DeadlineFired, CtxDone, Ticked] else [Ticked, CtxDone, DeadlineFired]), hv_now = (\<lambda>n. int n)\<rparr>"

definition demo_codecs :: codecs where
  "demo_codecs = \<lparr>xml_Marshal = (\<lambda>d. Inr ''<domain/>''), xml_Unmarshal = (\<lambda>x. Inr None), uuid_Parse = Inr\<rparr>"

definition demo_console :: "nat console" where
  "demo_console =
     \<lparr>co_NewStream = (\<lambda>n. (None, n)), co_OpenConsole = (\<lambda>d n. (None, n)), co_Recv = (\<lambda>n. (([], Some (Sentinel (OS IoEOF))), n)),
      co_Send = (\<lambda>b n. ((int (length b), None), n)), co_Abort = (\<lambda>n. n), co_Free = (\<lambda>n. (None, n)), co_Write = (\<lambda>b n. (None, n)),
      co_Read = (\<lambda>n. (([], Some (Sentinel (OS IoEOF))), n)), co_CloseInput = (\<lambda>n. (None, n)), co_InputDone = (\<lambda>n. True),
      co_AwaitInput = (\<lambda>n. n)\<rparr>"

definition lv_start :: lv_Provider where
  "lv_start = \<lparr>callbackID = 0, nextSubID = 0, subscribers = [], managed = []\<rparr>"

theorem provider_settles_references_witness:
  "\<exists>s l. lv_Delete (watched demo_hypervisor) background ''u1'' (0, fresh) = (None, s, l) \<and>
     lg_calls l = [(0, DomDestroy), (0, DomUndefine)] \<and> lg_acquired l = lg_freed l \<and> \<not> lg_foreign l"
proof -
  obtain e s l where d: "lv_Delete (watched demo_hypervisor) background ''u1'' (0, fresh) = (e, s, l)" by (metis prod_cases3)
  have c: "e = None \<and> lg_calls l = [(0, DomDestroy), (0, DomUndefine)]"
    using d by (auto simp: lv_Delete_def ctxFirst_def withDomain_def lookup_def isManaged_def readState_def wrapCall_def deferRelease_def
        releaseDomainRef_def watched_def noted_def demo_hypervisor_def background_def acquire_def own_def fresh_def errors_Join_def
        List.map_filter_def)
  have "lv_step (watched demo_hypervisor) demo_codecs (watched_console demo_console) unobserved (lv_start, 0, fresh) LDelete (lv_start, s, l)"
    using d by (rule lv_step.intros)
  then have "reach (lv_start, 0, fresh) (lv_step (watched demo_hypervisor) demo_codecs (watched_console demo_console) unobserved) (lv_start, s, l)"
    by (meson reach_init reach_step)
  from provider_settles_references [OF this] c d show ?thesis by blast
qed

section \<open>Documents\<close>

text \<open>Which configurations describe a domain, loop by loop of the code turned into a condition on
  every element.\<close>

definition disk_ok :: "RuntimeDisk \<Rightarrow> bool" where
  "disk_ok disk \<longleftrightarrow> rd_Source disk \<noteq> '''' \<and> rd_Device disk \<in> {'''', ''disk'', ''cdrom''} \<and> rd_Format disk \<in> {'''', ''raw'', ''qcow2''} \<and>
     rd_Bus disk \<in> {'''', ''virtio'', ''sata'', ''scsi'', ''ide'', ''usb''}"

definition interface_ok :: "Interface \<Rightarrow> bool" where
  "interface_ok iface \<longleftrightarrow> if_Bridge iface \<noteq> '''' \<and> if_Model iface \<in> {'''', ''virtio'', ''e1000''} \<and>
     (if_MAC iface = '''' \<or> hardware_address (if_MAC iface))"

definition domain_ok :: "(string \<Rightarrow> gerror + string) \<Rightarrow> domain_RuntimeConfig \<Rightarrow> bool" where
  "domain_ok parseUUID cfg \<longleftrightarrow>
     (nc_Name (dr_NodeConfig cfg) \<noteq> '''' \<or> nc_ID (dr_NodeConfig cfg) \<noteq> '''') \<and>
     0 \<le> nc_MemoryMB (dr_NodeConfig cfg) \<and> 0 \<le> nc_CPUs (dr_NodeConfig cfg) \<and>
     dr_Firmware cfg \<in> {'''', ''bios'', ''uefi''} \<and> set (dr_BootOrder cfg) \<subseteq> {''disk'', ''cdrom'', ''network''} \<and>
     (nc_ID (dr_NodeConfig cfg) = '''' \<or> (\<exists>u. parseUUID (nc_ID (dr_NodeConfig cfg)) = Inr u)) \<and>
     list_all disk_ok (dr_Disks cfg) \<and> list_all interface_ok (dr_Interfaces cfg)"

lemma validateDisk_iff: "validateDisk disk = None \<longleftrightarrow> disk_ok disk"
  by (simp add: validateDisk_def disk_ok_def)

lemma validateInterface_iff: "validateInterface iface = None \<longleftrightarrow> interface_ok iface"
  using ParseMAC_iff [of "if_MAC iface"] by (auto simp: validateInterface_def interface_ok_def split: option.splits)

lemma libvirt_kinds_Is: "errors_Is (libvirt_Wrap ks t c) (LibvirtKind k) \<longleftrightarrow> k \<in> set ks \<or> (\<exists>e. c = Some e \<and> errors_Is e (LibvirtKind k))"
  by (auto simp: libvirt_Wrap_def libvirt_kinds_def list_ex_iff split: option.splits list.splits)

lemma bootDevices_result:
  "(case bootDevices ds of Inr xs \<Rightarrow> set ds \<subseteq> {''disk'', ''cdrom'', ''network''} \<and> xs = map (\<lambda>d. if d = ''disk'' then ''hd'' else d) ds
    | Inl e \<Rightarrow> \<not> set ds \<subseteq> {''disk'', ''cdrom'', ''network''} \<and> errors_Is e (LibvirtKind libvirt_kind.ErrConfig))"
  by (induction ds) (auto simp: Let_def libvirt_New_def libvirt_kinds_Is split: sum.splits)

lemma buildDisks_result:
  "(case buildDisks n ds of Inr xs \<Rightarrow> list_all disk_ok ds \<and> xs = map buildDisk ds
    | Inl e \<Rightarrow> \<not> list_all disk_ok ds \<and> errors_Is e (LibvirtKind libvirt_kind.ErrConfig))"
proof (induction ds arbitrary: n)
  case (Cons d ds)
  show ?case using Cons.IH [of "Suc n"] validateDisk_iff [of d] by (auto simp: libvirt_kinds_Is split: sum.splits option.splits)
qed simp

lemma buildInterfaces_result:
  "(case buildInterfaces n ds of Inr xs \<Rightarrow> list_all interface_ok ds \<and> xs = map buildInterface ds
    | Inl e \<Rightarrow> \<not> list_all interface_ok ds \<and> errors_Is e (LibvirtKind libvirt_kind.ErrConfig))"
proof (induction ds arbitrary: n)
  case (Cons d ds)
  show ?case using Cons.IH [of "Suc n"] validateInterface_iff [of d] by (auto simp: libvirt_kinds_Is split: sum.splits option.splits)
qed simp

text \<open>C29: \<open>buildDomain\<close> accepts exactly the configurations in which a name or an identifier is given,
  sizes are not negative, the firmware, the boot devices, and the device, format and bus of every disk
  are known, every disk has a source, every interface a bridge, a known model and either no address or
  a well-formed one, and the identifier is a UUID. The document then has the ownership metadata, one
  disk and one interface per configured one, in order, and the configured sizes, which fit the width
  of the document's fields. Every rejection is a configuration error.\<close>

theorem buildDomain_iff:
  "(case buildDomain parseUUID (Some cfg) of
      Inr d \<Rightarrow> domain_ok parseUUID cfg \<and> xml_Metadata d = metadataXML \<and>
        xml_Disks d = map buildDisk (dr_Disks cfg) \<and> xml_Interfaces d = map buildInterface (dr_Interfaces cfg) \<and>
        xml_BootDevices d = map (\<lambda>b. if b = ''disk'' then ''hd'' else b) (dr_BootOrder cfg) \<and>
        (nc_MemoryMB (dr_NodeConfig cfg) < 2 ^ 63 \<longrightarrow>
           (case xml_Memory d of None \<Rightarrow> 0 | Some (u, w) \<Rightarrow> uint w) = nc_MemoryMB (dr_NodeConfig cfg)) \<and>
        (nc_CPUs (dr_NodeConfig cfg) < 2 ^ 63 \<longrightarrow> (case xml_VCPU d of None \<Rightarrow> 0 | Some w \<Rightarrow> uint w) = nc_CPUs (dr_NodeConfig cfg))
    | Inl e \<Rightarrow> \<not> domain_ok parseUUID cfg \<and> errors_Is e (LibvirtKind libvirt_kind.ErrConfig))"
proof -
  let ?nc = "dr_NodeConfig cfg"
  have name: "orDefault (nc_Name ?nc) (nc_ID ?nc) = '''' \<longleftrightarrow> nc_Name ?nc = '''' \<and> nc_ID ?nc = ''''"
    by (simp add: orDefault_def)
  have width: "uint (word_of_int k :: 64 word) = k" if "0 < k" "k < 2 ^ 63" for k :: int
    using that by (simp add: uint_word_of_int)
  show ?thesis
  proof (cases "orDefault (nc_Name ?nc) (nc_ID ?nc) = '''' \<or> nc_MemoryMB ?nc < 0 \<or> nc_CPUs ?nc < 0 \<or> dr_Firmware cfg \<notin> {'''', ''bios'', ''uefi''}")
    case True
    then have "\<not> domain_ok parseUUID cfg" unfolding domain_ok_def using name by auto
    moreover have "\<exists>e. buildDomain parseUUID (Some cfg) = Inl e \<and> errors_Is e (LibvirtKind libvirt_kind.ErrConfig)"
    proof -
      consider "orDefault (nc_Name ?nc) (nc_ID ?nc) = ''''"
        | "orDefault (nc_Name ?nc) (nc_ID ?nc) \<noteq> ''''" "nc_MemoryMB ?nc < 0"
        | "orDefault (nc_Name ?nc) (nc_ID ?nc) \<noteq> ''''" "\<not> nc_MemoryMB ?nc < 0" "nc_CPUs ?nc < 0"
        | "orDefault (nc_Name ?nc) (nc_ID ?nc) \<noteq> ''''" "\<not> nc_MemoryMB ?nc < 0" "\<not> nc_CPUs ?nc < 0"
          "dr_Firmware cfg \<notin> {'''', ''bios'', ''uefi''}"
        using True by blast
      then show ?thesis by cases (simp_all add: buildDomain_def Let_def libvirt_New_def libvirt_kinds_Is)
    qed
    ultimately show ?thesis by auto
  next
    case False
    obtain b where b: "bootDevices (dr_BootOrder cfg) = b" by blast
    obtain d where d: "buildDisks 0 (dr_Disks cfg) = d" by blast
    obtain f where f: "buildInterfaces 0 (dr_Interfaces cfg) = f" by blast
    note facts = bootDevices_result [of "dr_BootOrder cfg", unfolded b] buildDisks_result [where n = 0 and ds = "dr_Disks cfg", unfolded d]
      buildInterfaces_result [where n = 0 and ds = "dr_Interfaces cfg", unfolded f]
    have ok: "domain_ok parseUUID cfg \<longleftrightarrow> set (dr_BootOrder cfg) \<subseteq> {''disk'', ''cdrom'', ''network''} \<and>
        (nc_ID ?nc = '''' \<or> (\<exists>u. parseUUID (nc_ID ?nc) = Inr u)) \<and> list_all disk_ok (dr_Disks cfg) \<and> list_all interface_ok (dr_Interfaces cfg)"
      using False name unfolding domain_ok_def by auto
    obtain u where u: "(if nc_ID ?nc = '''' then Inr '''' else parseUUID (nc_ID ?nc)) = u" by blast
    then have uu: "(nc_ID ?nc = '''' \<or> (\<exists>u. parseUUID (nc_ID ?nc) = Inr u)) \<longleftrightarrow> (\<exists>v. u = Inr v)" by auto
    from False have "\<not> nc_MemoryMB ?nc < 0" "\<not> nc_CPUs ?nc < 0" "orDefault (nc_Name ?nc) (nc_ID ?nc) \<noteq> ''''"
      "dr_Firmware cfg \<in> {'''', ''bios'', ''uefi''}" by auto
    then show ?thesis
      using facts width [of "nc_MemoryMB ?nc"] width [of "nc_CPUs ?nc"] unfolding ok uu
      by (cases b; cases u; cases d; cases f) (simp_all add: buildDomain_def Let_def b d f u libvirt_kinds_Is)
  qed
qed

definition demo_vm :: domain_RuntimeConfig where
  "demo_vm =
     \<lparr>dr_NodeConfig = \<lparr>nc_ID = '''', nc_Name = ''vm'', nc_Image = '''', nc_CPUs = 2, nc_MemoryMB = 512, nc_ConsoleType = '''',
        nc_AuxConsoleType = '''', nc_Meta = []\<rparr>,
      dr_Machine = '''', dr_Architecture = '''', dr_Firmware = ''uefi'',
      dr_Disks = [\<lparr>rd_Source = ''/a'', rd_Device = '''', rd_Bus = '''', rd_Target = '''', rd_Format = ''qcow2'', rd_ReadOnly = False\<rparr>,
        \<lparr>rd_Source = ''/b'', rd_Device = '''', rd_Bus = '''', rd_Target = '''', rd_Format = '''', rd_ReadOnly = False\<rparr>],
      dr_Interfaces = [\<lparr>if_MAC = ''52:54:00:00:00:01'', if_Model = '''', if_Bridge = ''lab0''\<rparr>], dr_BootOrder = [''disk'']\<rparr>"

lemma demo_vm_builds: "\<exists>d. buildDomain Inr (Some demo_vm) = Inr d"
proof -
  have "ParseMAC ''52:54:00:00:00:01'' \<noteq> None" by code_simp
  then show ?thesis
    by (auto simp: buildDomain_def demo_vm_def Let_def orDefault_def validateDisk_def validateInterface_def)
qed

theorem buildDomain_iff_witness:
  "\<exists>d. buildDomain Inr (Some demo_vm) = Inr d \<and> (case xml_Memory d of None \<Rightarrow> 0 | Some (u, w) \<Rightarrow> uint w) = 512 \<and> length (xml_Disks d) = 2"
proof -
  obtain d where d: "buildDomain Inr (Some demo_vm) = Inr d" using demo_vm_builds by blast
  have "nc_MemoryMB (dr_NodeConfig demo_vm) = 512" "length (dr_Disks demo_vm) = 2" by (simp_all add: demo_vm_def)
  with buildDomain_iff [of Inr demo_vm] d show ?thesis by simp
qed

section \<open>Disks without a target\<close>

text \<open>Every disk that is configured without a target gets the same one, and nothing rejects it: a
  configuration with two such disks is accepted and yields a document in which two disks have the
  target \<open>vda\<close>.\<close>

theorem default_targets_collide:
  assumes "i < length (dr_Disks cfg)" and "j < length (dr_Disks cfg)" and "i \<noteq> j"
    and "rd_Target (dr_Disks cfg ! i) = ''''" and "rd_Target (dr_Disks cfg ! j) = ''''"
    and "buildDomain parseUUID (Some cfg) = Inr d"
  shows "xd_TargetDev (xml_Disks d ! i) = ''vda'' \<and> xd_TargetDev (xml_Disks d ! j) = ''vda'' \<and>
    \<not> distinct (map xd_TargetDev (xml_Disks d))"
proof -
  have "xml_Disks d = map buildDisk (dr_Disks cfg)"
    using assms(6) buildDisks_result [where n = 0 and ds = "dr_Disks cfg"]
    by (auto simp: buildDomain_def Let_def split: if_splits sum.splits)
  then have t: "xd_TargetDev (xml_Disks d ! i) = ''vda''" "xd_TargetDev (xml_Disks d ! j) = ''vda''" "length (xml_Disks d) = length (dr_Disks cfg)"
    using assms by (simp_all add: buildDisk_def orDefault_def)
  with assms(1-3) show ?thesis by (metis distinct_conv_nth length_map nth_map)
qed

theorem default_targets_collide_witness:
  "\<exists>d. buildDomain Inr (Some demo_vm) = Inr d \<and> xd_TargetDev (xml_Disks d ! 0) = ''vda'' \<and> xd_TargetDev (xml_Disks d ! 1) = ''vda''"
proof -
  obtain d where d: "buildDomain Inr (Some demo_vm) = Inr d" using demo_vm_builds by blast
  have "0 < length (dr_Disks demo_vm)" "1 < length (dr_Disks demo_vm)" "(0::nat) \<noteq> 1" "rd_Target (dr_Disks demo_vm ! 0) = ''''"
    "rd_Target (dr_Disks demo_vm ! 1) = ''''" by (simp_all add: demo_vm_def)
  from default_targets_collide [OF this d] d show ?thesis by blast
qed

section \<open>Stopping\<close>

text \<open>What the loop relies on of the scheduler: a goroutine that sleeps until a time wakes up no earlier,
  unless its context is done; and a \<open>select\<close> looks at all of its cases, at the deadline first again and
  again (Go draws the order of each execution uniformly).\<close>

definition sleeps_until :: "'s hypervisor \<Rightarrow> bool" where
  "sleeps_until H \<longleftrightarrow> (\<forall>ctx t s. t \<le> hv_now H (hv_sleep H ctx t s) \<or> ctx_Done ctx (hv_now H (hv_sleep H ctx t s)) \<noteq> None)"

definition fair_select :: "'s hypervisor \<Rightarrow> bool" where
  "fair_select H \<longleftrightarrow> (\<forall>s n. set (hv_pollorder H s n) = UNIV \<and> (\<exists>m \<ge> n. hd (hv_pollorder H s m) = DeadlineFired))"

lemma selectStopped_ready:
  assumes "sleeps_until H" "set polls = UNIV"
  shows "\<exists>w u. selectStopped H ctx deadline tick polls s = Some (w, u) \<and> case_ready H ctx deadline tick u w \<and>
    (deadline \<le> hv_now H u \<and> hd polls = DeadlineFired \<longrightarrow> w = DeadlineFired)"
proof -
  define u where "u = (if list_ex (case_ready H ctx deadline tick s) polls then s else hv_sleep H ctx (min deadline tick) s)"
  have "\<exists>w. case_ready H ctx deadline tick u w"
  proof (cases "list_ex (case_ready H ctx deadline tick s) polls")
    case True
    then show ?thesis by (auto simp: u_def list_ex_iff)
  next
    case False
    then have "min deadline tick \<le> hv_now H u \<or> ctx_Done ctx (hv_now H u) \<noteq> None"
      using assms(1) by (simp add: u_def sleeps_until_def)
    then have "case_ready H ctx deadline tick u DeadlineFired \<or> case_ready H ctx deadline tick u Ticked \<or>
      case_ready H ctx deadline tick u CtxDone" by auto
    then show ?thesis by blast
  qed
  then obtain w where w: "find (case_ready H ctx deadline tick u) polls = Some w"
    using assms(2) by (metis UNIV_I find_None_iff option.exhaust)
  then have "case_ready H ctx deadline tick u w" by (auto simp: find_Some_iff)
  moreover have "w = DeadlineFired" if "deadline \<le> hv_now H u" "hd polls = DeadlineFired"
    using w that by (cases polls) auto
  moreover have "selectStopped H ctx deadline tick polls s = Some (w, u)"
    using w by (simp add: selectStopped_def u_def)
  ultimately show ?thesis by blast
qed

lemma ticker_next_later: "tick \<le> t \<Longrightarrow> tick < ticker_next pollInterval tick t"
  by (simp add: ticker_next_def pollInterval_def time_Millisecond_def add_pos_nonneg pos_imp_zdiv_nonneg_iff)

text \<open>How the loop ends: with success when libvirt says that the domain is stopped, and with a time-out
  only when the deadline has passed.\<close>

definition loop_ends :: "'s hypervisor \<Rightarrow> Context \<Rightarrow> nat \<Rightarrow> string \<Rightarrow> int \<Rightarrow> gerror option \<Rightarrow> 's \<Rightarrow> bool" where
  "loop_ends H ctx d i deadline e s' \<longleftrightarrow>
     (e = None \<longrightarrow> (\<exists>t st. hv_GetState H d t = (Inr st, s') \<and> nodeState st = NodeStopped)) \<and>
     (e = Some (timedOut i) \<longrightarrow> deadline \<le> hv_now H s' \<or> ctx_Done ctx (hv_now H s') = e)"

lemma timedOut_not_inspect: "libvirt_Wrap [libvirt_kind.ErrInspect] i (Some x) \<noteq> timedOut j"
  by (simp add: timedOut_def libvirt_Wrap_def libvirt_New_def)

text \<open>The ticks approach the deadline; when they have reached it, every \<open>select\<close> finds the timer ready,
  and the first one that looks at it first takes it.\<close>

lemma waitStopped_loop_returns:
  assumes "sleeps_until H" and polls: "\<And>n. set (polls n) = UNIV" "\<And>n. \<exists>m \<ge> n. hd (polls m) = DeadlineFired"
  shows "\<exists>e s'. waitStopped_loop H ctx d i deadline tick polls n s = Some (e, s') \<and> loop_ends H ctx d i deadline e s'"
proof (induction "(nat (deadline - tick), (LEAST m. n \<le> m \<and> hd (polls m) = DeadlineFired) - n)" arbitrary: tick n s
    rule: wf_induct_rule [OF wf_lex_prod [OF wf_less_than wf_less_than]])
  case 1
  let ?next = "\<lambda>n. LEAST m. n \<le> m \<and> hd (polls m) = DeadlineFired"
  obtain r t where r: "hv_GetState H d s = (r, t)" by force
  obtain w u where w: "selectStopped H ctx deadline tick (polls n) t = Some (w, u)" "case_ready H ctx deadline tick u w"
      "deadline \<le> hv_now H u \<and> hd (polls n) = DeadlineFired \<longrightarrow> w = DeadlineFired"
    using selectStopped_ready [OF assms(1) polls(1)] by blast
  let ?tick = "ticker_next pollInterval tick (hv_now H u)"
  have again: "\<exists>e s'. waitStopped_loop H ctx d i deadline ?tick polls (Suc n) u = Some (e, s') \<and> loop_ends H ctx d i deadline e s'" if "w = Ticked"
  proof (rule 1)
    have tick: "tick \<le> hv_now H u" "tick < ?tick" using that w(2) ticker_next_later by auto
    have least: "n \<le> ?next n \<and> hd (polls (?next n)) = DeadlineFired" using LeastI_ex [OF polls(2) [of n, unfolded Bex_def]] by simp
    show "((nat (deadline - ?tick), ?next (Suc n) - Suc n), nat (deadline - tick), ?next n - n) \<in> less_than <*lex*> less_than"
    proof (cases "tick < deadline")
      case True
      with tick(2) show ?thesis by auto
    next
      case False
      then have "hd (polls n) \<noteq> DeadlineFired" using w(3) that tick(1) by auto
      with least have "Suc n \<le> ?next n \<and> hd (polls (?next n)) = DeadlineFired" by (metis Suc_leI le_neq_implies_less)
      moreover from this have "?next (Suc n) \<le> ?next n" by (rule Least_le)
      ultimately show ?thesis using False tick(2) by auto
    qed
  qed
  show ?case
    using again r w(1,2) timedOut_not_inspect [of i _ i]
    by (cases w; cases r)
      (auto simp: waitStopped_loop.simps [of H ctx d i deadline tick polls n s] readState_def loop_ends_def)
qed

lemma waitStopped_returns:
  assumes "sleeps_until H" "fair_select H"
  shows "\<exists>e s'. waitStopped H ctx d i s = Some (e, s') \<and> loop_ends H ctx d i (hv_now H s + 10 * time_Second) e s'"
  using waitStopped_loop_returns [OF assms(1), of "hv_pollorder H s"] assms(2)
  by (simp add: waitStopped_def time_NewTimer_def fair_select_def)

text \<open>C30: \<open>Stop\<close> always returns, however libvirt answers and however late the goroutine is scheduled,
  because the timer is started once, before the polling. Each call of libvirt and each sleep is taken to
  end; beyond that the assumptions are only that a sleeping goroutine is not woken before its time and
  that \<open>select\<close> does not prefer the other cases forever. \<open>Stop\<close> reports success only if the last thing libvirt said of the domain, before the reference was
  released, is that it is stopped; and the wait times out no earlier than ten seconds after it began.\<close>

theorem Stop_returns:
  assumes "sleeps_until H" and "fair_select H"
  shows "(\<exists>e s'. lv_Stop H ctx i s = Some (e, s') \<and>
    (e = None \<longrightarrow> (\<exists>d u t st t'. lookup H i s = (Inr d, u) \<and> hv_GetState H d t = (Inr st, t') \<and> nodeState st = NodeStopped \<and>
       releaseDomainRef H i d t' = (None, s')))) \<and>
    (\<forall>d t. \<exists>e t'. waitStopped H ctx d i t = Some (e, t') \<and>
       (e = Some (timedOut i) \<longrightarrow> hv_now H t + 10 * time_Second \<le> hv_now H t' \<or> ctx_Done ctx (hv_now H t') = e))"
proof (rule conjI)
  show "\<forall>d t. \<exists>e t'. waitStopped H ctx d i t = Some (e, t') \<and>
       (e = Some (timedOut i) \<longrightarrow> hv_now H t + 10 * time_Second \<le> hv_now H t' \<or> ctx_Done ctx (hv_now H t') = e)"
    using waitStopped_returns [OF assms] unfolding loop_ends_def by blast
next
  obtain r t where r: "lookup H i s = (r, t)" by force
  show "\<exists>e s'. lv_Stop H ctx i s = Some (e, s') \<and>
    (e = None \<longrightarrow> (\<exists>d u t st t'. lookup H i s = (Inr d, u) \<and> hv_GetState H d t = (Inr st, t') \<and> nodeState st = NodeStopped \<and>
       releaseDomainRef H i d t' = (None, s')))"
  proof (cases r)
    case (Inl e)
    with r show ?thesis by (simp add: lv_Stop_def)
  next
    case (Inr d)
    let ?stopped = "\<lambda>e s'. e = None \<longrightarrow> (\<exists>t st. hv_GetState H d t = (Inr st, s') \<and> nodeState st = NodeStopped)"
    let ?body = "case readState H i d t of
               (Inl err, s) \<Rightarrow> Some (Some err, s)
             | (Inr st, s) \<Rightarrow>
                 if st = NodeStopped then Some (None, s)
                 else case wrapCall H libvirt_kind.ErrLifecycle i d DomShutdown s of
                   (Some err, s) \<Rightarrow> Some (Some err, s)
                 | (None, s) \<Rightarrow> waitStopped H ctx d i s"
    obtain st u where st: "readState H i d t = (st, u)" by force
    obtain x v where x: "wrapCall H libvirt_kind.ErrLifecycle i d DomShutdown u = (x, v)" by force
    obtain y w where y: "waitStopped H ctx d i v = Some (y, w)" "?stopped y w"
      using waitStopped_returns [OF assms, of ctx d i v] unfolding loop_ends_def by blast
    have "\<exists>e t'. ?body = Some (e, t') \<and> ?stopped e t'"
      using st x y by (auto simp: readState_def split: sum.splits prod.splits option.splits)
    then obtain e t' where e: "?body = Some (e, t')" "?stopped e t'" by blast
    have s: "lv_Stop H ctx i s = Some (deferRelease H i d e t')"
      using r Inr e(1) by (simp add: lv_Stop_def)
    obtain f s' where f: "releaseDomainRef H i d t' = (f, s')" by force
    have d: "deferRelease H i d e t' = (errors_Join [e, f], s')" using f by (simp add: deferRelease_def)
    have "errors_Join [e, f] = None \<longrightarrow> e = None \<and> f = None" by (simp add: errors_Join_None)
    with e(2) f r Inr have "errors_Join [e, f] = None \<longrightarrow>
      (\<exists>d u t st t'. lookup H i s = (Inr d, u) \<and> hv_GetState H d t = (Inr st, t') \<and> nodeState st = NodeStopped \<and>
         releaseDomainRef H i d t' = (None, s'))" by blast
    with s d show ?thesis by auto
  qed
qed

theorem Stop_returns_witness:
  "\<exists>e s'. lv_Stop demo_hypervisor background ''u1'' 0 = Some (e, s')"
proof -
  have cases: "{DeadlineFired, CtxDone, Ticked} = UNIV" "{Ticked, CtxDone, DeadlineFired} = UNIV" using wakeup.exhaust by auto
  have "\<exists>m \<ge> n. hd (if even m then [DeadlineFired, CtxDone, Ticked] else [Ticked, CtxDone, DeadlineFired]) = DeadlineFired" for n :: nat
    by (rule exI [of _ "2 * n"]) simp
  with cases have "fair_select demo_hypervisor" by (simp add: fair_select_def demo_hypervisor_def)
  moreover have "t \<le> int (max s (nat t))" for t s by linarith
  then have "sleeps_until demo_hypervisor" by (simp add: sleeps_until_def demo_hypervisor_def)
  ultimately show ?thesis using Stop_returns [of demo_hypervisor background "''u1''" 0] by blast
qed

section \<open>A domain that cannot be inspected\<close>

lemma release_each_succeeds:
  assumes "\<And>c l t. fst (sm_Release M c l t) = None"
  shows "\<exists>t. release_each M ctx rs s = ([], [], t)"
proof (induction rs arbitrary: s)
  case (Cons r rs)
  obtain e t where "sm_Release M ctx r s = (e, t)" by force
  with assms [of ctx r s] Cons.IH [of t] show ?case by auto
qed simp

lemma errors_Join_Nil [simp]: "errors_Join [] = None"
  by (simp add: errors_Join_None)

lemma CreateDomain_uninspected:
  assumes "ctx_Done ctx (hv_now H s) = None" "domainXML C (Some rc) = Inr x" "hv_DomainDefineXML H x s = (Inr d, s1)"
    "hv_call H d DomCreate s1 = (None, s2)" "ctx_Done ctx (hv_now H s2) = None" "inspect H C d s2 = (Inl e, s3)"
  shows "\<exists>e' f s4. hv_Free H d s3 = (f, s4) \<and> lv_CreateDomain H C ctx (Some rc) (p, s) = ((None, Some e'), p, s4)"
proof -
  obtain f s4 where f: "hv_Free H d s3 = (f, s4)" by force
  obtain g where g: "deferRelease H '''' d (Some e) s3 = (g, s4)"
    using f by (cases f) (auto simp: deferRelease_def releaseDomainRef_def)
  moreover have "errors_Join [Some e, x] \<noteq> None" for x by (simp add: errors_Join_None del: not_None_eq)
  ultimately have "g \<noteq> None" by (auto simp: deferRelease_def split: prod.splits)
  with f g assms show ?thesis by (auto simp: lv_CreateDomain_def Let_def releaseNode_def inspectManaged_def)
qed

text \<open>C32: when libvirt has started a new domain and only the inspection that follows fails, \<open>CreateDomain\<close>
  returns an error and no node, without destroying or undefining the domain and without remembering
  it: between the start of the domain and the return, only the queries of the inspection and the release
  of the reference take place. The domain manager then takes the creation for failed: it releases the
  storage of the disks while the domain runs on them, and its caller gets neither the domain nor a
  lease to release later.\<close>

theorem Create_releases_disks_of_running_domain:
  assumes "domain_Prepare fq clk (Some M) ctx (Some cfg) ps = (Some rc, Some res, None, (p, s))"
    and "domainXML C (Some rc) = Inr x" and "ctx_Done ctx (hv_now H s) = None"
    and "hv_DomainDefineXML H x s = (Inr d, s1)" and "hv_call H d DomCreate s1 = (None, s2)"
    and "ctx_Done ctx (hv_now H s2) = None" and "inspect H C d s2 = (Inl e, s3)"
    and "\<And>c l t. fst (sm_Release M c l t) = None"
  shows "\<exists>err f s4 ps'. hv_Free H d s3 = (f, s4) \<and>
    release_each M (cleanup_NewContext (clk (p, s4)) ctx) res (p, s4) = ([], [], ps') \<and>
    domain_Create fq clk (Some M) ctx (Some (\<lambda>ctx rc. lv_CreateDomain H C ctx (Some rc))) (Some cfg) ps = (None, None, Some err, ps')"
proof -
  obtain e' f s4 where c: "hv_Free H d s3 = (f, s4)" "lv_CreateDomain H C ctx (Some rc) (p, s) = ((None, Some e'), p, s4)"
    using CreateDomain_uninspected [OF assms(3,2,4,5,6,7), where p = p] by blast
  obtain t where t: "release_each M (cleanup_NewContext (clk (p, s4)) ctx) res (p, s4) = ([], [], t)"
    using release_each_succeeds [OF assms(8)] by blast
  from ReleaseResources_spec [OF t] have "domain_rollback clk M ctx res e' (p, s4) = (None, e', t)"
    by (simp add: domain_rollback_def domain_Release_def)
  with c assms(1) t show ?thesis by (auto simp: domain_Create_def)
qed

definition open_store :: "(lv_Provider \<times> nat) StorageManager" where
  "open_store = \<lparr>sm_Prepare = (\<lambda>ctx req ps. (Inr demo_prepared, ps)), sm_Release = (\<lambda>ctx r ps. (None, ps))\<rparr>"

definition demo_guest :: domain_Config where
  "demo_guest = demo_domain\<lparr>dc_Disks := [\<lparr>disk_Source = \<lparr>ref_Provider = ''local'', ref_Key = ''a''\<rparr>, disk_Device = '''', disk_Bus = '''',
     disk_Target = '''', disk_Format = '''', disk_ReadOnly = False\<rparr>]\<rparr>"

theorem Create_releases_disks_of_running_domain_witness:
  "\<exists>err f s4 ps'. hv_call demo_hypervisor 0 DomCreate 1 = (None, 1) \<and> hv_Free demo_hypervisor 0 1 = (f, s4) \<and>
     release_each open_store (cleanup_NewContext 0 background) [Some demo_prepared] (lv_start, s4) = ([], [], ps') \<and>
     domain_Create id (\<lambda>_. 0) (Some open_store) background (Some (\<lambda>ctx rc. lv_CreateDomain demo_hypervisor demo_codecs ctx (Some rc)))
       (Some demo_guest) (lv_start, 0) = (None, None, Some err, ps')"
proof -
  obtain rc where p: "domain_Prepare id (\<lambda>_. 0) (Some open_store) background (Some demo_guest) (lv_start, 0) =
      (Some rc, Some [Some demo_prepared], None, (lv_start, 0))" and rc: "rc = domain_runtime demo_guest
        [\<lparr>rd_Source = loc_Value (pr_Location demo_prepared), rd_Device = '''', rd_Bus = '''', rd_Target = '''', rd_Format = '''', rd_ReadOnly = False\<rparr>]"
    by (simp add: domain_Prepare_def open_store_def demo_guest_def demo_prepared_def)
  have x: "domainXML demo_codecs (Some rc) = Inr ''<domain/>''"
    by (simp add: rc domainXML_def buildDomain_def Let_def demo_codecs_def domain_runtime_def demo_guest_def demo_domain_def demo_node_def
        orDefault_def validateDisk_def demo_prepared_def)
  obtain e where i: "inspect demo_hypervisor demo_codecs 0 1 = (Inl e, 1)"
    by (simp add: inspect_def demo_hypervisor_def Let_def)
  have h: "hv_DomainDefineXML demo_hypervisor ''<domain/>'' 0 = (Inr 0, 1)" "hv_call demo_hypervisor 0 DomCreate 1 = (None, 1)"
    "ctx_Done background t = None" for t
    by (simp_all add: demo_hypervisor_def background_def)
  have r: "fst (sm_Release open_store c l t) = None" for c l t by (simp add: open_store_def)
  from Create_releases_disks_of_running_domain [OF p x h(3) h(1,2) h(3) i r] h(2) show ?thesis by blast
qed

section \<open>Events\<close>

text \<open>The event that a callback announces, if any: only for a domain that carries the metadata or that
  the provider remembers.\<close>

definition announced :: "'s hypervisor \<Rightarrow> nat \<Rightarrow> DomainEventType \<Rightarrow> string \<Rightarrow> lv_Provider \<Rightarrow> 's \<Rightarrow> virt_Event option" where
  "announced H d event txt p s =
     (case hv_GetUUIDString H d s of
        (Inr i, s) \<Rightarrow>
          (case isManaged H d s of
             (m, s) \<Rightarrow>
               (case hv_GetName H d s of
                  (Inr name, s) \<Rightarrow>
                    if m = Inr True \<or> knowsManaged i p
                    then map_option (\<lambda>(eventType, st). \<lparr>ve_Type = eventType, ve_Time = hv_now H s, ve_NodeID = i, ve_Name = name,
                      ve_State = st, ve_Detail = txt\<rparr>) (lifecycleEvent event)
                    else None
                | _ \<Rightarrow> None))
      | _ \<Rightarrow> None)"

lemma handleLifecycleEvent_announces:
  assumes "handleLifecycleEvent H d event txt p s = (p', s')"
  shows "subscribers p' = (case announced H d event txt p s of None \<Rightarrow> subscribers p | Some e \<Rightarrow> subscribers (lv_emit e p))"
  using assms
  by (auto simp: handleLifecycleEvent_def announced_def Let_def forgetManaged_def lv_emit_def split: prod.splits sum.splits option.splits if_splits)

text \<open>A provider with its subscriptions, the ended ones too, and for each subscription the events
  announced since it was made and those its consumer has read.\<close>

record ev_state =
  es_Provider :: lv_Provider
  es_Ended :: "(64 word, lv_Subscription) gomap"
  es_Sent :: "64 word \<Rightarrow> virt_Event list"
  es_Read :: "64 word \<Rightarrow> virt_Event list"

abbreviation es_Subs :: "ev_state \<Rightarrow> (64 word, lv_Subscription) gomap" where
  "es_Subs x \<equiv> subscribers (es_Provider x)"

abbreviation set_sub :: "64 word \<Rightarrow> lv_Subscription \<Rightarrow> ev_state \<Rightarrow> ev_state" where
  "set_sub i sub x \<equiv> x\<lparr>es_Provider := (es_Provider x)\<lparr>subscribers := mput i sub (es_Subs x)\<rparr>\<rparr>"

datatype ev_label = EvSubscribe | EvCallback | EvTake | EvPut | EvEnd | EvRead | EvDrain

text \<open>The identifier of a new subscription is assumed unused: 64 bits do not wrap around in practice.\<close>

inductive ev_step :: "'s hypervisor \<Rightarrow> ev_state \<Rightarrow> ev_label \<Rightarrow> ev_state \<Rightarrow> bool" for H where
  ev_subscribe: "lv_Events H ctx (es_Provider x) s = (Inr i, p') \<Longrightarrow> mget (es_Subs x) i = None \<Longrightarrow> mget (es_Ended x) i = None \<Longrightarrow>
     ev_step H x EvSubscribe (x\<lparr>es_Provider := p', es_Sent := (es_Sent x)(i := []), es_Read := (es_Read x)(i := [])\<rparr>)"
| ev_callback: "handleLifecycleEvent H d event txt (es_Provider x) s = (p', s') \<Longrightarrow>
     ev_step H x EvCallback (x\<lparr>es_Provider := p',
       es_Sent := (\<lambda>i. case announced H d event txt (es_Provider x) s of Some e \<Rightarrow> if mget (es_Subs x) i \<noteq> None then es_Sent x i @ [e] else es_Sent x i
                     | None \<Rightarrow> es_Sent x i)\<rparr>)"
| ev_take: "mget (es_Subs x) i = Some sub \<Longrightarrow> lv_take sub = Some sub' \<Longrightarrow> ev_step H x EvTake (set_sub i sub' x)"
| ev_put: "mget (es_Subs x) i = Some sub \<Longrightarrow> lv_put sub = Some sub' \<Longrightarrow> ev_step H x EvPut (set_sub i sub' x)"
| ev_end: "mget (es_Subs x) i = Some sub \<Longrightarrow> lv_end H s sub = Some sub' \<Longrightarrow>
     ev_step H x EvEnd (x\<lparr>es_Provider := (es_Provider x)\<lparr>subscribers := mdel i (es_Subs x)\<rparr>, es_Ended := mput i sub' (es_Ended x)\<rparr>)"
| ev_read: "mget (es_Subs x) i = Some sub \<Longrightarrow> sub_Out sub = e # rest \<Longrightarrow>
     ev_step H x EvRead ((set_sub i (sub\<lparr>sub_Out := rest\<rparr>) x)\<lparr>es_Read := (es_Read x)(i := es_Read x i @ [e])\<rparr>)"
| ev_drain: "mget (es_Ended x) i = Some sub \<Longrightarrow> sub_Out sub = e # rest \<Longrightarrow>
     ev_step H x EvDrain (x\<lparr>es_Ended := mput i (sub\<lparr>sub_Out := rest\<rparr>) (es_Ended x), es_Read := (es_Read x)(i := es_Read x i @ [e])\<rparr>)"

definition in_flight :: "lv_Subscription \<Rightarrow> virt_Event list" where
  "in_flight sub = sub_Out sub @ (case sub_Held sub of None \<Rightarrow> [] | Some e \<Rightarrow> [e]) @ sub_Buffer sub"

definition flow_ok :: "virt_Event list \<Rightarrow> virt_Event list \<Rightarrow> lv_Subscription \<Rightarrow> bool" where
  "flow_ok sent seen sub \<longleftrightarrow> subseq (seen @ in_flight sub) sent \<and> length (sub_Buffer sub) \<le> eventBuffer \<and> length (sub_Out sub) \<le> eventBuffer"

definition ev_ok :: "ev_state \<Rightarrow> bool" where
  "ev_ok x \<longleftrightarrow>
     (\<forall>i sub. mget (es_Subs x) i = Some sub \<longrightarrow> mget (es_Ended x) i = None \<and> flow_ok (es_Sent x i) (es_Read x i) sub \<and>
        (length (es_Sent x i) \<le> eventBuffer \<longrightarrow> es_Read x i @ in_flight sub = es_Sent x i)) \<and>
     (\<forall>i sub. mget (es_Ended x) i = Some sub \<longrightarrow> flow_ok (es_Sent x i) (es_Read x i) sub)"

lemma mget_emit: "mget (subscribers (lv_emit e p)) i = map_option (offer e) (mget (subscribers p) i)"
  unfolding lv_emit_def by (simp add: map_of_map [of "offer e", unfolded comp_def, symmetric] fun_eq_iff) (metis comp_apply map_of_map)

lemma in_flight_offer:
  "in_flight (offer e sub) = (if length (sub_Buffer sub) < eventBuffer then in_flight sub @ [e] else in_flight sub)"
  by (simp add: in_flight_def offer_def)

lemma flow_ok_offer: "flow_ok sent seen sub \<Longrightarrow> flow_ok (sent @ [e]) seen (offer e sub)"
  unfolding flow_ok_def in_flight_offer
  using list_emb_append_mono [of "(=)" "seen @ in_flight sub" sent "[e]" "[e]"] by (auto simp: offer_def intro: subseq_order.trans)

lemma offer_lossless:
  assumes "length sent \<le> eventBuffer \<longrightarrow> seen @ in_flight sub = sent" "length (sent @ [e]) \<le> eventBuffer"
  shows "seen @ in_flight (offer e sub) = sent @ [e]"
proof -
  have s: "seen @ in_flight sub = sent" using assms by simp
  then have "length (sub_Buffer sub) < eventBuffer" using assms(2) by (auto simp: in_flight_def)
  with s show ?thesis by (simp add: in_flight_offer)
qed

lemma pump_flow:
  "lv_take sub = Some sub' \<Longrightarrow> in_flight sub' = in_flight sub \<and> (flow_ok sent seen sub \<longrightarrow> flow_ok sent seen sub')"
  "lv_put sub = Some sub' \<Longrightarrow> in_flight sub' = in_flight sub \<and> (flow_ok sent seen sub \<longrightarrow> flow_ok sent seen sub')"
  by (auto simp: lv_take_def lv_put_def in_flight_def flow_ok_def split: option.splits list.splits if_splits)

lemma end_flow: "lv_end H s sub = Some sub' \<Longrightarrow> flow_ok sent seen sub \<Longrightarrow> flow_ok sent seen sub'"
proof -
  assume "lv_end H s sub = Some sub'" "flow_ok sent seen sub"
  then have s: "sub' = sub\<lparr>sub_Held := None, sub_Closed := True\<rparr>" by (auto simp: lv_end_def split: option.splits)
  have "subseq (seen @ in_flight sub') (seen @ in_flight sub)"
    unfolding s in_flight_def by (cases "sub_Held sub") (simp_all add: subseq_append' list_emb_Cons)
  with \<open>flow_ok _ _ sub\<close> s show ?thesis by (auto simp: flow_ok_def intro: subseq_order.trans)
qed

lemma read_flow:
  assumes "sub_Out sub = e # rest"
  shows "(seen @ [e]) @ in_flight (sub\<lparr>sub_Out := rest\<rparr>) = seen @ in_flight sub"
    "flow_ok sent seen sub \<Longrightarrow> flow_ok sent (seen @ [e]) (sub\<lparr>sub_Out := rest\<rparr>)"
  using assms by (auto simp: in_flight_def flow_ok_def)

lemma ev_ok_step:
  assumes "ev_step H x l y" "ev_ok x"
  shows "ev_ok y"
  using assms
proof (cases rule: ev_step.cases)
  case (ev_subscribe ctx s i p')
  then have "subscribers p' = mput i \<lparr>sub_Context = ctx, sub_Buffer = [], sub_Held = None, sub_Out = [], sub_Closed = False\<rparr> (es_Subs x)"
    by (auto simp: lv_Events_def Let_def split: option.splits)
  with ev_subscribe assms(2) show ?thesis by (auto simp: ev_ok_def flow_ok_def in_flight_def)
next
  case (ev_callback d event tx s p' s')
  note sub = handleLifecycleEvent_announces [OF ev_callback(3)]
  show ?thesis
  proof (cases "announced H d event tx (es_Provider x) s")
    case None
    with ev_callback sub assms(2) show ?thesis by (simp add: ev_ok_def)
  next
    case (Some e)
    have "mget (subscribers p') i = map_option (offer e) (mget (es_Subs x) i)" for i
      using sub Some by (simp add: mget_emit)
    moreover have "es_Read x i @ in_flight (offer e sub) = es_Sent x i @ [e]"
      if "mget (es_Subs x) i = Some sub" "length (es_Sent x i) \<le> 15" for i sub
      using assms(2) that by (intro offer_lossless) (auto simp: ev_ok_def)
    ultimately show ?thesis using ev_callback Some assms(2) by (auto simp: ev_ok_def intro: flow_ok_offer)
  qed
next
  case (ev_take i sub sub')
  with assms(2) pump_flow(1) [OF ev_take(4)] show ?thesis by (auto simp: ev_ok_def)
next
  case (ev_put i sub sub')
  with assms(2) pump_flow(2) [OF ev_put(4)] show ?thesis by (auto simp: ev_ok_def)
next
  case (ev_end i sub s sub')
  with assms(2) end_flow [OF ev_end(4)] show ?thesis by (auto simp: ev_ok_def)
next
  case (ev_read i sub e rest)
  with assms(2) read_flow [OF ev_read(4)] show ?thesis by (auto simp: ev_ok_def)
next
  case (ev_drain i sub e rest)
  have "mget (es_Subs x) i = None" using assms(2) ev_drain(3) unfolding ev_ok_def by (metis not_None_eq)
  with ev_drain assms(2) read_flow [OF ev_drain(4)] show ?thesis by (auto simp: ev_ok_def)
qed

definition no_subscribers :: "lv_Provider \<Rightarrow> ev_state" where
  "no_subscribers p = \<lparr>es_Provider = p\<lparr>subscribers := []\<rparr>, es_Ended = [], es_Sent = (\<lambda>_. []), es_Read = (\<lambda>_. [])\<rparr>"

interpretation ev: inductive_invariant "no_subscribers p" "ev_step H" ev_ok
  by unfold_locales (simp add: ev_ok_def no_subscribers_def, rule ev_ok_step)

text \<open>C31: under every interleaving of callbacks, subscriptions, forwarding goroutines, consumers and
  cancellations, what a subscriber has read and what is on its way to it are announced events, in the
  order in which they were announced and none of them twice; neither channel grows beyond its
  capacity; and up to the capacity of one channel no event is lost to a subscriber that has not
  cancelled.\<close>

theorem events_in_order:
  assumes "reach (no_subscribers p) (ev_step H) x"
    and "mget (es_Subs x) i = Some sub \<or> mget (es_Ended x) i = Some sub"
  shows "subseq (es_Read x i @ in_flight sub) (es_Sent x i) \<and>
    length (sub_Buffer sub) \<le> eventBuffer \<and> length (sub_Out sub) \<le> eventBuffer \<and>
    (mget (es_Subs x) i = Some sub \<and> length (es_Sent x i) \<le> eventBuffer \<longrightarrow> es_Read x i @ in_flight sub = es_Sent x i)"
  using ev.reach_inv [OF assms(1)] assms(2) by (auto simp: ev_ok_def flow_ok_def)

theorem events_in_order_witness:
  "\<exists>x sub e. mget (es_Subs x) 0 = Some sub \<and> es_Sent x 0 = [e] \<and> ve_Type e = ''started'' \<and> es_Read x 0 @ in_flight sub = [e]"
proof -
  let ?x = "no_subscribers lv_start"
  obtain p1 where p1: "lv_Events demo_hypervisor background (es_Provider ?x) 0 = (Inr 0, p1)" "mget (subscribers p1) 0 \<noteq> None"
    by (simp add: lv_Events_def background_def no_subscribers_def lv_start_def Let_def)
  define y where "y = ?x\<lparr>es_Provider := p1, es_Sent := (es_Sent ?x)(0 := []), es_Read := (es_Read ?x)(0 := [])\<rparr>"
  have y: "ev_step demo_hypervisor ?x EvSubscribe y"
    unfolding y_def by (rule ev_subscribe [OF p1(1)]) (simp_all add: no_subscribers_def)
  obtain p2 s2 where p2: "handleLifecycleEvent demo_hypervisor 0 DOMAIN_EVENT_STARTED '''' (es_Provider y) 0 = (p2, s2)" by force
  note z = ev_callback [OF p2]
  obtain e where e: "announced demo_hypervisor 0 DOMAIN_EVENT_STARTED '''' (es_Provider y) 0 = Some e" "ve_Type e = ''started''"
    by (simp add: announced_def demo_hypervisor_def isManaged_def)
  obtain sub where sub: "mget (subscribers p2) 0 = Some sub"
    using handleLifecycleEvent_announces [OF p2] e(1) p1(2) by (auto simp: mget_emit y_def)
  have r: "reach ?x (ev_step demo_hypervisor) (y\<lparr>es_Provider := p2,
       es_Sent := (\<lambda>i. case announced demo_hypervisor 0 DOMAIN_EVENT_STARTED '''' (es_Provider y) 0 of
          Some e \<Rightarrow> if mget (es_Subs y) i \<noteq> None then es_Sent y i @ [e] else es_Sent y i | None \<Rightarrow> es_Sent y i)\<rparr>)"
    by (rule reach_step [where s = y, OF reach_step [where s = ?x and step = "ev_step demo_hypervisor", OF reach_init y] z])
  have "es_Sent y 0 = []" "mget (es_Subs y) 0 \<noteq> None" using p1(2) by (simp_all add: y_def)
  with events_in_order [OF r, of 0 sub] sub e show ?thesis
    by (intro exI [of _ "y\<lparr>es_Provider := p2,
       es_Sent := (\<lambda>i. case announced demo_hypervisor 0 DOMAIN_EVENT_STARTED '''' (es_Provider y) 0 of
          Some e \<Rightarrow> if mget (es_Subs y) i \<noteq> None then es_Sent y i @ [e] else es_Sent y i | None \<Rightarrow> es_Sent y i)\<rparr>"] exI [of _ sub] exI [of _ e])
      simp
qed

end
