(* ===== verification/Shitnet.thy ===== *)
theory Shitnet
  imports Virt_Types Storage_Release Net_Addr
begin

text \<open>
  The adapter of native IPv4 endpoints (\<open>virt/emulator/shitnet\<close>). The native stack is a third-party
  library and the UDP port an operating-system socket: the calls that the adapter makes are the
  functions of the record \<open>stacks\<close>, over a state \<open>'s\<close> of the rest of the system. Stacks and ports are
  numbers. Calls of the adapter are serialized by its caller; each running endpoint has a goroutine
  that works beside them, in the steps of \<open>worker\<close> below. The mutex of an endpoint makes each of
  these steps atomic.
\<close>

section \<open>Configuration\<close>

datatype Addr = AddrInvalid | AddrV4 "nat list" | AddrV6 string

fun Addr_Is4 :: "Addr \<Rightarrow> bool" where
  "Addr_Is4 (AddrV4 _) = True"
| "Addr_Is4 _ = False"

fun Addr_IsUnspecified :: "Addr \<Rightarrow> bool" where
  "Addr_IsUnspecified (AddrV4 bs) = (bs = [0, 0, 0, 0])"
| "Addr_IsUnspecified (AddrV6 t) = (t = ''::'')"
| "Addr_IsUnspecified AddrInvalid = False"

record sn_Config =
  snc_ID :: string
  snc_Name :: string
  snc_IP :: Addr
  snc_MAC :: "8 word list"
  snc_Local :: AddrPort
  snc_Remote :: AddrPort

text \<open>An error of the native stack comes with whether it is its \<open>ErrInvalidPacket\<close>; an error of a read
  with whether it is a timeout.\<close>

record 's stacks =
  st_New :: "Addr \<Rightarrow> 8 word list \<Rightarrow> 's \<Rightarrow> (gerror + nat) \<times> 's"
  st_Close :: "nat \<Rightarrow> 's \<Rightarrow> 's"
  st_Receive :: "nat \<Rightarrow> 8 word list \<Rightarrow> 's \<Rightarrow> (gerror \<times> bool) option \<times> 's"
  st_PollEvent :: "nat \<Rightarrow> 's \<Rightarrow> (gerror + bool) \<times> 's"
  st_PollTX :: "nat \<Rightarrow> 's \<Rightarrow> (gerror + 8 word list option) \<times> 's"
  pt_NewUDPPort :: "string \<Rightarrow> AddrPort \<Rightarrow> AddrPort \<Rightarrow> 's \<Rightarrow> (gerror + nat) \<times> 's"
  pt_ReadFrame :: "nat \<Rightarrow> 's \<Rightarrow> ((gerror \<times> bool) + 8 word list) \<times> 's"
  pt_WriteFrame :: "nat \<Rightarrow> 8 word list \<Rightarrow> 's \<Rightarrow> gerror option \<times> 's"
  pt_Close :: "nat \<Rightarrow> 's \<Rightarrow> gerror option \<times> 's"
  st_now :: "'s \<Rightarrow> int"

section \<open>Endpoints\<close>

text \<open>Where the goroutine of an endpoint is: at the head of its loop, reading, with a frame to process,
  with frames to write, before closing the port with the failure so far, before recording the failure,
  before closing the \<open>done\<close> channel, and ended.\<close>

datatype worker =
    WHead | WRead | WFrame "8 word list" | WWrite "8 word list list" | WClose "gerror option" | WRecord "gerror option"
  | WSignal | WEnded

text \<open>The fields that \<open>Start\<close> sets together are \<open>None\<close> before the first start: the port, the context of
  the run, whether it was cancelled, and the goroutine, which has closed \<open>done\<close> when it has ended.\<close>

record sn_run =
  sr_Port :: nat
  sr_Context :: Context
  sr_Cancelled :: bool
  sr_Worker :: worker

record sn_endpoint =
  ep_Config :: sn_Config
  ep_Stack :: nat
  ep_State :: NodeState
  ep_Failure :: "gerror option"
  ep_Run :: "sn_run option"

type_synonym Endpoints = "(string, sn_endpoint) gomap"

definition sn_node :: "sn_Config \<Rightarrow> string \<Rightarrow> NodeState \<Rightarrow> Node" where
  "sn_node cfg i st = \<lparr>vn_ID = i, vn_Name = snc_Name cfg, vn_State = st, vn_Console = \<lparr>con_Type = ''none'', con_Host = '''', con_Port = 0\<rparr>,
     vn_Aux = None\<rparr>"

definition sn_valid :: "sn_Config \<Rightarrow> bool" where
  "sn_valid cfg \<longleftrightarrow> \<not> (snc_ID cfg = '''' \<or> \<not> Addr_Is4 (snc_IP cfg) \<or> Addr_IsUnspecified (snc_IP cfg) \<or>
     snc_MAC cfg = replicate 6 0 \<or> bit (hd (snc_MAC cfg)) 0 \<or> snc_Local cfg = NoAddr \<or> snc_Remote cfg = NoAddr \<or>
     \<not> addr_Is4 (snc_Local cfg) \<or> \<not> addr_Is4 (snc_Remote cfg) \<or> addr_Port (snc_Local cfg) = 0 \<or> addr_Port (snc_Remote cfg) = 0)"

definition CreateEndpoint :: "'s stacks \<Rightarrow> Context \<Rightarrow> sn_Config option \<Rightarrow> Endpoints \<Rightarrow> 's \<Rightarrow> (gerror + Node) \<times> Endpoints \<times> 's" where
  "CreateEndpoint N ctx cfg a s =
     (case ctx_Done ctx (st_now N s) of
        Some contextErr \<Rightarrow> (Inl contextErr, a, s)
      | None \<Rightarrow>
          let bad = Inl (shitnet_New ''create endpoint'' shitnet_kind.ErrConfig ''ID, unicast MAC, IPv4 address, and UDP endpoints are required'') in
          (case cfg of
             None \<Rightarrow> (bad, a, s)
           | Some cfg \<Rightarrow>
               if \<not> sn_valid cfg then (bad, a, s)
               else if mget a (snc_ID cfg) \<noteq> None
               then (Inl (shitnet_New ''create endpoint'' shitnet_kind.ErrDuplicate (snc_ID cfg)), a, s)
               else case st_New N (snc_IP cfg) (snc_MAC cfg) s of
                 (Inl createErr, s) \<Rightarrow> (Inl (shitnet_Wrap ''create endpoint'' shitnet_kind.ErrConfig (snc_ID cfg) (Some createErr)), a, s)
               | (Inr stack, s) \<Rightarrow>
                   (case ctx_Done ctx (st_now N s) of
                      Some contextErr \<Rightarrow> (Inl contextErr, a, st_Close N stack s)
                    | None \<Rightarrow>
                        (Inr (sn_node cfg (snc_ID cfg) NodeStopped),
                         mput (snc_ID cfg) \<lparr>ep_Config = cfg, ep_Stack = stack, ep_State = NodeStopped, ep_Failure = None, ep_Run = None\<rparr> a, s))))"

definition sn_lookup :: "'s stacks \<Rightarrow> Context \<Rightarrow> string \<Rightarrow> Endpoints \<Rightarrow> 's \<Rightarrow> gerror + sn_endpoint" where
  "sn_lookup N ctx i a s =
     (case ctx_Done ctx (st_now N s) of
        Some contextErr \<Rightarrow> Inl contextErr
      | None \<Rightarrow>
          (case mget a i of
             None \<Rightarrow> Inl (shitnet_New ''find endpoint'' shitnet_kind.ErrNotFound i)
           | Some node \<Rightarrow> Inr node))"

definition sn_Start :: "'s stacks \<Rightarrow> Context \<Rightarrow> string \<Rightarrow> Endpoints \<Rightarrow> 's \<Rightarrow> gerror option \<times> Endpoints \<times> 's" where
  "sn_Start N ctx i a s =
     (case sn_lookup N ctx i a s of
        Inl lookupErr \<Rightarrow> (Some lookupErr, a, s)
      | Inr node \<Rightarrow>
          if ep_State node = NodeRunning then (None, a, s)
          else if (case ep_Run node of Some run \<Rightarrow> sr_Worker run \<noteq> WEnded | None \<Rightarrow> False)
          then (Some (shitnet_New ''start endpoint'' shitnet_kind.ErrState i), a, s)
          else case pt_NewUDPPort N i (snc_Local (ep_Config node)) (snc_Remote (ep_Config node)) s of
            (Inl portErr, s) \<Rightarrow> (Some (shitnet_Wrap ''start endpoint'' shitnet_kind.ErrNetwork i (Some portErr)), a, s)
          | (Inr port, s) \<Rightarrow>
              (None, mput i (node\<lparr>ep_State := NodeRunning, ep_Failure := None,
                 ep_Run := Some \<lparr>sr_Port = port, sr_Context = ctx, sr_Cancelled = False, sr_Worker = WHead\<rparr>\<rparr>) a, s))"

section \<open>The goroutine of an endpoint\<close>

text \<open>The loops over the notifications and the frames of the native stack; \<open>None\<close> means that the stack
  never runs out of them.\<close>

partial_function (option) drainEvents :: "'s stacks \<Rightarrow> nat \<Rightarrow> 's \<Rightarrow> (gerror option \<times> 's) option" where
  "drainEvents N stack s =
     (case st_PollEvent N stack s of
        (Inl pollErr, s) \<Rightarrow> Some (Some pollErr, s)
      | (Inr available, s) \<Rightarrow> if available then drainEvents N stack s else Some (None, s))"

partial_function (option) drainFrames :: "'s stacks \<Rightarrow> nat \<Rightarrow> 8 word list list \<Rightarrow> 's \<Rightarrow> ((gerror + 8 word list list) \<times> 's) option" where
  "drainFrames N stack frames s =
     (case st_PollTX N stack s of
        (Inl pollErr, s) \<Rightarrow> Some (Inl pollErr, s)
      | (Inr polled, s) \<Rightarrow>
          (case polled of None \<Rightarrow> Some (Inr frames, s) | Some frame \<Rightarrow> drainFrames N stack (frames @ [frame]) s))"

definition drain :: "'s stacks \<Rightarrow> nat \<Rightarrow> 's \<Rightarrow> ((gerror + 8 word list list) \<times> 's) option" where
  "drain N stack s =
     (case drainEvents N stack s of
        None \<Rightarrow> None
      | Some (Some pollErr, s) \<Rightarrow> Some (Inl pollErr, s)
      | Some (None, s) \<Rightarrow> drainFrames N stack [] s)"

text \<open>The frames of one reply are written in one step of the goroutine. In the code \<open>Stop\<close> may close the
  port between two of them; the writes that follow then fail as one after the last does.\<close>

fun writeFrames :: "'s stacks \<Rightarrow> nat \<Rightarrow> 8 word list list \<Rightarrow> 's \<Rightarrow> gerror option \<times> 's" where
  "writeFrames N port [] s = (None, s)"
| "writeFrames N port (frame # frames) s =
     (case pt_WriteFrame N port frame s of
        (Some writeErr, s) \<Rightarrow> (Some writeErr, s)
      | (None, s) \<Rightarrow> writeFrames N port frames s)"

definition run_Done :: "'s stacks \<Rightarrow> sn_run \<Rightarrow> 's \<Rightarrow> bool" where
  "run_Done N run s \<longleftrightarrow> sr_Cancelled run \<or> ctx_Done (sr_Context run) (st_now N s) \<noteq> None"

text \<open>Processing a frame: malformed input is discarded, what the stack answers is drained.\<close>

definition receive :: "'s stacks \<Rightarrow> nat \<Rightarrow> 8 word list \<Rightarrow> 's \<Rightarrow> (worker \<times> 's) option" where
  "receive N stack frame s =
     (case st_Receive N stack frame s of
        (r, s) \<Rightarrow>
          let receiveErr = (case r of None \<Rightarrow> None | Some (e, invalid) \<Rightarrow> if invalid then None else Some e) in
          (case drain N stack s of
             None \<Rightarrow> None
           | Some (Inl drainErr, s) \<Rightarrow> Some (WClose (errors_Join [receiveErr, Some drainErr]), s)
           | Some (Inr frames, s) \<Rightarrow>
               Some (if receiveErr \<noteq> None then WClose (errors_Join [receiveErr, None]) else WWrite frames, s)))"

text \<open>One step of the goroutine: the endpoint after it and the state; \<open>None\<close> if there is none.\<close>

definition setWorker :: "worker \<Rightarrow> sn_run \<Rightarrow> sn_endpoint \<Rightarrow> sn_endpoint" where
  "setWorker w run node = node\<lparr>ep_Run := Some (run\<lparr>sr_Worker := w\<rparr>)\<rparr>"

definition run_step :: "'s stacks \<Rightarrow> sn_endpoint \<Rightarrow> 's \<Rightarrow> (sn_endpoint \<times> 's) option" where
  "run_step N node s =
     (case ep_Run node of
        None \<Rightarrow> None
      | Some run \<Rightarrow>
          (case sr_Worker run of
             WHead \<Rightarrow> Some (setWorker (if run_Done N run s then WClose None else WRead) run node, s)
           | WRead \<Rightarrow>
               (case pt_ReadFrame N (sr_Port run) s of
                  (Inl (readErr, timeout), s) \<Rightarrow> Some (setWorker (if timeout then WHead else WClose (Some readErr)) run node, s)
                | (Inr frame, s) \<Rightarrow> Some (setWorker (if length frame < 14 then WHead else WFrame frame) run node, s))
           | WFrame frame \<Rightarrow> map_option (\<lambda>(w, s). (setWorker w run node, s)) (receive N (ep_Stack node) frame s)
           | WWrite frames \<Rightarrow>
               (case writeFrames N (sr_Port run) frames s of
                  (Some writeErr, s) \<Rightarrow> Some (setWorker (WClose (Some writeErr)) run node, s)
                | (None, s) \<Rightarrow> Some (setWorker WHead run node, s))
           | WClose failure \<Rightarrow>
               (case pt_Close N (sr_Port run) s of
                  (closeErr, s) \<Rightarrow>
                    Some (setWorker (WRecord (if (case closeErr of Some e \<Rightarrow> errors_Is e (OS ErrNetClosed) | None \<Rightarrow> False) then failure
                      else errors_Join [failure, closeErr])) run node, s))
           | WRecord failure \<Rightarrow>
               Some (setWorker WSignal run (node\<lparr>ep_State := NodeStopped, ep_Failure := (if run_Done N run s then None else failure)\<rparr>), s)
           | WSignal \<Rightarrow> Some (setWorker WEnded run node, s)
           | WEnded \<Rightarrow> None))"

section \<open>Stopping and deleting\<close>

definition notClosed :: "gerror option \<Rightarrow> gerror option" where
  "notClosed closeErr = (case closeErr of Some e \<Rightarrow> if errors_Is e (OS ErrNetClosed) then None else Some e | None \<Rightarrow> None)"

text \<open>\<open>Stop\<close> up to its \<open>select\<close>: what it returns already, or the error of closing the port with which it
  waits. Then the results that its \<open>select\<close> may choose in a state.\<close>

definition sn_StopBegin :: "'s stacks \<Rightarrow> Context \<Rightarrow> string \<Rightarrow> Endpoints \<Rightarrow> 's \<Rightarrow> (gerror option + gerror option) \<times> Endpoints \<times> 's" where
  "sn_StopBegin N ctx i a s =
     (case sn_lookup N ctx i a s of
        Inl lookupErr \<Rightarrow> (Inl (Some lookupErr), a, s)
      | Inr node \<Rightarrow>
          (case ep_Run node of
             None \<Rightarrow> (Inl None, a, s)
           | Some run \<Rightarrow>
               (case pt_Close N (sr_Port run) s of
                  (closeErr, s) \<Rightarrow> (Inr (notClosed closeErr), mput i (node\<lparr>ep_Run := Some (run\<lparr>sr_Cancelled := True\<rparr>)\<rparr>) a, s))))"

definition ended :: "sn_endpoint \<Rightarrow> bool" where
  "ended node \<longleftrightarrow> (case ep_Run node of None \<Rightarrow> True | Some run \<Rightarrow> sr_Worker run = WEnded)"

definition sn_StopEnd :: "'s stacks \<Rightarrow> Context \<Rightarrow> string \<Rightarrow> gerror option \<Rightarrow> Endpoints \<Rightarrow> 's \<Rightarrow> gerror option list" where
  "sn_StopEnd N ctx i closeErr a s =
     (if ended (the (mget a i)) then [closeErr] else []) @
     (case ctx_Done ctx (st_now N s) of Some e \<Rightarrow> [errors_Join [closeErr, Some e]] | None \<Rightarrow> [])"

definition sn_Suspend :: "'s stacks \<Rightarrow> Context \<Rightarrow> string \<Rightarrow> Endpoints \<Rightarrow> 's \<Rightarrow> gerror" where
  "sn_Suspend N ctx i a s =
     (case sn_lookup N ctx i a s of Inl lookupErr \<Rightarrow> lookupErr | Inr _ \<Rightarrow> shitnet_New ''suspend endpoint'' shitnet_kind.ErrUnsupported i)"

definition sn_Resume :: "'s stacks \<Rightarrow> Context \<Rightarrow> string \<Rightarrow> Endpoints \<Rightarrow> 's \<Rightarrow> gerror" where
  "sn_Resume N ctx i a s =
     (case sn_lookup N ctx i a s of Inl lookupErr \<Rightarrow> lookupErr | Inr _ \<Rightarrow> shitnet_New ''resume endpoint'' shitnet_kind.ErrUnsupported i)"

definition sn_State :: "'s stacks \<Rightarrow> Context \<Rightarrow> string \<Rightarrow> Endpoints \<Rightarrow> 's \<Rightarrow> NodeState option \<times> gerror option" where
  "sn_State N ctx i a s =
     (case sn_lookup N ctx i a s of
        Inl lookupErr \<Rightarrow> (None, Some lookupErr)
      | Inr node \<Rightarrow>
          (Some (ep_State node),
           case ep_Failure node of
             Some e \<Rightarrow> Some (shitnet_Wrap ''read endpoint state'' shitnet_kind.ErrNetwork i (Some e))
           | None \<Rightarrow> None))"

definition sn_Reload :: "'s stacks \<Rightarrow> Context \<Rightarrow> string \<Rightarrow> Endpoints \<Rightarrow> 's \<Rightarrow> gerror + Node" where
  "sn_Reload N ctx i a s =
     (case sn_State N ctx i a s of
        (_, Some stateErr) \<Rightarrow> Inl stateErr
      | (st, None) \<Rightarrow> Inr (sn_node (ep_Config (the (mget a i))) i (the st)))"

fun sn_reloadAll :: "'s stacks \<Rightarrow> Context \<Rightarrow> string list \<Rightarrow> Endpoints \<Rightarrow> 's \<Rightarrow> gerror + Node list" where
  "sn_reloadAll N ctx [] a s = Inr []"
| "sn_reloadAll N ctx (i # ids) a s =
     (case sn_Reload N ctx i a s of
        Inl reloadErr \<Rightarrow> Inl reloadErr
      | Inr node \<Rightarrow> (case sn_reloadAll N ctx ids a s of Inl e \<Rightarrow> Inl e | Inr nodes \<Rightarrow> Inr (node # nodes)))"

definition sn_List :: "'s stacks \<Rightarrow> Context \<Rightarrow> Endpoints \<Rightarrow> 's \<Rightarrow> gerror + Node list" where
  "sn_List N ctx a s =
     (case ctx_Done ctx (st_now N s) of
        Some contextErr \<Rightarrow> Inl contextErr
      | None \<Rightarrow> sn_reloadAll N ctx (sort (mkeys a)) a s)"

section \<open>The system\<close>

text \<open>The call that is waiting in \<open>Stop\<close>, if any: of \<open>Stop\<close> itself, \<open>Restart\<close>, \<open>Delete\<close>, or \<open>Close\<close> with the
  identifiers still to delete and the failures so far.\<close>

datatype sn_caller = ByStop | ByRestart | ByDelete | ByClose "string list" "gerror list"

record sn_system =
  sy_Nodes :: Endpoints
  sy_Gone :: "sn_endpoint list"
  sy_Waiting :: "(sn_caller \<times> Context \<times> string \<times> gerror option) option"

text \<open>What remains of \<open>Delete\<close> after \<open>Stop\<close> has succeeded. The endpoint leaves the map; its goroutine, if it
  still ran, would go on, so the endpoint is kept in \<open>sy_Gone\<close>.\<close>

definition deleteFinish :: "'s stacks \<Rightarrow> string \<Rightarrow> sn_system \<Rightarrow> 's \<Rightarrow> sn_system \<times> 's" where
  "deleteFinish N i y s =
     (case mget (sy_Nodes y) i of
        Some node \<Rightarrow> (y\<lparr>sy_Nodes := mdel i (sy_Nodes y), sy_Gone := node # sy_Gone y\<rparr>, st_Close N (ep_Stack node) s)
      | None \<Rightarrow> (y, s))"

definition background_ctx :: Context where
  "background_ctx = \<lparr>ctx_Value = (\<lambda>_. None), ctx_Done = (\<lambda>_. None)\<rparr>"

text \<open>What the caller of \<open>Stop\<close> does with its result: the value that the method returns, or \<open>None\<close> if it
  goes on (the loop of \<open>Close\<close> with its next endpoint), and the system.\<close>

definition afterStop :: "'s stacks \<Rightarrow> sn_caller \<Rightarrow> Context \<Rightarrow> string \<Rightarrow> gerror option \<Rightarrow> sn_system \<Rightarrow> 's \<Rightarrow>
    (gerror option + (string list \<times> gerror list)) \<times> sn_system \<times> 's" where
  "afterStop N caller ctx i stopErr y s =
     (let y = y\<lparr>sy_Waiting := None\<rparr> in
      case caller of
        ByStop \<Rightarrow> (Inl stopErr, y, s)
      | ByRestart \<Rightarrow>
          (case stopErr of
             Some e \<Rightarrow> (Inl (Some e), y, s)
           | None \<Rightarrow> (case sn_Start N ctx i (sy_Nodes y) s of (r, a, s) \<Rightarrow> (Inl r, y\<lparr>sy_Nodes := a\<rparr>, s)))
      | ByDelete \<Rightarrow>
          (case stopErr of
             Some e \<Rightarrow> (Inl (Some e), y, s)
           | None \<Rightarrow> (case deleteFinish N i y s of (y, s) \<Rightarrow> (Inl None, y, s)))
      | ByClose ids failures \<Rightarrow>
          (case stopErr of
             Some e \<Rightarrow> (Inr (ids, failures @ [e]), y, s)
           | None \<Rightarrow> (case deleteFinish N i y s of (y, s) \<Rightarrow> (Inr (ids, failures), y, s))))"

text \<open>A method that calls \<open>Stop\<close>: it returns or goes on, or waits.\<close>

definition enterStop :: "'s stacks \<Rightarrow> sn_caller \<Rightarrow> Context \<Rightarrow> string \<Rightarrow> sn_system \<Rightarrow> 's \<Rightarrow>
    (gerror option + (string list \<times> gerror list)) option \<times> sn_system \<times> 's" where
  "enterStop N caller ctx i y s =
     (case sn_StopBegin N ctx i (sy_Nodes y) s of
        (Inl stopErr, a, s) \<Rightarrow> (case afterStop N caller ctx i stopErr (y\<lparr>sy_Nodes := a\<rparr>) s of (r, y, s) \<Rightarrow> (Some r, y, s))
      | (Inr closeErr, a, s) \<Rightarrow> (None, y\<lparr>sy_Nodes := a, sy_Waiting := Some (caller, ctx, i, closeErr)\<rparr>, s))"

text \<open>The loop of \<open>Close\<close>: each endpoint in the map is deleted, until one has to be waited for.\<close>

fun closeLoop :: "'s stacks \<Rightarrow> string list \<Rightarrow> gerror list \<Rightarrow> sn_system \<Rightarrow> 's \<Rightarrow> gerror option option \<times> sn_system \<times> 's" where
  "closeLoop N [] failures y s = (Some (errors_Join (map Some failures)), y, s)"
| "closeLoop N (i # ids) failures y s =
     (if mget (sy_Nodes y) i = None then closeLoop N ids failures y s
      else case enterStop N (ByClose ids failures) background_ctx i y s of
        (None, y, s) \<Rightarrow> (None, y, s)
      | (Some (Inr (_, failures)), y, s) \<Rightarrow> closeLoop N ids failures y s
      | (Some (Inl r), y, s) \<Rightarrow> (Some r, y, s))"

definition sn_Stop :: "'s stacks \<Rightarrow> Context \<Rightarrow> string \<Rightarrow> sn_system \<Rightarrow> 's \<Rightarrow> (gerror option + (string list \<times> gerror list)) option \<times> sn_system \<times> 's" where
  "sn_Stop N ctx i y s = enterStop N ByStop ctx i y s"

definition sn_Restart :: "'s stacks \<Rightarrow> Context \<Rightarrow> string \<Rightarrow> sn_system \<Rightarrow> 's \<Rightarrow> (gerror option + (string list \<times> gerror list)) option \<times> sn_system \<times> 's" where
  "sn_Restart N ctx i y s = enterStop N ByRestart ctx i y s"

definition sn_Delete :: "'s stacks \<Rightarrow> Context \<Rightarrow> string \<Rightarrow> sn_system \<Rightarrow> 's \<Rightarrow> (gerror option + (string list \<times> gerror list)) option \<times> sn_system \<times> 's" where
  "sn_Delete N ctx i y s =
     (if mget (sy_Nodes y) i = None then (Some (Inl (ctx_Done ctx (st_now N s))), y, s) else enterStop N ByDelete ctx i y s)"

definition sn_Close :: "'s stacks \<Rightarrow> sn_system \<Rightarrow> 's \<Rightarrow> gerror option option \<times> sn_system \<times> 's" where
  "sn_Close N y s = closeLoop N (mkeys (sy_Nodes y)) [] y s"

text \<open>The steps of the system: calls while no call waits, goroutines at any time, the end of the wait,
  after which \<open>Close\<close> goes on with its loop, and what happens outside. The label has the result of a call
  that returns, with the method.\<close>

datatype sn_method = MCreate | MStart | MStop | MRestart | MDelete | MClose

fun method_of :: "sn_caller \<Rightarrow> sn_method" where
  "method_of ByStop = MStop"
| "method_of ByRestart = MRestart"
| "method_of ByDelete = MDelete"
| "method_of (ByClose _ _) = MClose"

datatype sn_label = Returned sn_method string "gerror option" | Internal

definition result_label :: "sn_caller \<Rightarrow> string \<Rightarrow> (gerror option + (string list \<times> gerror list)) option \<Rightarrow> sn_label" where
  "result_label caller i r = (case r of Some (Inl e) \<Rightarrow> Returned (method_of caller) i e | _ \<Rightarrow> Internal)"

definition close_label :: "gerror option option \<Rightarrow> sn_label" where
  "close_label r = (case r of Some e \<Rightarrow> Returned MClose '''' e | None \<Rightarrow> Internal)"

inductive sn_step :: "'s stacks \<Rightarrow> ('s \<Rightarrow> 's \<Rightarrow> bool) \<Rightarrow> sn_system \<times> 's \<Rightarrow> sn_label \<Rightarrow> sn_system \<times> 's \<Rightarrow> bool" for N outside where
  sn_create: "sy_Waiting y = None \<Longrightarrow> CreateEndpoint N ctx cfg (sy_Nodes y) s = (r, a, s') \<Longrightarrow> sn_step N outside (y, s) Internal (y\<lparr>sy_Nodes := a\<rparr>, s')"
| sn_start: "sy_Waiting y = None \<Longrightarrow> sn_Start N ctx i (sy_Nodes y) s = (e, a, s') \<Longrightarrow>
     sn_step N outside (y, s) (Returned MStart i e) (y\<lparr>sy_Nodes := a\<rparr>, s')"
| sn_stop: "sy_Waiting y = None \<Longrightarrow> sn_Stop N ctx i y s = (r, y', s') \<Longrightarrow> sn_step N outside (y, s) (result_label ByStop i r) (y', s')"
| sn_restart: "sy_Waiting y = None \<Longrightarrow> sn_Restart N ctx i y s = (r, y', s') \<Longrightarrow> sn_step N outside (y, s) (result_label ByRestart i r) (y', s')"
| sn_delete: "sy_Waiting y = None \<Longrightarrow> sn_Delete N ctx i y s = (r, y', s') \<Longrightarrow> sn_step N outside (y, s) (result_label ByDelete i r) (y', s')"
| sn_close: "sy_Waiting y = None \<Longrightarrow> sn_Close N y s = (r, y', s') \<Longrightarrow> sn_step N outside (y, s) (close_label r) (y', s')"
| sn_wake: "sy_Waiting y = Some (caller, ctx, i, closeErr) \<Longrightarrow> stopErr \<in> set (sn_StopEnd N ctx i closeErr (sy_Nodes y) s) \<Longrightarrow>
     afterStop N caller ctx i stopErr y s = (Inl e, y', s') \<Longrightarrow> sn_step N outside (y, s) (Returned (method_of caller) i e) (y', s')"
| sn_wake_close: "sy_Waiting y = Some (caller, ctx, i, closeErr) \<Longrightarrow> stopErr \<in> set (sn_StopEnd N ctx i closeErr (sy_Nodes y) s) \<Longrightarrow>
     afterStop N caller ctx i stopErr y s = (Inr (ids, failures), y1, s1) \<Longrightarrow> closeLoop N ids failures y1 s1 = (r, y', s') \<Longrightarrow>
     sn_step N outside (y, s) (close_label r) (y', s')"
| sn_worker: "mget (sy_Nodes y) i = Some node \<Longrightarrow> run_step N node s = Some (node', s') \<Longrightarrow>
     sn_step N outside (y, s) Internal (y\<lparr>sy_Nodes := mput i node' (sy_Nodes y)\<rparr>, s')"
| sn_orphan: "sy_Gone y = xs @ node # zs \<Longrightarrow> run_step N node s = Some (node', s') \<Longrightarrow>
     sn_step N outside (y, s) Internal (y\<lparr>sy_Gone := xs @ node' # zs\<rparr>, s')"
| sn_outside: "outside s s' \<Longrightarrow> sn_step N outside (y, s) Internal (y, s')"

end
