(* ===== verification/Shitnet_Properties.thy ===== *)
theory Shitnet_Properties
  imports Shitnet "HOL-Library.Multiset"
begin

text \<open>
  What the adapter of native endpoints promises under every interleaving of its calls with the
  goroutines of the endpoints: a native stack is never used after it was closed, nor closed twice; no
  socket outlives the goroutine that serves it; a cancelled goroutine comes to its end. The locale
  \<open>stacks_account\<close> says what a call of the native library does to the accounts of stacks and sockets; it
  is interpreted on any library that is observed through a log.
\<close>

section \<open>Endpoints, their stacks and their sockets\<close>

fun holds_port :: "worker \<Rightarrow> bool" where
  "holds_port (WRecord _) = False"
| "holds_port WSignal = False"
| "holds_port WEnded = False"
| "holds_port _ = True"

definition own_ports :: "sn_endpoint \<Rightarrow> nat set" where
  "own_ports node = (case ep_Run node of Some run \<Rightarrow> if holds_port (sr_Worker run) then {sr_Port run} else {} | None \<Rightarrow> {})"

text \<open>The sockets of the goroutines that have yet to close them, and the stacks of the endpoints.\<close>

definition serving :: "Endpoints \<Rightarrow> nat set" where
  "serving a = {p. \<exists>i node. mget a i = Some node \<and> p \<in> own_ports node}"

definition stacks_of :: "Endpoints \<Rightarrow> nat multiset" where
  "stacks_of a = mset (map (ep_Stack \<circ> snd) a)"

lemma serving_mput: "serving a - own_ports (the (mget a i)) \<subseteq> serving (mput i n a)" "own_ports n \<subseteq> serving (mput i n a)"
  by (auto simp: serving_def) (metis option.sel)

lemma serving_mput_new: "mget a i = None \<Longrightarrow> serving a \<subseteq> serving (mput i n a)"
  by (auto simp: serving_def) (metis option.distinct(1))

lemma serving_mdel: "serving a - own_ports (the (mget a i)) \<subseteq> serving (mdel i a)"
  by (auto simp: serving_def) (metis option.sel)

lemma stacks_of_mput: "mget a i = Some n \<Longrightarrow> ep_Stack n' = ep_Stack n \<Longrightarrow> stacks_of (mput i n' a) = stacks_of a"
  unfolding stacks_of_def mput_def by (induction a) auto

lemma stacks_of_mput_new: "mget a i = None \<Longrightarrow> stacks_of (mput i n a) = add_mset (ep_Stack n) (stacks_of a)"
  by (simp add: mput_new stacks_of_def)

lemma stacks_of_mem: "mget a i = Some n \<Longrightarrow> ep_Stack n \<in># stacks_of a"
  unfolding stacks_of_def by (auto dest!: map_of_SomeD intro: rev_image_eqI)

lemma stacks_of_mdel: "mwf a \<Longrightarrow> mget a i = Some n \<Longrightarrow> stacks_of (mdel i a) = stacks_of a - {#ep_Stack n#}"
proof (induction a)
  case (Cons p a)
  obtain j m where p: "p = (j, m)" by force
  have w: "mwf a" "j \<notin> fst ` set a" using Cons.prems(1) p by (auto simp: mwf_def mkeys_def)
  show ?case
  proof (cases "j = i")
    case True
    then have "mdel i a = a" using w(2) unfolding mdel_def by (simp add: delete_idem)
    then show ?thesis using True Cons.prems(2) p by (simp add: stacks_of_def mdel_def)
  next
    case False
    then have "mget a i = Some n" using Cons.prems(2) p by simp
    with Cons.IH w(1) False p stacks_of_mem [OF this] show ?thesis by (auto simp: stacks_of_def mdel_def)
  qed
qed simp

lemma ended_no_port: "ended n \<Longrightarrow> own_ports n = {}"
  by (auto simp: ended_def own_ports_def split: option.splits)

lemma ended_no_step: "ended n \<Longrightarrow> run_step N n s = None"
  by (auto simp: ended_def run_step_def split: option.splits)

section \<open>The outcomes of the calls\<close>

lemma Create_cases:
  assumes "CreateEndpoint M ctx cfg a0 s = (r, a, s')"
  obtains (refused) "a = a0" "s' = s"
    | (failed) c :: sn_Config and e where "a = a0" "st_New M (snc_IP c) (snc_MAC c) s = (Inl e, s')"
    | (undone) c :: sn_Config and k t where "a = a0" "st_New M (snc_IP c) (snc_MAC c) s = (Inr k, t)" "s' = st_Close M k t"
    | (created) c :: sn_Config and k n where "mget a0 (snc_ID c) = None" "st_New M (snc_IP c) (snc_MAC c) s = (Inr k, s')" "a = mput (snc_ID c) n a0" "ep_Stack n = k"
proof (cases "\<exists>c. cfg = Some c \<and> ctx_Done ctx (st_now M s) = None \<and> sn_valid c \<and> mget a0 (snc_ID c) = None")
  case True
  then obtain c where c: "cfg = Some c" "ctx_Done ctx (st_now M s) = None" "sn_valid c" "mget a0 (snc_ID c) = None" by blast
  obtain q t where q: "st_New M (snc_IP c) (snc_MAC c) s = (q, t)" by force
  show ?thesis
  proof (cases q)
    case (Inl e)
    with assms c q show ?thesis by (intro failed [of c e]) (auto simp: CreateEndpoint_def Let_def)
  next
    case (Inr k)
    show ?thesis
    proof (cases "ctx_Done ctx (st_now M t)")
      case None
      with assms c q Inr show ?thesis by (intro created [of c k]) (auto simp: CreateEndpoint_def Let_def)
    next
      case (Some e)
      with assms c q Inr show ?thesis by (intro undone [of c k]) (auto simp: CreateEndpoint_def Let_def)
    qed
  qed
next
  case False
  with assms show ?thesis by (intro refused) (auto simp: CreateEndpoint_def Let_def split: option.splits if_splits)
qed

lemma StopBegin_cases:
  assumes "sn_StopBegin M ctx i a0 s = (r, a, s')"
  obtains (returns) e where "r = Inl e" "a = a0" "s' = s" "e = None \<Longrightarrow> \<forall>n. mget a i = Some n \<longrightarrow> ended n"
    | (waits) n run e f where "r = Inr f" "mget a0 i = Some n" "ep_Run n = Some run" "pt_Close M (sr_Port run) s = (e, s')"
        "a = mput i (n\<lparr>ep_Run := Some (run\<lparr>sr_Cancelled := True\<rparr>)\<rparr>) a0"
proof (cases "sn_lookup M ctx i a0 s")
  case (Inl e)
  with assms show ?thesis by (intro returns [of "Some e"]) (simp_all add: sn_StopBegin_def)
next
  case (Inr n)
  then have n: "mget a0 i = Some n" by (auto simp: sn_lookup_def split: option.splits)
  show ?thesis
  proof (cases "ep_Run n")
    case None
    with assms Inr n show ?thesis by (intro returns [of None]) (auto simp: sn_StopBegin_def ended_def)
  next
    case (Some run)
    obtain e t where e: "pt_Close M (sr_Port run) s = (e, t)" by force
    with assms Inr n Some show ?thesis by (intro waits [of "notClosed e" n run e]) (simp_all add: sn_StopBegin_def)
  qed
qed

lemma StopEnd_ended:
  "stopErr \<in> set (sn_StopEnd M ctx i closeErr a s) \<Longrightarrow> stopErr = None \<Longrightarrow> \<forall>n. mget a i = Some n \<longrightarrow> ended n"
  by (auto simp: sn_StopEnd_def errors_Join_def split: option.splits if_splits)

section \<open>Accounts of stacks and sockets\<close>

text \<open>\<open>open\<close> are the stacks that exist, \<open>misuse\<close> says whether a stack was used or closed that does not
  exist, \<open>ports\<close> are the sockets that are open.\<close>

locale stacks_account =
  fixes N :: "'s stacks"
    and opened :: "'s \<Rightarrow> nat multiset"
    and misuse :: "'s \<Rightarrow> bool"
    and ports :: "'s \<Rightarrow> nat set"
  assumes new_acc: "st_New N ip mac s = (r, s') \<Longrightarrow> misuse s' = misuse s \<and> ports s' = ports s \<and>
      opened s' = opened s + (case r of Inr k \<Rightarrow> {#k#} | Inl _ \<Rightarrow> {#})"
    and close_acc: "opened (st_Close N k s) = opened s - {#k#} \<and> ports (st_Close N k s) = ports s \<and>
      misuse (st_Close N k s) = (misuse s \<or> k \<notin># opened s)"
    and receive_acc: "st_Receive N k f s = (v, s') \<Longrightarrow> opened s' = opened s \<and> ports s' = ports s \<and> misuse s' = (misuse s \<or> k \<notin># opened s)"
    and event_acc: "st_PollEvent N k s = (b, s') \<Longrightarrow> opened s' = opened s \<and> ports s' = ports s \<and> misuse s' = (misuse s \<or> k \<notin># opened s)"
    and tx_acc: "st_PollTX N k s = (x, s') \<Longrightarrow> opened s' = opened s \<and> ports s' = ports s \<and> misuse s' = (misuse s \<or> k \<notin># opened s)"
    and port_acc: "pt_NewUDPPort N i l m s = (r, s') \<Longrightarrow> opened s' = opened s \<and> misuse s' = misuse s \<and>
      ports s' = ports s \<union> (case r of Inr p \<Rightarrow> {p} | Inl _ \<Rightarrow> {})"
    and read_acc: "pt_ReadFrame N p s = (g, s') \<Longrightarrow> opened s' = opened s \<and> ports s' = ports s \<and> misuse s' = misuse s"
    and write_acc: "pt_WriteFrame N p f s = (e, s') \<Longrightarrow> opened s' = opened s \<and> ports s' = ports s \<and> misuse s' = misuse s"
    and pclose_acc: "pt_Close N p s = (e, s') \<Longrightarrow> opened s' = opened s \<and> ports s' = ports s - {p} \<and> misuse s' = misuse s"
begin

text \<open>Using a stack that exists changes nothing in the accounts.\<close>

definition using_stack :: "nat \<Rightarrow> 's \<Rightarrow> 's \<Rightarrow> bool" where
  "using_stack k s s' \<longleftrightarrow> opened s' = opened s \<and> ports s' = ports s \<and> (misuse s' \<longrightarrow> misuse s \<or> k \<notin># opened s)"

lemma using_stack_trans: "using_stack k s t \<Longrightarrow> using_stack k t u \<Longrightarrow> using_stack k s u"
  by (auto simp: using_stack_def)

lemma drainEvents_acc: "drainEvents M k s = Some r \<Longrightarrow> M = N \<longrightarrow> using_stack k s (snd r)"
proof (erule drainEvents.raw_induct [where P = "\<lambda>M k s r. M = N \<longrightarrow> using_stack k s (snd r)", rotated], rule impI)
  fix loop and M :: "'s stacks" and k s r
  assume IH: "\<And>M k s r. loop M k s = Some r \<Longrightarrow> M = N \<longrightarrow> using_stack k s (snd r)" and "M = N"
    and run: "(case st_PollEvent M k s of (Inl pollErr, s) \<Rightarrow> Some (Some pollErr, s)
      | (Inr available, s) \<Rightarrow> if available then loop M k s else Some (None, s)) = Some r"
  obtain b t where b: "st_PollEvent N k s = (b, t)" by force
  have t: "using_stack k s t" using event_acc [OF b] by (auto simp: using_stack_def)
  have "loop N k t = Some r \<Longrightarrow> using_stack k t (snd r)" using IH by blast
  with run b t \<open>M = N\<close> show "using_stack k s (snd r)"
    by (auto split: sum.splits if_splits intro: using_stack_trans)
qed

lemma drainFrames_acc: "drainFrames M k fs s = Some r \<Longrightarrow> M = N \<longrightarrow> using_stack k s (snd r)"
proof (erule drainFrames.raw_induct [where P = "\<lambda>M k fs s r. M = N \<longrightarrow> using_stack k s (snd r)", rotated], rule impI)
  fix loop and M :: "'s stacks" and k fs s r
  assume IH: "\<And>M k fs s r. loop M k fs s = Some r \<Longrightarrow> M = N \<longrightarrow> using_stack k s (snd r)" and "M = N"
    and run: "(case st_PollTX M k s of (Inl pollErr, s) \<Rightarrow> Some (Inl pollErr, s)
      | (Inr polled, s) \<Rightarrow> (case polled of None \<Rightarrow> Some (Inr fs, s) | Some frame \<Rightarrow> loop M k (fs @ [frame]) s)) = Some r"
  obtain b t where b: "st_PollTX N k s = (b, t)" by force
  have t: "using_stack k s t" using tx_acc [OF b] by (auto simp: using_stack_def)
  have "loop N k gs t = Some r \<Longrightarrow> using_stack k t (snd r)" for gs using IH by blast
  with run b t \<open>M = N\<close> show "using_stack k s (snd r)"
    by (auto split: sum.splits option.splits intro: using_stack_trans)
qed

lemma receive_step:
  assumes "receive N k frame s = Some (w, s')"
  shows "using_stack k s s'"
proof -
  obtain v t where v: "st_Receive N k frame s = (v, t)" by force
  have t: "using_stack k s t" using receive_acc [OF v] by (auto simp: using_stack_def)
  obtain d u where d: "drain N k t = Some (d, u)" "s' = u"
    using assms v by (auto simp: receive_def Let_def split: option.splits sum.splits)
  have "using_stack k t u"
    using d(1) drainEvents_acc drainFrames_acc unfolding drain_def
    by (fastforce split: option.splits prod.splits intro: using_stack_trans)
  with t d(2) using_stack_trans show ?thesis by blast
qed

lemma writeFrames_acc: "writeFrames N p fs s = (e, s') \<Longrightarrow> opened s' = opened s \<and> ports s' = ports s \<and> misuse s' = misuse s"
  by (induction fs arbitrary: s) (auto dest!: write_acc split: prod.splits option.splits)

lemma run_step_acc:
  assumes "run_step N n s = Some (n', s')"
  shows "ep_Stack n' = ep_Stack n \<and> opened s' = opened s \<and> (misuse s' \<longrightarrow> misuse s \<or> ep_Stack n \<notin># opened s) \<and>
    ports s' \<subseteq> ports s \<and> own_ports n \<inter> ports s' \<subseteq> own_ports n'"
proof -
  obtain run where r: "ep_Run n = Some run" using assms by (cases "ep_Run n") (auto simp: run_step_def)
  show ?thesis
  proof (cases "sr_Worker run")
    case WRead
    obtain g t where g: "pt_ReadFrame N (sr_Port run) s = (g, t)" by force
    with assms r WRead read_acc [OF g] show ?thesis
      by (auto simp: run_step_def setWorker_def own_ports_def split: sum.splits)
  next
    case (WFrame frame)
    with assms r obtain w where "receive N (ep_Stack n) frame s = Some (w, s')" "n' = setWorker w run n"
      by (auto simp: run_step_def)
    moreover from this(1) have "holds_port w" by (auto simp: receive_def Let_def split: option.splits sum.splits prod.splits if_splits)
    ultimately show ?thesis using r WFrame receive_step by (auto simp: using_stack_def setWorker_def own_ports_def)
  next
    case (WWrite frames)
    obtain e t where e: "writeFrames N (sr_Port run) frames s = (e, t)" by force
    with assms r WWrite writeFrames_acc [OF e] show ?thesis
      by (auto simp: run_step_def setWorker_def own_ports_def split: option.splits)
  next
    case (WClose failure)
    obtain e t where e: "pt_Close N (sr_Port run) s = (e, t)" by force
    with assms r WClose obtain f where "s' = t" "n' = setWorker (WRecord f) run n" by (auto simp: run_step_def)
    with r WClose pclose_acc [OF e] show ?thesis by (auto simp: setWorker_def own_ports_def)
  next
    case WHead
    with assms r have "s' = s" "n' = setWorker (if run_Done N run s then WClose None else WRead) run n" by (auto simp: run_step_def)
    with r WHead show ?thesis by (auto simp: setWorker_def own_ports_def)
  next
    case (WRecord failure)
    with assms r have "s' = s" "ep_Stack n' = ep_Stack n" by (auto simp: run_step_def setWorker_def)
    with r WRecord show ?thesis by (simp add: own_ports_def)
  next
    case WSignal
    with assms r have "s' = s" "ep_Stack n' = ep_Stack n" by (auto simp: run_step_def setWorker_def)
    with r WSignal show ?thesis by (simp add: own_ports_def)
  next
    case WEnded
    with assms r show ?thesis by (simp add: run_step_def)
  qed
qed

section \<open>The invariant\<close>

definition sn_ok :: "sn_system \<times> 's \<Rightarrow> bool" where
  "sn_ok = (\<lambda>(y, s). mwf (sy_Nodes y) \<and> opened s = stacks_of (sy_Nodes y) \<and> \<not> misuse s \<and> ports s \<subseteq> serving (sy_Nodes y) \<and>
     (\<forall>node \<in> set (sy_Gone y). ended node) \<and>
     (\<forall>c ctx i e. sy_Waiting y = Some (c, ctx, i, e) \<longrightarrow> mget (sy_Nodes y) i \<noteq> None))"

lemma sn_ok_update:
  assumes "sn_ok (y, s)" "mget (sy_Nodes y) i = Some n" "ep_Stack n' = ep_Stack n" "opened s' = opened s"
    "misuse s' \<longrightarrow> misuse s \<or> ep_Stack n \<notin># opened s" "ports s' \<subseteq> ports s \<union> own_ports n'" "own_ports n \<inter> ports s' \<subseteq> own_ports n'"
  shows "sn_ok (y\<lparr>sy_Nodes := mput i n' (sy_Nodes y)\<rparr>, s')"
proof -
  have "ports s \<subseteq> serving (sy_Nodes y)" "the (mget (sy_Nodes y) i) = n" using assms(1,2) by (simp_all add: sn_ok_def)
  then have "ports s' \<subseteq> serving (mput i n' (sy_Nodes y))"
    using serving_mput [where a = "sy_Nodes y" and i = i and n = n'] assms(6,7) by blast
  with assms stacks_of_mput [OF assms(2,3)] stacks_of_mem [OF assms(2)] show ?thesis by (auto simp: sn_ok_def)
qed

lemma sn_ok_same: "sn_ok (y, s) \<Longrightarrow> sy_Nodes y' = sy_Nodes y \<Longrightarrow> sy_Gone y' = sy_Gone y \<Longrightarrow>
    (\<And>c ctx i e. sy_Waiting y' = Some (c, ctx, i, e) \<Longrightarrow> mget (sy_Nodes y) i \<noteq> None) \<Longrightarrow> sn_ok (y', s)"
  by (auto simp: sn_ok_def)

lemma worker_ok:
  "sn_ok (y, s) \<Longrightarrow> mget (sy_Nodes y) i = Some n \<Longrightarrow> run_step N n s = Some (n', s') \<Longrightarrow> sn_ok (y\<lparr>sy_Nodes := mput i n' (sy_Nodes y)\<rparr>, s')"
  by (rule sn_ok_update) (use run_step_acc in blast)+

lemma Create_ok:
  assumes "sn_ok (y, s)" "CreateEndpoint N ctx cfg (sy_Nodes y) s = (r, a, s')"
  shows "sn_ok (y\<lparr>sy_Nodes := a\<rparr>, s')"
  using assms(2)
proof (cases rule: Create_cases)
  case refused
  with assms(1) show ?thesis by (simp add: sn_ok_def)
next
  case (failed c e)
  with assms(1) new_acc [OF failed(2)] show ?thesis by (simp add: sn_ok_def)
next
  case (undone c k t)
  with assms(1) new_acc [OF undone(2)] close_acc [of k t] show ?thesis by (simp add: sn_ok_def)
next
  case (created c k n)
  have "ports s' \<subseteq> serving a" using assms(1) new_acc [OF created(2)] serving_mput_new [OF created(1)] created(3) by (auto simp: sn_ok_def)
  with assms(1) new_acc [OF created(2)] created show ?thesis by (auto simp: sn_ok_def stacks_of_mput_new)
qed

lemma Start_ok:
  assumes "sn_ok (y, s)" "sn_Start N ctx i (sy_Nodes y) s = (e, a, s')"
  shows "sn_ok (y\<lparr>sy_Nodes := a\<rparr>, s')"
proof (cases "\<exists>n p. mget (sy_Nodes y) i = Some n \<and> ended n \<and> pt_NewUDPPort N i (snc_Local (ep_Config n)) (snc_Remote (ep_Config n)) s = (Inr p, s') \<and>
    a = mput i (n\<lparr>ep_State := NodeRunning, ep_Failure := None, ep_Run := Some \<lparr>sr_Port = p, sr_Context = ctx, sr_Cancelled = False, sr_Worker = WHead\<rparr>\<rparr>) (sy_Nodes y)")
  case True
  then obtain n p where n: "mget (sy_Nodes y) i = Some n" "ended n"
    "pt_NewUDPPort N i (snc_Local (ep_Config n)) (snc_Remote (ep_Config n)) s = (Inr p, s')"
    "a = mput i (n\<lparr>ep_State := NodeRunning, ep_Failure := None, ep_Run := Some \<lparr>sr_Port = p, sr_Context = ctx, sr_Cancelled = False, sr_Worker = WHead\<rparr>\<rparr>) (sy_Nodes y)"
    by blast
  show ?thesis unfolding n(4)
    by (rule sn_ok_update [OF assms(1) n(1)]) (use port_acc [OF n(3)] ended_no_port [OF n(2)] in \<open>auto simp: own_ports_def\<close>)
next
  case False
  have "a = sy_Nodes y \<and> (s' = s \<or> (\<exists>l m e. pt_NewUDPPort N i l m s = (Inl e, s')))"
    using assms(2) False
    by (auto simp: sn_Start_def sn_lookup_def ended_def split: option.splits if_splits prod.splits sum.splits)
  with assms(1) show ?thesis by (auto simp: sn_ok_def dest!: port_acc)
qed


lemma StopBegin_ok:
  assumes "sn_ok (y, s)" "sn_StopBegin N ctx i (sy_Nodes y) s = (r, a, s')"
  shows "sn_ok (y\<lparr>sy_Nodes := a\<rparr>, s') \<and> (\<forall>closeErr. r = Inr closeErr \<longrightarrow> mget a i \<noteq> None) \<and>
    (r = Inl None \<longrightarrow> (\<forall>n. mget a i = Some n \<longrightarrow> ended n))"
  using assms(2)
proof (cases rule: StopBegin_cases)
  case (returns e)
  with assms(1) show ?thesis by auto
next
  case (waits n run e f)
  have "sn_ok (y\<lparr>sy_Nodes := a\<rparr>, s')" unfolding waits(5)
    by (rule sn_ok_update [OF assms(1) waits(2)]) (use waits(3) pclose_acc [OF waits(4)] in \<open>auto simp: own_ports_def\<close>)
  with waits(1,5) show ?thesis by simp
qed

lemma deleteFinish_ok:
  assumes "sn_ok (y, s)" "sy_Waiting y = None" "\<And>n. mget (sy_Nodes y) i = Some n \<Longrightarrow> ended n" "deleteFinish N i y s = (y', s')"
  shows "sn_ok (y', s') \<and> sy_Waiting y' = None"
proof (cases "mget (sy_Nodes y) i")
  case None
  with assms show ?thesis by (simp add: deleteFinish_def)
next
  case (Some n)
  have p: "serving (sy_Nodes y) \<subseteq> serving (mdel i (sy_Nodes y))"
    using serving_mdel [of "sy_Nodes y" i] ended_no_port [OF assms(3) [OF Some]] Some by simp
  have w: "mwf (sy_Nodes y)" and op: "opened s = stacks_of (sy_Nodes y)" using assms(1) by (simp_all add: sn_ok_def)
  have "mwf (mdel i (sy_Nodes y))" using w by simp
  moreover have "ep_Stack n \<in># opened s" using stacks_of_mem [OF Some] op by simp
  moreover have "y' = y\<lparr>sy_Nodes := mdel i (sy_Nodes y), sy_Gone := n # sy_Gone y\<rparr>" "s' = st_Close N (ep_Stack n) s"
    using assms(4) Some by (simp_all add: deleteFinish_def)
  ultimately show ?thesis
    using assms(1,2) assms(3) [OF Some] close_acc [of "ep_Stack n" s] p stacks_of_mdel [OF w Some] op by (auto simp: sn_ok_def)
qed

lemma afterStop_ok:
  assumes "sn_ok (y, s)" "stopErr = None \<Longrightarrow> \<forall>n. mget (sy_Nodes y) i = Some n \<longrightarrow> ended n" "afterStop N caller ctx i stopErr y s = (r, y', s')"
  shows "sn_ok (y', s') \<and> sy_Waiting y' = None"
proof -
  let ?y = "y\<lparr>sy_Waiting := None\<rparr>"
  have y: "sn_ok (?y, s)" by (rule sn_ok_same [OF assms(1)]) simp_all
  have del: "stopErr = None \<Longrightarrow> deleteFinish N i ?y s = (y2, s2) \<Longrightarrow> sn_ok (y2, s2) \<and> sy_Waiting y2 = None" for y2 s2
    by (rule deleteFinish_ok [OF y]) (use assms(2) in auto)
  have start: "sn_Start N ctx i (sy_Nodes ?y) s = (e, a, s2) \<Longrightarrow> sn_ok (?y\<lparr>sy_Nodes := a\<rparr>, s2) \<and> sy_Waiting (?y\<lparr>sy_Nodes := a\<rparr>) = None" for e a s2
    using Start_ok [OF y] by simp
  show ?thesis
  proof (cases stopErr)
    case (Some e)
    with assms(3) y show ?thesis by (auto simp: afterStop_def Let_def split: sn_caller.splits)
  next
    case None
    with assms(3) y del start show ?thesis by (auto simp: afterStop_def Let_def split: sn_caller.splits prod.splits)
  qed
qed

lemma enterStop_ok:
  assumes "sn_ok (y, s)" "enterStop N caller ctx i y s = (r, y', s')"
  shows "sn_ok (y', s')"
proof -
  obtain q a t where q: "sn_StopBegin N ctx i (sy_Nodes y) s = (q, a, t)" by (metis prod_cases3)
  have b: "sn_ok (y\<lparr>sy_Nodes := a\<rparr>, t)" "\<And>closeErr. q = Inr closeErr \<Longrightarrow> mget a i \<noteq> None"
    "q = Inl None \<Longrightarrow> \<forall>n. mget a i = Some n \<longrightarrow> ended n"
    using StopBegin_ok [OF assms(1) q] by auto
  show ?thesis
  proof (cases q)
    case (Inl e)
    obtain r2 y2 s2 where r2: "afterStop N caller ctx i e (y\<lparr>sy_Nodes := a\<rparr>) t = (r2, y2, s2)" by (metis prod_cases3)
    have "sn_ok (y2, s2)" by (rule conjunct1 [OF afterStop_ok [OF b(1) _ r2]]) (use b(3) Inl in simp)
    with assms(2) q Inl r2 show ?thesis by (simp add: enterStop_def)
  next
    case (Inr closeErr)
    have "sn_ok (y\<lparr>sy_Nodes := a, sy_Waiting := Some (caller, ctx, i, closeErr)\<rparr>, t)"
      by (rule sn_ok_same [OF b(1)]) (use b(2) Inr in auto)
    with assms(2) q Inr show ?thesis by (simp add: enterStop_def)
  qed
qed

lemma closeLoop_ok: "sn_ok (y, s) \<Longrightarrow> closeLoop N ids failures y s = (r, y', s') \<Longrightarrow> sn_ok (y', s')"
proof (induction ids arbitrary: failures y s)
  case (Cons i ids)
  show ?case
  proof (cases "mget (sy_Nodes y) i = None")
    case True
    with Cons show ?thesis by simp
  next
    case False
    obtain q y2 s2 where q: "enterStop N (ByClose ids failures) background_ctx i y s = (q, y2, s2)" by (metis prod_cases3)
    have "sn_ok (y2, s2)" using enterStop_ok [OF Cons.prems(1) q] .
    with Cons.prems(2) False q Cons.IH show ?thesis by (auto split: option.splits sum.splits)
  qed
qed simp

lemma sn_step_ok:
  assumes "sn_step N outside (y, s) l (y', s')" "sn_ok (y, s)"
    and out: "\<And>t u. outside t u \<Longrightarrow> opened u = opened t \<and> misuse u = misuse t \<and> ports u \<subseteq> ports t"
  shows "sn_ok (y', s')"
  using assms(1)
proof cases
  case (sn_create ctx cfg r a)
  then show ?thesis using Create_ok [OF assms(2)] by simp
next
  case (sn_start ctx i e a)
  then show ?thesis using Start_ok [OF assms(2)] by simp
next
  case (sn_stop ctx i r)
  then show ?thesis using enterStop_ok [OF assms(2)] by (simp add: sn_Stop_def)
next
  case (sn_restart ctx i r)
  then show ?thesis using enterStop_ok [OF assms(2)] by (simp add: sn_Restart_def)
next
  case (sn_delete ctx i r)
  then show ?thesis using enterStop_ok [OF assms(2)] assms(2) by (auto simp: sn_Delete_def split: if_splits)
next
  case (sn_close r)
  then show ?thesis using closeLoop_ok [OF assms(2)] by (simp add: sn_Close_def)
next
  case (sn_wake caller ctx i closeErr stopErr e)
  then show ?thesis using afterStop_ok [OF assms(2) StopEnd_ended [OF sn_wake(3)] sn_wake(4)] by simp
next
  case (sn_wake_close caller ctx i closeErr stopErr ids failures y1 s1 r)
  have "sn_ok (y1, s1)" using afterStop_ok [OF assms(2) StopEnd_ended [OF sn_wake_close(3)] sn_wake_close(4)] by simp
  then show ?thesis using closeLoop_ok sn_wake_close(5) by blast
next
  case (sn_worker i node node')
  then show ?thesis using worker_ok [OF assms(2)] by simp
next
  case (sn_orphan xs node zs node')
  then have "ended node" using assms(2) by (simp add: sn_ok_def)
  then show ?thesis using sn_orphan ended_no_step [of node N s] by simp
next
  case sn_outside
  then show ?thesis using out assms(2) by (auto simp: sn_ok_def)
qed

end

section \<open>Observing any native library\<close>

record 's observed_log =
  ob_state :: 's
  ob_stacks :: "nat multiset"
  ob_misuse :: bool
  ob_ports :: "nat set"

definition ob_plain :: "'r \<times> 's \<Rightarrow> 's observed_log \<Rightarrow> 'r \<times> 's observed_log" where
  "ob_plain r l = (fst r, l\<lparr>ob_state := snd r\<rparr>)"

definition ob_use :: "nat \<Rightarrow> 's observed_log \<Rightarrow> 's observed_log" where
  "ob_use k l = l\<lparr>ob_misuse := (ob_misuse l \<or> k \<notin># ob_stacks l)\<rparr>"

text \<open>A library with a log of the stacks that exist, of whether one was used or closed that does not
  exist, and of the sockets that are open.\<close>

definition observed :: "'s stacks \<Rightarrow> 's observed_log stacks" where
  "observed N =
     \<lparr>st_New = (\<lambda>ip mac l. case st_New N ip mac (ob_state l) of
        (Inr k, s) \<Rightarrow> (Inr k, l\<lparr>ob_state := s, ob_stacks := add_mset k (ob_stacks l)\<rparr>) | (Inl e, s) \<Rightarrow> (Inl e, l\<lparr>ob_state := s\<rparr>)),
      st_Close = (\<lambda>k l. (ob_use k l)\<lparr>ob_state := st_Close N k (ob_state l), ob_stacks := ob_stacks l - {#k#}\<rparr>),
      st_Receive = (\<lambda>k f l. ob_plain (st_Receive N k f (ob_state l)) (ob_use k l)),
      st_PollEvent = (\<lambda>k l. ob_plain (st_PollEvent N k (ob_state l)) (ob_use k l)),
      st_PollTX = (\<lambda>k l. ob_plain (st_PollTX N k (ob_state l)) (ob_use k l)),
      pt_NewUDPPort = (\<lambda>i a b l. case pt_NewUDPPort N i a b (ob_state l) of
        (Inr p, s) \<Rightarrow> (Inr p, l\<lparr>ob_state := s, ob_ports := insert p (ob_ports l)\<rparr>) | (Inl e, s) \<Rightarrow> (Inl e, l\<lparr>ob_state := s\<rparr>)),
      pt_ReadFrame = (\<lambda>p l. ob_plain (pt_ReadFrame N p (ob_state l)) l),
      pt_WriteFrame = (\<lambda>p f l. ob_plain (pt_WriteFrame N p f (ob_state l)) l),
      pt_Close = (\<lambda>p l. ob_plain (pt_Close N p (ob_state l)) (l\<lparr>ob_ports := ob_ports l - {p}\<rparr>)),
      st_now = (\<lambda>l. st_now N (ob_state l))\<rparr>"

interpretation sn_log: stacks_account "observed N" ob_stacks ob_misuse ob_ports
  by unfold_locales (auto simp: observed_def ob_plain_def ob_use_def split: prod.splits sum.splits)

definition sn_empty :: sn_system where
  "sn_empty = \<lparr>sy_Nodes = [], sy_Gone = [], sy_Waiting = None\<rparr>"

definition fresh_observed :: "'s \<Rightarrow> 's observed_log" where
  "fresh_observed s = \<lparr>ob_state = s, ob_stacks = {#}, ob_misuse = False, ob_ports = {}\<rparr>"

definition ob_outside :: "('s \<Rightarrow> 's \<Rightarrow> bool) \<Rightarrow> 's observed_log \<Rightarrow> 's observed_log \<Rightarrow> bool" where
  "ob_outside R l l' \<longleftrightarrow> R (ob_state l) (ob_state l') \<and> l' = l\<lparr>ob_state := ob_state l'\<rparr>"

lemma ob_outside_acc: "ob_outside R t u \<Longrightarrow> ob_stacks u = ob_stacks t \<and> ob_misuse u = ob_misuse t \<and> ob_ports u \<subseteq> ob_ports t"
  unfolding ob_outside_def by (cases t, cases u) simp

section \<open>Closing the adapter\<close>

text \<open>While \<open>Close\<close> waits without a failure so far, what is left in the map is what it still has to delete.\<close>

definition closing_ok :: "sn_system \<Rightarrow> bool" where
  "closing_ok y \<longleftrightarrow> (\<forall>ids fs ctx i e. sy_Waiting y = Some (ByClose ids fs, ctx, i, e) \<longrightarrow> fs = [] \<longrightarrow> set (mkeys (sy_Nodes y)) \<subseteq> insert i (set ids))"

lemma deleteFinish_keys:
  "deleteFinish N i y s = (y', s') \<Longrightarrow> set (mkeys (sy_Nodes y')) \<subseteq> set (mkeys (sy_Nodes y)) - {i} \<and> sy_Waiting y' = sy_Waiting y"
  by (cases "mget (sy_Nodes y) i") (auto simp: deleteFinish_def set_mkeys split: if_splits)

lemma StopBegin_keys: "sn_StopBegin N ctx i a s = (r, a', s') \<Longrightarrow> set (mkeys a') = set (mkeys a)"
  by (erule StopBegin_cases) (auto simp: set_mkeys)

lemma afterStop_close:
  assumes "afterStop N (ByClose ids fs) ctx i stopErr y s = (r, y', s')" "fs = [] \<Longrightarrow> set (mkeys (sy_Nodes y)) \<subseteq> insert i (set ids)"
  obtains gs where "r = Inr (ids, gs)" "gs = [] \<Longrightarrow> set (mkeys (sy_Nodes y')) \<subseteq> set ids" "sy_Waiting y' = None"
proof (cases stopErr)
  case None
  obtain y2 s2 where d: "deleteFinish N i (y\<lparr>sy_Waiting := None\<rparr>) s = (y2, s2)" by force
  have "fs = [] \<Longrightarrow> set (mkeys (sy_Nodes y2)) \<subseteq> set ids" "sy_Waiting y2 = None" using deleteFinish_keys [OF d] assms(2) by auto
  with None d assms(1) that [of fs] show thesis by (simp add: afterStop_def)
next
  case (Some e)
  with assms(1) have "r = Inr (ids, fs @ [e])" "sy_Waiting y' = None" by (auto simp: afterStop_def)
  then show thesis using that by blast
qed

lemma closeLoop_empties:
  "(fs = [] \<Longrightarrow> set (mkeys (sy_Nodes y)) \<subseteq> set ids) \<Longrightarrow> sy_Waiting y = None \<Longrightarrow> closeLoop N ids fs y s = (r, y', s') \<Longrightarrow>
   closing_ok y' \<and> (r = Some None \<longrightarrow> sy_Nodes y' = [])"
proof (induction ids arbitrary: fs y s)
  case Nil
  then show ?case by (cases fs) (auto simp: closing_ok_def errors_Join_None mkeys_def)
next
  case (Cons i ids)
  show ?case
  proof (cases "mget (sy_Nodes y) i = None")
    case True
    then have "i \<notin> set (mkeys (sy_Nodes y))" by (auto simp: set_mkeys)
    then have k: "set (mkeys (sy_Nodes y)) \<subseteq> set ids" if "fs = []" using Cons.prems(1) [OF that] by auto
    have "closeLoop N ids fs y s = (r, y', s')" using Cons.prems(3) True by simp
    from Cons.IH [OF k Cons.prems(2) this] show ?thesis .
  next
    case False
    obtain q a t where q: "sn_StopBegin N background_ctx i (sy_Nodes y) s = (q, a, t)" by (metis prod_cases3)
    have k: "fs = [] \<Longrightarrow> set (mkeys a) \<subseteq> insert i (set ids)" using StopBegin_keys [OF q] Cons.prems(1) by auto
    show ?thesis
    proof (cases q)
      case (Inr e)
      with Cons.prems(3) False q k show ?thesis by (auto simp: enterStop_def closing_ok_def)
    next
      case (Inl e)
      obtain r2 y2 s2 where r2: "afterStop N (ByClose ids fs) background_ctx i e (y\<lparr>sy_Nodes := a\<rparr>) t = (r2, y2, s2)" by (metis prod_cases3)
      obtain gs where g: "r2 = Inr (ids, gs)" "gs = [] \<Longrightarrow> set (mkeys (sy_Nodes y2)) \<subseteq> set ids" "sy_Waiting y2 = None"
        using afterStop_close [OF r2] k by auto
      have "closeLoop N ids gs y2 s2 = (r, y', s')" using Cons.prems(3) False q Inl r2 g(1) by (simp add: enterStop_def)
      from Cons.IH [OF g(2,3) this] show ?thesis .
    qed
  qed
qed

lemma enterStop_closing:
  "enterStop N caller ctx i y s = (r, y', s') \<Longrightarrow> sy_Waiting y = None \<Longrightarrow> (\<And>ids fs. caller \<noteq> ByClose ids fs) \<Longrightarrow> closing_ok y' \<and> (\<forall>j. result_label caller i r \<noteq> Returned MClose j None)"
  by (auto simp: enterStop_def closing_ok_def afterStop_def deleteFinish_def Let_def result_label_def
      split: prod.splits sum.splits sn_caller.splits option.splits)

lemma sn_step_closing:
  assumes "sn_step N outside (y, s) l (y', s')" "closing_ok y"
  shows "closing_ok y' \<and> (\<forall>i. l = Returned MClose i None \<longrightarrow> sy_Nodes y' = [])"
  using assms(1)
proof cases
  case (sn_stop ctx i r)
  show ?thesis using enterStop_closing [OF sn_stop(3) [unfolded sn_Stop_def] sn_stop(2)] sn_stop(1) by simp
next
  case (sn_restart ctx i r)
  show ?thesis using enterStop_closing [OF sn_restart(3) [unfolded sn_Restart_def] sn_restart(2)] sn_restart(1) by simp
next
  case (sn_delete ctx i r)
  show ?thesis
  proof (cases "mget (sy_Nodes y) i = None")
    case True
    with sn_delete assms(2) show ?thesis by (auto simp: sn_Delete_def result_label_def)
  next
    case False
    then have "enterStop N ByDelete ctx i y s = (r, y', s')" using sn_delete(3) by (auto simp: sn_Delete_def)
    from enterStop_closing [OF this sn_delete(2)] sn_delete(1) show ?thesis by simp
  qed
next
  case (sn_close r)
  then show ?thesis using closeLoop_empties [of "[]" y "mkeys (sy_Nodes y)" N s r y' s']
    by (auto simp: sn_Close_def close_label_def split: option.splits)
next
  case (sn_wake caller ctx i closeErr stopErr e)
  then have "caller \<noteq> ByClose ids fs" for ids fs by (auto simp: afterStop_def Let_def split: option.splits prod.splits)
  then have "method_of caller \<noteq> MClose" by (cases caller) auto
  moreover have "sy_Waiting y' = None"
    using sn_wake(4) by (auto simp: afterStop_def Let_def deleteFinish_def split: sn_caller.splits option.splits prod.splits)
  ultimately show ?thesis using sn_wake(1) by (simp add: closing_ok_def)
next
  case (sn_wake_close caller ctx i closeErr stopErr ids fs y1 s1 r)
  then obtain js gs where c: "caller = ByClose js gs" by (cases caller) (auto simp: afterStop_def Let_def split: option.splits prod.splits)
  then have k: "gs = [] \<Longrightarrow> set (mkeys (sy_Nodes y)) \<subseteq> insert i (set js)" using assms(2) sn_wake_close(2) by (simp add: closing_ok_def)
  obtain hs where h: "ids = js" "fs = hs" "hs = [] \<Longrightarrow> set (mkeys (sy_Nodes y1)) \<subseteq> set js" "sy_Waiting y1 = None"
    using afterStop_close [OF sn_wake_close(4) [unfolded c] k] by blast
  have "closing_ok y' \<and> (r = Some None \<longrightarrow> sy_Nodes y' = [])"
    by (rule closeLoop_empties [where fs = hs and y = y1 and ids = js]) (use h sn_wake_close(5) in simp_all)
  then show ?thesis using sn_wake_close(1) by (auto simp: close_label_def split: option.splits)
next
  case (sn_worker i node node')
  then have "set (mkeys (sy_Nodes y')) = set (mkeys (sy_Nodes y))" "sy_Waiting y' = sy_Waiting y" by (auto simp: set_mkeys)
  then show ?thesis using assms(2) sn_worker(1) by (simp add: closing_ok_def)
qed (use assms(2) in \<open>auto simp: closing_ok_def\<close>)

interpretation sn_run: inductive_invariant "(sn_empty, fresh_observed s)" "sn_step (observed N) (ob_outside R)" "\<lambda>(y, l). sn_log.sn_ok (y, l) \<and> closing_ok y"
proof unfold_locales
  show "case (sn_empty, fresh_observed s) of (y, l) \<Rightarrow> sn_log.sn_ok (y, l) \<and> closing_ok y"
    by (simp add: sn_log.sn_ok_def sn_empty_def fresh_observed_def closing_ok_def stacks_of_def mwf_def mkeys_def)
  show "case t of (y, l) \<Rightarrow> sn_log.sn_ok (y, l) \<and> closing_ok y"
    if "case u of (y, l) \<Rightarrow> sn_log.sn_ok (y, l) \<and> closing_ok y" "sn_step (observed N) (ob_outside R) u c t" for u c t
    using that sn_log.sn_step_ok [where N = N, OF _ _ ob_outside_acc] sn_step_closing by (cases u; cases t) fastforce
qed

text \<open>C33: under every interleaving of the calls of the adapter with the goroutines of its endpoints and
  whatever the native library and the sockets do, no native stack is used or closed after it was
  closed; the stacks that exist are those of the endpoints in the map; every socket that is open is
  served by a goroutine that has yet to close it; the goroutine of a deleted endpoint has ended; and
  when \<open>Close\<close> returns without an error, no stack and no socket is left.\<close>

theorem endpoints_safe:
  assumes "reach (sn_empty, fresh_observed s) (sn_step (observed N) (ob_outside R)) (y, l)"
  shows "\<not> ob_misuse l \<and> ob_stacks l = stacks_of (sy_Nodes y) \<and> ob_ports l \<subseteq> serving (sy_Nodes y) \<and> (\<forall>node \<in> set (sy_Gone y). ended node) \<and>
    (\<forall>i y' l'. sn_step (observed N) (ob_outside R) (y, l) (Returned MClose i None) (y', l') \<longrightarrow> ob_stacks l' = {#} \<and> ob_ports l' = {})"
proof -
  have ok: "sn_log.sn_ok (y, l)" and c: "closing_ok y" using sn_run.reach_inv [OF assms] by simp_all
  have "ob_stacks l' = {#} \<and> ob_ports l' = {}" if st: "sn_step (observed N) (ob_outside R) (y, l) (Returned MClose i None) (y', l')" for i y' l'
  proof -
    have "sy_Nodes y' = []" using sn_step_closing [OF st c] by simp
    with sn_log.sn_step_ok [OF st ok ob_outside_acc] show ?thesis by (simp add: sn_log.sn_ok_def stacks_of_def serving_def)
  qed
  with ok show ?thesis by (simp add: sn_log.sn_ok_def)
qed

section \<open>The end of a cancelled goroutine\<close>

text \<open>The goroutine taking its next steps in the given states: between two of them the rest of the
  system may have changed the state in any way. It stops when it has no step.\<close>

fun goroutine :: "'s stacks \<Rightarrow> sn_endpoint \<Rightarrow> 's list \<Rightarrow> sn_endpoint" where
  "goroutine N node [] = node"
| "goroutine N node (s # ss) = (case run_step N node s of None \<Rightarrow> node | Some (node', _) \<Rightarrow> goroutine N node' ss)"

fun worker_rank :: "worker \<Rightarrow> nat" where
  "worker_rank WRead = 7"
| "worker_rank (WFrame _) = 6"
| "worker_rank (WWrite _) = 5"
| "worker_rank WHead = 4"
| "worker_rank (WClose _) = 3"
| "worker_rank (WRecord _) = 2"
| "worker_rank WSignal = 1"
| "worker_rank WEnded = 0"

lemma receive_returns: "drain N k (snd (st_Receive N k frame s)) \<noteq> None \<Longrightarrow> receive N k frame s \<noteq> None"
  by (auto simp: receive_def Let_def split: prod.splits option.splits sum.splits)

lemma receive_rank: "receive N k frame s = Some (w, s') \<Longrightarrow> worker_rank w < 6 \<and> 2 < worker_rank w"
  by (auto simp: receive_def Let_def split: prod.splits option.splits sum.splits if_splits)

text \<open>A step of a cancelled goroutine: there is one until it has ended, and it comes nearer to the end.\<close>

lemma cancelled_step:
  assumes "ep_Run n = Some run" "sr_Cancelled run" "sr_Worker run \<noteq> WEnded" "\<And>s. drain N (ep_Stack n) s \<noteq> None"
  obtains n' s' run' where "run_step N n s = Some (n', s')" "ep_Run n' = Some run'" "sr_Cancelled run'" "ep_Stack n' = ep_Stack n"
    "worker_rank (sr_Worker run') < worker_rank (sr_Worker run)"
    "worker_rank (sr_Worker run) \<le> 1 \<Longrightarrow> ep_State n' = ep_State n \<and> ep_Failure n' = ep_Failure n"
    "2 \<le> worker_rank (sr_Worker run) \<Longrightarrow> 2 \<le> worker_rank (sr_Worker run') \<or> (ep_State n' = NodeStopped \<and> ep_Failure n' = None)"
proof -
  have d: "run_Done N run t" for t using assms(2) by (simp add: run_Done_def)
  have "\<exists>n' s' run'. run_step N n s = Some (n', s') \<and> ep_Run n' = Some run' \<and> sr_Cancelled run' \<and> ep_Stack n' = ep_Stack n \<and>
      worker_rank (sr_Worker run') < worker_rank (sr_Worker run) \<and>
      (worker_rank (sr_Worker run) \<le> 1 \<longrightarrow> ep_State n' = ep_State n \<and> ep_Failure n' = ep_Failure n) \<and>
      (2 \<le> worker_rank (sr_Worker run) \<longrightarrow> 2 \<le> worker_rank (sr_Worker run') \<or> (ep_State n' = NodeStopped \<and> ep_Failure n' = None))"
  proof (cases "sr_Worker run")
    case WRead
    obtain g t where "pt_ReadFrame N (sr_Port run) s = (g, t)" by force
    with WRead assms(1,2) show ?thesis by (cases g) (auto simp: run_step_def setWorker_def)
  next
    case (WFrame frame)
    obtain w t where "receive N (ep_Stack n) frame s = Some (w, t)" using receive_returns [OF assms(4)] by fast
    with WFrame assms(1,2) receive_rank [OF this] show ?thesis by (auto simp: run_step_def setWorker_def)
  next
    case (WWrite frames)
    obtain e t where "writeFrames N (sr_Port run) frames s = (e, t)" by force
    with WWrite assms(1,2) show ?thesis by (cases e) (auto simp: run_step_def setWorker_def)
  next
    case (WClose failure)
    obtain e t where "pt_Close N (sr_Port run) s = (e, t)" by force
    with WClose assms(1,2) show ?thesis by (auto simp: run_step_def setWorker_def)
  qed (use assms(1,2,3) d in \<open>auto simp: run_step_def setWorker_def\<close>)
  then show thesis using that by metis
qed

lemma cancelled_goroutine:
  assumes "ep_Run n = Some run" "sr_Cancelled run" "\<And>s. drain N (ep_Stack n) s \<noteq> None" "worker_rank (sr_Worker run) \<le> length ss"
  shows "ended (goroutine N n ss) \<and> ep_Stack (goroutine N n ss) = ep_Stack n \<and>
    (2 \<le> worker_rank (sr_Worker run) \<or> ep_State n = NodeStopped \<and> ep_Failure n = None \<longrightarrow>
     ep_State (goroutine N n ss) = NodeStopped \<and> ep_Failure (goroutine N n ss) = None)"
  using assms
proof (induction ss arbitrary: n run)
  case Nil
  then have "sr_Worker run = WEnded" by (cases "sr_Worker run") auto
  with Nil show ?case by (simp add: ended_def)
next
  case (Cons s ss)
  show ?case
  proof (cases "sr_Worker run = WEnded")
    case True
    with Cons.prems(1) show ?thesis by (simp add: ended_def run_step_def)
  next
    case False
    from cancelled_step [where s = s, OF Cons.prems(1,2) False Cons.prems(3)]
    obtain n' s' run' where st: "run_step N n s = Some (n', s')" "ep_Run n' = Some run'" "sr_Cancelled run'" "ep_Stack n' = ep_Stack n"
      "worker_rank (sr_Worker run') < worker_rank (sr_Worker run)"
      "worker_rank (sr_Worker run) \<le> 1 \<Longrightarrow> ep_State n' = ep_State n \<and> ep_Failure n' = ep_Failure n"
      "2 \<le> worker_rank (sr_Worker run) \<Longrightarrow> 2 \<le> worker_rank (sr_Worker run') \<or> (ep_State n' = NodeStopped \<and> ep_Failure n' = None)" by metis
    have "worker_rank (sr_Worker run') \<le> length ss" using st(5) Cons.prems(4) by simp
    from Cons.IH [OF st(2,3) _ this] Cons.prems(3) st(1,4,6,7) show ?thesis by (cases "2 \<le> worker_rank (sr_Worker run)") auto
  qed
qed

text \<open>A goroutine that has recorded its outcome only signals: the outcome stays.\<close>

lemma finished_goroutine:
  "ep_Run n = Some run \<Longrightarrow> sr_Worker run \<in> {WSignal, WEnded} \<Longrightarrow>
   ep_State (goroutine N n ss) = ep_State n \<and> ep_Failure (goroutine N n ss) = ep_Failure n"
proof (induction ss arbitrary: n run)
  case (Cons s ss)
  show ?case
  proof (cases "sr_Worker run = WSignal")
    case True
    then have "run_step N n s = Some (setWorker WEnded run n, s)" using Cons.prems(1) by (simp add: run_step_def)
    moreover have "ep_State (goroutine N (setWorker WEnded run n) ss) = ep_State (setWorker WEnded run n) \<and>
        ep_Failure (goroutine N (setWorker WEnded run n) ss) = ep_Failure (setWorker WEnded run n)"
      by (rule Cons.IH [of _ "run\<lparr>sr_Worker := WEnded\<rparr>"]) (simp_all add: setWorker_def)
    ultimately show ?thesis by (simp add: setWorker_def)
  next
    case False
    then have "run_step N n s = None" using Cons.prems by (simp add: run_step_def)
    then show ?thesis using Cons.IH [OF Cons.prems] by simp
  qed
qed simp

text \<open>C34: assume that draining the native stack comes to an end, that is, that the stack does not report
  notifications or frames without end. Then, once \<open>Stop\<close> has cancelled a running endpoint, its goroutine
  ends within seven of its steps (the write of a whole reply is one), in whatever states it takes them
  and whatever its reads, writes and the stack return, and the \<open>select\<close> of \<open>Stop\<close> can return the result of closing the port. A goroutine
  that was still at work then leaves the endpoint stopped without a failure; one that had recorded its
  outcome before the cancellation leaves that outcome, a failure included, as it is.\<close>

theorem Stop_comes_to_end:
  assumes "sn_StopBegin N ctx i a s = (Inr closeErr, a', s')" "\<And>t. drain N (ep_Stack (the (mget a i))) t \<noteq> None" "7 \<le> length ss"
  shows "ended (goroutine N (the (mget a' i)) ss) \<and>
    closeErr \<in> set (sn_StopEnd N ctx i closeErr (mput i (goroutine N (the (mget a' i)) ss) a') t) \<and>
    (sr_Worker (the (ep_Run (the (mget a i)))) \<notin> {WSignal, WEnded} \<longrightarrow>
     ep_State (goroutine N (the (mget a' i)) ss) = NodeStopped \<and> ep_Failure (goroutine N (the (mget a' i)) ss) = None) \<and>
    (sr_Worker (the (ep_Run (the (mget a i)))) \<in> {WSignal, WEnded} \<longrightarrow>
     ep_State (goroutine N (the (mget a' i)) ss) = ep_State (the (mget a i)) \<and>
     ep_Failure (goroutine N (the (mget a' i)) ss) = ep_Failure (the (mget a i)))"
  using assms(1)
proof (cases rule: StopBegin_cases)
  case (waits n run e f)
  let ?run = "run\<lparr>sr_Cancelled := True\<rparr>"
  let ?n = "n\<lparr>ep_Run := Some ?run\<rparr>"
  have n: "the (mget a' i) = ?n" "the (mget a i) = n" using waits by simp_all
  have "worker_rank (sr_Worker ?run) \<le> length ss" using assms(3) by (cases "sr_Worker run") auto
  then have "ended (goroutine N ?n ss) \<and> (2 \<le> worker_rank (sr_Worker run) \<longrightarrow>
      ep_State (goroutine N ?n ss) = NodeStopped \<and> ep_Failure (goroutine N ?n ss) = None)"
    using cancelled_goroutine [of ?n ?run N ss] assms(2) n(2) by simp
  moreover have "sr_Worker run \<notin> {WSignal, WEnded} \<Longrightarrow> 2 \<le> worker_rank (sr_Worker run)" by (cases "sr_Worker run") auto
  ultimately have *: "ended (goroutine N ?n ss)" "sr_Worker run \<notin> {WSignal, WEnded} \<longrightarrow>
      ep_State (goroutine N ?n ss) = NodeStopped \<and> ep_Failure (goroutine N ?n ss) = None" by blast+
  have "sr_Worker run \<in> {WSignal, WEnded} \<longrightarrow> ep_State (goroutine N ?n ss) = ep_State n \<and> ep_Failure (goroutine N ?n ss) = ep_Failure n"
    using finished_goroutine [of ?n ?run N ss] by simp
  moreover have "closeErr \<in> set (sn_StopEnd N ctx i closeErr (mput i (goroutine N ?n ss) a') t)" using *(1) by (simp add: sn_StopEnd_def)
  ultimately show ?thesis using * unfolding n waits(3) option.sel by blast
qed simp

section \<open>A concrete library\<close>

text \<open>Stacks and sockets numbered in order; reads time out, there is nothing to send.\<close>

definition quiet_stacks :: "nat stacks" where
  "quiet_stacks = \<lparr>st_New = (\<lambda>_ _ s. (Inr s, Suc s)), st_Close = (\<lambda>_ s. s), st_Receive = (\<lambda>_ _ s. (None, s)), st_PollEvent = (\<lambda>_ s. (Inr False, s)),
     st_PollTX = (\<lambda>_ s. (Inr None, s)), pt_NewUDPPort = (\<lambda>_ _ _ s. (Inr s, Suc s)), pt_ReadFrame = (\<lambda>_ s. (Inl (Sentinel (OS NetTimeout), True), s)),
     pt_WriteFrame = (\<lambda>_ _ s. (None, s)), pt_Close = (\<lambda>_ s. (None, s)), st_now = (\<lambda>_. 0)\<rparr>"

definition host_config :: sn_Config where
  "host_config = \<lparr>snc_ID = ''h1'', snc_Name = ''host'', snc_IP = AddrV4 [10, 0, 0, 1], snc_MAC = [2, 0, 0, 0, 0, 1],
     snc_Local = Addr4 ''127.0.0.1'' 4000, snc_Remote = Addr4 ''127.0.0.1'' 4001\<rparr>"

definition host_run :: sn_run where
  "host_run = \<lparr>sr_Port = 1, sr_Context = background_ctx, sr_Cancelled = False, sr_Worker = WHead\<rparr>"

definition host_node :: "NodeState \<Rightarrow> sn_run option \<Rightarrow> sn_endpoint" where
  "host_node st run = \<lparr>ep_Config = host_config, ep_Stack = 0, ep_State = st, ep_Failure = None, ep_Run = run\<rparr>"

lemma host_mac: "([2, 0, 0, 0, 0, 1] :: 8 word list) \<noteq> replicate 6 0"
  by (simp add: numeral_eq_Suc)

lemma host_created:
  "CreateEndpoint (observed quiet_stacks) background_ctx (Some host_config) [] (fresh_observed 0) =
   (Inr (sn_node host_config ''h1'' NodeStopped), [(''h1'', host_node NodeStopped None)],
    \<lparr>ob_state = 1, ob_stacks = {#0#}, ob_misuse = False, ob_ports = {}\<rparr>)"
  by (simp add: CreateEndpoint_def background_ctx_def host_config_def sn_valid_def observed_def quiet_stacks_def fresh_observed_def
      mput_def host_node_def host_mac)

lemma host_started:
  "sn_Start (observed quiet_stacks) background_ctx ''h1'' [(''h1'', host_node NodeStopped None)]
     \<lparr>ob_state = 1, ob_stacks = {#0#}, ob_misuse = False, ob_ports = {}\<rparr> =
   (None, [(''h1'', host_node NodeRunning (Some host_run))], \<lparr>ob_state = 2, ob_stacks = {#0#}, ob_misuse = False, ob_ports = {1}\<rparr>)"
  by (simp add: sn_Start_def sn_lookup_def background_ctx_def observed_def quiet_stacks_def mput_def host_node_def host_run_def)

lemma host_stopping:
  "sn_StopBegin (observed quiet_stacks) background_ctx ''h1'' [(''h1'', host_node NodeRunning (Some host_run))]
     \<lparr>ob_state = 2, ob_stacks = {#0#}, ob_misuse = False, ob_ports = {1}\<rparr> =
   (Inr None, [(''h1'', host_node NodeRunning (Some (host_run\<lparr>sr_Cancelled := True\<rparr>)))],
    \<lparr>ob_state = 2, ob_stacks = {#0#}, ob_misuse = False, ob_ports = {}\<rparr>)"
  by (simp add: sn_StopBegin_def sn_lookup_def background_ctx_def observed_def quiet_stacks_def mput_def host_node_def host_run_def
      ob_plain_def notClosed_def)

lemma quiet_drain: "drain (observed quiet_stacks) k l \<noteq> None"
  by (simp add: drain_def drainEvents.simps drainFrames.simps observed_def quiet_stacks_def ob_plain_def)

lemma host_reach:
  "reach (sn_empty, fresh_observed 0) (sn_step (observed quiet_stacks) (ob_outside (\<lambda>_ _. False)))
     (\<lparr>sy_Nodes = [(''h1'', host_node NodeRunning (Some (host_run\<lparr>sr_Cancelled := True\<rparr>)))], sy_Gone = [],
       sy_Waiting = Some (ByStop, background_ctx, ''h1'', None)\<rparr>,
      \<lparr>ob_state = 2, ob_stacks = {#0#}, ob_misuse = False, ob_ports = {}\<rparr>)"
proof -
  let ?step = "sn_step (observed quiet_stacks) (ob_outside (\<lambda>_ _. False))"
  let ?sys = "\<lambda>nodes. \<lparr>sy_Nodes = nodes, sy_Gone = [], sy_Waiting = None\<rparr>"
  let ?log = "\<lambda>n ports. \<lparr>ob_state = n, ob_stacks = {#0#}, ob_misuse = False, ob_ports = ports\<rparr>"
  have "?step (sn_empty, fresh_observed 0) Internal (?sys [(''h1'', host_node NodeStopped None)], ?log 1 {})"
    using sn_create [where y = sn_empty and ctx = background_ctx and cfg = "Some host_config" and s = "fresh_observed 0" and N = "observed quiet_stacks"]
      host_created by (simp add: sn_empty_def)
  from reach_step [where step = ?step, OF reach_init this] have 1: "reach (sn_empty, fresh_observed 0) ?step (?sys [(''h1'', host_node NodeStopped None)], ?log 1 {})" .
  have "?step (?sys [(''h1'', host_node NodeStopped None)], ?log 1 {}) (Returned MStart ''h1'' None)
      (?sys [(''h1'', host_node NodeRunning (Some host_run))], ?log 2 {1})"
    using sn_start [where y = "?sys [(''h1'', host_node NodeStopped None)]" and ctx = background_ctx and i = "''h1''" and s = "?log 1 {}"
      and N = "observed quiet_stacks"] host_started by simp
  from reach_step [where step = ?step, OF 1 this] have 2: "reach (sn_empty, fresh_observed 0) ?step (?sys [(''h1'', host_node NodeRunning (Some host_run))], ?log 2 {1})" .
  have "?step (?sys [(''h1'', host_node NodeRunning (Some host_run))], ?log 2 {1}) (result_label ByStop ''h1'' None)
     (\<lparr>sy_Nodes = [(''h1'', host_node NodeRunning (Some (host_run\<lparr>sr_Cancelled := True\<rparr>)))], sy_Gone = [],
       sy_Waiting = Some (ByStop, background_ctx, ''h1'', None)\<rparr>, ?log 2 {})"
    using sn_stop [where y = "?sys [(''h1'', host_node NodeRunning (Some host_run))]" and ctx = background_ctx and i = "''h1''" and s = "?log 2 {1}"
      and N = "observed quiet_stacks"] host_stopping by (simp add: sn_Stop_def enterStop_def)
  from reach_step [where step = ?step, OF 2 this] show ?thesis .
qed

theorem endpoints_safe_witness:
  "\<not> ob_misuse \<lparr>ob_state = 2, ob_stacks = {#0#}, ob_misuse = False, ob_ports = {}\<rparr> \<and>
   stacks_of [(''h1'', host_node NodeRunning (Some (host_run\<lparr>sr_Cancelled := True\<rparr>)))] = {#0#} \<and>
   serving [(''h1'', host_node NodeRunning (Some (host_run\<lparr>sr_Cancelled := True\<rparr>)))] = {1}"
proof -
  have "serving [(''h1'', host_node NodeRunning (Some (host_run\<lparr>sr_Cancelled := True\<rparr>)))] = {1}"
    by (simp add: serving_def own_ports_def host_node_def host_run_def)
  with endpoints_safe [OF host_reach] show ?thesis by simp
qed

theorem Stop_comes_to_end_witness:
  "ended (goroutine (observed quiet_stacks) (host_node NodeRunning (Some (host_run\<lparr>sr_Cancelled := True\<rparr>))) (replicate 7 (fresh_observed 0))) \<and>
   ep_State (goroutine (observed quiet_stacks) (host_node NodeRunning (Some (host_run\<lparr>sr_Cancelled := True\<rparr>))) (replicate 7 (fresh_observed 0)))
     = NodeStopped"
  using Stop_comes_to_end [OF host_stopping quiet_drain, of "replicate 7 (fresh_observed 0)"] by (simp add: host_node_def host_run_def)

end
