(* ===== verification/Topology_Local.thy ===== *)
theory Topology_Local
  imports Topology Shitnet Dynamips Storage_Local Bridge_Frame
begin

text \<open>
  Running a topology on one host (\<open>topology/local\<close>): the checks before a start, the start of
  containers, domains, routers and endpoints, the connection of their links through pairs of loopback
  UDP ports, and the teardown that a failed start and the owner of a run share. Container runtimes,
  hypervisor, native adapters, the network of the host and its files are the functions of the record
  \<open>host\<close> over a state \<open>'s\<close>; the managers of routers and domains are those of \<open>Dynamips\<close> and \<open>Virt_Manager\<close>.
  Providers of containers, bridges, switches, ports and open files are numbers. Log output is left out.
\<close>

section \<open>The host\<close>

record bridge_options =
  cb_PID :: int
  cb_HostIf :: string
  cb_ContainerIf :: string
  cb_MTU :: int
  cb_Listen :: string
  cb_Remote :: string

record 's host =
  ho_now :: "'s \<Rightarrow> int"
  ho_UUID :: "'s \<Rightarrow> string \<times> 's"
  ho_IsNotFound :: "gerror \<Rightarrow> bool"
  ho_ProviderName :: "nat \<Rightarrow> string"
  ho_NewProvider :: "string \<Rightarrow> 's \<Rightarrow> (gerror + nat) \<times> 's"
  ho_ListContainers :: "nat \<Rightarrow> Context \<Rightarrow> 's \<Rightarrow> gerror option \<times> 's"
  ho_CreateContainer :: "nat \<Rightarrow> Context \<Rightarrow> container_RuntimeConfig \<Rightarrow> 's \<Rightarrow> (gerror + ContainerNode) \<times> 's"
  ho_Pull :: "nat \<Rightarrow> Context \<Rightarrow> string \<Rightarrow> 's \<Rightarrow> gerror option \<times> 's"
  ho_StartContainer :: "nat \<Rightarrow> Context \<Rightarrow> string \<Rightarrow> 's \<Rightarrow> gerror option \<times> 's"
  ho_Inspect :: "nat \<Rightarrow> Context \<Rightarrow> string \<Rightarrow> 's \<Rightarrow> (gerror + ContainerNode) \<times> 's"
  ho_DeleteContainer :: "nat \<Rightarrow> Context \<Rightarrow> string \<Rightarrow> 's \<Rightarrow> gerror option \<times> 's"
  ho_ReloadContainer :: "nat \<Rightarrow> Context \<Rightarrow> string \<Rightarrow> 's \<Rightarrow> (gerror + Virt_Types.Node) \<times> 's"
  ho_NewStore :: "string \<Rightarrow> 's \<Rightarrow> (gerror + 's StorageManager) \<times> 's"
  ho_Router :: "'s router_provider"
  ho_StartRouter :: "Context \<Rightarrow> string \<Rightarrow> 's \<Rightarrow> gerror option \<times> 's"
  ho_ReloadRouter :: "Context \<Rightarrow> string \<Rightarrow> 's \<Rightarrow> (gerror + Virt_Types.Node) \<times> 's"
  ho_CreateEndpoint :: "Context \<Rightarrow> sn_Config \<Rightarrow> 's \<Rightarrow> (gerror + Virt_Types.Node) \<times> 's"
  ho_StartEndpoint :: "Context \<Rightarrow> string \<Rightarrow> 's \<Rightarrow> gerror option \<times> 's"
  ho_DeleteEndpoint :: "Context \<Rightarrow> string \<Rightarrow> 's \<Rightarrow> gerror option \<times> 's"
  ho_ReloadEndpoint :: "Context \<Rightarrow> string \<Rightarrow> 's \<Rightarrow> (gerror + Virt_Types.Node) \<times> 's"
  ho_CreateDomain :: "'s CreateDomain"
  ho_DeleteDomain :: "Context \<Rightarrow> string \<Rightarrow> 's \<Rightarrow> gerror option \<times> 's"
  ho_ReloadDomain :: "Context \<Rightarrow> string \<Rightarrow> 's \<Rightarrow> (gerror + Virt_Types.Node) \<times> 's"
  ho_MkdirTemp :: "string \<Rightarrow> string \<Rightarrow> 's \<Rightarrow> (gerror + string) \<times> 's"
  ho_Chmod :: "string \<Rightarrow> nat \<Rightarrow> 's \<Rightarrow> gerror option \<times> 's"
  ho_RemoveAll :: "string \<Rightarrow> 's \<Rightarrow> gerror option \<times> 's"
  ho_Abs :: "string \<Rightarrow> 's \<Rightarrow> gerror + string"
  ho_Command :: "Context \<Rightarrow> string list \<Rightarrow> 's \<Rightarrow> (string \<times> gerror option) \<times> 's"
  ho_Open :: "string \<Rightarrow> 's \<Rightarrow> (gerror + nat) \<times> 's"
  ho_CreateExcl :: "string \<Rightarrow> nat \<Rightarrow> 's \<Rightarrow> (gerror + nat) \<times> 's"
  ho_Copy :: "nat \<Rightarrow> nat \<Rightarrow> 's \<Rightarrow> gerror option \<times> 's"
  ho_CloseFile :: "nat \<Rightarrow> 's \<Rightarrow> gerror option \<times> 's"
  ho_LinkAdd :: "string \<Rightarrow> 's \<Rightarrow> gerror option \<times> 's"
  ho_LinkSetUp :: "string \<Rightarrow> 's \<Rightarrow> gerror option \<times> 's"
  ho_SetPromiscOn :: "string \<Rightarrow> 's \<Rightarrow> gerror option \<times> 's"
  ho_LinkDel :: "string \<Rightarrow> 's \<Rightarrow> gerror option \<times> 's"
  ho_NewRawSocketPort :: "string \<Rightarrow> int \<Rightarrow> 's \<Rightarrow> (gerror + nat) \<times> 's"
  ho_NewUDPPort :: "string \<Rightarrow> string \<Rightarrow> int \<Rightarrow> 's \<Rightarrow> (gerror + nat) \<times> 's"
  ho_ClosePort :: "nat \<Rightarrow> 's \<Rightarrow> gerror option \<times> 's"
  ho_NewSwitch :: "'s \<Rightarrow> nat \<times> 's"
  ho_AttachPort :: "nat \<Rightarrow> nat \<Rightarrow> 's \<Rightarrow> gerror option \<times> 's"
  ho_StartSwitch :: "nat \<Rightarrow> 's \<Rightarrow> gerror option \<times> 's"
  ho_StopSwitch :: "nat \<Rightarrow> 's \<Rightarrow> gerror option \<times> 's"
  ho_StartContainerBridge :: "bridge_options \<Rightarrow> 's \<Rightarrow> (gerror + nat) \<times> 's"
  ho_CloseBridge :: "nat \<Rightarrow> 's \<Rightarrow> gerror option \<times> 's"
  ho_ParseOther :: "string \<Rightarrow> gerror + Addr"

section \<open>Options and runs\<close>

record DomainOptions =
  do_Provider :: bool
  do_Image :: string
  do_SeedImage :: string

record DynamipsOptions =
  dyo_Provider :: bool
  dyo_StateRoot :: string
  dyo_Image :: string
  dyo_ConsoleBasePort :: int

text \<open>For the providers that a run has at most one of, whether it is given.\<close>

record Options =
  opt_Provider :: "nat option"
  opt_Containers :: "(string, nat) gomap"
  opt_Domains :: "DomainOptions option"
  opt_Dynamips :: "DynamipsOptions option"
  opt_Shitnet :: bool
  opt_BasePort :: int

record 's domainResources =
  dre_manager :: "'s StorageManager option"
  dre_prepared :: "PreparedResources option"
  dre_id :: string
  dre_directory :: string
  dre_links :: "string list"
  dre_switches :: "nat list"

record 's Running =
  run_providers :: "(NodeID, nat) gomap"
  run_nodes :: "(NodeID, string) gomap"
  run_order :: "NodeID list"
  run_bridges :: "nat list"
  run_dynamips :: bool
  run_manager :: "'s StorageManager option"
  run_routers :: "(NodeID, router_resources) gomap"
  run_endpoints :: "(NodeID, unit) gomap"
  run_domains :: "(NodeID, 's domainResources) gomap"
  run_nextDomainPort :: nat

definition setDomain :: "NodeID \<Rightarrow> ('s domainResources \<Rightarrow> 's domainResources) \<Rightarrow> 's Running \<Rightarrow> 's Running" where
  "setDomain nid f run =
     (case mget (run_domains run) nid of Some r \<Rightarrow> run\<lparr>run_domains := mput nid (f r) (run_domains run)\<rparr> | None \<Rightarrow> run)"

section \<open>Names and ports\<close>

text \<open>Hexadecimal numerals as \<open>%x\<close> prints them, and padding with zeros.\<close>

fun show_hex :: "nat \<Rightarrow> string" where
  "show_hex n = (if n < 16 then [hex_digit n] else show_hex (n div 16) @ [hex_digit (n mod 16)])"

declare show_hex.simps [simp del]

definition pad0 :: "nat \<Rightarrow> string \<Rightarrow> string" where
  "pad0 w s = replicate (w - length s) CHR ''0'' @ s"

definition hostIf :: "string \<Rightarrow> nat \<Rightarrow> string" where
  "hostIf token n = ''tx'' @ token @ pad0 4 (show_hex n)"

definition domainIf :: "string \<Rightarrow> nat \<Rightarrow> string" where
  "domainIf token n = ''tx'' @ token @ ''g'' @ pad0 3 (show_hex n)"

definition domainMAC :: "nat \<Rightarrow> nat \<Rightarrow> string" where
  "domainMAC index portIndex = joinSep '':'' [''52'', ''54'', pad0 2 (show_hex (index div 256 mod 256)), pad0 2 (show_hex (index mod 256)),
     pad0 2 (show_hex (portIndex div 256 mod 256)), pad0 2 (show_hex (portIndex mod 256))]"

text \<open>The ends of the links in the order of the two nested loops over them: the index of the link, the
  side, and the link.\<close>

definition sides :: "Link list \<Rightarrow> (nat \<times> nat \<times> Link) list" where
  "sides links = concat (map (\<lambda>(i, l). [(i, 0, l), (i, 1, l)]) (List.enumerate 0 links))"

definition side_endpoint :: "nat \<Rightarrow> Link \<Rightarrow> Endpoint" where
  "side_endpoint side l = (if side = 0 then link_A l else link_B l)"

definition localPort :: "int \<Rightarrow> nat \<Rightarrow> nat \<Rightarrow> int" where
  "localPort base index side = base + 2 * int index + int side"

definition remotePort :: "int \<Rightarrow> nat \<Rightarrow> nat \<Rightarrow> int" where
  "remotePort base index side = base + 2 * int index + 1 - int side"

definition loopback :: "int \<Rightarrow> string" where
  "loopback port = ''127.0.0.1:'' @ show_int port"

definition filepath_Join :: "string \<Rightarrow> string \<Rightarrow> string" where
  "filepath_Join a b =
     (case filter (\<lambda>x. x \<noteq> '''') [a, b] of [] \<Rightarrow> '''' | parts \<Rightarrow> path_Clean (joinSep ''/'' parts))"

definition node_config :: "string \<Rightarrow> string \<Rightarrow> string \<Rightarrow> int \<Rightarrow> int \<Rightarrow> NodeConfig" where
  "node_config i name img cpus memory =
     \<lparr>nc_ID = i, nc_Name = name, nc_Image = img, nc_CPUs = cpus, nc_MemoryMB = memory, nc_ConsoleType = '''', nc_AuxConsoleType = '''', nc_Meta = []\<rparr>"

section \<open>Selecting container providers\<close>

definition containerProvider :: "'s host \<Rightarrow> Options \<Rightarrow> string \<Rightarrow> gerror + nat" where
  "containerProvider H options name =
     (if name = '''' \<and> opt_Provider options \<noteq> None then Inr (the (opt_Provider options))
      else case mget (opt_Containers options) name of
        Some provider \<Rightarrow> Inr provider
      | None \<Rightarrow>
          (case opt_Provider options of
             Some provider \<Rightarrow>
               if ho_ProviderName H provider = name then Inr provider
               else Inl (topology_New ''select container provider'' topology_kind.ErrUnsupported name)
           | None \<Rightarrow> Inl (topology_New ''select container provider'' topology_kind.ErrUnsupported name)))"

definition withTimeout :: "Context \<Rightarrow> int \<Rightarrow> int \<Rightarrow> Context" where
  "withTimeout ctx start d = ctx\<lparr>ctx_Done := (\<lambda>t. case ctx_Done ctx t of Some e \<Rightarrow> Some e
     | None \<Rightarrow> if start + d \<le> t then Some (Sentinel (OS CtxDeadlineExceeded)) else None)\<rparr>"

fun selectFrom :: "'s host \<Rightarrow> Context \<Rightarrow> gerror list \<Rightarrow> string list \<Rightarrow> 's \<Rightarrow> (gerror + nat) \<times> 's" where
  "selectFrom H ctx failures [] s =
     (Inl (topology_Wrap ''select topology provider'' topology_kind.ErrStart ''no local container provider is available'' (errors_Join (map Some failures))), s)"
| "selectFrom H ctx failures (candidate # names) s =
     (if candidate \<notin> {''docker'', ''podman'', ''containerd''}
      then (Inl (topology_New ''select topology provider'' topology_kind.ErrUnsupported ''choose auto, docker, podman, or containerd''), s)
      else case ho_NewProvider H candidate s of
        (Inl err, s) \<Rightarrow> selectFrom H ctx (failures @ [err]) names s
      | (Inr provider, s) \<Rightarrow>
          (case ho_ListContainers H provider (withTimeout ctx (ho_now H s) (3 * 1000000000)) s of
             (Some err, s) \<Rightarrow> selectFrom H ctx (failures @ [err]) names s
           | (None, s) \<Rightarrow> (Inr provider, s)))"

definition SelectContainerProvider :: "'s host \<Rightarrow> Context \<Rightarrow> string \<Rightarrow> 's \<Rightarrow> (gerror + nat) \<times> 's" where
  "SelectContainerProvider H ctx name s = selectFrom H ctx [] (if name = ''auto'' then [''docker'', ''podman''] else [name]) s"

section \<open>Checking what a host can run\<close>

definition bad_interface :: "string \<Rightarrow> bool" where
  "bad_interface name \<longleftrightarrow> length name > 15 \<or> name = ''.'' \<or> name = ''..'' \<or> name = ''lo'' \<or>
     (\<exists>c \<in> set name. c \<in> {CHR ''/'', CHR '':'', CHR 0x00, CHR '' '', CHR 0x09, CHR 0x0D, CHR 0x0A})"

fun supportPorts :: "(string \<Rightarrow> string) \<Rightarrow> NodeID \<Rightarrow> bool \<Rightarrow> Port list \<Rightarrow> gerror option" where
  "supportPorts fq nid isContainer [] = None"
| "supportPorts fq nid isContainer (port # ports) =
     (if port_Kind port \<noteq> PortEthernet
      then Some (topology_New ''start local topology'' topology_kind.ErrUnsupported (''node '' @ fq nid @ '' port '' @ fq (port_ID port) @ '' is not Ethernet''))
      else if isContainer \<and> bad_interface (port_ID port)
      then Some (topology_New ''start local topology'' topology_kind.ErrUnsupported (''port '' @ fq (port_ID port) @ '' must be a Linux interface name other than lo''))
      else supportPorts fq nid isContainer ports)"

definition supportSpec :: "(string \<Rightarrow> string) \<Rightarrow> 's host \<Rightarrow> Options \<Rightarrow> Topology.Node \<Rightarrow> gerror option" where
  "supportSpec fq H options node =
     (case node_Spec node of
        Some (Container spec) \<Rightarrow> (case containerProvider H options (cs_Provider spec) of Inl providerErr \<Rightarrow> Some providerErr | Inr _ \<Rightarrow> None)
      | Some (Topology.Dynamips _) \<Rightarrow>
          (if (case opt_Dynamips options of None \<Rightarrow> True | Some d \<Rightarrow> \<not> dyo_Provider d \<or> dyo_StateRoot d = '''')
           then Some (topology_New ''start local topology'' topology_kind.ErrStart ''Dynamips provider and state root are required'') else None)
      | Some (Domain _) \<Rightarrow>
          (if (case opt_Domains options of None \<Rightarrow> True | Some d \<Rightarrow> \<not> do_Provider d)
           then Some (topology_New ''start local topology'' topology_kind.ErrStart ''domain provider is required'') else None)
      | Some (Topology.Shitnet _) \<Rightarrow>
          (if \<not> opt_Shitnet options \<or> length (node_Ports node) \<noteq> 1
           then Some (topology_New ''start local topology'' topology_kind.ErrUnsupported ''Shitnet requires a provider and one Ethernet port'') else None)
      | _ \<Rightarrow> Some (topology_New ''start local topology'' topology_kind.ErrUnsupported (''node '' @ fq (node_ID node) @ '' has an unsupported workload'')))"

fun supportNodes :: "(string \<Rightarrow> string) \<Rightarrow> 's host \<Rightarrow> Options \<Rightarrow> Topology.Node list \<Rightarrow> gerror option" where
  "supportNodes fq H options [] = None"
| "supportNodes fq H options (node # nodes) =
     (case supportSpec fq H options node of
        Some err \<Rightarrow> Some err
      | None \<Rightarrow>
          (case supportPorts fq (node_ID node) (case node_Spec node of Some (Container _) \<Rightarrow> True | _ \<Rightarrow> False) (node_Ports node) of
             Some err \<Rightarrow> Some err
           | None \<Rightarrow> supportNodes fq H options nodes))"

fun supportLinks :: "(string \<Rightarrow> string) \<Rightarrow> Link list \<Rightarrow> gerror option" where
  "supportLinks fq [] = None"
| "supportLinks fq (link # links) =
     (if link_Kind link \<noteq> LinkEthernet \<or> (link_MTU link \<noteq> 0 \<and> link_MTU link < 68)
      then Some (topology_New ''start local topology'' topology_kind.ErrUnsupported (''link '' @ fq (link_ID link) @ '' requires Ethernet and MTU >= 68''))
      else supportLinks fq links)"

definition base_port :: "Options \<Rightarrow> int" where
  "base_port options = (if opt_BasePort options = 0 then 23000 else opt_BasePort options)"

definition validateSupport :: "(string \<Rightarrow> string) \<Rightarrow> 's host \<Rightarrow> Topology \<Rightarrow> Options \<Rightarrow> gerror option" where
  "validateSupport fq H t options =
     (let basePort = base_port options in
      if basePort < 1 \<or> basePort > 65535 \<or> int (length (top_Links t)) > (65536 - basePort) div 2
      then Some (topology_New ''start local topology'' topology_kind.ErrStart ''UDP port range must fit within 1..65535'')
      else case supportNodes fq H options (top_Nodes t) of
        Some err \<Rightarrow> Some err
      | None \<Rightarrow> supportLinks fq (top_Links t))"

section \<open>Domains\<close>

definition copyDomainSeed :: "'s host \<Rightarrow> string \<Rightarrow> string \<Rightarrow> 's \<Rightarrow> gerror option \<times> 's" where
  "copyDomainSeed H source destination s =
     (case ho_Open H source s of
        (Inl openErr, s) \<Rightarrow> (Some openErr, s)
      | (Inr input, s) \<Rightarrow>
          (case ho_CreateExcl H destination 420 s of
             (Inl createErr, s) \<Rightarrow> (case ho_CloseFile H input s of (e, s) \<Rightarrow> (errors_Join [Some createErr, e], s))
           | (Inr out, s) \<Rightarrow>
               (case ho_Copy H out input s of
                  (copyErr, s) \<Rightarrow>
                    (case ho_CloseFile H out s of
                       (e, s) \<Rightarrow>
                         let resultErr = errors_Join [copyErr, e] in
                         (case ho_CloseFile H input s of (e, s) \<Rightarrow> (errors_Join [resultErr, e], s))))))"

text \<open>Connecting a bridge of the host with a UDP port: the switch that then runs, or the error.\<close>

definition domain_connect :: "'s host \<Rightarrow> Context \<Rightarrow> string \<Rightarrow> int \<Rightarrow> int \<Rightarrow> int \<Rightarrow> 's \<Rightarrow> (gerror + nat) \<times> 's" where
  "domain_connect H ctx name local remote mtu s =
     (case ctx_Done ctx (ho_now H s) of
        Some contextErr \<Rightarrow> (Inl contextErr, s)
      | None \<Rightarrow>
          let mtu = (if mtu = 0 then 1500 else mtu) in
          (case ho_NewRawSocketPort H name mtu s of
             (Inl rawErr, s) \<Rightarrow> (Inl rawErr, s)
           | (Inr raw, s) \<Rightarrow>
               (case ho_NewUDPPort H (loopback local) (loopback remote) mtu s of
                  (Inl udpErr, s) \<Rightarrow> (case ho_ClosePort H raw s of (e, s) \<Rightarrow> (Inl (the_join [Some udpErr, e]), s))
                | (Inr udp, s) \<Rightarrow>
                    let fail = (\<lambda>err s. case ho_ClosePort H raw s of (e1, s) \<Rightarrow> (case ho_ClosePort H udp s of (e2, s) \<Rightarrow> (Inl (the_join [Some err, e1, e2]), s))) in
                    (case ho_NewSwitch H s of
                       (switcher, s) \<Rightarrow>
                         (case ho_AttachPort H switcher raw s of
                            (Some attachErr, s) \<Rightarrow> fail attachErr s
                          | (None, s) \<Rightarrow>
                              (case ho_AttachPort H switcher udp s of
                                 (Some attachErr, s) \<Rightarrow> fail attachErr s
                               | (None, s) \<Rightarrow>
                                   (case ho_StartSwitch H switcher s of
                                      (Some startErr, s) \<Rightarrow> fail startErr s
                                    | (None, s) \<Rightarrow> (Inr switcher, s))))))))"

fun domainConnections :: "'s host \<Rightarrow> Context \<Rightarrow> int \<Rightarrow> string \<Rightarrow> NodeID \<Rightarrow> PortID \<Rightarrow> (nat \<times> nat \<times> Link) list \<Rightarrow> 's Running \<Rightarrow> 's \<Rightarrow>
    gerror option \<times> 's Running \<times> 's" where
  "domainConnections H ctx base name nid pid [] run s = (None, run, s)"
| "domainConnections H ctx base name nid pid ((index, side, l) # rest) run s =
     (if side_endpoint side l = \<lparr>ep_Node = nid, ep_Port = pid\<rparr> then
        (case domain_connect H ctx name (localPort base index side) (remotePort base index side) (uint (link_MTU l)) s of
           (Inl switchErr, s) \<Rightarrow> (Some switchErr, run, s)
         | (Inr switcher, s) \<Rightarrow>
             domainConnections H ctx base name nid pid rest (setDomain nid (\<lambda>r. r\<lparr>dre_switches := dre_switches r @ [switcher]\<rparr>) run) s)
      else domainConnections H ctx base name nid pid rest run s)"

text \<open>The loop over the ports of a domain: each gets a bridge of the host, and switches to its links.\<close>

fun domainPorts :: "'s host \<Rightarrow> Context \<Rightarrow> int \<Rightarrow> string \<Rightarrow> Link list \<Rightarrow> NodeID \<Rightarrow> nat \<Rightarrow> nat \<Rightarrow> Interface list \<Rightarrow> Port list \<Rightarrow> 's Running \<Rightarrow> 's \<Rightarrow>
    (gerror + Interface list) \<times> 's Running \<times> 's" where
  "domainPorts H ctx base token links nid index portIndex ifaces [] run s = (Inr ifaces, run, s)"
| "domainPorts H ctx base token links nid index portIndex ifaces (port # ports) run s =
     (if run_nextDomainPort run > 65535
      then (Inl (topology_New ''create domain interface'' topology_kind.ErrUnsupported ''too many domain ports''), run, s)
      else
        let name = domainIf token (run_nextDomainPort run);
            run = run\<lparr>run_nextDomainPort := run_nextDomainPort run + 1\<rparr> in
        (case ho_LinkAdd H name s of
           (Some bridgeErr, s) \<Rightarrow> (Inl bridgeErr, run, s)
         | (None, s) \<Rightarrow>
             let run = setDomain nid (\<lambda>r. r\<lparr>dre_links := dre_links r @ [name]\<rparr>) run in
             (case ho_LinkSetUp H name s of
                (Some bridgeErr, s) \<Rightarrow> (Inl bridgeErr, run, s)
              | (None, s) \<Rightarrow>
                  (case ho_SetPromiscOn H name s of
                     (Some promiscErr, s) \<Rightarrow> (Inl promiscErr, run, s)
                   | (None, s) \<Rightarrow>
                       (case domainConnections H ctx base name nid (port_ID port) (sides links) run s of
                          (Some switchErr, run, s) \<Rightarrow> (Inl switchErr, run, s)
                        | (None, run, s) \<Rightarrow>
                            domainPorts H ctx base token links nid index (portIndex + 1)
                              (ifaces @ [\<lparr>if_MAC = domainMAC index portIndex, if_Model = ''virtio'', if_Bridge = name\<rparr>]) ports run s)))))"

text \<open>The overlay on the base image.\<close>

definition createOverlay :: "'s host \<Rightarrow> Context \<Rightarrow> string \<Rightarrow> string \<Rightarrow> 's \<Rightarrow> gerror option \<times> 's" where
  "createOverlay H ctx img overlay s =
     (case ho_Abs H img s of
        Inl absoluteErr \<Rightarrow> (Some absoluteErr, s)
      | Inr absolute \<Rightarrow>
          (case ho_Command H ctx [''qemu-img'', ''create'', ''-q'', ''-f'', ''qcow2'', ''-F'', ''qcow2'', ''-b'', absolute, overlay] s of
             ((out, Some createErr), s) \<Rightarrow> (Some (topology_Wrap ''create domain overlay'' topology_kind.ErrStart out (Some createErr)), s)
           | ((out, None), s) \<Rightarrow> ho_Chmod H overlay 420 s))"

definition overlay_disk :: Disk where
  "overlay_disk = \<lparr>disk_Source = \<lparr>ref_Provider = DefaultName, ref_Key = ''disk.qcow2''\<rparr>, disk_Device = '''', disk_Bus = ''sata'', disk_Target = ''sda'',
     disk_Format = ''qcow2'', disk_ReadOnly = False\<rparr>"

definition seed_disk :: Disk where
  "seed_disk = \<lparr>disk_Source = \<lparr>ref_Provider = DefaultName, ref_Key = ''seed.iso''\<rparr>, disk_Device = ''cdrom'', disk_Bus = ''sata'', disk_Target = ''sdb'',
     disk_Format = ''raw'', disk_ReadOnly = True\<rparr>"

text \<open>The creation of the domain through its manager, and what is kept of it.\<close>

definition createDomain :: "(string \<Rightarrow> string) \<Rightarrow> 's host \<Rightarrow> Context \<Rightarrow> NodeID \<Rightarrow> domain_Config \<Rightarrow> 's StorageManager \<Rightarrow> 's Running \<Rightarrow> 's \<Rightarrow>
    gerror option \<times> 's Running \<times> 's" where
  "createDomain fq H ctx nid cfg store run s =
     (case domain_Create fq (ho_now H) (Some store) ctx (Some (ho_CreateDomain H)) (Some cfg) s of
        (created, prepared, createErr, s) \<Rightarrow>
          let run = setDomain nid (\<lambda>r. r\<lparr>dre_prepared := prepared\<rparr>) run;
              run = (case created of
                       Some node \<Rightarrow> (setDomain nid (\<lambda>r. r\<lparr>dre_id := vn_ID (dn_Node node)\<rparr>) run)\<lparr>run_nodes := mput nid (vn_ID (dn_Node node)) (run_nodes run)\<rparr>
                     | None \<Rightarrow> run) in
          (createErr, run, s))"

text \<open>From the overlay on: the disks, the ports and the domain itself.\<close>

definition domainWorkload :: "(string \<Rightarrow> string) \<Rightarrow> 's host \<Rightarrow> Context \<Rightarrow> Topology \<Rightarrow> Topology.Node \<Rightarrow> DomainSpec \<Rightarrow> Options \<Rightarrow> string \<Rightarrow> nat \<Rightarrow>
    string \<Rightarrow> 's StorageManager \<Rightarrow> 's Running \<Rightarrow> 's \<Rightarrow> gerror option \<times> 's Running \<times> 's" where
  "domainWorkload fq H ctx t node spec options token index directory store run s =
     (let domains = the (opt_Domains options);
          img = (if do_Image domains \<noteq> '''' then do_Image domains else ds_Image spec);
          seedImage = (if do_SeedImage domains \<noteq> '''' then do_SeedImage domains else ds_SeedImage spec) in
      case createOverlay H ctx img (filepath_Join directory ''disk.qcow2'') s of
        (Some err, s) \<Rightarrow> (Some err, run, s)
      | (None, s) \<Rightarrow>
          (case ho_UUID H s of
             (domainID, s) \<Rightarrow>
               (case (if seedImage \<noteq> '''' then copyDomainSeed H seedImage (filepath_Join directory ''seed.iso'') s else (None, s)) of
                  (Some copyErr, s) \<Rightarrow> (Some copyErr, run, s)
                | (None, s) \<Rightarrow>
                    (case domainPorts H ctx (opt_BasePort options) token (top_Links t) (node_ID node) index 0 [] (node_Ports node) run s of
                       (Inl err, run, s) \<Rightarrow> (Some err, run, s)
                     | (Inr ifaces, run, s) \<Rightarrow>
                         createDomain fq H ctx (node_ID node)
                           \<lparr>dc_NodeConfig = node_config domainID (''tethux-'' @ token @ ''-'' @ show_nat index) '''' (uint (ds_CPUs spec)) (uint (ds_MemoryMB spec)),
                            dc_Machine = '''', dc_Architecture = '''', dc_Firmware = '''',
                            dc_Disks = (if seedImage \<noteq> '''' then [overlay_disk, seed_disk] else [overlay_disk]),
                            dc_Interfaces = ifaces, dc_BootOrder = [''disk'']\<rparr> store run s))))"

definition startDomain :: "(string \<Rightarrow> string) \<Rightarrow> 's host \<Rightarrow> Context \<Rightarrow> Topology \<Rightarrow> Topology.Node \<Rightarrow> DomainSpec \<Rightarrow> Options \<Rightarrow> string \<Rightarrow> nat \<Rightarrow> 's Running \<Rightarrow> 's \<Rightarrow>
    gerror option \<times> 's Running \<times> 's" where
  "startDomain fq H ctx t node spec options token index run s =
     (case ho_MkdirTemp H ''/var/tmp'' ''tethux-domain-'' s of
        (Inl directoryErr, s) \<Rightarrow> (Some directoryErr, run, s)
      | (Inr directory, s) \<Rightarrow>
          let nid = node_ID node;
              run = run\<lparr>run_domains := mput nid \<lparr>dre_manager = None, dre_prepared = None, dre_id = '''', dre_directory = directory, dre_links = [], dre_switches = []\<rparr>
                          (run_domains run),
                        run_nodes := mput nid '''' (run_nodes run), run_order := run_order run @ [nid]\<rparr> in
          (case ho_Chmod H directory 493 s of
             (Some chmodErr, s) \<Rightarrow> (Some chmodErr, run, s)
           | (None, s) \<Rightarrow>
               (case ho_NewStore H directory s of
                  (Inl storeErr, s) \<Rightarrow> (Some storeErr, run, s)
                | (Inr store, s) \<Rightarrow>
                    domainWorkload fq H ctx t node spec options token index directory store (setDomain nid (\<lambda>r. r\<lparr>dre_manager := Some store\<rparr>) run) s)))"

fun stopSwitches :: "'s host \<Rightarrow> nat list \<Rightarrow> 's \<Rightarrow> gerror list \<times> nat list \<times> 's" where
  "stopSwitches H [] s = ([], [], s)"
| "stopSwitches H (w # ws) s =
     (case ho_StopSwitch H w s of
        (e, s) \<Rightarrow> (case stopSwitches H ws s of
           (failures, remaining, s) \<Rightarrow> (case e of Some stopErr \<Rightarrow> (stopErr # failures, w # remaining, s) | None \<Rightarrow> (failures, remaining, s))))"

fun deleteLinks :: "'s host \<Rightarrow> string list \<Rightarrow> 's \<Rightarrow> gerror list \<times> string list \<times> 's" where
  "deleteLinks H [] s = ([], [], s)"
| "deleteLinks H (l # ls) s =
     (case ho_LinkDel H l s of
        (e, s) \<Rightarrow> (case deleteLinks H ls s of
           (failures, remaining, s) \<Rightarrow> (case e of Some deleteErr \<Rightarrow> (deleteErr # failures, l # remaining, s) | None \<Rightarrow> (failures, remaining, s))))"

text \<open>After the domain and its storage are given up: the bridges of the host, then the directory.\<close>

definition domain_closeLinks :: "'s host \<Rightarrow> gerror list \<Rightarrow> 's domainResources \<Rightarrow> 's \<Rightarrow> gerror option \<times> 's domainResources \<times> 's" where
  "domain_closeLinks H failures r s =
     (case deleteLinks H (dre_links r) s of
        (failures2, remaining, s) \<Rightarrow>
          let r = r\<lparr>dre_links := remaining\<rparr>; failures = failures @ failures2 in
          if failures \<noteq> [] then (errors_Join (map Some failures), r, s)
          else (case ho_RemoveAll H (dre_directory r) s of (e, s) \<Rightarrow> (e, r, s)))"

definition domain_close :: "'s host \<Rightarrow> Context \<Rightarrow> 's domainResources \<Rightarrow> 's \<Rightarrow> gerror option \<times> 's domainResources \<times> 's" where
  "domain_close H ctx r s =
     (case stopSwitches H (dre_switches r) s of
        (failures, remaining, s) \<Rightarrow>
          let r = r\<lparr>dre_switches := remaining\<rparr> in
          (case (if dre_id r \<noteq> '''' then ho_DeleteDomain H ctx (dre_id r) s else (None, s)) of
             (Some deleteErr, s) \<Rightarrow> (errors_Join (map Some (failures @ [deleteErr])), r, s)
           | (None, s) \<Rightarrow>
               let r = r\<lparr>dre_id := ''''\<rparr> in
               (case dre_prepared r of
                  None \<Rightarrow> domain_closeLinks H failures r s
                | Some prepared \<Rightarrow>
                    (case domain_Release (the (dre_manager r)) ctx (Some prepared) s of
                       (Some releaseErr, prepared, s) \<Rightarrow> (errors_Join (map Some (failures @ [releaseErr])), r\<lparr>dre_prepared := prepared\<rparr>, s)
                     | (None, _, s) \<Rightarrow> domain_closeLinks H failures (r\<lparr>dre_prepared := None\<rparr>) s))))"

section \<open>Routers\<close>

fun nativeMappings :: "(PortID, DynamipsInterface) gomap \<Rightarrow> DynamipsInterface list \<Rightarrow> gerror + (PortID, DynamipsInterface) gomap" where
  "nativeMappings mappings [] = Inr mappings"
| "nativeMappings mappings (iface # ifaces) =
     (if mget mappings (DynamipsInterface.dif_ID iface) \<noteq> None
      then Inl (topology_New ''start router'' topology_kind.ErrInvalidPort ''duplicate native port mapping'')
      else nativeMappings (mput (DynamipsInterface.dif_ID iface) iface mappings) ifaces)"

fun routerInterfaces :: "int \<Rightarrow> NodeID \<Rightarrow> (PortID, DynamipsInterface) gomap \<Rightarrow> dynamips_Interface list \<Rightarrow> (nat \<times> nat \<times> Link) list \<Rightarrow>
    gerror + dynamips_Interface list" where
  "routerInterfaces base nid mappings ifaces [] = Inr ifaces"
| "routerInterfaces base nid mappings ifaces ((index, side, l) # rest) =
     (let endpoint = side_endpoint side l in
      if ep_Node endpoint \<noteq> nid then routerInterfaces base nid mappings ifaces rest
      else case mget mappings (ep_Port endpoint) of
        None \<Rightarrow> Inl (topology_New ''start router'' topology_kind.ErrInvalidPort (''missing native mapping for '' @ Endpoint_String endpoint))
      | Some m \<Rightarrow>
          let port = localPort base index side; remote = remotePort base index side in
          if port < 1 \<or> port > 65535 \<or> remote < 1 \<or> remote > 65535
          then Inl (topology_New ''start router'' topology_kind.ErrStart ''UDP port range must fit within 1..65535'')
          else routerInterfaces base nid mappings
            (ifaces @ [\<lparr>dynamips_Interface.dif_ID = ep_Port endpoint, dif_Slot = DynamipsInterface.dif_Slot m, dif_Port = DynamipsInterface.dif_Port m,
              dif_UDP = \<lparr>udp_LocalPort = word_of_int port, udp_Remote = Addr4 ''127.0.0.1'' (word_of_int remote)\<rparr>\<rparr>]) rest)"

text \<open>The configuration of a router, or the error that its checks report.\<close>

definition console_port :: "DynamipsOptions \<Rightarrow> DynamipsSpec \<Rightarrow> nat \<Rightarrow> gerror + 16 word" where
  "console_port d spec index =
     (if DynamipsSpec.dy_ConsolePort spec \<noteq> 0 then Inr (DynamipsSpec.dy_ConsolePort spec)
      else
        let port = (if dyo_ConsoleBasePort d = 0 then 20000 else dyo_ConsoleBasePort d) + int index in
        if port < 1 \<or> port > 65535 then Inl (topology_New ''start router'' topology_kind.ErrStart ''console port range must fit within 1..65535'')
        else Inr (word_of_int port))"

definition router_platform :: "DynamipsSpec \<Rightarrow> gerror + PlatformConfig" where
  "router_platform spec =
     (let platform = (if DynamipsSpec.dy_Platform spec = '''' then ''c7200'' else DynamipsSpec.dy_Platform spec) in
      if platform = ''c7200'' then
        Inr \<lparr>plat_Name = platform, plat_Chassis = '''', plat_MAC = None,
          plat_C7200 = Some \<lparr>c72_NPE = (if dy_NPE spec = '''' then ''npe-400'' else dy_NPE spec), c72_Midplane = (if dy_Midplane spec = '''' then ''vxr'' else dy_Midplane spec)\<rparr>\<rparr>
      else if dy_NPE spec \<noteq> '''' \<or> dy_Midplane spec \<noteq> ''''
      then Inl (topology_New ''start router'' topology_kind.ErrUnsupported ''NPE and midplane require c7200'')
      else Inr \<lparr>plat_Name = platform, plat_Chassis = '''', plat_MAC = None, plat_C7200 = None\<rparr>)"

definition router_state :: "string \<Rightarrow> NodeID \<Rightarrow> Ref" where
  "router_state topID nid = \<lparr>ref_Provider = DefaultName, ref_Key = filepath_Join topID nid\<rparr>"

definition router_config :: "Topology \<Rightarrow> Topology.Node \<Rightarrow> DynamipsSpec \<Rightarrow> Options \<Rightarrow> string \<Rightarrow> nat \<Rightarrow> gerror + dynamips_Config" where
  "router_config t node spec options token index =
     (let d = the (opt_Dynamips options); nid = node_ID node in
      if index \<ge> 2147483647 \<or> unat (DynamipsSpec.dy_RAMMB spec) > 2048
      then Inl (topology_New ''start router'' topology_kind.ErrUnsupported ''router count or RAM exceeds native ranges'')
      else case console_port d spec index of
        Inl e \<Rightarrow> Inl e
      | Inr consolePort \<Rightarrow>
          (case router_platform spec of
             Inl e \<Rightarrow> Inl e
           | Inr platform \<Rightarrow>
               (case nativeMappings [] (DynamipsSpec.dy_Interfaces spec) of
                  Inl e \<Rightarrow> Inl e
                | Inr mappings \<Rightarrow>
                    (case routerInterfaces (opt_BasePort options) nid mappings [] (sides (top_Links t)) of
                       Inl e \<Rightarrow> Inl e
                     | Inr ifaces \<Rightarrow>
                         Inr \<lparr>dy_NodeConfig = node_config nid (''tethux-'' @ token @ ''-'' @ show_nat index)
                                (if dyo_Image d \<noteq> '''' then dyo_Image d else DynamipsSpec.dy_Image spec) 0 (uint (DynamipsSpec.dy_RAMMB spec)),
                              dy_State = router_state (top_ID t) nid, dy_Platform = platform, dy_InstanceID = of_nat index + 1,
                              dy_Cards = map (\<lambda>c. \<lparr>card_Slot = DynamipsCard.card_Slot c, card_Name = DynamipsCard.card_Name c\<rparr>) (DynamipsSpec.dy_Cards spec),
                              dy_Interfaces = ifaces, dy_ConsolePort = consolePort, dy_EnhancedConsole = DynamipsSpec.dy_EnhancedConsole spec,
                              dy_StartupConfig = (if DynamipsSpec.dy_StartupConfig spec \<noteq> '''' then Some (map of_char (DynamipsSpec.dy_StartupConfig spec)) else None),
                              dy_PrivateConfig = (if DynamipsSpec.dy_StartupConfig spec \<noteq> '''' then Some [] else None)\<rparr>))))"

definition startRouter :: "'s host \<Rightarrow> Context \<Rightarrow> Topology \<Rightarrow> Topology.Node \<Rightarrow> DynamipsSpec \<Rightarrow> Options \<Rightarrow> string \<Rightarrow> nat \<Rightarrow> 's Running \<Rightarrow> 's \<Rightarrow>
    gerror option \<times> 's Running \<times> 's" where
  "startRouter H ctx t node spec options token index run s =
     (case router_config t node spec options token index of
        Inl err \<Rightarrow> (Some err, run, s)
      | Inr cfg \<Rightarrow>
          (case manager_Create (ho_now H) (run_manager run) ctx (if run_dynamips run then Some (ho_Router H) else None) (Some cfg) s of
             (created, resources, createErr, s) \<Rightarrow>
               let nid = node_ID node;
                   run = (case resources of
                            Some r \<Rightarrow> run\<lparr>run_nodes := mput nid (nc_ID (dy_NodeConfig cfg)) (run_nodes run), run_routers := mput nid r (run_routers run),
                                          run_order := run_order run @ [nid]\<rparr>
                          | None \<Rightarrow> run) in
               (case createErr of
                  Some e \<Rightarrow> (Some e, run, s)
                | None \<Rightarrow> (case ho_StartRouter H ctx (vn_ID (the created)) s of (startErr, s) \<Rightarrow> (startErr, run, s)))))"

section \<open>Endpoints\<close>

definition endpoint_IP :: "'s host \<Rightarrow> string \<Rightarrow> gerror + Addr" where
  "endpoint_IP H s = (case ParseAddr4 s of Some bs \<Rightarrow> Inr (AddrV4 bs) | None \<Rightarrow> ho_ParseOther H s)"

definition mac_err :: "string \<Rightarrow> gerror" where
  "mac_err s = Foreign (if s = '''' then ''invalid MAC address'' else ''address '' @ s @ '': invalid MAC address'') []"

definition startEndpoint :: "'s host \<Rightarrow> Context \<Rightarrow> Topology \<Rightarrow> Topology.Node \<Rightarrow> ShitnetSpec \<Rightarrow> int \<Rightarrow> 's Running \<Rightarrow> 's \<Rightarrow>
    gerror option \<times> 's Running \<times> 's" where
  "startEndpoint H ctx t node spec base run s =
     (case endpoint_IP H (ss_IP spec) of
        Inl ipErr \<Rightarrow> (Some (topology_Wrap ''parse endpoint IP'' topology_kind.ErrInvalidNode (node_ID node) (Some ipErr)), run, s)
      | Inr ip \<Rightarrow>
          (case ParseMAC (ss_MAC spec) of
             None \<Rightarrow> (Some (topology_Wrap ''parse endpoint MAC'' topology_kind.ErrInvalidNode (node_ID node) (Some (mac_err (ss_MAC spec)))), run, s)
           | Some mac \<Rightarrow>
               if length mac \<noteq> 6 then (Some (topology_Wrap ''parse endpoint MAC'' topology_kind.ErrInvalidNode (node_ID node) None), run, s)
               else case List.find (\<lambda>(index, side, l). ep_Node (side_endpoint side l) = node_ID node) (sides (top_Links t)) of
                 None \<Rightarrow> (Some (topology_New ''start endpoint'' topology_kind.ErrInvalidPort ''Shitnet requires a linked Ethernet port''), run, s)
               | Some (index, side, l) \<Rightarrow>
                   let lport = localPort base index side; rport = remotePort base index side; nid = node_ID node in
                   if lport < 1 \<or> lport > 65535 \<or> rport < 1 \<or> rport > 65535
                   then (Some (topology_New ''start endpoint'' topology_kind.ErrInvalidPort ''UDP ports must fit within 1..65535''), run, s)
                   else case ho_CreateEndpoint H ctx \<lparr>snc_ID = nid, snc_Name = node_Name node, snc_IP = ip, snc_MAC = map of_nat mac,
                          snc_Local = Addr4 ''127.0.0.1'' (word_of_int lport), snc_Remote = Addr4 ''127.0.0.1'' (word_of_int rport)\<rparr> s of
                     (Inl createErr, s) \<Rightarrow> (Some createErr, run, s)
                   | (Inr _, s) \<Rightarrow>
                       let run = run\<lparr>run_nodes := mput nid nid (run_nodes run), run_endpoints := mput nid () (run_endpoints run), run_order := run_order run @ [nid]\<rparr> in
                       (case ho_StartEndpoint H ctx nid s of (startErr, s) \<Rightarrow> (startErr, run, s))))"

section \<open>Containers\<close>

definition container_config :: "Topology \<Rightarrow> Topology.Node \<Rightarrow> ContainerSpec \<Rightarrow> string \<Rightarrow> nat \<Rightarrow> container_RuntimeConfig" where
  "container_config t node spec token index =
     \<lparr>rc_NodeConfig = node_config '''' (''tethux-topology-'' @ token @ ''-'' @ show_nat index) '''' 0 0, rc_Image = ParseImage (cs_Image spec), rc_Entrypoint = [],
      rc_Cmd = cs_Command spec, rc_Env = map (\<lambda>v. env_Name v @ ''='' @ env_Value v) (cs_Env spec), rc_Volumes = [],
      rc_CapAdd = [''CAP_NET_ADMIN'', ''CAP_NET_RAW''], rc_CapDrop = [], rc_Privileged = False, rc_NetworkMode = ''none'', rc_Hostname = '''', rc_DNS = [], rc_ExtraHosts = [],
      rc_Labels = [(''tethux.topology'', top_ID t), (''tethux.node'', node_ID node)]\<rparr>"

text \<open>A missing image is pulled, once.\<close>

definition createContainer :: "'s host \<Rightarrow> nat \<Rightarrow> Context \<Rightarrow> string \<Rightarrow> container_RuntimeConfig \<Rightarrow> 's \<Rightarrow> (gerror + ContainerNode) \<times> 's" where
  "createContainer H provider ctx img cfg s =
     (case ho_CreateContainer H provider ctx cfg s of
        (Inr created, s) \<Rightarrow> (Inr created, s)
      | (Inl err, s) \<Rightarrow>
          if \<not> ho_IsNotFound H err then (Inl err, s)
          else case ho_Pull H provider ctx img s of
            (Some err, s) \<Rightarrow> (Inl err, s)
          | (None, s) \<Rightarrow> ho_CreateContainer H provider ctx cfg s)"

definition startContainer :: "(string \<Rightarrow> string) \<Rightarrow> 's host \<Rightarrow> Context \<Rightarrow> Topology \<Rightarrow> Topology.Node \<Rightarrow> ContainerSpec \<Rightarrow> Options \<Rightarrow> string \<Rightarrow> nat \<Rightarrow>
    (NodeID, int) gomap \<Rightarrow> 's Running \<Rightarrow> 's \<Rightarrow> gerror option \<times> (NodeID, int) gomap \<times> 's Running \<times> 's" where
  "startContainer fq H ctx t node spec options token index pids run s =
     (case containerProvider H options (cs_Provider spec) of
        Inl providerErr \<Rightarrow> (Some providerErr, pids, run, s)
      | Inr provider \<Rightarrow>
          (case createContainer H provider ctx (cs_Image spec) (container_config t node spec token index) s of
             (Inl err, s) \<Rightarrow> (Some err, pids, run, s)
           | (Inr created, s) \<Rightarrow>
               let nid = node_ID node; i = vn_ID (cn_Node created);
                   run = run\<lparr>run_nodes := mput nid i (run_nodes run), run_providers := mput nid provider (run_providers run), run_order := run_order run @ [nid]\<rparr> in
               (case ho_StartContainer H provider ctx i s of
                  (Some err, s) \<Rightarrow> (Some err, pids, run, s)
                | (None, s) \<Rightarrow>
                    (case ho_Inspect H provider ctx i s of
                       (Inl err, s) \<Rightarrow> (Some err, pids, run, s)
                     | (Inr inspected, s) \<Rightarrow>
                         if vn_State (cn_Node inspected) \<noteq> NodeRunning \<or> cn_PID inspected = 0
                         then (Some (topology_New ''start local topology'' topology_kind.ErrStart (''node '' @ fq nid @ '' did not enter running state'')), pids, run, s)
                         else (None, mput nid (uint (cn_PID inspected)) pids, run, s)))))"

section \<open>Starting a topology\<close>

definition startNode :: "(string \<Rightarrow> string) \<Rightarrow> 's host \<Rightarrow> Context \<Rightarrow> Topology \<Rightarrow> Options \<Rightarrow> string \<Rightarrow> nat \<Rightarrow> Topology.Node \<Rightarrow>
    (NodeID, int) gomap \<Rightarrow> 's Running \<Rightarrow> 's \<Rightarrow> gerror option \<times> (NodeID, int) gomap \<times> 's Running \<times> 's" where
  "startNode fq H ctx t options token index node pids run s =
     (case node_Spec node of
        Some (Domain spec) \<Rightarrow> (case startDomain fq H ctx t node spec options token index run s of (e, run, s) \<Rightarrow> (e, pids, run, s))
      | Some (Topology.Shitnet spec) \<Rightarrow> (case startEndpoint H ctx t node spec (opt_BasePort options) run s of (e, run, s) \<Rightarrow> (e, pids, run, s))
      | Some (Topology.Dynamips spec) \<Rightarrow> (case startRouter H ctx t node spec options token index run s of (e, run, s) \<Rightarrow> (e, pids, run, s))
      | Some (Container spec) \<Rightarrow> startContainer fq H ctx t node spec options token index pids run s
      | _ \<Rightarrow> (Some (topology_New ''start local topology'' topology_kind.ErrUnsupported (node_ID node)), pids, run, s))"

fun startNodes :: "(string \<Rightarrow> string) \<Rightarrow> 's host \<Rightarrow> Context \<Rightarrow> Topology \<Rightarrow> Options \<Rightarrow> string \<Rightarrow> nat \<Rightarrow> Topology.Node list \<Rightarrow>
    (NodeID, int) gomap \<Rightarrow> 's Running \<Rightarrow> 's \<Rightarrow> gerror option \<times> (NodeID, int) gomap \<times> 's Running \<times> 's" where
  "startNodes fq H ctx t options token index [] pids run s = (None, pids, run, s)"
| "startNodes fq H ctx t options token index (node # nodes) pids run s =
     (case startNode fq H ctx t options token index node pids run s of
        (Some err, pids, run, s) \<Rightarrow> (Some err, pids, run, s)
      | (None, pids, run, s) \<Rightarrow> startNodes fq H ctx t options token (index + 1) nodes pids run s)"

text \<open>Only the ends at containers get a bridge here.\<close>

fun connectLinks :: "'s host \<Rightarrow> Context \<Rightarrow> int \<Rightarrow> string \<Rightarrow> (NodeID, int) gomap \<Rightarrow> (nat \<times> nat \<times> Link) list \<Rightarrow> 's Running \<Rightarrow> 's \<Rightarrow>
    gerror option \<times> 's Running \<times> 's" where
  "connectLinks H ctx base token pids [] run s = (None, run, s)"
| "connectLinks H ctx base token pids ((index, side, l) # rest) run s =
     (let endpoint = side_endpoint side l; n = ep_Node endpoint in
      if mget (run_domains run) n \<noteq> None \<or> mget (run_endpoints run) n \<noteq> None \<or> mget (run_routers run) n \<noteq> None
      then connectLinks H ctx base token pids rest run s
      else case ctx_Done ctx (ho_now H s) of
        Some err \<Rightarrow> (Some err, run, s)
      | None \<Rightarrow>
          (case ho_StartContainerBridge H
              \<lparr>cb_PID = (case mget pids n of Some p \<Rightarrow> p | None \<Rightarrow> 0), cb_HostIf = hostIf token (2 * index + side), cb_ContainerIf = ep_Port endpoint,
               cb_MTU = (if link_MTU l = 0 then 1500 else uint (link_MTU l)),
               cb_Listen = loopback (localPort base index side), cb_Remote = loopback (remotePort base index side)\<rparr> s of
             (Inl err, s) \<Rightarrow> (Some err, run, s)
           | (Inr connection, s) \<Rightarrow> connectLinks H ctx base token pids rest (run\<lparr>run_bridges := run_bridges run @ [connection]\<rparr>) s))"

definition run_start :: "(string \<Rightarrow> string) \<Rightarrow> 's host \<Rightarrow> Context \<Rightarrow> Topology \<Rightarrow> Options \<Rightarrow> string \<Rightarrow> 's Running \<Rightarrow> 's \<Rightarrow>
    gerror option \<times> 's Running \<times> 's" where
  "run_start fq H ctx t options token run s =
     (case startNodes fq H ctx t options token 0 (top_Nodes t) [] run s of
        (Some err, _, run, s) \<Rightarrow> (Some err, run, s)
      | (None, pids, run, s) \<Rightarrow> connectLinks H ctx (opt_BasePort options) token pids (sides (top_Links t)) run s)"

section \<open>Closing a run\<close>

text \<open>The bridges from the last to the first; those whose closing failed are kept. The list is reversed.\<close>

fun closeBridges :: "'s host \<Rightarrow> nat list \<Rightarrow> 's \<Rightarrow> gerror list \<times> nat list \<times> 's" where
  "closeBridges H [] s = ([], [], s)"
| "closeBridges H (b # bs) s =
     (case ho_CloseBridge H b s of
        (e, s) \<Rightarrow> (case closeBridges H bs s of
           (failures, kept, s) \<Rightarrow>
             (case e of
                Some err \<Rightarrow> (topology_Wrap ''close local topology bridge'' topology_kind.ErrCleanup '''' (Some err) # failures, b # kept, s)
              | None \<Rightarrow> (failures, kept, s))))"

definition closeNode :: "'s host \<Rightarrow> Context \<Rightarrow> NodeID \<Rightarrow> 's Running \<Rightarrow> 's \<Rightarrow> gerror option \<times> 's Running \<times> 's" where
  "closeNode H ctx n run s =
     (case mget (run_nodes run) n of
        None \<Rightarrow> (None, run, s)
      | Some i \<Rightarrow>
          (case mget (run_domains run) n of
             Some resources \<Rightarrow>
               (case domain_close H ctx resources s of
                  (Some closeErr, resources, s) \<Rightarrow> (Some closeErr, run\<lparr>run_domains := mput n resources (run_domains run)\<rparr>, s)
                | (None, _, s) \<Rightarrow> (None, run\<lparr>run_domains := mdel n (run_domains run), run_nodes := mdel n (run_nodes run)\<rparr>, s))
           | None \<Rightarrow>
               if mget (run_endpoints run) n \<noteq> None then
                 (case ho_DeleteEndpoint H ctx i s of
                    (Some deleteErr, s) \<Rightarrow> (Some deleteErr, run, s)
                  | (None, s) \<Rightarrow> (None, run\<lparr>run_endpoints := mdel n (run_endpoints run), run_nodes := mdel n (run_nodes run)\<rparr>, s))
               else case mget (run_routers run) n of
                 Some resources \<Rightarrow>
                   (case manager_Delete (run_manager run) ctx (if run_dynamips run then Some (ho_Router H) else None) i (Some resources) s of
                      (Some routerErr, resources, s) \<Rightarrow> (Some routerErr, run\<lparr>run_routers := mput n (the resources) (run_routers run)\<rparr>, s)
                    | (None, _, s) \<Rightarrow> (None, run\<lparr>run_routers := mdel n (run_routers run), run_nodes := mdel n (run_nodes run)\<rparr>, s))
               | None \<Rightarrow>
                   (case ho_DeleteContainer H (the (mget (run_providers run) n)) ctx i s of
                      (Some err, s) \<Rightarrow> (Some (topology_Wrap ''delete local topology node'' topology_kind.ErrCleanup n (Some err)), run, s)
                    | (None, s) \<Rightarrow> (None, run\<lparr>run_nodes := mdel n (run_nodes run)\<rparr>, s))))"

fun closeNodes :: "'s host \<Rightarrow> Context \<Rightarrow> NodeID list \<Rightarrow> gerror list \<Rightarrow> 's Running \<Rightarrow> 's \<Rightarrow> gerror list \<times> 's Running \<times> 's" where
  "closeNodes H ctx [] failures run s = (failures, run, s)"
| "closeNodes H ctx (n # ns) failures run s =
     (case closeNode H ctx n run s of
        (Some e, run, s) \<Rightarrow> closeNodes H ctx ns (failures @ [e]) run s
      | (None, run, s) \<Rightarrow> closeNodes H ctx ns failures run s)"

definition run_Close :: "'s host \<Rightarrow> Context \<Rightarrow> 's Running \<Rightarrow> 's \<Rightarrow> gerror option \<times> 's Running \<times> 's" where
  "run_Close H ctx run s =
     (case closeBridges H (rev (run_bridges run)) s of
        (failures, kept, s) \<Rightarrow>
          (case closeNodes H ctx (rev (run_order run)) failures (run\<lparr>run_bridges := rev kept\<rparr>) s of
             (failures, run, s) \<Rightarrow> (errors_Join (map Some failures), run, s)))"

section \<open>A run from its start\<close>

definition empty_run :: "bool \<Rightarrow> 's StorageManager option \<Rightarrow> 's Running" where
  "empty_run dynamips manager =
     \<lparr>run_providers = [], run_nodes = [], run_order = [], run_bridges = [], run_dynamips = dynamips, run_manager = manager,
      run_routers = [], run_endpoints = [], run_domains = [], run_nextDomainPort = 0\<rparr>"

definition startRun :: "(string \<Rightarrow> string) \<Rightarrow> 's host \<Rightarrow> Context \<Rightarrow> Topology \<Rightarrow> Options \<Rightarrow> 's Running \<Rightarrow> 's \<Rightarrow> 's Running option \<times> gerror option \<times> 's" where
  "startRun fq H ctx t options run s =
     (case ho_UUID H s of
        (fresh, s) \<Rightarrow>
          let token = take 8 (filter (\<lambda>c. c \<noteq> CHR ''-'') fresh) in
          (case run_start fq H ctx t options token run s of
             (None, run, s) \<Rightarrow> (Some run, None, s)
           | (Some err, run, s) \<Rightarrow>
               let startErr = topology_Wrap ''start local topology'' topology_kind.ErrStart (top_ID t) (Some err) in
               (case run_Close H (cleanup_NewContext (ho_now H s) ctx) run s of
                  (Some cleanupErr, run, s) \<Rightarrow> (Some run, errors_Join [Some startErr, Some cleanupErr], s)
                | (None, run, s) \<Rightarrow> (None, Some startErr, s))))"

definition local_Start :: "(string \<Rightarrow> string) \<Rightarrow> 's host \<Rightarrow> Context \<Rightarrow> Topology option \<Rightarrow> Options \<Rightarrow> 's \<Rightarrow> 's Running option \<times> gerror option \<times> 's" where
  "local_Start fq H ctx t options s =
     (case Validate fq t of
        Some err \<Rightarrow> (None, Some err, s)
      | None \<Rightarrow>
          (case validateSupport fq H (the t) options of
             Some err \<Rightarrow> (None, Some err, s)
           | None \<Rightarrow>
               let options = options\<lparr>opt_BasePort := base_port options\<rparr> in
               (case opt_Dynamips options of
                  None \<Rightarrow> startRun fq H ctx (the t) options (empty_run False None) s
                | Some d \<Rightarrow>
                    (case ho_NewStore H (dyo_StateRoot d) s of
                       (Inl managerErr, s) \<Rightarrow> (None, Some managerErr, s)
                     | (Inr manager, s) \<Rightarrow> startRun fq H ctx (the t) options (empty_run (dyo_Provider d) (Some manager)) s))))"

section \<open>Looking up nodes\<close>

definition ContainerProvider :: "'s Running \<Rightarrow> NodeID \<Rightarrow> gerror + nat" where
  "ContainerProvider run i =
     (case mget (run_providers run) i of
        None \<Rightarrow> Inl (topology_New ''find container provider'' topology_kind.ErrUnsupported i)
      | Some provider \<Rightarrow> Inr provider)"

definition run_Node :: "'s host \<Rightarrow> Context \<Rightarrow> NodeID \<Rightarrow> 's Running \<Rightarrow> 's \<Rightarrow> (gerror + Virt_Types.Node) \<times> 's" where
  "run_Node H ctx i run s =
     (case mget (run_nodes run) i of
        None \<Rightarrow> (Inl (topology_New ''find topology node'' topology_kind.ErrNotFound i), s)
      | Some runtimeID \<Rightarrow>
          if mget (run_domains run) i \<noteq> None then ho_ReloadDomain H ctx runtimeID s
          else if mget (run_routers run) i \<noteq> None then ho_ReloadRouter H ctx runtimeID s
          else if mget (run_endpoints run) i \<noteq> None then ho_ReloadEndpoint H ctx runtimeID s
          else ho_ReloadContainer H (the (mget (run_providers run) i)) ctx runtimeID s)"

definition ContainerID :: "'s Running \<Rightarrow> NodeID \<Rightarrow> gerror + string" where
  "ContainerID run i =
     (if mget (run_domains run) i \<noteq> None \<or> mget (run_endpoints run) i \<noteq> None \<or> mget (run_routers run) i \<noteq> None
      then Inl (topology_New ''find local container'' topology_kind.ErrUnsupported i)
      else case mget (run_nodes run) i of
        None \<Rightarrow> Inl (topology_New ''find local topology node'' topology_kind.ErrNotFound i)
      | Some containerID \<Rightarrow> Inr containerID)"

end
