(* ===== verification/Topology_Local_Facts.thy ===== *)
theory Topology_Local_Facts
  imports Topology_Local Topology_Properties Virt_Manager_Facts
begin

text \<open>
  The resources that the handle of a run tracks, and the accounts of them: the locale \<open>host_account\<close>
  says what the calls of a host do to the resources that exist. From its laws follows, step by step,
  that the start of a topology keeps the invariant \<open>good\<close>, by which everything new is tracked, and that
  closing a run keeps it too and, when it reports no error, leaves nothing of the run.
\<close>

section \<open>Resources of a run\<close>

text \<open>The last three are what a creation that failed may have left although its caller got nothing to
  delete it with: a container of a provider, a domain by its name, the interfaces of a link bridge by
  the name of the host's one.\<close>

datatype res = RContainer nat string | RRouter string | REndpoint string | RDomain string | RDir string | RLink string | RSwitch nat | RBridge nat
  | LeftContainer nat string | LeftDomain string | LeftBridge string

fun leftover :: "res \<Rightarrow> bool" where
  "leftover (LeftContainer _ _) = True"
| "leftover (LeftDomain _) = True"
| "leftover (LeftBridge _) = True"
| "leftover _ = False"

definition domain_res :: "'s domainResources \<Rightarrow> res set" where
  "domain_res r = insert (RDir (dre_directory r)) (RLink ` set (dre_links r) \<union> RSwitch ` set (dre_switches r) \<union> (if dre_id r = '''' then {} else {RDomain (dre_id r)}))"

text \<open>What the handle of a run leads to: the resources that \<open>Close\<close> would delete.\<close>

definition tracked_node :: "'s Running \<Rightarrow> NodeID \<Rightarrow> res set" where
  "tracked_node run n =
     (case mget (run_nodes run) n of
        None \<Rightarrow> {}
      | Some i \<Rightarrow>
          if n \<notin> set (run_order run) then {}
          else case mget (run_domains run) n of
            Some r \<Rightarrow> domain_res r
          | None \<Rightarrow>
              if mget (run_endpoints run) n \<noteq> None then {REndpoint i}
              else case mget (run_routers run) n of Some _ \<Rightarrow> {RRouter i} | None \<Rightarrow> {RContainer (the (mget (run_providers run) n)) i})"

lemma subset_replace: "A \<subseteq> B \<union> (R \<union> U) \<Longrightarrow> T \<subseteq> A \<Longrightarrow> T \<inter> R \<subseteq> K \<Longrightarrow> T \<subseteq> B \<union> (K \<union> U)"
  by blast

lemma tracked_node_cong:
  "mget (run_nodes a) m = mget (run_nodes b) m \<Longrightarrow> mget (run_domains a) m = mget (run_domains b) m \<Longrightarrow> mget (run_endpoints a) m = mget (run_endpoints b) m \<Longrightarrow>
   mget (run_routers a) m = mget (run_routers b) m \<Longrightarrow> mget (run_providers a) m = mget (run_providers b) m \<Longrightarrow>
   m \<in> set (run_order a) \<longleftrightarrow> m \<in> set (run_order b) \<Longrightarrow> tracked_node a m = tracked_node b m"
  unfolding tracked_node_def by (simp cong: option.case_cong if_cong)

definition tracked :: "'s Running \<Rightarrow> res set" where
  "tracked run = RBridge ` set (run_bridges run) \<union> (\<Union>n. tracked_node run n)"

lemma tracked_grow:
  assumes "set (run_bridges run) \<subseteq> set (run_bridges run')" "\<And>m. m \<noteq> n \<Longrightarrow> tracked_node run' m = tracked_node run m"
  shows "tracked run \<subseteq> tracked run' \<union> tracked_node run n" "tracked_node run' n \<subseteq> tracked run'"
proof -
  have "tracked_node run m \<subseteq> tracked run' \<union> tracked_node run n" for m
    using assms(2) [of m] by (cases "m = n") (auto simp: tracked_def)
  with assms(1) show "tracked run \<subseteq> tracked run' \<union> tracked_node run n" by (auto simp: tracked_def)
  show "tracked_node run' n \<subseteq> tracked run'" by (auto simp: tracked_def)
qed

text \<open>Nodes that are not in the order have left no trace.\<close>

definition tidy :: "'s Running \<Rightarrow> bool" where
  "tidy run \<longleftrightarrow> (\<forall>n. n \<notin> set (run_order run) \<longrightarrow> mget (run_nodes run) n = None \<and> mget (run_domains run) n = None \<and>
     mget (run_endpoints run) n = None \<and> mget (run_routers run) n = None)"

lemma tidy_fresh: "tidy run \<Longrightarrow> n \<notin> set (run_order run) \<Longrightarrow> tracked_node run n = {}"
  by (simp add: tracked_node_def split: option.splits)

definition domains_named :: "'s host \<Rightarrow> bool" where
  "domains_named H \<longleftrightarrow> (\<forall>ctx cfg s d e s'. ho_CreateDomain H ctx cfg s = ((Some d, e), s') \<longrightarrow> vn_ID (dn_Node d) \<noteq> '''')"

section \<open>Accounts of resources\<close>

definition quiet_store :: "('s \<Rightarrow> res set) \<Rightarrow> 's StorageManager \<Rightarrow> bool" where
  "quiet_store live M \<longleftrightarrow> (\<forall>ctx req s. live (snd (sm_Prepare M ctx req s)) \<subseteq> live s) \<and> (\<forall>ctx r s. live (snd (sm_Release M ctx r s)) \<subseteq> live s)"

locale host_account =
  fixes H :: "'s host"
    and live :: "'s \<Rightarrow> res set"
  assumes quiet: "live (snd (ho_UUID H s)) \<subseteq> live s" "live (snd (ho_Pull H p ctx i s)) \<subseteq> live s" "live (snd (ho_StartContainer H p ctx i s)) \<subseteq> live s"
      "live (snd (ho_Inspect H p ctx i s)) \<subseteq> live s" "live (snd (ho_NewStore H i s)) \<subseteq> live s" "live (snd (ho_StartRouter H ctx i s)) \<subseteq> live s"
      "live (snd (ho_StartEndpoint H ctx i s)) \<subseteq> live s" "live (snd (ho_Chmod H i m s)) \<subseteq> live s" "live (snd (ho_Command H ctx as s)) \<subseteq> live s"
      "live (snd (ho_Open H i s)) \<subseteq> live s" "live (snd (ho_CreateExcl H i m s)) \<subseteq> live s" "live (snd (ho_Copy H p m s)) \<subseteq> live s"
      "live (snd (ho_CloseFile H p s)) \<subseteq> live s" "live (snd (ho_LinkSetUp H i s)) \<subseteq> live s" "live (snd (ho_SetPromiscOn H i s)) \<subseteq> live s"
      "live (snd (ho_NewRawSocketPort H i k s)) \<subseteq> live s" "live (snd (ho_NewUDPPort H i j k s)) \<subseteq> live s" "live (snd (ho_ClosePort H p s)) \<subseteq> live s"
      "live (snd (ho_NewSwitch H s)) \<subseteq> live s" "live (snd (ho_AttachPort H p m s)) \<subseteq> live s"
    and store: "ho_NewStore H i s = (Inr M, s') \<Longrightarrow> quiet_store live M"
    and container_new: "ho_CreateContainer H p ctx cc s = (x, s') \<Longrightarrow> live s' \<subseteq> live s \<union> (case x of Inr c \<Rightarrow> {RContainer p (vn_ID (cn_Node c))} | Inl _ \<Rightarrow> {})"
    and container_del: "ho_DeleteContainer H p ctx i s = (e, s') \<Longrightarrow> live s' \<subseteq> live s - (if e = None then {RContainer p i} else {})"
    and router_new: "rp_CreateRouter (ho_Router H) ctx rcfg s = (y, s') \<Longrightarrow>
      live s' \<subseteq> live s \<union> (if (case y of Inl e' \<Rightarrow> errors_Is e' (DynamipsKind dynamips_kind.ErrCleanup) | Inr _ \<Rightarrow> True) then {RRouter (rid rcfg)} else {})"
    and router_del: "rp_Delete (ho_Router H) ctx i s = (e, s') \<Longrightarrow> live s' \<subseteq> live s - (if e = None then {RRouter i} else {})"
    and endpoint_new: "ho_CreateEndpoint H ctx ec s = (z, s') \<Longrightarrow> live s' \<subseteq> live s \<union> (case z of Inr _ \<Rightarrow> {REndpoint (snc_ID ec)} | Inl _ \<Rightarrow> {})"
    and endpoint_del: "ho_DeleteEndpoint H ctx i s = (e, s') \<Longrightarrow> live s' \<subseteq> live s - (if e = None then {REndpoint i} else {})"
    and domain_new: "ho_CreateDomain H ctx dcfg s = ((d, e), s') \<Longrightarrow> live s' \<subseteq> live s \<union> (case d of Some d \<Rightarrow> {RDomain (vn_ID (dn_Node d))} | None \<Rightarrow> {})"
    and domain_del: "ho_DeleteDomain H ctx i s = (e, s') \<Longrightarrow> live s' \<subseteq> live s - (if e = None then {RDomain i} else {})"
    and dir_new: "ho_MkdirTemp H i j s = (v, s') \<Longrightarrow> live s' \<subseteq> live s \<union> (case v of Inr dir \<Rightarrow> {RDir dir} | Inl _ \<Rightarrow> {})"
    and dir_del: "ho_RemoveAll H i s = (e, s') \<Longrightarrow> live s' \<subseteq> live s - (if e = None then {RDir i} else {})"
    and link_new: "ho_LinkAdd H i s = (e, s') \<Longrightarrow> live s' \<subseteq> live s \<union> (if e = None then {RLink i} else {})"
    and link_del: "ho_LinkDel H i s = (e, s') \<Longrightarrow> live s' \<subseteq> live s - (if e = None then {RLink i} else {})"
    and switch_new: "ho_StartSwitch H p s = (e, s') \<Longrightarrow> live s' \<subseteq> live s \<union> (if e = None then {RSwitch p} else {})"
    and switch_del: "ho_StopSwitch H p s = (e, s') \<Longrightarrow> live s' \<subseteq> live s - (if e = None then {RSwitch p} else {})"
    and bridge_new: "ho_StartContainerBridge H bo s = (u, s') \<Longrightarrow> live s' \<subseteq> live s \<union> (case u of Inr b \<Rightarrow> {RBridge b} | Inl _ \<Rightarrow> {})"
    and bridge_del: "ho_CloseBridge H p s = (e, s') \<Longrightarrow> live s' \<subseteq> live s - (if e = None then {RBridge p} else {})"
begin

lemma live_quiet:
  "ho_UUID H s = (a1, s') \<Longrightarrow> live s' \<subseteq> live s" "ho_Pull H p ctx i s = (a2, s') \<Longrightarrow> live s' \<subseteq> live s"
  "ho_StartContainer H p ctx i s = (a3, s') \<Longrightarrow> live s' \<subseteq> live s" "ho_Inspect H p ctx i s = (a4, s') \<Longrightarrow> live s' \<subseteq> live s"
  "ho_NewStore H i s = (a5, s') \<Longrightarrow> live s' \<subseteq> live s" "ho_StartRouter H ctx i s = (a6, s') \<Longrightarrow> live s' \<subseteq> live s"
  "ho_StartEndpoint H ctx i s = (a7, s') \<Longrightarrow> live s' \<subseteq> live s" "ho_Chmod H i m s = (a8, s') \<Longrightarrow> live s' \<subseteq> live s"
  "ho_Command H ctx as s = (a9, s') \<Longrightarrow> live s' \<subseteq> live s" "ho_Open H i s = (b1, s') \<Longrightarrow> live s' \<subseteq> live s"
  "ho_CreateExcl H i m s = (b2, s') \<Longrightarrow> live s' \<subseteq> live s" "ho_Copy H p m s = (b3, s') \<Longrightarrow> live s' \<subseteq> live s"
  "ho_CloseFile H p s = (b4, s') \<Longrightarrow> live s' \<subseteq> live s" "ho_LinkSetUp H i s = (b5, s') \<Longrightarrow> live s' \<subseteq> live s"
  "ho_SetPromiscOn H i s = (b6, s') \<Longrightarrow> live s' \<subseteq> live s" "ho_NewRawSocketPort H i k s = (b7, s') \<Longrightarrow> live s' \<subseteq> live s"
  "ho_NewUDPPort H i j k s = (b8, s') \<Longrightarrow> live s' \<subseteq> live s" "ho_ClosePort H p s = (b9, s') \<Longrightarrow> live s' \<subseteq> live s"
  "ho_NewSwitch H s = (c1, s') \<Longrightarrow> live s' \<subseteq> live s" "ho_AttachPort H p m s = (c2, s') \<Longrightarrow> live s' \<subseteq> live s"
  using quiet by (metis snd_conv)+

text \<open>The managers of routers and domains.\<close>

lemma release_each_quiet: "quiet_store live M \<Longrightarrow> release_each M ctx rs s = (k, es, s') \<Longrightarrow> live s' \<subseteq> live s"
proof (induction rs arbitrary: s k es s')
  case (Cons r rs)
  obtain e t where e: "sm_Release M ctx r s = (e, t)" by force
  obtain k2 f2 u where k: "release_each M ctx rs t = (k2, f2, u)" by (metis prod_cases3)
  have "live t \<subseteq> live s" using Cons.prems(1) e unfolding quiet_store_def by (metis snd_conv)
  moreover have "live u \<subseteq> live t" using Cons.IH [OF Cons.prems(1) k] .
  moreover have "s' = u" using Cons.prems(2) e k by (auto split: option.splits)
  ultimately show ?case by blast
qed simp

lemma domain_Release_quiet:
  assumes "quiet_store live M" "domain_Release M ctx rs s = (e, rs', s')"
  shows "live s' \<subseteq> live s"
proof (cases rs)
  case (Some ds)
  obtain k es t where r: "release_each M ctx ds s = (k, es, t)" by (metis prod_cases3)
  with ReleaseResources_spec [OF r] assms(2) Some have "s' = t" by (simp add: domain_Release_def)
  with release_each_quiet [OF assms(1) r] show ?thesis by simp
qed (use assms(2) in \<open>simp add: domain_Release_def\<close>)

lemma prepareDisks_quiet: "quiet_store live M \<Longrightarrow> prepareDisks fq M ctx nid ds rs disks s = (x, rs', s') \<Longrightarrow> live s' \<subseteq> live s"
proof (induction disks arbitrary: ds rs s)
  case (Cons d disks)
  obtain q t where q: "sm_Prepare M ctx \<lparr>req_Ref = disk_Source d, req_NodeID = nid,
      req_AccessMode = (if disk_ReadOnly d then AccessReadOnly else AccessReadWrite), req_Mode = '''', req_ResourceType = '''', req_Create = False\<rparr> s = (q, t)" by force
  have t: "live t \<subseteq> live s" using Cons.prems(1) q unfolding quiet_store_def by (metis snd_conv)
  show ?case
  proof (cases q)
    case (Inl e)
    with Cons.prems(2) q t show ?thesis by (simp add: Let_def)
  next
    case (Inr pr)
    with Cons.prems(2) q have "s' = t \<or> (\<exists>ds2 rs2. prepareDisks fq M ctx nid ds2 rs2 disks t = (x, rs', s'))" by (auto simp: Let_def split: if_splits)
    with Cons.IH [OF Cons.prems(1)] t show ?thesis by blast
  qed
qed simp

lemma domain_rollback_quiet:
  assumes "quiet_store live M" "domain_rollback timer M ctx rs cause s = (rs', err, s')"
  shows "live s' \<subseteq> live s"
proof -
  obtain e q t where r: "domain_Release M (cleanup_NewContext (timer s) ctx) (Some rs) s = (e, q, t)" by (metis prod_cases3)
  with assms(2) have "s' = t" by (auto simp: domain_rollback_def Let_def split: option.splits)
  with domain_Release_quiet [OF assms(1) r] show ?thesis by simp
qed

lemma domain_Prepare_quiet:
  assumes "quiet_store live M" "domain_Prepare fq timer (Some M) ctx (Some cfg) s = (r, rs, e, s')"
  shows "live s' \<subseteq> live s"
proof -
  obtain x q t where x: "prepareDisks fq M ctx (nc_ID (dc_NodeConfig cfg)) [] [] (dc_Disks cfg) s = (x, q, t)" by (metis prod_cases3)
  note t = prepareDisks_quiet [OF assms(1) x]
  show ?thesis
  proof (cases x)
    case (Inl c)
    obtain q2 e2 u where d: "domain_rollback timer M ctx q c t = (q2, e2, u)" by (metis prod_cases3)
    with assms(2) x Inl have "s' = u" by (simp add: domain_Prepare_def)
    with domain_rollback_quiet [OF assms(1) d] t show ?thesis by blast
  next
    case (Inr ds)
    with assms(2) x t show ?thesis by (simp add: domain_Prepare_def)
  qed
qed

lemma domain_Create_live:
  assumes "quiet_store live M" "domain_Create fq timer (Some M) ctx (Some (ho_CreateDomain H)) (Some cfg) s = (d, rs, e, s')"
  shows "live s' \<subseteq> live s \<union> (case d of Some d \<Rightarrow> {RDomain (vn_ID (dn_Node d))} | None \<Rightarrow> {}) \<and>
    (\<forall>x. d = Some x \<longrightarrow> (\<exists>cfg' u e' u'. ho_CreateDomain H ctx cfg' u = ((Some x, e'), u')))"
proof -
  obtain r q f t where p: "domain_Prepare fq timer (Some M) ctx (Some cfg) s = (r, q, f, t)" by (metis prod_cases4)
  note t = domain_Prepare_quiet [OF assms(1) p]
  show ?thesis
  proof (cases "\<exists>rc ps. r = Some rc \<and> q = Some ps \<and> f = None")
    case True
    then obtain rc ps where rc: "r = Some rc" "q = Some ps" "f = None" by blast
    obtain x g u where x: "ho_CreateDomain H ctx rc t = ((x, g), u)" by (metis prod.collapse)
    note n = domain_new [OF x]
    show ?thesis
    proof (cases "x = None \<and> g \<noteq> None")
      case True
      then obtain g' where g': "g = Some g'" "x = None" by auto
      obtain ps2 e2 v where b: "domain_rollback timer M ctx ps g' u = (ps2, e2, v)" by (metis prod_cases3)
      with assms(2) p rc x g' have "s' = v" "d = None" by (simp_all add: domain_Create_def)
      with domain_rollback_quiet [OF assms(1) b] n t g' show ?thesis by auto
    next
      case False
      with assms(2) p rc x have d: "s' = u" "d = x" by (auto simp: domain_Create_def split: option.splits)
      with n t x show ?thesis by (auto split: option.splits)
    qed
  next
    case False
    with assms(2) p have "d = None" "s' = t" by (auto simp: domain_Create_def split: option.splits)
    with t show ?thesis by simp
  qed
qed

lemma router_Release_quiet:
  assumes "\<forall>M. m = Some M \<longrightarrow> quiet_store live M" "router_Release m ctx rs s = (e, rs', s')"
  shows "live s' \<subseteq> live s"
proof (cases "\<exists>M st. m = Some M \<and> rs = Some (Some st)")
  case True
  then obtain M st where m: "m = Some M" "rs = Some (Some st)" by blast
  obtain f t where f: "sm_Release M ctx (Some st) s = (f, t)" by force
  with assms(2) m have "s' = t" by (auto simp: router_Release_def split: option.splits)
  moreover have "live t \<subseteq> live s" using assms(1) m f unfolding quiet_store_def by (metis snd_conv)
  ultimately show ?thesis by simp
next
  case False
  with assms(2) have "s' = s" by (auto simp: router_Release_def split: option.splits)
  then show ?thesis by simp
qed

lemma router_rollback_quiet:
  assumes "\<forall>M. m = Some M \<longrightarrow> quiet_store live M" "router_rollback timer m ctx rs c s = (rs', e, s')"
  shows "live s' \<subseteq> live s"
proof -
  obtain f q t where r: "router_Release m (cleanup_NewContext (timer s) ctx) (Some rs) s = (f, q, t)" by (metis prod_cases3)
  with assms(2) have "s' = t" by (auto simp: router_rollback_def split: option.splits)
  with router_Release_quiet [OF assms(1) r] show ?thesis by simp
qed

lemma router_Prepare_quiet:
  assumes "\<forall>M. m = Some M \<longrightarrow> quiet_store live M" "router_Prepare timer m ctx (Some cfg) s = (r, rs, e, s')"
  shows "live s' \<subseteq> live s \<and> (\<forall>c. r = Some c \<longrightarrow> dy_Config c = cfg)"
proof (cases "\<exists>M. m = Some M \<and> nc_ID (dy_NodeConfig cfg) \<noteq> '''' \<and> Ref_Validate (dy_State cfg) = None")
  case False
  with assms(2) have "s' = s" "r = None" by (auto simp: router_Prepare_def Let_def split: option.splits if_splits)
  then show ?thesis by simp
next
  case True
  then obtain M where m: "m = Some M" "nc_ID (dy_NodeConfig cfg) \<noteq> ''''" "Ref_Validate (dy_State cfg) = None" by blast
  obtain q t where q: "sm_Prepare M ctx \<lparr>req_Ref = dy_State cfg, req_NodeID = nc_ID (dy_NodeConfig cfg), req_AccessMode = AccessReadWrite, req_Mode = '''',
      req_ResourceType = ResourceTypeDirectory, req_Create = True\<rparr> s = (q, t)" by force
  have t: "live t \<subseteq> live s" using assms(1) m(1) q unfolding quiet_store_def by (metis snd_conv)
  show ?thesis
  proof (cases q)
    case (Inl e)
    with assms(2) m q t show ?thesis by (simp add: router_Prepare_def Let_def)
  next
    case (Inr pr)
    show ?thesis
    proof (cases "loc_Kind (pr_Location pr) \<noteq> LocationPath \<or> \<not> IsAbs (loc_Value (pr_Location pr))")
      case True
      obtain a b u where b: "router_rollback timer m ctx (Some pr)
          (dynamips_New ''prepare router state'' dynamips_kind.ErrUnsupported ''state storage must resolve to an absolute directory path'') t = (a, b, u)" by (metis prod_cases3)
      with assms(2) m q Inr True have "s' = u" "r = None" by (simp_all add: router_Prepare_def Let_def)
      with router_rollback_quiet [OF assms(1) b] t show ?thesis by auto
    next
      case False
      with assms(2) m q Inr have "s' = t" "r = Some \<lparr>dy_Config = cfg, dy_StateDirectory = loc_Value (pr_Location pr)\<rparr>"
        by (simp_all add: router_Prepare_def Let_def)
      with t show ?thesis by simp
    qed
  qed
qed

lemma manager_Create_live:
  assumes "\<forall>M. m = Some M \<longrightarrow> quiet_store live M" "manager_Create timer m ctx (if b then Some (ho_Router H) else None) (Some cfg) s = (n, rs, e, s')"
  shows "live s' \<subseteq> live s \<union> (if rs = None then {} else {RRouter (nc_ID (dy_NodeConfig cfg))})"
proof (cases b)
  case True
  obtain r q f t where p: "router_Prepare timer m ctx (Some cfg) s = (r, q, f, t)" by (metis prod_cases4)
  note t = router_Prepare_quiet [OF assms(1) p]
  show ?thesis
  proof (cases "\<exists>rc ps. r = Some rc \<and> q = Some ps \<and> f = None")
    case True
    then obtain rc ps where rc: "r = Some rc" "q = Some ps" "f = None" by blast
    obtain y u where y: "rp_CreateRouter (ho_Router H) ctx rc t = (y, u)" by force
    have rcid: "rid rc = nc_ID (dy_NodeConfig cfg)" using t rc(1) by simp
    note nw = router_new [OF y]
    show ?thesis
    proof (cases "case y of Inl e' \<Rightarrow> errors_Is e' (DynamipsKind dynamips_kind.ErrCleanup) | Inr _ \<Rightarrow> True")
      case True
      with assms(2) \<open>b\<close> p rc y have "s' = u" "rs = Some ps" by (auto simp: manager_Create_def split: sum.splits)
      with nw t rcid True show ?thesis by auto
    next
      case False
      then obtain e' where e': "y = Inl e'" "\<not> errors_Is e' (DynamipsKind dynamips_kind.ErrCleanup)" by (auto split: sum.splits)
      obtain a c v where r: "router_rollback timer m ctx ps e' u = (a, c, v)" by (metis prod_cases3)
      with assms(2) \<open>b\<close> p rc y e' have "s' = v" by (simp add: manager_Create_def)
      with router_rollback_quiet [OF assms(1) r] nw t False show ?thesis by auto
    qed
  next
    case False
    with assms(2) \<open>b\<close> p have "s' = t" by (auto simp: manager_Create_def split: option.splits)
    with t show ?thesis by auto
  qed
next
  case False
  with assms(2) show ?thesis by (simp add: manager_Create_def)
qed

lemma manager_Delete_live:
  assumes "\<forall>M. m = Some M \<longrightarrow> quiet_store live M" "manager_Delete m ctx (if b then Some (ho_Router H) else None) i rs s = (e, rs', s')"
  shows "live s' \<subseteq> live s - (if e = None then {RRouter i} else {})"
proof (cases "b \<and> \<not> (case rs of Some (Some st) \<Rightarrow> pr_NodeID st \<noteq> i | _ \<Rightarrow> False)")
  case True
  obtain f t where f: "rp_Delete (ho_Router H) ctx i s = (f, t)" by force
  note d = router_del [OF f]
  show ?thesis
  proof (cases f)
    case None
    with assms(2) True f have r: "router_Release m ctx rs t = (e, rs', s')" by (simp add: manager_Delete_def)
    with router_Release_quiet [OF assms(1) r] d None show ?thesis by auto
  next
    case (Some g)
    with assms(2) True f d show ?thesis by (auto simp: manager_Delete_def)
  qed
next
  case False
  with assms(2) have "s' = s" "e \<noteq> None" by (auto simp: manager_Delete_def split: if_splits)
  then show ?thesis by auto
qed

section \<open>The invariant of a run\<close>

definition quiet_dom :: "'s domainResources \<Rightarrow> bool" where
  "quiet_dom r \<longleftrightarrow> (\<forall>M. dre_manager r = Some M \<longrightarrow> quiet_store live M) \<and> (dre_prepared r \<noteq> None \<longrightarrow> dre_manager r \<noteq> None)"

text \<open>\<open>good B run s\<close>: beside the resources \<open>B\<close> that existed before, only those exist that the run tracks.\<close>

definition good :: "res set \<Rightarrow> 's Running \<Rightarrow> 's \<Rightarrow> bool" where
  "good B run s \<longleftrightarrow> live s \<subseteq> B \<union> tracked run \<and> tidy run \<and> (\<forall>M. run_manager run = Some M \<longrightarrow> quiet_store live M) \<and>
     (\<forall>n r. mget (run_domains run) n = Some r \<longrightarrow> quiet_dom r)"

lemma good_quiet: "good B run s \<Longrightarrow> live s' \<subseteq> live s \<Longrightarrow> good B run s'"
  by (auto simp: good_def)

lemma good_update:
  assumes "good B run s" "\<And>m. m \<noteq> n \<Longrightarrow> tracked_node run' m = tracked_node run m" "run_bridges run' = run_bridges run"
    "live s' \<subseteq> live s \<union> tracked_node run' n" "live s' \<inter> tracked_node run n \<subseteq> tracked_node run' n" "tidy run'"
    "run_manager run' = run_manager run" "\<And>m r. mget (run_domains run') m = Some r \<Longrightarrow> quiet_dom r"
  shows "good B run' s'"
proof -
  have "tracked run \<subseteq> tracked run' \<union> tracked_node run n" "tracked_node run' n \<subseteq> tracked run'"
    using tracked_grow [of run run' n] assms(2,3) by simp_all
  then have "live s' \<subseteq> B \<union> tracked run'" using assms(1,4,5) unfolding good_def by blast
  with assms(1,6,7,8) show ?thesis by (simp add: good_def)
qed

text \<open>A node that is not in the order yet gets its entries.\<close>

lemma good_new:
  assumes "good B run s" "n \<notin> set (run_order run)" "run_order run' = run_order run @ [n]" "run_bridges run' = run_bridges run" "run_manager run' = run_manager run"
    "\<And>m. m \<noteq> n \<Longrightarrow> mget (run_nodes run') m = mget (run_nodes run) m \<and> mget (run_domains run') m = mget (run_domains run) m \<and>
      mget (run_endpoints run') m = mget (run_endpoints run) m \<and> mget (run_routers run') m = mget (run_routers run) m \<and>
      mget (run_providers run') m = mget (run_providers run) m"
    "live s' \<subseteq> live s \<union> tracked_node run' n" "\<And>r. mget (run_domains run') n = Some r \<Longrightarrow> quiet_dom r"
  shows "good B run' s'"
proof (rule good_update [OF assms(1), where n = n])
  have t: "tidy run" and q: "\<And>m r. mget (run_domains run) m = Some r \<Longrightarrow> quiet_dom r" using assms(1) by (auto simp: good_def)
  show "tracked_node run' m = tracked_node run m" if "m \<noteq> n" for m
    using assms(6) [OF that] that assms(3) by (intro tracked_node_cong) auto
  show "live s' \<inter> tracked_node run n \<subseteq> tracked_node run' n" using tidy_fresh [OF t assms(2)] by simp
  show "tidy run'" using t assms(3,6) by (auto simp: tidy_def)
  show "quiet_dom r" if "mget (run_domains run') m = Some r" for m r using that q assms(6) [of m] assms(8) by (cases "m = n") auto
qed (use assms in auto)

lemma createContainer_live:
  assumes "createContainer H p ctx img cfg s = (x, s')"
  shows "live s' \<subseteq> live s \<union> (case x of Inr c \<Rightarrow> {RContainer p (vn_ID (cn_Node c))} | Inl _ \<Rightarrow> {})"
proof -
  obtain y t where y: "ho_CreateContainer H p ctx cfg s = (y, t)" by force
  note a = container_new [OF y]
  show ?thesis
  proof (cases y)
    case (Inr c)
    with assms y a show ?thesis by (simp add: createContainer_def)
  next
    case (Inl e)
    then have t: "live t \<subseteq> live s" using a by simp
    obtain f u where f: "ho_Pull H p ctx img t = (f, u)" by force
    note u = live_quiet(2) [OF f]
    show ?thesis
    proof (cases "ho_IsNotFound H e \<and> f = None")
      case True
      with assms y Inl f have "ho_CreateContainer H p ctx cfg u = (x, s')" by (simp add: createContainer_def)
      from container_new [OF this] t u show ?thesis by blast
    next
      case False
      with assms y Inl f have "(s' = t \<or> s' = u) \<and> (\<exists>e. x = Inl e)" by (auto simp: createContainer_def split: if_splits option.splits)
      with t u show ?thesis by auto
    qed
  qed
qed

lemma startContainer_good:
  assumes "good B run s" "node_ID node \<notin> set (run_order run)" "startContainer fq H ctx t node spec options token index pids run s = (e, pids', run', s')"
  shows "good B run' s' \<and> set (run_order run') \<subseteq> insert (node_ID node) (set (run_order run))"
proof (cases "containerProvider H options (cs_Provider spec)")
  case (Inl f)
  with assms show ?thesis by (auto simp: startContainer_def)
next
  case (Inr p)
  obtain x u where x: "createContainer H p ctx (cs_Image spec) (container_config t node spec token index) s = (x, u)" by force
  note l = createContainer_live [OF x]
  show ?thesis
  proof (cases x)
    case (Inl f)
    with assms Inr x l good_quiet [OF assms(1)] show ?thesis by (auto simp: startContainer_def)
  next
    case (Inr c)
    let ?i = "vn_ID (cn_Node c)" and ?n = "node_ID node"
    let ?run = "run\<lparr>run_nodes := mput ?n ?i (run_nodes run), run_providers := mput ?n p (run_providers run), run_order := run_order run @ [?n]\<rparr>"
    have fresh: "mget (run_domains run) ?n = None" "mget (run_endpoints run) ?n = None" "mget (run_routers run) ?n = None"
      using assms(1,2) by (auto simp: good_def tidy_def)
    have g: "good B ?run u" by (rule good_new [OF assms(1,2)]) (use l Inr fresh in \<open>auto simp: tracked_node_def\<close>)
    obtain f v where f: "ho_StartContainer H p ctx ?i u = (f, v)" by force
    obtain y w where y: "ho_Inspect H p ctx ?i v = (y, w)" by force
    have "good B ?run v" "good B ?run w" using good_quiet [OF g] live_quiet(3) [OF f] live_quiet(4) [OF y] by blast+
    moreover have "run' = ?run \<and> (s' = v \<or> s' = w)"
      using assms(3) \<open>containerProvider H options (cs_Provider spec) = Inr p\<close> x Inr f y
      by (auto simp: startContainer_def Let_def split: option.splits sum.splits if_splits)
    ultimately show ?thesis by auto
  qed
qed

lemma startEndpoint_good:
  assumes "good B run s" "node_ID node \<notin> set (run_order run)" "startEndpoint H ctx t node spec base run s = (e, run', s')"
  shows "good B run' s' \<and> set (run_order run') \<subseteq> insert (node_ID node) (set (run_order run))"
proof -
  let ?n = "node_ID node"
  let ?run = "run\<lparr>run_nodes := mput ?n ?n (run_nodes run), run_endpoints := mput ?n () (run_endpoints run), run_order := run_order run @ [?n]\<rparr>"
  consider (refused) "run' = run" "s' = s" | (failed) c f where "ho_CreateEndpoint H ctx c s = (Inl f, s')" "run' = run"
    | (created) c d u where "ho_CreateEndpoint H ctx c s = (Inr d, u)" "snc_ID c = ?n" "run' = ?run" "ho_StartEndpoint H ctx ?n u = (e, s')"
    using assms(3) unfolding startEndpoint_def Let_def by (auto split: sum.splits option.splits if_splits prod.splits)
  then show ?thesis
  proof cases
    case refused
    with assms(1) show ?thesis by auto
  next
    case failed
    with endpoint_new [OF failed(1)] good_quiet [OF assms(1)] show ?thesis by auto
  next
    case created
    have fresh: "mget (run_domains run) ?n = None" using assms(1,2) by (auto simp: good_def tidy_def)
    have "good B ?run u" by (rule good_new [OF assms(1,2)]) (use endpoint_new [OF created(1)] created(2) fresh in \<open>auto simp: tracked_node_def\<close>)
    with created(3) live_quiet(7) [OF created(4)] good_quiet show ?thesis by auto
  qed
qed

lemma startRouter_good:
  assumes "good B run s" "node_ID node \<notin> set (run_order run)" "startRouter H ctx t node spec options token index run s = (e, run', s')"
  shows "good B run' s' \<and> set (run_order run') \<subseteq> insert (node_ID node) (set (run_order run))"
proof (cases "router_config t node spec options token index")
  case (Inl f)
  with assms show ?thesis by (auto simp: startRouter_def)
next
  case (Inr cfg)
  let ?n = "node_ID node" and ?i = "nc_ID (dy_NodeConfig cfg)"
  obtain d rs f u where c: "manager_Create (ho_now H) (run_manager run) ctx (if run_dynamips run then Some (ho_Router H) else None) (Some cfg) s = (d, rs, f, u)"
    by (metis prod_cases4)
  have "\<forall>M. run_manager run = Some M \<longrightarrow> quiet_store live M" using assms(1) by (simp add: good_def)
  note l = manager_Create_live [OF this c]
  obtain g v where g: "ho_StartRouter H ctx (vn_ID (the d)) u = (g, v)" by force
  define run2 where "run2 = (case rs of Some r \<Rightarrow> run\<lparr>run_nodes := mput ?n ?i (run_nodes run), run_routers := mput ?n r (run_routers run), run_order := run_order run @ [?n]\<rparr>
    | None \<Rightarrow> run)"
  have fresh: "mget (run_domains run) ?n = None" "mget (run_endpoints run) ?n = None" using assms(1,2) by (auto simp: good_def tidy_def)
  have g2: "good B run2 u"
  proof (cases rs)
    case None
    with l good_quiet [OF assms(1)] show ?thesis by (simp add: run2_def)
  next
    case (Some r)
    show ?thesis unfolding run2_def Some option.case
      by (rule good_new [OF assms(1,2)]) (use l Some fresh in \<open>auto simp: tracked_node_def\<close>)
  qed
  have "run' = run2 \<and> (s' = u \<or> s' = v)"
    using assms(3) Inr c g unfolding startRouter_def Let_def run2_def by (auto split: option.splits)
  moreover have "set (run_order run2) \<subseteq> insert ?n (set (run_order run))" by (auto simp: run2_def split: option.splits)
  ultimately show ?thesis using g2 good_quiet [OF g2 live_quiet(6) [OF g]] by auto
qed

text \<open>The domain of a node grows.\<close>

definition placed :: "NodeID \<Rightarrow> 's StorageManager option \<Rightarrow> 's Running \<Rightarrow> bool" where
  "placed n m run \<longleftrightarrow> n \<in> set (run_order run) \<and> mget (run_nodes run) n \<noteq> None \<and> (\<exists>r. mget (run_domains run) n = Some r \<and> dre_manager r = m \<and> dre_id r = [])"

lemma setDomain_keeps:
  assumes "good B run s" "placed n m run" "\<And>r. dre_manager r = m \<Longrightarrow> dre_id r = [] \<Longrightarrow> quiet_dom r \<Longrightarrow> quiet_dom (f r) \<and> domain_res r \<subseteq> domain_res (f r) \<and>
    live s' \<subseteq> live s \<union> domain_res (f r)"
  shows "good B (setDomain n f run) s' \<and> run_order (setDomain n f run) = run_order run"
proof -
  obtain r i where r: "mget (run_domains run) n = Some r" "dre_manager r = m" "dre_id r = []" "mget (run_nodes run) n = Some i" "n \<in> set (run_order run)"
    using assms(2) by (auto simp: placed_def)
  have "quiet_dom r" using assms(1) r(1) by (auto simp: good_def)
  note f = assms(3) [OF r(2,3) this]
  have run': "setDomain n f run = run\<lparr>run_domains := mput n (f r) (run_domains run)\<rparr>" using r(1) by (simp add: setDomain_def)
  have tn: "tracked_node run n = domain_res r" "tracked_node (setDomain n f run) n = domain_res (f r)" using r by (simp_all add: run' tracked_node_def)
  have "good B (setDomain n f run) s'"
  proof (rule good_update [OF assms(1), where n = n])
    show "tracked_node (setDomain n f run) m = tracked_node run m" if "m \<noteq> n" for m using that by (intro tracked_node_cong) (auto simp: run')
    show "tidy (setDomain n f run)" using assms(1) r(5) by (auto simp: good_def tidy_def run')
    show "quiet_dom q" if "mget (run_domains (setDomain n f run)) m = Some q" for m q
      using that f assms(1) by (cases "m = n") (auto simp: run' good_def)
  qed (use f tn in \<open>auto simp: run'\<close>)
  then show ?thesis by (simp add: run')
qed

lemma setDomain_good:
  assumes "good B run s" "placed n m run" "\<And>r. dre_manager r = m \<Longrightarrow> quiet_dom r \<Longrightarrow> quiet_dom (f r) \<and> dre_manager (f r) = m' \<and> dre_id (f r) = dre_id r \<and>
    domain_res r \<subseteq> domain_res (f r) \<and> live s' \<subseteq> live s \<union> domain_res (f r)"
  shows "good B (setDomain n f run) s' \<and> placed n m' (setDomain n f run) \<and> run_order (setDomain n f run) = run_order run"
proof -
  obtain r where r: "mget (run_domains run) n = Some r" "dre_manager r = m" "dre_id r = []" "quiet_dom r"
    using assms(1,2) by (auto simp: placed_def good_def)
  from assms(3) [OF r(2,4)] r assms(2) have "placed n m' (setDomain n f run)" by (auto simp: placed_def setDomain_def)
  with setDomain_keeps [OF assms(1,2), of f s'] assms(3) show ?thesis by blast
qed

lemma domain_connect_live:
  assumes "domain_connect H ctx name a b mtu s = (x, s')"
  shows "live s' \<subseteq> live s \<union> (case x of Inr w \<Rightarrow> {RSwitch w} | Inl _ \<Rightarrow> {})"
proof (cases "ctx_Done ctx (ho_now H s)")
  case (Some e)
  with assms show ?thesis by (simp add: domain_connect_def)
next
  case None
  let ?m = "if mtu = 0 then 1500 else mtu"
  obtain r1 s1 where 1: "ho_NewRawSocketPort H name ?m s = (r1, s1)" by force
  note q1 = live_quiet(16) [OF 1]
  show ?thesis
  proof (cases r1)
    case (Inl e)
    with assms None 1 q1 show ?thesis by (auto simp: domain_connect_def Let_def)
  next
    case (Inr raw)
    obtain r2 s2 where 2: "ho_NewUDPPort H (loopback a) (loopback b) ?m s1 = (r2, s2)" by force
    note q2 = live_quiet(17) [OF 2]
    have closes: "ho_ClosePort H p u = (e, v) \<Longrightarrow> live v \<subseteq> live u" for p u e v by (rule live_quiet(18))
    show ?thesis
    proof (cases r2)
      case (Inl e)
      with assms None 1 \<open>r1 = Inr raw\<close> 2 q1 q2 closes show ?thesis by (force simp: domain_connect_def Let_def split: prod.splits)
    next
      case (Inr udp)
      obtain w s3 where 3: "ho_NewSwitch H s2 = (w, s3)" by force
      obtain e4 s4 where 4: "ho_AttachPort H w raw s3 = (e4, s4)" by force
      obtain e5 s5 where 5: "ho_AttachPort H w udp s4 = (e5, s5)" by force
      obtain e6 s6 where 6: "ho_StartSwitch H w s5 = (e6, s6)" by force
      note q = q1 q2 live_quiet(19) [OF 3] live_quiet(20) [OF 4] live_quiet(20) [OF 5] switch_new [OF 6]
      have base: "live s4 \<subseteq> live s" "live s5 \<subseteq> live s" "e6 \<noteq> None \<Longrightarrow> live s6 \<subseteq> live s" "live s6 \<subseteq> live s \<union> (if e6 = None then {RSwitch w} else {})"
      proof -
        show l: "live s4 \<subseteq> live s" "live s5 \<subseteq> live s" using q(1-5) by blast+
        show "e6 \<noteq> None \<Longrightarrow> live s6 \<subseteq> live s" "live s6 \<subseteq> live s \<union> (if e6 = None then {RSwitch w} else {})"
          using q(6) l(2) by (cases e6; auto)+
      qed
      have fail: "live v \<subseteq> live s" if "ho_ClosePort H raw u = (e, u1)" "ho_ClosePort H udp u1 = (e', v)" "live u \<subseteq> live s" for u u1 v e e'
        using closes [OF that(1)] closes [OF that(2)] that(3) by blast
      consider (ok) "e4 = None" "e5 = None" "e6 = None" "x = Inr w" "s' = s6"
        | (bad) u e u1 e' y where "ho_ClosePort H raw u = (e, u1)" "ho_ClosePort H udp u1 = (e', s')" "x = Inl y" "u = s4 \<or> u = s5 \<or> (u = s6 \<and> e6 \<noteq> None)"
        using assms None 1 \<open>r1 = Inr raw\<close> 2 Inr 3 4 5 6 by (auto simp: domain_connect_def Let_def split: option.splits prod.splits)
      then show ?thesis
      proof cases
        case ok
        with base(4) show ?thesis by simp
      next
        case bad
        have "live u \<subseteq> live s" using bad(4) base by blast
        with fail [OF bad(1,2)] bad(3) show ?thesis by simp
      qed
    qed
  qed
qed

lemma domainConnections_good:
  "good B run s \<Longrightarrow> placed n m run \<Longrightarrow> domainConnections H ctx base name n pid ss run s = (e, run', s') \<Longrightarrow>
   good B run' s' \<and> placed n m run' \<and> run_order run' = run_order run"
proof (induction ss arbitrary: run s)
  case (Cons x ss)
  obtain index side l where x: "x = (index, side, l)" by (metis prod_cases3)
  show ?case
  proof (cases "side_endpoint side l = \<lparr>ep_Node = n, ep_Port = pid\<rparr>")
    case False
    with Cons x show ?thesis by simp
  next
    case True
    obtain r t where r: "domain_connect H ctx name (localPort base index side) (remotePort base index side) (uint (link_MTU l)) s = (r, t)" by force
    note l = domain_connect_live [OF r]
    show ?thesis
    proof (cases r)
      case (Inl e)
      with Cons.prems x True r l good_quiet show ?thesis by auto
    next
      case (Inr w)
      let ?run = "setDomain n (\<lambda>r. r\<lparr>dre_switches := dre_switches r @ [w]\<rparr>) run"
      have "good B ?run t \<and> placed n m ?run \<and> run_order ?run = run_order run"
        by (rule setDomain_good [OF Cons.prems(1,2)]) (use l Inr in \<open>auto simp: quiet_dom_def domain_res_def\<close>)
      with Cons.IH [of ?run t] Cons.prems(3) x True r Inr show ?thesis by simp
    qed
  qed
qed simp

lemma domainPorts_good:
  "good B run s \<Longrightarrow> placed n m run \<Longrightarrow> domainPorts H ctx base token links n index k ifs ports run s = (e, run', s') \<Longrightarrow>
   good B run' s' \<and> placed n m run' \<and> run_order run' = run_order run"
proof (induction ports arbitrary: k ifs run s)
  case (Cons port ports)
  let ?name = "domainIf token (run_nextDomainPort run)" and ?run = "run\<lparr>run_nextDomainPort := run_nextDomainPort run + 1\<rparr>"
  show ?case
  proof (cases "run_nextDomainPort run > 65535")
    case True
    with Cons.prems show ?thesis by simp
  next
    case False
    have "tracked_node ?run x = tracked_node run x" for x by (intro tracked_node_cong) simp_all
    then have "tracked ?run = tracked run" by (simp add: tracked_def)
    then have g0: "good B ?run s" "placed n m ?run" using Cons.prems(1,2) by (simp_all add: good_def tidy_def placed_def)
    obtain e1 s1 where 1: "ho_LinkAdd H ?name s = (e1, s1)" by force
    note l1 = link_new [OF 1]
    show ?thesis
    proof (cases e1)
      case (Some f)
      with Cons.prems(3) False 1 l1 good_quiet [OF g0(1)] g0(2) show ?thesis by (auto simp: Let_def)
    next
      case None
      let ?run2 = "setDomain n (\<lambda>r. r\<lparr>dre_links := dre_links r @ [?name]\<rparr>) ?run"
      have g1: "good B ?run2 s1 \<and> placed n m ?run2 \<and> run_order ?run2 = run_order ?run"
        by (rule setDomain_good [OF g0]) (use l1 None in \<open>auto simp: quiet_dom_def domain_res_def\<close>)
      obtain e2 s2 where 2: "ho_LinkSetUp H ?name s1 = (e2, s2)" by force
      obtain e3 s3 where 3: "ho_SetPromiscOn H ?name s2 = (e3, s3)" by force
      obtain e4 run4 s4 where 4: "domainConnections H ctx base ?name n (port_ID port) (sides links) ?run2 s3 = (e4, run4, s4)" by (rule prod_cases3)
      have q: "good B ?run2 s2" "good B ?run2 s3" using good_quiet g1 live_quiet(14) [OF 2] live_quiet(15) [OF 3] by blast+
      have g4: "good B run4 s4 \<and> placed n m run4 \<and> run_order run4 = run_order run" using domainConnections_good [OF q(2) conjunct1 [OF conjunct2 [OF g1]] 4] g1 by simp
      note step = Cons.prems(3) False 1 None 2
      show ?thesis
      proof (cases e2)
        case (Some f)
        with step have eqs: "run' = ?run2" "s' = s2" by (simp_all add: Let_def)
        show ?thesis unfolding eqs using q(1) g1 by simp
      next
        case e2: None
        show ?thesis
        proof (cases e3)
          case (Some f)
          with step e2 3 have eqs: "run' = ?run2" "s' = s3" by (simp_all add: Let_def)
          show ?thesis unfolding eqs using q(2) g1 by simp
        next
          case e3: None
          show ?thesis
          proof (cases e4)
            case (Some f)
            with step e2 3 e3 4 have eqs: "run' = run4" "s' = s4" by (simp_all add: Let_def)
            show ?thesis unfolding eqs using g4 .
          next
            case e4: None
            with step e2 3 e3 4
            have "domainPorts H ctx base token links n index (k + 1) (ifs @ [\<lparr>if_MAC = domainMAC index k, if_Model = ''virtio'', if_Bridge = ?name\<rparr>]) ports run4 s4 = (e, run', s')"
              by (simp add: Let_def)
            from Cons.IH [OF conjunct1 [OF g4] conjunct1 [OF conjunct2 [OF g4]] this] g4 show ?thesis by simp
          qed
        qed
      qed
    qed
  qed
qed simp

lemma createDomain_good:
  assumes "good B run s" "placed n (Some M) run" "quiet_store live M" "domains_named H" "createDomain fq H ctx n cfg M run s = (e, run', s')"
  shows "good B run' s' \<and> run_order run' = run_order run"
proof -
  obtain d rs f t where c: "domain_Create fq (ho_now H) (Some M) ctx (Some (ho_CreateDomain H)) (Some cfg) s = (d, rs, f, t)" by (rule prod_cases4)
  note l = domain_Create_live [OF assms(3) c]
  let ?run1 = "setDomain n (\<lambda>r. r\<lparr>dre_prepared := rs\<rparr>) run"
  have g1: "good B ?run1 s \<and> placed n (Some M) ?run1 \<and> run_order ?run1 = run_order run"
    by (rule setDomain_good [OF assms(1,2)]) (auto simp: quiet_dom_def domain_res_def)
  show ?thesis
  proof (cases d)
    case None
    with assms(5) c have "run' = ?run1" "s' = t" by (simp_all add: createDomain_def Let_def)
    with None l g1 good_quiet [of B ?run1 s t] show ?thesis by simp
  next
    case (Some x)
    let ?i = "vn_ID (dn_Node x)"
    have i: "?i \<noteq> ''''" using l Some assms(4) unfolding domains_named_def by blast
    let ?run2 = "setDomain n (\<lambda>r. r\<lparr>dre_id := ?i\<rparr>) ?run1"
    have g2: "good B ?run2 t \<and> run_order ?run2 = run_order ?run1"
      by (rule setDomain_keeps [OF conjunct1 [OF g1] conjunct1 [OF conjunct2 [OF g1]]]) (use l Some i in \<open>auto simp: quiet_dom_def domain_res_def\<close>)
    obtain r where r: "mget (run_domains ?run2) n = Some r" "n \<in> set (run_order ?run2)" "mget (run_nodes ?run2) n \<noteq> None"
      using g1 unfolding placed_def by (auto simp: setDomain_def)
    let ?run3 = "?run2\<lparr>run_nodes := mput n ?i (run_nodes ?run1)\<rparr>"
    have same: "run_nodes ?run2 = run_nodes ?run1" by (simp add: setDomain_def split: option.splits)
    have "good B ?run3 t"
    proof (rule good_update [OF conjunct1 [OF g2], where n = n])
      show "tracked_node ?run3 m = tracked_node ?run2 m" if "m \<noteq> n" for m using that same by (intro tracked_node_cong) auto
      have "tracked_node ?run3 n = tracked_node ?run2 n" using r by (auto simp: tracked_node_def)
      then show "live t \<inter> tracked_node ?run2 n \<subseteq> tracked_node ?run3 n" by simp
      show "tidy ?run3" using g2 r(2) same by (auto simp: good_def tidy_def)
      show "quiet_dom q" if "mget (run_domains ?run3) m = Some q" for m q using that g2 by (auto simp: good_def)
    qed simp_all
    moreover have "run' = ?run3" "s' = t" using assms(5) c Some same by (simp_all add: createDomain_def Let_def)
    ultimately show ?thesis using g1 g2 by simp
  qed
qed

lemma createOverlay_quiet:
  assumes "createOverlay H ctx img out s = (e, s')"
  shows "live s' \<subseteq> live s"
proof (cases "ho_Abs H img s")
  case (Inl f)
  with assms show ?thesis by (simp add: createOverlay_def)
next
  case (Inr a)
  obtain o1 f t where c: "ho_Command H ctx [''qemu-img'', ''create'', ''-q'', ''-f'', ''qcow2'', ''-F'', ''qcow2'', ''-b'', a, out] s = ((o1, f), t)"
    by (metis prod.collapse)
  have "s' = t \<or> ho_Chmod H out 420 t = (e, s')" using assms Inr c by (cases f) (auto simp: createOverlay_def)
  with live_quiet(9) [OF c] live_quiet(8) show ?thesis by blast
qed

lemma copyDomainSeed_quiet:
  assumes "copyDomainSeed H source destination s = (e, s')"
  shows "live s' \<subseteq> live s"
proof -
  obtain x1 s1 where 1: "ho_Open H source s = (x1, s1)" by force
  obtain x2 s2 where 2: "ho_CreateExcl H destination 420 s1 = (x2, s2)" by force
  show ?thesis
  proof (cases x1)
    case (Inl f)
    with assms 1 live_quiet(10) [OF 1] show ?thesis by (simp add: copyDomainSeed_def)
  next
    case (Inr input)
    show ?thesis
    proof (cases x2)
      case (Inl f)
      obtain e3 s3 where 3: "ho_CloseFile H input s2 = (e3, s3)" by force
      with assms 1 \<open>x1 = Inr input\<close> 2 Inl have "s' = s3" by (simp add: copyDomainSeed_def)
      with live_quiet(10) [OF 1] live_quiet(11) [OF 2] live_quiet(13) [OF 3] show ?thesis by blast
    next
      case (Inr out)
      obtain e3 s3 where 3: "ho_Copy H out input s2 = (e3, s3)" by force
      obtain e4 s4 where 4: "ho_CloseFile H out s3 = (e4, s4)" by force
      obtain e5 s5 where 5: "ho_CloseFile H input s4 = (e5, s5)" by force
      with assms 1 \<open>x1 = Inr input\<close> 2 Inr 3 4 have "s' = s5" by (simp add: copyDomainSeed_def Let_def)
      with live_quiet(10) [OF 1] live_quiet(11) [OF 2] live_quiet(12) [OF 3] live_quiet(13) [OF 4] live_quiet(13) [OF 5] show ?thesis by blast
    qed
  qed
qed

lemma domainWorkload_good:
  assumes "good B run s" "placed (node_ID node) (Some M) run" "quiet_store live M" "domains_named H"
    "domainWorkload fq H ctx t node spec options token index dir M run s = (e, run', s')"
  shows "good B run' s' \<and> run_order run' = run_order run"
proof -
  let ?img = "if do_Image (the (opt_Domains options)) \<noteq> '''' then do_Image (the (opt_Domains options)) else ds_Image spec"
  let ?seed = "if do_SeedImage (the (opt_Domains options)) \<noteq> '''' then do_SeedImage (the (opt_Domains options)) else ds_SeedImage spec"
  let ?n = "node_ID node"
  obtain e1 s1 where 1: "createOverlay H ctx ?img (filepath_Join dir ''disk.qcow2'') s = (e1, s1)" by force
  obtain u s2 where 2: "ho_UUID H s1 = (u, s2)" by force
  obtain e3 s3 where 3: "(if ?seed \<noteq> '''' then copyDomainSeed H ?seed (filepath_Join dir ''seed.iso'') s2 else (None, s2)) = (e3, s3)" by (rule prod.exhaust)
  have "live s3 \<subseteq> live s2" using 3 copyDomainSeed_quiet by (auto split: if_splits)
  then have g: "good B run s1" "good B run s3" using good_quiet [OF assms(1)] createOverlay_quiet [OF 1] live_quiet(1) [OF 2] by blast+
  obtain x4 run4 s4 where 4: "domainPorts H ctx (opt_BasePort options) token (top_Links t) ?n index 0 [] (node_Ports node) run s3 = (x4, run4, s4)" by (rule prod_cases3)
  note g4 = domainPorts_good [OF g(2) assms(2) 4]
  note start = assms(5) [unfolded domainWorkload_def Let_def 1 2 3 4 prod.case]
  show ?thesis
  proof (cases "\<exists>ifs. e1 = None \<and> e3 = None \<and> x4 = Inr ifs")
    case False
    then have "run' = run \<and> (s' = s1 \<or> s' = s3) \<or> run' = run4 \<and> s' = s4" using start by (cases e1; cases e3; cases x4) (simp_all add: 3 4)
    with g g4 show ?thesis by auto
  next
    case True
    then obtain ifs cfg where "createDomain fq H ctx ?n cfg M run4 s4 = (e, run', s')" using start by (auto simp: 3 4)
    from createDomain_good [OF _ _ assms(3,4) this] g4 show ?thesis by auto
  qed
qed

lemma startDomain_good:
  assumes "good B run s" "node_ID node \<notin> set (run_order run)" "domains_named H"
    "startDomain fq H ctx t node spec options token index run s = (e, run', s')"
  shows "good B run' s' \<and> set (run_order run') \<subseteq> insert (node_ID node) (set (run_order run))"
proof -
  obtain x1 s1 where 1: "ho_MkdirTemp H ''/var/tmp'' ''tethux-domain-'' s = (x1, s1)" by force
  note l1 = dir_new [OF 1]
  show ?thesis
  proof (cases x1)
    case (Inl f)
    with assms(4) 1 l1 good_quiet [OF assms(1)] show ?thesis by (auto simp: startDomain_def)
  next
    case (Inr dir)
    let ?n = "node_ID node"
    let ?r = "\<lparr>dre_manager = None, dre_prepared = None, dre_id = '''', dre_directory = dir, dre_links = [], dre_switches = []\<rparr> :: 's domainResources"
    define run0 where "run0 = run\<lparr>run_domains := mput ?n ?r (run_domains run), run_nodes := mput ?n '''' (run_nodes run), run_order := run_order run @ [?n]\<rparr>"
    have g0: "good B run0 s1" unfolding run0_def
      by (rule good_new [OF assms(1,2)]) (use l1 Inr in \<open>auto simp: tracked_node_def domain_res_def quiet_dom_def\<close>)
    have p0: "placed ?n None run0" "set (run_order run0) \<subseteq> insert ?n (set (run_order run))" by (auto simp: placed_def run0_def)
    obtain e2 s2 where 2: "ho_Chmod H dir 493 s1 = (e2, s2)" by force
    obtain x3 s3 where 3: "ho_NewStore H dir s2 = (x3, s3)" by force
    have g3: "good B run0 s2" "good B run0 s3" using good_quiet [OF g0] live_quiet(8) [OF 2] live_quiet(5) [OF 3] by blast+
    note start = assms(4) [unfolded startDomain_def, simplified 1 Inr Let_def, simplified, folded run0_def, simplified 2]
    show ?thesis
    proof (cases "\<exists>M. e2 = None \<and> x3 = Inr M")
      case False
      then have "run' = run0 \<and> (s' = s2 \<or> s' = s3)" using start 3 by (cases e2; cases x3) auto
      with g3 p0 show ?thesis by auto
    next
      case True
      then obtain M where M: "e2 = None" "x3 = Inr M" by blast
      define run1 where "run1 = setDomain ?n (\<lambda>r. r\<lparr>dre_manager := Some M\<rparr>) run0"
      have qM: "quiet_store live M" using store [of dir s2 M s3] 3 M(2) by simp
      have g1: "good B run1 s3 \<and> placed ?n (Some M) run1 \<and> run_order run1 = run_order run0" unfolding run1_def
        by (rule setDomain_good [OF g3(2) p0(1)]) (use qM in \<open>auto simp: quiet_dom_def domain_res_def\<close>)
      have "domainWorkload fq H ctx t node spec options token index dir M run1 s3 = (e, run', s')" using start 3 M by (simp add: run1_def)
      from domainWorkload_good [OF conjunct1 [OF g1] conjunct1 [OF conjunct2 [OF g1]] qM assms(3) this] g1 p0(2) show ?thesis by simp
    qed
  qed
qed

lemma startNode_good:
  assumes "good B run s" "node_ID node \<notin> set (run_order run)" "domains_named H"
    "startNode fq H ctx t options token index node pids run s = (e, pids', run', s')"
  shows "good B run' s' \<and> set (run_order run') \<subseteq> insert (node_ID node) (set (run_order run))"
proof (cases "node_Spec node")
  case None
  with assms(1,4) show ?thesis by (auto simp: startNode_def)
next
  case (Some spec)
  show ?thesis
  proof (cases spec)
    case (Container c)
    with Some assms(4) startContainer_good [OF assms(1,2)] show ?thesis by (simp add: startNode_def)
  next
    case (Domain d)
    with Some assms(4) startDomain_good [OF assms(1,2,3)] show ?thesis by (auto simp: startNode_def split: prod.splits)
  next
    case (Shitnet c)
    with Some assms(4) startEndpoint_good [OF assms(1,2)] show ?thesis by (auto simp: startNode_def split: prod.splits)
  next
    case (Dynamips c)
    with Some assms(4) startRouter_good [OF assms(1,2)] show ?thesis by (auto simp: startNode_def split: prod.splits)
  next
    case (OtherSpec c)
    with Some assms(1,4) show ?thesis by (auto simp: startNode_def)
  qed
qed

lemma startNodes_good:
  "good B run s \<Longrightarrow> distinct (map node_ID nodes) \<Longrightarrow> set (map node_ID nodes) \<inter> set (run_order run) = {} \<Longrightarrow> domains_named H \<Longrightarrow>
   startNodes fq H ctx t options token index nodes pids run s = (e, pids', run', s') \<Longrightarrow> good B run' s'"
proof (induction nodes arbitrary: index pids run s)
  case (Cons node nodes)
  obtain f p2 run2 s2 where f: "startNode fq H ctx t options token index node pids run s = (f, p2, run2, s2)" by (rule prod_cases4)
  have g: "good B run2 s2 \<and> set (run_order run2) \<subseteq> insert (node_ID node) (set (run_order run))"
    by (rule startNode_good [OF Cons.prems(1) _ Cons.prems(4) f]) (use Cons.prems(3) in simp)
  show ?case
  proof (cases f)
    case (Some x)
    with Cons.prems(5) f g show ?thesis by simp
  next
    case None
    then have st: "startNodes fq H ctx t options token (index + 1) nodes p2 run2 s2 = (e, pids', run', s')" using Cons.prems(5) f by simp
    have "set (map node_ID nodes) \<inter> set (run_order run2) = {}" 
    proof -
      have "node_ID node \<notin> set (map node_ID nodes)" "set (map node_ID nodes) \<inter> set (run_order run) = {}" using Cons.prems(2,3) by simp_all
      with conjunct2 [OF g] show ?thesis by blast
    qed
    with st show ?thesis using Cons.IH [OF _ _ _ Cons.prems(4) st] g Cons.prems(2) by simp
  qed
qed simp

lemma connectLinks_good: "good B run s \<Longrightarrow> connectLinks H ctx base token pids ss run s = (e, run', s') \<Longrightarrow> good B run' s'"
proof (induction ss arbitrary: run s)
  case (Cons x ss)
  obtain index side l where x: "x = (index, side, l)" by (rule prod_cases3)
  let ?n = "ep_Node (side_endpoint side l)"
  show ?case
  proof (cases "mget (run_domains run) ?n \<noteq> None \<or> mget (run_endpoints run) ?n \<noteq> None \<or> mget (run_routers run) ?n \<noteq> None")
    case True
    then have "connectLinks H ctx base token pids ss run s = (e, run', s')" using Cons.prems(2) x by (auto simp: Let_def)
    from Cons.IH [OF Cons.prems(1) this] show ?thesis .
  next
    case False
    then have not: "mget (run_domains run) ?n = None" "mget (run_endpoints run) ?n = None" "mget (run_routers run) ?n = None" by blast+
    show ?thesis
    proof (cases "ctx_Done ctx (ho_now H s)")
      case (Some f)
      with Cons.prems x not show ?thesis by (simp add: Let_def)
    next
      case None
      obtain u t where u: "ho_StartContainerBridge H
          \<lparr>cb_PID = (case mget pids ?n of Some p \<Rightarrow> p | None \<Rightarrow> 0), cb_HostIf = hostIf token (2 * index + side), cb_ContainerIf = ep_Port (side_endpoint side l),
           cb_MTU = (if link_MTU l = 0 then 1500 else uint (link_MTU l)),
           cb_Listen = loopback (localPort base index side), cb_Remote = loopback (remotePort base index side)\<rparr> s = (u, t)" by (rule prod.exhaust)
      note b = bridge_new [OF u]
      show ?thesis
      proof (cases u)
        case (Inl f)
        with Cons.prems(2) x not None u have "run' = run" "s' = t" by (simp_all add: Let_def)
        with good_quiet [OF Cons.prems(1)] b Inl show ?thesis by simp
      next
        case (Inr c)
        let ?run = "run\<lparr>run_bridges := run_bridges run @ [c]\<rparr>"
        have "tracked_node ?run m = tracked_node run m" for m by (intro tracked_node_cong) simp_all
        then have "tracked ?run = insert (RBridge c) (tracked run)" by (auto simp: tracked_def)
        then have "good B ?run t" using Cons.prems(1) b Inr by (auto simp: good_def tidy_def)
        moreover have "connectLinks H ctx base token pids ss ?run t = (e, run', s')" using Cons.prems(2) x not None u Inr by (simp add: Let_def)
        ultimately show ?thesis by (rule Cons.IH)
      qed
    qed
  qed
qed simp

lemma run_start_good:
  assumes "good B run s" "distinct (map node_ID (top_Nodes t))" "run_order run = []" "domains_named H" "run_start fq H ctx t options token run s = (e, run', s')"
  shows "good B run' s'"
proof -
  obtain f pids run2 s2 where f: "startNodes fq H ctx t options token 0 (top_Nodes t) [] run s = (f, pids, run2, s2)" by (rule prod_cases4)
  have g: "good B run2 s2" by (rule startNodes_good [OF assms(1,2) _ assms(4) f]) (simp add: assms(3))
  show ?thesis
  proof (cases f)
    case (Some x)
    with assms(5) f g show ?thesis by (simp add: run_start_def)
  next
    case None
    then have "connectLinks H ctx (opt_BasePort options) token pids (sides (top_Links t)) run2 s2 = (e, run', s')" using assms(5) f by (simp add: run_start_def)
    from connectLinks_good [OF g this] show ?thesis .
  qed
qed

section \<open>Closing\<close>

lemma stopSwitches_live:
  "stopSwitches H ws s = (fs, rest, s') \<Longrightarrow> live s' \<subseteq> live s \<and> live s' \<inter> RSwitch ` set ws \<subseteq> RSwitch ` set rest \<and> (fs = [] \<longleftrightarrow> rest = [])"
proof (induction ws arbitrary: s fs rest s')
  case (Cons w ws)
  obtain e t where e: "ho_StopSwitch H w s = (e, t)" by force
  obtain gs k u where k: "stopSwitches H ws t = (gs, k, u)" by (rule prod_cases3)
  show ?case
  proof (cases e)
    case None
    then have "fs = gs" "rest = k" "s' = u" using Cons.prems e k by auto
    with Cons.IH [OF k] switch_del [OF e] None show ?thesis by auto
  next
    case (Some f)
    then have "fs = f # gs" "rest = w # k" "s' = u" using Cons.prems e k by auto
    with Cons.IH [OF k] switch_del [OF e] Some show ?thesis by auto
  qed
qed simp

lemma deleteLinks_live:
  "deleteLinks H ls s = (fs, rest, s') \<Longrightarrow> live s' \<subseteq> live s \<and> live s' \<inter> RLink ` set ls \<subseteq> RLink ` set rest \<and> (fs = [] \<longleftrightarrow> rest = [])"
proof (induction ls arbitrary: s fs rest s')
  case (Cons l ls)
  obtain e t where e: "ho_LinkDel H l s = (e, t)" by force
  obtain gs k u where k: "deleteLinks H ls t = (gs, k, u)" by (rule prod_cases3)
  show ?case
  proof (cases e)
    case None
    then have "fs = gs" "rest = k" "s' = u" using Cons.prems e k by auto
    with Cons.IH [OF k] link_del [OF e] None show ?thesis by auto
  next
    case (Some f)
    then have "fs = f # gs" "rest = l # k" "s' = u" using Cons.prems e k by auto
    with Cons.IH [OF k] link_del [OF e] Some show ?thesis by auto
  qed
qed simp

lemma domain_closeLinks_live:
  assumes "domain_closeLinks H fs r s = (e, r', s')"
  shows "live s' \<subseteq> live s \<and> live s' \<inter> domain_res r \<subseteq> domain_res r' \<and> dre_manager r' = dre_manager r \<and> dre_prepared r' = dre_prepared r \<and>
    (e = None \<longrightarrow> fs = [] \<and> live s' \<inter> (insert (RDir (dre_directory r)) (RLink ` set (dre_links r))) = {})"
proof -
  obtain gs k t where d: "deleteLinks H (dre_links r) s = (gs, k, t)" by (rule prod_cases3)
  note l = deleteLinks_live [OF d]
  show ?thesis
  proof (cases "fs @ gs = []")
    case False
    with assms d have "r' = r\<lparr>dre_links := k\<rparr>" "s' = t" "e = errors_Join (map Some (fs @ gs))" by (auto simp: domain_closeLinks_def Let_def)
    moreover from False this(3) have "e \<noteq> None" by (cases "fs @ gs") (auto simp: errors_Join_None)
    ultimately show ?thesis using l by (auto simp: domain_res_def)
  next
    case True
    obtain f u where f: "ho_RemoveAll H (dre_directory r) t = (f, u)" by force
    with True assms d have "r' = r\<lparr>dre_links := k\<rparr>" "s' = u" "e = f" by (auto simp: domain_closeLinks_def Let_def)
    with l dir_del [OF f] True show ?thesis by (auto simp: domain_res_def split: if_splits)
  qed
qed

lemma domain_close_live:
  assumes "domain_close H ctx r s = (e, r', s')" "quiet_dom r"
  shows "live s' \<subseteq> live s \<and> live s' \<inter> domain_res r \<subseteq> domain_res r' \<and> quiet_dom r' \<and> (e = None \<longrightarrow> live s' \<inter> domain_res r = {})"
proof -
  obtain fs k t where w: "stopSwitches H (dre_switches r) s = (fs, k, t)" by (rule prod_cases3)
  note lw = stopSwitches_live [OF w]
  define r1 where "r1 = r\<lparr>dre_switches := k\<rparr>"
  obtain f u where f: "(if dre_id r \<noteq> '''' then ho_DeleteDomain H ctx (dre_id r) t else (None, t)) = (f, u)" by (rule prod.exhaust)
  have lf: "live u \<subseteq> live t - (if f = None \<and> dre_id r \<noteq> '''' then {RDomain (dre_id r)} else {})"
    using f domain_del [of ctx "dre_id r" t f u] by (auto split: if_splits)
  have lu: "live u \<subseteq> live t" "live u \<subseteq> live s" using lf lw by blast+
  have join: "errors_Join (map Some (fs @ [x])) \<noteq> None" for x by (simp add: errors_Join_None)
  define r2 where "r2 = r1\<lparr>dre_id := []\<rparr>"
  have run: "(case f of Some x \<Rightarrow> (errors_Join (map Some (fs @ [x])), r1, u)
      | None \<Rightarrow> (case dre_prepared r of None \<Rightarrow> domain_closeLinks H fs r2 u
         | Some ps \<Rightarrow> (case domain_Release (the (dre_manager r)) ctx (Some ps) u of
              (Some y, q, v) \<Rightarrow> (errors_Join (map Some (fs @ [y])), r2\<lparr>dre_prepared := q\<rparr>, v)
            | (None, _, v) \<Rightarrow> domain_closeLinks H fs (r2\<lparr>dre_prepared := None\<rparr>) v))) = (e, r', s')"
    using assms(1) w f by (cases "dre_id r = []"; cases f) (simp_all add: domain_close_def Let_def r1_def r2_def cong: option.case_cong)
  have res1: "domain_res r \<inter> live t \<subseteq> domain_res r1" using lw by (auto simp: domain_res_def r1_def)
  show ?thesis
  proof (cases f)
    case (Some x)
    then have "r' = r1" "s' = u" "e = errors_Join (map Some (fs @ [x]))" using run by auto
    moreover have "live u \<inter> domain_res r \<subseteq> domain_res r1" using res1 lu by blast
    moreover have "quiet_dom r1" using assms(2) by (simp add: quiet_dom_def r1_def)
    ultimately show ?thesis using join [of x] lu by auto
  next
    case None
    have res2: "domain_res r \<inter> live u \<subseteq> domain_res r2" using res1 lf None by (auto simp: domain_res_def r2_def split: if_splits)
    have gone: "e' = None \<longrightarrow> live v \<inter> domain_res r = {}"
      if "live v \<subseteq> live u" "e' = None \<longrightarrow> fs = [] \<and> live v \<inter> (insert (RDir (dre_directory r)) (RLink ` set (dre_links r))) = {}" for e' v
    proof (rule impI)
      assume "e' = None"
      then have "live t \<inter> RSwitch ` set (dre_switches r) = {}" "live v \<inter> insert (RDir (dre_directory r)) (RLink ` set (dre_links r)) = {}"
        using that(2) lw by simp_all
      moreover have "live v \<subseteq> live t" using that(1) lu by blast
      moreover have "dre_id r = [] \<or> RDomain (dre_id r) \<notin> live v" using that(1) lf None by (auto split: if_splits)
      ultimately show "live v \<inter> domain_res r = {}" unfolding domain_res_def by (cases "dre_id r = []") (simp_all, blast+)
    qed
    show ?thesis
    proof (cases "dre_prepared r")
      case prep: None
      then have "domain_closeLinks H fs r2 u = (e, r', s')" using run None by simp
      note c = domain_closeLinks_live [OF this]
      have "dre_directory r2 = dre_directory r" "dre_links r2 = dre_links r" by (simp_all add: r2_def r1_def)
      with c have "e = None \<longrightarrow> live s' \<inter> domain_res r = {}" by (intro gone) simp_all
      moreover have "live s' \<subseteq> live s" "live s' \<inter> domain_res r \<subseteq> domain_res r'" using c res2 lu by blast+
      moreover have "quiet_dom r'" using c assms(2) by (simp add: quiet_dom_def r2_def r1_def)
      ultimately show ?thesis by blast
    next
      case (Some ps)
      obtain M where M: "dre_manager r = Some M" "quiet_store live M" using assms(2) Some by (auto simp: quiet_dom_def)
      obtain x q v where x: "domain_Release M ctx (Some ps) u = (x, q, v)" by (rule prod_cases3)
      note lv = domain_Release_quiet [OF M(2) x]
      show ?thesis
      proof (cases x)
        case err: (Some y)
        then have "r' = r2\<lparr>dre_prepared := q\<rparr>" "s' = v" "e = errors_Join (map Some (fs @ [y]))"
          using run None Some M(1) x by auto
        moreover have "domain_res (r2\<lparr>dre_prepared := q\<rparr>) = domain_res r2" by (simp add: domain_res_def)
        moreover have "live v \<inter> domain_res r \<subseteq> domain_res r2" "live v \<subseteq> live s" using res2 lv lu by blast+
        moreover have "quiet_dom (r2\<lparr>dre_prepared := q\<rparr>)" using M assms(2) by (simp add: quiet_dom_def r2_def r1_def)
        ultimately show ?thesis using join [of y] by auto
      next
        case ok: None
        let ?r3 = "r2\<lparr>dre_prepared := None\<rparr>"
        have "domain_closeLinks H fs ?r3 v = (e, r', s')" using run None Some M(1) x ok by simp
        note c = domain_closeLinks_live [OF this]
        have "dre_directory ?r3 = dre_directory r" "dre_links ?r3 = dre_links r" "domain_res ?r3 = domain_res r2" by (simp_all add: r2_def r1_def domain_res_def)
        with c lv have "e = None \<longrightarrow> live s' \<inter> domain_res r = {}" by (intro gone) auto
        moreover have "live s' \<subseteq> live s" "live s' \<inter> domain_res r \<subseteq> domain_res r'"
          using c res2 lu lv \<open>domain_res ?r3 = domain_res r2\<close> by blast+
        moreover have "quiet_dom r'" using c assms(2) M by (simp add: quiet_dom_def r2_def r1_def)
        ultimately show ?thesis by blast
      qed
    qed
  qed
qed

lemma closeBridges_live:
  "closeBridges H bs s = (fs, kept, s') \<Longrightarrow> live s' \<subseteq> live s \<and> live s' \<inter> RBridge ` set bs \<subseteq> RBridge ` set kept \<and> (fs = [] \<longleftrightarrow> kept = [])"
proof (induction bs arbitrary: s fs kept s')
  case (Cons b bs)
  obtain e t where e: "ho_CloseBridge H b s = (e, t)" by force
  obtain gs k u where k: "closeBridges H bs t = (gs, k, u)" by (rule prod_cases3)
  show ?case
  proof (cases e)
    case None
    then have "fs = gs" "kept = k" "s' = u" using Cons.prems e k by auto
    with Cons.IH [OF k] bridge_del [OF e] None show ?thesis by auto
  next
    case (Some f)
    then have "kept = b # k" "s' = u" "fs \<noteq> []" using Cons.prems e k by auto
    with Cons.IH [OF k] bridge_del [OF e] Some show ?thesis by auto
  qed
qed simp

text \<open>What is left of the run after one of its nodes was closed.\<close>

definition closed_node :: "NodeID \<Rightarrow> 's Running \<Rightarrow> gerror option \<Rightarrow> 's Running \<Rightarrow> bool" where
  "closed_node n run e run' \<longleftrightarrow> run_order run' = run_order run \<and> run_bridges run' = run_bridges run \<and>
     (\<forall>m. mget (run_nodes run) m = None \<longrightarrow> mget (run_nodes run') m = None) \<and> (e = None \<longrightarrow> mget (run_nodes run') n = None)"

lemma good_removed:
  assumes "good B run s" "n \<in> set (run_order run)" "run_nodes run' = mdel n (run_nodes run)" "run_order run' = run_order run" "run_bridges run' = run_bridges run"
    "run_manager run' = run_manager run" "run_providers run' = run_providers run"
    "\<And>m. m \<noteq> n \<Longrightarrow> mget (run_domains run') m = mget (run_domains run) m \<and> mget (run_endpoints run') m = mget (run_endpoints run) m \<and>
      mget (run_routers run') m = mget (run_routers run) m"
    "\<And>m r. mget (run_domains run') m = Some r \<Longrightarrow> mget (run_domains run) m = Some r"
    "live s' \<subseteq> live s" "live s' \<inter> tracked_node run n = {}"
  shows "good B run' s' \<and> closed_node n run None run'"
proof -
  have "good B run' s'"
  proof (rule good_update [OF assms(1), where n = n])
    show "tracked_node run' m = tracked_node run m" if "m \<noteq> n" for m using that assms(3,4,7) assms(8) [OF that] by (intro tracked_node_cong) auto
    show "tidy run'" unfolding tidy_def
    proof (intro allI impI)
      fix m assume m: "m \<notin> set (run_order run')"
      then have "m \<noteq> n" using assms(2,4) by auto
      with m assms(1,3,4) assms(8) [OF this] show "mget (run_nodes run') m = None \<and> mget (run_domains run') m = None \<and> mget (run_endpoints run') m = None \<and>
          mget (run_routers run') m = None" by (simp add: good_def tidy_def)
    qed
    show "quiet_dom r" if "mget (run_domains run') m = Some r" for m r using assms(1) assms(9) [OF that] by (auto simp: good_def)
  qed (use assms in auto)
  with assms(3-5) show ?thesis by (simp add: closed_node_def)
qed

lemma closeNode_domain:
  assumes "good B run s" "n \<in> set (run_order run)" "closeNode H ctx n run s = (e, run', s')" "mget (run_nodes run) n = Some i" "mget (run_domains run) n = Some r"
  shows "good B run' s' \<and> closed_node n run e run'"
proof -
  have qd: "mget (run_domains run) m = Some q \<Longrightarrow> quiet_dom q" for m q using assms(1) by (simp add: good_def)
  note Some = assms(4) and dom = assms(5)
  have tn: "tracked_node run n = domain_res r" using Some dom assms(2) by (simp add: tracked_node_def)
  obtain f r2 t where f: "domain_close H ctx r s = (f, r2, t)" by (rule prod_cases3)
  note l = domain_close_live [OF f qd [OF dom]]
  show ?thesis
  proof (cases f)
    case None
    then have eqs: "e = None" "run' = run\<lparr>run_domains := mdel n (run_domains run), run_nodes := mdel n (run_nodes run)\<rparr>" "s' = t"
      using assms(3) Some dom f by (simp_all add: closeNode_def)
    show ?thesis unfolding eqs by (rule good_removed [OF assms(1,2)]) (use l None tn in \<open>auto split: if_splits\<close>)
  next
    case err: (Some x)
    let ?run = "run\<lparr>run_domains := mput n r2 (run_domains run)\<rparr>"
    have eqs: "e = Some x" "run' = ?run" "s' = t" using assms(3) Some dom f err by (simp_all add: closeNode_def)
    have "good B ?run t"
    proof (rule good_update [OF assms(1), where n = n])
      show "tracked_node ?run m = tracked_node run m" if "m \<noteq> n" for m using that by (intro tracked_node_cong) auto
      have "tracked_node ?run n = domain_res r2" using Some assms(2) by (simp add: tracked_node_def)
      then show "live t \<subseteq> live s \<union> tracked_node ?run n" "live t \<inter> tracked_node run n \<subseteq> tracked_node ?run n" using l tn by auto
      show "tidy ?run" using assms(1,2) by (auto simp: good_def tidy_def)
      show "quiet_dom q" if "mget (run_domains ?run) m = Some q" for m q using that l qd by (auto split: if_splits)
    qed simp_all
    then show ?thesis by (simp add: eqs closed_node_def)
  qed
qed

lemma closeNode_router:
  assumes "good B run s" "n \<in> set (run_order run)" "closeNode H ctx n run s = (e, run', s')" "mget (run_nodes run) n = Some i"
    "mget (run_domains run) n = None" "mget (run_endpoints run) n = None" "mget (run_routers run) n = Some rs"
  shows "good B run' s' \<and> closed_node n run e run'"
proof -
  have quietM: "\<forall>M. run_manager run = Some M \<longrightarrow> quiet_store live M" using assms(1) by (simp add: good_def)
  note Some = assms(4) and nodom = assms(5) and noend = assms(6) and rout = assms(7)
  obtain f rs2 t where f: "manager_Delete (run_manager run) ctx (if run_dynamips run then Some (ho_Router H) else None) i (Some rs) s = (f, rs2, t)" by (rule prod_cases3)
  note l = manager_Delete_live [OF quietM f]
  have tn: "tracked_node run n = {RRouter i}" using Some nodom noend rout assms(2) by (simp add: tracked_node_def)
  show ?thesis
  proof (cases f)
    case None
    then have eqs: "e = None" "run' = run\<lparr>run_routers := mdel n (run_routers run), run_nodes := mdel n (run_nodes run)\<rparr>" "s' = t"
      using assms(3) Some nodom noend rout f by (simp_all add: closeNode_def)
    show ?thesis unfolding eqs by (rule good_removed [OF assms(1,2)]) (use l None tn in auto)
  next
    case err: (Some x)
    let ?run = "run\<lparr>run_routers := mput n (the rs2) (run_routers run)\<rparr>"
    have eqs: "e = Some x" "run' = ?run" "s' = t" using assms(3) Some nodom noend rout f err by (simp_all add: closeNode_def)
    have same: "tracked_node ?run m = tracked_node run m" for m
    proof (cases "m = n")
      case True
      with Some nodom noend assms(2) tn show ?thesis by (simp add: tracked_node_def)
    next
      case False
      then show ?thesis by (intro tracked_node_cong) auto
    qed
    then have "tracked ?run = tracked run" by (simp add: tracked_def)
    then have "good B ?run t" using assms(1,2) l err by (auto simp: good_def tidy_def)
    then show ?thesis by (simp add: eqs closed_node_def)
  qed
qed

lemma closeNode_good:
  assumes "good B run s" "n \<in> set (run_order run)" "closeNode H ctx n run s = (e, run', s')"
  shows "good B run' s' \<and> closed_node n run e run'"
proof (cases "mget (run_nodes run) n")
  case None
  with assms show ?thesis by (simp add: closeNode_def closed_node_def)
next
  case (Some i)
  show ?thesis
  proof (cases "mget (run_domains run) n")
    case dom: (Some r)
    show ?thesis by (rule closeNode_domain [OF assms Some dom])
  next
    case nodom: None
    show ?thesis
    proof (cases "mget (run_endpoints run) n")
      case endp: (Some x)
      obtain f t where f: "ho_DeleteEndpoint H ctx i s = (f, t)" by force
      note l = endpoint_del [OF f]
      have tn: "tracked_node run n = {REndpoint i}" using Some nodom endp assms(2) by (simp add: tracked_node_def)
      show ?thesis
      proof (cases f)
        case None
        then have eqs: "e = None" "run' = run\<lparr>run_endpoints := mdel n (run_endpoints run), run_nodes := mdel n (run_nodes run)\<rparr>" "s' = t"
          using assms(3) Some nodom endp f by (simp_all add: closeNode_def)
        show ?thesis unfolding eqs by (rule good_removed [OF assms(1,2)]) (use l None tn in auto)
      next
        case err: (Some x)
        then have eqs: "e = Some x" "run' = run" "s' = t" using assms(3) Some nodom endp f by (simp_all add: closeNode_def)
        with good_quiet [OF assms(1)] l err show ?thesis by (auto simp: closed_node_def)
      qed
    next
      case noend: None
      show ?thesis
      proof (cases "mget (run_routers run) n")
        case rout: (Some rs)
        show ?thesis by (rule closeNode_router [OF assms Some nodom noend rout])
      next
        case norout: None
        obtain f t where f: "ho_DeleteContainer H (the (mget (run_providers run) n)) ctx i s = (f, t)" by force
        note l = container_del [OF f]
        have tn: "tracked_node run n = {RContainer (the (mget (run_providers run) n)) i}" using Some nodom noend norout assms(2) by (simp add: tracked_node_def)
        show ?thesis
        proof (cases f)
          case None
          then have eqs: "e = None" "run' = run\<lparr>run_nodes := mdel n (run_nodes run)\<rparr>" "s' = t"
            using assms(3) Some nodom noend norout f by (simp_all add: closeNode_def)
          show ?thesis unfolding eqs by (rule good_removed [OF assms(1,2)]) (use l None tn in auto)
        next
          case err: (Some x)
          then have eqs: "run' = run" "s' = t" "e \<noteq> None" using assms(3) Some nodom noend norout f by (auto simp: closeNode_def)
          with good_quiet [OF assms(1)] l err show ?thesis by (auto simp: closed_node_def)
        qed
      qed
    qed
  qed
qed

lemma closeNodes_good:
  "good B run s \<Longrightarrow> set ns \<subseteq> set (run_order run) \<Longrightarrow> closeNodes H ctx ns fs run s = (fs', run', s') \<Longrightarrow>
   good B run' s' \<and> run_order run' = run_order run \<and> run_bridges run' = run_bridges run \<and> length fs \<le> length fs' \<and>
   (\<forall>m. mget (run_nodes run) m = None \<longrightarrow> mget (run_nodes run') m = None) \<and> (fs' = [] \<longrightarrow> (\<forall>n \<in> set ns. mget (run_nodes run') n = None))"
proof (induction ns arbitrary: fs run s)
  case (Cons n ns)
  obtain e run2 s2 where e: "closeNode H ctx n run s = (e, run2, s2)" by (rule prod_cases3)
  have g: "good B run2 s2" "closed_node n run e run2" using closeNode_good [OF Cons.prems(1) _ e] Cons.prems(2) by simp_all
  then have sub: "set ns \<subseteq> set (run_order run2)" using Cons.prems(2) by (simp add: closed_node_def)
  show ?case
  proof (cases e)
    case None
    then have "closeNodes H ctx ns fs run2 s2 = (fs', run', s')" using Cons.prems(3) e by simp
    from Cons.IH [OF g(1) sub this] g(2) None show ?thesis by (simp add: closed_node_def)
  next
    case (Some f)
    then have "closeNodes H ctx ns (fs @ [f]) run2 s2 = (fs', run', s')" using Cons.prems(3) e by simp
    from Cons.IH [OF g(1) sub this] g(2) show ?thesis by (auto simp: closed_node_def)
  qed
qed simp

lemma run_Close_good:
  assumes "good B run s" "run_Close H ctx run s = (e, run', s')"
  shows "good B run' s' \<and> (e = None \<longrightarrow> live s' \<subseteq> B \<and> run_bridges run' = [] \<and> (\<forall>n \<in> set (run_order run'). mget (run_nodes run') n = None))"
proof -
  obtain fs kept t where b: "closeBridges H (rev (run_bridges run)) s = (fs, kept, t)" by (rule prod_cases3)
  note l = closeBridges_live [OF b]
  let ?run = "run\<lparr>run_bridges := rev kept\<rparr>"
  have same: "tracked_node ?run m = tracked_node run m" for m by (intro tracked_node_cong) simp_all
  have tr: "tracked ?run = RBridge ` set kept \<union> (\<Union>m. tracked_node run m)" by (simp add: tracked_def same)
  have "live s \<subseteq> B \<union> (RBridge ` set (run_bridges run) \<union> (\<Union>m. tracked_node run m))" using assms(1) by (simp add: good_def tracked_def)
  moreover have "live t \<subseteq> live s" "live t \<inter> RBridge ` set (run_bridges run) \<subseteq> RBridge ` set kept" using l by simp_all
  ultimately have "live t \<subseteq> B \<union> tracked ?run" unfolding tr by (rule subset_replace)
  then have g: "good B ?run t" using assms(1) by (simp add: good_def tidy_def)
  obtain gs run2 u where c: "closeNodes H ctx (rev (run_order run)) fs ?run t = (gs, run2, u)" by (rule prod_cases3)
  note cl = closeNodes_good [OF g _ c, simplified]
  have eqs: "run' = run2" "s' = u" "e = errors_Join (map Some gs)" using assms(2) b c by (simp_all add: run_Close_def)
  have "live u \<subseteq> B \<and> run_bridges run2 = [] \<and> (\<forall>n \<in> set (run_order run2). mget (run_nodes run2) n = None)" if "e = None"
  proof -
    have "gs = []" using that eqs(3) by (cases gs) (simp_all add: errors_Join_None)
    then have k: "kept = []" "\<forall>n \<in> set (run_order run). mget (run_nodes run2) n = None" using cl l by auto
    then have "tracked_node run2 n = {}" for n using cl by (cases "mget (run_nodes run2) n") (auto simp: tracked_node_def)
    then have "tracked run2 = {}" using cl k(1) by (simp add: tracked_def)
    then show ?thesis using cl k by (simp add: good_def)
  qed
  with cl eqs show ?thesis by simp
qed

lemma closed_stays:
  assumes "run_bridges run = []" "\<forall>n \<in> set (run_order run). mget (run_nodes run) n = None"
  shows "run_Close H ctx run s = (None, run, s)"
proof -
  have "closeNodes H ctx ns fs run s = (fs, run, s)" if "\<forall>n \<in> set ns. mget (run_nodes run) n = None" for ns fs
    using that by (induction ns) (simp_all add: closeNode_def)
  then have "closeNodes H ctx (rev (run_order run)) [] run s = ([], run, s)" using assms(2) by simp
  moreover have upd: "run\<lparr>run_bridges := []\<rparr> = run" using assms(1) by simp
  ultimately show ?thesis using assms(1) by (simp add: run_Close_def errors_Join_None upd)
qed

lemma startRun_good:
  assumes "live s \<subseteq> B" "\<forall>M. m = Some M \<longrightarrow> quiet_store live M" "distinct (map node_ID (top_Nodes t))" "domains_named H"
    "startRun fq H ctx t options (empty_run b m) s = (h, err, s')"
  shows "(h = None \<longrightarrow> live s' \<subseteq> B \<and> err \<noteq> None) \<and> (\<forall>run. h = Some run \<longrightarrow> good B run s')"
proof -
  obtain u s1 where 1: "ho_UUID H s = (u, s1)" by force
  have "good B (empty_run b m) s" using assms(1,2) by (auto simp: good_def tidy_def empty_run_def)
  then have g1: "good B (empty_run b m) s1" using live_quiet(1) [OF 1] good_quiet by blast
  let ?token = "take 8 (filter (\<lambda>c. c \<noteq> CHR ''-'') u)"
  obtain e run2 s2 where 2: "run_start fq H ctx t options ?token (empty_run b m) s1 = (e, run2, s2)" by (rule prod_cases3)
  have g2: "good B run2 s2" by (rule run_start_good [OF g1 assms(3) _ assms(4) 2]) (simp add: empty_run_def)
  show ?thesis
  proof (cases e)
    case None
    with assms(5) 1 2 g2 show ?thesis by (auto simp: startRun_def)
  next
    case (Some f)
    obtain c run3 s3 where 3: "run_Close H (cleanup_NewContext (ho_now H s2) ctx) run2 s2 = (c, run3, s3)" by (rule prod_cases3)
    note g3 = run_Close_good [OF g2 3]
    with assms(5) 1 2 Some 3 show ?thesis by (cases c) (auto simp: startRun_def Let_def)
  qed
qed

lemma local_Start_good:
  assumes "domains_named H" "local_Start fq H ctx t options s = (h, err, s')"
  shows "(h = None \<longrightarrow> live s' \<subseteq> live s \<and> err \<noteq> None) \<and> (\<forall>run. h = Some run \<longrightarrow> good (live s) run s')"
proof (cases "Validate fq t = None \<and> validateSupport fq H (the t) options = None")
  case False
  with assms(2) have "h = None" "err \<noteq> None" "s' = s" by (cases "Validate fq t"; cases "validateSupport fq H (the t) options"; auto simp: local_Start_def)+
  then show ?thesis by simp
next
  case True
  then obtain tt where t: "t = Some tt" by (cases t) (auto simp: Validate_def)
  have d: "distinct (map node_ID (top_Nodes tt))"
    using True t collectNodes_indexes(3) by (auto simp: Validate_def split: if_splits sum.splits)
  let ?o = "options\<lparr>opt_BasePort := base_port options\<rparr>"
  show ?thesis
  proof (cases "opt_Dynamips options")
    case None
    then have "startRun fq H ctx tt ?o (empty_run False None) s = (h, err, s')" using assms(2) True t by (simp add: local_Start_def Let_def)
    from startRun_good [OF subset_refl _ d assms(1) this] show ?thesis by simp
  next
    case (Some dy)
    obtain x u where x: "ho_NewStore H (dyo_StateRoot dy) s = (x, u)" by force
    note q = live_quiet(5) [OF x]
    show ?thesis
    proof (cases x)
      case (Inl e)
      with assms(2) True t Some x q show ?thesis by (auto simp: local_Start_def Let_def)
    next
      case (Inr M)
      then have "startRun fq H ctx tt ?o (empty_run (dyo_Provider dy) (Some M)) u = (h, err, s')" using assms(2) True t Some x by (simp add: local_Start_def Let_def)
      from startRun_good [OF q _ d assms(1) this] store [of "dyo_StateRoot dy" s M u] x Inr show ?thesis by simp
    qed
  qed
qed

end

end
