(* ===== verification/Topology_Local_Properties.thy ===== *)
theory Topology_Local_Properties
  imports Topology_Local_Facts
begin

text \<open>
  What a run of a topology on one host promises: the UDP ports and interface names of its links fit and
  are apart; what a start creates is either gone or tracked by the handle it returns, and closing the
  handle, after any number of failed attempts, leaves nothing behind. The locale \<open>host_account\<close> is
  interpreted on any host that is watched.
\<close>

section \<open>Ports and names\<close>

lemma sides_mem: "(i, a, l) \<in> set (sides ls) \<longleftrightarrow> i < length ls \<and> a < 2 \<and> l = ls ! i"
  by (auto simp: sides_def in_set_enumerate_eq less_2_cases_iff)

lemma show_hex_length: "n < 16 ^ w \<Longrightarrow> 0 < w \<Longrightarrow> length (show_hex n) \<le> w"
proof (induction w arbitrary: n)
  case (Suc w)
  show ?case
  proof (cases "n < 16")
    case True
    then show ?thesis by (simp add: show_hex.simps)
  next
    case False
    then have "0 < w" using Suc.prems by (cases w) auto
    moreover have "n div 16 < 16 ^ w" using Suc.prems(1) by (simp add: less_mult_imp_div_less mult.commute)
    ultimately show ?thesis using Suc.IH [of "n div 16"] False by (simp add: show_hex.simps [of n])
  qed
qed simp

lemma pad0_length: "length s \<le> w \<Longrightarrow> length (pad0 w s) = w"
  by (simp add: pad0_def)

text \<open>C36: once \<open>validateSupport\<close> has accepted a topology, every end of a link gets a UDP port within
  1..65535, its remote port is the port of the other end, and no two ends share a port; the name of the
  host interface of an end has at most 14 characters, that of the bridge of a domain port at most 15,
  so that both are names that Linux accepts.\<close>

theorem link_ports_fit:
  assumes "validateSupport fq H t options = None" "(i, a, l) \<in> set (sides (top_Links t))" "length token = 8" "n \<le> 65535"
  shows "1 \<le> localPort (base_port options) i a \<and> localPort (base_port options) i a \<le> 65535 \<and>
    remotePort (base_port options) i a = localPort (base_port options) i (1 - a) \<and>
    (\<forall>j b k. (j, b, k) \<in> set (sides (top_Links t)) \<longrightarrow> localPort (base_port options) j b = localPort (base_port options) i a \<longrightarrow> (j, b, k) = (i, a, l)) \<and>
    length (hostIf token (2 * i + a)) = 14 \<and> length (domainIf token n) \<le> 15"
proof -
  have b: "1 \<le> base_port options" "base_port options \<le> 65535" "int (length (top_Links t)) \<le> (65536 - base_port options) div 2"
    using assms(1) by (auto simp: validateSupport_def Let_def split: if_splits)
  have i: "i < length (top_Links t)" "a < 2" "l = top_Links t ! i" using assms(2) by (simp_all add: sides_mem)
  have bound: "int (2 * i + a) \<le> 65535 - base_port options" using b(3) i(1,2) by linarith
  then have "2 * i + a < 16 ^ 4" using b(1) by simp
  from show_hex_length [OF this] have host: "length (hostIf token (2 * i + a)) = 14" using assms(3) by (simp add: hostIf_def pad0_length)
  have "length (show_hex n) \<le> 4" using show_hex_length [of n 4] assms(4) by simp
  then have dom: "length (domainIf token n) \<le> 15" using assms(3) by (simp add: domainIf_def pad0_def)
  have "(j, b, k) = (i, a, l)" if "(j, b, k) \<in> set (sides (top_Links t))" "localPort (base_port options) j b = localPort (base_port options) i a" for j b k
  proof -
    have j: "b < 2" "k = top_Links t ! j" using that(1) by (simp_all add: sides_mem)
    have "2 * int j + int b = 2 * int i + int a" using that(2) by (simp add: localPort_def)
    then have "j = i" "b = a" using j(1) i(2) by presburger+
    with j i show ?thesis by simp
  qed
  moreover have "remotePort (base_port options) i a = localPort (base_port options) i (1 - a)"
    using i(2) by (auto simp: remotePort_def localPort_def less_2_cases_iff)
  moreover have "1 \<le> localPort (base_port options) i a" "localPort (base_port options) i a \<le> 65535"
    using bound b by (simp_all add: localPort_def)
  ultimately show ?thesis using host dom by blast
qed

section \<open>State of routers\<close>

definition plain :: "string \<Rightarrow> bool" where
  "plain c \<longleftrightarrow> c \<noteq> '''' \<and> c \<noteq> ''.'' \<and> c \<noteq> ''..'' \<and> CHR ''/'' \<notin> set c"

lemma splitAt_slash: "CHR ''/'' \<notin> set c \<Longrightarrow> splitAt CHR ''/'' (c @ CHR ''/'' # rest) = c # splitAt CHR ''/'' rest"
  by (induction c) auto

lemma plain_not_abs: "plain c \<Longrightarrow> \<not> filepath_IsAbs (c @ r)"
  by (cases c) (auto simp: plain_def filepath_IsAbs_def)

text \<open>A topology of its own keeps the state of a router under the key that joins the two
  identifiers, but an identifier with dot segments reaches the state of a router of another topology:
  both are given the same storage.\<close>

theorem router_state_shared:
  assumes "plain a" "plain b" "plain n"
  shows "router_state a n = \<lparr>ref_Provider = DefaultName, ref_Key = a @ ''/'' @ n\<rparr> \<and> router_state a (''../'' @ b @ ''/'' @ n) = router_state b n"
proof -
  have own: "filepath_Join c n = c @ ''/'' @ n" if "plain c" for c
  proof -
    have "filepath_Clean (c @ ''/'' @ n) = [c, n]"
      using that assms(3) by (simp add: filepath_Clean_def splitAt_slash splitAt_plain plain_def)
    then show ?thesis using that assms(3) plain_not_abs [OF that, of "''/'' @ n"] by (auto simp: filepath_Join_def path_Clean_def plain_def)
  qed
  have "filepath_Clean (a @ ''/'' @ ''../'' @ b @ ''/'' @ n) = [b, n]"
    using assms splitAt_slash [of a "''../'' @ b @ ''/'' @ n"] splitAt_slash [of "''..''" "b @ ''/'' @ n"] splitAt_slash [of b n]
    by (simp add: filepath_Clean_def splitAt_plain plain_def)
  then have "filepath_Join a (''../'' @ b @ ''/'' @ n) = b @ ''/'' @ n"
    using assms(1) plain_not_abs [OF assms(1), of "''/'' @ ''../'' @ b @ ''/'' @ n"] by (auto simp: filepath_Join_def path_Clean_def plain_def)
  with own [OF assms(1)] own [OF assms(2)] show ?thesis by (simp add: router_state_def)
qed

theorem router_state_shared_witness:
  "router_state ''lab'' ''../prod/r1'' = router_state ''prod'' ''r1''"
  using router_state_shared [of "''lab''" "''prod''" "''r1''"] by (simp add: plain_def)

section \<open>Watching any host\<close>














section \<open>A concrete host\<close>

text \<open>One container provider; everything succeeds, except that no bridge can be started.\<close>

definition demo_container :: ContainerNode where
  "demo_container = \<lparr>cn_Node = \<lparr>vn_ID = ''c0'', vn_Name = '''', vn_State = NodeRunning, vn_Console = \<lparr>con_Type = '''', con_Host = '''', con_Port = 0\<rparr>, vn_Aux = None\<rparr>,
     cn_PID = 7, cn_ImageID = '''', cn_ImageName = '''', cn_Labels = [], cn_Networks = []\<rparr>"

definition demo_host :: "nat host" where
  "demo_host =
     \<lparr>ho_now = (\<lambda>_. 0), ho_UUID = (\<lambda>s. (''0123-4567-89ab'', s)), ho_IsNotFound = (\<lambda>_. False), ho_ProviderName = (\<lambda>_. ''docker''),
      ho_NewProvider = (\<lambda>_ s. (Inr 0, s)), ho_ListContainers = (\<lambda>_ _ s. (None, s)), ho_CreateContainer = (\<lambda>_ _ _ s. (Inr demo_container, s)),
      ho_Pull = (\<lambda>_ _ _ s. (None, s)), ho_StartContainer = (\<lambda>_ _ _ s. (None, s)), ho_Inspect = (\<lambda>_ _ _ s. (Inr demo_container, s)),
      ho_DeleteContainer = (\<lambda>_ _ _ s. (None, s)), ho_ReloadContainer = (\<lambda>_ _ _ s. (Inr (cn_Node demo_container), s)),
      ho_NewStore = (\<lambda>_ s. (Inl (Sentinel (OS ErrNotExist)), s)),
      ho_Router = \<lparr>rp_CreateRouter = (\<lambda>_ _ s. (Inl (Sentinel (OS ErrNotExist)), s)), rp_Delete = (\<lambda>_ _ s. (None, s))\<rparr>,
      ho_StartRouter = (\<lambda>_ _ s. (None, s)), ho_ReloadRouter = (\<lambda>_ _ s. (Inr (cn_Node demo_container), s)),
      ho_CreateEndpoint = (\<lambda>_ _ s. (Inr (cn_Node demo_container), s)), ho_StartEndpoint = (\<lambda>_ _ s. (None, s)), ho_DeleteEndpoint = (\<lambda>_ _ s. (None, s)),
      ho_ReloadEndpoint = (\<lambda>_ _ s. (Inr (cn_Node demo_container), s)), ho_CreateDomain = (\<lambda>_ _ s. ((None, None), s)), ho_DeleteDomain = (\<lambda>_ _ s. (None, s)),
      ho_ReloadDomain = (\<lambda>_ _ s. (Inr (cn_Node demo_container), s)), ho_MkdirTemp = (\<lambda>_ _ s. (Inr ''/var/tmp/d'', s)), ho_Chmod = (\<lambda>_ _ s. (None, s)),
      ho_RemoveAll = (\<lambda>_ s. (None, s)), ho_Abs = (\<lambda>p _. Inr p), ho_Command = (\<lambda>_ _ s. (('''', None), s)), ho_Open = (\<lambda>_ s. (Inr 0, s)),
      ho_CreateExcl = (\<lambda>_ _ s. (Inr 1, s)), ho_Copy = (\<lambda>_ _ s. (None, s)), ho_CloseFile = (\<lambda>_ s. (None, s)), ho_LinkAdd = (\<lambda>_ s. (None, s)),
      ho_LinkSetUp = (\<lambda>_ s. (None, s)), ho_SetPromiscOn = (\<lambda>_ s. (None, s)), ho_LinkDel = (\<lambda>_ s. (None, s)), ho_NewRawSocketPort = (\<lambda>_ _ s. (Inr 0, s)),
      ho_NewUDPPort = (\<lambda>_ _ _ s. (Inr 1, s)), ho_ClosePort = (\<lambda>_ s. (None, s)), ho_NewSwitch = (\<lambda>s. (0, s)), ho_AttachPort = (\<lambda>_ _ s. (None, s)),
      ho_StartSwitch = (\<lambda>_ s. (None, s)), ho_StopSwitch = (\<lambda>_ s. (None, s)), ho_StartContainerBridge = (\<lambda>_ s. (Inl (Sentinel (OS ErrExist)), s)),
      ho_CloseBridge = (\<lambda>_ s. (None, s)), ho_ParseOther = (\<lambda>_. Inr AddrInvalid)\<rparr>"

definition demo_node :: "string \<Rightarrow> Topology.Node" where
  "demo_node n = \<lparr>node_ID = n, node_Name = n, node_Spec = Some (Container \<lparr>cs_Provider = '''', cs_Image = ''alpine'', cs_Command = [], cs_Env = []\<rparr>),
     node_Ports = [\<lparr>port_ID = ''eth0'', port_Kind = PortEthernet\<rparr>]\<rparr>"

definition container_lab :: Topology where
  "container_lab = \<lparr>top_ID = ''lab'', top_Nodes = [demo_node ''a'', demo_node ''b''],
     top_Links = [\<lparr>link_ID = ''l'', link_Kind = LinkEthernet, link_A = \<lparr>ep_Node = ''a'', ep_Port = ''eth0''\<rparr>, link_B = \<lparr>ep_Node = ''b'', ep_Port = ''eth0''\<rparr>, link_MTU = 0\<rparr>],
     top_Views = []\<rparr>"

definition demo_options :: Options where
  "demo_options = \<lparr>opt_Provider = Some 0, opt_Containers = [], opt_Domains = None, opt_Dynamips = None, opt_Shitnet = False, opt_BasePort = 0\<rparr>"


lemma lab_supported: "validateSupport id H container_lab demo_options = None"
  by (simp add: validateSupport_def container_lab_def demo_options_def demo_node_def base_port_def supportSpec_def containerProvider_def bad_interface_def)

theorem link_ports_fit_witness:
  "localPort (base_port demo_options) 0 1 = 23001 \<and> remotePort (base_port demo_options) 0 1 = localPort (base_port demo_options) 0 0 \<and>
   length (hostIf ''01234567'' 1) = 14"
  using link_ports_fit [where fq = id and H = demo_host and options = demo_options and t = container_lab and i = 0 and a = 1 and l = "top_Links container_lab ! 0"
      and token = "''01234567''" and n = 0, OF lab_supported]
  by (simp add: sides_mem container_lab_def base_port_def demo_options_def localPort_def)






end
