(* ===== verification/Bridge_Transport.thy ===== *)
theory Bridge_Transport
  imports Bridge_Middleware
begin

text \<open>
  The transports of frames: packet sockets, pcap handles, TAP interfaces and UDP sockets
  (\<open>bridge/rawsocket.go\<close>, \<open>pcap.go\<close>, \<open>tap.go\<close>, \<open>udp.go\<close> and the constructors of \<open>transport.go\<close>). The calls
  of the operating system and of the pcap and TAP libraries are the functions of the record \<open>osnet\<close> over a
  state \<open>'s\<close>; a read gives the bytes that were written to the buffer. File descriptors, handles and
  connections are numbers, resolved addresses are strings. A method returns \<open>None\<close> when a debug
  assertion fails; frames are \<open>None\<close> when they are nil.
\<close>

section \<open>The operating system\<close>

record 's osnet =
  os_InterfaceByName :: "string \<Rightarrow> 's \<Rightarrow> (gerror + int) \<times> 's"
  os_Socket :: "16 word \<Rightarrow> 's \<Rightarrow> (gerror + nat) \<times> 's"
  os_Bind :: "nat \<Rightarrow> 16 word \<Rightarrow> int \<Rightarrow> 's \<Rightarrow> gerror option \<times> 's"
  os_Poll :: "int \<Rightarrow> int \<Rightarrow> 's \<Rightarrow> (gerror + nat) \<times> 's"
  os_Recvfrom :: "nat \<Rightarrow> nat \<Rightarrow> 's \<Rightarrow> (gerror + frame) \<times> 's"
  os_Sendto :: "nat \<Rightarrow> frame \<Rightarrow> 's \<Rightarrow> gerror option \<times> 's"
  os_Close :: "nat \<Rightarrow> 's \<Rightarrow> gerror option \<times> 's"
  pcap_NewInactiveHandle :: "string \<Rightarrow> 's \<Rightarrow> (gerror + nat) \<times> 's"
  pcap_SetImmediateMode :: "nat \<Rightarrow> bool \<Rightarrow> 's \<Rightarrow> gerror option \<times> 's"
  pcap_SetSnapLen :: "nat \<Rightarrow> int \<Rightarrow> 's \<Rightarrow> gerror option \<times> 's"
  pcap_SetPromisc :: "nat \<Rightarrow> bool \<Rightarrow> 's \<Rightarrow> gerror option \<times> 's"
  pcap_SetTimeout :: "nat \<Rightarrow> int \<Rightarrow> 's \<Rightarrow> gerror option \<times> 's"
  pcap_Activate :: "nat \<Rightarrow> 's \<Rightarrow> (gerror + nat) \<times> 's"
  pcap_CleanUp :: "nat \<Rightarrow> 's \<Rightarrow> 's"
  pcap_ReadPacketData :: "nat \<Rightarrow> 's \<Rightarrow> (gerror + frame) \<times> 's"
  pcap_WritePacketData :: "nat \<Rightarrow> frame \<Rightarrow> 's \<Rightarrow> gerror option \<times> 's"
  pcap_CloseHandle :: "nat \<Rightarrow> 's \<Rightarrow> 's"
  net_ResolveUDPAddr :: "string \<Rightarrow> 's \<Rightarrow> (gerror + string) \<times> 's"
  net_ListenUDP :: "string option \<Rightarrow> 's \<Rightarrow> (gerror + nat) \<times> 's"
  net_LocalAddr :: "nat \<Rightarrow> 's \<Rightarrow> string"
  net_SetReadDeadline :: "nat \<Rightarrow> int \<Rightarrow> 's \<Rightarrow> gerror option \<times> 's"
  net_ReadFromUDP :: "nat \<Rightarrow> nat \<Rightarrow> 's \<Rightarrow> (gerror + frame) \<times> 's"
  net_WriteToUDP :: "nat \<Rightarrow> frame \<Rightarrow> string \<Rightarrow> 's \<Rightarrow> gerror option \<times> 's"
  net_CloseUDP :: "nat \<Rightarrow> 's \<Rightarrow> gerror option \<times> 's"
  water_New :: "string \<Rightarrow> 's \<Rightarrow> (gerror + nat) \<times> 's"
  water_Read :: "nat \<Rightarrow> nat \<Rightarrow> 's \<Rightarrow> (gerror + frame) \<times> 's"
  water_Write :: "nat \<Rightarrow> frame \<Rightarrow> 's \<Rightarrow> gerror option \<times> 's"
  water_Close :: "nat \<Rightarrow> 's \<Rightarrow> gerror option \<times> 's"

text \<open>The interval of the polls of a reader, in nanoseconds; the size of its buffer.\<close>

definition readPollInterval :: int where
  "readPollInterval = 100 * 1000000"

definition maxInt32 :: int where
  "maxInt32 = 2 ^ 31 - 1"

abbreviation bufsize :: nat where
  "bufsize \<equiv> 65536"

definition ETH_P_ALL :: "16 word" where
  "ETH_P_ALL = 3"

section \<open>Ports\<close>

record PortOptions =
  po_ID :: string
  po_Interface :: string
  po_LocalAddr :: string
  po_Remote :: string
  po_MTU :: int
  po_ImmediateMode :: bool
  po_SnapLen :: int

record RawSocketPort =
  raw_id :: string
  raw_mtu :: int
  raw_fd :: nat
  raw_ifName :: string

record PcapPort =
  pcap_id :: string
  pcap_mtu :: int
  pcap_ifName :: string
  pcap_handle :: nat

record TAPPort =
  tap_id :: string
  tap_mtu :: int
  tap_iface :: nat

record UDPPort =
  udp_id :: string
  udp_mtu :: int
  udp_conn :: nat
  udp_remoteAddr :: string

datatype TransportPort = Raw RawSocketPort | Pcap PcapPort | TAP TAPPort | UDP UDPPort

section \<open>Constructors\<close>

definition NewRawSocketPort :: "'s osnet \<Rightarrow> PortOptions \<Rightarrow> 's \<Rightarrow> (gerror + TransportPort) \<times> 's" where
  "NewRawSocketPort K options s =
     (case os_InterfaceByName K (po_Interface options) s of
        (Inl err, s) \<Rightarrow> (Inl err, s)
      | (Inr index, s) \<Rightarrow>
          let proto = htons ETH_P_ALL in
          (case os_Socket K proto s of
             (Inl err, s) \<Rightarrow> (Inl err, s)
           | (Inr fd, s) \<Rightarrow>
               (case os_Bind K fd proto index s of
                  (Some err, s) \<Rightarrow> (Inl err, snd (os_Close K fd s))
                | (None, s) \<Rightarrow>
                    let i = (if po_ID options = '''' then po_Interface options else po_ID options) in
                    (Inr (Raw \<lparr>raw_id = i, raw_mtu = po_MTU options, raw_fd = fd, raw_ifName = po_Interface options\<rparr>), s))))"

text \<open>The configuration of an inactive pcap handle up to its activation.\<close>

definition configurePcap :: "'s osnet \<Rightarrow> PortOptions \<Rightarrow> nat \<Rightarrow> 's \<Rightarrow> (gerror + nat) \<times> 's" where
  "configurePcap K options inactive s =
     (case pcap_SetImmediateMode K inactive (po_ImmediateMode options) s of
        (Some errMode, s) \<Rightarrow> (Inl (bridge_Wrap ''configure pcap immediate mode'' ErrPortSetup (po_Interface options) (Some errMode)), s)
      | (None, s) \<Rightarrow>
     (case pcap_SetSnapLen K inactive (po_SnapLen options) s of
        (Some errSnap, s) \<Rightarrow> (Inl (bridge_Wrap ''configure pcap snaplen'' ErrPortSetup (po_Interface options) (Some errSnap)), s)
      | (None, s) \<Rightarrow>
     (case pcap_SetPromisc K inactive True s of
        (Some errPromisc, s) \<Rightarrow> (Inl (bridge_Wrap ''configure pcap promiscuous mode'' ErrPortSetup (po_Interface options) (Some errPromisc)), s)
      | (None, s) \<Rightarrow>
     (case pcap_SetTimeout K inactive 1000000 s of
        (Some errTimeout, s) \<Rightarrow> (Inl (bridge_Wrap ''configure pcap timeout'' ErrPortSetup (po_Interface options) (Some errTimeout)), s)
      | (None, s) \<Rightarrow>
     (case pcap_Activate K inactive s of
        (Inl errActivate, s) \<Rightarrow> (Inl (bridge_Wrap ''activate pcap'' ErrPortSetup (po_Interface options) (Some errActivate)), s)
      | (Inr handle, s) \<Rightarrow> (Inr handle, s))))))"

definition NewPcapPort :: "'s osnet \<Rightarrow> PortOptions \<Rightarrow> 's \<Rightarrow> (gerror + TransportPort) \<times> 's" where
  "NewPcapPort K options s =
     (case pcap_NewInactiveHandle K (po_Interface options) s of
        (Inl errInactive, s) \<Rightarrow> (Inl (bridge_Wrap ''create pcap port'' ErrPortSetup (po_Interface options) (Some errInactive)), s)
      | (Inr inactive, s) \<Rightarrow>
          (case configurePcap K options inactive s of
             (Inl err, s) \<Rightarrow> (Inl err, pcap_CleanUp K inactive s)
           | (Inr handle, s) \<Rightarrow>
               let i = (if po_ID options = '''' then po_Interface options else po_ID options) in
               (Inr (Pcap \<lparr>pcap_id = i, pcap_mtu = po_MTU options, pcap_ifName = po_Interface options, pcap_handle = handle\<rparr>), pcap_CleanUp K inactive s)))"

definition NewTAPPort :: "'s osnet \<Rightarrow> PortOptions \<Rightarrow> 's \<Rightarrow> (gerror + TransportPort) \<times> 's" where
  "NewTAPPort K options s =
     (if po_Interface options = '''' then (Inl (bridge_New ''open tap'' bridge_kind.ErrInvalidOptions ''interface name is required''), s)
      else case water_New K (po_Interface options) s of
        (Inl err, s) \<Rightarrow> (Inl (bridge_Wrap ''open tap'' ErrPortSetup (po_Interface options) (Some err)), s)
      | (Inr iface, s) \<Rightarrow>
          let i = (if po_ID options = '''' then po_Interface options else po_ID options) in
          (Inr (TAP \<lparr>tap_id = i, tap_mtu = po_MTU options, tap_iface = iface\<rparr>), s))"

text \<open>The local address of a UDP port, when one is configured.\<close>

definition resolveLocal :: "'s osnet \<Rightarrow> PortOptions \<Rightarrow> 's \<Rightarrow> (gerror + string option) \<times> 's" where
  "resolveLocal K options s =
     (if po_LocalAddr options = '''' then (Inr None, s)
      else case net_ResolveUDPAddr K (po_LocalAddr options) s of
        (Inl err, s) \<Rightarrow> (Inl err, s)
      | (Inr local, s) \<Rightarrow> (Inr (Some local), s))"

definition NewUDPPort :: "'s osnet \<Rightarrow> PortOptions \<Rightarrow> 's \<Rightarrow> (gerror + TransportPort) \<times> 's" where
  "NewUDPPort K options s =
     (case net_ResolveUDPAddr K (po_Remote options) s of
        (Inl err, s) \<Rightarrow> (Inl err, s)
      | (Inr addr, s) \<Rightarrow>
          (case resolveLocal K options s of
             (Inl err, s) \<Rightarrow> (Inl err, s)
           | (Inr local, s) \<Rightarrow>
               (case net_ListenUDP K local s of
                  (Inl err, s) \<Rightarrow> (Inl err, s)
                | (Inr conn, s) \<Rightarrow>
                    let i = (if po_ID options = '''' then net_LocalAddr K conn s else po_ID options) in
                    (Inr (UDP \<lparr>udp_id = i, udp_mtu = po_MTU options, udp_conn = conn, udp_remoteAddr = addr\<rparr>), s))))"

text \<open>The factories that \<open>init\<close> registers, and \<open>NewPort\<close> on factories that take the state.\<close>

definition builtin :: "'s osnet \<Rightarrow> string \<Rightarrow> PortOptions \<Rightarrow> 's \<Rightarrow> (gerror + TransportPort) \<times> 's" where
  "builtin K scheme =
     (if scheme = ''raw'' then NewRawSocketPort K else if scheme = ''pcap'' then NewPcapPort K
      else if scheme = ''tap'' then NewTAPPort K else NewUDPPort K)"

definition openPort :: "'s osnet \<Rightarrow> string \<Rightarrow> PortOptions \<Rightarrow> 's \<Rightarrow> (gerror + TransportPort) \<times> 's" where
  "openPort K scheme options s =
     (case Registry_Get (init_registry (builtin K)) scheme of
        None \<Rightarrow> (Inl (bridge_New ''create port'' ErrUnknownScheme scheme), s)
      | Some factory \<Rightarrow> factory options s)"

section \<open>Packet sockets\<close>

text \<open>The assertions of \<open>assertValid\<close>; a descriptor is not negative and a handle not nil in this model.\<close>

definition raw_assertValid :: "bool \<Rightarrow> RawSocketPort \<Rightarrow> unit option" where
  "raw_assertValid en r = do {
     That en (raw_id r \<noteq> '''');
     That en (raw_mtu r > 0);
     That en (raw_ifName r \<noteq> '''')
   }"

definition raw_ID :: "bool \<Rightarrow> RawSocketPort \<Rightarrow> string option" where
  "raw_ID en r = do { raw_assertValid en r; Some (raw_id r) }"

definition raw_MTU :: "bool \<Rightarrow> RawSocketPort \<Rightarrow> int option" where
  "raw_MTU en r = do { raw_assertValid en r; Some (raw_mtu r) }"

definition raw_ReadFrame :: "bool \<Rightarrow> 's osnet \<Rightarrow> RawSocketPort \<Rightarrow> 's \<Rightarrow> ((gerror + frame) \<times> 's) option" where
  "raw_ReadFrame en K r s = do {
     raw_assertValid en r;
     Some (if int (raw_fd r) > maxInt32 then (Inl (Sentinel (OS EINVAL)), s)
       else case os_Poll K (int (raw_fd r)) (readPollInterval div 1000000) s of
         (Inl err, s) \<Rightarrow> (Inl err, s)
       | (Inr ready, s) \<Rightarrow>
           if ready = 0 then (Inl (Sentinel (BridgeKind ErrReadTimeout)), s) else os_Recvfrom K (raw_fd r) bufsize s)
   }"

text \<open>Sending a nil frame sends no bytes where no assertion stops it.\<close>

abbreviation frame_bytes :: "frame option \<Rightarrow> frame" where
  "frame_bytes fr \<equiv> (case fr of None \<Rightarrow> [] | Some fr \<Rightarrow> fr)"

definition raw_WriteFrame :: "bool \<Rightarrow> 's osnet \<Rightarrow> RawSocketPort \<Rightarrow> frame option \<Rightarrow> 's \<Rightarrow> (gerror option \<times> 's) option" where
  "raw_WriteFrame en K r fr s = do {
     raw_assertValid en r;
     That en (fr \<noteq> None);
     Some (os_Sendto K (raw_fd r) (frame_bytes fr) s)
   }"

definition raw_Close :: "bool \<Rightarrow> 's osnet \<Rightarrow> RawSocketPort \<Rightarrow> 's \<Rightarrow> (gerror option \<times> 's) option" where
  "raw_Close en K r s = do { raw_assertValid en r; Some (os_Close K (raw_fd r) s) }"

section \<open>Pcap handles\<close>

definition pcap_assertValid :: "bool \<Rightarrow> PcapPort \<Rightarrow> unit option" where
  "pcap_assertValid en p = do {
     That en (pcap_id p \<noteq> '''');
     That en (pcap_mtu p > 0);
     That en (pcap_ifName p \<noteq> '''')
   }"

definition pcap_ID :: "bool \<Rightarrow> PcapPort \<Rightarrow> string option" where
  "pcap_ID en p = do { pcap_assertValid en p; Some (pcap_id p) }"

definition pcap_MTU :: "bool \<Rightarrow> PcapPort \<Rightarrow> int option" where
  "pcap_MTU en p = do { pcap_assertValid en p; Some (pcap_mtu p) }"

definition pcap_ReadFrame :: "bool \<Rightarrow> 's osnet \<Rightarrow> PcapPort \<Rightarrow> 's \<Rightarrow> ((gerror + frame) \<times> 's) option" where
  "pcap_ReadFrame en K p s = do { pcap_assertValid en p; Some (pcap_ReadPacketData K (pcap_handle p) s) }"

definition pcap_WriteFrame :: "bool \<Rightarrow> 's osnet \<Rightarrow> PcapPort \<Rightarrow> frame option \<Rightarrow> 's \<Rightarrow> (gerror option \<times> 's) option" where
  "pcap_WriteFrame en K p fr s = do {
     pcap_assertValid en p;
     That en (fr \<noteq> None);
     Some (pcap_WritePacketData K (pcap_handle p) (frame_bytes fr) s)
   }"

definition pcap_Close :: "bool \<Rightarrow> 's osnet \<Rightarrow> PcapPort \<Rightarrow> 's \<Rightarrow> (gerror option \<times> 's) option" where
  "pcap_Close en K p s = do { pcap_assertValid en p; Some (None, pcap_CloseHandle K (pcap_handle p) s) }"

section \<open>TAP interfaces\<close>

definition tap_assertValid :: "bool \<Rightarrow> TAPPort \<Rightarrow> unit option" where
  "tap_assertValid en t = do { That en (tap_id t \<noteq> ''''); That en (tap_mtu t > 0) }"

definition tap_ID :: "bool \<Rightarrow> TAPPort \<Rightarrow> string option" where
  "tap_ID en t = do { tap_assertValid en t; Some (tap_id t) }"

definition tap_MTU :: "bool \<Rightarrow> TAPPort \<Rightarrow> int option" where
  "tap_MTU en t = do { tap_assertValid en t; Some (tap_mtu t) }"

definition tap_ReadFrame :: "bool \<Rightarrow> 's osnet \<Rightarrow> TAPPort \<Rightarrow> 's \<Rightarrow> ((gerror + frame) \<times> 's) option" where
  "tap_ReadFrame en K t s = do { tap_assertValid en t; Some (water_Read K (tap_iface t) bufsize s) }"

definition tap_WriteFrame :: "bool \<Rightarrow> 's osnet \<Rightarrow> TAPPort \<Rightarrow> frame option \<Rightarrow> 's \<Rightarrow> (gerror option \<times> 's) option" where
  "tap_WriteFrame en K t fr s = do {
     tap_assertValid en t;
     That en (fr \<noteq> None);
     Some (water_Write K (tap_iface t) (frame_bytes fr) s)
   }"

definition tap_Close :: "bool \<Rightarrow> 's osnet \<Rightarrow> TAPPort \<Rightarrow> 's \<Rightarrow> (gerror option \<times> 's) option" where
  "tap_Close en K t s = do { tap_assertValid en t; Some (water_Close K (tap_iface t) s) }"

section \<open>UDP sockets\<close>

definition udp_assertValid :: "bool \<Rightarrow> UDPPort \<Rightarrow> unit option" where
  "udp_assertValid en u = do { That en (udp_id u \<noteq> ''''); That en (udp_mtu u > 0) }"

definition udp_ID :: "bool \<Rightarrow> UDPPort \<Rightarrow> string option" where
  "udp_ID en u = do { udp_assertValid en u; Some (udp_id u) }"

definition udp_MTU :: "bool \<Rightarrow> UDPPort \<Rightarrow> int option" where
  "udp_MTU en u = do { udp_assertValid en u; Some (udp_mtu u) }"

definition udp_ReadFrame :: "bool \<Rightarrow> 's osnet \<Rightarrow> UDPPort \<Rightarrow> 's \<Rightarrow> ((gerror + frame) \<times> 's) option" where
  "udp_ReadFrame en K u s = do {
     udp_assertValid en u;
     Some (case net_SetReadDeadline K (udp_conn u) readPollInterval s of
         (Some err, s) \<Rightarrow> (Inl err, s)
       | (None, s) \<Rightarrow> net_ReadFromUDP K (udp_conn u) bufsize s)
   }"

definition udp_WriteFrame :: "bool \<Rightarrow> 's osnet \<Rightarrow> UDPPort \<Rightarrow> frame option \<Rightarrow> 's \<Rightarrow> (gerror option \<times> 's) option" where
  "udp_WriteFrame en K u fr s = do {
     udp_assertValid en u;
     That en (fr \<noteq> None);
     Some (net_WriteToUDP K (udp_conn u) (frame_bytes fr) (udp_remoteAddr u) s)
   }"

definition udp_Close :: "bool \<Rightarrow> 's osnet \<Rightarrow> UDPPort \<Rightarrow> 's \<Rightarrow> (gerror option \<times> 's) option" where
  "udp_Close en K u s = do { udp_assertValid en u; Some (net_CloseUDP K (udp_conn u) s) }"

section \<open>The interface of all transports\<close>

fun tp_ID :: "bool \<Rightarrow> TransportPort \<Rightarrow> string option" where
  "tp_ID en (Raw r) = raw_ID en r"
| "tp_ID en (Pcap p) = pcap_ID en p"
| "tp_ID en (TAP t) = tap_ID en t"
| "tp_ID en (UDP u) = udp_ID en u"

fun tp_MTU :: "bool \<Rightarrow> TransportPort \<Rightarrow> int option" where
  "tp_MTU en (Raw r) = raw_MTU en r"
| "tp_MTU en (Pcap p) = pcap_MTU en p"
| "tp_MTU en (TAP t) = tap_MTU en t"
| "tp_MTU en (UDP u) = udp_MTU en u"

fun tp_ReadFrame :: "bool \<Rightarrow> 's osnet \<Rightarrow> TransportPort \<Rightarrow> 's \<Rightarrow> ((gerror + frame) \<times> 's) option" where
  "tp_ReadFrame en K (Raw r) = raw_ReadFrame en K r"
| "tp_ReadFrame en K (Pcap p) = pcap_ReadFrame en K p"
| "tp_ReadFrame en K (TAP t) = tap_ReadFrame en K t"
| "tp_ReadFrame en K (UDP u) = udp_ReadFrame en K u"

fun tp_WriteFrame :: "bool \<Rightarrow> 's osnet \<Rightarrow> TransportPort \<Rightarrow> frame option \<Rightarrow> 's \<Rightarrow> (gerror option \<times> 's) option" where
  "tp_WriteFrame en K (Raw r) = raw_WriteFrame en K r"
| "tp_WriteFrame en K (Pcap p) = pcap_WriteFrame en K p"
| "tp_WriteFrame en K (TAP t) = tap_WriteFrame en K t"
| "tp_WriteFrame en K (UDP u) = udp_WriteFrame en K u"

fun tp_Close :: "bool \<Rightarrow> 's osnet \<Rightarrow> TransportPort \<Rightarrow> 's \<Rightarrow> (gerror option \<times> 's) option" where
  "tp_Close en K (Raw r) = raw_Close en K r"
| "tp_Close en K (Pcap p) = pcap_Close en K p"
| "tp_Close en K (TAP t) = tap_Close en K t"
| "tp_Close en K (UDP u) = udp_Close en K u"

text \<open>What the assertions check, and the two fields every port has.\<close>

fun port_valid :: "TransportPort \<Rightarrow> bool" where
  "port_valid (Raw p) \<longleftrightarrow> raw_id p \<noteq> '''' \<and> raw_mtu p > 0 \<and> raw_ifName p \<noteq> ''''"
| "port_valid (Pcap p) \<longleftrightarrow> pcap_id p \<noteq> '''' \<and> pcap_mtu p > 0 \<and> pcap_ifName p \<noteq> ''''"
| "port_valid (TAP p) \<longleftrightarrow> tap_id p \<noteq> '''' \<and> tap_mtu p > 0"
| "port_valid (UDP p) \<longleftrightarrow> udp_id p \<noteq> '''' \<and> udp_mtu p > 0"

fun port_id :: "TransportPort \<Rightarrow> string" where
  "port_id (Raw p) = raw_id p"
| "port_id (Pcap p) = pcap_id p"
| "port_id (TAP p) = tap_id p"
| "port_id (UDP p) = udp_id p"

fun port_mtu :: "TransportPort \<Rightarrow> int" where
  "port_mtu (Raw p) = raw_mtu p"
| "port_mtu (Pcap p) = pcap_mtu p"
| "port_mtu (TAP p) = tap_mtu p"
| "port_mtu (UDP p) = udp_mtu p"

lemmas assertValid_defs = raw_assertValid_def pcap_assertValid_def tap_assertValid_def udp_assertValid_def
lemmas read_defs = raw_ReadFrame_def pcap_ReadFrame_def tap_ReadFrame_def udp_ReadFrame_def
lemmas write_defs = raw_WriteFrame_def pcap_WriteFrame_def tap_WriteFrame_def udp_WriteFrame_def
lemmas close_defs = raw_Close_def pcap_Close_def tap_Close_def udp_Close_def
lemmas id_mtu_defs = raw_ID_def pcap_ID_def tap_ID_def udp_ID_def raw_MTU_def pcap_MTU_def tap_MTU_def udp_MTU_def

end
