(* ===== verification/Container_Bridge.thy ===== *)
theory Container_Bridge
  imports Bridge_Transport
begin

text \<open>
  Interfaces in the network namespaces of processes and the bridges of containers (\<open>bridge/link.go\<close>,
  \<open>bridge/container_bridge.go\<close>). The calls of the netlink and netns libraries and of the Go scheduler that
  pin a goroutine to its thread are the functions of the record \<open>netops\<close> over a state \<open>'s\<close>, next to those
  of the operating system below the transports; links and namespace handles are numbers. The transports are
  those of \<open>Bridge_Transport\<close>, their wrapping that of \<open>Bridge_Middleware\<close>, the switch that of \<open>Bridge_Switch\<close>;
  \<open>None\<close> is a failed assertion. Messages printed on the way are left out, and so is the default MTU that
  starting writes back to the options of its caller.
\<close>

section \<open>The host network\<close>

record 's netops =
  no_LinkAdd :: "string \<Rightarrow> string \<Rightarrow> int \<Rightarrow> 's \<Rightarrow> gerror option \<times> 's"
  no_LinkByName :: "string \<Rightarrow> 's \<Rightarrow> (gerror + nat) \<times> 's"
  no_LinkSetName :: "nat \<Rightarrow> string \<Rightarrow> 's \<Rightarrow> gerror option \<times> 's"
  no_LinkSetMTU :: "nat \<Rightarrow> int \<Rightarrow> 's \<Rightarrow> gerror option \<times> 's"
  no_LinkSetUp :: "nat \<Rightarrow> 's \<Rightarrow> gerror option \<times> 's"
  no_LinkSetNsFd :: "nat \<Rightarrow> nat \<Rightarrow> 's \<Rightarrow> gerror option \<times> 's"
  no_LinkDel :: "nat \<Rightarrow> 's \<Rightarrow> gerror option \<times> 's"
  no_NsGet :: "'s \<Rightarrow> (gerror + nat) \<times> 's"
  no_NsFromPid :: "int \<Rightarrow> 's \<Rightarrow> (gerror + nat) \<times> 's"
  no_NsSet :: "nat \<Rightarrow> 's \<Rightarrow> gerror option \<times> 's"
  no_NsClose :: "nat \<Rightarrow> 's \<Rightarrow> gerror option \<times> 's"
  no_LockOSThread :: "'s \<Rightarrow> 's"
  no_UnlockOSThread :: "'s \<Rightarrow> 's"
  no_os :: "'s osnet"

section \<open>Interfaces in namespaces\<close>

type_synonym NamespaceInterfaceMode = string

record NamespaceInterfaceOptions =
  ni_Mode :: NamespaceInterfaceMode
  ni_PID :: int
  ni_HostSideName :: string
  ni_ContainerSideName :: string
  ni_MTU :: int

record SetupLinkParams =
  sl_SourcePID :: int
  sl_HostName :: string
  sl_Container :: string
  sl_MTU :: int

definition peerInterfaceName :: "string \<Rightarrow> string" where
  "peerInterfaceName hostSideName = (let name = ''p'' @ hostSideName in if length name \<le> 15 then name else take 15 name)"

text \<open>After the veth pair exists: its peer is configured and moved into the namespace, and the end that
  stays is brought up.\<close>

definition moveAndBringUp :: "'s netops \<Rightarrow> SetupLinkParams \<Rightarrow> nat \<Rightarrow> nat \<Rightarrow> 's \<Rightarrow> gerror option \<times> 's" where
  "moveAndBringUp N params peerLink targetNs s =
     (case no_LinkSetNsFd N peerLink targetNs s of
        (Some setLintErr, s) \<Rightarrow> (Some (bridge_Wrap ''move interface to namespace'' ErrNamespaceFailed (sl_Container params) (Some setLintErr)), s)
      | (None, s) \<Rightarrow>
          (case no_LinkByName N (sl_HostName params) s of
             (Inl _, s) \<Rightarrow> (None, s)
           | (Inr hostLink, s) \<Rightarrow>
               (case no_LinkSetUp N hostLink s of
                  (Some setLinkUpErr, s) \<Rightarrow> (Some (bridge_Wrap ''bring interface up'' ErrFailedToSetMTU (sl_HostName params) (Some setLinkUpErr)), s)
                | (None, s) \<Rightarrow> (None, s))))"

definition movePeer :: "'s netops \<Rightarrow> SetupLinkParams \<Rightarrow> 's \<Rightarrow> gerror option \<times> 's" where
  "movePeer N params s =
     (case no_LinkByName N (sl_Container params) s of
        (Inl err, s) \<Rightarrow> (Some (bridge_Wrap ''find peer interface'' ErrFailedToFindPeer (sl_Container params) (Some err)), s)
      | (Inr peerLink, s) \<Rightarrow>
          (case no_LinkSetMTU N peerLink (sl_MTU params) s of
             (Some setMtuErr, s) \<Rightarrow> (Some (bridge_Wrap ''set interface MTU'' ErrFailedToSetMTU (sl_Container params) (Some setMtuErr)), s)
           | (None, s) \<Rightarrow>
               (case no_NsFromPid N (sl_SourcePID params) s of
                  (Inl err, s) \<Rightarrow> (Some (bridge_Wrap ''get process namespace'' ErrNamespaceFailed (show_int (sl_SourcePID params)) (Some err)), s)
                | (Inr targetNs, s) \<Rightarrow>
                    (case moveAndBringUp N params peerLink targetNs s of (result, s) \<Rightarrow> (result, snd (no_NsClose N targetNs s))))))"

definition SetupLinkWithNames :: "'s netops \<Rightarrow> SetupLinkParams \<Rightarrow> 's \<Rightarrow> gerror option \<times> 's" where
  "SetupLinkWithNames N params s =
     (case (case no_LinkAdd N (sl_HostName params) (sl_Container params) (sl_MTU params) (no_LockOSThread N s) of
              (Some err, s) \<Rightarrow> (Some (bridge_Wrap ''create veth pair'' ErrFailedToCreate (sl_HostName params @ '' <-> '' @ sl_Container params) (Some err)), s)
            | (None, s) \<Rightarrow> movePeer N params s) of
        (result, s) \<Rightarrow> (result, no_UnlockOSThread N s))"

text \<open>The restoration that \<open>EnterNamespace\<close> returns is given by the two handles.\<close>

definition EnterNamespace :: "'s netops \<Rightarrow> int \<Rightarrow> 's \<Rightarrow> (gerror + (nat \<times> nat)) \<times> 's" where
  "EnterNamespace N pid s =
     (case no_NsGet N (no_LockOSThread N s) of
        (Inl err, s) \<Rightarrow> (Inl err, no_UnlockOSThread N s)
      | (Inr hostNS, s) \<Rightarrow>
          (case no_NsFromPid N pid s of
             (Inl err, s) \<Rightarrow> (Inl err, no_UnlockOSThread N (snd (no_NsClose N hostNS s)))
           | (Inr targetNS, s) \<Rightarrow>
               (case no_NsSet N targetNS s of
                  (Some err, s) \<Rightarrow> (Inl err, no_UnlockOSThread N (snd (no_NsClose N hostNS (snd (no_NsClose N targetNS s)))))
                | (None, s) \<Rightarrow> (Inr (hostNS, targetNS), s))))"

definition leaveNamespace :: "'s netops \<Rightarrow> nat \<times> nat \<Rightarrow> 's \<Rightarrow> 's" where
  "leaveNamespace N h s =
     (let (hostNS, targetNS) = h;
          s = snd (no_NsSet N hostNS s);
          s = snd (no_NsClose N targetNS s);
          s = snd (no_NsClose N hostNS s) in
      no_UnlockOSThread N s)"

text \<open>Inside the namespace: the peer gets its name, its MTU and is brought up.\<close>

definition nameInside :: "'s netops \<Rightarrow> string \<Rightarrow> string \<Rightarrow> int \<Rightarrow> 's \<Rightarrow> gerror option \<times> 's" where
  "nameInside N peerName containerSideName mtu s =
     (case no_LinkByName N peerName s of
        (Inl err, s) \<Rightarrow> (Some (Sentinel (BridgeKind ErrLinkNotFound)), s)
      | (Inr link, s) \<Rightarrow>
          (case no_LinkSetName N link containerSideName s of
             (Some renameErr, s) \<Rightarrow> (Some (bridge_Wrap ''rename namespace interface'' ErrFailedToCreate (peerName @ '' -> '' @ containerSideName) (Some renameErr)), s)
           | (None, s) \<Rightarrow>
               (case no_LinkByName N containerSideName s of
                  (Inl err, s) \<Rightarrow> (Some (Sentinel (BridgeKind ErrLinkNotFound)), s)
                | (Inr link, s) \<Rightarrow>
                    (case no_LinkSetMTU N link mtu s of
                       (Some setMtuErr, s) \<Rightarrow> (Some (bridge_Wrap ''set interface MTU'' ErrFailedToSetMTU containerSideName (Some setMtuErr)), s)
                     | (None, s) \<Rightarrow> no_LinkSetUp N link s))))"

definition AttachVethToNamespace :: "'s netops \<Rightarrow> int \<Rightarrow> string \<Rightarrow> string \<Rightarrow> int \<Rightarrow> 's \<Rightarrow> gerror option \<times> 's" where
  "AttachVethToNamespace N pid hostSideName containerSideName mtu s =
     (let peerName = peerInterfaceName hostSideName in
      case SetupLinkWithNames N \<lparr>sl_SourcePID = pid, sl_HostName = hostSideName, sl_Container = peerName, sl_MTU = mtu\<rparr> s of
        (Some err, s) \<Rightarrow> (Some err, s)
      | (None, s) \<Rightarrow>
          (case EnterNamespace N pid s of
             (Inl err, s) \<Rightarrow> (Some err, s)
           | (Inr handles, s) \<Rightarrow> (case nameInside N peerName containerSideName mtu s of (result, s) \<Rightarrow> (result, leaveNamespace N handles s))))"

definition PrepareExistingInterface :: "'s netops \<Rightarrow> string \<Rightarrow> int \<Rightarrow> 's \<Rightarrow> gerror option \<times> 's" where
  "PrepareExistingInterface N hostSideName mtu s =
     (case no_LinkByName N hostSideName s of
        (Inl err, s) \<Rightarrow> (Some (bridge_Wrap ''find existing interface'' ErrLinkNotFound hostSideName (Some err)), s)
      | (Inr link, s) \<Rightarrow>
          (case (if mtu > 0 then no_LinkSetMTU N link mtu s else (None, s)) of
             (Some err, s) \<Rightarrow> (Some (bridge_Wrap ''set interface MTU'' ErrFailedToSetMTU hostSideName (Some err)), s)
           | (None, s) \<Rightarrow>
               (case no_LinkSetUp N link s of
                  (Some err, s) \<Rightarrow> (Some (bridge_Wrap ''bring interface up'' ErrFailedToSetMTU hostSideName (Some err)), s)
                | (None, s) \<Rightarrow> (None, s))))"

definition AttachNamespaceInterface :: "'s netops \<Rightarrow> NamespaceInterfaceOptions \<Rightarrow> 's \<Rightarrow> gerror option \<times> 's" where
  "AttachNamespaceInterface N options s =
     (if ni_Mode options = '''' \<or> ni_Mode options = ''create-veth''
      then AttachVethToNamespace N (ni_PID options) (ni_HostSideName options) (ni_ContainerSideName options) (ni_MTU options) s
      else if ni_Mode options = ''existing'' then PrepareExistingInterface N (ni_HostSideName options) (ni_MTU options) s
      else (Some (bridge_New ''attach namespace interface'' bridge_kind.ErrUnsupportedMode (ni_Mode options)), s))"

definition CleanupLink :: "'s netops \<Rightarrow> string \<Rightarrow> 's \<Rightarrow> 's" where
  "CleanupLink N hostName s =
     (case no_LinkByName N hostName s of
        (Inl _, s) \<Rightarrow> s
      | (Inr link, s) \<Rightarrow> snd (no_LinkDel N link s))"

section \<open>Bridges of containers\<close>

record ContainerBridgeOptions =
  cbo_PID :: int
  cbo_HostIf :: string
  cbo_ContainerIf :: string
  cbo_Listen :: string
  cbo_Remote :: string
  cbo_MTU :: int
  cbo_UsePcap :: bool
  cbo_Immediate :: bool
  cbo_LocalMiddleware :: "PortMiddleware option list"
  cbo_RemoteMiddleware :: "PortMiddleware option list"

text \<open>A transport with the middleware around it. Closing it closes the transport, after the assertions of
  every layer.\<close>

record BridgePort =
  bp_wrapped :: mport
  bp_base :: TransportPort

definition wrapped :: "bool \<Rightarrow> TransportPort \<Rightarrow> PortMiddleware option list \<Rightarrow> BridgePort option" where
  "wrapped en p middleware = do {
     That en (port_valid p);
     m \<leftarrow> WrapPort en (BasePort (port_id p) (port_mtu p)) middleware;
     Some \<lparr>bp_wrapped = m, bp_base = p\<rparr>
   }"

primrec assertChain :: "bool \<Rightarrow> mport \<Rightarrow> unit option" where
  "assertChain en (BasePort i m) = Some ()"
| "assertChain en (middlewarePort b rh wh) = do { assertValid en (middlewarePort b rh wh); assertChain en b }"
| "assertChain en (packetLossPort b p) = do { assertValid en (packetLossPort b p); assertChain en b }"

definition closePort :: "bool \<Rightarrow> 's netops \<Rightarrow> BridgePort \<Rightarrow> 's \<Rightarrow> 's option" where
  "closePort en N b s = do {
     assertChain en (bp_wrapped b);
     (_, s) \<leftarrow> tp_Close en (no_os N) (bp_base b) s;
     Some s
   }"

text \<open>A port as the switch sees it.\<close>

definition asPort :: "bool \<Rightarrow> BridgePort \<Rightarrow> port option" where
  "asPort en b = do {
     i \<leftarrow> ID en (bp_wrapped b);
     m \<leftarrow> MTU en (bp_wrapped b);
     Some \<lparr>port_ID = i, port_MTU = m\<rparr>
   }"

text \<open>A bridge keeps its two ports, which its switch refers to by their identifiers and closes.\<close>

record ContainerBridge =
  cb_switcher :: Switch
  cb_hostIf :: string
  cb_local :: BridgePort
  cb_remote :: BridgePort

definition portOf :: "BridgePort \<Rightarrow> BridgePort \<Rightarrow> string \<Rightarrow> BridgePort" where
  "portOf local remote i = (if i = base_id (bp_wrapped local) then local else remote)"

text \<open>Closing the ports that a switch reports as closed.\<close>

fun closeObserved :: "bool \<Rightarrow> 's netops \<Rightarrow> (string \<Rightarrow> BridgePort) \<Rightarrow> obs list \<Rightarrow> 's \<Rightarrow> 's option" where
  "closeObserved en N h [] s = Some s"
| "closeObserved en N h (ob # obs) s = do {
     s \<leftarrow> (case ob of ClosedPort i \<Rightarrow> closePort en N (h i) s | _ \<Rightarrow> Some s);
     closeObserved en N h obs s
   }"

definition bridge_ok :: "ContainerBridgeOptions \<Rightarrow> bool" where
  "bridge_ok options \<longleftrightarrow> cbo_PID options > 0 \<and> cbo_HostIf options \<noteq> '''' \<and> cbo_ContainerIf options \<noteq> '''' \<and> cbo_Listen options \<noteq> '''' \<and> cbo_Remote options \<noteq> ''''"

text \<open>From the two ports on: the switch that connects them. Starting a switch has no error to return.\<close>

definition bridgeSwitch :: "bool \<Rightarrow> 's netops \<Rightarrow> string \<Rightarrow> BridgePort \<Rightarrow> BridgePort \<Rightarrow> 's \<Rightarrow> ((gerror + ContainerBridge) \<times> 's) option" where
  "bridgeSwitch en N hostIf local remote s = do {
     lp \<leftarrow> asPort en local;
     (e, sw, _) \<leftarrow> AttachPort en lp (NewSwitch \<lparr>DisableUnknownUnicastFlood = False\<rparr>);
     case e of
       Some err \<Rightarrow> do {
         s \<leftarrow> closePort en N local s;
         s \<leftarrow> closePort en N remote s;
         Some (Inl err, CleanupLink N hostIf s)
       }
     | None \<Rightarrow> do {
         rp \<leftarrow> asPort en remote;
         (e, sw, _) \<leftarrow> AttachPort en rp sw;
         case e of
           Some err \<Rightarrow> do {
             (_, obs) \<leftarrow> Stop en sw;
             s \<leftarrow> closeObserved en N (portOf local remote) obs s;
             Some (Inl err, CleanupLink N hostIf s)
           }
         | None \<Rightarrow> do {
             (sw, _) \<leftarrow> Start en sw;
             Some (Inr \<lparr>cb_switcher = sw, cb_hostIf = hostIf, cb_local = local, cb_remote = remote\<rparr>, s)
           }
       }
   }"

definition localOptions :: "ContainerBridgeOptions \<Rightarrow> PortOptions" where
  "localOptions options =
     \<lparr>po_ID = ''container'', po_Interface = cbo_HostIf options, po_LocalAddr = '''', po_Remote = '''', po_MTU = cbo_MTU options,
      po_ImmediateMode = cbo_Immediate options, po_SnapLen = cbo_MTU options + 32\<rparr>"

definition remoteOptions :: "ContainerBridgeOptions \<Rightarrow> PortOptions" where
  "remoteOptions options =
     \<lparr>po_ID = ''remote'', po_Interface = '''', po_LocalAddr = cbo_Listen options, po_Remote = cbo_Remote options, po_MTU = cbo_MTU options,
      po_ImmediateMode = False, po_SnapLen = 0\<rparr>"

definition bridgePorts :: "bool \<Rightarrow> 's netops \<Rightarrow> ContainerBridgeOptions \<Rightarrow> 's \<Rightarrow> ((gerror + ContainerBridge) \<times> 's) option" where
  "bridgePorts en N options s =
     (case openPort (no_os N) (if cbo_UsePcap options then ''pcap'' else ''raw'') (localOptions options) s of
        (Inl err, s) \<Rightarrow> Some (Inl err, CleanupLink N (cbo_HostIf options) s)
      | (Inr local, s) \<Rightarrow> do {
          local \<leftarrow> wrapped en local (cbo_LocalMiddleware options);
          case openPort (no_os N) ''udp'' (remoteOptions options) s of
            (Inl err, s) \<Rightarrow> do {
              s \<leftarrow> closePort en N local s;
              Some (Inl err, CleanupLink N (cbo_HostIf options) s)
            }
          | (Inr remote, s) \<Rightarrow> do {
              remote \<leftarrow> wrapped en remote (cbo_RemoteMiddleware options);
              bridgeSwitch en N (cbo_HostIf options) local remote s
            }
        })"

definition StartContainerBridge :: "bool \<Rightarrow> 's netops \<Rightarrow> ContainerBridgeOptions option \<Rightarrow> 's \<Rightarrow> ((gerror + ContainerBridge) \<times> 's) option" where
  "StartContainerBridge en N options s =
     (case options of
        None \<Rightarrow> Some (Inl (bridge_New ''start container bridge'' bridge_kind.ErrInvalidOptions ''options are nil''), s)
      | Some options \<Rightarrow>
          if \<not> bridge_ok options
          then Some (Inl (bridge_New ''start container bridge'' bridge_kind.ErrInvalidOptions ''pid, interface names, listen, and remote are required''), s)
          else
            let options = (if cbo_MTU options = 0 then options\<lparr>cbo_MTU := 1500\<rparr> else options);
                s = CleanupLink N (cbo_HostIf options) s in
            (case AttachNamespaceInterface N \<lparr>ni_Mode = '''', ni_PID = cbo_PID options, ni_HostSideName = cbo_HostIf options,
                    ni_ContainerSideName = cbo_ContainerIf options, ni_MTU = cbo_MTU options\<rparr> s of
               (Some err, s) \<Rightarrow> Some (Inl err, s)
             | (None, s) \<Rightarrow> bridgePorts en N options s))"

definition ContainerBridge_Close :: "bool \<Rightarrow> 's netops \<Rightarrow> ContainerBridge option \<Rightarrow> 's \<Rightarrow> (ContainerBridge option \<times> 's) option" where
  "ContainerBridge_Close en N b s =
     (case b of
        None \<Rightarrow> Some (None, s)
      | Some b \<Rightarrow> do {
          (sw, obs) \<leftarrow> Stop en (cb_switcher b);
          s \<leftarrow> closeObserved en N (portOf (cb_local b) (cb_remote b)) obs s;
          Some (Some (b\<lparr>cb_switcher := sw\<rparr>), CleanupLink N (cb_hostIf b) s)
        })"

end
