(* ===== verification/Bridge_Transport_Properties.thy ===== *)
theory Bridge_Transport_Properties
  imports Bridge_Transport Bridge_Properties
begin

text \<open>
  What the transports do with the resources of the operating system, and how the reader of the switch takes
  a transport that has no frame to give. The locale \<open>transport_account\<close> says which calls open and close
  what; it is interpreted on any operating system that is watched.
\<close>

section \<open>Resources\<close>

datatype resource = Fd nat | Inactive nat | Handle nat | Iface nat | Conn nat

text \<open>How often each resource was opened, less how often it was closed.\<close>

type_synonym resource_count = "resource \<Rightarrow> int"

definition bump :: "resource \<Rightarrow> int \<Rightarrow> resource_count \<Rightarrow> resource_count" where
  "bump r d c = c(r := c r + d)"

lemma bump_bump [simp]: "bump r d (bump r e c) = bump r (e + d) c"
  by (simp add: bump_def add.assoc)

lemma bump_0 [simp]: "bump r 0 c = c"
  by (simp add: bump_def)

lemma bump_commute: "bump r d (bump q e c) = bump q e (bump r d c)"
  by (auto simp: bump_def fun_eq_iff)

fun port_resource :: "TransportPort \<Rightarrow> resource" where
  "port_resource (Raw p) = Fd (raw_fd p)"
| "port_resource (Pcap p) = Handle (pcap_handle p)"
| "port_resource (TAP p) = Iface (tap_iface p)"
| "port_resource (UDP p) = Conn (udp_conn p)"

text \<open>The port that a constructor gives has the configured identifier and MTU.\<close>

definition port_as :: "PortOptions \<Rightarrow> TransportPort \<Rightarrow> bool" where
  "port_as options q \<longleftrightarrow> (po_ID options \<noteq> [] \<longrightarrow> port_id q = po_ID options) \<and> port_mtu q = po_MTU options
     \<and> (po_ID options \<noteq> [] \<longrightarrow> 0 < po_MTU options \<longrightarrow> po_Interface options \<noteq> [] \<or> (\<exists>u. q = UDP u) \<longrightarrow> port_valid q)"

lemma openPort_as:
  assumes "openPort K scheme options s = (Inr q, s')"
  shows "port_as options q"
proof -
  have "NewRawSocketPort K options s = (Inr q, s') \<Longrightarrow> port_as options q"
    by (auto simp: NewRawSocketPort_def port_as_def Let_def split: prod.splits sum.splits option.splits)
  moreover have "NewPcapPort K options s = (Inr q, s') \<Longrightarrow> port_as options q"
    by (auto simp: NewPcapPort_def port_as_def Let_def split: prod.splits sum.splits)
  moreover have "NewTAPPort K options s = (Inr q, s') \<Longrightarrow> port_as options q"
    by (auto simp: NewTAPPort_def port_as_def Let_def split: prod.splits sum.splits if_splits)
  moreover have "NewUDPPort K options s = (Inr q, s') \<Longrightarrow> port_as options q"
    by (auto simp: NewUDPPort_def port_as_def Let_def split: prod.splits sum.splits)
  ultimately show ?thesis using assms
    by (auto simp: openPort_def Registry_Get_def init_registry_def RegisterPortFactory_def builtin_def split: option.splits if_splits)
qed

locale transport_account =
  fixes K :: "'s osnet"
    and cnt :: "'s \<Rightarrow> resource_count"
  assumes keeps: "os_InterfaceByName K i s = (r1, s') \<Longrightarrow> cnt s' = cnt s" "os_Bind K fd pr ix s = (r2, s') \<Longrightarrow> cnt s' = cnt s"
      "os_Poll K j ms s = (r3, s') \<Longrightarrow> cnt s' = cnt s" "os_Recvfrom K fd n s = (r4, s') \<Longrightarrow> cnt s' = cnt s" "os_Sendto K fd fr s = (r5, s') \<Longrightarrow> cnt s' = cnt s"
      "pcap_SetImmediateMode K h b s = (r6, s') \<Longrightarrow> cnt s' = cnt s" "pcap_SetSnapLen K h j s = (r7, s') \<Longrightarrow> cnt s' = cnt s"
      "pcap_SetPromisc K h b s = (r8, s') \<Longrightarrow> cnt s' = cnt s" "pcap_SetTimeout K h j s = (r9, s') \<Longrightarrow> cnt s' = cnt s"
      "pcap_ReadPacketData K h s = (r10, s') \<Longrightarrow> cnt s' = cnt s" "pcap_WritePacketData K h fr s = (r11, s') \<Longrightarrow> cnt s' = cnt s"
      "net_ResolveUDPAddr K i s = (r12, s') \<Longrightarrow> cnt s' = cnt s" "net_SetReadDeadline K c j s = (r13, s') \<Longrightarrow> cnt s' = cnt s"
      "net_ReadFromUDP K c n s = (r14, s') \<Longrightarrow> cnt s' = cnt s" "net_WriteToUDP K c fr i s = (r15, s') \<Longrightarrow> cnt s' = cnt s"
      "water_Read K c n s = (r16, s') \<Longrightarrow> cnt s' = cnt s" "water_Write K c fr s = (r17, s') \<Longrightarrow> cnt s' = cnt s"
    and opens: "os_Socket K pr s = (q1, s') \<Longrightarrow> cnt s' = (case q1 of Inl _ \<Rightarrow> cnt s | Inr fd \<Rightarrow> bump (Fd fd) 1 (cnt s))"
      "pcap_NewInactiveHandle K i s = (q2, s') \<Longrightarrow> cnt s' = (case q2 of Inl _ \<Rightarrow> cnt s | Inr h \<Rightarrow> bump (Inactive h) 1 (cnt s))"
      "pcap_Activate K h s = (q3, s') \<Longrightarrow> cnt s' = (case q3 of Inl _ \<Rightarrow> cnt s | Inr h \<Rightarrow> bump (Handle h) 1 (cnt s))"
      "net_ListenUDP K a s = (q4, s') \<Longrightarrow> cnt s' = (case q4 of Inl _ \<Rightarrow> cnt s | Inr c \<Rightarrow> bump (Conn c) 1 (cnt s))"
      "water_New K i s = (q5, s') \<Longrightarrow> cnt s' = (case q5 of Inl _ \<Rightarrow> cnt s | Inr t \<Rightarrow> bump (Iface t) 1 (cnt s))"
    and closes: "cnt (snd (os_Close K fd s)) = bump (Fd fd) (- 1) (cnt s)" "cnt (pcap_CleanUp K h s) = bump (Inactive h) (- 1) (cnt s)"
      "cnt (pcap_CloseHandle K h s) = bump (Handle h) (- 1) (cnt s)" "cnt (snd (net_CloseUDP K c s)) = bump (Conn c) (- 1) (cnt s)"
      "cnt (snd (water_Close K t s)) = bump (Iface t) (- 1) (cnt s)"
begin

definition owned :: "'s \<Rightarrow> (gerror + TransportPort) \<times> 's \<Rightarrow> bool" where
  "owned s p \<longleftrightarrow> (case p of (Inl _, s') \<Rightarrow> cnt s' = cnt s | (Inr q, s') \<Rightarrow> cnt s' = bump (port_resource q) 1 (cnt s))"

lemma raw_owned: "owned s (NewRawSocketPort K options s)"
  unfolding NewRawSocketPort_def Let_def
  by (auto simp: owned_def closes dest!: keeps opens split: prod.splits sum.splits option.splits)

lemma configure_cnt:
  "configurePcap K options i s = (r, s') \<Longrightarrow> cnt s' = (case r of Inl _ \<Rightarrow> cnt s | Inr h \<Rightarrow> bump (Handle h) 1 (cnt s))"
  unfolding configurePcap_def by (auto dest!: keeps opens split: prod.splits sum.splits option.splits)

lemma pcap_owned: "owned s (NewPcapPort K options s)"
  unfolding NewPcapPort_def Let_def
  by (auto simp: owned_def closes bump_commute [of "Inactive _"] dest!: opens configure_cnt split: prod.splits sum.splits option.splits)

lemma tap_owned: "owned s (NewTAPPort K options s)"
  unfolding NewTAPPort_def Let_def
  by (auto simp: owned_def dest!: opens split: prod.splits sum.splits option.splits)

lemma resolveLocal_cnt: "resolveLocal K options s = (r, s') \<Longrightarrow> cnt s' = cnt s"
  unfolding resolveLocal_def by (auto dest!: keeps split: prod.splits sum.splits if_splits)

lemma udp_owned: "owned s (NewUDPPort K options s)"
  unfolding NewUDPPort_def Let_def
  by (auto simp: owned_def dest!: keeps opens resolveLocal_cnt split: prod.splits sum.splits option.splits)

lemma openPort_owned: "owned s (openPort K scheme options s)"
  using raw_owned pcap_owned tap_owned udp_owned
  by (auto simp: openPort_def Registry_Get_def init_registry_def RegisterPortFactory_def builtin_def owned_def split: option.splits)

lemma read_cnt: "tp_ReadFrame en K p s = Some (r, s') \<Longrightarrow> cnt s' = cnt s"
  by (cases p) (auto simp: read_defs dest!: keeps split: bind_splits prod.splits sum.splits option.splits if_splits)

lemma write_cnt: "tp_WriteFrame en K p fr s = Some (e, s') \<Longrightarrow> cnt s' = cnt s"
  by (cases p) (auto simp: write_defs dest!: keeps split: bind_splits)

lemma close_cnt:
  assumes "tp_Close en K p s = Some (e, s')"
  shows "cnt s' = bump (port_resource p) (- 1) (cnt s)"
proof (cases p)
  case (Raw r) then show ?thesis using assms closes(1) [of "raw_fd r" s] by (auto simp: close_defs split: bind_splits)
next
  case (Pcap h) then show ?thesis using assms closes(3) [of "pcap_handle h" s] by (auto simp: close_defs split: bind_splits)
next
  case (TAP t) then show ?thesis using assms closes(5) [of "tap_iface t" s] by (auto simp: close_defs split: bind_splits)
next
  case (UDP u) then show ?thesis using assms closes(4) [of "udp_conn u" s] by (auto simp: close_defs split: bind_splits)
qed

end

section \<open>Watched operating systems\<close>

record 's counted =
  ct_os :: 's
  ct_count :: resource_count

definition same :: "'s counted \<Rightarrow> 'r \<times> 's \<Rightarrow> 'r \<times> 's counted" where
  "same w p = (fst p, w\<lparr>ct_os := snd p\<rparr>)"

definition took :: "(nat \<Rightarrow> resource) \<Rightarrow> 's counted \<Rightarrow> (gerror + nat) \<times> 's \<Rightarrow> (gerror + nat) \<times> 's counted" where
  "took res w p =
     (case p of
        (Inl e, s) \<Rightarrow> (Inl e, w\<lparr>ct_os := s\<rparr>)
      | (Inr h, s) \<Rightarrow> (Inr h, w\<lparr>ct_os := s, ct_count := bump (res h) 1 (ct_count w)\<rparr>))"

definition gave :: "resource \<Rightarrow> 's counted \<Rightarrow> 's counted" where
  "gave res w = w\<lparr>ct_count := bump res (- 1) (ct_count w)\<rparr>"

definition counting :: "'s osnet \<Rightarrow> 's counted osnet" where
  "counting K = \<lparr>
     os_InterfaceByName = (\<lambda>i w. same w (os_InterfaceByName K i (ct_os w))),
     os_Socket = (\<lambda>pr w. took Fd w (os_Socket K pr (ct_os w))),
     os_Bind = (\<lambda>fd pr ix w. same w (os_Bind K fd pr ix (ct_os w))),
     os_Poll = (\<lambda>fd ms w. same w (os_Poll K fd ms (ct_os w))),
     os_Recvfrom = (\<lambda>fd n w. same w (os_Recvfrom K fd n (ct_os w))),
     os_Sendto = (\<lambda>fd fr w. same w (os_Sendto K fd fr (ct_os w))),
     os_Close = (\<lambda>fd w. same (gave (Fd fd) w) (os_Close K fd (ct_os w))),
     pcap_NewInactiveHandle = (\<lambda>i w. took Inactive w (pcap_NewInactiveHandle K i (ct_os w))),
     pcap_SetImmediateMode = (\<lambda>h b w. same w (pcap_SetImmediateMode K h b (ct_os w))),
     pcap_SetSnapLen = (\<lambda>h n w. same w (pcap_SetSnapLen K h n (ct_os w))),
     pcap_SetPromisc = (\<lambda>h b w. same w (pcap_SetPromisc K h b (ct_os w))),
     pcap_SetTimeout = (\<lambda>h n w. same w (pcap_SetTimeout K h n (ct_os w))),
     pcap_Activate = (\<lambda>h w. took Handle w (pcap_Activate K h (ct_os w))),
     pcap_CleanUp = (\<lambda>h w. (gave (Inactive h) w)\<lparr>ct_os := pcap_CleanUp K h (ct_os w)\<rparr>),
     pcap_ReadPacketData = (\<lambda>h w. same w (pcap_ReadPacketData K h (ct_os w))),
     pcap_WritePacketData = (\<lambda>h fr w. same w (pcap_WritePacketData K h fr (ct_os w))),
     pcap_CloseHandle = (\<lambda>h w. (gave (Handle h) w)\<lparr>ct_os := pcap_CloseHandle K h (ct_os w)\<rparr>),
     net_ResolveUDPAddr = (\<lambda>a w. same w (net_ResolveUDPAddr K a (ct_os w))),
     net_ListenUDP = (\<lambda>a w. took Conn w (net_ListenUDP K a (ct_os w))),
     net_LocalAddr = (\<lambda>c w. net_LocalAddr K c (ct_os w)),
     net_SetReadDeadline = (\<lambda>c d w. same w (net_SetReadDeadline K c d (ct_os w))),
     net_ReadFromUDP = (\<lambda>c n w. same w (net_ReadFromUDP K c n (ct_os w))),
     net_WriteToUDP = (\<lambda>c fr a w. same w (net_WriteToUDP K c fr a (ct_os w))),
     net_CloseUDP = (\<lambda>c w. same (gave (Conn c) w) (net_CloseUDP K c (ct_os w))),
     water_New = (\<lambda>i w. took Iface w (water_New K i (ct_os w))),
     water_Read = (\<lambda>t n w. same w (water_Read K t n (ct_os w))),
     water_Write = (\<lambda>t fr w. same w (water_Write K t fr (ct_os w))),
     water_Close = (\<lambda>t w. same (gave (Iface t) w) (water_Close K t (ct_os w)))\<rparr>"

lemma same_count [simp]: "ct_count (snd (same w p)) = ct_count w" "same w p = (r, w') \<Longrightarrow> ct_count w' = ct_count w"
  by (auto simp: same_def)

lemma took_count: "took res w p = (r, w') \<Longrightarrow> ct_count w' = (case r of Inl _ \<Rightarrow> ct_count w | Inr h \<Rightarrow> bump (res h) 1 (ct_count w))"
  by (auto simp: took_def split: prod.splits sum.splits)

interpretation counting: transport_account "counting K" ct_count for K
  by unfold_locales (simp_all add: counting_def took_count gave_def)

section \<open>Transports inside a larger state\<close>

text \<open>The calls of an operating system that is a part of a larger state, read with \<open>g\<close> and written with \<open>p\<close>.\<close>

definition inpart :: "('w \<Rightarrow> 's) \<Rightarrow> ('s \<Rightarrow> 'w \<Rightarrow> 'w) \<Rightarrow> ('s \<Rightarrow> 'r \<times> 's) \<Rightarrow> 'w \<Rightarrow> 'r \<times> 'w" where
  "inpart g p f w = (case f (g w) of (r, s) \<Rightarrow> (r, p s w))"

definition part_os :: "('w \<Rightarrow> 's) \<Rightarrow> ('s \<Rightarrow> 'w \<Rightarrow> 'w) \<Rightarrow> 's osnet \<Rightarrow> 'w osnet" where
  "part_os g p K = \<lparr>
     os_InterfaceByName = (\<lambda>i. inpart g p (os_InterfaceByName K i)),
     os_Socket = (\<lambda>pr. inpart g p (os_Socket K pr)),
     os_Bind = (\<lambda>fd pr ix. inpart g p (os_Bind K fd pr ix)),
     os_Poll = (\<lambda>fd ms. inpart g p (os_Poll K fd ms)),
     os_Recvfrom = (\<lambda>fd n. inpart g p (os_Recvfrom K fd n)),
     os_Sendto = (\<lambda>fd fr. inpart g p (os_Sendto K fd fr)),
     os_Close = (\<lambda>fd. inpart g p (os_Close K fd)),
     pcap_NewInactiveHandle = (\<lambda>i. inpart g p (pcap_NewInactiveHandle K i)),
     pcap_SetImmediateMode = (\<lambda>h b. inpart g p (pcap_SetImmediateMode K h b)),
     pcap_SetSnapLen = (\<lambda>h n. inpart g p (pcap_SetSnapLen K h n)),
     pcap_SetPromisc = (\<lambda>h b. inpart g p (pcap_SetPromisc K h b)),
     pcap_SetTimeout = (\<lambda>h n. inpart g p (pcap_SetTimeout K h n)),
     pcap_Activate = (\<lambda>h. inpart g p (pcap_Activate K h)),
     pcap_CleanUp = (\<lambda>h w. p (pcap_CleanUp K h (g w)) w),
     pcap_ReadPacketData = (\<lambda>h. inpart g p (pcap_ReadPacketData K h)),
     pcap_WritePacketData = (\<lambda>h fr. inpart g p (pcap_WritePacketData K h fr)),
     pcap_CloseHandle = (\<lambda>h w. p (pcap_CloseHandle K h (g w)) w),
     net_ResolveUDPAddr = (\<lambda>a. inpart g p (net_ResolveUDPAddr K a)),
     net_ListenUDP = (\<lambda>a. inpart g p (net_ListenUDP K a)),
     net_LocalAddr = (\<lambda>c w. net_LocalAddr K c (g w)),
     net_SetReadDeadline = (\<lambda>c d. inpart g p (net_SetReadDeadline K c d)),
     net_ReadFromUDP = (\<lambda>c n. inpart g p (net_ReadFromUDP K c n)),
     net_WriteToUDP = (\<lambda>c fr a. inpart g p (net_WriteToUDP K c fr a)),
     net_CloseUDP = (\<lambda>c. inpart g p (net_CloseUDP K c)),
     water_New = (\<lambda>i. inpart g p (water_New K i)),
     water_Read = (\<lambda>t n. inpart g p (water_Read K t n)),
     water_Write = (\<lambda>t fr. inpart g p (water_Write K t fr)),
     water_Close = (\<lambda>t. inpart g p (water_Close K t))\<rparr>"

locale state_part =
  fixes g :: "'w \<Rightarrow> 's" and p :: "'s \<Rightarrow> 'w \<Rightarrow> 'w"
  assumes get_put [simp]: "g (p s w) = s"
    and put_put [simp]: "p s (p s' w) = p s w"
    and put_get [simp]: "p (g w) w = w"
begin

lemma raw_inpart: "NewRawSocketPort (part_os g p K) options = inpart g p (NewRawSocketPort K options)"
  by (rule ext) (auto simp: NewRawSocketPort_def part_os_def inpart_def Let_def split: prod.splits sum.splits option.splits)

lemma configure_inpart: "configurePcap (part_os g p K) options i = inpart g p (configurePcap K options i)"
  by (rule ext) (auto simp: configurePcap_def part_os_def inpart_def split: prod.splits sum.splits option.splits)

lemma pcap_inpart: "NewPcapPort (part_os g p K) options = inpart g p (NewPcapPort K options)"
proof
  fix w
  have [simp]: "pcap_NewInactiveHandle (part_os g p K) i = inpart g p (pcap_NewInactiveHandle K i)"
    "pcap_CleanUp (part_os g p K) h = (\<lambda>w. p (pcap_CleanUp K h (g w)) w)" for i h by (simp_all add: part_os_def)
  show "NewPcapPort (part_os g p K) options w = inpart g p (NewPcapPort K options) w"
    unfolding NewPcapPort_def Let_def by (auto simp: configure_inpart inpart_def split: prod.splits sum.splits)
qed

lemma tap_inpart: "NewTAPPort (part_os g p K) options = inpart g p (NewTAPPort K options)"
  by (rule ext) (auto simp: NewTAPPort_def part_os_def inpart_def Let_def split: prod.splits sum.splits)

lemma udp_inpart: "NewUDPPort (part_os g p K) options = inpart g p (NewUDPPort K options)"
  by (rule ext) (auto simp: NewUDPPort_def resolveLocal_def part_os_def inpart_def Let_def split: prod.splits sum.splits)

lemma openPort_inpart: "openPort (part_os g p K) scheme options = inpart g p (openPort K scheme options)"
proof -
  have "builtin (part_os g p K) i options = inpart g p (builtin K i options)" for i
    by (simp add: builtin_def raw_inpart pcap_inpart tap_inpart udp_inpart)
  then show ?thesis
    by (auto simp: fun_eq_iff openPort_def Registry_Get_def init_registry_def RegisterPortFactory_def inpart_def)
qed

lemma close_inpart:
  "tp_Close en (part_os g p K) q w = map_option (\<lambda>(e, s). (e, p s w)) (tp_Close en K q (g w))"
  by (cases q) (auto simp: close_defs part_os_def inpart_def split: bind_splits prod.splits)

end

section \<open>A system to evaluate on\<close>

text \<open>An operating system on which every call succeeds, handing out its number of resources so far, and
  no frame ever comes.\<close>

definition idle_os :: "nat osnet" where
  "idle_os = \<lparr>
     os_InterfaceByName = (\<lambda>i n. (Inr 2, n)), os_Socket = (\<lambda>pr n. (Inr n, Suc n)), os_Bind = (\<lambda>fd pr ix n. (None, n)),
     os_Poll = (\<lambda>fd ms n. (Inr 0, n)), os_Recvfrom = (\<lambda>fd k n. (Inr [], n)), os_Sendto = (\<lambda>fd fr n. (None, n)), os_Close = (\<lambda>fd n. (None, n)),
     pcap_NewInactiveHandle = (\<lambda>i n. (Inr n, Suc n)), pcap_SetImmediateMode = (\<lambda>h b n. (None, n)), pcap_SetSnapLen = (\<lambda>h k n. (None, n)),
     pcap_SetPromisc = (\<lambda>h b n. (None, n)), pcap_SetTimeout = (\<lambda>h k n. (None, n)), pcap_Activate = (\<lambda>h n. (Inr n, Suc n)), pcap_CleanUp = (\<lambda>h n. n),
     pcap_ReadPacketData = (\<lambda>h n. (Inl (Foreign ''Timeout Expired'' []), n)), pcap_WritePacketData = (\<lambda>h fr n. (None, n)), pcap_CloseHandle = (\<lambda>h n. n),
     net_ResolveUDPAddr = (\<lambda>a n. (Inr a, n)), net_ListenUDP = (\<lambda>a n. (Inr n, Suc n)), net_LocalAddr = (\<lambda>c n. ''[::]:9000''),
     net_SetReadDeadline = (\<lambda>c d n. (None, n)), net_ReadFromUDP = (\<lambda>c k n. (Inl (Sentinel (OS NetTimeout)), n)), net_WriteToUDP = (\<lambda>c fr a n. (None, n)),
     net_CloseUDP = (\<lambda>c n. (None, n)),
     water_New = (\<lambda>i n. (Inr n, Suc n)), water_Read = (\<lambda>t k n. (Inr [], n)), water_Write = (\<lambda>t fr n. (None, n)), water_Close = (\<lambda>t n. (None, n))\<rparr>"

definition idle_options :: PortOptions where
  "idle_options = \<lparr>po_ID = ''link'', po_Interface = ''eth0'', po_LocalAddr = [], po_Remote = [], po_MTU = 1500, po_ImmediateMode = True, po_SnapLen = 1532\<rparr>"

section \<open>Properties\<close>

lemma open_udp: "openPort K ''udp'' options s = NewUDPPort K options s"
  by (simp add: openPort_def Registry_Get_def init_registry_def RegisterPortFactory_def builtin_def)

lemma NewUDPPort_is: "NewUDPPort K options s = (Inr p, s') \<Longrightarrow> \<exists>u. p = UDP u"
  by (auto simp: NewUDPPort_def Let_def split: prod.splits sum.splits)

lemma valid_methods:
  assumes "port_valid p"
  shows "tp_ID en p = Some (port_id p)" "tp_MTU en p = Some (port_mtu p)" "tp_ReadFrame en K p s \<noteq> None"
    "tp_WriteFrame en K p (Some fr) s \<noteq> None" "tp_Close en K p s \<noteq> None"
  using assms by (cases p; simp add: assertValid_defs id_mtu_defs read_defs write_defs close_defs)+

text \<open>C37: For options with an identifier, a positive MTU and, but for UDP, an interface, and whatever the
  operating system and the libraries answer, opening a port either fails and leaves
  every descriptor, handle and connection as it was, or gives a port with the configured identifier and
  MTU that owns exactly one resource more. Its methods pass their assertions; reading and writing change
  nothing of the resources, and closing it gives its own back.\<close>

theorem ports_own_one_resource:
  assumes "openPort (counting K) scheme options w = (r, w')" "po_ID options \<noteq> []" "0 < po_MTU options"
    and "scheme = ''udp'' \<or> po_Interface options \<noteq> []"
  shows "case r of Inl _ \<Rightarrow> ct_count w' = ct_count w
    | Inr p \<Rightarrow> ct_count w' = bump (port_resource p) 1 (ct_count w) \<and> tp_ID en p = Some (po_ID options) \<and> tp_MTU en p = Some (po_MTU options)
        \<and> (\<forall>v fr. \<exists>x1 v1 x2 v2 x3 v3. tp_ReadFrame en (counting K) p v = Some (x1, v1) \<and> ct_count v1 = ct_count v
            \<and> tp_WriteFrame en (counting K) p (Some fr) v = Some (x2, v2) \<and> ct_count v2 = ct_count v
            \<and> tp_Close en (counting K) p v = Some (x3, v3) \<and> ct_count v3 = bump (port_resource p) (- 1) (ct_count v))"
proof (cases r)
  case (Inl e)
  then show ?thesis using counting.openPort_owned [of w K scheme options] assms(1) by (simp add: counting.owned_def)
next
  case (Inr p)
  have own: "counting.owned w (Inr p, w')" using counting.openPort_owned [of w K scheme options] assms(1) Inr by simp
  have "po_Interface options \<noteq> [] \<or> (\<exists>u. p = UDP u)" using assms(1,4) Inr NewUDPPort_is by (auto simp: open_udp)
  moreover have as: "port_as options p" by (rule openPort_as [OF assms(1) [unfolded Inr]])
  ultimately have v: "port_valid p" using assms(2,3) by (auto simp: port_as_def)
  note methods = valid_methods [OF v]
  have "\<exists>x1 v1 x2 v2 x3 v3. tp_ReadFrame en (counting K) p v = Some (x1, v1) \<and> ct_count v1 = ct_count v
      \<and> tp_WriteFrame en (counting K) p (Some fr) v = Some (x2, v2) \<and> ct_count v2 = ct_count v
      \<and> tp_Close en (counting K) p v = Some (x3, v3) \<and> ct_count v3 = bump (port_resource p) (- 1) (ct_count v)" for v fr
  proof -
    obtain x1 v1 where 1: "tp_ReadFrame en (counting K) p v = Some (x1, v1)" using methods(3) [of en "counting K" v] by (auto simp: not_None_eq)
    obtain x2 v2 where 2: "tp_WriteFrame en (counting K) p (Some fr) v = Some (x2, v2)" using methods(4) [of en "counting K" fr v] by (auto simp: not_None_eq)
    obtain x3 v3 where 3: "tp_Close en (counting K) p v = Some (x3, v3)" using methods(5) [of en "counting K" v] by (auto simp: not_None_eq)
    show ?thesis using 1 2 3 counting.read_cnt [OF 1] counting.write_cnt [OF 2] counting.close_cnt [OF 3] by blast
  qed
  then show ?thesis using own Inr as methods(1,2) assms(2) by (simp add: counting.owned_def port_as_def)
qed

theorem ports_own_one_resource_witness:
  "\<exists>w'. openPort (counting idle_os) ''pcap'' idle_options \<lparr>ct_os = 3, ct_count = (\<lambda>_. 0)\<rparr>
       = (Inr (Pcap \<lparr>pcap_id = ''link'', pcap_mtu = 1500, pcap_ifName = ''eth0'', pcap_handle = 4\<rparr>), w')
     \<and> ct_count w' = (\<lambda>r. if r = Handle 4 then 1 else 0)"
proof -
  let ?p = "Pcap \<lparr>pcap_id = ''link'', pcap_mtu = 1500, pcap_ifName = ''eth0'', pcap_handle = 4\<rparr>"
  obtain w' where w: "openPort (counting idle_os) ''pcap'' idle_options \<lparr>ct_os = 3, ct_count = (\<lambda>_. 0)\<rparr> = (Inr ?p, w')"
    by (simp add: openPort_def Registry_Get_def init_registry_def RegisterPortFactory_def builtin_def NewPcapPort_def configurePcap_def
        counting_def same_def took_def idle_os_def idle_options_def)
  have "ct_count w' = bump (Handle 4) 1 (\<lambda>_. 0)" using ports_own_one_resource [OF w, of True] by (simp add: idle_options_def)
  then show ?thesis using w by (simp add: bump_def fun_eq_iff)
qed

text \<open>C38: A transport that has no frame within the poll interval: the reader of the switch goes on in
  silence for a packet socket and for a UDP socket. The timeout of a pcap handle is an error value of the
  pcap library, neither \<open>ErrReadTimeout\<close> nor a network error; the reader reports it to every handler of
  the switch as a dropped frame.\<close>

theorem idle_pcap_port_reports_drops:
  assumes "port_valid (Raw r)" "port_valid (UDP u)" "port_valid (Pcap p)"
    and raw: "int (raw_fd r) \<le> maxInt32" "os_Poll K (int (raw_fd r)) 100 a = (Inr 0, a1)"
    and udp: "net_SetReadDeadline K (udp_conn u) readPollInterval a = (None, a2)" "net_ReadFromUDP K (udp_conn u) bufsize a2 = (Inl e, a3)"
      "errors_Is e (OS NetTimeout)"
    and pcap: "pcap_ReadPacketData K (pcap_handle p) a = (Inl (Foreign ''Timeout Expired'' []), a4)"
  shows "\<exists>x y z. tp_ReadFrame en K (Raw r) a = Some (x, a1) \<and> tp_ReadFrame en K (UDP u) a = Some (y, a3) \<and> tp_ReadFrame en K (Pcap p) a = Some (z, a4)
    \<and> reader_iter en wr False x False (raw_id r) s = Some (ReaderContinue, s, [])
    \<and> reader_iter en wr False y False (udp_id u) s = Some (ReaderContinue, s, [])
    \<and> reader_iter en wr False z False (pcap_id p) s
       = Some (ReaderContinue, s, map (\<lambda>(i, h). Handled h (frame_event EventFrameDropped (pcap_id p) [] [] (Some (Foreign ''Timeout Expired'' [])))) (handlers s))"
proof (intro exI conjI)
  show "tp_ReadFrame en K (Raw r) a = Some (Inl (Sentinel (BridgeKind ErrReadTimeout)), a1)"
    using assms(1) raw by (simp add: assertValid_defs raw_ReadFrame_def readPollInterval_def)
  show "tp_ReadFrame en K (UDP u) a = Some (Inl e, a3)"
    using assms(2) udp by (simp add: assertValid_defs udp_ReadFrame_def)
  show "tp_ReadFrame en K (Pcap p) a = Some (Inl (Foreign ''Timeout Expired'' []), a4)"
    using assms(3) pcap by (simp add: assertValid_defs pcap_ReadFrame_def)
  show "reader_iter en wr False (Inl (Sentinel (BridgeKind ErrReadTimeout))) False (raw_id r) s = Some (ReaderContinue, s, [])"
    by (simp add: reader_iter_def isReadTimeout_def)
  show "reader_iter en wr False (Inl e) False (udp_id u) s = Some (ReaderContinue, s, [])"
    using udp(3) by (simp add: reader_iter_def isReadTimeout_def)
  show "reader_iter en wr False (Inl (Foreign ''Timeout Expired'' [])) False (pcap_id p) s
       = Some (ReaderContinue, s, map (\<lambda>(i, h). Handled h (frame_event EventFrameDropped (pcap_id p) [] [] (Some (Foreign ''Timeout Expired'' [])))) (handlers s))"
    using assms(3) by (simp add: reader_iter_def isReadTimeout_def emit_def event_ok_def event0_def frame_event_def cloneEvent_def cloneFrame_def)
qed

theorem idle_pcap_port_reports_drops_witness:
  "\<exists>z. tp_ReadFrame True idle_os (Pcap \<lparr>pcap_id = ''link'', pcap_mtu = 1500, pcap_ifName = ''eth0'', pcap_handle = 4\<rparr>) 0 = Some (z, 0)
    \<and> reader_iter True (\<lambda>_ _. None) False z False ''link'' ex_switch_h
     = Some (ReaderContinue, ex_switch_h, [Handled 7 (frame_event EventFrameDropped ''link'' [] [] (Some (Foreign ''Timeout Expired'' [])))])"
  using idle_pcap_port_reports_drops
    [of "\<lparr>raw_id = ''r'', raw_mtu = 1500, raw_fd = 3, raw_ifName = ''eth1''\<rparr>"
        "\<lparr>udp_id = ''u'', udp_mtu = 1500, udp_conn = 5, udp_remoteAddr = ''10.0.0.2:9000''\<rparr>"
        "\<lparr>pcap_id = ''link'', pcap_mtu = 1500, pcap_ifName = ''eth0'', pcap_handle = 4\<rparr>" idle_os 0 0 0 "Sentinel (OS NetTimeout)" 0 0
        True "\<lambda>_ _. None" ex_switch_h]
  by (auto simp: idle_os_def maxInt32_def ex_switch_h_def)

end
