(* ===== verification/Container_Bridge_Properties.thy ===== *)
theory Container_Bridge_Properties
  imports Container_Bridge Bridge_Transport_Properties
begin

text \<open>
  What starting the bridge of a container does to the thread it runs on: every pin of the goroutine is
  undone and every namespace handle closed, whatever fails, and the thread is back in its namespace
  unless switching back failed. And what a failed attachment leaves of the veth pair. The locale
  \<open>thread_account\<close> says what the calls of the libraries do to the accounts of a thread; it is
  interpreted on any library that is watched.
\<close>

section \<open>Accounts of a thread\<close>

text \<open>\<open>homes\<close> are the handles that were taken of the namespace of the thread before it went away from it.\<close>

record thread_account_state =
  ta_locks :: int
  ta_open :: "nat set"
  ta_issued :: nat
  ta_homes :: "nat set"
  ta_away :: bool
  ta_failed :: bool
  ta_lost :: bool

definition ta_wf :: "thread_account_state \<Rightarrow> bool" where
  "ta_wf a \<longleftrightarrow> (\<forall>i \<in> ta_open a. i < ta_issued a) \<and> (\<forall>i \<in> ta_homes a. i < ta_issued a)"

text \<open>What a call leaves: the pins and the open handles as before; the thread away, or unpinned while
  away, only if it was away before or switching has failed.\<close>

definition settled :: "thread_account_state \<Rightarrow> thread_account_state \<Rightarrow> bool" where
  "settled a b \<longleftrightarrow> ta_wf b \<and> ta_locks b = ta_locks a \<and> ta_open b = ta_open a \<and> (ta_failed a \<longrightarrow> ta_failed b) \<and>
     (ta_away b \<longrightarrow> ta_away a \<or> ta_failed b) \<and> (ta_lost b \<longrightarrow> ta_lost a \<or> ta_away a \<or> ta_failed b)"

lemma settled_refl: "ta_wf a \<Longrightarrow> settled a a"
  by (simp add: settled_def)

lemma settled_trans: "settled a b \<Longrightarrow> settled b c \<Longrightarrow> settled a c"
  by (auto simp: settled_def)

definition issue :: "thread_account_state \<Rightarrow> thread_account_state" where
  "issue a = a\<lparr>ta_open := insert (ta_issued a) (ta_open a), ta_issued := Suc (ta_issued a)\<rparr>"

text \<open>A thread that has entered a namespace: one pin more and two handles more, the first of them a way
  back to where it was.\<close>

definition entered :: "thread_account_state \<Rightarrow> thread_account_state" where
  "entered a = (let h = ta_issued a in
     a\<lparr>ta_locks := ta_locks a + 1, ta_open := insert (Suc h) (insert h (ta_open a)), ta_issued := Suc (Suc h),
       ta_homes := (if ta_away a then ta_homes a else insert h (ta_homes a)), ta_away := True\<rparr>)"

lemma fresh_handles:
  assumes "ta_wf a"
  shows "ta_issued a \<notin> ta_open a" "Suc (ta_issued a) \<notin> ta_open a" "ta_issued a \<notin> ta_homes a" "Suc (ta_issued a) \<notin> ta_homes a"
  using assms by (auto simp: ta_wf_def)

locale thread_account =
  fixes N :: "'s netops"
    and acc :: "'s \<Rightarrow> thread_account_state"
  assumes plain: "acc (snd (no_LinkAdd N i j m s)) = acc s" "acc (snd (no_LinkByName N i s)) = acc s" "acc (snd (no_LinkSetName N k i s)) = acc s"
      "acc (snd (no_LinkSetMTU N k m s)) = acc s" "acc (snd (no_LinkSetUp N k s)) = acc s" "acc (snd (no_LinkSetNsFd N k h s)) = acc s"
      "acc (snd (no_LinkDel N k s)) = acc s"
    and ports: "openPort (no_os N) i po s = (q, s') \<Longrightarrow> acc s' = acc s" "tp_Close en (no_os N) p s = Some (e', s') \<Longrightarrow> acc s' = acc s"
    and lock: "acc (no_LockOSThread N s) = (acc s)\<lparr>ta_locks := ta_locks (acc s) + 1\<rparr>"
    and unlock: "acc (no_UnlockOSThread N s) = (acc s)\<lparr>ta_locks := ta_locks (acc s) - 1, ta_lost := (ta_lost (acc s) \<or> ta_away (acc s))\<rparr>"
    and get: "no_NsGet N s = (r, s') \<Longrightarrow> case r of Inl _ \<Rightarrow> acc s' = acc s
      | Inr h \<Rightarrow> h = ta_issued (acc s) \<and> acc s' = (issue (acc s))\<lparr>ta_homes := (if ta_away (acc s) then ta_homes (acc s) else insert h (ta_homes (acc s)))\<rparr>"
    and frompid: "no_NsFromPid N pid s = (r, s') \<Longrightarrow> case r of Inl _ \<Rightarrow> acc s' = acc s | Inr h \<Rightarrow> h = ta_issued (acc s) \<and> acc s' = issue (acc s)"
    and set: "no_NsSet N h s = (e, s') \<Longrightarrow> acc s' = (if e = None then (acc s)\<lparr>ta_away := (h \<notin> ta_homes (acc s))\<rparr> else (acc s)\<lparr>ta_failed := True\<rparr>)"
    and close: "acc (snd (no_NsClose N h s)) = (acc s)\<lparr>ta_open := ta_open (acc s) - {h}\<rparr>"
begin

lemma plainD:
  "no_LinkAdd N i j m s = (r1, s') \<Longrightarrow> acc s' = acc s" "no_LinkByName N i s = (r2, s') \<Longrightarrow> acc s' = acc s" "no_LinkSetName N k i s = (r3, s') \<Longrightarrow> acc s' = acc s"
  "no_LinkSetMTU N k m s = (r4, s') \<Longrightarrow> acc s' = acc s" "no_LinkSetUp N k s = (r5, s') \<Longrightarrow> acc s' = acc s" "no_LinkSetNsFd N k h s = (r6, s') \<Longrightarrow> acc s' = acc s"
  using plain by (metis snd_conv)+

lemma CleanupLink_acc: "acc (CleanupLink N i s) = acc s"
  by (auto simp: CleanupLink_def plain dest: plainD split: prod.splits sum.splits)

lemma nameInside_acc: "nameInside N p c m s = (e, s') \<Longrightarrow> acc s' = acc s"
  unfolding nameInside_def by (auto dest!: plainD split: prod.splits sum.splits option.splits)

lemma PrepareExisting_acc: "PrepareExistingInterface N h m s = (e, s') \<Longrightarrow> acc s' = acc s"
  unfolding PrepareExistingInterface_def by (auto dest!: plainD split: prod.splits sum.splits option.splits if_splits)

lemma frompid_closed:
  assumes "no_NsFromPid N pid s = (Inr h, u)" "ta_wf (acc s)" "acc w = acc u"
  shows "acc (snd (no_NsClose N h w)) = (acc s)\<lparr>ta_issued := Suc (ta_issued (acc s))\<rparr>"
proof -
  have "h = ta_issued (acc s)" "acc u = issue (acc s)" using frompid [OF assms(1)] by simp_all
  moreover have "ta_issued (acc s) \<notin> ta_open (acc s)" using assms(2) by (auto simp: ta_wf_def)
  ultimately show ?thesis using assms(3) by (simp add: close issue_def)
qed

lemma moveAndBringUp_acc: "moveAndBringUp N params k h s = (e, s') \<Longrightarrow> acc s' = acc s"
  unfolding moveAndBringUp_def by (auto dest!: plainD split: prod.splits sum.splits option.splits)

lemma movePeer_acc:
  assumes "movePeer N params s = (e, s')" "ta_wf (acc s)"
  shows "acc s' = acc s \<or> acc s' = (acc s)\<lparr>ta_issued := Suc (ta_issued (acc s))\<rparr>"
proof -
  obtain r1 s1 where 1: "no_LinkByName N (sl_Container params) s = (r1, s1)" by (rule prod.exhaust)
  note a1 = plainD(2) [OF 1]
  show ?thesis
  proof (cases r1)
    case (Inl x) then show ?thesis using assms(1) 1 a1 by (simp add: movePeer_def)
  next
    case (Inr k)
    obtain r2 s2 where 2: "no_LinkSetMTU N k (sl_MTU params) s1 = (r2, s2)" by (rule prod.exhaust)
    note a2 = plainD(4) [OF 2]
    obtain r3 s3 where 3: "no_NsFromPid N (sl_SourcePID params) s2 = (r3, s3)" by (rule prod.exhaust)
    show ?thesis
    proof (cases "\<exists>h. r2 = None \<and> r3 = Inr h")
      case False
      then show ?thesis using assms(1) 1 a1 Inr 2 a2 3 frompid [OF 3] by (cases r2; cases r3) (simp_all add: movePeer_def)
    next
      case True
      then obtain h where h: "r2 = None" "r3 = Inr h" by blast
      obtain e4 s4 where 4: "moveAndBringUp N params k h s3 = (e4, s4)" by (rule prod.exhaust)
      have "s' = snd (no_NsClose N h s4)" using assms(1) 1 Inr 2 3 h 4 by (simp add: movePeer_def)
      then show ?thesis using frompid_closed [OF 3 [unfolded h] _ moveAndBringUp_acc [OF 4]] assms(2) a1 a2 by simp
    qed
  qed
qed

lemma SetupLink_settled:
  assumes "SetupLinkWithNames N params s = (e, s')" "ta_wf (acc s)"
  shows "settled (acc s) (acc s')"
proof -
  obtain e1 s1 where 1: "no_LinkAdd N (sl_HostName params) (sl_Container params) (sl_MTU params) (no_LockOSThread N s) = (e1, s1)" by (rule prod.exhaust)
  have a1: "acc s1 = (acc s)\<lparr>ta_locks := ta_locks (acc s) + 1\<rparr>" using plainD(1) [OF 1] by (simp add: lock)
  have "\<exists>u. s' = no_UnlockOSThread N u \<and> (acc u = acc s1 \<or> acc u = (acc s1)\<lparr>ta_issued := Suc (ta_issued (acc s1))\<rparr>)"
  proof (cases e1)
    case (Some x) then show ?thesis using assms(1) 1 by (auto simp: SetupLinkWithNames_def)
  next
    case None
    obtain e2 s2 where 2: "movePeer N params s1 = (e2, s2)" by (rule prod.exhaust)
    have "ta_wf (acc s1)" using assms(2) a1 by (simp add: ta_wf_def)
    then show ?thesis using movePeer_acc [OF 2] assms(1) 1 2 None by (auto simp: SetupLinkWithNames_def)
  qed
  then show ?thesis using a1 assms(2) by (auto simp: unlock settled_def ta_wf_def less_Suc_eq)
qed

lemma EnterNamespace_acc:
  assumes "EnterNamespace N pid s = (r, s')" "ta_wf (acc s)"
  shows "case r of Inl _ \<Rightarrow> settled (acc s) (acc s') | Inr handles \<Rightarrow> handles = (ta_issued (acc s), Suc (ta_issued (acc s))) \<and> acc s' = entered (acc s)"
proof -
  note fresh = fresh_handles [OF assms(2)]
  obtain r1 s1 where 1: "no_NsGet N (no_LockOSThread N s) = (r1, s1)" by (rule prod.exhaust)
  note g = get [OF 1]
  show ?thesis
  proof (cases r1)
    case (Inl x)
    then show ?thesis using assms 1 g by (auto simp: EnterNamespace_def settled_def ta_wf_def lock unlock)
  next
    case (Inr h)
    obtain r2 s2 where 2: "no_NsFromPid N pid s1 = (r2, s2)" by (rule prod.exhaust)
    note f = frompid [OF 2]
    have g': "h = ta_issued (acc s)" "acc s1 = (issue ((acc s)\<lparr>ta_locks := ta_locks (acc s) + 1\<rparr>))\<lparr>ta_homes := (if ta_away (acc s) then ta_homes (acc s) else insert h (ta_homes (acc s)))\<rparr>"
      using g Inr by (simp_all add: lock)
    show ?thesis
    proof (cases r2)
      case (Inl x)
      have "s' = no_UnlockOSThread N (snd (no_NsClose N h s2))" "r = Inl x" using assms(1) 1 Inr 2 Inl by (simp_all add: EnterNamespace_def)
      then show ?thesis using f Inl g' fresh assms(2) by (auto simp: unlock close settled_def ta_wf_def issue_def less_Suc_eq)
    next
      case (Inr t)
      obtain e3 s3 where 3: "no_NsSet N t s2 = (e3, s3)" by (rule prod.exhaust)
      have f': "t = Suc (ta_issued (acc s))" "acc s2 = issue (acc s1)" using f Inr g' by (simp_all add: issue_def)
      show ?thesis
      proof (cases e3)
        case None
        have "r = Inr (h, t)" "s' = s3" using assms(1) 1 \<open>r1 = Inr h\<close> 2 Inr 3 None by (simp_all add: EnterNamespace_def)
        then show ?thesis using set [OF 3] None f' g' fresh by (simp add: entered_def issue_def Let_def)
      next
        case (Some x)
        have "s' = no_UnlockOSThread N (snd (no_NsClose N h (snd (no_NsClose N t s3))))" "r = Inl x"
          using assms(1) 1 \<open>r1 = Inr h\<close> 2 Inr 3 Some by (simp_all add: EnterNamespace_def)
        then show ?thesis using set [OF 3] Some f' g' fresh assms(2) by (auto simp: unlock close settled_def ta_wf_def issue_def less_Suc_eq)
      qed
    qed
  qed
qed

lemma leaveNamespace_acc:
  assumes "acc s = entered a" "ta_wf a"
  shows "settled a (acc (leaveNamespace N (ta_issued a, Suc (ta_issued a)) s))"
proof -
  note fresh = fresh_handles [OF assms(2)]
  obtain e1 s1 where 1: "no_NsSet N (ta_issued a) s = (e1, s1)" by (rule prod.exhaust)
  have "ta_wf (entered a)" using assms(2) by (auto simp: ta_wf_def entered_def Let_def less_Suc_eq)
  moreover have "ta_open (entered a) - {Suc (ta_issued a)} - {ta_issued a} = ta_open a" using fresh by (auto simp: entered_def Let_def)
  ultimately show ?thesis using set [OF 1] 1 fresh assms(1)
    by (cases e1; cases "ta_away a") (auto simp: leaveNamespace_def unlock close settled_def ta_wf_def entered_def Let_def split: if_splits)
qed

lemma AttachVeth_settled:
  assumes "AttachVethToNamespace N pid hn cn m s = (e, s')" "ta_wf (acc s)"
  shows "settled (acc s) (acc s')"
proof -
  define params where "params = \<lparr>sl_SourcePID = pid, sl_HostName = hn, sl_Container = peerInterfaceName hn, sl_MTU = m\<rparr>"
  obtain e1 s1 where 1: "SetupLinkWithNames N params s = (e1, s1)" by (rule prod.exhaust)
  note S = SetupLink_settled [OF 1 assms(2)]
  show ?thesis
  proof (cases e1)
    case (Some x)
    then show ?thesis using assms(1) 1 S by (simp add: AttachVethToNamespace_def params_def Let_def)
  next
    case None
    obtain r2 s2 where 2: "EnterNamespace N pid s1 = (r2, s2)" by (rule prod.exhaust)
    have w: "ta_wf (acc s1)" using S by (simp add: settled_def)
    show ?thesis
    proof (cases r2)
      case (Inl x)
      have "s' = s2" using assms(1) 1 2 None Inl by (simp add: AttachVethToNamespace_def params_def Let_def)
      then show ?thesis using settled_trans [OF S] EnterNamespace_acc [OF 2 w] Inl by simp
    next
      case (Inr handles)
      obtain e3 s3 where 3: "nameInside N (peerInterfaceName hn) cn m s2 = (e3, s3)" by (rule prod.exhaust)
      have "handles = (ta_issued (acc s1), Suc (ta_issued (acc s1)))" "acc s3 = entered (acc s1)"
        using EnterNamespace_acc [OF 2 w] Inr nameInside_acc [OF 3] by simp_all
      moreover have "s' = leaveNamespace N handles s3" using assms(1) 1 2 3 None Inr by (simp add: AttachVethToNamespace_def params_def Let_def)
      ultimately show ?thesis using settled_trans [OF S leaveNamespace_acc] w by simp
    qed
  qed
qed

lemma AttachNamespaceInterface_settled:
  assumes "AttachNamespaceInterface N options s = (e, s')" "ta_wf (acc s)"
  shows "settled (acc s) (acc s')"
  using assms AttachVeth_settled PrepareExisting_acc settled_refl [OF assms(2)]
  by (auto simp: AttachNamespaceInterface_def split: if_splits)

lemma closePort_acc: "closePort en N b s = Some s' \<Longrightarrow> acc s' = acc s"
  by (auto simp: closePort_def dest: ports(2) split: bind_splits)

lemma closeObserved_acc: "closeObserved en N h obs s = Some s' \<Longrightarrow> acc s' = acc s"
  by (induction obs arbitrary: s s') (auto dest!: closePort_acc split: bind_splits obs.splits)

lemma bridgeSwitch_acc:
  "bridgeSwitch en N hn l r s = Some (x, s') \<Longrightarrow> acc s' = acc s"
  by (auto simp: bridgeSwitch_def CleanupLink_acc dest!: closeObserved_acc closePort_acc split: bind_splits option.splits)

lemma bridgePorts_acc:
  assumes "bridgePorts en N options s = Some (x, s')"
  shows "acc s' = acc s"
  using assms unfolding bridgePorts_def
  by (auto simp: CleanupLink_acc dest!: ports(1) closePort_acc bridgeSwitch_acc split: bind_splits option.splits prod.splits sum.splits)

lemma StartContainerBridge_settled:
  assumes "StartContainerBridge en N options s = Some (x, s')" "ta_wf (acc s)"
  shows "settled (acc s) (acc s')"
  using assms AttachNamespaceInterface_settled [of _ "CleanupLink N _ s"] settled_refl [OF assms(2)]
  by (auto simp: StartContainerBridge_def Let_def CleanupLink_acc dest!: bridgePorts_acc split: option.splits if_splits prod.splits)

lemma Close_acc: "ContainerBridge_Close en N b s = Some (b', s') \<Longrightarrow> acc s' = acc s"
  by (auto simp: ContainerBridge_Close_def CleanupLink_acc dest!: closeObserved_acc split: bind_splits option.splits)

end

section \<open>The ports and the switch of a bridge\<close>

text \<open>Middleware that keeps its contract leaves the identifier and the MTU of a port as they were, and
  its assertions hold.\<close>

definition wraps :: "TransportPort \<Rightarrow> BridgePort \<Rightarrow> bool" where
  "wraps p b \<longleftrightarrow> bp_base b = p \<and> port_valid p \<and> Bridge_Middleware.port_ok (bp_wrapped b) \<and> base_id (bp_wrapped b) = port_id p \<and> base_mtu (bp_wrapped b) = port_mtu p"

lemma valid_id: "port_valid p \<Longrightarrow> port_id p \<noteq> [] \<and> 0 < port_mtu p"
  by (cases p) auto

lemma wrapped_wraps:
  assumes "port_valid p" "\<forall>f. Some f \<in> set mws \<longrightarrow> port_middleware f"
  shows "\<exists>b. wrapped en p mws = Some b \<and> wraps p b"
proof -
  let ?b = "BasePort (port_id p) (port_mtu p)"
  have ok: "Bridge_Middleware.port_ok ?b" "port_id p \<noteq> []" "0 < port_mtu p" using valid_id [OF assms(1)] by simp_all
  from applyMiddleware_keeps [OF assms(2) ok(1)]
  have keep: "applyMiddleware en (port_id p) (port_mtu p) mws ?b = Some (outermost_first mws ?b)"
    "base_id (outermost_first mws ?b) = port_id p" "base_mtu (outermost_first mws ?b) = port_mtu p" "Bridge_Middleware.port_ok (outermost_first mws ?b)" for en
    by auto
  have "WrapPort en ?b mws = Some (outermost_first mws ?b)"
    using keep(1) ok by (cases en) (simp_all add: WrapPort_def applyMiddleware_release)
  then show ?thesis using keep(2-4) assms(1) by (simp add: wrapped_def wraps_def)
qed

lemma chain_ok: "Bridge_Middleware.port_ok m \<Longrightarrow> assertChain en m = Some ()"
proof (induction m)
  case (middlewarePort b rh wh)
  then show ?case using port_ok_reads [of "middlewarePort b rh wh" en] by simp
next
  case (packetLossPort b q)
  then show ?case using port_ok_reads [of "packetLossPort b q" en] by simp
qed simp

abbreviation bridge_port :: "string \<Rightarrow> int \<Rightarrow> port" where
  "bridge_port i m \<equiv> \<lparr>port_ID = i, port_MTU = m\<rparr>"

lemma wraps_asPort: "wraps p b \<Longrightarrow> asPort en b = Some (bridge_port (port_id p) (port_mtu p))"
  by (simp add: wraps_def asPort_def)

definition bridged :: "int \<Rightarrow> Switch" where
  "bridged m = (NewSwitch \<lparr>DisableUnknownUnicastFlood = False\<rparr>)
     \<lparr>ports := [(''container'', bridge_port ''container'' m), (''remote'', bridge_port ''remote'' m)], order := [''container'', ''remote'']\<rparr>"

lemmas switch_eval = mput_def NewSwitch_def assertValidLocked_def valid_def emit_def port_event_def event0_def event_ok_def Let_def

lemma attach_container:
  "0 < m \<Longrightarrow> AttachPort en (bridge_port ''container'' m) (NewSwitch \<lparr>DisableUnknownUnicastFlood = False\<rparr>) =
     Some (None, (NewSwitch \<lparr>DisableUnknownUnicastFlood = False\<rparr>)\<lparr>ports := [(''container'', bridge_port ''container'' m)], order := [''container'']\<rparr>, [])"
  by (simp add: AttachPort_def switch_eval)

lemma attach_remote:
  "0 < m \<Longrightarrow> AttachPort en (bridge_port ''remote'' m)
       ((NewSwitch \<lparr>DisableUnknownUnicastFlood = False\<rparr>)\<lparr>ports := [(''container'', bridge_port ''container'' m)], order := [''container'']\<rparr>) =
     Some (None, bridged m, [])"
  by (simp add: AttachPort_def bridged_def switch_eval)

definition bridge_running :: "int \<Rightarrow> Switch" where
  "bridge_running m = (bridged m)\<lparr>ctx := Some 0, cancel := Some 0, nextCtx := 1, started := True, readers := [(''container'', 0), (''remote'', 0)]\<rparr>"

lemma ids_sorted: "sort [''container'', ''remote''] = [''container'', ''remote'']"
  by code_simp

lemma start_bridged: "0 < m \<Longrightarrow> Start en (bridged m) = Some (bridge_running m, [])"
  using ids_sorted by (simp add: Start_def bridge_running_def bridged_def switch_eval sortedPortIDsLocked_def startReaderLocked_def)

lemma stop_running: "0 < m \<Longrightarrow> \<exists>sw. Stop en (bridge_running m) = Some (sw, [CancelledCtx 0, ClosedPort ''container'', ClosedPort ''remote''])"
  using ids_sorted by (simp add: Stop_def bridge_running_def bridged_def switch_eval sortedPortIDsLocked_def)

lemma bridgeSwitch_runs:
  assumes "wraps p l" "wraps q r" "port_id p = ''container''" "port_id q = ''remote''" "port_mtu p = m" "port_mtu q = m"
  shows "bridgeSwitch en N hn l r s = Some (Inr \<lparr>cb_switcher = bridge_running m, cb_hostIf = hn, cb_local = l, cb_remote = r\<rparr>, s)"
proof -
  have "0 < m" using assms(1,5) valid_id by (auto simp: wraps_def)
  then show ?thesis using wraps_asPort [OF assms(1)] wraps_asPort [OF assms(2)] assms(3-6)
    by (simp add: bridgeSwitch_def attach_container attach_remote start_bridged)
qed

section \<open>Accounts of the resources\<close>

text \<open>Of the resources of the transports: a start that fails leaves their counts as before, one that succeeds
  leaves one more for each of the two ports of the bridge.\<close>

definition bridge_held :: "int \<Rightarrow> resource_count \<Rightarrow> resource_count \<Rightarrow> gerror + ContainerBridge \<Rightarrow> bool" where
  "bridge_held m a b x \<longleftrightarrow> (case x of Inl _ \<Rightarrow> b = a
     | Inr br \<Rightarrow> cb_switcher br = bridge_running m \<and> 0 < m
         \<and> (\<exists>p q. wraps p (cb_local br) \<and> wraps q (cb_remote br) \<and> port_id p = ''container'' \<and> port_id q = ''remote'')
         \<and> b = bump (port_resource (bp_base (cb_local br))) 1 (bump (port_resource (bp_base (cb_remote br))) 1 a))"

locale bridge_account =
  fixes N :: "'s netops"
    and cnt :: "'s \<Rightarrow> resource_count"
  assumes keeps: "no_LinkAdd N i j m s = (r1, s') \<Longrightarrow> cnt s' = cnt s" "no_LinkByName N i s = (r2, s') \<Longrightarrow> cnt s' = cnt s"
      "no_LinkSetName N k i s = (r3, s') \<Longrightarrow> cnt s' = cnt s" "no_LinkSetMTU N k m s = (r4, s') \<Longrightarrow> cnt s' = cnt s"
      "no_LinkSetUp N k s = (r5, s') \<Longrightarrow> cnt s' = cnt s" "no_LinkSetNsFd N k h s = (r6, s') \<Longrightarrow> cnt s' = cnt s"
      "no_LinkDel N k s = (r7, s') \<Longrightarrow> cnt s' = cnt s" "no_NsGet N s = (r8, s') \<Longrightarrow> cnt s' = cnt s"
      "no_NsFromPid N pid s = (r9, s') \<Longrightarrow> cnt s' = cnt s" "no_NsSet N h s = (r10, s') \<Longrightarrow> cnt s' = cnt s"
      "no_NsClose N h s = (r11, s') \<Longrightarrow> cnt s' = cnt s"
    and pins: "cnt (no_LockOSThread N s) = cnt s" "cnt (no_UnlockOSThread N s) = cnt s"
    and opens: "openPort (no_os N) i po s = (r, s') \<Longrightarrow> cnt s' = (case r of Inl _ \<Rightarrow> cnt s | Inr p \<Rightarrow> bump (port_resource p) 1 (cnt s))"
    and closes: "tp_Close en (no_os N) p s = Some (e, s') \<Longrightarrow> cnt s' = bump (port_resource p) (- 1) (cnt s)"
begin

lemma keep_snd: "cnt (snd (no_LinkDel N k s)) = cnt s" "cnt (snd (no_NsSet N h s)) = cnt s" "cnt (snd (no_NsClose N h s)) = cnt s"
  using keeps(7,10,11) by (metis prod.collapse)+

lemma CleanupLink_cnt: "cnt (CleanupLink N i s) = cnt s"
  by (auto simp: CleanupLink_def keep_snd dest: keeps split: prod.splits sum.splits)

lemma moveAndBringUp_cnt: "moveAndBringUp N params k h s = (e, s') \<Longrightarrow> cnt s' = cnt s"
  unfolding moveAndBringUp_def by (auto dest!: keeps split: prod.splits sum.splits option.splits)

lemma movePeer_cnt: "movePeer N params s = (e, s') \<Longrightarrow> cnt s' = cnt s"
  unfolding movePeer_def by (auto simp: keep_snd dest!: keeps moveAndBringUp_cnt split: prod.splits sum.splits option.splits)

lemma SetupLink_cnt: "SetupLinkWithNames N params s = (e, s') \<Longrightarrow> cnt s' = cnt s"
  unfolding SetupLinkWithNames_def by (auto simp: pins dest!: keeps movePeer_cnt split: prod.splits option.splits)

lemma EnterNamespace_cnt: "EnterNamespace N pid s = (r, s') \<Longrightarrow> cnt s' = cnt s"
  unfolding EnterNamespace_def by (auto simp: pins keep_snd dest!: keeps split: prod.splits sum.splits option.splits)

lemma leaveNamespace_cnt: "cnt (leaveNamespace N h s) = cnt s"
  by (cases h) (simp add: leaveNamespace_def pins keep_snd)

lemma nameInside_cnt: "nameInside N p c m s = (e, s') \<Longrightarrow> cnt s' = cnt s"
  unfolding nameInside_def by (auto dest!: keeps split: prod.splits sum.splits option.splits)

lemma AttachVeth_cnt: "AttachVethToNamespace N pid hn cn m s = (e, s') \<Longrightarrow> cnt s' = cnt s"
  unfolding AttachVethToNamespace_def Let_def
  by (auto simp: leaveNamespace_cnt dest!: SetupLink_cnt EnterNamespace_cnt nameInside_cnt split: prod.splits sum.splits option.splits)

lemma PrepareExisting_cnt: "PrepareExistingInterface N h m s = (e, s') \<Longrightarrow> cnt s' = cnt s"
  unfolding PrepareExistingInterface_def by (auto dest!: keeps split: prod.splits sum.splits option.splits if_splits)

lemma Attach_cnt: "AttachNamespaceInterface N options s = (e, s') \<Longrightarrow> cnt s' = cnt s"
  by (auto simp: AttachNamespaceInterface_def dest: AttachVeth_cnt PrepareExisting_cnt split: if_splits)

lemma closePort_cnt:
  assumes "wraps p b"
  shows "\<exists>s'. closePort en N b s = Some s' \<and> cnt s' = bump (port_resource p) (- 1) (cnt s)"
proof -
  have v: "port_valid p" "bp_base b = p" using assms by (simp_all add: wraps_def)
  obtain e s' where 1: "tp_Close en (no_os N) p s = Some (e, s')" using valid_methods(5) [OF v(1), of en "no_os N" s] by (auto simp: not_None_eq)
  then show ?thesis using closes [OF 1] v(2) assms by (simp add: closePort_def wraps_def chain_ok)
qed

lemma bridgePorts_held:
  assumes m: "0 < cbo_MTU options" "cbo_HostIf options \<noteq> []"
    and mw: "\<forall>f. Some f \<in> set (cbo_LocalMiddleware options) \<union> set (cbo_RemoteMiddleware options) \<longrightarrow> port_middleware f"
  shows "\<exists>x s'. bridgePorts en N options s = Some (x, s') \<and> bridge_held (cbo_MTU options) (cnt s) (cnt s') x"
proof -
  obtain r1 s1 where 1: "openPort (no_os N) (if cbo_UsePcap options then ''pcap'' else ''raw'') (localOptions options) s = (r1, s1)" by (rule prod.exhaust)
  show ?thesis
  proof (cases r1)
    case (Inl e)
    then show ?thesis using 1 opens [OF 1] by (simp add: bridgePorts_def bridge_held_def CleanupLink_cnt)
  next
    case (Inr p)
    have p: "port_valid p" "port_id p = ''container''" "port_mtu p = cbo_MTU options"
      using openPort_as [OF 1 [unfolded Inr]] m by (auto simp: port_as_def localOptions_def)
    obtain l where l: "wrapped en p (cbo_LocalMiddleware options) = Some l" "wraps p l" using wrapped_wraps [OF p(1)] mw by blast
    obtain r2 s2 where 2: "openPort (no_os N) ''udp'' (remoteOptions options) s1 = (r2, s2)" by (rule prod.exhaust)
    show ?thesis
    proof (cases r2)
      case (Inl e)
      obtain s3 where 3: "closePort en N l s2 = Some s3" "cnt s3 = bump (port_resource p) (- 1) (cnt s2)" using closePort_cnt [OF l(2)] by blast
      then show ?thesis using 1 2 \<open>r1 = Inr p\<close> Inl l(1) opens [OF 1] opens [OF 2] by (simp add: bridgePorts_def bridge_held_def CleanupLink_cnt)
    next
      case (Inr q)
      have "\<exists>u. q = UDP u" using 2 Inr NewUDPPort_is by (auto simp: open_udp)
      then have q: "port_valid q" "port_id q = ''remote''" "port_mtu q = cbo_MTU options"
        using openPort_as [OF 2 [unfolded Inr]] m by (auto simp: port_as_def remoteOptions_def)
      obtain r where r: "wrapped en q (cbo_RemoteMiddleware options) = Some r" "wraps q r" using wrapped_wraps [OF q(1)] mw by blast
      have "bridgePorts en N options s = bridgeSwitch en N (cbo_HostIf options) l r s2"
        using 1 2 \<open>r1 = Inr p\<close> Inr l(1) r(1) by (simp add: bridgePorts_def)
      then have eq: "bridgePorts en N options s = Some (Inr \<lparr>cb_switcher = bridge_running (cbo_MTU options), cb_hostIf = cbo_HostIf options, cb_local = l, cb_remote = r\<rparr>, s2)"
        using bridgeSwitch_runs [OF l(2) r(2) p(2) q(2) p(3) q(3)] by simp
      have c: "cnt s2 = bump (port_resource p) 1 (bump (port_resource q) 1 (cnt s))"
        using opens [OF 1] opens [OF 2] \<open>r1 = Inr p\<close> Inr by (simp add: bump_commute)
      have b: "bp_base l = p" "bp_base r = q" using l(2) r(2) by (simp_all add: wraps_def)
      show ?thesis unfolding eq bridge_held_def using l(2) r(2) p q m(1) c b by auto
    qed
  qed
qed

lemma Start_held:
  assumes "bridge_ok options" "0 \<le> cbo_MTU options"
    and mw: "\<forall>f. Some f \<in> set (cbo_LocalMiddleware options) \<union> set (cbo_RemoteMiddleware options) \<longrightarrow> port_middleware f"
  shows "\<exists>x s'. StartContainerBridge en N (Some options) s = Some (x, s') \<and>
    bridge_held (if cbo_MTU options = 0 then 1500 else cbo_MTU options) (cnt s) (cnt s') x"
proof -
  define o1 where "o1 = (if cbo_MTU options = 0 then options\<lparr>cbo_MTU := 1500\<rparr> else options)"
  have o1: "0 < cbo_MTU o1" "cbo_MTU o1 = (if cbo_MTU options = 0 then 1500 else cbo_MTU options)" "cbo_HostIf o1 \<noteq> []"
    "cbo_LocalMiddleware o1 = cbo_LocalMiddleware options" "cbo_RemoteMiddleware o1 = cbo_RemoteMiddleware options"
    using assms(1,2) by (simp_all add: o1_def bridge_ok_def)
  obtain e u where 1: "AttachNamespaceInterface N \<lparr>ni_Mode = [], ni_PID = cbo_PID o1, ni_HostSideName = cbo_HostIf o1,
      ni_ContainerSideName = cbo_ContainerIf o1, ni_MTU = cbo_MTU o1\<rparr> (CleanupLink N (cbo_HostIf o1) s) = (e, u)" by (rule prod.exhaust)
  have u: "cnt u = cnt s" using Attach_cnt [OF 1] by (simp add: CleanupLink_cnt)
  have eq: "StartContainerBridge en N (Some options) s = (case e of Some err \<Rightarrow> Some (Inl err, u) | None \<Rightarrow> bridgePorts en N o1 u)"
    using 1 assms(1) by (simp add: StartContainerBridge_def o1_def [symmetric] Let_def split: option.splits)
  show ?thesis
  proof (cases e)
    case None
    then show ?thesis using bridgePorts_held [OF o1(1,3), of en u] o1 mw u eq by simp
  next
    case (Some err)
    then show ?thesis using eq u by (simp add: bridge_held_def)
  qed
qed

lemma Close_gives_back:
  assumes "bridge_held m a (cnt s) (Inr b)"
  shows "\<exists>b' s'. ContainerBridge_Close en N (Some b) s = Some (b', s') \<and> cnt s' = a"
proof -
  from assms obtain p q where pq: "wraps p (cb_local b)" "wraps q (cb_remote b)" "port_id p = ''container''" "port_id q = ''remote''"
    and m: "0 < m" "cb_switcher b = bridge_running m" and c: "cnt s = bump (port_resource (bp_base (cb_local b))) 1 (bump (port_resource (bp_base (cb_remote b))) 1 a)"
    by (auto simp: bridge_held_def)
  have b: "bp_base (cb_local b) = p" "bp_base (cb_remote b) = q" using pq by (simp_all add: wraps_def)
  obtain sw where sw: "Stop en (bridge_running m) = Some (sw, [CancelledCtx 0, ClosedPort ''container'', ClosedPort ''remote''])"
    using stop_running [OF m(1)] by blast
  have of: "portOf (cb_local b) (cb_remote b) ''container'' = cb_local b" "portOf (cb_local b) (cb_remote b) ''remote'' = cb_remote b"
    using pq by (simp_all add: portOf_def wraps_def)
  obtain s1 where s1: "closePort en N (cb_local b) s = Some s1" "cnt s1 = bump (port_resource p) (- 1) (cnt s)" using closePort_cnt [OF pq(1)] by blast
  obtain s2 where s2: "closePort en N (cb_remote b) s1 = Some s2" "cnt s2 = bump (port_resource q) (- 1) (cnt s1)" using closePort_cnt [OF pq(2)] by blast
  show ?thesis using sw m of s1 s2 b c by (simp add: ContainerBridge_Close_def CleanupLink_cnt)
qed

end

section \<open>Watched libraries\<close>

text \<open>Any libraries, watched: the accounts are kept beside their state, and the namespace handles they give
  out are numbered.\<close>

record 's watched =
  wt_host :: 's
  wt_thread :: thread_account_state
  wt_handles :: "nat list"
  wt_count :: resource_count

definition wt_part :: "'s watched \<Rightarrow> 's counted" where
  "wt_part w = \<lparr>ct_os = wt_host w, ct_count = wt_count w\<rparr>"

definition wt_put :: "'s counted \<Rightarrow> 's watched \<Rightarrow> 's watched" where
  "wt_put c w = w\<lparr>wt_host := ct_os c, wt_count := ct_count c\<rparr>"

definition kept :: "'s watched \<Rightarrow> 'r \<times> 's \<Rightarrow> 'r \<times> 's watched" where
  "kept w p = (fst p, w\<lparr>wt_host := snd p\<rparr>)"

definition nth_of :: "nat list \<Rightarrow> nat \<Rightarrow> nat" where
  "nth_of xs i = (if i < length xs then xs ! i else i)"

definition handed :: "bool \<Rightarrow> 's watched \<Rightarrow> (gerror + nat) \<times> 's \<Rightarrow> (gerror + nat) \<times> 's watched" where
  "handed home w p =
     (case p of
        (Inl e, s) \<Rightarrow> (Inl e, w\<lparr>wt_host := s\<rparr>)
      | (Inr h, s) \<Rightarrow>
          (let a = wt_thread w; i = ta_issued a in
           (Inr i, w\<lparr>wt_host := s, wt_handles := wt_handles w @ [h],
              wt_thread := (if home \<and> \<not> ta_away a then (issue a)\<lparr>ta_homes := insert i (ta_homes a)\<rparr> else issue a)\<rparr>)))"

definition watched :: "'s netops \<Rightarrow> 's watched netops" where
  "watched N = \<lparr>
     no_LinkAdd = (\<lambda>i j m w. kept w (no_LinkAdd N i j m (wt_host w))),
     no_LinkByName = (\<lambda>i w. kept w (no_LinkByName N i (wt_host w))),
     no_LinkSetName = (\<lambda>k i w. kept w (no_LinkSetName N k i (wt_host w))),
     no_LinkSetMTU = (\<lambda>k m w. kept w (no_LinkSetMTU N k m (wt_host w))),
     no_LinkSetUp = (\<lambda>k w. kept w (no_LinkSetUp N k (wt_host w))),
     no_LinkSetNsFd = (\<lambda>k h w. kept w (no_LinkSetNsFd N k (nth_of (wt_handles w) h) (wt_host w))),
     no_LinkDel = (\<lambda>k w. kept w (no_LinkDel N k (wt_host w))),
     no_NsGet = (\<lambda>w. handed True w (no_NsGet N (wt_host w))),
     no_NsFromPid = (\<lambda>pid w. handed False w (no_NsFromPid N pid (wt_host w))),
     no_NsSet = (\<lambda>h w. case no_NsSet N (nth_of (wt_handles w) h) (wt_host w) of
        (None, s) \<Rightarrow> (None, w\<lparr>wt_host := s, wt_thread := (wt_thread w)\<lparr>ta_away := (h \<notin> ta_homes (wt_thread w))\<rparr>\<rparr>)
      | (Some e, s) \<Rightarrow> (Some e, w\<lparr>wt_host := s, wt_thread := (wt_thread w)\<lparr>ta_failed := True\<rparr>\<rparr>)),
     no_NsClose = (\<lambda>h w. kept (w\<lparr>wt_thread := (wt_thread w)\<lparr>ta_open := ta_open (wt_thread w) - {h}\<rparr>\<rparr>) (no_NsClose N (nth_of (wt_handles w) h) (wt_host w))),
     no_LockOSThread = (\<lambda>w. w\<lparr>wt_host := no_LockOSThread N (wt_host w), wt_thread := (wt_thread w)\<lparr>ta_locks := ta_locks (wt_thread w) + 1\<rparr>\<rparr>),
     no_UnlockOSThread = (\<lambda>w. w\<lparr>wt_host := no_UnlockOSThread N (wt_host w),
        wt_thread := (wt_thread w)\<lparr>ta_locks := ta_locks (wt_thread w) - 1, ta_lost := (ta_lost (wt_thread w) \<or> ta_away (wt_thread w))\<rparr>\<rparr>),
     no_os = part_os wt_part wt_put (counting (no_os N))\<rparr>"

lemma handed_Pair:
  assumes "handed home w p = (r, w')"
  shows "case r of Inl _ \<Rightarrow> wt_thread w' = wt_thread w
    | Inr h \<Rightarrow> h = ta_issued (wt_thread w) \<and>
        wt_thread w' = (if home \<and> \<not> ta_away (wt_thread w) then (issue (wt_thread w))\<lparr>ta_homes := insert h (ta_homes (wt_thread w))\<rparr> else issue (wt_thread w))"
    "wt_count w' = wt_count w"
  using assms by (auto simp: handed_def Let_def split: prod.splits sum.splits)

interpretation watched_part: state_part wt_part "wt_put :: 's counted \<Rightarrow> 's watched \<Rightarrow> 's watched"
  by unfold_locales (simp_all add: wt_part_def wt_put_def)

lemma watched_open:
  assumes "openPort (no_os (watched N)) i po w = (r, w')"
  shows "wt_thread w' = wt_thread w" "wt_count w' = (case r of Inl _ \<Rightarrow> wt_count w | Inr p \<Rightarrow> bump (port_resource p) 1 (wt_count w))"
proof -
  obtain c where c: "openPort (counting (no_os N)) i po (wt_part w) = (r, c)" "w' = wt_put c w"
    using assms by (auto simp: watched_def watched_part.openPort_inpart inpart_def split: prod.splits)
  show "wt_thread w' = wt_thread w" using c(2) by (simp add: wt_put_def)
  show "wt_count w' = (case r of Inl _ \<Rightarrow> wt_count w | Inr p \<Rightarrow> bump (port_resource p) 1 (wt_count w))"
    using counting.openPort_owned [of "wt_part w" "no_os N" i po] c by (simp add: counting.owned_def wt_put_def wt_part_def split: sum.splits)
qed

lemma watched_close:
  assumes "tp_Close en (no_os (watched N)) p w = Some (e, w')"
  shows "wt_thread w' = wt_thread w" "wt_count w' = bump (port_resource p) (- 1) (wt_count w)"
proof -
  obtain c where c: "tp_Close en (counting (no_os N)) p (wt_part w) = Some (e, c)" "w' = wt_put c w"
    using assms by (auto simp: watched_def watched_part.close_inpart)
  show "wt_thread w' = wt_thread w" using c(2) by (simp add: wt_put_def)
  show "wt_count w' = bump (port_resource p) (- 1) (wt_count w)" using counting.close_cnt [OF c(1)] c(2) by (simp add: wt_put_def wt_part_def)
qed

interpretation watched_thread: thread_account "watched N" wt_thread for N
proof unfold_locales
  fix s r s' assume "no_NsGet (watched N) s = (r, s')"
  then have "handed True s (no_NsGet N (wt_host s)) = (r, s')" by (simp add: watched_def)
  from handed_Pair(1) [OF this]
  show "case r of Inl _ \<Rightarrow> wt_thread s' = wt_thread s | Inr h \<Rightarrow> h = ta_issued (wt_thread s) \<and>
    wt_thread s' = (issue (wt_thread s))\<lparr>ta_homes := (if ta_away (wt_thread s) then ta_homes (wt_thread s) else insert h (ta_homes (wt_thread s)))\<rparr>"
    by (auto simp: issue_def split: sum.splits)
next
  fix pid s r s' assume "no_NsFromPid (watched N) pid s = (r, s')"
  then have "handed False s (no_NsFromPid N pid (wt_host s)) = (r, s')" by (simp add: watched_def)
  from handed_Pair(1) [OF this]
  show "case r of Inl _ \<Rightarrow> wt_thread s' = wt_thread s | Inr h \<Rightarrow> h = ta_issued (wt_thread s) \<and> wt_thread s' = issue (wt_thread s)"
    by (simp split: sum.splits)
next
  show "openPort (no_os (watched N)) i po s = (q, s') \<Longrightarrow> wt_thread s' = wt_thread s" for i po s q s' by (rule watched_open)
  show "tp_Close en (no_os (watched N)) p s = Some (e', s') \<Longrightarrow> wt_thread s' = wt_thread s" for en p s e' s' by (rule watched_close)
qed (auto simp: watched_def kept_def split: prod.splits sum.splits option.splits)

interpretation watched_bridge: bridge_account "watched N" wt_count for N
proof unfold_locales
  show "openPort (no_os (watched N)) i po s = (r, s') \<Longrightarrow> wt_count s' = (case r of Inl _ \<Rightarrow> wt_count s | Inr p \<Rightarrow> bump (port_resource p) 1 (wt_count s))"
    for i po s r s' by (rule watched_open)
  show "tp_Close en (no_os (watched N)) p s = Some (e, s') \<Longrightarrow> wt_count s' = bump (port_resource p) (- 1) (wt_count s)" for en p s e s'
    by (rule watched_close)
qed (auto simp: watched_def kept_def dest: handed_Pair(2) split: prod.splits sum.splits option.splits)

section \<open>A host to evaluate on\<close>

text \<open>Links with their number, name and namespace; the namespace of the thread; how many descriptors were
  given out. Namespaces are their own handles. The argument is the process that has a namespace.\<close>

record demo_net =
  dn_links :: "(nat \<times> string \<times> nat) list"
  dn_next :: nat
  dn_ns :: nat
  dn_fds :: nat

definition demo_find :: "string \<Rightarrow> demo_net \<Rightarrow> gerror + nat" where
  "demo_find i s = (case [k. (k, j, n) \<leftarrow> dn_links s, j = i, n = dn_ns s] of [] \<Rightarrow> Inl (Sentinel (BridgeKind ErrLinkNotFound)) | k # _ \<Rightarrow> Inr k)"

definition demo_host :: "int \<Rightarrow> demo_net netops" where
  "demo_host alive = \<lparr>
     no_LinkAdd = (\<lambda>i j m s. (None, s\<lparr>dn_links := dn_links s @ [(dn_next s, i, dn_ns s), (Suc (dn_next s), j, dn_ns s)], dn_next := dn_next s + 2\<rparr>)),
     no_LinkByName = (\<lambda>i s. (demo_find i s, s)),
     no_LinkSetName = (\<lambda>k i s. (None, s\<lparr>dn_links := [(k', if k' = k then i else j, n). (k', j, n) \<leftarrow> dn_links s]\<rparr>)),
     no_LinkSetMTU = (\<lambda>k m s. (None, s)),
     no_LinkSetUp = (\<lambda>k s. (None, s)),
     no_LinkSetNsFd = (\<lambda>k h s. (None, s\<lparr>dn_links := [(k', j, if k' = k then h else n). (k', j, n) \<leftarrow> dn_links s]\<rparr>)),
     no_LinkDel = (\<lambda>k s. (None, s\<lparr>dn_links := [(k', j, n). (k', j, n) \<leftarrow> dn_links s, k' \<noteq> k]\<rparr>)),
     no_NsGet = (\<lambda>s. (Inr (dn_ns s), s)),
     no_NsFromPid = (\<lambda>pid s. (if pid = alive then Inr 1 else Inl (Sentinel (BridgeKind ErrNamespaceFailed)), s)),
     no_NsSet = (\<lambda>h s. (None, s\<lparr>dn_ns := h\<rparr>)),
     no_NsClose = (\<lambda>h s. (None, s)),
     no_LockOSThread = (\<lambda>s. s),
     no_UnlockOSThread = (\<lambda>s. s),
     no_os = part_os dn_fds (\<lambda>n s. s\<lparr>dn_fds := n\<rparr>) idle_os\<rparr>"

interpretation demo_fds: state_part dn_fds "\<lambda>n s. s\<lparr>dn_fds := n\<rparr>"
  by unfold_locales simp_all

definition demo_start :: demo_net where
  "demo_start = \<lparr>dn_links = [], dn_next = 1, dn_ns = 0, dn_fds = 3\<rparr>"

definition demo_watched :: "demo_net watched" where
  "demo_watched = \<lparr>wt_host = demo_start,
     wt_thread = \<lparr>ta_locks = 0, ta_open = {}, ta_issued = 0, ta_homes = {}, ta_away = False, ta_failed = False, ta_lost = False\<rparr>,
     wt_handles = [], wt_count = (\<lambda>_. 0)\<rparr>"

definition demo_options :: ContainerBridgeOptions where
  "demo_options = \<lparr>cbo_PID = 7, cbo_HostIf = ''tx0'', cbo_ContainerIf = ''eth0'', cbo_Listen = '':4789'', cbo_Remote = ''10.0.0.2:4789'',
     cbo_MTU = 0, cbo_UsePcap = False, cbo_Immediate = False, cbo_LocalMiddleware = [Some (Latency 5)], cbo_RemoteMiddleware = [None]\<rparr>"

lemma demo_options_ok:
  "bridge_ok demo_options" "0 \<le> cbo_MTU demo_options"
  "\<forall>f. Some f \<in> set (cbo_LocalMiddleware demo_options) \<union> set (cbo_RemoteMiddleware demo_options) \<longrightarrow> port_middleware f"
  using latency.port_middleware_axioms by (auto simp: demo_options_def bridge_ok_def)

section \<open>Properties\<close>

text \<open>C39: Whatever the libraries answer, starting the bridge of a container leaves the goroutine pinned to
  its thread as often as before and the same namespace handles open, on every path. The thread is in a
  foreign namespace afterwards, or was unpinned while in one, only if a switch of namespaces failed.\<close>

theorem bridge_start_restores_thread:
  assumes "StartContainerBridge en (watched N) options w = Some (x, w')" "ta_wf (wt_thread w)"
    and "\<not> ta_away (wt_thread w)" "\<not> ta_lost (wt_thread w)" "\<not> ta_failed (wt_thread w)"
  shows "ta_locks (wt_thread w') = ta_locks (wt_thread w) \<and> ta_open (wt_thread w') = ta_open (wt_thread w)
    \<and> (ta_away (wt_thread w') \<or> ta_lost (wt_thread w') \<longrightarrow> ta_failed (wt_thread w'))"
  using watched_thread.StartContainerBridge_settled [OF assms(1,2)] assms(3-5) by (auto simp: settled_def)

theorem bridge_start_restores_thread_witness:
  "\<exists>x w'. StartContainerBridge True (watched (demo_host 7)) (Some demo_options) demo_watched = Some (x, w')
     \<and> ta_locks (wt_thread w') = 0 \<and> ta_open (wt_thread w') = {}"
proof -
  have "ta_wf (wt_thread demo_watched)" by (simp add: ta_wf_def demo_watched_def)
  moreover obtain x w' where 1: "StartContainerBridge True (watched (demo_host 7)) (Some demo_options) demo_watched = Some (x, w')"
    using watched_bridge.Start_held [OF demo_options_ok] by blast
  ultimately show ?thesis using bridge_start_restores_thread [OF 1] by (simp add: demo_watched_def)
qed

text \<open>C40: With complete options, middleware that keeps its contract and an MTU that is not negative, starting
  the bridge of a container fails no assertion. When it reports an error, every socket and handle it opened
  is closed again; when it succeeds, one more is open for each of its two ports, and closing the bridge
  fails no assertion and gives both back. (That the readers of the switch end when their ports are closed
  is taken for granted.)\<close>

theorem bridge_gives_sockets_back:
  assumes "bridge_ok options" "0 \<le> cbo_MTU options"
    and "\<forall>f. Some f \<in> set (cbo_LocalMiddleware options) \<union> set (cbo_RemoteMiddleware options) \<longrightarrow> port_middleware f"
  shows "\<exists>x w'. StartContainerBridge en (watched N) (Some options) w = Some (x, w') \<and>
    (case x of Inl _ \<Rightarrow> wt_count w' = wt_count w
     | Inr b \<Rightarrow> wt_count w' = bump (port_resource (bp_base (cb_local b))) 1 (bump (port_resource (bp_base (cb_remote b))) 1 (wt_count w))
         \<and> (\<exists>b' w''. ContainerBridge_Close en (watched N) (Some b) w' = Some (b', w'') \<and> wt_count w'' = wt_count w))"
proof -
  let ?m = "if cbo_MTU options = 0 then 1500 else cbo_MTU options"
  obtain x w' where 1: "StartContainerBridge en (watched N) (Some options) w = Some (x, w')" "bridge_held ?m (wt_count w) (wt_count w') x"
    using watched_bridge.Start_held [OF assms] by blast
  show ?thesis
  proof (cases x)
    case (Inl e)
    then show ?thesis using 1 by (simp add: bridge_held_def)
  next
    case (Inr b)
    then show ?thesis using 1 watched_bridge.Close_gives_back [OF 1(2) [unfolded Inr], of en N] by (simp add: bridge_held_def)
  qed
qed

theorem bridge_gives_sockets_back_witness:
  "\<exists>b w'. StartContainerBridge True (watched (demo_host 7)) (Some demo_options) demo_watched = Some (Inr b, w')
     \<and> dn_links (wt_host w') = [(1, ''tx0'', 0), (2, ''eth0'', 1)] \<and> wt_count w' (Fd 3) = 1 \<and> wt_count w' (Conn 4) = 1
     \<and> (\<exists>b' w''. ContainerBridge_Close True (watched (demo_host 7)) (Some b) w' = Some (b', w'') \<and> wt_count w'' (Fd 3) = 0 \<and> wt_count w'' (Conn 4) = 0)"
proof -
  let ?N = "watched (demo_host 7)"
  let ?run = "StartContainerBridge True ?N (Some demo_options) demo_watched"
  define o1 where "o1 = demo_options\<lparr>cbo_MTU := 1500\<rparr>"
  let ?p = "Raw \<lparr>raw_id = ''container'', raw_mtu = 1500, raw_fd = 3, raw_ifName = ''tx0''\<rparr>"
  let ?q = "UDP \<lparr>udp_id = ''remote'', udp_mtu = 1500, udp_conn = 4, udp_remoteAddr = ''10.0.0.2:4789''\<rparr>"
  have "\<exists>u. AttachNamespaceInterface ?N \<lparr>ni_Mode = [], ni_PID = 7, ni_HostSideName = ''tx0'', ni_ContainerSideName = ''eth0'', ni_MTU = 1500\<rparr>
      (CleanupLink ?N ''tx0'' demo_watched) = (None, u)
    \<and> dn_links (wt_host u) = [(1, ''tx0'', 0), (2, ''eth0'', 1)] \<and> dn_fds (wt_host u) = 3 \<and> wt_count u = (\<lambda>_. 0)"
    by (simp add: AttachNamespaceInterface_def AttachVethToNamespace_def SetupLinkWithNames_def movePeer_def
      moveAndBringUp_def EnterNamespace_def nameInside_def leaveNamespace_def CleanupLink_def peerInterfaceName_def Let_def
      demo_watched_def demo_start_def watched_def demo_host_def kept_def handed_def demo_find_def nth_of_def issue_def)
  then obtain u where u: "AttachNamespaceInterface ?N \<lparr>ni_Mode = [], ni_PID = 7, ni_HostSideName = ''tx0'', ni_ContainerSideName = ''eth0'', ni_MTU = 1500\<rparr>
      (CleanupLink ?N ''tx0'' demo_watched) = (None, u)"
    "dn_links (wt_host u) = [(1, ''tx0'', 0), (2, ''eth0'', 1)]" "dn_fds (wt_host u) = 3" "wt_count u = (\<lambda>_. 0)" by blast
  have run: "?run = bridgePorts True ?N o1 u"
    using u(1) by (simp add: StartContainerBridge_def demo_options_def bridge_ok_def o1_def Let_def)
  note os = watched_def demo_host_def watched_part.openPort_inpart inpart_def counting_def same_def took_def part_os_def idle_os_def wt_part_def wt_put_def
    openPort_def Registry_Get_def init_registry_def RegisterPortFactory_def builtin_def localOptions_def remoteOptions_def o1_def demo_options_def
  obtain u1 where u1: "openPort (no_os ?N) ''raw'' (localOptions o1) u = (Inr ?p, u1)" "dn_links (wt_host u1) = dn_links (wt_host u)" "dn_fds (wt_host u1) = 4"
    using u(3) by (simp add: os NewRawSocketPort_def)
  obtain u2 where u2: "openPort (no_os ?N) ''udp'' (remoteOptions o1) u1 = (Inr ?q, u2)" "dn_links (wt_host u2) = dn_links (wt_host u)"
    using u1(2,3) by (simp add: os NewUDPPort_def resolveLocal_def)
  obtain l where l: "wrapped True ?p (cbo_LocalMiddleware o1) = Some l" "wraps ?p l"
    using wrapped_wraps [of ?p "cbo_LocalMiddleware demo_options" True] demo_options_ok(3) by (auto simp: o1_def)
  obtain r where r: "wrapped True ?q (cbo_RemoteMiddleware o1) = Some r" "wraps ?q r"
    using wrapped_wraps [of ?q "cbo_RemoteMiddleware demo_options" True] demo_options_ok(3) by (auto simp: o1_def)
  define b where "b = \<lparr>cb_switcher = bridge_running 1500, cb_hostIf = ''tx0'', cb_local = l, cb_remote = r\<rparr>"
  have "bridgeSwitch True ?N ''tx0'' l r u2 = Some (Inr b, u2)" unfolding b_def by (rule bridgeSwitch_runs [OF l(2) r(2)]) simp_all
  then have b: "?run = Some (Inr b, u2)"
    using run u1(1) u2(1) l(1) r(1) by (simp add: bridgePorts_def) (simp add: o1_def demo_options_def)
  have base: "bp_base (cb_local b) = ?p" "bp_base (cb_remote b) = ?q" using l(2) r(2) by (simp_all add: wraps_def b_def)
  show ?thesis
    using bridge_gives_sockets_back [OF demo_options_ok, of True "demo_host 7" demo_watched] b base u(2) u2(2) by (auto simp: demo_watched_def bump_def)
qed

text \<open>When the namespace of the process cannot be found after the veth pair was made, starting the bridge of
  a container fails and does nothing more than unpin the goroutine: the pair stays on the host.\<close>

theorem failed_attach_leaves_pair:
  assumes "bridge_ok options" "cbo_MTU options \<noteq> 0"
    and "no_LinkAdd N (cbo_HostIf options) (peerInterfaceName (cbo_HostIf options)) (cbo_MTU options)
      (no_LockOSThread N (CleanupLink N (cbo_HostIf options) s)) = (None, s1)"
    and "no_LinkByName N (peerInterfaceName (cbo_HostIf options)) s1 = (Inr k, s2)"
    and "no_LinkSetMTU N k (cbo_MTU options) s2 = (None, s3)"
    and "no_NsFromPid N (cbo_PID options) s3 = (Inl e, s4)"
  shows "StartContainerBridge en N (Some options) s =
    Some (Inl (bridge_Wrap ''get process namespace'' ErrNamespaceFailed (show_int (cbo_PID options)) (Some e)), no_UnlockOSThread N s4)"
  using assms
  by (simp add: StartContainerBridge_def AttachNamespaceInterface_def AttachVethToNamespace_def SetupLinkWithNames_def movePeer_def)

theorem failed_attach_leaves_pair_witness:
  "\<exists>e s'. StartContainerBridge True (demo_host 8) (Some (demo_options\<lparr>cbo_MTU := 1500\<rparr>)) demo_start = Some (Inl e, s')
     \<and> dn_links s' = [(1, ''tx0'', 0), (2, ''ptx0'', 0)]"
  using failed_attach_leaves_pair [of "demo_options\<lparr>cbo_MTU := 1500\<rparr>" "demo_host 8" demo_start
      "demo_start\<lparr>dn_links := [(1, ''tx0'', 0), (2, ''ptx0'', 0)], dn_next := 3\<rparr>" 2]
  by (simp add: demo_host_def demo_options_def demo_start_def bridge_ok_def peerInterfaceName_def CleanupLink_def demo_find_def Let_def)

end
