(* ===== verification/CI_Workflow.thy ===== *)
theory CI_Workflow
  imports Errors Storage_Local
begin

text \<open>
  The workflow engine of the test automation (\<open>internal/ci/framework.go\<close>, \<open>registry.go\<close>, \<open>remote.go\<close>,
  \<open>workflows.go\<close>). Processes, files, the clock and the environment are the functions of the record \<open>ros\<close> over
  a state \<open>'s\<close>. What the runner prints is the list of notices it returns; the text of the output of a
  command is known to it only where the code buffers it. Times are numbers, 0 the zero time; the deadline of
  a step is an argument of the command it bounds.
\<close>

section \<open>Errors and strings\<close>

datatype ci_error =
    CIMsg string
  | CIWrap string ci_error
  | CIJoin "ci_error list"
  | ExitError int
  | External gerror

fun ci_text :: "ci_error \<Rightarrow> string" where
  "ci_text (CIMsg m) = m"
| "ci_text (CIWrap m e) = m @ '': '' @ ci_text e"
| "ci_text (CIJoin es) = joinSep [CHR 0x0A] (map ci_text es)"
| "ci_text (ExitError n) = ''exit status '' @ show_int n"
| "ci_text (External e) = error_string e"

definition ci_Join :: "ci_error option list \<Rightarrow> ci_error option" where
  "ci_Join es = (case List.map_filter id es of [] \<Rightarrow> None | x # xs \<Rightarrow> Some (CIJoin (x # xs)))"

text \<open>\<open>errors.As\<close> for the exit error of a process.\<close>

fun asExit :: "ci_error \<Rightarrow> int option" where
  "asExit (CIMsg m) = None"
| "asExit (CIWrap m e) = asExit e"
| "asExit (CIJoin es) = (case List.map_filter id (map asExit es) of [] \<Rightarrow> None | n # _ \<Rightarrow> Some n)"
| "asExit (ExitError n) = Some n"
| "asExit (External e) = None"

definition quoted :: "string \<Rightarrow> string" where
  "quoted v = [CHR 0x22] @ v @ [CHR 0x22]"

definition is_space :: "char \<Rightarrow> bool" where
  "is_space c \<longleftrightarrow> c \<in> {CHR '' '', CHR 0x09, CHR 0x0A, CHR 0x0B, CHR 0x0C, CHR 0x0D}"

definition TrimSpace :: "string \<Rightarrow> string" where
  "TrimSpace v = rev (dropWhile is_space (rev (dropWhile is_space v)))"

definition HasPrefix :: "string \<Rightarrow> string \<Rightarrow> bool" where
  "HasPrefix v p \<longleftrightarrow> take (length p) v = p"

text \<open>\<open>filepath.Dir\<close> and \<open>filepath.Join\<close>.\<close>

definition path_Dir :: "string \<Rightarrow> string" where
  "path_Dir p = path_Clean (rev (dropWhile (\<lambda>c. c \<noteq> CHR ''/'') (rev p)))"

definition path_Join :: "string list \<Rightarrow> string" where
  "path_Join ps = (case filter (\<lambda>p. p \<noteq> '''') ps of [] \<Rightarrow> '''' | ps \<Rightarrow> path_Clean (joinSep ''/'' ps))"

section \<open>Workflows\<close>

type_synonym Privilege = string

record Output =
  out_Name :: string
  out_Path :: string
  out_Kind :: string

record Step =
  st_Name :: string
  st_Command :: string
  st_Args :: "string list"
  st_Env :: "(string, string) gomap"
  st_Dir :: string
  st_DependsOn :: "string list"
  st_Privilege :: Privilege
  st_Outputs :: "Output list"
  st_CaptureStdout :: string
  st_RequireEmptyStdout :: bool
  st_Timeout :: int
  st_Always :: bool
  st_AllowedExitCodes :: "int list"

record ArchiveMetadata =
  am_Workflow :: string
  am_DeviceID :: string
  am_Runtime :: string

record Workflow =
  wf_Name :: string
  wf_Description :: string
  wf_Steps :: "Step list"
  wf_Labels :: "(string, string) gomap"
  wf_Archive :: ArchiveMetadata
  wf_ContinueOnError :: bool

record StepResult =
  sr_Name :: string
  sr_StartedAt :: int
  sr_FinishedAt :: int
  sr_Duration :: int
  sr_ExitCode :: int
  sr_Error :: string
  sr_Outputs :: "Output list"

record WorkflowResult =
  wr_Name :: string
  wr_StartedAt :: int
  wr_FinishedAt :: int
  wr_Steps :: "StepResult list"

record Runner =
  rn_DryRun :: bool
  rn_BaseEnv :: "(string, string) gomap"

section \<open>Validation\<close>

text \<open>The names of the steps, or the first step that is incomplete or repeats a name.\<close>

fun stepNames :: "Step list \<Rightarrow> string list \<Rightarrow> ci_error + string list" where
  "stepNames [] names = Inr names"
| "stepNames (st # steps) names =
     (if st_Name st = '''' \<or> st_Command st = '''' then Inl (CIMsg ''every workflow step requires a name and command'')
      else if st_Name st \<in> set names then Inl (CIMsg (''duplicate step '' @ quoted (st_Name st)))
      else stepNames steps (names @ [st_Name st]))"

fun checkDependencies :: "string \<Rightarrow> string list \<Rightarrow> string list \<Rightarrow> ci_error option" where
  "checkDependencies i names [] = None"
| "checkDependencies i names (d # ds) =
     (if d \<notin> set names then Some (CIMsg (''step '' @ quoted i @ '' depends on unknown step '' @ quoted d))
      else if d = i then Some (CIMsg (''step '' @ quoted i @ '' depends on itself''))
      else checkDependencies i names ds)"

fun checkSteps :: "Step list \<Rightarrow> string list \<Rightarrow> ci_error option" where
  "checkSteps [] names = None"
| "checkSteps (st # steps) names =
     (case checkDependencies (st_Name st) names (st_DependsOn st) of
        Some err \<Rightarrow> Some err
      | None \<Rightarrow> checkSteps steps names)"

definition byName :: "Step list \<Rightarrow> string \<Rightarrow> string list" where
  "byName steps i = (case mget (rev (map (\<lambda>st. (st_Name st, st)) steps)) i of None \<Rightarrow> [] | Some st \<Rightarrow> st_DependsOn st)"

text \<open>The search for cycles. The maps \<open>visiting\<close> and \<open>visited\<close> are the lists of the names they hold true
  for; the first argument bounds the depth of the calls, and \<open>None\<close> is a search that exceeds it.\<close>

type_synonym marks = "string list \<times> string list"

fun visit :: "nat \<Rightarrow> (string \<Rightarrow> string list) \<Rightarrow> string \<Rightarrow> marks \<Rightarrow> (ci_error + marks) option"
  and visitDependencies :: "nat \<Rightarrow> (string \<Rightarrow> string list) \<Rightarrow> string list \<Rightarrow> marks \<Rightarrow> (ci_error + marks) option" where
  "visit 0 dep i m = None"
| "visit (Suc n) dep i m =
     (if i \<in> set (fst m) then Some (Inl (CIMsg (''workflow contains a dependency cycle at '' @ quoted i)))
      else if i \<in> set (snd m) then Some (Inr m)
      else case visitDependencies n dep (dep i) (i # fst m, snd m) of
        None \<Rightarrow> None
      | Some (Inl err) \<Rightarrow> Some (Inl err)
      | Some (Inr m) \<Rightarrow> Some (Inr (removeAll i (fst m), i # snd m)))"
| "visitDependencies n dep [] m = Some (Inr m)"
| "visitDependencies n dep (d # ds) m =
     (case visit n dep d m of
        None \<Rightarrow> None
      | Some (Inl err) \<Rightarrow> Some (Inl err)
      | Some (Inr m) \<Rightarrow> visitDependencies n dep ds m)"

text \<open>Go visits the names in an order of its own; \<open>order\<close> is that order of the names.\<close>

definition ValidateWorkflow :: "(string list \<Rightarrow> string list) \<Rightarrow> Workflow \<Rightarrow> ci_error option option" where
  "ValidateWorkflow order w =
     (if wf_Name w = '''' then Some (Some (CIMsg ''workflow name is required''))
      else case stepNames (wf_Steps w) [] of
        Inl err \<Rightarrow> Some (Some err)
      | Inr names \<Rightarrow>
          (case checkSteps (wf_Steps w) names of
             Some err \<Rightarrow> Some (Some err)
           | None \<Rightarrow>
               (case visitDependencies (Suc (length names)) (byName (wf_Steps w)) (order names) ([], []) of
                  None \<Rightarrow> None
                | Some (Inl err) \<Rightarrow> Some (Some err)
                | Some (Inr _) \<Rightarrow> Some None)))"

section \<open>Running a step\<close>

datatype writer = RunnerStdout | BufferWriter | CaptureFile nat

record command =
  cmd_Name :: string
  cmd_Args :: "string list"
  cmd_Dir :: string
  cmd_Env :: "string list"
  cmd_Stdout :: "writer list"
  cmd_Timeout :: int

text \<open>How a command ended: its error, what it wrote to its standard output, and whether its context had
  ended by then.\<close>

record command_end =
  ce_Err :: "ci_error option"
  ce_Stdout :: string
  ce_CtxErr :: "ci_error option"

record 's ros =
  ro_Now :: "'s \<Rightarrow> int \<times> 's"
  ro_Environ :: "'s \<Rightarrow> string list"
  ro_Getenv :: "string \<Rightarrow> 's \<Rightarrow> string"
  ro_Geteuid :: "'s \<Rightarrow> int"
  ro_MkdirAll :: "string \<Rightarrow> 's \<Rightarrow> ci_error option \<times> 's"
  ro_OpenFile :: "string \<Rightarrow> 's \<Rightarrow> (ci_error + nat) \<times> 's"
  ro_CloseFile :: "nat \<Rightarrow> 's \<Rightarrow> ci_error option \<times> 's"
  ro_Run :: "command \<Rightarrow> 's \<Rightarrow> command_end \<times> 's"
  ro_Stat :: "string \<Rightarrow> 's \<Rightarrow> (ci_error + bool) \<times> 's"

datatype notice =
    RootRequired string
  | NoPasswordlessSudo string
  | Running string string "string list"
  | PLAN string
  | FAIL string int ci_error
  | PASS string
  | SKIP string

definition IsCI :: "'s ros \<Rightarrow> 's \<Rightarrow> bool" where
  "IsCI O' s \<longleftrightarrow> ro_Getenv O' ''TETHUX_CI_RUNNER'' s = ''1''"

definition cutEquals :: "string \<Rightarrow> (string \<times> string) option" where
  "cutEquals entry =
     (if CHR ''='' \<in> set entry
      then Some (takeWhile (\<lambda>c. c \<noteq> CHR ''='') entry, tl (dropWhile (\<lambda>c. c \<noteq> CHR ''='') entry)) else None)"

fun environMap :: "string list \<Rightarrow> (string, string) gomap \<Rightarrow> (string, string) gomap" where
  "environMap [] values = values"
| "environMap (entry # entries) values =
     environMap entries (case cutEquals entry of None \<Rightarrow> values | Some (key, v) \<Rightarrow> mput key v values)"

fun overlayMap :: "(string, string) gomap \<Rightarrow> (string, string) gomap \<Rightarrow> (string, string) gomap" where
  "overlayMap [] values = values"
| "overlayMap ((key, v) # rest) values = overlayMap rest (mput key v values)"

definition mergedEnvironment :: "string list \<Rightarrow> (string, string) gomap \<Rightarrow> (string, string) gomap \<Rightarrow> string list" where
  "mergedEnvironment environ base overlay =
     (let values = overlayMap overlay (overlayMap base (environMap environ [])) in
      map (\<lambda>key. key @ ''='' @ (case mget values key of None \<Rightarrow> '''' | Some v \<Rightarrow> v)) (sort (mkeys values)))"

definition rootVariables :: "string list" where
  "rootVariables = [''PATH'', ''CGO_ENABLED'', ''CGO_CFLAGS'', ''CGO_LDFLAGS'', ''LD_LIBRARY_PATH'', ''PKG_CONFIG_PATH'', ''TETHUX_RUN_ID'',
     ''TETHUX_LIBVIRT_IMAGE'', ''TETHUX_CI_RUNNER'']"

fun passOn :: "string list \<Rightarrow> string list \<Rightarrow> string list" where
  "passOn [] environment = []"
| "passOn (name # names) environment =
     (case filter (\<lambda>v. HasPrefix v (name @ ''='')) environment of [] \<Rightarrow> [] | v # _ \<Rightarrow> [v]) @ passOn names environment"

definition rootCommandArgs :: "string \<Rightarrow> string list \<Rightarrow> string list \<Rightarrow> string list" where
  "rootCommandArgs cmd args environment = [''-n'', ''env''] @ passOn rootVariables environment @ [cmd] @ args"

definition privilegedCommandArgs :: "string \<Rightarrow> string list \<Rightarrow> string list \<Rightarrow> string list" where
  "privilegedCommandArgs cmd args environment = filter (\<lambda>v. v \<noteq> ''-n'') (rootCommandArgs cmd args environment)"

definition plain_char :: "char \<Rightarrow> bool" where
  "plain_char c \<longleftrightarrow> (CHR ''a'' \<le> c \<and> c \<le> CHR ''z'') \<or> (CHR ''A'' \<le> c \<and> c \<le> CHR ''Z'') \<or> (CHR ''0'' \<le> c \<and> c \<le> CHR ''9'') \<or> c \<in> set ''_@%+=:,./-''"

definition sq :: char where
  "sq = CHR 0x27"

definition dq :: char where
  "dq = CHR 0x22"

definition shellQuote :: "string \<Rightarrow> string" where
  "shellQuote v =
     (if v \<noteq> '''' \<and> list_all plain_char v then v
      else [sq] @ concat (map (\<lambda>c. if c = sq then [sq, dq, sq, dq, sq] else [c]) v) @ [sq])"

definition rootCopyCommand :: "string \<Rightarrow> string \<Rightarrow> string list \<Rightarrow> string list \<Rightarrow> string" where
  "rootCopyCommand dir cmd args environment =
     joinSep '' '' ((if dir \<noteq> '''' then [''cd'', shellQuote dir, ''&&''] else []) @ [''sudo''] @ map shellQuote (privilegedCommandArgs cmd args environment))"

text \<open>The command of a step as it is run, or the error where it would need root privileges it cannot get.\<close>

definition elevate :: "'s ros \<Rightarrow> Runner \<Rightarrow> Step \<Rightarrow> string list \<Rightarrow> 's \<Rightarrow> (string \<times> notice list + string \<times> string list) \<times> 's" where
  "elevate O' r st environment s =
     (if st_Privilege st = ''root'' \<and> ro_Geteuid O' s \<noteq> 0 \<and> \<not> rn_DryRun r then
        if \<not> IsCI O' s then
          (Inl (''root privileges required'', [RootRequired (rootCopyCommand (st_Dir st) (st_Command st) (st_Args st) environment)]), s)
        else
          (case ro_Run O' \<lparr>cmd_Name = ''sudo'', cmd_Args = [''-n'', ''true''], cmd_Dir = '''', cmd_Env = [], cmd_Stdout = [], cmd_Timeout = st_Timeout st\<rparr> s of
             (e, s) \<Rightarrow>
               if ce_Err e \<noteq> None then
                 (Inl (''CI runner lacks passwordless sudo'', [NoPasswordlessSudo (rootCopyCommand (st_Dir st) (st_Command st) (st_Args st) environment)]), s)
               else (Inr (''sudo'', rootCommandArgs (st_Command st) (st_Args st) environment), s))
      else (Inr (st_Command st, st_Args st), s))"

text \<open>Where the standard output of a step goes. Opening the capture file replaces what was set up before.\<close>

definition stepStdout :: "'s ros \<Rightarrow> Step \<Rightarrow> 's \<Rightarrow> (ci_error + writer list \<times> nat option) \<times> 's" where
  "stepStdout O' st s =
     (let stdout = (if st_RequireEmptyStdout st then [RunnerStdout, BufferWriter] else [RunnerStdout]) in
      if st_CaptureStdout st \<noteq> '''' then
        (case ro_MkdirAll O' (path_Dir (st_CaptureStdout st)) s of
           (Some err, s) \<Rightarrow> (Inl (CIWrap ''create captured output directory'' err), s)
         | (None, s) \<Rightarrow>
             (case ro_OpenFile O' (st_CaptureStdout st) s of
                (Inl err, s) \<Rightarrow> (Inl (CIWrap ''open captured output'' err), s)
              | (Inr capture, s) \<Rightarrow> (Inr ([RunnerStdout, CaptureFile capture], Some capture), s)))
      else (Inr (stdout, None), s))"

text \<open>The result of a step whose command has ended with \<open>err\<close>.\<close>

definition judgeStep :: "Step \<Rightarrow> string \<Rightarrow> ci_error option \<Rightarrow> ci_error option \<Rightarrow> StepResult \<Rightarrow> StepResult \<times> ci_error option" where
  "judgeStep st buffer err ctxErr result =
     (let outputContractFailed = (err = None \<and> st_RequireEmptyStdout st \<and> TrimSpace buffer \<noteq> '''');
          err = (if outputContractFailed then Some (CIMsg (''command produced output:'' @ [CHR 0x0A] @ TrimSpace buffer)) else err) in
      case err of
        None \<Rightarrow> (result, None)
      | Some err \<Rightarrow>
          if outputContractFailed then (result\<lparr>sr_Error := ci_text err\<rparr>, Some err)
          else
            let result = result\<lparr>sr_ExitCode := (case asExit err of None \<Rightarrow> 1 | Some n \<Rightarrow> n)\<rparr> in
            (case ctxErr of
               Some e \<Rightarrow> (result\<lparr>sr_Error := ci_text e\<rparr>, Some e)
             | None \<Rightarrow>
                 if asExit err \<noteq> None \<and> sr_ExitCode result \<in> set (st_AllowedExitCodes st) then (result, None)
                 else (result\<lparr>sr_Error := ci_text err\<rparr>, Some err)))"

definition RunStep :: "'s ros \<Rightarrow> Runner \<Rightarrow> Step \<Rightarrow> 's \<Rightarrow> (StepResult \<times> ci_error option \<times> notice list) \<times> 's" where
  "RunStep O' r st s =
     (case ro_Now O' s of
        (started, s) \<Rightarrow>
          let result = \<lparr>sr_Name = st_Name st, sr_StartedAt = started, sr_FinishedAt = 0, sr_Duration = 0, sr_ExitCode = 0, sr_Error = '''', sr_Outputs = st_Outputs st\<rparr>;
              environment = mergedEnvironment (ro_Environ O' s) (rn_BaseEnv r) (st_Env st) in
          (case elevate O' r st environment s of
             (Inl (msg, ns), s) \<Rightarrow>
               (case ro_Now O' s of
                  (finished, s) \<Rightarrow>
                    ((result\<lparr>sr_FinishedAt := finished, sr_ExitCode := 1, sr_Error := msg\<rparr>,
                      Some (CIMsg (if msg = ''root privileges required'' then ''root privileges required; copy the command printed above'' else msg)), ns), s))
           | (Inr (cmd, args), s) \<Rightarrow>
               let ns = [Running (st_Name st) cmd args] in
               if rn_DryRun r then (case ro_Now O' s of (finished, s) \<Rightarrow> ((result\<lparr>sr_FinishedAt := finished\<rparr>, None, ns), s))
               else
                 (case stepStdout O' st s of
                    (Inl err, s) \<Rightarrow> ((result, Some err, ns), s)
                  | (Inr (stdout, capture), s) \<Rightarrow>
                      (case ro_Run O' \<lparr>cmd_Name = cmd, cmd_Args = args, cmd_Dir = st_Dir st, cmd_Env = environment, cmd_Stdout = stdout, cmd_Timeout = st_Timeout st\<rparr> s of
                         (e, s) \<Rightarrow>
                           (case (case capture of None \<Rightarrow> (ce_Err e, s)
                                  | Some h \<Rightarrow> (case ro_CloseFile O' h s of (closeErr, s) \<Rightarrow> (ci_Join [ce_Err e, closeErr], s))) of
                              (err, s) \<Rightarrow>
                                (case ro_Now O' s of
                                   (finished, s) \<Rightarrow>
                                     (case judgeStep st (if BufferWriter \<in> set stdout then ce_Stdout e else '''') err (ce_CtxErr e)
                                         (result\<lparr>sr_FinishedAt := finished, sr_Duration := finished - started\<rparr>) of
                                        (result, err) \<Rightarrow> ((result, err, ns), s))))))))"

section \<open>Running a workflow\<close>

definition dependenciesComplete :: "string list \<Rightarrow> (string, StepResult) gomap \<Rightarrow> bool" where
  "dependenciesComplete ds completed \<longleftrightarrow> list_all (\<lambda>d. mget completed d \<noteq> None) ds"

record 's progress =
  pg_completed :: "(string, StepResult) gomap"
  pg_steps :: "StepResult list"
  pg_err :: "ci_error option"
  pg_log :: "notice list"
  pg_os :: 's

definition skipStep :: "'s ros \<Rightarrow> Step \<Rightarrow> 's progress \<Rightarrow> 's progress" where
  "skipStep O' st p =
     (case ro_Now O' (pg_os p) of
        (started, s) \<Rightarrow>
          (case ro_Now O' s of
             (finished, s) \<Rightarrow>
               let skipped = \<lparr>sr_Name = st_Name st, sr_StartedAt = started, sr_FinishedAt = finished, sr_Duration = 0, sr_ExitCode = -1,
                     sr_Error = ''skipped after previous failure'', sr_Outputs = []\<rparr> in
               p\<lparr>pg_completed := mput (st_Name st) skipped (pg_completed p), pg_steps := pg_steps p @ [skipped], pg_log := pg_log p @ [SKIP (st_Name st)], pg_os := s\<rparr>))"

definition takeStep :: "'s ros \<Rightarrow> Runner \<Rightarrow> Step \<Rightarrow> 's progress \<Rightarrow> 's progress" where
  "takeStep O' r st p =
     (case RunStep O' r st (pg_os p) of
        ((result, err, ns), s) \<Rightarrow>
          p\<lparr>pg_completed := mput (st_Name st) result (pg_completed p), pg_steps := pg_steps p @ [result],
            pg_log := pg_log p @ ns @ [if rn_DryRun r then PLAN (st_Name st) else case err of Some e \<Rightarrow> FAIL (st_Name st) (sr_ExitCode result) e | None \<Rightarrow> PASS (st_Name st)],
            pg_err := (case err of Some e \<Rightarrow> if pg_err p = None then Some (CIWrap (''step '' @ st_Name st) e) else pg_err p | None \<Rightarrow> pg_err p),
            pg_os := s\<rparr>)"

text \<open>One pass over the pending steps: those whose dependencies are complete are run or skipped, the others
  are kept for the next pass.\<close>

fun runPass :: "'s ros \<Rightarrow> Runner \<Rightarrow> bool \<Rightarrow> Step list \<Rightarrow> 's progress \<Rightarrow> Step list \<times> 's progress" where
  "runPass O' r continueOnError [] p = ([], p)"
| "runPass O' r continueOnError (st # pending) p =
     (if \<not> dependenciesComplete (st_DependsOn st) (pg_completed p)
      then (case runPass O' r continueOnError pending p of (next', p) \<Rightarrow> (st # next', p))
      else runPass O' r continueOnError pending
        (if pg_err p \<noteq> None \<and> \<not> continueOnError \<and> \<not> st_Always st then skipStep O' st p else takeStep O' r st p))"

lemma runPass_length: "runPass O' r c pending p = (next', p') \<Longrightarrow> length next' \<le> length pending"
proof (induction pending arbitrary: p next')
  case (Cons st pending)
  show ?case
  proof (cases "dependenciesComplete (st_DependsOn st) (pg_completed p)")
    case True
    then show ?thesis using Cons.IH Cons.prems by fastforce
  next
    case False
    then show ?thesis using Cons.IH [of p] Cons.prems by (auto split: prod.splits)
  qed
qed simp

text \<open>A pass that makes no progress keeps every pending step.\<close>

function runPasses :: "'s ros \<Rightarrow> Runner \<Rightarrow> Workflow \<Rightarrow> Step list \<Rightarrow> 's progress \<Rightarrow> (ci_error + ci_error option) \<times> 's progress" where
  "runPasses O' r w pending p =
     (if pending = [] then (Inr (pg_err p), p)
      else case runPass O' r (wf_ContinueOnError w) pending p of
        (next', p) \<Rightarrow>
          if length next' = length pending then (Inl (CIMsg (''workflow '' @ quoted (wf_Name w) @ '' has unresolved dependencies'')), p)
          else runPasses O' r w next' p)"
  by pat_completeness auto
termination
proof (relation "measure (\<lambda>(O', r, w, pending, p). length pending)")
  show "((O', r, w, next', p'), O', r, w, pending, p) \<in> measure (\<lambda>(O', r, w, pending, p). length pending)"
    if "pending \<noteq> []" "(next', p') = runPass O' r (wf_ContinueOnError w) pending p" "length next' \<noteq> length pending"
    for O' :: "'s ros" and r w pending p next' p'
    using runPass_length [OF that(2) [symmetric]] that(3) by simp
qed simp

declare runPasses.simps [simp del]

definition Run :: "(string list \<Rightarrow> string list) \<Rightarrow> 's ros \<Rightarrow> Runner \<Rightarrow> Workflow \<Rightarrow> 's \<Rightarrow> ((WorkflowResult \<times> ci_error option \<times> notice list) \<times> 's) option" where
  "Run order O' r w s =
     (case ValidateWorkflow order w of
        None \<Rightarrow> None
      | Some (Some err) \<Rightarrow> Some ((\<lparr>wr_Name = '''', wr_StartedAt = 0, wr_FinishedAt = 0, wr_Steps = []\<rparr>, Some err, []), s)
      | Some None \<Rightarrow>
          (case ro_Now O' s of
             (started, s) \<Rightarrow>
               (case runPasses O' r w (wf_Steps w) \<lparr>pg_completed = [], pg_steps = [], pg_err = None, pg_log = [], pg_os = s\<rparr> of
                  (Inl err, p) \<Rightarrow> Some ((\<lparr>wr_Name = wf_Name w, wr_StartedAt = started, wr_FinishedAt = 0, wr_Steps = pg_steps p\<rparr>, Some err, pg_log p), pg_os p)
                | (Inr err, p) \<Rightarrow>
                    (case ro_Now O' (pg_os p) of
                       (finished, s) \<Rightarrow>
                         Some ((\<lparr>wr_Name = wf_Name w, wr_StartedAt = started, wr_FinishedAt = finished, wr_Steps = pg_steps p\<rparr>, err, pg_log p), s)))))"

section \<open>The registry\<close>

record CIProvider =
  pr_Name :: string
  pr_SourceType :: string
  pr_Environment :: "(string, string) gomap"

record Registry =
  rg_workflows :: "(string, Workflow) gomap"
  rg_providers :: "(string, CIProvider) gomap"

definition NewRegistry :: Registry where
  "NewRegistry = \<lparr>rg_workflows = [], rg_providers = []\<rparr>"

definition RegisterWorkflow :: "(string list \<Rightarrow> string list) \<Rightarrow> Workflow \<Rightarrow> Registry \<Rightarrow> (ci_error option \<times> Registry) option" where
  "RegisterWorkflow order w r =
     (case ValidateWorkflow order w of
        None \<Rightarrow> None
      | Some (Some err) \<Rightarrow> Some (Some err, r)
      | Some None \<Rightarrow>
          if mget (rg_workflows r) (wf_Name w) \<noteq> None then Some (Some (CIMsg (''workflow '' @ quoted (wf_Name w) @ '' is already registered'')), r)
          else Some (None, r\<lparr>rg_workflows := mput (wf_Name w) w (rg_workflows r)\<rparr>))"

definition Registry_Workflow :: "string \<Rightarrow> Registry \<Rightarrow> Workflow option" where
  "Registry_Workflow name r = mget (rg_workflows r) name"

definition WorkflowNames :: "Registry \<Rightarrow> string list" where
  "WorkflowNames r = sort (mkeys (rg_workflows r))"

definition RegisterProvider :: "CIProvider \<Rightarrow> Registry \<Rightarrow> ci_error option \<times> Registry" where
  "RegisterProvider p r =
     (if pr_Name p = '''' then (Some (CIMsg ''provider name is required''), r)
      else if mget (rg_providers r) (pr_Name p) \<noteq> None then (Some (CIMsg (''provider '' @ quoted (pr_Name p) @ '' is already registered'')), r)
      else (None, r\<lparr>rg_providers := mput (pr_Name p) p (rg_providers r)\<rparr>))"

section \<open>The built-in workflows\<close>

definition minutes :: "int \<Rightarrow> int" where
  "minutes n = n * 60 * 1000000000"

definition step0 :: Step where
  "step0 = \<lparr>st_Name = '''', st_Command = '''', st_Args = [], st_Env = [], st_Dir = '''', st_DependsOn = [], st_Privilege = '''', st_Outputs = [],
     st_CaptureStdout = '''', st_RequireEmptyStdout = False, st_Timeout = 0, st_Always = False, st_AllowedExitCodes = []\<rparr>"

definition goStep :: "string \<Rightarrow> string \<Rightarrow> string list \<Rightarrow> Privilege \<Rightarrow> int \<Rightarrow> Step" where
  "goStep dir name args privilege timeout =
     step0\<lparr>st_Name := name, st_Command := ''go'', st_Args := ''run'' # args, st_Dir := dir, st_Privilege := privilege, st_Timeout := timeout\<rparr>"

definition capturing :: "string \<Rightarrow> string \<Rightarrow> Step \<Rightarrow> Step" where
  "capturing name p st = st\<lparr>st_Outputs := [\<lparr>out_Name = name, out_Path = p, out_Kind = ''application/x-ndjson''\<rparr>], st_CaptureStdout := p\<rparr>"

definition builtinWorkflow :: "string \<Rightarrow> string \<Rightarrow> Step \<Rightarrow> Workflow" where
  "builtinWorkflow name description st =
     \<lparr>wf_Name = name, wf_Description = description, wf_Steps = [st], wf_Labels = [], wf_Archive = \<lparr>am_Workflow = '''', am_DeviceID = '''', am_Runtime = ''''\<rparr>,
      wf_ContinueOnError = False\<rparr>"

definition BuiltinWorkflows :: "(string \<Rightarrow> string) \<Rightarrow> string \<Rightarrow> Workflow list" where
  "BuiltinWorkflows getenv rootDir =
     (let image = (if getenv ''TETHUX_DYNAMIPS_IMAGE'' = ''''
            then path_Join [getenv ''HOME'', ''.local'', ''share'', ''tethux'', ''images'', ''cisco'', ''c7200-a3jk9s-mz.124-25g.bin'']
            else getenv ''TETHUX_DYNAMIPS_IMAGE'');
          artifactDir = path_Join [rootDir, ''results'', ''current'', ''artifacts''] in
      [builtinWorkflow ''mixed'' ''all-provider Ethernet topology and lifecycle''
         (capturing ''provider-matrix'' (path_Join [artifactDir, ''provider-matrix.jsonl''])
           (goStep rootDir ''provider-matrix'' [''./tools/topology/testing/provider-matrix'', ''--image'', image] ''root'' (minutes 8))),
       builtinWorkflow ''dynamips'' ''real IOS topology, lifecycle, persistence, and CLI''
         (capturing ''dynamips'' (path_Join [artifactDir, ''dynamips-results.jsonl''])
           (goStep rootDir ''dynamips-topology'' [''./tools/dynamips/testing/topology-smoke''] '''' (minutes 8))),
       builtinWorkflow ''provider'' ''container provider lifecycle''
         (capturing ''providers'' (path_Join [artifactDir, ''provider-results.jsonl''])
           (goStep rootDir ''provider'' [''./cmd/tethux'', ''virt'', ''test'', ''--provider'', ''all'', ''--output'', ''json''] ''root'' (minutes 45))),
       builtinWorkflow ''topology'' ''Lua and TOML container topologies''
         (goStep rootDir ''topology'' [''./tools/bridge/example/container-udp'', ''--runtime'', ''all''] ''root'' (minutes 45)),
       builtinWorkflow ''libvirt'' ''three-domain Alpine network topology''
         (goStep rootDir ''libvirt-network'' [''./tools/libvirt/testing/network-smoke''] ''root'' (minutes 6)),
       builtinWorkflow ''bridge'' ''exact-frame backend conformance''
         (capturing ''bridge'' (path_Join [artifactDir, ''bridge-backends.jsonl''])
           (goStep rootDir ''bridge'' [''./tools/bridge/testing/backend-smoke''] ''root'' (minutes 30)))])"

fun registerAll :: "(string list \<Rightarrow> string list) \<Rightarrow> Workflow list \<Rightarrow> Registry \<Rightarrow> (ci_error + Registry) option" where
  "registerAll order [] r = Some (Inr r)"
| "registerAll order (w # ws) r =
     (case RegisterWorkflow order w r of
        None \<Rightarrow> None
      | Some (Some err, r) \<Rightarrow> Some (Inl err)
      | Some (None, r) \<Rightarrow> registerAll order ws r)"

definition DefaultRegistry :: "(string list \<Rightarrow> string list) \<Rightarrow> (string \<Rightarrow> string) \<Rightarrow> string \<Rightarrow> (ci_error + Registry) option" where
  "DefaultRegistry order getenv rootDir =
     (case RegisterProvider \<lparr>pr_Name = ''woodpecker'', pr_SourceType = ''ci'', pr_Environment = [(''CI_RESULTS_SOURCE_PROVIDER'', ''woodpecker'')]\<rparr> NewRegistry of
        (Some err, r) \<Rightarrow> Some (Inl err)
      | (None, r) \<Rightarrow> registerAll order (BuiltinWorkflows getenv rootDir) r)"

section \<open>Remote hosts\<close>

record Remote =
  rm_Target :: string
  rm_JumpHost :: string
  rm_SSH :: string
  rm_SCP :: string

definition sshBinary :: "Remote \<Rightarrow> string" where
  "sshBinary r = (if rm_SSH r \<noteq> '''' then rm_SSH r else ''ssh'')"

definition scpBinary :: "Remote \<Rightarrow> string" where
  "scpBinary r = (if rm_SCP r \<noteq> '''' then rm_SCP r else ''scp'')"

definition remoteTransportArgs :: "string list" where
  "remoteTransportArgs = [''-o'', ''BatchMode=yes'', ''-o'', ''StrictHostKeyChecking=yes'', ''-o'', ''UpdateHostKeys=no'']"

definition badTarget :: "Remote \<Rightarrow> bool" where
  "badTarget r \<longleftrightarrow> TrimSpace (rm_Target r) = '''' \<or> HasPrefix (rm_Target r) ''-''"

definition SSHArgs :: "Remote \<Rightarrow> string list \<Rightarrow> ci_error + string list" where
  "SSHArgs r remoteArgs =
     (if badTarget r then Inl (CIMsg ''remote target is required'')
      else Inr (remoteTransportArgs @ (if rm_JumpHost r \<noteq> '''' then [''-J'', rm_JumpHost r] else []) @ [rm_Target r, ''--''] @ remoteArgs))"

definition safe_char :: "char \<Rightarrow> bool" where
  "safe_char c \<longleftrightarrow> (CHR ''A'' \<le> c \<and> c \<le> CHR ''Z'') \<or> (CHR ''a'' \<le> c \<and> c \<le> CHR ''z'') \<or> (CHR ''0'' \<le> c \<and> c \<le> CHR ''9'') \<or> c \<in> set ''._/-''"

definition safeRemotePath :: "string \<Rightarrow> bool" where
  "safeRemotePath p \<longleftrightarrow> (case p of [] \<Rightarrow> False | c # cs \<Rightarrow> c = CHR ''/'' \<and> cs \<noteq> [] \<and> list_all safe_char cs)"

fun contains_dots :: "string \<Rightarrow> bool" where
  "contains_dots (a # b # cs) \<longleftrightarrow> (a = CHR ''.'' \<and> b = CHR ''.'') \<or> contains_dots (b # cs)"
| "contains_dots _ \<longleftrightarrow> False"

definition proxyArgs :: "Remote \<Rightarrow> string list" where
  "proxyArgs r = (if rm_JumpHost r \<noteq> '''' then [''-o'', ''ProxyJump='' @ rm_JumpHost r] else [])"

definition remoteCommand :: "'s ros \<Rightarrow> string \<Rightarrow> string list \<Rightarrow> 's \<Rightarrow> ci_error option \<times> 's" where
  "remoteCommand O' binary args s =
     (case ro_Run O' \<lparr>cmd_Name = binary, cmd_Args = args, cmd_Dir = '''', cmd_Env = [], cmd_Stdout = [RunnerStdout], cmd_Timeout = 0\<rparr> s of
        (e, s) \<Rightarrow> (ce_Err e, s))"

definition Remote_Run :: "'s ros \<Rightarrow> Remote \<Rightarrow> string list \<Rightarrow> 's \<Rightarrow> ci_error option \<times> 's" where
  "Remote_Run O' r remoteArgs s =
     (case SSHArgs r remoteArgs of
        Inl err \<Rightarrow> (Some err, s)
      | Inr args \<Rightarrow> remoteCommand O' (sshBinary r) args s)"

definition CopyTo :: "'s ros \<Rightarrow> Remote \<Rightarrow> string \<Rightarrow> string \<Rightarrow> 's \<Rightarrow> ci_error option \<times> 's" where
  "CopyTo O' r source destination s =
     (if \<not> safeRemotePath destination \<or> contains_dots destination then (Some (CIMsg (''unsafe remote destination '' @ quoted destination)), s)
      else case ro_Stat O' source s of
        (Inl err, s) \<Rightarrow> (Some err, s)
      | (Inr isDir, s) \<Rightarrow>
          remoteCommand O' (scpBinary r)
            ([''-q''] @ remoteTransportArgs @ (if isDir then [''-r''] else []) @ proxyArgs r @ [path_Clean source, rm_Target r @ '':'' @ destination]) s)"

definition CopyFrom :: "'s ros \<Rightarrow> Remote \<Rightarrow> string \<Rightarrow> string \<Rightarrow> 's \<Rightarrow> ci_error option \<times> 's" where
  "CopyFrom O' r source destination s =
     (if \<not> safeRemotePath source \<or> contains_dots source then (Some (CIMsg (''unsafe remote source '' @ quoted source)), s)
      else if badTarget r then (Some (CIMsg ''remote target is required''), s)
      else case ro_MkdirAll O' destination s of
        (Some err, s) \<Rightarrow> (Some err, s)
      | (None, s) \<Rightarrow>
          remoteCommand O' (scpBinary r)
            ([''-q'', ''-r''] @ remoteTransportArgs @ proxyArgs r @ [rm_Target r @ '':'' @ source, path_Clean destination]) s)"

end
