(* ===== verification/CI_Workflow_Properties.thy ===== *)
theory CI_Workflow_Properties
  imports CI_Workflow
begin

text \<open>
  Correctness of the workflow engine: validation accepts exactly the workflows whose dependencies have no
  cycle, a validated workflow is run to its end with every step once and after what it depends on, the
  printed commands survive a shell, and where the engine does not do what it says.
\<close>

section \<open>The search for cycles\<close>

definition dep_rel :: "(string \<Rightarrow> string list) \<Rightarrow> (string \<times> string) set" where
  "dep_rel dep = {(i, d). d \<in> set (dep i)}"

lemma visitDependencies_Cons:
  "visitDependencies n dep (d # ds) m = Some (Inr m') \<longleftrightarrow> (\<exists>m1. visit n dep d m = Some (Inr m1) \<and> visitDependencies n dep ds m1 = Some (Inr m'))"
  by (auto split: option.splits sum.splits)

lemma visit_marks:
  "visit n dep i m = Some (Inr m') \<Longrightarrow> set (fst m') = set (fst m) \<and> set (snd m) \<subseteq> set (snd m') \<and> i \<in> set (snd m')"
  "visitDependencies n dep ds m = Some (Inr m') \<Longrightarrow> set (fst m') = set (fst m) \<and> set (snd m) \<subseteq> set (snd m') \<and> set ds \<subseteq> set (snd m')"
proof (induction n dep i m and n dep ds m arbitrary: m' and m' rule: visit_visitDependencies.induct)
  case (2 n dep i m)
  show ?case
  proof (cases "i \<in> set (fst m) \<or> i \<in> set (snd m)")
    case True
    then show ?thesis using 2(2) by (auto split: if_splits)
  next
    case False
    then obtain m1 where m1: "visitDependencies n dep (dep i) (i # fst m, snd m) = Some (Inr m1)" "m' = (removeAll i (fst m1), i # snd m1)"
      using 2(2) by (auto split: option.splits sum.splits)
    from 2(1) [OF _ _ m1(1)] False show ?thesis using m1(2) by auto
  qed
next
  case (4 n dep d ds m)
  then obtain m1 where m1: "visit n dep d m = Some (Inr m1)" "visitDependencies n dep ds m1 = Some (Inr m')" unfolding visitDependencies_Cons by blast
  show ?case using 4(1) [OF m1(1)] 4(2) [OF m1(1) refl m1(2)] by auto
qed auto

text \<open>The visited names are closed under dependencies, and none of them lies on a cycle.\<close>

definition cleared :: "(string \<Rightarrow> string list) \<Rightarrow> string set \<Rightarrow> bool" where
  "cleared dep V \<longleftrightarrow> (\<forall>j \<in> V. set (dep j) \<subseteq> V \<and> (j, j) \<notin> (dep_rel dep)\<^sup>+)"

lemma cleared_reach:
  assumes "(a, b) \<in> (dep_rel dep)\<^sup>*" "cleared dep V" "a \<in> V"
  shows "b \<in> V"
  using assms by (induction rule: rtrancl_induct) (auto simp: cleared_def dep_rel_def)

lemma cleared_insert:
  assumes "cleared dep V" "set (dep i) \<subseteq> V"
  shows "cleared dep (insert i V)"
proof -
  have "(i, i) \<notin> (dep_rel dep)\<^sup>+"
  proof
    assume c: "(i, i) \<in> (dep_rel dep)\<^sup>+"
    then obtain d where "(i, d) \<in> dep_rel dep" "(d, i) \<in> (dep_rel dep)\<^sup>*" by (meson tranclD)
    then have "i \<in> V" using cleared_reach [OF _ assms(1)] assms(2) by (auto simp: dep_rel_def)
    then show False using c assms(1) by (auto simp: cleared_def)
  qed
  then show ?thesis using assms by (auto simp: cleared_def)
qed

lemma visit_cleared:
  "visit n dep i m = Some (Inr m') \<Longrightarrow> cleared dep (set (snd m)) \<Longrightarrow> cleared dep (set (snd m'))"
  "visitDependencies n dep ds m = Some (Inr m') \<Longrightarrow> cleared dep (set (snd m)) \<Longrightarrow> cleared dep (set (snd m'))"
proof (induction n dep i m and n dep ds m arbitrary: m' and m' rule: visit_visitDependencies.induct)
  case (2 n dep i m)
  show ?case
  proof (cases "i \<in> set (fst m) \<or> i \<in> set (snd m)")
    case True
    then show ?thesis using 2(2,3) by (auto split: if_splits)
  next
    case False
    then obtain m1 where m1: "visitDependencies n dep (dep i) (i # fst m, snd m) = Some (Inr m1)" "m' = (removeAll i (fst m1), i # snd m1)"
      using 2(2) by (auto split: option.splits sum.splits)
    from 2(1) [OF _ _ m1(1)] False 2(3) have "cleared dep (set (snd m1))" by simp
    then show ?thesis using visit_marks(2) [OF m1(1)] m1(2) cleared_insert by simp
  qed
next
  case (4 n dep d ds m)
  then obtain m1 where m1: "visit n dep d m = Some (Inr m1)" "visitDependencies n dep ds m1 = Some (Inr m')" unfolding visitDependencies_Cons by blast
  show ?case using 4(1) [OF m1(1)] 4(2) [OF m1(1) refl m1(2)] 4(4) by simp
qed auto

lemma visit_cycle:
  "visit n dep i m = Some (Inl e) \<Longrightarrow> \<forall>v \<in> set (fst m). (v, i) \<in> (dep_rel dep)\<^sup>+ \<Longrightarrow> \<exists>j. (j, j) \<in> (dep_rel dep)\<^sup>+"
  "visitDependencies n dep ds m = Some (Inl e) \<Longrightarrow> \<forall>d \<in> set ds. \<forall>v \<in> set (fst m). (v, d) \<in> (dep_rel dep)\<^sup>+ \<Longrightarrow> \<exists>j. (j, j) \<in> (dep_rel dep)\<^sup>+"
proof (induction n dep i m and n dep ds m rule: visit_visitDependencies.induct)
  case (2 n dep i m)
  show ?case
  proof (cases "i \<in> set (fst m)")
    case True
    then show ?thesis using 2(3) by blast
  next
    case False
    then have f: "i \<notin> set (snd m)" "visitDependencies n dep (dep i) (i # fst m, snd m) = Some (Inl e)"
      using 2(2) by (auto split: if_splits option.splits sum.splits)
    have "(v, d) \<in> (dep_rel dep)\<^sup>+" if "d \<in> set (dep i)" "v \<in> set (i # fst m)" for v d
    proof -
      have "(i, d) \<in> dep_rel dep" using that(1) by (simp add: dep_rel_def)
      then show ?thesis using that(2) 2(3) by (auto intro: trancl_into_trancl)
    qed
    then show ?thesis using 2(1) [OF False f(1,2)] by simp
  qed
next
  case (4 n dep d ds m)
  then obtain x where x: "visit n dep d m = Some x" by (auto split: option.splits)
  show ?case
  proof (cases x)
    case (Inl e')
    then show ?thesis using 4(1) 4(3,4) x by simp
  next
    case (Inr m1)
    have "visitDependencies n dep ds m1 = Some (Inl e)" using 4(3) x Inr by simp
    then show ?thesis using 4(2) [OF x Inr] 4(4) visit_marks(1) [OF x [unfolded Inr]] by simp
  qed
qed auto

lemma visit_fuel:
  "finite A \<Longrightarrow> \<forall>j \<in> A. set (dep j) \<subseteq> A \<Longrightarrow> i \<in> A \<Longrightarrow> card (A - set (fst m)) < n \<Longrightarrow> visit n dep i m \<noteq> None"
  "finite A \<Longrightarrow> \<forall>j \<in> A. set (dep j) \<subseteq> A \<Longrightarrow> set ds \<subseteq> A \<Longrightarrow> card (A - set (fst m)) < n \<Longrightarrow> visitDependencies n dep ds m \<noteq> None"
proof (induction n dep i m and n dep ds m rule: visit_visitDependencies.induct)
  case (2 n dep i m)
  show ?case
  proof (cases "i \<in> set (fst m) \<or> i \<in> set (snd m)")
    case False
    have "card (A - set (i # fst m)) < card (A - set (fst m))"
      using 2(2,4) False by (intro psubset_card_mono) auto
    then have "visitDependencies n dep (dep i) (i # fst m, snd m) \<noteq> None"
      using 2(1) 2(2-5) False by auto
    then show ?thesis by (auto split: option.splits sum.splits)
  qed auto
next
  case (4 n dep d ds m)
  from 4(1) 4(3-6) obtain x where x: "visit n dep d m = Some x" by auto
  show ?case
  proof (cases x)
    case (Inr m1)
    then show ?thesis using 4(2) [OF x Inr] 4(3-6) visit_marks(1) [of n dep d m m1] x by auto
  qed (use x in auto)
qed auto

section \<open>Valid workflows\<close>

definition depends :: "Step list \<Rightarrow> (string \<times> string) set" where
  "depends steps = {(st_Name st, d) | st d. st \<in> set steps \<and> d \<in> set (st_DependsOn st)}"

definition workflow_ok :: "Workflow \<Rightarrow> bool" where
  "workflow_ok w \<longleftrightarrow> wf_Name w \<noteq> [] \<and> (\<forall>st \<in> set (wf_Steps w). st_Name st \<noteq> [] \<and> st_Command st \<noteq> [])
     \<and> distinct (map st_Name (wf_Steps w)) \<and> (\<forall>st \<in> set (wf_Steps w). set (st_DependsOn st) \<subseteq> st_Name ` set (wf_Steps w))
     \<and> acyclic (depends (wf_Steps w))"

lemma stepNames_iff:
  "stepNames steps names = Inr names' \<longleftrightarrow> names' = names @ map st_Name steps \<and> (\<forall>st \<in> set steps. st_Name st \<noteq> [] \<and> st_Command st \<noteq> [])
     \<and> distinct (map st_Name steps) \<and> set names \<inter> st_Name ` set steps = {}"
  by (induction steps arbitrary: names) auto

lemma checkDependencies_iff: "checkDependencies i names ds = None \<longleftrightarrow> set ds \<subseteq> set names \<and> i \<notin> set ds"
  by (induction ds) auto

lemma checkSteps_iff: "checkSteps steps names = None \<longleftrightarrow> (\<forall>st \<in> set steps. set (st_DependsOn st) \<subseteq> set names \<and> st_Name st \<notin> set (st_DependsOn st))"
proof (induction steps)
  case (Cons st steps)
  then show ?case using checkDependencies_iff [of "st_Name st" names "st_DependsOn st"]
    by (cases "checkDependencies (st_Name st) names (st_DependsOn st)") simp_all
qed simp

lemma byName_step:
  assumes "distinct (map st_Name steps)" "st \<in> set steps"
  shows "byName steps (st_Name st) = st_DependsOn st"
proof -
  have "map_of (rev (map (\<lambda>st. (st_Name st, st)) steps)) (st_Name st) = Some st"
    using assms by (subst map_of_eq_Some_iff) (auto simp: rev_map [symmetric] comp_def)
  then show ?thesis by (simp add: byName_def)
qed

lemma byName_other: "i \<notin> st_Name ` set steps \<Longrightarrow> byName steps i = []"
  by (auto simp: byName_def split: option.splits dest!: map_of_SomeD)

lemma dep_rel_byName:
  assumes "distinct (map st_Name steps)"
  shows "dep_rel (byName steps) = depends steps"
proof -
  have "d \<in> set (byName steps i) \<longleftrightarrow> (\<exists>st. st \<in> set steps \<and> st_Name st = i \<and> d \<in> set (st_DependsOn st))" for i d
  proof (cases "i \<in> st_Name ` set steps")
    case True
    then obtain st where st: "st \<in> set steps" "i = st_Name st" by blast
    have "st' = st" if "st' \<in> set steps" "st_Name st' = i" for st' using that st assms by (auto simp: distinct_map inj_on_def)
    then show ?thesis using st byName_step [OF assms st(1)] by auto
  qed (auto simp: byName_other)
  then show ?thesis by (auto simp: dep_rel_def depends_def)
qed

lemma acyclic_def': "acyclic r \<longleftrightarrow> \<not> (\<exists>j. (j, j) \<in> r\<^sup>+)"
  by (simp add: acyclic_def)

lemma search_iff:
  assumes "finite A" "\<forall>j \<in> A. set (dep j) \<subseteq> A" "\<forall>j. j \<notin> A \<longrightarrow> dep j = []" "card A < n" "set ds = A"
  shows "\<exists>x. visitDependencies n dep ds ([], []) = Some x \<and> ((\<exists>m. x = Inr m) \<longleftrightarrow> acyclic (dep_rel dep))"
proof -
  obtain x where x: "visitDependencies n dep ds ([], []) = Some x" using visit_fuel(2) [of A dep ds "([], [])" n] assms by auto
  show ?thesis
  proof (cases x)
    case (Inl e)
    then show ?thesis using visit_cycle(2) [of n dep ds "([], [])" e] x by (auto simp: acyclic_def')
  next
    case (Inr m)
    have c: "cleared dep (set (snd m))" "A \<subseteq> set (snd m)"
      using visit_cleared(2) [OF x [unfolded Inr]] visit_marks(2) [OF x [unfolded Inr]] assms(5) by (simp_all add: cleared_def)
    have "(j, j) \<notin> (dep_rel dep)\<^sup>+" for j
    proof
      assume "(j, j) \<in> (dep_rel dep)\<^sup>+"
      moreover from this obtain d where "(j, d) \<in> dep_rel dep" by (meson tranclD)
      ultimately show False using c assms(3) by (fastforce simp: cleared_def dep_rel_def)
    qed
    then show ?thesis using x Inr by (auto simp: acyclic_def)
  qed
qed

text \<open>Whatever the order in which Go visits the names, validation ends, within the depth given to it,
  and accepts exactly the workflows that have a name, whose steps have a command and different names, depend
  on steps of the workflow only, and have no cycle of dependencies.\<close>

lemma ValidateWorkflow_ok:
  assumes "\<And>xs. set (order xs) = set xs"
  shows "ValidateWorkflow order w \<noteq> None \<and> (ValidateWorkflow order w = Some None \<longleftrightarrow> workflow_ok w)"
proof (cases "\<exists>names. wf_Name w \<noteq> [] \<and> stepNames (wf_Steps w) [] = Inr names \<and> checkSteps (wf_Steps w) names = None")
  case False
  then show ?thesis
  proof (cases "stepNames (wf_Steps w) []")
    case (Inl e)
    then have "\<not> workflow_ok w" using stepNames_iff [of "wf_Steps w" "[]" "map st_Name (wf_Steps w)"] by (auto simp: workflow_ok_def)
    then show ?thesis using Inl by (simp add: ValidateWorkflow_def)
  next
    case (Inr names)
    then have n: "wf_Name w = [] \<or> checkSteps (wf_Steps w) names \<noteq> None" using False by auto
    have "names = map st_Name (wf_Steps w)" using Inr by (simp add: stepNames_iff)
    moreover have "st_Name st \<notin> set (st_DependsOn st)" if "workflow_ok w" "st \<in> set (wf_Steps w)" for st
    proof
      assume "st_Name st \<in> set (st_DependsOn st)"
      then have "(st_Name st, st_Name st) \<in> (depends (wf_Steps w))\<^sup>+" using that(2) by (auto simp: depends_def)
      then show False using that(1) by (auto simp: workflow_ok_def acyclic_def)
    qed
    ultimately have "\<not> workflow_ok w"
      using n by (auto simp: workflow_ok_def checkSteps_iff)
    then show ?thesis using Inr n by (auto simp: ValidateWorkflow_def)
  qed
next
  case True
  then obtain names where n: "wf_Name w \<noteq> []" "stepNames (wf_Steps w) [] = Inr names" "checkSteps (wf_Steps w) names = None" by blast
  have names: "names = map st_Name (wf_Steps w)" "\<forall>st \<in> set (wf_Steps w). st_Name st \<noteq> [] \<and> st_Command st \<noteq> []" "distinct names"
    using n(2) by (auto simp: stepNames_iff)
  have deps: "\<forall>st \<in> set (wf_Steps w). set (st_DependsOn st) \<subseteq> set names" using n(3) by (simp add: checkSteps_iff)
  have closed: "\<forall>j \<in> set names. set (byName (wf_Steps w) j) \<subseteq> set names"
    using deps names(1,3) byName_step by auto
  have other: "\<forall>j. j \<notin> set names \<longrightarrow> byName (wf_Steps w) j = []" using names(1) byName_other by auto
  obtain x where x: "visitDependencies (Suc (length names)) (byName (wf_Steps w)) (order names) ([], []) = Some x"
    "(\<exists>m. x = Inr m) \<longleftrightarrow> acyclic (dep_rel (byName (wf_Steps w)))"
    using search_iff [OF _ closed other, of "Suc (length names)" "order names"] assms by (auto simp: card_length less_Suc_eq_le)
  have "ValidateWorkflow order w = Some (case x of Inl err \<Rightarrow> Some err | Inr _ \<Rightarrow> None)"
    using n x(1) by (simp add: ValidateWorkflow_def split: sum.splits)
  moreover have "workflow_ok w \<longleftrightarrow> (\<exists>m. x = Inr m)"
    using x(2) dep_rel_byName names n(1) deps by (auto simp: workflow_ok_def)
  ultimately show ?thesis by (auto split: sum.splits)
qed

text \<open>A workflow of four steps, one of them kept for the end of every run.\<close>

definition demo_step :: "string \<Rightarrow> string list \<Rightarrow> Step" where
  "demo_step i ds = step0\<lparr>st_Name := i, st_Command := ''go'', st_DependsOn := ds\<rparr>"

definition demo_workflow :: Workflow where
  "demo_workflow = (builtinWorkflow ''unit'' [] step0)\<lparr>wf_Steps := [demo_step ''test'' [''lint'', ''build''], demo_step ''build'' [''lint''],
     (demo_step ''clean'' [''test''])\<lparr>st_Always := True\<rparr>, demo_step ''lint'' []]\<rparr>"

lemma demo_workflow_valid: "ValidateWorkflow id demo_workflow = Some None"
  by (simp add: ValidateWorkflow_def demo_workflow_def builtinWorkflow_def demo_step_def step0_def byName_def)

section \<open>Runs of a workflow\<close>

text \<open>Every name comes after all it depends on.\<close>

fun topo :: "(string \<times> string) set \<Rightarrow> string set \<Rightarrow> string list \<Rightarrow> bool" where
  "topo D seen [] \<longleftrightarrow> True"
| "topo D seen (i # is) \<longleftrightarrow> D `` {i} \<subseteq> seen \<and> topo D (insert i seen) is"

text \<open>What is reported of a run: after a failure only the steps \<open>A\<close> are run, and only then are others skipped.\<close>

fun orderly :: "string set \<Rightarrow> bool \<Rightarrow> notice list \<Rightarrow> bool" where
  "orderly A bad [] \<longleftrightarrow> True"
| "orderly A bad (x # xs) \<longleftrightarrow>
     (case x of
        FAIL i n e \<Rightarrow> (bad \<longrightarrow> i \<in> A) \<and> orderly A True xs
      | PASS i \<Rightarrow> (bad \<longrightarrow> i \<in> A) \<and> orderly A bad xs
      | PLAN i \<Rightarrow> (bad \<longrightarrow> i \<in> A) \<and> orderly A bad xs
      | SKIP i \<Rightarrow> bad \<and> i \<notin> A \<and> orderly A bad xs
      | _ \<Rightarrow> orderly A bad xs)"

definition is_fail :: "notice \<Rightarrow> bool" where
  "is_fail x \<longleftrightarrow> (\<exists>i n e. x = FAIL i n e)"

lemma topo_append: "topo D S (xs @ ys) \<longleftrightarrow> topo D S xs \<and> topo D (S \<union> set xs) ys"
  by (induction xs arbitrary: S) (auto simp: insert_absorb)

lemma orderly_append: "orderly A f (xs @ ys) \<longleftrightarrow> orderly A f xs \<and> orderly A (f \<or> list_ex is_fail xs) ys"
  by (induction xs arbitrary: f) (auto simp: is_fail_def split: notice.splits)

text \<open>What one step that is run adds: its result under its name; its notices end with its outcome.\<close>

lemma elevate_notices: "elevate O' r st env s = (Inl (msg, ns), s') \<Longrightarrow> orderly A f ns \<and> \<not> list_ex is_fail ns"
  by (auto simp: elevate_def is_fail_def split: if_splits prod.splits)

lemma judgeStep_name: "judgeStep st b err ce res = (res', err') \<Longrightarrow> sr_Name res' = sr_Name res"
  by (auto simp: judgeStep_def Let_def split: if_splits option.splits)

lemma RunStep_result:
  assumes "RunStep O' r st s = ((result, err, ns), s')"
  shows "sr_Name result = st_Name st \<and> orderly A f ns \<and> \<not> list_ex is_fail ns \<and> (rn_DryRun r \<longrightarrow> err = None)"
proof -
  obtain started s0 where 0: "ro_Now O' s = (started, s0)" by (rule prod.exhaust)
  define env where "env = mergedEnvironment (ro_Environ O' s0) (rn_BaseEnv r) (st_Env st)"
  obtain x s1 where 1: "elevate O' r st env s0 = (x, s1)" by (rule prod.exhaust)
  have dry: "rn_DryRun r \<Longrightarrow> \<exists>c. x = Inr c" using 1 by (auto simp: elevate_def)
  show ?thesis
  proof (cases x)
    case (Inl y)
    obtain msg ns' where y: "y = (msg, ns')" by (rule prod.exhaust)
    show ?thesis using assms 0 1 dry Inl y elevate_notices [OF 1 [unfolded Inl y]]
      by (auto simp: RunStep_def env_def [symmetric] Let_def split: prod.splits)
  next
    case (Inr c)
    obtain cmd args where c: "c = (cmd, args)" by (rule prod.exhaust)
    show ?thesis
    proof (cases "rn_DryRun r")
      case True
      then show ?thesis using assms 0 1 Inr c by (auto simp: RunStep_def env_def [symmetric] Let_def is_fail_def split: prod.splits)
    next
      case False
      then show ?thesis using assms 0 1 Inr c
        by (auto simp: RunStep_def env_def [symmetric] Let_def is_fail_def dest!: judgeStep_name split: prod.splits sum.splits option.splits)
    qed
  qed
qed

definition may_run :: "Workflow \<Rightarrow> string set" where
  "may_run w = {i. wf_ContinueOnError w \<or> (\<exists>st \<in> set (wf_Steps w). st_Name st = i \<and> st_Always st)}"

definition run_inv :: "Workflow \<Rightarrow> string set \<Rightarrow> 's progress \<Rightarrow> bool" where
  "run_inv w R p \<longleftrightarrow> dom (mget (pg_completed p)) = st_Name ` set (wf_Steps w) - R \<and> set (map sr_Name (pg_steps p)) = st_Name ` set (wf_Steps w) - R
     \<and> distinct (map sr_Name (pg_steps p)) \<and> topo (depends (wf_Steps w)) {} (map sr_Name (pg_steps p))
     \<and> orderly (may_run w) False (pg_log p) \<and> (pg_err p \<noteq> None \<longleftrightarrow> list_ex is_fail (pg_log p))"

lemma may_run_step:
  assumes "workflow_ok w" "st \<in> set (wf_Steps w)"
  shows "st_Name st \<in> may_run w \<longleftrightarrow> wf_ContinueOnError w \<or> st_Always st"
proof -
  have "st' = st" if "st' \<in> set (wf_Steps w)" "st_Name st' = st_Name st" for st'
    using that assms by (auto simp: workflow_ok_def distinct_map inj_on_def)
  then show ?thesis using assms(2) by (auto simp: may_run_def)
qed

lemma depends_step:
  assumes "workflow_ok w" "st \<in> set (wf_Steps w)"
  shows "depends (wf_Steps w) `` {st_Name st} = set (st_DependsOn st)"
proof -
  have "st' = st" if "st' \<in> set (wf_Steps w)" "st_Name st' = st_Name st" for st'
    using that assms by (auto simp: workflow_ok_def distinct_map inj_on_def)
  then show ?thesis using assms(2) by (auto simp: depends_def)
qed

lemma run_inv_add:
  assumes "workflow_ok w" "st \<in> set (wf_Steps w)" "st_Name st \<in> R" "run_inv w R p" "dependenciesComplete (st_DependsOn st) (pg_completed p)"
    and p': "pg_completed p' = mput (st_Name st) res (pg_completed p)" "pg_steps p' = pg_steps p @ [res]" "sr_Name res = st_Name st"
      "pg_log p' = pg_log p @ ns"
    and ns: "orderly (may_run w) (pg_err p \<noteq> None) ns" "pg_err p' \<noteq> None \<longleftrightarrow> pg_err p \<noteq> None \<or> list_ex is_fail ns"
  shows "run_inv w (R - {st_Name st}) p'"
proof -
  have "st_Name st \<in> st_Name ` set (wf_Steps w)" using assms(2) by blast
  then have n: "st_Name ` set (wf_Steps w) - (R - {st_Name st}) = insert (st_Name st) (st_Name ` set (wf_Steps w) - R)"
    "st_Name st \<notin> st_Name ` set (wf_Steps w) - R" using assms(3) by auto
  have d: "set (st_DependsOn st) \<subseteq> st_Name ` set (wf_Steps w) - R"
    using assms(4,5) by (auto simp: run_inv_def dependenciesComplete_def list_all_iff dom_def)
  have i: "dom (mget (pg_completed p)) = st_Name ` set (wf_Steps w) - R" "set (map sr_Name (pg_steps p)) = st_Name ` set (wf_Steps w) - R"
    "distinct (map sr_Name (pg_steps p))" "topo (depends (wf_Steps w)) {} (map sr_Name (pg_steps p))"
    "orderly (may_run w) False (pg_log p)" "pg_err p \<noteq> None \<longleftrightarrow> list_ex is_fail (pg_log p)"
    using assms(4) by (simp_all only: run_inv_def)
  have "dom (mget (pg_completed p')) = insert (st_Name st) (dom (mget (pg_completed p)))" by (simp add: p'(1))
  moreover have "set (map sr_Name (pg_steps p')) = insert (st_Name st) (set (map sr_Name (pg_steps p)))" by (simp add: p'(2,3))
  moreover have "distinct (map sr_Name (pg_steps p'))" using i(2,3) n(2) p'(2,3) by simp
  moreover have "topo (depends (wf_Steps w)) {} (map sr_Name (pg_steps p'))"
    using i(4) d depends_step [OF assms(1,2)] by (simp add: p'(2,3) topo_append i(2) [simplified])
  moreover have "orderly (may_run w) False (pg_log p')" using i(5,6) ns(1) by (simp add: p'(4) orderly_append)
  moreover have "pg_err p' \<noteq> None \<longleftrightarrow> list_ex is_fail (pg_log p')" using i(6) ns(2) by (simp add: p'(4))
  ultimately show ?thesis unfolding run_inv_def n(1) using i(1,2) by simp
qed

lemma skip_inv:
  assumes "workflow_ok w" "st \<in> set (wf_Steps w)" "st_Name st \<in> R" "run_inv w R p" "dependenciesComplete (st_DependsOn st) (pg_completed p)"
    and "pg_err p \<noteq> None" "\<not> wf_ContinueOnError w" "\<not> st_Always st"
  shows "run_inv w (R - {st_Name st}) (skipStep O' st p)"
proof -
  obtain t1 s1 where 1: "ro_Now O' (pg_os p) = (t1, s1)" by (rule prod.exhaust)
  obtain t2 s2 where 2: "ro_Now O' s1 = (t2, s2)" by (rule prod.exhaust)
  have "st_Name st \<notin> may_run w" using may_run_step [OF assms(1,2)] assms(7,8) by simp
  then show ?thesis
    using run_inv_add [OF assms(1-5), where ns = "[SKIP (st_Name st)]" and p' = "skipStep O' st p"]
    by (simp add: skipStep_def 1 2 Let_def assms(6) is_fail_def)
qed

lemma take_inv:
  assumes "workflow_ok w" "st \<in> set (wf_Steps w)" "st_Name st \<in> R" "run_inv w R p" "dependenciesComplete (st_DependsOn st) (pg_completed p)"
    and "pg_err p = None \<or> wf_ContinueOnError w \<or> st_Always st"
  shows "run_inv w (R - {st_Name st}) (takeStep O' r st p)"
proof -
  obtain res err ns s' where 1: "RunStep O' r st (pg_os p) = ((res, err, ns), s')" by (metis prod.exhaust)
  have a: "pg_err p \<noteq> None \<longrightarrow> st_Name st \<in> may_run w" using may_run_step [OF assms(1,2)] assms(6) by auto
  note R = RunStep_result [OF 1, of "may_run w" "pg_err p \<noteq> None"]
  define x where "x = (if rn_DryRun r then PLAN (st_Name st) else case err of Some e \<Rightarrow> FAIL (st_Name st) (sr_ExitCode res) e | None \<Rightarrow> PASS (st_Name st))"
  have x: "orderly (may_run w) (pg_err p \<noteq> None) [x]" "is_fail x \<longleftrightarrow> err \<noteq> None"
    using a R by (auto simp: x_def is_fail_def split: option.splits)
  have ns: "orderly (may_run w) (pg_err p \<noteq> None) (ns @ [x])" "list_ex is_fail (ns @ [x]) \<longleftrightarrow> err \<noteq> None"
    using R x by (auto simp: orderly_append)
  show ?thesis
  proof (rule run_inv_add [OF assms(1-5)])
    show "pg_log (takeStep O' r st p) = pg_log p @ (ns @ [x])" by (simp add: takeStep_def 1 x_def)
    show "pg_err (takeStep O' r st p) \<noteq> None \<longleftrightarrow> pg_err p \<noteq> None \<or> list_ex is_fail (ns @ [x])"
      using ns(2) by (auto simp: takeStep_def 1 split: option.splits)
    show "pg_completed (takeStep O' r st p) = mput (st_Name st) res (pg_completed p)" "pg_steps (takeStep O' r st p) = pg_steps p @ [res]"
      by (simp_all add: takeStep_def 1)
  qed (use R ns(1) in simp_all)
qed

lemma Diff_insert_Diff: "n \<notin> B \<Longrightarrow> R - (insert n A - B) = R - {n} - (A - B)"
  by auto

lemma runPass_inv:
  assumes "runPass O' r (wf_ContinueOnError w) pending p = (next', p')" "workflow_ok w" "set pending \<subseteq> set (wf_Steps w)" "distinct (map st_Name pending)"
    and "st_Name ` set pending \<subseteq> R" "run_inv w R p"
  shows "set next' \<subseteq> set pending \<and> distinct (map st_Name next') \<and> run_inv w (R - (st_Name ` set pending - st_Name ` set next')) p'
    \<and> (length next' = length pending \<longrightarrow> p' = p \<and> next' = pending \<and> (\<forall>st \<in> set pending. \<not> dependenciesComplete (st_DependsOn st) (pg_completed p)))"
  using assms(1,3-6)
proof (induction pending arbitrary: p R next')
  case (Cons st pending)
  note IH = Cons.IH and prems = Cons.prems
  have st: "st \<in> set (wf_Steps w)" "st_Name st \<in> R" "st_Name st \<notin> st_Name ` set pending" using prems by auto
  show ?case
  proof (cases "dependenciesComplete (st_DependsOn st) (pg_completed p)")
    case False
    then obtain nx where nx: "runPass O' r (wf_ContinueOnError w) pending p = (nx, p')" "next' = st # nx"
      using prems(1) by (auto split: prod.splits)
    have I: "set nx \<subseteq> set pending \<and> distinct (map st_Name nx) \<and> run_inv w (R - (st_Name ` set pending - st_Name ` set nx)) p'
      \<and> (length nx = length pending \<longrightarrow> p' = p \<and> nx = pending \<and> (\<forall>st \<in> set pending. \<not> dependenciesComplete (st_DependsOn st) (pg_completed p)))"
      using IH [OF nx(1)] prems by auto
    have "st_Name ` set (st # pending) - st_Name ` set next' = st_Name ` set pending - st_Name ` set nx" using st(3) nx(2) I by auto
    then show ?thesis using I nx(2) st(3) False by auto
  next
    case True
    define q where "q = (if pg_err p \<noteq> None \<and> \<not> wf_ContinueOnError w \<and> \<not> st_Always st then skipStep O' st p else takeStep O' r st p)"
    have q: "runPass O' r (wf_ContinueOnError w) pending q = (next', p')" using prems(1) True by (simp add: q_def)
    have "run_inv w (R - {st_Name st}) q"
      unfolding q_def using skip_inv [OF assms(2) st(1,2) prems(5) True] take_inv [OF assms(2) st(1,2) prems(5) True] by simp
    then have I: "set next' \<subseteq> set pending \<and> distinct (map st_Name next') \<and> run_inv w (R - {st_Name st} - (st_Name ` set pending - st_Name ` set next')) p'"
      using IH [OF q, of "R - {st_Name st}"] prems st by auto
    have "st_Name st \<notin> st_Name ` set next'" using st(3) image_mono [of "set next'" "set pending" st_Name] I by blast
    then have "R - (st_Name ` set (st # pending) - st_Name ` set next') = R - {st_Name st} - (st_Name ` set pending - st_Name ` set next')"
      unfolding list.set image_insert by (rule Diff_insert_Diff)
    moreover have "length next' \<le> length pending" by (rule runPass_length [OF q])
    ultimately show ?thesis using I by auto
  qed
qed auto

text \<open>Of the steps that are pending, one has all it depends on complete.\<close>

lemma some_step_ready:
  assumes "workflow_ok w" "pending \<noteq> []" "set pending \<subseteq> set (wf_Steps w)" "run_inv w (st_Name ` set pending) p"
  shows "\<exists>st \<in> set pending. dependenciesComplete (st_DependsOn st) (pg_completed p)"
proof (rule ccontr)
  assume none: "\<not> (\<exists>st \<in> set pending. dependenciesComplete (st_DependsOn st) (pg_completed p))"
  let ?D = "depends (wf_Steps w)" and ?R = "st_Name ` set pending"
  have "?D \<subseteq> st_Name ` set (wf_Steps w) \<times> (\<Union>st \<in> set (wf_Steps w). set (st_DependsOn st))" by (auto simp: depends_def)
  then have "finite ?D" by (rule finite_subset) simp
  then have "wf (?D\<inverse>)" using assms(1) by (simp add: finite_acyclic_wf_converse workflow_ok_def)
  moreover obtain z0 where "z0 \<in> ?R" using assms(2) by (cases pending) auto
  ultimately obtain z where z: "z \<in> ?R" "\<And>y. (y, z) \<in> ?D\<inverse> \<Longrightarrow> y \<notin> ?R" by (metis wf_eq_minimal)
  then obtain st where st: "st \<in> set pending" "z = st_Name st" by blast
  then have st': "st \<in> set (wf_Steps w)" using assms(3) by blast
  obtain d where d: "d \<in> set (st_DependsOn st)" "d \<notin> dom (mget (pg_completed p))"
    using none st(1) by (auto simp: dependenciesComplete_def list_all_iff)
  have "d \<in> st_Name ` set (wf_Steps w)" using assms(1) st' d(1) by (auto simp: workflow_ok_def)
  then have "d \<in> ?R" using d(2) assms(4) by (auto simp: run_inv_def)
  moreover have "(z, d) \<in> ?D" using st st' d(1) by (auto simp: depends_def)
  ultimately show False using z(2) by blast
qed

lemma runPasses_inv:
  assumes "workflow_ok w" "set pending \<subseteq> set (wf_Steps w)" "distinct (map st_Name pending)" "run_inv w (st_Name ` set pending) p"
  shows "\<exists>p'. runPasses O' r w pending p = (Inr (pg_err p'), p') \<and> run_inv w {} p'"
  using assms(2-4)
proof (induction "length pending" arbitrary: pending p rule: less_induct)
  case less
  show ?case
  proof (cases "pending = []")
    case True
    then show ?thesis using less.prems by (simp add: runPasses.simps [of O' r w "[]"])
  next
    case False
    obtain nx q where nx: "runPass O' r (wf_ContinueOnError w) pending p = (nx, q)" by (rule prod.exhaust)
    note I = runPass_inv [OF nx assms(1) less.prems(1,2) order.refl less.prems(3)]
    have ne: "length nx \<noteq> length pending" using I some_step_ready [OF assms(1) False less.prems(1,3)] by auto
    have lt: "length nx < length pending" using runPass_length [OF nx] ne by simp
    have "st_Name ` set pending - (st_Name ` set pending - st_Name ` set nx) = st_Name ` set nx" using I by auto
    then have "run_inv w (st_Name ` set nx) q" using I by simp
    then obtain p' where "runPasses O' r w nx q = (Inr (pg_err p'), p') \<and> run_inv w {} p'"
      using less.hyps [OF lt] I less.prems(1) by blast
    then show ?thesis using False nx ne by (subst runPasses.simps) simp
  qed
qed

text \<open>A run of a valid workflow returns, whatever the commands do. Every step has exactly one result,
  after the results of all steps it depends on. The run reports an error exactly if a step failed; after a
  failure only the steps marked \<open>Always\<close> are run and all others are skipped, and no step is skipped
  before or when the workflow continues on errors.\<close>

theorem Run_executes_workflow:
  assumes "\<And>xs. set (order xs) = set xs" "workflow_ok w"
  shows "\<exists>res err log s'. Run order O' r w s = Some ((res, err, log), s')
    \<and> distinct (map sr_Name (wr_Steps res)) \<and> set (map sr_Name (wr_Steps res)) = st_Name ` set (wf_Steps w)
    \<and> topo (depends (wf_Steps w)) {} (map sr_Name (wr_Steps res))
    \<and> (err \<noteq> None \<longleftrightarrow> list_ex is_fail log) \<and> orderly (may_run w) False log"
proof -
  have v: "ValidateWorkflow order w = Some None" using ValidateWorkflow_ok [OF assms(1)] assms(2) by blast
  obtain t s0 where 0: "ro_Now O' s = (t, s0)" by (rule prod.exhaust)
  define p where "p = \<lparr>pg_completed = [], pg_steps = [], pg_err = None, pg_log = [], pg_os = s0\<rparr>"
  have "run_inv w (st_Name ` set (wf_Steps w)) p" by (simp add: run_inv_def p_def)
  then obtain p' where p': "runPasses O' r w (wf_Steps w) p = (Inr (pg_err p'), p')" "run_inv w {} p'"
    using runPasses_inv [OF assms(2) order.refl, of p O' r] assms(2) by (auto simp: workflow_ok_def)
  obtain t' s' where 1: "ro_Now O' (pg_os p') = (t', s')" by (rule prod.exhaust)
  have "Run order O' r w s = Some ((\<lparr>wr_Name = wf_Name w, wr_StartedAt = t, wr_FinishedAt = t', wr_Steps = pg_steps p'\<rparr>, pg_err p', pg_log p'), s')"
    using v 0 p'(1) 1 by (simp add: Run_def p_def)
  then show ?thesis using p'(2) by (simp add: run_inv_def)
qed

text \<open>A host whose commands end as the list says, in order, and print nothing.\<close>

definition demo_ros :: "ci_error option list ros" where
  "demo_ros = \<lparr>ro_Now = (\<lambda>s. (7, s)), ro_Environ = (\<lambda>s. [''PATH=/bin'']), ro_Getenv = (\<lambda>i s. []), ro_Geteuid = (\<lambda>s. 0),
     ro_MkdirAll = (\<lambda>p s. (None, s)), ro_OpenFile = (\<lambda>p s. (Inr 3, s)), ro_CloseFile = (\<lambda>h s. (None, s)),
     ro_Run = (\<lambda>c s. (\<lparr>ce_Err = (case s of [] \<Rightarrow> None | e # _ \<Rightarrow> e), ce_Stdout = [], ce_CtxErr = None\<rparr>, tl s)),
     ro_Stat = (\<lambda>p s. (Inr False, s))\<rparr>"

theorem Run_executes_workflow_witness:
  "\<exists>res err log s'. Run id demo_ros \<lparr>rn_DryRun = False, rn_BaseEnv = []\<rparr> demo_workflow [None, Some (ExitError 2)] = Some ((res, err, log), s')
     \<and> distinct (map sr_Name (wr_Steps res)) \<and> set (map sr_Name (wr_Steps res)) = {''lint'', ''build'', ''test'', ''clean''}"
proof -
  have "workflow_ok demo_workflow" using ValidateWorkflow_ok [of id demo_workflow] demo_workflow_valid by simp
  then obtain res err log s' where "Run id demo_ros \<lparr>rn_DryRun = False, rn_BaseEnv = []\<rparr> demo_workflow [None, Some (ExitError 2)] = Some ((res, err, log), s')"
    "distinct (map sr_Name (wr_Steps res))" "set (map sr_Name (wr_Steps res)) = st_Name ` set (wf_Steps demo_workflow)"
    using Run_executes_workflow [of id demo_workflow demo_ros "\<lparr>rn_DryRun = False, rn_BaseEnv = []\<rparr>" "[None, Some (ExitError 2)]"] by auto
  moreover have "st_Name ` set (wf_Steps demo_workflow) = {''lint'', ''build'', ''test'', ''clean''}"
    by (auto simp: demo_workflow_def demo_step_def)
  ultimately show ?thesis by auto
qed

section \<open>Commands to copy\<close>

text \<open>How a POSIX shell takes a line of words apart: quotes are removed, \<open>&&\<close> is an operator, and \<open>None\<close>
  is a line that holds anything the shell would expand or that is not closed.\<close>

datatype token = Word string | AndAnd

datatype quoting = Unquoted | InSingle | InDouble

definition flush :: "string option \<Rightarrow> token list" where
  "flush acc = (case acc of None \<Rightarrow> [] | Some w \<Rightarrow> [Word w])"

abbreviation so_far :: "string option \<Rightarrow> string" where
  "so_far acc \<equiv> (case acc of None \<Rightarrow> [] | Some w \<Rightarrow> w)"

fun shell :: "quoting \<Rightarrow> string option \<Rightarrow> string \<Rightarrow> token list option" where
  "shell Unquoted acc [] = Some (flush acc)"
| "shell InSingle acc [] = None"
| "shell InDouble acc [] = None"
| "shell Unquoted acc (c # cs) =
     (if c = CHR '' '' then map_option (\<lambda>ts. flush acc @ ts) (shell Unquoted None cs)
      else if c = sq then shell InSingle (Some (so_far acc)) cs
      else if c = dq then shell InDouble (Some (so_far acc)) cs
      else if c = CHR ''&'' then (case cs of d # ds \<Rightarrow> if d = CHR ''&'' then map_option (\<lambda>ts. flush acc @ AndAnd # ts) (shell Unquoted None ds) else None | [] \<Rightarrow> None)
      else if plain_char c then shell Unquoted (Some (so_far acc @ [c])) cs
      else None)"
| "shell InSingle acc (c # cs) = (if c = sq then shell Unquoted acc cs else shell InSingle (Some (so_far acc @ [c])) cs)"
| "shell InDouble acc (c # cs) =
     (if c = dq then shell Unquoted acc cs
      else if c \<in> {CHR ''$'', CHR 0x60, CHR 0x5C} then None
      else shell InDouble (Some (so_far acc @ [c])) cs)"

lemma plain_not_special: "plain_char c \<Longrightarrow> c \<noteq> CHR '' '' \<and> c \<noteq> sq \<and> c \<noteq> dq \<and> c \<noteq> CHR ''&''"
  by (auto simp: plain_char_def sq_def dq_def less_eq_char_def)

lemma shell_plain: "list_all plain_char v \<Longrightarrow> v \<noteq> [] \<Longrightarrow> shell Unquoted acc (v @ rest) = shell Unquoted (Some (so_far acc @ v)) rest"
proof (induction v arbitrary: acc)
  case (Cons c v)
  then have "shell Unquoted acc ((c # v) @ rest) = shell Unquoted (Some (so_far acc @ [c])) (v @ rest)"
    using plain_not_special [of c] by simp
  then show ?case using Cons by (cases "v = []") simp_all
qed simp

lemma shell_quoted:
  "shell InSingle (Some w) (concat (map (\<lambda>c. if c = sq then [sq, dq, sq, dq, sq] else [c]) v) @ sq # rest) = shell Unquoted (Some (w @ v)) rest"
  by (induction v arbitrary: w) (auto simp: sq_def dq_def)

lemma shell_shellQuote: "shell Unquoted acc (shellQuote v @ rest) = shell Unquoted (Some (so_far acc @ v)) rest"
proof (cases "v \<noteq> [] \<and> list_all plain_char v")
  case True
  then show ?thesis by (simp add: shellQuote_def shell_plain)
next
  case False
  then have "shell Unquoted acc (shellQuote v @ rest) =
      shell InSingle (Some (so_far acc)) (concat (map (\<lambda>c. if c = sq then [sq, dq, sq, dq, sq] else [c]) v) @ sq # rest)"
    by (auto simp: shellQuote_def) (simp_all add: sq_def)
  then show ?thesis by (simp only: shell_quoted)
qed

lemma shell_words: "ws \<noteq> [] \<Longrightarrow> shell Unquoted None (joinSep '' '' (map shellQuote ws)) = Some (map Word ws)"
proof (induction ws)
  case (Cons v ws)
  show ?case
  proof (cases ws)
    case Nil
    then show ?thesis using shell_shellQuote [of None v "[]"] by (simp add: flush_def)
  next
    case (Cons u us)
    then show ?thesis using shell_shellQuote [of None v "'' '' @ joinSep '' '' (map shellQuote ws)"] Cons.IH by (simp add: flush_def)
  qed
qed simp

lemma append_singleton: "(@) [x] = (#) x"
  by (rule ext) simp

text \<open>\<open>sudo\<close> needs no quotes, and neither do \<open>cd\<close> and the operator after it.\<close>

lemma shell_cd: "shell Unquoted None (''cd '' @ shellQuote dir @ '' && '' @ rest) = map_option (\<lambda>ts. [Word ''cd'', Word dir, AndAnd] @ ts) (shell Unquoted None rest)"
proof -
  have cd: "list_all plain_char ''cd''" by (simp add: plain_char_def less_eq_char_def)
  have "shell Unquoted None (''cd '' @ shellQuote dir @ '' && '' @ rest) = shell Unquoted (Some ''cd'') ('' '' @ shellQuote dir @ '' && '' @ rest)"
    using shell_plain [OF cd, of None "'' '' @ shellQuote dir @ '' && '' @ rest"] by simp
  also have "\<dots> = map_option (\<lambda>ts. Word ''cd'' # ts) (shell Unquoted None (shellQuote dir @ '' && '' @ rest))" by (simp add: flush_def append_singleton)
  also have "shell Unquoted None (shellQuote dir @ '' && '' @ rest) = shell Unquoted (Some dir) ('' && '' @ rest)"
    by (simp only: shell_shellQuote option.case append_Nil)
  also have "\<dots> = map_option (\<lambda>ts. Word dir # ts) (shell Unquoted None (''&& '' @ rest))" by (simp add: flush_def append_singleton)
  also have "shell Unquoted None (''&& '' @ rest) = map_option (\<lambda>ts. AndAnd # ts) (shell Unquoted None ('' '' @ rest))"
    by (simp add: flush_def append_singleton sq_def dq_def)
  also have "shell Unquoted None ('' '' @ rest) = shell Unquoted None rest" by (cases "shell Unquoted None rest") (simp_all add: flush_def)
  finally show ?thesis by (cases "shell Unquoted None rest") simp_all
qed

lemma sudo_quoted: "shellQuote ''sudo'' = ''sudo''"
  by (simp add: shellQuote_def plain_char_def less_eq_char_def)

lemma passOn_not_n: "''-n'' \<notin> set (passOn rootVariables env)"
proof -
  have "\<exists>i \<in> set names. HasPrefix v (i @ ''='')" if "v \<in> set (passOn names env)" for v names
    using that by (induction names) (auto split: list.splits dest: Cons_eq_filterD)
  moreover have "\<not> HasPrefix ''-n'' (i @ ''='')" if "i \<in> set rootVariables" for i
    using that by (auto simp: rootVariables_def HasPrefix_def)
  ultimately show ?thesis by blast
qed

text \<open>A shell takes the command that is printed for copying apart into exactly the words it was made of,
  whatever characters they contain. These words are the command that a runner with passwordless \<open>sudo\<close>
  would run, without the \<open>-n\<close> of \<open>sudo\<close>, if and only if neither the command nor an argument of the step
  is itself \<open>-n\<close>: those are dropped too.\<close>

theorem copy_command_survives_shell:
  "shell Unquoted None (rootCopyCommand dir cmd args env) =
     Some ((if dir \<noteq> [] then [Word ''cd'', Word dir, AndAnd] else []) @ map Word (''sudo'' # privilegedCommandArgs cmd args env))
   \<and> (privilegedCommandArgs cmd args env = tl (rootCommandArgs cmd args env) \<longleftrightarrow> ''-n'' \<notin> set (cmd # args))"
proof
  let ?ws = "''sudo'' # privilegedCommandArgs cmd args env"
  have copy: "rootCopyCommand dir cmd args env = (if dir \<noteq> [] then ''cd '' @ shellQuote dir @ '' && '' else []) @ joinSep '' '' (map shellQuote ?ws)"
    by (simp add: rootCopyCommand_def sudo_quoted)
  have w: "shell Unquoted None (joinSep '' '' (map shellQuote ?ws)) = Some (map Word ?ws)" by (rule shell_words) simp
  show "shell Unquoted None (rootCopyCommand dir cmd args env) = Some ((if dir \<noteq> [] then [Word ''cd'', Word dir, AndAnd] else []) @ map Word ?ws)"
    unfolding copy using w shell_cd [of dir "joinSep '' '' (map shellQuote ?ws)"] by (simp del: joinSep.simps list.map)
  have f: "filter (\<lambda>v. v \<noteq> ''-n'') (passOn rootVariables env) = passOn rootVariables env"
    using passOn_not_n by (auto simp: filter_id_conv)
  have "privilegedCommandArgs cmd args env = ''env'' # passOn rootVariables env @ filter (\<lambda>v. v \<noteq> ''-n'') (cmd # args)"
    by (simp add: privilegedCommandArgs_def rootCommandArgs_def f)
  then show "privilegedCommandArgs cmd args env = tl (rootCommandArgs cmd args env) \<longleftrightarrow> ''-n'' \<notin> set (cmd # args)"
    using filter_id_conv [of "\<lambda>v. v \<noteq> ''-n''" "cmd # args"] by (auto simp: rootCommandArgs_def)
qed

section \<open>Steps that must not print\<close>

text \<open>A step that requires an empty standard output and whose command succeeds but prints something:
  it fails when its output is not captured, but it passes when its output is captured to a file, because the
  writer to the file replaces the one that collects the output.\<close>

theorem captured_output_is_not_checked:
  assumes "st_RequireEmptyStdout st" "st_Privilege st \<noteq> ''root''" "\<not> rn_DryRun r" "p \<noteq> []"
    and prints: "\<And>c u. ce_Err (fst (ro_Run O' c u)) = None \<and> TrimSpace (ce_Stdout (fst (ro_Run O' c u))) \<noteq> []"
    and files: "\<And>d u. fst (ro_MkdirAll O' d u) = None" "\<And>f u. \<exists>h. fst (ro_OpenFile O' f u) = Inr h" "\<And>h u. fst (ro_CloseFile O' h u) = None"
  shows "(\<exists>res e ns s'. RunStep O' r (st\<lparr>st_CaptureStdout := []\<rparr>) s = ((res, Some e, ns), s'))
    \<and> (\<exists>res ns s'. RunStep O' r (st\<lparr>st_CaptureStdout := p\<rparr>) s = ((res, None, ns), s') \<and> sr_Error res = [])"
proof
  obtain t s0 where 0: "ro_Now O' s = (t, s0)" by (rule prod.exhaust)
  have el: "elevate O' r (st\<lparr>st_CaptureStdout := q\<rparr>) env u = (Inr (st_Command st, st_Args st), u)" for q env u
    using assms(2) by (simp add: elevate_def)
  have run: "\<exists>e v. ro_Run O' c u = (e, v) \<and> ce_Err e = None \<and> TrimSpace (ce_Stdout e) \<noteq> []" for c u
    using prints [of c u] by (cases "ro_Run O' c u") auto
  have jF: "\<exists>res' e'. judgeStep (st\<lparr>st_CaptureStdout := q\<rparr>) b None ce res = (res', Some e')" if "TrimSpace b \<noteq> []" for q b ce res
    using that assms(1) by (simp add: judgeStep_def Let_def)
  have jP: "judgeStep (st\<lparr>st_CaptureStdout := q\<rparr>) [] None ce res = (res, None)" for q ce res
    by (simp add: judgeStep_def Let_def TrimSpace_def)
  show "\<exists>res e ns s'. RunStep O' r (st\<lparr>st_CaptureStdout := []\<rparr>) s = ((res, Some e, ns), s')"
  proof -
    define c where "c = \<lparr>cmd_Name = st_Command st, cmd_Args = st_Args st, cmd_Dir = st_Dir st, cmd_Env = mergedEnvironment (ro_Environ O' s0) (rn_BaseEnv r) (st_Env st),
      cmd_Stdout = [RunnerStdout, BufferWriter], cmd_Timeout = st_Timeout st\<rparr>"
    obtain e v where e: "ro_Run O' c s0 = (e, v)" "ce_Err e = None" "TrimSpace (ce_Stdout e) \<noteq> []" using run by blast
    obtain t' v' where v': "ro_Now O' v = (t', v')" by (rule prod.exhaust)
    show ?thesis
      using 0 assms(1,3) el e v' jF [OF e(3)] by (auto simp: RunStep_def Let_def stepStdout_def c_def [symmetric] split: prod.splits) (metis prod.inject option.inject option.distinct(1))
  qed
  show "\<exists>res ns s'. RunStep O' r (st\<lparr>st_CaptureStdout := p\<rparr>) s = ((res, None, ns), s') \<and> sr_Error res = []"
  proof -
    obtain u1 where u1: "ro_MkdirAll O' (path_Dir p) s0 = (None, u1)" using files(1) [of "path_Dir p" s0] by (cases "ro_MkdirAll O' (path_Dir p) s0") auto
    obtain h u2 where u2: "ro_OpenFile O' p u1 = (Inr h, u2)" using files(2) [of p u1] by (cases "ro_OpenFile O' p u1") auto
    define c where "c = \<lparr>cmd_Name = st_Command st, cmd_Args = st_Args st, cmd_Dir = st_Dir st, cmd_Env = mergedEnvironment (ro_Environ O' s0) (rn_BaseEnv r) (st_Env st),
      cmd_Stdout = [RunnerStdout, CaptureFile h], cmd_Timeout = st_Timeout st\<rparr>"
    obtain e v where e: "ro_Run O' c u2 = (e, v)" "ce_Err e = None" using run by blast
    obtain v1 where v1: "ro_CloseFile O' h v = (None, v1)" using files(3) [of h v] by (cases "ro_CloseFile O' h v") auto
    obtain t' v' where v': "ro_Now O' v1 = (t', v')" by (rule prod.exhaust)
    show ?thesis
      using 0 assms(3,4) el u1 u2 e v1 v' jP by (simp add: RunStep_def Let_def stepStdout_def c_def [symmetric] ci_Join_def List.map_filter_def)
  qed
qed

theorem captured_output_is_not_checked_witness:
  "\<exists>res ns s'. RunStep (demo_ros\<lparr>ro_Run := \<lambda>c s. (\<lparr>ce_Err = None, ce_Stdout = ''main.go'', ce_CtxErr = None\<rparr>, s)\<rparr>) \<lparr>rn_DryRun = False, rn_BaseEnv = []\<rparr>
     ((demo_step ''gofmt'' [])\<lparr>st_RequireEmptyStdout := True, st_CaptureStdout := ''out.txt''\<rparr>) [] = ((res, None, ns), s') \<and> sr_Error res = []"
  using captured_output_is_not_checked [of "(demo_step ''gofmt'' [])\<lparr>st_RequireEmptyStdout := True\<rparr>" "\<lparr>rn_DryRun = False, rn_BaseEnv = []\<rparr>" "''out.txt''"
      "demo_ros\<lparr>ro_Run := \<lambda>c s. (\<lparr>ce_Err = None, ce_Stdout = ''main.go'', ce_CtxErr = None\<rparr>, s)\<rparr>" "[]"]
  by (simp add: demo_step_def step0_def demo_ros_def TrimSpace_def is_space_def)

section \<open>The default registry and remote hosts\<close>

lemma single_step_ok:
  "wf_Steps w = [st] \<Longrightarrow> wf_Name w \<noteq> [] \<Longrightarrow> st_Name st \<noteq> [] \<Longrightarrow> st_Command st \<noteq> [] \<Longrightarrow> st_DependsOn st = [] \<Longrightarrow> workflow_ok w"
  by (simp add: workflow_ok_def depends_def acyclic_def)

lemma builtins_ok: "w \<in> set (BuiltinWorkflows getenv d) \<Longrightarrow> workflow_ok w"
  by (auto simp: BuiltinWorkflows_def Let_def builtinWorkflow_def goStep_def capturing_def step0_def intro!: single_step_ok)

lemma registerAll_ok:
  assumes "\<And>xs. set (order xs) = set xs" "\<forall>w \<in> set ws. workflow_ok w" "distinct (map wf_Name ws)" "\<forall>w \<in> set ws. mget (rg_workflows r) (wf_Name w) = None"
  shows "registerAll order ws r = Some (Inr (r\<lparr>rg_workflows := rg_workflows r @ map (\<lambda>w. (wf_Name w, w)) ws\<rparr>))"
  using assms(2-4)
proof (induction ws arbitrary: r)
  case (Cons w ws)
  have v: "ValidateWorkflow order w = Some None" using ValidateWorkflow_ok [OF assms(1)] Cons.prems(1) by simp
  have "RegisterWorkflow order w r = Some (None, r\<lparr>rg_workflows := rg_workflows r @ [(wf_Name w, w)]\<rparr>)"
    using v Cons.prems(3) by (simp add: RegisterWorkflow_def mput_new)
  moreover have "wf_Name w' \<noteq> wf_Name w" if "w' \<in> set ws" for w' using Cons.prems(2) that by (auto simp: image_iff)
  ultimately show ?case
    using Cons.IH [of "r\<lparr>rg_workflows := rg_workflows r @ [(wf_Name w, w)]\<rparr>"] Cons.prems by (auto simp: map_add_def)
qed simp

text \<open>The built-in workflows are valid and have different names: the default registry always comes up.\<close>

lemma DefaultRegistry_complete:
  assumes "\<And>xs. set (order xs) = set xs"
  shows "\<exists>r. DefaultRegistry order getenv d = Some (Inr r) \<and> map fst (rg_workflows r) = [''mixed'', ''dynamips'', ''provider'', ''topology'', ''libvirt'', ''bridge'']"
proof -
  have n: "map wf_Name (BuiltinWorkflows getenv d) = [''mixed'', ''dynamips'', ''provider'', ''topology'', ''libvirt'', ''bridge'']"
    by (simp add: BuiltinWorkflows_def Let_def builtinWorkflow_def)
  have "distinct (map wf_Name (BuiltinWorkflows getenv d))" unfolding n by simp
  moreover obtain r where r: "RegisterProvider \<lparr>pr_Name = ''woodpecker'', pr_SourceType = ''ci'', pr_Environment = [(''CI_RESULTS_SOURCE_PROVIDER'', ''woodpecker'')]\<rparr> NewRegistry = (None, r)"
    "rg_workflows r = []" by (simp add: RegisterProvider_def NewRegistry_def)
  ultimately show ?thesis
    using registerAll_ok [OF assms, of "BuiltinWorkflows getenv d" r] builtins_ok n by (auto simp: DefaultRegistry_def comp_def)
qed

text \<open>Copying to a remote host hands a target that begins with a dash to \<open>scp\<close>, which takes it for an option;
  running commands and copying from a host refuse it.\<close>

lemma CopyTo_passes_option:
  assumes "HasPrefix (rm_Target r) ''-''" "safeRemotePath p" "\<not> contains_dots p" "ro_Stat O' f s = (Inr False, s1)"
  shows "(\<exists>args. CopyTo O' r f p s = remoteCommand O' (scpBinary r) args s1 \<and> (rm_Target r @ '':'' @ p) \<in> set args \<and> HasPrefix (rm_Target r @ '':'' @ p) ''-'')
    \<and> CopyFrom O' r p d s = (Some (CIMsg ''remote target is required''), s) \<and> Remote_Run O' r xs s = (Some (CIMsg ''remote target is required''), s)"
  using assms by (cases "rm_Target r") (auto simp: CopyTo_def CopyFrom_def Remote_Run_def SSHArgs_def badTarget_def HasPrefix_def)

end
