(* ===== verification/Spec2Isabelle.thy ===== *)
theory Spec2Isabelle
  imports Bridge_Properties Bridge_Middleware Storage_Operation_Facts
    Storage_Lifecycle_Properties Storage_Confinement
    Topology_Properties Virt_Manager_Properties Dynamips_Properties
    Libvirt_Properties Shitnet_Properties
    Topology_Local_Properties Container_Bridge_Properties CI_Workflow_Properties
begin

text \<open>
  \<^bold>\<open>A verification library for tethux.\<close> Tethux builds network laboratories: a declarative
  topology (\<open>topology/\<close>) of workloads, whose Ethernet links are carried by user-space switches
  (\<open>bridge/\<close>), run by container, hypervisor and emulator providers (\<open>virt/\<close>), which get their
  volumes and disks from a storage layer (\<open>storage/\<close>). A run of a topology (\<open>topology/local\<close>) calls all
  of them: it starts each node through its provider, connects the ends of each link by a bridge with a
  UDP port, and undoes everything on \<open>Close\<close>. This theory imports the whole library; each part of the
  program has its own theories.

  \<^bold>\<open>Shared theories.\<close>

  \<^item> \<open>Prelude\<close>: Go maps as association lists, \<open>float64\<close> as far as comparisons go, debug assertions
    (\<open>internal/assert\<close>), decimal numerals, strings, reachability and the locale \<open>inductive_invariant\<close>,
    through which every invariant over sequences of calls is proved.

  \<^item> \<open>Errors\<close>: the error packages (\<open>bridge/errs\<close>, \<open>storage/errs\<close>, \<open>topology/errs\<close>,
    \<open>virt/container/errs\<close>, and those of the Dynamips, Shitnet and libvirt providers), \<open>errors.Is\<close> and
    \<open>errors.Join\<close>. The locale \<open>op_errors\<close> says what a caller relies on (category and cause survive
    wrapping) and is interpreted for each package.

  \<^item> \<open>Net_Addr\<close>: addresses and hardware addresses as Go's \<open>net\<close> and \<open>netip\<close> parse them.

  \<^bold>\<open>The network: \<open>bridge/\<close>.\<close>

  \<^item> \<open>Bridge_Frame\<close>, \<open>Bridge_Switch\<close>, \<open>Bridge_Switch_Facts\<close>, \<open>Bridge_Properties\<close>: the learning
    Ethernet switch (\<open>engine.go\<close>). The record \<open>Switch\<close> has the fields of the struct; every
    method is a function into the option type, where \<open>None\<close> is a failed debug assertion. Shown: the
    invariant of \<open>assertValidLocked\<close> holds in every state that the methods and the frames of attached
    ports reach; there, well-formed calls fail no assertion, so the debug and release builds agree on
    them; frame processing refines an abstract learning switch; flooding, isolation of write failures,
    removal and stopping of ports; and what a reader that outlives its port does, which includes a
    failed assertion and a dangling table entry. A method is one step, also \<open>processFrame\<close>, which in the
    code takes the lock of the switch piecewise; \<open>Stop\<close> takes for granted that a reader ends when its
    context is cancelled and its port closed, so its wait never blocks here.

  \<^item> \<open>Bridge_Middleware\<close>: wrapping of ports, latency and packet loss (\<open>middleware.go\<close>), and
    the transport registry (\<open>transport.go\<close>). Draws of the random source are a parameter.

  \<^item> \<open>Bridge_Transport\<close>, \<open>Bridge_Transport_Properties\<close>: the transports (\<open>rawsocket.go\<close>, \<open>pcap.go\<close>,
    \<open>tap.go\<close>, \<open>udp.go\<close>) over system calls and libraries that are parameters. Shown: a port that opens
    owns one resource and gives it back, one that does not leaves none; how timeouts of each transport
    reach the reader of the switch.

  \<^item> \<open>Container_Bridge\<close>, \<open>Container_Bridge_Properties\<close>: interfaces in network namespaces (\<open>link.go\<close>)
    and the bridge of a container (\<open>container_bridge.go\<close>), built from transports, middleware and
    switch. Shown: thread pins, namespace handles and sockets balance on every path; and what a failed
    attachment leaves.

  \<^bold>\<open>Storage: \<open>storage/\<close>.\<close>

  \<^item> \<open>Storage_Types\<close>, \<open>Storage_Operation\<close>, \<open>Storage_Operation_Facts\<close>: the storage contract
    and the handle of asynchronous operations (\<open>local/operation.go\<close>), with
    the steps of worker and subscriber goroutines in any order. Shown: workers never block, outcomes
    are final, and a subscriber gets exactly one terminal event.

  \<^item> \<open>Storage_FS\<close>, \<open>Storage_Local\<close>: the local storage provider (\<open>local/local.go\<close>), every method over an
    explicit file tree. Calls of the operating system are definitions of \<open>Storage_FS\<close>; the environment
    may make any call fail and may cancel the context at any look at it. A call that follows a
    symbolic link is recorded in \<open>outside\<close>. The recursion of \<open>copyPath\<close> has fuel, which is shown to
    suffice (the depth of the tree) whenever the destination lies outside the source, and that of
    \<open>walkDir\<close> is shown to suffice always.

  \<^item> \<open>Storage_FS_Facts\<close>, \<open>Storage_Local_Facts\<close>, \<open>Storage_Copy_Facts\<close>, \<open>Storage_Object_Facts\<close>,
    \<open>Storage_Move_Facts\<close>, \<open>Storage_Invariant\<close>, \<open>Storage_Provider_Invariant\<close>, \<open>Storage_Quiet\<close>: triples
    of the calls and methods. \<open>Storage_Properties\<close>, \<open>Storage_Transfer_Properties\<close>,
    \<open>Storage_Lifecycle_Properties\<close>, \<open>Storage_Confinement\<close>: paths are confined, and no sequence of calls
    but copies leaves the root; writes are atomic, round trips, copies and moves, preparation, dirty
    marks, commits and the asynchronous variants; and the inputs on which copies and moves lose data,
    follow a link or do not end.

  \<^item> \<open>Storage_Release\<close>: \<open>release.go\<close> and \<open>internal/cleanup\<close>.

  \<^bold>\<open>Workloads: \<open>virt/\<close>.\<close>

  \<^item> \<open>Virt_Types\<close>, \<open>Virt_Manager\<close>, \<open>Virt_Manager_Facts\<close>, \<open>Virt_Manager_Properties\<close>: the managers of
    container and domain workloads (\<open>container/manager.go\<close>, \<open>domain/manager.go\<close>) and image references.
    The locale \<open>storage_leases\<close> is the account of leases that a storage manager allows; \<open>audited\<close> adds it
    to any storage manager. Shown: no lease is lost or released twice on any path; over the local
    provider, preparation is all or nothing; image references round trip.

  \<^item> \<open>Dynamips\<close>, \<open>Dynamips_Facts\<close>, \<open>Dynamips_Properties\<close>: the Dynamips provider
    (\<open>emulator/dynamips\<close>) over the calls of the native runtime, a parameter. Shown: every native handle
    is deleted or tracked; the state of a router stays leased as long as the router exists; validated
    settings reach the runtime without truncation and only where they belong; and how a partial
    deletion hides the inventory.

  \<^item> \<open>Libvirt\<close>, \<open>Libvirt_Facts\<close>, \<open>Libvirt_Properties\<close>: the libvirt provider (\<open>hypervisor/libvirt\<close>) over
    the bindings, the XML codec and the UUID parser as parameters. \<open>Stop\<close> polls with a timer and a
    ticker that are values of the model. Shown: references are given back and only owned domains
    are changed; documents are built exactly for well-formed configurations; \<open>Stop\<close> returns; events
    arrive in order; and what becomes of a domain that cannot be inspected.

  \<^item> \<open>Shitnet\<close>, \<open>Shitnet_Properties\<close>: the adapter of the small native stacks (\<open>emulator/shitnet\<close>), with
    the goroutine of each endpoint as a state machine beside the calls; the frames of one reply are
    written in one of its steps. Shown: no stack is used after it was closed, sockets are closed, and
    a cancelled goroutine ends if the stack runs out of notifications.

  \<^bold>\<open>Topologies: \<open>topology/\<close>.\<close>

  \<^item> \<open>Topology\<close>, \<open>Topology_Properties\<close>: the topology model and its validation, shown equivalent to a
    declarative predicate of well-formed topologies.

  \<^item> \<open>Topology_Local\<close>, \<open>Topology_Local_Facts\<close>, \<open>Topology_Local_Properties\<close>: runs on the local machine
    (\<open>local/*.go\<close>) over a host whose operations are parameters. Shown: what the host's operations hand
    out is deleted or tracked on every path (what a failed creation leaves without telling is counted
    apart), and the ports and interface names of links fit.

  \<^bold>\<open>Test automation: \<open>internal/ci\<close>.\<close>

  \<^item> \<open>CI_Workflow\<close>, \<open>CI_Workflow_Properties\<close>: workflows, their registry and remote hosts. Shown:
    validation accepts exactly the acyclic workflows (its search has a bound on the depth that suffices),
    a run executes every step once and in order, and the commands printed for copying survive a shell.

  \<^bold>\<open>Interfaces as locales.\<close> Where the program calls code that is not its own, a locale states the
  account that the calls allow (\<open>storage_leases\<close>, \<open>hypervisor_account\<close>, \<open>host_account\<close> and so on); it is
  interpreted on any such code with a log beside its state (\<open>audited\<close>, \<open>watched\<close>, \<open>watched_host\<close>,
  \<open>logged\<close>, \<open>observed\<close>), so the theorems assume nothing of it but the type of its calls, or name what
  they assume.

  \<^bold>\<open>Conventions.\<close> A nil pointer is \<open>None\<close>; errors are values of \<open>gerror\<close>; a Go map is an
  association list and no statement depends on its order; machine integers that are stored or
  compared at their width are words. A lock is not modelled where the code holds it for a whole
  method: such a method is one step. Where goroutines interleave (subscriptions, asynchronous
  operations, endpoints, readers after a removal) the steps are explicit. A loop that may run forever
  is a partial function whose value is then \<open>None\<close>. Time stamps of events are left out where nothing
  reads them.

  \<^bold>\<open>Not modelled.\<close> The decoders of TOML and Lua topologies (\<open>topology/toml\<close>, \<open>topology/lua\<close>), which only
  fill in the modelled types from what third-party parsers return; the clients of the container
  daemons (\<open>virt/container/containerd\<close>, \<open>moby\<close>, \<open>docker\<close>, \<open>podman\<close>), which only send requests and are
  parameters here; the archives of test results (\<open>internal/ci/archive.go\<close>); the command-line programs
  (\<open>cmd/\<close>), the test programs and tools (\<open>tools/\<close>, \<open>dagger/\<close>) and the build.
\<close>

end
